(* ===== verification/Prelude.thy ===== *)
theory Prelude
  imports Main "HOL-Library.Word" "HOL-Library.Monad_Syntax"
begin

text \<open>
  Shared vocabulary of the development: the machine integers of the C code, the
  raw memory accesses its loops make (with \<^term>\<open>None\<close> for an access outside the
  object, which C leaves undefined), the little-endian byte order of the targets
  (ARM and x86), and the lemmas on them that every component uses.
\<close>

unbundle bit_operations_syntax

type_synonym byte = "8 word"
type_synonym u32 = "32 word"
type_synonym u64 = "64 word"

named_theorems mem_simps \<open>closed forms of the copying loops\<close>
named_theorems le_simps \<open>little-endian encoding and decoding\<close>
named_theorems buf_intros \<open>a buffer operation succeeds and yields the expected bytes\<close>
named_theorems buf_defs \<open>definitions of the buffer operations\<close>

section \<open>Memory accesses\<close>

text \<open>
  A pointer is a pair of the object it points into (its bytes) and an offset.
  \<open>copy_loop n d di s si\<close> is the loop
  \<^verbatim>\<open>for (i = 0; i < n; ++i) d[di + i] = s[si + i];\<close>
  and stops with \<^term>\<open>None\<close> at the first access outside either object.
\<close>

fun copy_loop :: "nat \<Rightarrow> byte list \<Rightarrow> nat \<Rightarrow> byte list \<Rightarrow> nat \<Rightarrow> byte list option" where
  "copy_loop 0 d di s si = Some d"
| "copy_loop (Suc n) d di s si =
     (if di < length d \<and> si < length s
      then copy_loop n (d[di := s ! si]) (Suc di) s (Suc si)
      else None)"

text \<open>Reading \<open>n\<close> consecutive bytes, as a word access through a cast pointer does.\<close>

definition mem_read :: "byte list \<Rightarrow> nat \<Rightarrow> nat \<Rightarrow> byte list option" where
  "mem_read m p n = (if p + n \<le> length m then Some (take n (drop p m)) else None)"

text \<open>\<^verbatim>\<open>memset(m + p, v, n)\<close>\<close>

definition mem_set :: "byte list \<Rightarrow> nat \<Rightarrow> byte \<Rightarrow> nat \<Rightarrow> byte list option" where
  "mem_set m p v n =
     (if p + n \<le> length m then Some (take p m @ replicate n v @ drop (p + n) m) else None)"

section \<open>Little-endian words\<close>

fun le_bytes :: "nat \<Rightarrow> 'a::len word \<Rightarrow> byte list" where
  "le_bytes 0 w = []"
| "le_bytes (Suc n) w = ucast w # le_bytes n (drop_bit 8 w)"

fun le_val :: "byte list \<Rightarrow> 'a::len word" where
  "le_val [] = 0"
| "le_val (b # bs) = ucast b OR push_bit 8 (le_val bs)"

text \<open>The loads \<^verbatim>\<open>*(uint32_t *)p\<close> and \<^verbatim>\<open>*(uint64_t *)p\<close>.\<close>

definition load32 :: "byte list \<Rightarrow> nat \<Rightarrow> u32 option" where
  "load32 m p = map_option le_val (mem_read m p 4)"

definition load64 :: "byte list \<Rightarrow> nat \<Rightarrow> u64 option" where
  "load64 m p = map_option le_val (mem_read m p 8)"

section \<open>Lemmas\<close>

lemma copy_loop_eq [mem_simps]:
  "n = 0 \<or> (di + n \<le> length d \<and> si + n \<le> length s) \<Longrightarrow>
   copy_loop n d di s si = Some (take di d @ take n (drop si s) @ drop (di + n) d)"
proof (induction n arbitrary: d di si)
  case 0
  then show ?case by simp
next
  case (Suc n)
  then have b: "di < length d" "si < length s" by auto
  have "copy_loop (Suc n) d di s si = copy_loop n (d[di := s ! si]) (Suc di) s (Suc si)"
    using b by simp
  also have "\<dots> = Some (take (Suc di) (d[di := s ! si]) @ take n (drop (Suc si) s) @
                       drop (Suc di + n) (d[di := s ! si]))"
    by (rule Suc.IH) (use Suc.prems in auto)
  also have "take (Suc di) (d[di := s ! si]) = take di d @ [s ! si]"
    using b by (simp add: take_Suc_conv_app_nth)
  also have "drop (Suc di + n) (d[di := s ! si]) = drop (di + Suc n) d"
    by simp
  finally show ?case
    using b by (simp add: Cons_nth_drop_Suc [symmetric])
qed

lemma copy_loop_None [mem_simps]:
  "0 < n \<Longrightarrow> \<not> (di + n \<le> length d \<and> si + n \<le> length s) \<Longrightarrow> copy_loop n d di s si = None"
proof (induction n arbitrary: d di si)
  case 0
  then show ?case by simp
next
  case (Suc n)
  show ?case
  proof (cases "n = 0")
    case True
    with Suc.prems show ?thesis by auto
  next
    case False
    with Suc.prems have "copy_loop n (d[di := s ! si]) (Suc di) s (Suc si) = None"
      by (intro Suc.IH) auto
    then show ?thesis by simp
  qed
qed

lemma copy_loop_length: "copy_loop n d di s si = Some d' \<Longrightarrow> length d' = length d"
  by (induction n arbitrary: d di si) (auto split: if_splits)

lemma length_le_bytes [simp]: "length (le_bytes n w) = n"
  by (induction n arbitrary: w) auto

lemma le_val_le_bytes: "le_val (le_bytes n w) = take_bit (8 * n) w"
proof (induction n arbitrary: w)
  case 0
  then show ?case by simp
next
  case (Suc n)
  have "le_val (le_bytes (Suc n) w) = ucast (ucast w :: byte) OR push_bit 8 (take_bit (8 * n) (drop_bit 8 w))"
    by (simp add: Suc.IH)
  also have "\<dots> = take_bit (8 * Suc n) w"
    by (rule bit_word_eqI) (auto simp: bit_simps)
  finally show ?case .
qed

lemma le_val32 [le_simps, simp]: "le_val (le_bytes 4 w) = (w :: u32)"
  by (simp add: le_val_le_bytes take_bit_word_eq_self)

lemma le_val64 [le_simps, simp]: "le_val (le_bytes 8 w) = (w :: u64)"
  by (simp add: le_val_le_bytes take_bit_word_eq_self)

lemma le_val_take_bit:
  "8 * length bs \<le> m \<Longrightarrow> take_bit m (le_val bs :: 'a::len word) = le_val bs"
proof (induction bs arbitrary: m)
  case Nil
  then show ?case by simp
next
  case (Cons b bs)
  have "take_bit m (le_val (b # bs) :: 'a word) = ucast b OR push_bit 8 (take_bit (m - 8) (le_val bs))"
    using Cons.prems by (intro bit_word_eqI) (auto simp: bit_simps dest: bit_imp_le_length)
  also have "take_bit (m - 8) (le_val bs :: 'a word) = le_val bs"
    by (rule Cons.IH) (use Cons.prems in simp)
  finally show ?case by simp
qed

lemma le_bytes_le_val:
  "8 * length bs \<le> LENGTH('a::len) \<Longrightarrow> le_bytes (length bs) (le_val bs :: 'a word) = bs"
proof (induction bs)
  case Nil
  then show ?case by simp
next
  case (Cons b bs)
  have h: "ucast (ucast b OR push_bit 8 (le_val bs) :: 'a word) = b"
    using Cons.prems by (intro bit_word_eqI) (auto simp: bit_simps)
  have t: "drop_bit 8 (ucast b OR push_bit 8 (le_val bs) :: 'a word)
             = take_bit (LENGTH('a) - 8) (le_val bs)"
    by (rule bit_word_eqI) (auto simp: bit_simps dest: bit_imp_le_length)
  have "take_bit (LENGTH('a) - 8) (le_val bs :: 'a word) = le_val bs"
    by (rule le_val_take_bit) (use Cons.prems in simp)
  with h t Cons show ?case by simp
qed

lemma load32_append [le_simps, simp]: "length xs = p \<Longrightarrow> load32 (xs @ le_bytes 4 w @ ys) p = Some w"
  by (simp add: load32_def mem_read_def)

lemma load64_append [le_simps, simp]: "length xs = p \<Longrightarrow> load64 (xs @ le_bytes 8 w @ ys) p = Some w"
  by (simp add: load64_def mem_read_def)

text \<open>A number that fits is read the same with and without a sign.\<close>

lemma sint_small: "unat (n :: u32) < 2 ^ 31 \<Longrightarrow> sint n = int (unat n)"
proof -
  assume "unat n < 2 ^ 31"
  moreover have u: "uint n = int (unat n)" by simp
  ultimately have "uint n < 2 ^ 31" by (metis of_nat_less_numeral_power_cancel_iff)
  moreover have "- (2 ^ 31) \<le> uint n" by (rule order_trans [OF _ uint_ge_0]) simp
  ultimately have "sint n = uint n" by (simp add: sint_uint signed_take_bit_int_eq_self)
  then show "sint n = int (unat n)" using u by (rule trans)
qed

end
