(* ===== verification/Buf.thy ===== *)
theory Buf
  imports Prelude
begin

text \<open>
  The growable byte buffer of \<^verbatim>\<open>libtg/tl/buf.c\<close>.  A \<open>buf\<close> is the C struct
  \<^verbatim>\<open>buf_t\<close>: the heap block behind \<^verbatim>\<open>aptr\<close> (its bytes), the distance
  \<^verbatim>\<open>data - aptr\<close>, and the two 32-bit sizes.  Every operation that can touch memory
  outside the block returns \<^term>\<open>None\<close> there.  The canonical buffer \<open>mkbuf xs\<close>
  (contents \<open>xs\<close>, zero up to the end of the block) is what the constructors build;
  the closed forms of the operations on it are what the other theories rewrite with.
\<close>

section \<open>The structure and its operations\<close>

text \<open>\<^verbatim>\<open>BUFSIZ\<close> of \<^verbatim>\<open><stdio.h>\<close> on the Darwin targets of the program.\<close>

definition BUFSIZ :: nat where
  "BUFSIZ = 1024"

record buf =
  bblk :: "byte list"   \<comment> \<open>the block \<^verbatim>\<open>aptr\<close> points to\<close>
  bdata :: nat          \<comment> \<open>\<^verbatim>\<open>data - aptr\<close>\<close>
  bsize :: u32
  basize :: u32

text \<open>An uninitialised local \<^verbatim>\<open>buf_t b;\<close>: it owns no memory.\<close>

definition buf_none :: buf where
  "buf_none = \<lparr>bblk = [], bdata = 0, bsize = 0, basize = 0\<rparr>"

text \<open>\<open>malloc n\<close> tells whether the allocator grants \<open>n\<close> bytes.\<close>

definition buf_init :: "(nat \<Rightarrow> bool) \<Rightarrow> buf \<Rightarrow> int \<times> buf" where
  "buf_init malloc b =
     (if \<not> malloc (BUFSIZ + 1) then (1, b\<lparr>bblk := []\<rparr>)
      else (0, \<lparr>bblk = replicate (BUFSIZ + 1) 0, bdata = 0, bsize = 0, basize = of_nat BUFSIZ\<rparr>))"

text \<open>
  The callers below ignore the return code of \<^verbatim>\<open>buf_init\<close> and \<^verbatim>\<open>buf_realloc\<close>;
  they are modelled with an allocator that grants every request.
\<close>

definition malloc_ok :: "nat \<Rightarrow> bool" where
  "malloc_ok n = True"

definition buf_new :: buf where
  "buf_new = snd (buf_init malloc_ok buf_none)"

text \<open>
  \<^verbatim>\<open>size + 1\<close> is computed in 32 bits.  For \<^verbatim>\<open>size = 0xffffffff\<close> it is 0, and
  \<^verbatim>\<open>realloc(aptr, 0)\<close> releases the block that the function goes on to use.
\<close>

definition buf_realloc :: "(nat \<Rightarrow> bool) \<Rightarrow> buf \<Rightarrow> u32 \<Rightarrow> (int \<times> buf) option" where
  "buf_realloc malloc b n =
     (if n > basize b then
        (if n + 1 = 0 then None
         else if \<not> malloc (unat (n + 1)) then Some (1, b)
         else Some (0, b\<lparr>bblk := take (unat (basize b)) (bblk b) @
                                 replicate (unat (n - basize b + 1)) 0,
                         basize := n\<rparr>))
      else Some (0, b))"

text \<open>The test \<^verbatim>\<open>if (n > b.asize) buf_realloc(&b, n);\<close> of the constructors, result ignored.\<close>

definition reserve :: "buf \<Rightarrow> u32 \<Rightarrow> buf option" where
  "reserve b n = (if n > basize b then map_option snd (buf_realloc malloc_ok b n) else Some b)"

definition buf_add :: "byte list \<Rightarrow> nat \<Rightarrow> u32 \<Rightarrow> buf option" where
  "buf_add m p n = do {
     let b = snd (buf_init malloc_ok buf_none);
     b \<leftarrow> reserve b n;
     blk \<leftarrow> copy_loop (unat n) (bblk b) (bdata b) m p;
     Some (b\<lparr>bblk := blk, bsize := n\<rparr>)
   }"

definition buf_add_buf :: "buf \<Rightarrow> buf option" where
  "buf_add_buf b = buf_add (bblk b) (bdata b) (bsize b)"

definition buf_cat :: "buf \<Rightarrow> buf \<Rightarrow> buf option" where
  "buf_cat dest src = do {
     let s = bsize dest + bsize src;
     dest \<leftarrow> reserve dest s;
     let offset = unat (bsize dest);
     blk \<leftarrow> copy_loop (unat (bsize src)) (bblk dest) (bdata dest + offset) (bblk src) (bdata src);
     Some (dest\<lparr>bblk := blk, bsize := s\<rparr>)
   }"

fun buf_cat_all :: "buf \<Rightarrow> buf list \<Rightarrow> buf option" where
  "buf_cat_all b [] = Some b"
| "buf_cat_all b (x # xs) = do { b \<leftarrow> buf_cat b x; buf_cat_all b xs }"

definition buf_add_bufs :: "buf list \<Rightarrow> buf option" where
  "buf_add_bufs args = buf_cat_all (snd (buf_init malloc_ok buf_none)) args"

text \<open>The comparison prints a message when the sizes differ, and goes on.\<close>

fun cmp_loop :: "nat \<Rightarrow> byte list \<Rightarrow> nat \<Rightarrow> byte list \<Rightarrow> nat \<Rightarrow> byte option" where
  "cmp_loop 0 a i b j = Some 1"
| "cmp_loop (Suc n) a i b j =
     (if i < length a \<and> j < length b
      then (if a ! i \<noteq> b ! j then Some 0 else cmp_loop n a (Suc i) b (Suc j))
      else None)"

definition buf_cmp :: "buf \<Rightarrow> buf \<Rightarrow> byte option" where
  "buf_cmp a b = cmp_loop (unat (bsize a)) (bblk a) (bdata a) (bblk b) (bdata b)"

text \<open>\<open>swap_loop m lo hi1\<close> is the loop with \<^verbatim>\<open>hi\<close> at \<open>hi1 - 1\<close>.\<close>

function swap_loop :: "byte list \<Rightarrow> nat \<Rightarrow> nat \<Rightarrow> byte list option" where
  "swap_loop m lo hi1 =
     (if Suc lo < hi1 then
        (if hi1 \<le> length m
         then swap_loop (m[lo := m ! (hi1 - 1), hi1 - 1 := m ! lo]) (Suc lo) (hi1 - 1)
         else None)
      else Some m)"
  by pat_completeness auto
termination
  by (relation "measure (\<lambda>(m, lo, hi1). hi1 - lo)") auto

declare swap_loop.simps [simp del]

definition buf_swap :: "buf \<Rightarrow> buf option" where
  "buf_swap b = do {
     blk \<leftarrow> swap_loop (bblk b) (bdata b) (bdata b + unat (bsize b));
     Some (b\<lparr>bblk := blk\<rparr>)
   }"

definition buf_add_ui32 :: "u32 \<Rightarrow> buf option" where
  "buf_add_ui32 v = buf_add (le_bytes 4 v) 0 4"

definition buf_add_ui64 :: "u64 \<Rightarrow> buf option" where
  "buf_add_ui64 v = buf_add (le_bytes 8 v) 0 8"

text \<open>A \<^verbatim>\<open>double\<close> is its 64-bit representation: the code only moves it.\<close>

definition buf_add_double :: "u64 \<Rightarrow> buf option" where
  "buf_add_double v = buf_add (le_bytes 8 v) 0 8"

definition buf_get_ui32 :: "buf \<Rightarrow> u32 option" where
  "buf_get_ui32 b = load32 (bblk b) (bdata b)"

definition buf_get_ui64 :: "buf \<Rightarrow> u64 option" where
  "buf_get_ui64 b = load64 (bblk b) (bdata b)"

definition buf_get_double :: "buf \<Rightarrow> u64 option" where
  "buf_get_double b = load64 (bblk b) (bdata b)"

text \<open>
  \<open>rnd seed i\<close> is the \<open>i\<close>-th value of \<^verbatim>\<open>rand()\<close> after \<^verbatim>\<open>srand(seed)\<close>, and
  \<open>now\<close> the value of \<^verbatim>\<open>time(NULL)\<close>.  The block is never enlarged.
\<close>

definition buf_rand :: "(u32 \<Rightarrow> nat \<Rightarrow> nat) \<Rightarrow> u64 \<Rightarrow> u32 \<Rightarrow> buf option" where
  "buf_rand rnd now s = do {
     let b = snd (buf_init malloc_ok buf_none);
     let bytes = map (\<lambda>i. of_nat (rnd (ucast now) i mod 256)) [0..<unat s];
     blk \<leftarrow> copy_loop (unat s) (bblk b) (bdata b) bytes 0;
     Some (b\<lparr>bblk := blk, bsize := s\<rparr>)
   }"

fun xor_loop :: "nat \<Rightarrow> byte list \<Rightarrow> nat \<Rightarrow> byte list \<Rightarrow> nat \<Rightarrow> byte list \<Rightarrow> nat \<Rightarrow> byte list option" where
  "xor_loop 0 r ri a ai b bi = Some r"
| "xor_loop (Suc n) r ri a ai b bi =
     (if ri < length r \<and> ai < length a \<and> bi < length b
      then xor_loop n (r[ri := a ! ai XOR b ! bi]) (Suc ri) a (Suc ai) b (Suc bi)
      else None)"

definition buf_xor :: "buf \<Rightarrow> buf \<Rightarrow> buf option" where
  "buf_xor a b = do {
     let r = snd (buf_init malloc_ok buf_none);
     r \<leftarrow> reserve r (bsize a);
     blk \<leftarrow> xor_loop (unat (bsize a)) (bblk r) (bdata r) (bblk a) (bdata a) (bblk b) (bdata b);
     Some (r\<lparr>bblk := blk, bsize := bsize a\<rparr>)
   }"

definition buf_cat_ui32 :: "buf \<Rightarrow> u32 \<Rightarrow> buf option" where
  "buf_cat_ui32 dest i = do { src \<leftarrow> buf_add_ui32 i; buf_cat dest src }"

definition buf_cat_ui64 :: "buf \<Rightarrow> u64 \<Rightarrow> buf option" where
  "buf_cat_ui64 dest i = do { src \<leftarrow> buf_add_ui64 i; buf_cat dest src }"

definition buf_cat_double :: "buf \<Rightarrow> u64 \<Rightarrow> buf option" where
  "buf_cat_double dest i = do { src \<leftarrow> buf_add_double i; buf_cat dest src }"

definition buf_cat_data :: "buf \<Rightarrow> byte list \<Rightarrow> nat \<Rightarrow> u32 \<Rightarrow> buf option" where
  "buf_cat_data dest m p len = do { src \<leftarrow> buf_add m p len; buf_cat dest src }"

definition buf_cat_rand :: "(u32 \<Rightarrow> nat \<Rightarrow> nat) \<Rightarrow> u64 \<Rightarrow> buf \<Rightarrow> u32 \<Rightarrow> buf option" where
  "buf_cat_rand rnd now dest s = do { src \<leftarrow> buf_rand rnd now s; buf_cat dest src }"

section \<open>Contents, well-formedness, canonical buffers\<close>

definition bytes :: "buf \<Rightarrow> byte list" where
  "bytes b = take (unat (bsize b)) (drop (bdata b) (bblk b))"

text \<open>The contents lie inside the block.\<close>

definition readable :: "buf \<Rightarrow> bool" where
  "readable b \<longleftrightarrow> bdata b + unat (bsize b) \<le> length (bblk b)"

text \<open>The block has the size the struct says, with one byte to spare behind the contents.\<close>

definition wf_buf :: "buf \<Rightarrow> bool" where
  "wf_buf b \<longleftrightarrow> length (bblk b) = unat (basize b) + 1 \<and>
                bdata b + unat (bsize b) \<le> unat (basize b)"

text \<open>The sizes the 32-bit arithmetic of \<^verbatim>\<open>buf_realloc\<close> can serve.\<close>

definition fits :: "nat \<Rightarrow> bool" where
  "fits n \<longleftrightarrow> n + 1 < 2 ^ 32"

definition mkbuf :: "byte list \<Rightarrow> buf" where
  "mkbuf xs = (let a = max BUFSIZ (length xs) in
     \<lparr>bblk = xs @ replicate (a + 1 - length xs) 0, bdata = 0,
      bsize = of_nat (length xs), basize = of_nat a\<rparr>)"

section \<open>Closed forms\<close>

lemma fits_mono: "fits n \<Longrightarrow> m \<le> n \<Longrightarrow> fits m"
  by (simp add: fits_def)

lemma fits_BUFSIZ [simp]: "fits BUFSIZ"
  by (simp add: fits_def BUFSIZ_def)

lemma fits_max [simp]: "fits (max BUFSIZ n) = fits n"
  by (auto simp: max_def fits_def BUFSIZ_def)

lemma unat_of_nat_fits [simp]: "fits n \<Longrightarrow> unat (of_nat n :: u32) = n"
  by (simp add: fits_def unat_of_nat)

lemma fits_unat: "fits (unat (n :: u32)) \<longleftrightarrow> n + 1 \<noteq> 0"
proof -
  have "unat (n + 1) = (unat n + 1) mod 2 ^ 32"
    by (simp add: unat_word_ariths)
  moreover have "unat n < 2 ^ 32"
    using unsigned_less [of n] by simp
  ultimately have "n + 1 = 0 \<longleftrightarrow> unat n + 1 = 2 ^ 32"
    by (auto simp: word_unat_eq_iff mod_if)
  with \<open>unat n < 2 ^ 32\<close> show ?thesis by (auto simp: fits_def)
qed

lemma fits_less: "fits n \<Longrightarrow> n < 2 ^ 32"
  by (simp add: fits_def)

lemma unat_add_fits [simp]:
  "fits (unat a + unat b) \<Longrightarrow> unat (a + b :: u32) = unat a + unat b"
  using fits_less by (simp add: unat_word_ariths)

lemma unat_grow:
  assumes "a < (n :: u32)" and "n + 1 \<noteq> 0"
  shows "unat (n - a + 1) = unat n + 1 - unat a"
proof -
  have f: "fits (unat n)" using assms(2) by (simp add: fits_unat)
  have d: "unat (n - a) = unat n - unat a"
    using assms(1) by (simp add: unat_sub)
  have "unat a < unat n" using assms(1) by (simp add: word_less_nat_alt)
  with d f show ?thesis by (simp add: unat_word_ariths fits_def)
qed

lemma readable_mkbuf [simp]: "fits (length xs) \<Longrightarrow> readable (mkbuf xs)"
  by (simp add: readable_def mkbuf_def Let_def)

lemma wf_mkbuf [simp]: "fits (length xs) \<Longrightarrow> wf_buf (mkbuf xs)"
  by (simp add: wf_buf_def mkbuf_def Let_def)

lemma bytes_mkbuf [simp]: "fits (length xs) \<Longrightarrow> bytes (mkbuf xs) = xs"
  by (simp add: bytes_def mkbuf_def Let_def)

lemma bsize_mkbuf [simp]: "bsize (mkbuf xs) = of_nat (length xs)"
  by (simp add: mkbuf_def Let_def)

lemma bdata_mkbuf [simp]: "bdata (mkbuf xs) = 0"
  by (simp add: mkbuf_def Let_def)

lemma wf_buf_readable: "wf_buf b \<Longrightarrow> readable b"
  by (simp add: wf_buf_def readable_def)

lemma length_bytes [simp]: "readable b \<Longrightarrow> length (bytes b) = unat (bsize b)"
  by (simp add: bytes_def readable_def)

text \<open>What the buffer's own code does to memory, once and for all.\<close>

lemma buf_init_ok: "buf_init malloc_ok b = (0, mkbuf [])"
  by (simp add: buf_init_def malloc_ok_def mkbuf_def Let_def)

lemma buf_new_eq [simp]: "buf_new = mkbuf []"
  by (simp add: buf_new_def buf_init_ok)

lemma buf_realloc_grow:
  assumes wf: "length (bblk b) = unat (basize b) + 1" and fit: "n + 1 \<noteq> 0"
    and gt: "basize b < n"
  shows "map_option snd (buf_realloc malloc_ok b n) =
           Some (b\<lparr>bblk := take (unat (basize b)) (bblk b) @ replicate (unat n + 1 - unat (basize b)) 0,
                  basize := n\<rparr>)"
  using assms by (simp add: buf_realloc_def malloc_ok_def unat_grow)

lemma buf_realloc_keep: "\<not> basize b < n \<Longrightarrow> map_option snd (buf_realloc malloc b n) = Some b"
  by (simp add: buf_realloc_def)

text \<open>
  Reserving room in a canonical buffer: the contents stay, the zeros behind them
  reach one byte past the new size.
\<close>

lemma reserve_mkbuf:
  assumes "fits (unat n)" and "length xs \<le> unat n"
  shows "reserve (mkbuf xs) n =
         Some \<lparr>bblk = xs @ replicate (max BUFSIZ (unat n) + 1 - length xs) 0, bdata = 0,
               bsize = of_nat (length xs), basize = of_nat (max BUFSIZ (unat n))\<rparr>"
proof -
  let ?a = "max BUFSIZ (length xs)"
  have fx: "fits (length xs)" and fa: "fits ?a"
    using assms by (auto intro: fits_mono)
  have lt: "basize (mkbuf xs) < n \<longleftrightarrow> ?a < unat n"
    using assms fa by (simp add: mkbuf_def Let_def word_less_nat_alt)
  show ?thesis
  proof (cases "?a < unat n")
    case False
    then have "max BUFSIZ (unat n) = ?a" using assms(2) by (auto simp: max_def)
    with False lt show ?thesis by (auto simp: reserve_def mkbuf_def Let_def)
  next
    case True
    have n1: "n + 1 \<noteq> 0"
      using assms by (simp flip: fits_unat)
    have "take ?a (bblk (mkbuf xs)) @ replicate (unat n + 1 - ?a) 0 =
          xs @ replicate (max BUFSIZ (unat n) + 1 - length xs) 0"
      using True by (simp add: mkbuf_def Let_def flip: replicate_add)
    moreover have "map_option snd (buf_realloc malloc_ok (mkbuf xs) n) =
      Some ((mkbuf xs)\<lparr>bblk := take ?a (bblk (mkbuf xs)) @ replicate (unat n + 1 - ?a) 0, basize := n\<rparr>)"
      using buf_realloc_grow [of "mkbuf xs" n] True lt n1 fa
      by (simp add: mkbuf_def Let_def)
    moreover have "max BUFSIZ (unat n) = unat n" using True by simp
    ultimately show ?thesis
      using lt True by (simp add: reserve_def mkbuf_def Let_def del: map_option_eq_Some)
  qed
qed

lemma copy_into_reserved:
  assumes "length ys = n" and "k = length xs + n"
  shows "copy_loop n (xs @ replicate (max BUFSIZ k + 1 - length xs) 0) (length xs) (pre @ ys @ post) (length pre) =
         Some ((xs @ ys) @ replicate (max BUFSIZ k + 1 - length (xs @ ys)) 0)"
  using assms by (subst copy_loop_eq) auto

lemma readable_split:
  assumes "p + n \<le> length m"
  obtains pre post where "m = pre @ take n (drop p m) @ post" and "length pre = p"
    and "length (take n (drop p m)) = n"
proof
  show "m = take p m @ take n (drop p m) @ drop n (drop p m)"
    by (metis append_take_drop_id)
qed (use assms in auto)

lemma buf_add_eq [simp]:
  assumes "fits (unat n)" and "p + unat n \<le> length m"
  shows "buf_add m p n = Some (mkbuf (take (unat n) (drop p m)))"
proof -
  obtain pre post where sp: "m = pre @ take (unat n) (drop p m) @ post" "length pre = p"
    and ln: "length (take (unat n) (drop p m)) = unat n"
    using assms(2) by (rule readable_split)
  have cp: "copy_loop (unat n) (replicate (max BUFSIZ (unat n) + 1) 0) 0 m p =
     Some (take (unat n) (drop p m) @ replicate (max BUFSIZ (unat n) + 1 - unat n) 0)"
    using copy_into_reserved [of "take (unat n) (drop p m)" "unat n" "unat n" "[]" pre post] sp ln
    by simp
  show ?thesis
    using reserve_mkbuf [of n "[]"] assms(1) cp ln
    by (simp add: buf_add_def buf_init_ok mkbuf_def [of "take _ _"] Let_def del: length_take)
qed

text \<open>
  Appending to a canonical buffer yields the canonical buffer of the concatenation:
  the capacity is again the larger of \<open>BUFSIZ\<close> and the length.
\<close>

lemma buf_cat_mkbuf [simp]:
  assumes "readable s" and "fits (length xs + unat (bsize s))"
  shows "buf_cat (mkbuf xs) s = Some (mkbuf (xs @ bytes s))"
proof -
  let ?n = "unat (bsize s)" and ?k = "length xs + unat (bsize s)"
  have fx: "fits (length xs)" using assms(2) by (rule fits_mono) simp
  have sum: "unat (of_nat (length xs) + bsize s) = ?k" using fx assms(2) by simp
  then have sum': "of_nat (length xs) + bsize s = of_nat ?k" by simp
  obtain pre post where sp: "bblk s = pre @ bytes s @ post" "length pre = bdata s"
    and ln: "length (bytes s) = ?n"
    using readable_split [of "bdata s" ?n "bblk s"] assms(1)
    unfolding readable_def bytes_def by metis
  have cp: "copy_loop ?n (xs @ replicate (max BUFSIZ ?k + 1 - length xs) 0) (length xs) (bblk s) (bdata s) =
     Some ((xs @ bytes s) @ replicate (max BUFSIZ ?k + 1 - length (xs @ bytes s)) 0)"
    using copy_into_reserved [of "bytes s" ?n ?k xs pre post] sp ln by simp
  have rs: "reserve (mkbuf xs) (of_nat (length xs) + bsize s) =
     Some \<lparr>bblk = xs @ replicate (max BUFSIZ ?k + 1 - length xs) 0, bdata = 0,
           bsize = of_nat (length xs), basize = of_nat (max BUFSIZ ?k)\<rparr>"
    using reserve_mkbuf [of "of_nat (length xs) + bsize s" xs] assms(2) sum by simp
  show ?thesis
    using cp by (simp add: buf_cat_def rs fx) (simp add: mkbuf_def Let_def ln)
qed

lemma buf_cat_mkbufs [simp]:
  assumes "fits (length xs + length ys)"
  shows "buf_cat (mkbuf xs) (mkbuf ys) = Some (mkbuf (xs @ ys))"
proof -
  have "fits (length ys)" using assms by (rule fits_mono) simp
  with assms show ?thesis by simp
qed

lemma buf_add_all [simp]:
  "fits (length m) \<Longrightarrow> n = of_nat (length m) \<Longrightarrow> buf_add m 0 n = Some (mkbuf m)"
  by simp

lemma unat_numeral_sizes [simp]: "unat (4 :: u32) = 4" "unat (8 :: u32) = 8"
  by simp_all

lemma fits_numeral [simp]: "fits 0" "fits 1" "fits (Suc 0)"
  "fits (numeral k) \<longleftrightarrow> numeral k + 1 < (2 ^ 32 :: nat)"
  by (simp_all add: fits_def)

lemma buf_add_ui32_eq [simp]: "buf_add_ui32 v = Some (mkbuf (le_bytes 4 v))"
  by (simp add: buf_add_ui32_def)

lemma buf_add_ui64_eq [simp]: "buf_add_ui64 v = Some (mkbuf (le_bytes 8 v))"
  by (simp add: buf_add_ui64_def)

lemma buf_add_double_eq [simp]: "buf_add_double v = Some (mkbuf (le_bytes 8 v))"
  by (simp add: buf_add_double_def)

lemma buf_cat_ui32_eq [simp]:
  "fits (length xs + 4) \<Longrightarrow> buf_cat_ui32 (mkbuf xs) v = Some (mkbuf (xs @ le_bytes 4 v))"
  by (simp add: buf_cat_ui32_def)

lemma buf_cat_ui64_eq [simp]:
  "fits (length xs + 8) \<Longrightarrow> buf_cat_ui64 (mkbuf xs) v = Some (mkbuf (xs @ le_bytes 8 v))"
  by (simp add: buf_cat_ui64_def)

lemma buf_cat_double_eq [simp]:
  "fits (length xs + 8) \<Longrightarrow> buf_cat_double (mkbuf xs) v = Some (mkbuf (xs @ le_bytes 8 v))"
  by (simp add: buf_cat_double_def)

lemma buf_cat_data_eq [simp]:
  "fits (length xs + unat n) \<Longrightarrow> p + unat n \<le> length m \<Longrightarrow>
   buf_cat_data (mkbuf xs) m p n = Some (mkbuf (xs @ take (unat n) (drop p m)))"
  by (simp add: buf_cat_data_def fits_mono [of "length xs + unat n" "unat n"])

lemma buf_cat_all_eq:
  "\<forall>b \<in> set bs. readable b \<Longrightarrow> fits (length xs + sum_list (map (\<lambda>b. unat (bsize b)) bs)) \<Longrightarrow>
   buf_cat_all (mkbuf xs) bs = Some (mkbuf (xs @ concat (map bytes bs)))"
proof (induction bs arbitrary: xs)
  case Nil
  then show ?case by simp
next
  case (Cons b bs)
  have "fits (length xs + unat (bsize b))"
    using Cons.prems(2) by (rule fits_mono) simp
  then have "buf_cat (mkbuf xs) b = Some (mkbuf (xs @ bytes b))"
    using Cons.prems(1) by simp
  moreover have "buf_cat_all (mkbuf (xs @ bytes b)) bs = Some (mkbuf ((xs @ bytes b) @ concat (map bytes bs)))"
    by (rule Cons.IH) (use Cons.prems in \<open>simp_all add: add.assoc\<close>)
  ultimately show ?case by simp
qed

lemma buf_add_bufs_eq:
  "\<forall>b \<in> set bs. readable b \<Longrightarrow> fits (sum_list (map (\<lambda>b. unat (bsize b)) bs)) \<Longrightarrow>
   buf_add_bufs bs = Some (mkbuf (concat (map bytes bs)))"
  using buf_cat_all_eq [of bs "[]"] by (simp add: buf_add_bufs_def buf_init_ok)

lemma swap_loop_rev:
  "swap_loop (pre @ xs @ post) (length pre) (length pre + length xs) = Some (pre @ rev xs @ post)"
proof (induction "length xs" arbitrary: pre xs post rule: less_induct)
  case less
  show ?case
  proof (cases "Suc 0 < length xs")
    case False
    then have "rev xs = xs" by (cases xs) auto
    then show ?thesis using False by (subst swap_loop.simps) simp
  next
    case True
    then obtain x mid y where xs: "xs = x # mid @ [y]"
      by (cases xs; cases "tl xs" rule: rev_cases) auto
    let ?m = "pre @ xs @ post"
    have upd: "?m[length pre := ?m ! (length pre + length xs - 1),
                  length pre + length xs - 1 := ?m ! length pre] = (pre @ [y]) @ mid @ [x] @ post"
      by (simp add: xs nth_append list_update_append)
    have "swap_loop ((pre @ [y]) @ mid @ [x] @ post) (length (pre @ [y])) (length (pre @ [y]) + length mid)
          = Some ((pre @ [y]) @ rev mid @ [x] @ post)"
      by (rule less.hyps) (simp add: xs)
    then show ?thesis
      using True upd by (subst swap_loop.simps) (simp add: xs)
  qed
qed

lemma readable_blk:
  assumes "readable b"
  obtains pre post where "bblk b = pre @ bytes b @ post" "length pre = bdata b"
  using readable_split [of "bdata b" "unat (bsize b)" "bblk b"] assms
  unfolding readable_def bytes_def by metis

lemma cmp_loop_eq:
  "length xs = n \<Longrightarrow> length ys = n \<Longrightarrow>
   cmp_loop n (pre @ xs @ post) (length pre) (qre @ ys @ qost) (length qre) = Some (if xs = ys then 1 else 0)"
proof (induction n arbitrary: xs ys pre qre)
  case 0
  then show ?case by simp
next
  case (Suc n)
  then obtain x xs' y ys' where xy: "xs = x # xs'" "ys = y # ys'"
    by (auto simp: length_Suc_conv)
  have "cmp_loop n ((pre @ [x]) @ xs' @ post) (length (pre @ [x])) ((qre @ [y]) @ ys' @ qost) (length (qre @ [y])) =
        Some (if xs' = ys' then 1 else 0)"
    by (rule Suc.IH) (use Suc.prems xy in simp_all)
  then show ?case by (auto simp: xy nth_append)
qed

lemma xor_loop_eq:
  "length xs = n \<Longrightarrow> length ys = n \<Longrightarrow> length zs = n \<Longrightarrow>
   xor_loop n (rre @ zs @ rost) (length rre) (pre @ xs @ post) (length pre) (qre @ ys @ qost) (length qre) =
   Some (rre @ map2 (XOR) xs ys @ rost)"
proof (induction n arbitrary: xs ys zs pre qre rre)
  case 0
  then show ?case by simp
next
  case (Suc n)
  then obtain x xs' y ys' z zs' where xy: "xs = x # xs'" "ys = y # ys'" "zs = z # zs'"
    by (auto simp: length_Suc_conv)
  have "xor_loop n ((rre @ [x XOR y]) @ zs' @ rost) (length (rre @ [x XOR y]))
          ((pre @ [x]) @ xs' @ post) (length (pre @ [x])) ((qre @ [y]) @ ys' @ qost) (length (qre @ [y])) =
        Some ((rre @ [x XOR y]) @ map2 (XOR) xs' ys' @ rost)"
    by (rule Suc.IH) (use Suc.prems xy in simp_all)
  then show ?case by (simp add: xy nth_append list_update_append)
qed

lemma buf_swap_mkbuf: "fits (length xs) \<Longrightarrow> buf_swap (mkbuf xs) = Some (mkbuf (rev xs))"
  using swap_loop_rev [of "[]" xs] by (simp add: buf_swap_def mkbuf_def Let_def)

lemma buf_rand_eq:
  assumes "unat s \<le> BUFSIZ"
  shows "buf_rand rnd now s =
         Some (mkbuf (map (\<lambda>i. of_nat (rnd (ucast now) i mod 256)) [0..<unat s]))"
proof -
  let ?r = "map (\<lambda>i. of_nat (rnd (ucast now) i mod 256)) [0..<unat s] :: byte list"
  have "copy_loop (unat s) (replicate (BUFSIZ + 1) 0) 0 ?r 0 =
        Some (?r @ replicate (BUFSIZ + 1 - unat s) 0)"
    using assms by (subst copy_loop_eq) (auto simp del: replicate_Suc)
  with assms show ?thesis
    by (simp add: buf_rand_def buf_init_ok mkbuf_def Let_def max_def)
qed

lemma buf_xor_eq:
  assumes "readable a" "readable b" "bsize a = bsize b" "fits (unat (bsize a))"
  shows "buf_xor a b = Some (mkbuf (map2 (XOR) (bytes a) (bytes b)))"
proof -
  let ?n = "unat (bsize a)"
  obtain pre post qre qost where
    a: "bblk a = pre @ bytes a @ post" "length pre = bdata a" and
    b: "bblk b = qre @ bytes b @ qost" "length qre = bdata b"
    using readable_blk [OF assms(1)] readable_blk [OF assms(2)] by metis
  have ln: "length (bytes a) = ?n" "length (bytes b) = ?n"
    using assms by simp_all
  have sp: "replicate (Suc (max BUFSIZ ?n)) 0 = replicate ?n 0 @ (replicate (Suc (max BUFSIZ ?n) - ?n) 0 :: byte list)"
    by (simp flip: replicate_add)
  have "xor_loop ?n (replicate (Suc (max BUFSIZ ?n)) 0) 0 (bblk a) (bdata a) (bblk b) (bdata b) =
        Some (map2 (XOR) (bytes a) (bytes b) @ replicate (Suc (max BUFSIZ ?n) - ?n) 0)"
    using xor_loop_eq [of "bytes a" ?n "bytes b" "replicate ?n 0" "[]"
        "replicate (Suc (max BUFSIZ ?n) - ?n) 0" pre post qre qost] a b ln
    by (subst sp) simp
  with assms ln reserve_mkbuf [of "bsize a" "[]"] show ?thesis
    by (simp add: buf_xor_def buf_init_ok mkbuf_def [of "map2 _ _ _"] Let_def)
qed

section \<open>What the buffer promises\<close>

text \<open>The general append: any well-formed destination whose start was not moved.\<close>

lemma buf_cat_wf:
  assumes wf: "wf_buf d" and fresh: "bdata d = 0" and src: "readable s"
    and fit: "fits (unat (bsize d) + unat (bsize s))"
  shows "\<exists>r. buf_cat d s = Some r \<and> wf_buf r \<and> bdata r = 0 \<and> bytes r = bytes d @ bytes s"
proof -
  let ?k = "bsize d + bsize s"
  have k: "unat ?k = unat (bsize d) + unat (bsize s)" using fit by simp
  have k1: "?k + 1 \<noteq> 0" using fit k by (simp flip: fits_unat)
  obtain d' where d': "reserve d ?k = Some d'" "bdata d' = 0" "bsize d' = bsize d"
    "length (bblk d') = unat (basize d') + 1" "unat ?k \<le> unat (basize d')"
    "take (unat (bsize d)) (bblk d') = bytes d"
  proof (cases "basize d < ?k")
    case True
    then have "unat (basize d) < unat ?k" by (simp add: word_less_nat_alt)
    moreover have "reserve d ?k = Some (d\<lparr>bblk := take (unat (basize d)) (bblk d) @
                                     replicate (unat ?k + 1 - unat (basize d)) 0, basize := ?k\<rparr>)"
      using buf_realloc_grow [of d ?k] True wf k1 by (simp add: reserve_def wf_buf_def del: map_option_eq_Some)
    ultimately show ?thesis
      using wf fresh that by (simp add: wf_buf_def bytes_def min_def)
  next
    case False
    then have "unat ?k \<le> unat (basize d)" by (simp add: word_le_nat_alt not_less)
    with False wf fresh that show ?thesis
      by (auto simp: reserve_def wf_buf_def bytes_def)
  qed
  have "copy_loop (unat (bsize s)) (bblk d') (unat (bsize d)) (bblk s) (bdata s) =
        Some (bytes d @ bytes s @ drop (unat (bsize d) + unat (bsize s)) (bblk d'))"
    using d' k src by (subst copy_loop_eq) (auto simp: readable_def bytes_def [of s])
  then have "buf_cat d s = Some (d'\<lparr>bblk := bytes d @ bytes s @ drop (unat (bsize d) + unat (bsize s)) (bblk d'),
                                    bsize := ?k\<rparr>)"
    using d' by (simp add: buf_cat_def)
  moreover have "length (bytes d) = unat (bsize d)" "length (bytes s) = unat (bsize s)"
    using wf src by (simp_all add: wf_buf_readable)
  ultimately show ?thesis
    using d' k by (auto simp: wf_buf_def bytes_def [of "_\<lparr>bsize := _\<rparr>"])
qed

text \<open>
  Appending one buffer to another refines list concatenation: for a well-formed
  destination whose start was not advanced, a readable source and sizes that fit in
  32 bits, \<^verbatim>\<open>buf_cat\<close> stays inside its block, keeps the buffer well-formed, and the
  contents become those of the two buffers in order.
\<close>

theorem buf_cat_concat:
  assumes "wf_buf d" and "bdata d = 0" and "readable s"
    and "unat (bsize d) + unat (bsize s) < 2 ^ 32 - 1"
  shows "\<exists>r. buf_cat d s = Some r \<and> wf_buf r \<and> bdata r = 0 \<and> bytes r = bytes d @ bytes s"
  using assms by (intro buf_cat_wf) (auto simp: fits_def)

theorem buf_cat_concat_witness:
  "\<exists>r. buf_cat (mkbuf [1, 2]) (mkbuf [3]) = Some r \<and> wf_buf r \<and> bdata r = 0 \<and>
       bytes r = bytes (mkbuf [1, 2]) @ bytes (mkbuf [3])"
  by (rule buf_cat_concat) (simp_all add: fits_def)

text \<open>
  A destination whose start was advanced by a reader (as every
  \<^verbatim>\<open>deserialize_*\<close> call does) is not safe to append to: when the new size exceeds
  \<^verbatim>\<open>asize\<close>, the block is enlarged to the new size without the distance between
  \<^verbatim>\<open>aptr\<close> and \<^verbatim>\<open>data\<close>, and the copy writes behind its end.
\<close>

theorem buf_cat_consumed_overflows:
  assumes wf: "wf_buf d" and adv: "2 \<le> bdata d" and src: "0 < bsize s"
    and grow: "basize d < bsize d + bsize s"
    and fit: "unat (bsize d) + unat (bsize s) < 2 ^ 32 - 1"
  shows "buf_cat d s = None"
proof -
  let ?k = "bsize d + bsize s"
  have k: "unat ?k = unat (bsize d) + unat (bsize s)" using fit by (simp add: fits_def)
  have k1: "?k + 1 \<noteq> 0" using fit k by (simp add: fits_def flip: fits_unat)
  have lt: "unat (basize d) < unat ?k" using grow by (simp add: word_less_nat_alt)
  have "reserve d ?k = Some (d\<lparr>bblk := take (unat (basize d)) (bblk d) @ replicate (unat ?k + 1 - unat (basize d)) 0,
                              basize := ?k\<rparr>)"
    using buf_realloc_grow [of d ?k] wf grow k1
    by (simp add: reserve_def wf_buf_def del: map_option_eq_Some)
  moreover have "copy_loop (unat (bsize s))
      (take (unat (basize d)) (bblk d) @ replicate (unat ?k + 1 - unat (basize d)) 0)
      (bdata d + unat (bsize d)) (bblk s) (bdata s) = None"
    using adv src wf lt k by (intro copy_loop_None) (auto simp: wf_buf_def word_less_nat_alt)
  ultimately show ?thesis by (simp add: buf_cat_def)
qed

theorem buf_cat_consumed_overflows_witness:
  "buf_cat \<lparr>bblk = replicate 9 7, bdata = 4, bsize = 4, basize = 8\<rparr> (mkbuf [1, 2, 3, 4, 5]) = None"
  by (rule buf_cat_consumed_overflows) (simp_all add: wf_buf_def)

text \<open>
  Byte-order reversal: \<^verbatim>\<open>buf_swap\<close> reverses the contents in place and is its own
  inverse, for every buffer whose contents lie in its block.
\<close>

theorem buf_swap_reverses:
  assumes "readable b"
  shows "\<exists>r. buf_swap b = Some r \<and> bytes r = rev (bytes b) \<and> buf_swap r = Some b"
proof -
  obtain pre post where sp: "bblk b = pre @ bytes b @ post" "length pre = bdata b"
    using readable_blk [OF assms] .
  let ?r = "b\<lparr>bblk := pre @ rev (bytes b) @ post\<rparr>"
  have ln: "length (bytes b) = unat (bsize b)" using assms by simp
  have 1: "buf_swap b = Some ?r"
    using swap_loop_rev [of pre "bytes b" post] sp ln by (simp add: buf_swap_def)
  have 2: "buf_swap ?r = Some (b\<lparr>bblk := pre @ bytes b @ post\<rparr>)"
    using swap_loop_rev [of pre "rev (bytes b)" post] sp ln by (simp add: buf_swap_def)
  have "bytes ?r = rev (bytes b)"
    using sp ln by (simp add: bytes_def [of ?r])
  with 1 2 sp(1) show ?thesis by (metis buf.surjective buf.update_convs(1))
qed

theorem buf_swap_reverses_witness:
  "\<exists>r. buf_swap (mkbuf [1, 2, 3]) = Some r \<and> bytes r = rev (bytes (mkbuf [1, 2, 3])) \<and>
       buf_swap r = Some (mkbuf [1, 2, 3])"
  by (rule buf_swap_reverses) (simp add: fits_def)

text \<open>
  \<^verbatim>\<open>buf_cmp\<close> decides equality of the contents when the sizes agree; when they
  differ it still compares, over the first operand's size only, so a buffer equals
  every longer buffer it is a prefix of.
\<close>

theorem buf_cmp_prefix:
  assumes a: "readable a" and b: "readable b" and le: "unat (bsize a) \<le> unat (bsize b)"
  shows "buf_cmp a b = Some (if bytes a = take (unat (bsize a)) (bytes b) then 1 else 0)"
proof -
  let ?n = "unat (bsize a)"
  obtain pre post qre qost where
    a': "bblk a = pre @ bytes a @ post" "length pre = bdata a" and
    b': "bblk b = qre @ bytes b @ qost" "length qre = bdata b"
    using readable_blk [OF a] readable_blk [OF b] by metis
  have b'': "bblk b = qre @ take ?n (bytes b) @ (drop ?n (bytes b) @ qost)"
    using b'(1) by (metis append.assoc append_take_drop_id)
  show ?thesis
    using cmp_loop_eq [of "bytes a" ?n "take ?n (bytes b)" pre post qre "drop ?n (bytes b) @ qost"]
      a a' b b' b'' le by (simp add: buf_cmp_def)
qed

theorem buf_cmp_prefix_witness:
  "buf_cmp (mkbuf [1]) (mkbuf [1, 2]) =
     Some (if bytes (mkbuf [1]) = take (unat (bsize (mkbuf [1]))) (bytes (mkbuf [1, 2])) then 1 else 0)"
  by (rule buf_cmp_prefix) (simp_all add: fits_def)

text \<open>
  The random source is reseeded with the time in seconds on every call, so within
  one second a shorter random buffer is a prefix of a longer one: the public 16-byte
  nonce is the first half of the secret 32-byte nonce generated in the same second.
\<close>

theorem buf_rand_same_second_prefix:
  assumes "unat s \<le> unat t" and "unat t \<le> BUFSIZ"
  shows "\<exists>a b. buf_rand rnd now s = Some a \<and> buf_rand rnd now t = Some b \<and>
               bytes a = take (unat s) (bytes b)"
proof -
  have "fits (unat s)" "fits (unat t)"
    using assms by (auto intro: fits_mono [OF fits_BUFSIZ])
  with assms show ?thesis
    by (simp add: buf_rand_eq take_map min_def)
qed

theorem buf_rand_same_second_prefix_witness:
  "\<exists>a b. buf_rand (\<lambda>seed i. unat seed + 7 * i) 5 16 = Some a \<and>
         buf_rand (\<lambda>seed i. unat seed + 7 * i) 5 32 = Some b \<and>
         bytes a = take (unat (16 :: u32)) (bytes b)"
  by (rule buf_rand_same_second_prefix) (simp_all add: BUFSIZ_def)

text \<open>
  A random buffer is never enlarged: asking for more than the initial block holds
  writes behind its end.
\<close>

theorem buf_rand_overflows:
  assumes "BUFSIZ + 1 < unat s"
  shows "buf_rand rnd now s = None"
  using assms by (simp add: buf_rand_def buf_init_ok mkbuf_def copy_loop_None del: replicate_Suc)

theorem buf_rand_overflows_witness: "buf_rand (\<lambda>seed i. i) 0 1536 = None"
  by (rule buf_rand_overflows) (simp add: BUFSIZ_def)

text \<open>
  Enlarging to \<open>n\<close> bytes either reports failure and leaves the buffer alone, or
  gives a well-formed buffer with the same contents and room for \<open>n\<close> bytes; the one
  size it cannot serve is \<^verbatim>\<open>0xffffffff\<close>, where the 32-bit \<^verbatim>\<open>size + 1\<close> is 0 and the
  block is released under the buffer.
\<close>

theorem buf_realloc_outcomes:
  assumes wf: "wf_buf b"
  shows "case buf_realloc malloc b n of
           None \<Rightarrow> n = 0xffffffff \<and> basize b < n
         | Some (r, b') \<Rightarrow> (r = 0 \<and> wf_buf b' \<and> bytes b' = bytes b \<and> n \<le> basize b') \<or>
                           (r = 1 \<and> b' = b \<and> \<not> malloc (unat (n + 1)))"
proof (cases "basize b < n")
  case False
  with wf show ?thesis by (auto simp: buf_realloc_def)
next
  case True
  then have lt: "unat (basize b) < unat n" by (simp add: word_less_nat_alt)
  show ?thesis
  proof (cases "n + 1 = 0")
    case z: True
    then have "n = - 1" by (simp add: add_eq_0_iff2)
    then show ?thesis using True z by (simp add: buf_realloc_def)
  next
    case nz: False
    show ?thesis
      using True nz wf lt by (auto simp: buf_realloc_def wf_buf_def bytes_def unat_grow drop_take min_def)
  qed
qed

theorem buf_realloc_outcomes_witness:
  "case buf_realloc (\<lambda>n. n < 5000) (mkbuf [1, 2]) 4000 of
     None \<Rightarrow> (4000 :: u32) = 0xffffffff \<and> basize (mkbuf [1, 2]) < 4000
   | Some (r, b') \<Rightarrow> (r = 0 \<and> wf_buf b' \<and> bytes b' = bytes (mkbuf [1, 2]) \<and> 4000 \<le> basize b') \<or>
                     (r = 1 \<and> b' = mkbuf [1, 2] \<and> \<not> unat ((4000 :: u32) + 1) < 5000)"
  by (rule buf_realloc_outcomes) (simp add: fits_def)

end
