(* ===== verification/Tl_Codec.thy ===== *)
theory Tl_Codec
  imports Buf
begin

text \<open>
  The TL primitives of \<^verbatim>\<open>libtg/tl/serialize.c\<close> and \<^verbatim>\<open>libtg/tl/deserialize.c\<close>: byte
  strings with their length prefix and padding, words, raw runs, the message header of
  a container, and the table-driven dispatch of \<^verbatim>\<open>tl_deserialize\<close> and \<^verbatim>\<open>tl_free\<close>.  The
  generated tables are parameters.
\<close>

section \<open>Serialisation\<close>

text \<open>\<open>pad4 n\<close> is \<^verbatim>\<open>(4 - (n % 4)) % 4\<close>.\<close>

definition pad4 :: "u32 \<Rightarrow> u32" where
  "pad4 n = (4 - n mod 4) mod 4"

text \<open>\<^verbatim>\<open>buf_init(&p); p.size = pad;\<close>: the padding is the zeros of a fresh block.\<close>

definition pad_buf :: "u32 \<Rightarrow> buf" where
  "pad_buf pad = (snd (buf_init malloc_ok buf_none))\<lparr>bsize := pad\<rparr>"

definition serialize_bytes :: "byte list \<Rightarrow> nat \<Rightarrow> u64 \<Rightarrow> buf option" where
  "serialize_bytes m p size64 =
     (if size64 \<le> 253 then do {
        s \<leftarrow> buf_add (le_bytes 8 size64) 0 1;
        b \<leftarrow> buf_add m p (ucast size64);
        s \<leftarrow> buf_cat s b;
        buf_cat s (pad_buf (pad4 (bsize s)))
      } else do {
        s \<leftarrow> buf_add [0xfe] 0 1;
        len \<leftarrow> buf_add (le_bytes 8 size64) 0 3;
        s \<leftarrow> buf_cat s len;
        b \<leftarrow> buf_add m p (ucast size64);
        s \<leftarrow> buf_cat s b;
        let pad = pad4 (bsize s);
        if pad \<noteq> 0 then buf_cat s (pad_buf pad) else Some s
      })"

text \<open>A C string is its characters before the terminating NUL, which the memory must hold.\<close>

definition strlen :: "byte list \<Rightarrow> nat" where
  "strlen m = length (takeWhile (\<lambda>c. c \<noteq> 0) m)"

definition serialize_string :: "byte list \<Rightarrow> buf option" where
  "serialize_string m = (if 0 \<in> set m then serialize_bytes m 0 (of_nat (strlen m)) else None)"

definition flag_is_set :: "u32 \<Rightarrow> nat \<Rightarrow> bool" where
  "flag_is_set v flag = (let flagb = push_bit flag 1 in v AND flagb \<noteq> flagb)"

definition serialize_str :: "buf \<Rightarrow> buf option" where
  "serialize_str b =
     (if bsize b \<le> 253 then do {
        s \<leftarrow> buf_add (le_bytes 4 (bsize b)) 0 1;
        s \<leftarrow> buf_cat s b;
        buf_cat s (pad_buf (pad4 (bsize s)))
      } else if 254 \<le> bsize b then do {
        s \<leftarrow> buf_add [0xfe] 0 1;
        len \<leftarrow> buf_add (le_bytes 4 (bsize b)) 0 3;
        s \<leftarrow> buf_cat s len;
        s \<leftarrow> buf_cat s b;
        let pad = pad4 (bsize s);
        if pad \<noteq> 0 then buf_cat s (pad_buf pad) else Some s
      } else Some buf_new)"

section \<open>Deserialisation\<close>

text \<open>\<^verbatim>\<open>b->data += n; b->size -= n;\<close>\<close>

definition advance :: "buf \<Rightarrow> u32 \<Rightarrow> buf" where
  "advance b n = b\<lparr>bdata := bdata b + unat n, bsize := bsize b - n\<rparr>"

definition deserialize_ui32 :: "buf \<Rightarrow> (u32 \<times> buf) option" where
  "deserialize_ui32 b = do { c \<leftarrow> buf_get_ui32 b; Some (c, advance b 4) }"

definition deserialize_ui64 :: "buf \<Rightarrow> (u64 \<times> buf) option" where
  "deserialize_ui64 b = do { c \<leftarrow> buf_get_ui64 b; Some (c, advance b 8) }"

definition deserialize_double :: "buf \<Rightarrow> (u64 \<times> buf) option" where
  "deserialize_double b = do { c \<leftarrow> buf_get_double b; Some (c, advance b 8) }"

text \<open>The parameter is an \<^verbatim>\<open>int\<close>; its bits reach \<^verbatim>\<open>buf_add\<close> and the pointer unchanged.\<close>

definition deserialize_buf :: "buf \<Rightarrow> u32 \<Rightarrow> (buf \<times> buf) option" where
  "deserialize_buf b n = do {
     ret \<leftarrow> buf_add (bblk b) (bdata b) n;
     Some (ret, advance b n)
   }"

definition deserialize_bytes :: "buf \<Rightarrow> (buf \<times> buf) option" where
  "deserialize_bytes b = do {
     byte \<leftarrow> buf_add (bblk b) (bdata b) 4;
     (s, b, len, offset) \<leftarrow>
       (if bblk byte ! bdata byte \<le> 253 then do {
          let len = ucast (bblk byte ! bdata byte);
          let b = advance b 1;
          s \<leftarrow> buf_add (bblk b) (bdata b) len;
          Some (s, b, len, 1)
        } else do {
          s1 \<leftarrow> buf_add [0xfe] 0 1;
          s2 \<leftarrow> buf_add (bblk b) (bdata b) 1;
          _ \<leftarrow> buf_cmp s1 s2;
          len3 \<leftarrow> buf_add (bblk b) (bdata b + 1) 3;
          len \<leftarrow> buf_get_ui32 (len3\<lparr>bsize := 4\<rparr>);
          let b = advance b 4;
          s \<leftarrow> buf_add (bblk b) (bdata b) len;
          Some (s, b, len, 0)
        });
     let b = advance b len;
     let pad = pad4 (len + offset);
     Some (s, if pad \<noteq> 0 then advance b pad else b)
   }"

text \<open>
  The dispatch tables are generated.  \<open>tl_deserialize\<close> returns the object (or
  \<^verbatim>\<open>NULL\<close>) and the buffer behind it; \<open>'t\<close> is the type of TL objects.
\<close>

type_synonym 't dtable = "(u32 \<times> (buf \<Rightarrow> ('t option \<times> buf) option)) list"

fun get_fun :: "(u32 \<times> 'f) list \<Rightarrow> u32 \<Rightarrow> 'f option" where
  "get_fun [] k = None"
| "get_fun ((i, f) # tab) k = (if i = k then Some f else get_fun tab k)"

definition tl_deserialize :: "'t dtable \<Rightarrow> buf \<Rightarrow> ('t option \<times> buf) option" where
  "tl_deserialize tab b = do {
     k \<leftarrow> load32 (bblk b) (bdata b);
     if k = 0 then Some (None, b)
     else (case get_fun tab k of None \<Rightarrow> Some (None, b) | Some f \<Rightarrow> f b)
   }"

definition id_from_tl_buf :: "buf \<Rightarrow> u32 option" where
  "id_from_tl_buf b = load32 (bblk b) (bdata b)"

text \<open>
  \<^verbatim>\<open>mtp_message_t.msg_id\<close> is a C \<^verbatim>\<open>long\<close>, which the code reads back as
  \<^verbatim>\<open>uint64_t\<close>.  The way through a \<^verbatim>\<open>long\<close> is the identity on the 64-bit targets and keeps
  only the low 32 bits, sign-extended, on the 32-bit ones.
\<close>

datatype c_model = LP64 | ILP32

fun via_long :: "c_model \<Rightarrow> u64 \<Rightarrow> u64" where
  "via_long LP64 x = x"
| "via_long ILP32 x = scast (ucast x :: u32)"

record mtp_message =
  msg_id :: u64
  msg_seqno :: u32
  msg_bytes :: u32
  msg_body :: buf

definition deserialize_mtp_message :: "c_model \<Rightarrow> buf \<Rightarrow> (mtp_message \<times> buf) option" where
  "deserialize_mtp_message cm b = do {
     (k, b) \<leftarrow> deserialize_ui64 b;
     (seqno, b) \<leftarrow> deserialize_ui32 b;
     (n, b) \<leftarrow> deserialize_ui32 b;
     (body, b) \<leftarrow> deserialize_buf b n;
     Some (\<lparr>msg_id = via_long cm k, msg_seqno = seqno, msg_bytes = n, msg_body = body\<rparr>, b)
   }"

text \<open>
  \<^verbatim>\<open>get_free_fun\<close> looks the identifier up in the deserialisation table and takes the
  entry of the free table at the same position.
\<close>

fun get_free_fun :: "(u32 \<times> 'f) list \<Rightarrow> (u32 \<times> 'g) list \<Rightarrow> u32 \<Rightarrow> 'g option option" where
  "get_free_fun [] ftab k = Some None"
| "get_free_fun ((i, f) # dtab) ftab k =
     (if i = k then (case ftab of [] \<Rightarrow> None | (_, g) # _ \<Rightarrow> Some (Some g))
      else get_free_fun dtab (tl ftab) k)"

definition tl_free :: "('t \<Rightarrow> u32) \<Rightarrow> (u32 \<times> 'f) list \<Rightarrow> (u32 \<times> 'g) list \<Rightarrow> 't option \<Rightarrow> 'g option option" where
  "tl_free idof dtab ftab obj =
     (case obj of None \<Rightarrow> Some None | Some t \<Rightarrow> get_free_fun dtab ftab (idof t))"

section \<open>The encoding as a specification\<close>

definition pad_len :: "nat \<Rightarrow> nat" where
  "pad_len n = (4 - n mod 4) mod 4"

definition len3 :: "nat \<Rightarrow> byte list" where
  "len3 n = [of_nat n, of_nat (n div 256), of_nat (n div 65536)]"

definition tl_string :: "byte list \<Rightarrow> byte list" where
  "tl_string xs =
     (if length xs \<le> 253
      then of_nat (length xs) # xs @ replicate (pad_len (length xs + 1)) 0
      else 0xfe # len3 (length xs) @ xs @ replicate (pad_len (length xs)) 0)"

section \<open>Lemmas\<close>

lemma pad_len_less: "pad_len n < 4"
  by (simp add: pad_len_def)

lemma pad_len_aligns: "(n + pad_len n) mod 4 = 0"
proof -
  have "n mod 4 = 0 \<or> n mod 4 = 1 \<or> n mod 4 = 2 \<or> n mod 4 = 3" by linarith
  moreover have "(n + pad_len n) mod 4 = (n mod 4 + pad_len n) mod 4" by (simp add: mod_simps)
  ultimately show ?thesis by (auto simp: pad_len_def)
qed

lemma unat_pad4: "unat (pad4 n) = pad_len (unat n)"
proof -
  have m: "unat (n mod 4) = unat n mod 4" by (simp add: unat_mod)
  then have "n mod 4 \<le> 4" by (simp add: word_le_nat_alt)
  then have "unat (4 - n mod 4) = 4 - unat n mod 4" by (simp add: unat_sub m)
  then show ?thesis by (simp add: pad4_def pad_len_def unat_mod)
qed

lemma pad4_eq_0: "pad4 n = 0 \<longleftrightarrow> pad_len (unat n) = 0"
  by (metis unat_pad4 unat_eq_zero)

lemma length_len3 [simp]: "length (len3 n) = 3"
  by (simp add: len3_def)

lemma take_le_bytes: "k \<le> n \<Longrightarrow> take k (le_bytes n w) = le_bytes k w"
proof (induction n arbitrary: k w)
  case (Suc n)
  then show ?case by (cases k) auto
qed simp

lemma ucast_drop_bit_of_nat:
  "k < 2 ^ LENGTH('a) \<Longrightarrow> ucast (drop_bit j (of_nat k :: 'a::len word)) = (of_nat (k div 2 ^ j) :: byte)"
proof -
  assume "k < 2 ^ LENGTH('a)"
  then have "unat (drop_bit j (of_nat k :: 'a word)) = k div 2 ^ j"
    by (simp add: unat_drop_bit_eq unat_of_nat) (simp add: drop_bit_eq_div)
  then show ?thesis by (metis of_nat_unat)
qed

lemma le_bytes_1: "k < 2 ^ LENGTH('a) \<Longrightarrow> le_bytes 1 (of_nat k :: 'a::len word) = [of_nat k]"
  using ucast_drop_bit_of_nat [of k 0, where 'a = 'a] by simp

lemma le_bytes_3:
  "k < 2 ^ LENGTH('a) \<Longrightarrow> le_bytes 3 (of_nat k :: 'a::len word) = len3 k"
  using ucast_drop_bit_of_nat [of k 0, where 'a = 'a] ucast_drop_bit_of_nat [of k 8, where 'a = 'a]
    ucast_drop_bit_of_nat [of k 16, where 'a = 'a]
  by (simp add: len3_def numeral_3_eq_3 drop_bit_drop_bit)

lemma bytes_pad_buf: "unat n \<le> BUFSIZ \<Longrightarrow> bytes (pad_buf n) = replicate (unat n) 0"
  by (simp add: pad_buf_def buf_init_ok bytes_def mkbuf_def Let_def min_def del: replicate_Suc)

lemma readable_pad_buf: "unat n \<le> BUFSIZ \<Longrightarrow> readable (pad_buf n)"
  by (simp add: pad_buf_def buf_init_ok readable_def mkbuf_def Let_def)

lemma bsize_pad_buf [simp]: "bsize (pad_buf n) = n"
  by (simp add: pad_buf_def)

lemma buf_cat_pad:
  assumes "fits (length xs + 3)"
  shows "buf_cat (mkbuf xs) (pad_buf (pad4 (of_nat (length xs)))) =
         Some (mkbuf (xs @ replicate (pad_len (length xs)) 0))"
proof -
  have fx: "fits (length xs)" using assms by (rule fits_mono) simp
  have u: "unat (pad4 (of_nat (length xs))) = pad_len (length xs)"
    using fx by (simp add: unat_pad4)
  then have le: "unat (pad4 (of_nat (length xs) :: u32)) \<le> BUFSIZ"
    by (simp add: u BUFSIZ_def pad_len_def)
  have "fits (length xs + pad_len (length xs))"
    using assms by (rule fits_mono) (use pad_len_less [of "length xs"] in linarith)
  then show ?thesis
    using readable_pad_buf [OF le] bytes_pad_buf [OF le] u by simp
qed

lemma unat_small_numeral [simp]: "unat (1 :: u32) = 1" "unat (3 :: u32) = 3"
  by simp_all

lemma buf_add_drop:
  assumes "fits (unat n)" and "unat n \<le> length (drop p m)"
  shows "buf_add m p n = Some (mkbuf (take (unat n) (drop p m)))"
proof (cases "n = 0")
  case True
  then show ?thesis
    using reserve_mkbuf [of 0 "[]"]
    by (simp add: buf_add_def buf_init_ok) (simp add: mkbuf_def Let_def)
next
  case False
  then have "0 < unat n" by (simp add: unat_gt_0)
  with assms show ?thesis by (intro buf_add_eq) auto
qed

lemma serialize_bytes_eq:
  assumes rd: "xs = take n (drop p m)" and n: "n \<le> length (drop p m)" and fit: "fits (n + 7)"
  shows "serialize_bytes m p (of_nat n) = Some (mkbuf (tl_string xs))"
proof -
  have ln: "length xs = n" using rd n by simp
  have n32: "fits n" using fit by (rule fits_mono) simp
  have n64: "n < 2 ^ LENGTH(64)" using n32 by (simp add: fits_def)
  have uc: "ucast (of_nat n :: u64) = (of_nat n :: u32)"
    using n64 by (simp add: unsigned_of_nat take_bit_nat_eq_self)
  have small: "(of_nat n :: u64) \<le> 253 \<longleftrightarrow> n \<le> 253"
    using n64 by (simp add: word_le_nat_alt unat_of_nat)
  have add: "buf_add m p (of_nat n) = Some (mkbuf xs)"
    using buf_add_drop [of "of_nat n" p m] n n32 rd by simp
  have hd1: "buf_add (le_bytes 8 (of_nat n :: u64)) 0 1 = Some (mkbuf [of_nat n])"
    using le_bytes_1 [OF n64] by (simp add: take_le_bytes del: le_bytes.simps)
  have hd3: "buf_add (le_bytes 8 (of_nat n :: u64)) 0 3 = Some (mkbuf (len3 n))"
    using le_bytes_3 [OF n64] by (simp add: take_le_bytes fits_def)
  have fe: "buf_add [0xfe] 0 1 = Some (mkbuf [0xfe])" by simp
  have fits1: "fits (1 + n + 3)" "fits (1 + n)" "fits (4 + n + 3)" "fits (4 + n)" "fits 3"
    using fit by (auto simp: fits_def)
  have p1: "buf_cat (mkbuf (of_nat n # xs)) (pad_buf (pad4 (1 + of_nat n))) =
        Some (mkbuf (of_nat n # xs @ replicate (pad_len (n + 1)) 0))"
    using buf_cat_pad [of "of_nat n # xs"] ln fits1(1) by (simp add: add.commute)
  have p4: "buf_cat (mkbuf (0xfe # len3 n @ xs)) (pad_buf (pad4 (4 + of_nat n))) =
        Some (mkbuf (0xfe # len3 n @ xs @ replicate (pad_len n) 0))"
    using buf_cat_pad [of "0xfe # len3 n @ xs"] ln fits1(3)
    by (simp add: pad_len_def add.commute mod_simps)
  have z: "pad4 (4 + of_nat n) = 0 \<longleftrightarrow> pad_len n = 0"
    using fits1(4) n32 by (simp add: pad4_eq_0 pad_len_def)
  have c3: "buf_cat (mkbuf [0xfe]) (mkbuf (len3 n)) = Some (mkbuf (0xfe # len3 n))"
    by simp
  show ?thesis
    using fits1 n32 ln p1 p4 z c3
    by (simp add: serialize_bytes_def small uc add hd1 hd3 fe tl_string_def add.commute)
qed

lemma serialize_str_eq:
  assumes rd: "readable b" and fit: "fits (unat (bsize b) + 7)"
  shows "serialize_str b = Some (mkbuf (tl_string (bytes b)))"
proof -
  let ?n = "unat (bsize b)" and ?xs = "bytes b"
  have ln: "length ?xs = ?n" using rd by simp
  have n32: "fits ?n" using fit by (rule fits_mono) simp
  have n32': "?n < 2 ^ LENGTH(32)" using n32 by (simp add: fits_def)
  have small: "bsize b \<le> 253 \<longleftrightarrow> ?n \<le> 253" "254 \<le> bsize b \<longleftrightarrow> 254 \<le> ?n"
    by (simp_all add: word_le_nat_alt)
  have hd1: "buf_add (le_bytes 4 (bsize b)) 0 1 = Some (mkbuf [of_nat ?n])"
    using le_bytes_1 [OF n32'] by (simp add: take_le_bytes del: le_bytes.simps)
  have hd3: "buf_add (le_bytes 4 (bsize b)) 0 3 = Some (mkbuf (len3 ?n))"
    using le_bytes_3 [OF n32'] by (simp add: take_le_bytes)
  have fe: "buf_add [0xfe] 0 1 = Some (mkbuf [0xfe])"
    "buf_cat (mkbuf [0xfe]) (mkbuf (len3 ?n)) = Some (mkbuf (0xfe # len3 ?n))" by simp_all
  have fits1: "fits (Suc ?n + 3)" "fits (Suc ?n)" "fits (4 + ?n + 3)" "fits (4 + ?n)"
    using fit by (auto simp: fits_def)
  have p1: "buf_cat (mkbuf (of_nat ?n # ?xs)) (pad_buf (pad4 (1 + bsize b))) =
        Some (mkbuf (of_nat ?n # ?xs @ replicate (pad_len (?n + 1)) 0))"
    using buf_cat_pad [of "of_nat ?n # ?xs"] ln fits1(1) by simp
  have p4: "buf_cat (mkbuf (0xfe # len3 ?n @ ?xs)) (pad_buf (pad4 (4 + bsize b))) =
        Some (mkbuf (0xfe # len3 ?n @ ?xs @ replicate (pad_len ?n) 0))"
    using buf_cat_pad [of "0xfe # len3 ?n @ ?xs"] ln fits1(3) by (simp add: pad_len_def)
  have z: "pad4 (4 + bsize b) = 0 \<longleftrightarrow> pad_len ?n = 0"
    using fits1(4) n32 by (simp add: pad4_eq_0 pad_len_def)
  show ?thesis
    using fits1 n32 ln p1 p4 z fe rd
    by (simp add: serialize_str_def small hd1 hd3 tl_string_def)
qed

definition rest :: "buf \<Rightarrow> byte list" where
  "rest b = drop (bdata b) (bblk b)"

lemma rest_mkbuf: "rest (mkbuf xs) = xs @ replicate (max BUFSIZ (length xs) + 1 - length xs) 0"
  by (simp add: rest_def mkbuf_def Let_def)

lemma rest_advance [simp]: "rest (advance b n) = drop (unat n) (rest b)"
  by (simp add: rest_def advance_def add.commute)

lemma advance_advance:
  "fits (unat m + unat n) \<Longrightarrow> advance (advance b m) n = advance b (m + n)"
  by (simp add: advance_def)

lemma advance_of_nat:
  "fits (m + n) \<Longrightarrow> advance (advance b (of_nat m)) (of_nat n) = advance b (of_nat (m + n))"
  using fits_mono [of "m + n" m] fits_mono [of "m + n" n] by (simp add: advance_advance)

lemma pad4_of_nat: "fits n \<Longrightarrow> pad4 (of_nat n) = of_nat (pad_len n)"
  using unat_pad4 [of "of_nat n"] by (metis of_nat_unat ucast_id unat_of_nat_fits)

lemma advance_0 [simp]: "advance b 0 = b"
  by (simp add: advance_def)

lemma load_rest:
  "4 \<le> length (rest b) \<Longrightarrow> load32 (bblk b) (bdata b) = Some (le_val (take 4 (rest b)))"
  "8 \<le> length (rest b) \<Longrightarrow> load64 (bblk b) (bdata b) = Some (le_val (take 8 (rest b)))"
  by (simp_all add: load32_def load64_def mem_read_def rest_def)

lemma buf_add_rest:
  "fits (unat n) \<Longrightarrow> unat n \<le> length (rest b) \<Longrightarrow>
   buf_add (bblk b) (bdata b) n = Some (mkbuf (take (unat n) (rest b)))"
  by (simp add: rest_def buf_add_drop)

lemma deserialize_ui32_eq [simp]:
  "4 \<le> length (rest b) \<Longrightarrow> deserialize_ui32 b = Some (le_val (take 4 (rest b)), advance b 4)"
  by (simp add: deserialize_ui32_def buf_get_ui32_def load_rest)

lemma deserialize_ui64_eq [simp]:
  "8 \<le> length (rest b) \<Longrightarrow> deserialize_ui64 b = Some (le_val (take 8 (rest b)), advance b 8)"
  by (simp add: deserialize_ui64_def buf_get_ui64_def load_rest)

lemma deserialize_double_eq [simp]:
  "8 \<le> length (rest b) \<Longrightarrow> deserialize_double b = Some (le_val (take 8 (rest b)), advance b 8)"
  by (simp add: deserialize_double_def buf_get_double_def load_rest)

lemma deserialize_buf_eq:
  "rest b = xs @ ys \<Longrightarrow> fits (length xs) \<Longrightarrow> n = of_nat (length xs) \<Longrightarrow>
   deserialize_buf b n = Some (mkbuf xs, advance b n)"
  by (simp add: deserialize_buf_def buf_add_rest)

lemma length_tl_string:
  "length (tl_string xs) = (if length xs \<le> 253 then 1 else 4) + length xs +
     pad_len (if length xs \<le> 253 then length xs + 1 else length xs)"
  by (simp add: tl_string_def)

lemma length_tl_string_mod4: "length (tl_string xs) mod 4 = 0"
  using pad_len_aligns [of "length xs + 1"] pad_len_aligns [of "length xs"]
  by (simp add: length_tl_string add.assoc)

lemma length_tl_string_bound: "length (tl_string xs) \<le> length xs + 7"
  using pad_len_less [of "length xs + 1"] pad_len_less [of "length xs"]
  by (auto simp: length_tl_string)

lemma length_tl_string_ge: "4 \<le> length (tl_string xs)"
proof -
  have "0 < length (tl_string xs)" by (simp add: length_tl_string)
  with length_tl_string_mod4 [of xs] show ?thesis by (metis mod_less not_le_imp_less nat_neq_iff)
qed

lemma le_bytes_snoc: "le_bytes (Suc n) w = le_bytes n w @ [ucast (drop_bit (8 * n) w)]"
proof (induction n arbitrary: w)
  case 0
  then show ?case by simp
next
  case (Suc n)
  have "le_bytes (Suc (Suc n)) w = ucast w # le_bytes (Suc n) (drop_bit 8 w)" by simp
  also have "\<dots> = ucast w # le_bytes n (drop_bit 8 w) @ [ucast (drop_bit (8 * n) (drop_bit 8 w))]"
    by (subst Suc.IH) (rule refl)
  also have "drop_bit (8 * n) (drop_bit 8 w) = drop_bit (8 * Suc n) w"
    by (simp add: drop_bit_drop_bit add.commute)
  finally show ?case by simp
qed

lemma le_val_len3: "k < 2 ^ 24 \<Longrightarrow> le_val (len3 k @ [0]) = (of_nat k :: u32)"
proof -
  assume k: "k < 2 ^ 24"
  then have k32: "k < 2 ^ LENGTH(32)" by simp
  have "le_bytes 4 (of_nat k :: u32) = len3 k @ [0]"
    using le_bytes_3 [OF k32] ucast_drop_bit_of_nat [OF k32, of 24] k le_bytes_snoc [of 3 "of_nat k :: u32"]
    by simp
  then show ?thesis by (metis le_val32)
qed

lemma nth_mkbuf_0: "xs \<noteq> [] \<Longrightarrow> bblk (mkbuf xs) ! 0 = hd xs"
  by (cases xs) (simp_all add: mkbuf_def Let_def)

lemma deserialize_bytes_short:
  assumes r: "rest b = of_nat (length xs) # xs @ ys" and s: "length xs \<le> 253"
    and pd: "pad_len (length xs + 1) \<le> length ys"
  shows "deserialize_bytes b =
         Some (mkbuf xs, advance b (of_nat (1 + length xs + pad_len (length xs + 1))))"
proof -
  let ?n = "length xs"
  let ?p = "pad_len (?n + 1)"
  have p4: "?p < 4" by (rule pad_len_less)
  have l4: "4 \<le> length (rest b)"
    using r pd pad_len_aligns [of "?n + 1"] by (cases "?n < 3") (auto simp: pad_len_def)
  have hd: "(of_nat ?n :: byte) \<le> 253" "ucast (of_nat ?n :: byte) = (of_nat ?n :: u32)"
    using s by (simp_all add: word_le_nat_alt unat_of_nat unsigned_of_nat take_bit_nat_eq_self)
  have b4: "buf_add (bblk b) (bdata b) 4 = Some (mkbuf (take 4 (rest b)))"
    using l4 by (simp add: buf_add_rest)
  have first: "bblk (mkbuf (take 4 (rest b))) ! 0 = of_nat ?n"
    using r l4 by (subst nth_mkbuf_0) auto
  have fn: "fits ?n" using s by (simp add: fits_def)
  have str: "buf_add (bblk (advance b 1)) (bdata (advance b 1)) (of_nat ?n) = Some (mkbuf xs)"
    using r fn by (subst buf_add_rest) simp_all
  have f1: "fits (?n + 1)" "fits (1 + ?n)" "fits (1 + ?n + ?p)"
    using s p4 by (simp_all add: fits_def)
  have up: "pad4 (of_nat ?n + 1) = of_nat ?p"
    using pad4_of_nat [OF f1(1)] by (simp add: add.commute)
  have adv: "advance (advance (advance b 1) (of_nat ?n)) (of_nat ?p) = advance b (of_nat (1 + ?n + ?p))"
    using advance_of_nat [of 1 ?n b] advance_of_nat [of "1 + ?n" ?p b] f1 by simp
  show ?thesis
    using adv by (auto simp: deserialize_bytes_def b4 first hd str up Let_def)
qed

lemma deserialize_bytes_long:
  assumes r: "rest b = 0xfe # len3 (length xs) @ xs @ ys" and s: "length xs < 2 ^ 24"
    and pd: "pad_len (length xs) \<le> length ys"
  shows "deserialize_bytes b = Some (mkbuf xs, advance b (of_nat (4 + length xs + pad_len (length xs))))"
proof -
  let ?n = "length xs"
  let ?p = "pad_len ?n"
  have p4: "?p < 4" by (rule pad_len_less)
  have l4: "4 \<le> length (rest b)" using r by simp
  have b4: "buf_add (bblk b) (bdata b) 4 = Some (mkbuf (take 4 (rest b)))"
    using l4 by (simp add: buf_add_rest)
  have first: "bblk (mkbuf (take 4 (rest b))) ! 0 = 0xfe"
    using r l4 by (subst nth_mkbuf_0) auto
  have b1: "buf_add (bblk b) (bdata b) 1 = Some (mkbuf [0xfe])"
    using l4 r by (simp add: buf_add_rest)
  have dr: "drop (bdata b + 1) (bblk b) = len3 ?n @ xs @ ys"
  proof -
    have "drop (bdata b + 1) (bblk b) = drop 1 (rest b)" by (simp add: rest_def)
    with r show ?thesis by simp
  qed
  have b3: "buf_add (bblk b) (Suc (bdata b)) 3 = Some (mkbuf (len3 ?n))"
    using dr by (subst buf_add_drop) simp_all
  have ld: "buf_get_ui32 ((mkbuf (len3 ?n))\<lparr>bsize := 4\<rparr>) = Some (of_nat ?n)"
  proof -
    have "take 4 (bblk (mkbuf (len3 ?n))) = len3 ?n @ [0]"
      by (simp add: mkbuf_def Let_def BUFSIZ_def)
    then show ?thesis
      using le_val_len3 [OF s] by (simp add: buf_get_ui32_def load32_def mem_read_def mkbuf_def Let_def BUFSIZ_def)
  qed
  have cmp: "buf_cmp (mkbuf [0xfe]) (mkbuf [0xfe]) = Some 1"
    by (simp add: buf_cmp_def mkbuf_def Let_def)
  have fn: "fits ?n" using s by (simp add: fits_def)
  have str: "buf_add (bblk (advance b 4)) (bdata (advance b 4)) (of_nat ?n) = Some (mkbuf xs)"
  proof -
    have "drop 4 (rest b) = xs @ ys" using r by (simp add: len3_def)
    with fn show ?thesis by (subst buf_add_rest) simp_all
  qed
  have f1: "fits (4 + ?n)" "fits (4 + ?n + ?p)"
    using s p4 by (simp_all add: fits_def)
  have adv: "advance (advance (advance b 4) (of_nat ?n)) (of_nat ?p) = advance b (of_nat (4 + ?n + ?p))"
    using advance_of_nat [of 4 ?n b] advance_of_nat [of "4 + ?n" ?p b] f1 by simp
  show ?thesis
    using adv by (auto simp: deserialize_bytes_def b4 first b1 b3 ld cmp str pad4_of_nat [OF fn] Let_def)
qed

lemma deserialize_bytes_tl_string:
  assumes "rest b = tl_string xs @ ys" and "length xs < 2 ^ 24"
  shows "deserialize_bytes b = Some (mkbuf xs, advance b (of_nat (length (tl_string xs))))"
proof (cases "length xs \<le> 253")
  case True
  with assms show ?thesis
    using deserialize_bytes_short [of b xs "replicate (pad_len (length xs + 1)) 0 @ ys"]
    by (simp add: tl_string_def add.assoc)
next
  case False
  with assms show ?thesis
    using deserialize_bytes_long [of b xs "replicate (pad_len (length xs)) 0 @ ys"]
    by (simp add: tl_string_def add.assoc)
qed

lemma get_fun_iff: "get_fun tab k = map_of tab k"
  by (induction tab) auto

lemma get_free_fun_map_of:
  "map fst dtab = map fst ftab \<Longrightarrow> get_free_fun dtab ftab k = Some (map_of ftab k)"
proof (induction dtab ftab k rule: get_free_fun.induct)
  case (1 ftab k)
  then show ?case by simp
next
  case (2 i f dtab ftab k)
  then show ?case by (cases ftab) auto
qed

section \<open>What the codec promises\<close>

text \<open>
  C30: A byte string of less than \<open>2\<^sup>2\<^sup>4\<close> bytes survives the wire: reading back what
  \<^verbatim>\<open>serialize_bytes\<close> wrote, in front of any further data, returns the string and leaves
  the reader exactly behind it, at a distance that is a multiple of four bytes.
\<close>

theorem bytes_roundtrip:
  assumes len: "length xs < 2 ^ 24" and dest: "rest b = wire @ ys"
    and wr: "serialize_bytes xs 0 (of_nat (length xs)) = Some s" and wire: "wire = bytes s"
  shows "deserialize_bytes b = Some (mkbuf xs, advance b (bsize s)) \<and>
         unat (bsize s) = length wire \<and> 4 dvd length wire"
proof -
  have "fits (length xs + 7)" using len by (simp add: fits_def)
  then have s: "s = mkbuf (tl_string xs)"
    using wr serialize_bytes_eq [of xs "length xs" 0 xs] by simp
  have ft: "fits (length (tl_string xs))"
    using \<open>fits (length xs + 7)\<close> length_tl_string_bound by (rule fits_mono)
  then have w: "wire = tl_string xs" by (simp add: wire s)
  show ?thesis
    using deserialize_bytes_tl_string [of b xs ys] dest len w ft length_tl_string_mod4 [of xs]
    by (simp add: s mod_eq_0_iff_dvd)
qed

theorem bytes_roundtrip_witness:
  "\<exists>s. serialize_bytes [1, 2, 3, 4, 5] 0 (of_nat (length [1, 2, 3, 4, 5 :: byte])) = Some s \<and>
       deserialize_bytes (mkbuf (bytes s @ [9, 9, 9, 9])) =
         Some (mkbuf [1, 2, 3, 4, 5], advance (mkbuf (bytes s @ [9, 9, 9, 9])) (bsize s))"
proof -
  obtain s where s: "serialize_bytes [1, 2, 3, 4, 5] 0 (of_nat (length [1, 2, 3, 4, 5 :: byte])) = Some s"
    using serialize_bytes_eq [of "[1, 2, 3, 4, 5]" 5 0 "[1, 2, 3, 4, 5]"] by simp
  let ?b = "mkbuf (bytes s @ [9, 9, 9, 9])"
  obtain zs where r: "rest ?b = bytes s @ zs" by (simp add: rest_mkbuf)
  have l: "length [1, 2, 3, 4, 5 :: byte] < 2 ^ 24" by simp
  show ?thesis using bytes_roundtrip [OF l r s refl] s by blast
qed

text \<open>
  The same for a string held in a buffer (\<^verbatim>\<open>serialize_str\<close>), and the output of both
  serialisers is the TL encoding: a length byte or \<^verbatim>\<open>0xfe\<close> and three length bytes, the
  string, zeros up to a multiple of four.
\<close>

theorem serialize_str_encoding:
  assumes "readable b" and "unat (bsize b) < 2 ^ 32 - 8"
  shows "serialize_str b = Some (mkbuf (tl_string (bytes b))) \<and>
         serialize_bytes (bytes b) 0 (of_nat (length (bytes b))) = serialize_str b"
proof -
  have f: "fits (unat (bsize b) + 7)" using assms(2) by (simp add: fits_def)
  then have "serialize_bytes (bytes b) 0 (of_nat (length (bytes b))) = Some (mkbuf (tl_string (bytes b)))"
    using assms(1) by (intro serialize_bytes_eq) simp_all
  with serialize_str_eq [OF assms(1) f] show ?thesis by simp
qed

theorem serialize_str_encoding_witness:
  "serialize_str (mkbuf [1, 2]) = Some (mkbuf (tl_string (bytes (mkbuf [1, 2])))) \<and>
   serialize_bytes (bytes (mkbuf [1, 2])) 0 (of_nat (length (bytes (mkbuf [1, 2])))) = serialize_str (mkbuf [1, 2])"
  by (rule serialize_str_encoding) (simp_all add: fits_def)

text \<open>
  From \<open>2\<^sup>2\<^sup>4\<close> bytes on the three length bytes no longer hold the length: two strings
  whose lengths differ by \<open>2\<^sup>2\<^sup>4\<close> get the same length field, so the reader cannot tell
  how long the string was.
\<close>

theorem serialize_length_wraps:
  assumes "254 \<le> length xs" and "length xs + 2 ^ 24 < 2 ^ 32 - 8" and "length ys = length xs + 2 ^ 24"
  shows "\<exists>s t. serialize_bytes xs 0 (of_nat (length xs)) = Some s \<and>
               serialize_bytes ys 0 (of_nat (length ys)) = Some t \<and>
               take 4 (bytes s) = take 4 (bytes t)"
proof -
  have f: "fits (length xs + 7)" "fits (length ys + 7)" using assms by (simp_all add: fits_def)
  then have "fits (length (tl_string xs))" "fits (length (tl_string ys))"
    using length_tl_string_bound fits_mono by blast+
  moreover have "len3 (length ys) = len3 (length xs)"
  proof -
    have "(length xs + 2 ^ 24) div 256 = length xs div 256 + 65536"
      "(length xs + 2 ^ 24) div 65536 = length xs div 65536 + 256" by simp_all
    then show ?thesis by (simp add: len3_def assms(3))
  qed
  ultimately show ?thesis
    using assms serialize_bytes_eq [of xs "length xs" 0 xs] serialize_bytes_eq [of ys "length ys" 0 ys] f
    by (simp add: tl_string_def)
qed

theorem serialize_length_wraps_witness:
  "\<exists>s t. serialize_bytes (replicate 254 0) 0 (of_nat (length (replicate 254 (0 :: byte)))) = Some s \<and>
         serialize_bytes (replicate 16777470 0) 0 (of_nat (length (replicate 16777470 (0 :: byte)))) = Some t \<and>
         take 4 (bytes s) = take 4 (bytes t)"
  by (rule serialize_length_wraps) simp_all

text \<open>
  The header of a container message is read back as it was written, the body
  included, except that the identifier goes through a C \<^verbatim>\<open>long\<close>: exact on the 64-bit
  targets, its low half sign-extended on the 32-bit ones.
\<close>

theorem mtp_message_fields:
  assumes "rest b = le_bytes 8 mid @ le_bytes 4 sq @ le_bytes 4 (of_nat (length body) :: u32) @ body @ ys"
    and "length body < 2 ^ 32 - 20"
  shows "deserialize_mtp_message cm b =
     Some (\<lparr>msg_id = via_long cm mid, msg_seqno = sq, msg_bytes = of_nat (length body),
            msg_body = mkbuf body\<rparr>, advance b (of_nat (16 + length body)))"
proof -
  have f: "fits (length body)" "fits (16 + length body)" using assms(2) by (simp_all add: fits_def)
  have a: "advance (advance (advance b 8) 4) 4 = advance b 16"
    by (simp add: advance_advance)
  have r: "rest (advance b 16) = body @ ys" using assms(1) by simp
  have "deserialize_buf (advance b 16) (of_nat (length body)) =
        Some (mkbuf body, advance (advance b 16) (of_nat (length body)))"
    by (rule deserialize_buf_eq [OF r f(1) refl])
  moreover have "advance (advance b 16) (of_nat (length body)) = advance b (of_nat (16 + length body))"
    using advance_of_nat [of 16 "length body" b] f(2) by simp
  ultimately show ?thesis
    using assms(1) by (simp add: deserialize_mtp_message_def a)
qed

theorem mtp_message_fields_witness:
  "deserialize_mtp_message ILP32
     (mkbuf (le_bytes 8 (0x100000007 :: u64) @ le_bytes 4 (3 :: u32) @ le_bytes 4 (2 :: u32) @ [5, 6])) =
   Some (\<lparr>msg_id = 7, msg_seqno = 3, msg_bytes = 2, msg_body = mkbuf [5, 6]\<rparr>,
         advance (mkbuf (le_bytes 8 (0x100000007 :: u64) @ le_bytes 4 (3 :: u32) @ le_bytes 4 (2 :: u32) @ [5, 6])) 18)"
proof -
  let ?b = "mkbuf (le_bytes 8 (0x100000007 :: u64) @ le_bytes 4 (3 :: u32) @ le_bytes 4 (2 :: u32) @ [5, 6])"
  obtain ys where r: "rest ?b = le_bytes 8 (0x100000007 :: u64) @ le_bytes 4 (3 :: u32) @
      le_bytes 4 (of_nat (length [5, 6 :: byte]) :: u32) @ [5, 6] @ ys"
    by (simp add: rest_mkbuf)
  have l: "length [5, 6 :: byte] < 2 ^ 32 - 20" by simp
  show ?thesis using mtp_message_fields [OF r l, of ILP32] by simp
qed

text \<open>
  When the generated free table lists the same identifiers in the same order as the
  deserialisation table, \<^verbatim>\<open>tl_free\<close> runs the free function of the object's own
  constructor, and none for an identifier the tables do not list.
\<close>

theorem tl_free_parallel_tables:
  assumes "map fst dtab = map fst ftab"
  shows "tl_free idof dtab ftab (Some t) = Some (map_of ftab (idof t))"
  using assms by (simp add: tl_free_def get_free_fun_map_of)

theorem tl_free_parallel_tables_witness:
  "tl_free (\<lambda>t. t) [(1, ''d1''), (2, ''d2'')] [(1, ''f1''), (2, ''f2'')] (Some (2 :: u32)) =
     Some (map_of [(1, ''f1''), (2, ''f2'')] (2 :: u32))"
  by (rule tl_free_parallel_tables) simp

text \<open>
  \<^verbatim>\<open>flag_is_set\<close> answers the opposite of its name: it is true exactly when the flag's
  bit is clear.
\<close>

theorem flag_is_set_inverted:
  assumes "flag < 32"
  shows "flag_is_set v flag \<longleftrightarrow> \<not> bit v flag"
proof -
  have "v AND push_bit flag 1 = (if bit v flag then push_bit flag 1 else 0)"
    by (rule bit_word_eqI) (auto simp: bit_simps)
  moreover have "push_bit flag (1 :: u32) \<noteq> 0"
    using assms by (simp add: push_bit_eq_0_iff)
  ultimately show ?thesis by (simp add: flag_is_set_def Let_def)
qed

theorem flag_is_set_inverted_witness: "flag_is_set 4 2 \<longleftrightarrow> \<not> bit (4 :: u32) 2"
  by (rule flag_is_set_inverted) simp

end
