(* ===== verification/Tl_Object.thy ===== *)
theory Tl_Object
  imports Tl_Codec
begin

text \<open>
  The TL objects that the message handlers look into (\<^verbatim>\<open>tl_t\<close> and the structs it is cast
  to), C strings, and the text functions of the C library that the handlers call.  An
  object of any other constructor is \<open>Other\<close> with its identifier.
\<close>

section \<open>Objects\<close>

datatype tl =
    Gzip_packed (tl_buf: buf) (packed_data: buf)
  | Msg_container (tl_buf: buf) (messages: "mtp_message list")
  | New_session_created (tl_buf: buf)
  | Pong (tl_buf: buf)
  | Bad_msg_notification (tl_buf: buf) (error_code: int)
  | Bad_server_salt (tl_buf: buf)
  | Rpc_error (tl_buf: buf) (error_code: int) (error_message: buf)
  | Msgs_ack (tl_buf: buf) (msg_ids: "u64 list")
  | Msg_detailed_info (tl_buf: buf) (answer_msg_id: u64)
  | Msg_new_detailed_info (tl_buf: buf) (answer_msg_id: u64)
  | Rpc_result (tl_buf: buf) (req_msg_id: u64) (result_obj: "tl option")
  | Updates (tl_buf: buf) (upd_id: u32)
  | Other (tl_buf: buf) (other_id: u32)

text \<open>The field \<^verbatim>\<open>_id\<close>: the constructor numbers of the schema.\<close>

fun tl_id :: "tl \<Rightarrow> u32" where
  "tl_id (Gzip_packed _ _) = 0x3072cfa1"
| "tl_id (Msg_container _ _) = 0x73f1f8dc"
| "tl_id (New_session_created _) = 0x9ec20908"
| "tl_id (Pong _) = 0x347773c5"
| "tl_id (Bad_msg_notification _ _) = 0xa7eff811"
| "tl_id (Bad_server_salt _) = 0xedab447b"
| "tl_id (Rpc_error _ _ _) = 0x2144ca19"
| "tl_id (Msgs_ack _ _) = 0x62d6b459"
| "tl_id (Msg_detailed_info _ _) = 0x276d3ec6"
| "tl_id (Msg_new_detailed_info _ _) = 0x809db6df"
| "tl_id (Rpc_result _ _ _) = 0xf35c6d01"
| "tl_id (Updates _ k) = k"
| "tl_id (Other _ k) = k"

section \<open>C strings\<close>

text \<open>A C string is written without its terminating NUL.\<close>

definition cstr :: "byte list \<Rightarrow> string" where
  "cstr bs = takeWhile (\<lambda>c. c \<noteq> CHR 0x00) (map (\<lambda>b. char_of (unat b)) bs)"

text \<open>\<^verbatim>\<open>strstr(s, p)\<close>: the first occurrence, as the rest of the string from there on.\<close>

fun strstr :: "string \<Rightarrow> string \<Rightarrow> string option" where
  "strstr [] p = (if p = [] then Some [] else None)"
| "strstr (c # s) p = (if take (length p) (c # s) = p then Some (c # s) else strstr s p)"

definition isspace :: "char \<Rightarrow> bool" where
  "isspace c \<longleftrightarrow> c \<in> set [CHR '' '', CHR 0x09, CHR 0x0A, CHR 0x0B, CHR 0x0C, CHR 0x0D]"

definition isdigit :: "char \<Rightarrow> bool" where
  "isdigit c \<longleftrightarrow> 48 \<le> (of_char c :: nat) \<and> (of_char c :: nat) \<le> 57"

fun digits_val :: "nat \<Rightarrow> string \<Rightarrow> nat" where
  "digits_val acc [] = acc"
| "digits_val acc (c # s) = digits_val (10 * acc + (of_char c - 48)) s"

text \<open>\<^verbatim>\<open>atoi\<close>; a value outside \<^verbatim>\<open>int\<close> is undefined.\<close>

definition atoi :: "string \<Rightarrow> int option" where
  "atoi s = (let s = dropWhile isspace s;
       neg = (s \<noteq> [] \<and> hd s = CHR ''-'');
       s = (if s \<noteq> [] \<and> (hd s = CHR ''-'' \<or> hd s = CHR ''+'') then List.tl s else s);
       n = int (digits_val 0 (takeWhile isdigit s));
       v = (if neg then - n else n)
     in if - (2 ^ 31) \<le> v \<and> v < 2 ^ 31 then Some v else None)"

text \<open>\<^verbatim>\<open>%d\<close>\<close>

definition digit :: "nat \<Rightarrow> char" where
  "digit n = char_of (48 + n)"

fun dec :: "nat \<Rightarrow> string" where
  "dec n = (if n < 10 then [digit n] else dec (n div 10) @ [digit (n mod 10)])"

declare dec.simps [simp del]

definition sdec :: "int \<Rightarrow> string" where
  "sdec v = (if v < 0 then CHR ''-'' # dec (nat (- v)) else dec (nat v))"

text \<open>\<^verbatim>\<open>%.8x\<close>: eight lower-case hexadecimal digits.\<close>

definition hexdigit :: "nat \<Rightarrow> char" where
  "hexdigit n = (if n < 10 then char_of (48 + n) else char_of (87 + n))"

definition hex8 :: "u32 \<Rightarrow> string" where
  "hex8 w = map (\<lambda>i. hexdigit (unat (drop_bit (4 * i) w) mod 16)) (rev [0..<8])"

section \<open>Lemmas\<close>

lemma strstr_Some:
  "strstr s p = Some t \<Longrightarrow> \<exists>pre. s = pre @ t \<and> take (length p) t = p"
proof (induction s)
  case (Cons c s)
  show ?case
  proof (cases "take (length p) (c # s) = p")
    case False
    with Cons obtain pre where "s = pre @ t" "take (length p) t = p" by auto
    then show ?thesis by (metis append_Cons)
  qed (use Cons.prems in auto)
qed (auto split: if_splits)

lemma strstr_None: "strstr s p = None \<Longrightarrow> s \<noteq> pre @ p @ post"
proof (induction s arbitrary: pre)
  case Nil
  then show ?case by (auto split: if_splits)
next
  case (Cons c s)
  then have n: "take (length p) (c # s) \<noteq> p" "strstr s p = None" by (auto split: if_splits)
  show ?case
  proof (cases pre)
    case Nil
    with n(1) show ?thesis by (metis append.left_neutral append_eq_conv_conj)
  next
    case (Cons a pre')
    with Cons.IH [OF n(2), of pre'] show ?thesis by simp
  qed
qed

lemma strstr_skip:
  "p \<noteq> [] \<Longrightarrow> hd p \<notin> set k \<Longrightarrow> strstr (k @ p @ r) p = Some (p @ r)"
proof (induction k)
  case Nil
  then show ?case by (cases p) simp_all
next
  case (Cons a k)
  then have "take (length p) (a # k @ p @ r) \<noteq> p" by (cases p) auto
  with Cons show ?case by simp
qed

lemma strstr_absent: "p \<noteq> [] \<Longrightarrow> hd p \<notin> set s \<Longrightarrow> strstr s p = None"
proof (induction s)
  case (Cons a s)
  then have "take (length p) (a # s) \<noteq> p" by (cases p) auto
  with Cons show ?case by simp
qed simp

lemma of_char_digit: "n < 10 \<Longrightarrow> of_char (digit n) = (48 + n :: nat)"
  by (simp add: digit_def of_char_of)

lemma isdigit_digit [simp]: "n < 10 \<Longrightarrow> isdigit (digit n)"
  by (simp add: isdigit_def of_char_digit)

lemma digits_val_append: "digits_val acc (s @ t) = digits_val (digits_val acc s) t"
  by (induction s arbitrary: acc) auto

lemma digits_val_dec: "digits_val 0 (dec n) = n"
proof (induction n rule: dec.induct)
  case (1 n)
  then show ?case
    by (subst dec.simps) (auto simp: digits_val_append of_char_digit)
qed

lemma dec_digits: "c \<in> set (dec n) \<Longrightarrow> isdigit c"
proof (induction n rule: dec.induct)
  case (1 n)
  show ?case
  proof (cases "n < 10")
    case True
    with 1 show ?thesis by (simp add: dec.simps [of n])
  next
    case False
    with 1 show ?thesis by (auto simp: dec.simps [of n])
  qed
qed

lemma dec_nonempty [simp]: "dec n \<noteq> []"
  by (subst dec.simps) simp

lemma isdigit_not_special: "isdigit c \<Longrightarrow> \<not> isspace c \<and> c \<noteq> CHR ''-'' \<and> c \<noteq> CHR ''+''"
  by (auto simp: isdigit_def isspace_def)

lemma atoi_dec:
  assumes "n < 2 ^ 31" and "r = [] \<or> \<not> isdigit (hd r)"
  shows "atoi (dec n @ r) = Some (int n)"
proof -
  obtain c s where d: "dec n = c # s" by (cases "dec n") auto
  then have c: "isdigit c" using dec_digits [of c n] by simp
  note nc = isdigit_not_special [OF c]
  have "takeWhile isdigit (dec n @ r) = dec n"
    using assms(2) dec_digits [of _ n] by (cases r) (auto simp: takeWhile_append)
  with d nc assms(1) digits_val_dec [of n] show ?thesis
    by (simp add: atoi_def Let_def)
qed


text \<open>The bytes of a text.\<close>

definition str_bytes :: "string \<Rightarrow> byte list" where
  "str_bytes s = map (\<lambda>c. of_nat (of_char c)) s"

lemma length_str_bytes [simp]: "length (str_bytes s) = length s"
  by (simp add: str_bytes_def)

lemma char_of_byte [simp]: "char_of (unat (of_nat (of_char c) :: byte)) = c"
proof -
  have "of_char c < (256 :: nat)" using nat_of_char_less_256 by simp
  then have "unat (of_nat (of_char c) :: byte) = of_char c" by (simp add: unat_of_nat)
  then show ?thesis by simp
qed

lemma cstr_str_bytes: "CHR 0x00 \<notin> set s \<Longrightarrow> cstr (str_bytes s @ 0 # r) = s"
proof (induction s)
  case Nil
  have "char_of (0 :: nat) = CHR 0x00" by code_simp
  then show ?case by (simp add: cstr_def str_bytes_def)
next
  case (Cons c s)
  then show ?case by (auto simp: cstr_def str_bytes_def)
qed

lemma rest_str: "rest (mkbuf (str_bytes s)) = str_bytes s @ 0 # replicate (max BUFSIZ (length s) - length s) 0"
  by (simp add: rest_mkbuf Suc_diff_le)

section \<open>Lengths of printed numbers\<close>

lemma length_dec: "n < 10 ^ Suc k \<Longrightarrow> length (dec n) \<le> Suc k"
proof (induction k arbitrary: n)
  case 0
  then show ?case by (simp add: dec.simps [of n])
next
  case (Suc k)
  then have "n div 10 < 10 ^ Suc k" by (simp add: div_less_iff_less_mult)
  with Suc.IH show ?case by (simp add: dec.simps [of n])
qed

lemma length_sdec: "- (2 ^ 31) \<le> v \<Longrightarrow> v < 2 ^ 31 \<Longrightarrow> length (sdec v) \<le> 11"
proof -
  assume "- (2 ^ 31) \<le> v" "v < 2 ^ 31"
  then have "nat (- v) < 10 ^ Suc 9" "nat v < 10 ^ Suc 9" by auto
  from length_dec [OF this(1)] length_dec [OF this(2)] show ?thesis by (simp add: sdec_def)
qed

end
