(* ===== verification/Schema.thy ===== *)
theory Schema
  imports Tl_Object
begin

text \<open>
  The parser of the schema, \<^verbatim>\<open>libtg/tl_generator/tl_parser.c\<close>: the text files with the
  declarations of the protocol are read line by line, and each declaration is handed to the code
  generator as a \<^verbatim>\<open>struct method_t\<close>.  Strings are lists of characters without the
  terminating NUL; a null pointer is \<^term>\<open>None\<close> in an option.  The result of a function is
  \<^term>\<open>None\<close> where C leaves the behaviour undefined: a null pointer is dereferenced, the array of 64
  arguments overflows, a number does not fit its type.
\<close>

section \<open>Functions of the C library\<close>

text \<open>
  \<open>c_strtok d s\<close> is \<^verbatim>\<open>strtok(s, d)\<close>: the token, if there is one, and the text that the
  next call with a null pointer goes on with.
\<close>

definition c_strtok :: "string \<Rightarrow> string \<Rightarrow> string option \<times> string" where
  "c_strtok d s = (let t = dropWhile (\<lambda>c. c \<in> set d) s; tok = takeWhile (\<lambda>c. c \<notin> set d) t
     in if t = [] then (None, []) else (Some tok, drop (Suc (length tok)) t))"

lemma c_strtok_length: "c_strtok d s = (Some tok, r) \<Longrightarrow> length r < length s"
proof -
  assume "c_strtok d s = (Some tok, r)"
  then have "r = drop (Suc (length tok)) (dropWhile (\<lambda>c. c \<in> set d) s)" "dropWhile (\<lambda>c. c \<in> set d) s \<noteq> []"
    by (auto simp: c_strtok_def Let_def split: if_splits)
  moreover have "length (dropWhile (\<lambda>c. c \<in> set d) s) \<le> length s" by (rule length_dropWhile_le)
  ultimately show ?thesis by (cases "dropWhile (\<lambda>c. c \<in> set d) s") auto
qed

text \<open>The tokens that \<^verbatim>\<open>strtok_foreach\<close> runs through (\<^verbatim>\<open>strtok_foreach.h\<close>).\<close>

function tokens :: "string \<Rightarrow> string \<Rightarrow> string list" where
  "tokens d s = (case c_strtok d s of (None, _) \<Rightarrow> [] | (Some t, r) \<Rightarrow> t # tokens d r)"
  by pat_completeness auto
termination
  by (relation "measure (\<lambda>(d, s). length s)") (auto dest: c_strtok_length [OF sym])

declare tokens.simps [simp del]

text \<open>\<^verbatim>\<open>fgets\<close> with an array of \<open>n\<close> characters: up to the end of the line, at most \<open>n - 1\<close> characters.\<close>

fun fgets :: "nat \<Rightarrow> string \<Rightarrow> string \<times> string" where
  "fgets n [] = ([], [])"
| "fgets n (c # s) =
     (if n \<le> 1 then ([], c # s)
      else if c = CHR 0x0A then ([c], s)
      else (let (l, r) = fgets (n - 1) s in (c # l, r)))"

lemma fgets_le: "length (snd (fgets n s)) \<le> length s"
  by (induction n s rule: fgets.induct) (auto split: prod.splits)

lemma fgets_length: "1 < n \<Longrightarrow> s \<noteq> [] \<Longrightarrow> length (snd (fgets n s)) < length s"
  using fgets_le [of "n - 1" "List.tl s"] by (cases s) (auto split: prod.splits)

lemma fgets_rest: "(l, r) = fgets (2 * BUFSIZ) s \<Longrightarrow> s \<noteq> [] \<Longrightarrow> length r < length s"
  using fgets_length [of "2 * BUFSIZ" s] by (auto simp: BUFSIZ_def dest: sym)

text \<open>
  The conversion \<^verbatim>\<open>%d\<close> of \<^verbatim>\<open>sscanf\<close>: the number, if the text starts with one, and the text behind it.
\<close>

definition scan_d :: "string \<Rightarrow> (int option \<times> string) option" where
  "scan_d s = (let s = dropWhile isspace s;
       neg = (s \<noteq> [] \<and> hd s = CHR ''-'');
       s = (if s \<noteq> [] \<and> (hd s = CHR ''-'' \<or> hd s = CHR ''+'') then List.tl s else s);
       n = int (digits_val 0 (takeWhile isdigit s));
       v = (if neg then - n else n)
     in if takeWhile isdigit s = [] then Some (None, s)
        else if - (2 ^ 31) \<le> v \<and> v < 2 ^ 31 then Some (Some v, dropWhile isdigit s) else None)"

text \<open>The conversion \<^verbatim>\<open>%x\<close>.\<close>

definition xdigit_val :: "char \<Rightarrow> nat option" where
  "xdigit_val c = (let n = (of_char c :: nat) in
     if 48 \<le> n \<and> n \<le> 57 then Some (n - 48)
     else if 97 \<le> n \<and> n \<le> 102 then Some (n - 87)
     else if 65 \<le> n \<and> n \<le> 70 then Some (n - 55)
     else None)"

definition isxdigit :: "char \<Rightarrow> bool" where
  "isxdigit c \<longleftrightarrow> xdigit_val c \<noteq> None"

fun xdigits_val :: "nat \<Rightarrow> string \<Rightarrow> nat" where
  "xdigits_val acc [] = acc"
| "xdigits_val acc (c # s) = xdigits_val (16 * acc + the (xdigit_val c)) s"

definition scan_x :: "string \<Rightarrow> u32 option option" where
  "scan_x s = (let s = dropWhile isspace s;
       neg = (s \<noteq> [] \<and> hd s = CHR ''-'');
       s = (if s \<noteq> [] \<and> (hd s = CHR ''-'' \<or> hd s = CHR ''+'') then List.tl s else s);
       s = (if take 2 s = ''0x'' \<or> take 2 s = ''0X'' then drop 2 s else s);
       n = xdigits_val 0 (takeWhile isxdigit s)
     in if takeWhile isxdigit s = [] then Some None
        else if n < 2 ^ 32 then Some (Some (if neg then - of_nat n else of_nat n)) else None)"

section \<open>Declarations\<close>

record arg_t =
  a_name :: string
  a_type :: "string option"
  flagn :: int
  flagb :: int

record method_t =
  m_name :: "string option"
  m_id :: u32
  m_ret :: "string option"
  m_args :: "arg_t list"
  m_nflags :: int

text \<open>\<^verbatim>\<open>memset(&m, 0, sizeof(m))\<close>\<close>

definition method_zero :: method_t where
  "method_zero = \<lparr>m_name = None, m_id = 0, m_ret = None, m_args = [], m_nflags = 0\<rparr>"

text \<open>
  The two attempts to read \<^verbatim>\<open>flags.5\<close> or \<^verbatim>\<open>flags2.5\<close>; a number that is not there
  keeps the value it had.
\<close>

definition scan_flags :: "string \<Rightarrow> (int \<times> int) option" where
  "scan_flags fl = do {
     v \<leftarrow> (if take 6 fl = ''flags.'' then map_option fst (scan_d (drop 6 fl)) else Some None);
     case v of
       Some b \<Rightarrow> Some (1, b)
     | None \<Rightarrow>
         if take 5 fl \<noteq> ''flags'' then Some (1, 0)
         else do {
           (n, r) \<leftarrow> scan_d (drop 5 fl);
           case n of
             None \<Rightarrow> Some (1, 0)
           | Some n \<Rightarrow>
               if r = [] \<or> hd r \<noteq> CHR ''.'' then Some (n, 0)
               else do { (b, _) \<leftarrow> scan_d (List.tl r); Some (n, case b of None \<Rightarrow> 0 | Some b \<Rightarrow> b) }
         }
   }"

text \<open>
  When there is no second part, the type is the text that the first call of \<^verbatim>\<open>strtok\<close> has cut
  at the question mark.
\<close>

definition parse_method_args :: "method_t \<Rightarrow> string \<Rightarrow> (method_t \<times> arg_t) option" where
  "parse_method_args m buf = (let (name, saved) = c_strtok '':'' buf in
     case name of None \<Rightarrow> None
     | Some name \<Rightarrow>
         let m = (if strstr name ''flags'' \<noteq> None \<and> length name < 7 then m\<lparr>m_nflags := m_nflags m + 1\<rparr> else m);
             (ftype, saved) = c_strtok '':'' saved;
             (flag, saved) = c_strtok ''?'' (case ftype of None \<Rightarrow> saved | Some f \<Rightarrow> f);
             (type, saved) = c_strtok ''?'' saved
         in case type of
              Some ty \<Rightarrow> do {
                fl \<leftarrow> flag;
                (n, b) \<leftarrow> scan_flags fl;
                Some (m, \<lparr>a_name = name, a_type = Some ty, flagn = n, flagb = b\<rparr>)
              }
            | None \<Rightarrow>
                Some (m, \<lparr>a_name = name,
                          a_type = map_option (\<lambda>f. takeWhile (\<lambda>c. c = CHR ''?'') f @
                                     (case flag of None \<Rightarrow> [] | Some fl \<Rightarrow> fl)) ftype,
                          flagn = 0, flagb = 0\<rparr>))"

text \<open>The array \<^verbatim>\<open>args\<close> has 64 entries.\<close>

fun arg_loop :: "method_t \<Rightarrow> nat \<Rightarrow> string list \<Rightarrow> method_t option" where
  "arg_loop m idx [] = Some m"
| "arg_loop m idx (arg # r) =
     (if idx = 1 then do {
        v \<leftarrow> scan_x arg;
        arg_loop (case v of None \<Rightarrow> m | Some k \<Rightarrow> m\<lparr>m_id := k\<rparr>) 2 r
      }
      else if arg = ''{X:Type}'' then arg_loop m idx r
      else if 64 \<le> length (m_args m) then None
      else do {
        (m, a) \<leftarrow> parse_method_args m arg;
        arg_loop (m\<lparr>m_args := m_args m @ [a]\<rparr>) idx r
      })"

definition parse_method_id_and_args :: "method_t \<Rightarrow> string \<Rightarrow> nat \<Rightarrow> method_t option" where
  "parse_method_id_and_args m buf idx = arg_loop m idx (tokens '' '' buf)"

text \<open>A name that starts with a slash loses its first two characters.\<close>

definition cut_slashes :: "string \<Rightarrow> string option" where
  "cut_slashes s = (if s \<noteq> [] \<and> hd s = CHR ''/'' then (if length s < 2 then None else Some (drop 2 s)) else Some s)"

fun method_loop :: "method_t \<Rightarrow> nat \<Rightarrow> string list \<Rightarrow> method_t option" where
  "method_loop m idx [] = Some m"
| "method_loop m idx (str # r) =
     (if idx = 0 then do { n \<leftarrow> cut_slashes str; method_loop (m\<lparr>m_name := Some n\<rparr>) 1 r }
      else if strstr str ''{t:Type}'' \<noteq> None then
        (let (arg, saved) = c_strtok '' '' str in do {
           arg \<leftarrow> arg;
           v \<leftarrow> scan_x arg;
           let m = (case v of None \<Rightarrow> m | Some k \<Rightarrow> m\<lparr>m_id := k\<rparr>);
           Some (m\<lparr>m_ret := fst (c_strtok ''{t:}'' saved)\<rparr>)
         })
      else do { m \<leftarrow> parse_method_id_and_args m str idx; method_loop m (Suc idx) r })"

definition parse_method :: "method_t \<Rightarrow> string \<Rightarrow> method_t option" where
  "parse_method m buf = method_loop m 0 (tokens ''#'' buf)"

definition parse_method_return :: "method_t \<Rightarrow> string \<Rightarrow> int \<times> method_t" where
  "parse_method_return m buf =
     (case fst (c_strtok '' ;'' buf) of None \<Rightarrow> (1, m) | Some r \<Rightarrow> (0, m\<lparr>m_ret := Some r\<rparr>))"

text \<open>
  One turn of the loop of \<^verbatim>\<open>parse_schema\<close>: the line is skipped, ends the parse with its number, or
  declares a method.  The result of \<^verbatim>\<open>parse_method_return\<close> is overwritten by that of
  \<^verbatim>\<open>parse_method\<close>, which is always 0.
\<close>

datatype line_result = Skip | Fail | Declares method_t

definition parse_line :: "string \<Rightarrow> line_result option" where
  "parse_line buf =
     (if buf = [] \<or> hd buf = CHR '' '' \<or> hd buf = CHR 0x0A then Some Skip
      else (case c_strtok ''='' buf of (None, _) \<Rightarrow> Some Fail
      | (Some method, saved) \<Rightarrow>
          (case c_strtok ''='' saved of (None, _) \<Rightarrow> Some Skip
          | (Some ret, _) \<Rightarrow> do {
              m \<leftarrow> parse_method (snd (parse_method_return method_zero ret)) method;
              name \<leftarrow> m_name m;
              Some (if CHR ''?'' \<in> set name \<or> m_id m = 0 then Skip else Declares m)
            })))"

text \<open>
  \<open>cb\<close> is the callback with its \<^verbatim>\<open>userdata\<close>; it stops the parse by a value other than 0.  The
  result is the return code.
\<close>

type_synonym 's schema_cb = "method_t + string \<Rightarrow> 's \<Rightarrow> int \<times> 's"

function parse_schema :: "'s schema_cb \<Rightarrow> nat \<Rightarrow> string \<Rightarrow> 's \<Rightarrow> (nat \<times> 's) option" where
  "parse_schema cb i text st =
     (if text = [] then Some (0, st)
      else (let (l, r) = fgets (2 * BUFSIZ) text in do {
        res \<leftarrow> parse_line (takeWhile (\<lambda>c. c \<noteq> CHR 0x00) l);
        case res of
          Skip \<Rightarrow> parse_schema cb (Suc i) r st
        | Fail \<Rightarrow> Some (i, st)
        | Declares m \<Rightarrow> (let (stop, st) = cb (Inl m) st in
            if stop \<noteq> 0 then Some (0, st) else parse_schema cb (Suc i) r st)
      }))"
  by pat_completeness auto
termination
  by (relation "measure (\<lambda>(cb, i, text, st). length text)") (auto simp: fgets_rest)

declare parse_schema.simps [simp del]

definition tl_parse :: "'s schema_cb \<Rightarrow> string option \<Rightarrow> 's \<Rightarrow> (nat \<times> 's) option" where
  "tl_parse cb file st =
     (case file of None \<Rightarrow> Some (1, snd (cb (Inr (''can'' @ [CHR 0x27] @ ''t open file'')) st))
      | Some text \<Rightarrow> parse_schema cb 1 text st)"

section \<open>Tokens\<close>

lemma c_strtok_token:
  "t \<noteq> [] \<Longrightarrow> \<forall>c \<in> set t. c \<notin> set d \<Longrightarrow> x \<in> set d \<Longrightarrow> c_strtok d (t @ x # r) = (Some t, r)"
  by (cases t) (auto simp: c_strtok_def Let_def takeWhile_append)

lemma c_strtok_last: "t \<noteq> [] \<Longrightarrow> \<forall>c \<in> set t. c \<notin> set d \<Longrightarrow> c_strtok d t = (Some t, [])"
  by (cases t) (auto simp: c_strtok_def Let_def takeWhile_eq_all_conv [THEN iffD2])

lemma c_strtok_delim: "x \<in> set d \<Longrightarrow> c_strtok d (x # r) = c_strtok d r"
  by (simp add: c_strtok_def)

lemma c_strtok_Nil [simp]: "c_strtok d [] = (None, [])"
  by (simp add: c_strtok_def)

lemma tokens_Nil [simp]: "tokens d [] = []"
  by (simp add: tokens.simps)

lemma tokens_delim: "x \<in> set d \<Longrightarrow> tokens d (x # r) = tokens d r"
  by (simp add: tokens.simps [of d "x # r"] tokens.simps [of d r] c_strtok_delim)

lemma tokens_token:
  "t \<noteq> [] \<Longrightarrow> \<forall>c \<in> set t. c \<notin> set d \<Longrightarrow> x \<in> set d \<Longrightarrow> tokens d (t @ x # r) = t # tokens d r"
  by (simp add: tokens.simps [of d "t @ x # r"] c_strtok_token)

lemma tokens_last: "t \<noteq> [] \<Longrightarrow> \<forall>c \<in> set t. c \<notin> set d \<Longrightarrow> tokens d t = [t]"
  by (simp add: tokens.simps [of d t] c_strtok_last)

text \<open>A delimiter between two texts separates their tokens.\<close>

lemma tokens_append: "x \<in> set d \<Longrightarrow> tokens d (p @ x # q) = tokens d p @ tokens d q"
proof (induction "length p" arbitrary: p rule: less_induct)
  case less
  let ?k = "takeWhile (\<lambda>c. c \<notin> set d) p" and ?r = "dropWhile (\<lambda>c. c \<notin> set d) p"
  have p: "p = ?k @ ?r" and k: "\<forall>c \<in> set ?k. c \<notin> set d" by (auto dest: set_takeWhileD)
  show ?case
  proof (cases ?r)
    case Nil
    then have "p = ?k" using p by (metis append_Nil2)
    then have "\<forall>c \<in> set p. c \<notin> set d" using k by metis
    with less.prems show ?thesis
      by (cases "p = []") (simp_all add: tokens_token tokens_last tokens_delim)
  next
    case (Cons y r)
    then have y: "y \<in> set d" by (metis hd_dropWhile list.distinct(1) list.sel(1))
    have pe: "p = ?k @ y # r" using p Cons by simp
    have "length r < length p" by (subst pe) simp
    then have IH: "tokens d (r @ x # q) = tokens d r @ tokens d q" using less by blast
    show ?thesis
    proof (cases "?k = []")
      case True
      then have "p = y # r" using pe by simp
      with y IH show ?thesis by (simp add: tokens_delim)
    next
      case False
      have "tokens d (?k @ y # r @ x # q) = ?k # tokens d (r @ x # q)" "tokens d (?k @ y # r) = ?k # tokens d r"
        using tokens_token [OF False k y] by auto
      with IH pe show ?thesis by (metis append.assoc append_Cons)
    qed
  qed
qed

section \<open>Numbers\<close>

lemma hd_dec_digit: "isdigit (hd (dec n))"
  using dec_digits [of "hd (dec n)" n] by simp

lemma scan_d_dec:
  assumes "n < 2 ^ 31" and "r = [] \<or> \<not> isdigit (hd r)"
  shows "scan_d (dec n @ r) = Some (Some (int n), r)"
proof -
  have h: "\<not> isspace (hd (dec n))" "hd (dec n) \<noteq> CHR ''-''" "hd (dec n) \<noteq> CHR ''+''"
    using isdigit_not_special [OF hd_dec_digit] by auto
  obtain c s where cs: "dec n = c # s" by (cases "dec n") (use dec_nonempty in auto)
  have t: "takeWhile isdigit (dec n @ r) = dec n" "dropWhile isdigit (dec n @ r) = r"
    using assms(2) dec_digits [of _ n] by (cases r; simp add: takeWhile_append dropWhile_append)+
  show ?thesis
    using h t digits_val_dec [of n] assms(1) cs by (simp add: scan_d_def Let_def)
qed

lemma xdigit_val_hexdigit: "n < 16 \<Longrightarrow> xdigit_val (hexdigit n) = Some n"
  by (auto simp: xdigit_val_def hexdigit_def Let_def)

lemma xdigits_val_append: "xdigits_val acc (s @ t) = xdigits_val (xdigits_val acc s) t"
  by (induction acc s rule: xdigits_val.induct) auto

lemma xdigits_hex:
  "xdigits_val acc (map (\<lambda>i. hexdigit (n div 16 ^ i mod 16)) (rev [0..<k])) = 16 ^ k * acc + n mod 16 ^ k"
proof (induction k arbitrary: acc)
  case (Suc k)
  have "xdigit_val (hexdigit (n div 16 ^ k mod 16)) = Some (n div 16 ^ k mod 16)"
    by (rule xdigit_val_hexdigit) simp
  with Suc have "xdigits_val acc (map (\<lambda>i. hexdigit (n div 16 ^ i mod 16)) (rev [0..<Suc k])) =
      16 ^ k * (16 * acc + n div 16 ^ k mod 16) + n mod 16 ^ k"
    by simp
  also have "\<dots> = 16 ^ Suc k * acc + (16 ^ k * (n div 16 ^ k mod 16) + n mod 16 ^ k)"
    by (simp add: algebra_simps)
  also have "16 ^ k * (n div 16 ^ k mod 16) + n mod 16 ^ k = n mod 16 ^ Suc k"
    by (simp add: mod_mult2_eq power_Suc2 del: power_Suc)
  finally show ?case .
qed simp

lemma hex8_nat: "hex8 w = map (\<lambda>i. hexdigit (unat w div 16 ^ i mod 16)) (rev [0..<8])"
proof -
  have "unat (drop_bit (4 * i) w) = unat w div 16 ^ i" for i
    using unat_drop_bit_eq [of "4 * i" w] drop_bit_eq_div [of "4 * i" "unat w"] by (simp add: power_mult)
  then show ?thesis by (simp add: hex8_def)
qed

lemma hex8_xdigit: "c \<in> set (hex8 w) \<Longrightarrow> isxdigit c"
  by (auto simp: hex8_nat isxdigit_def xdigit_val_hexdigit)

lemma hex8_val: "xdigits_val 0 (hex8 w) = unat w"
proof -
  have "unat w < 16 ^ 8" using unsigned_less [of w] by simp
  then show ?thesis using xdigits_hex [of 0 "unat w" 8] by (simp add: hex8_nat)
qed

lemma hex8_length [simp]: "length (hex8 w) = 8"
  by (simp add: hex8_def)

lemma scan_x_hex8: "scan_x (hex8 w) = Some (Some w)"
proof -
  have x: "isxdigit c \<Longrightarrow> \<not> isspace c \<and> c \<noteq> CHR ''-'' \<and> c \<noteq> CHR ''+'' \<and> c \<noteq> CHR ''x'' \<and> c \<noteq> CHR ''X''" for c
    by (auto simp: isxdigit_def xdigit_val_def isspace_def)
  obtain a b s where cs: "hex8 w = a # b # s"
    by (metis hex8_length length_Suc_conv numeral_eq_Suc pred_numeral_simps(2) numeral_nat(4))
  have ab: "isxdigit a" "isxdigit b" using hex8_xdigit [of _ w] cs by auto
  have t: "takeWhile isxdigit (hex8 w) = hex8 w" using hex8_xdigit by (simp add: takeWhile_eq_all_conv)
  have "unat w < 2 ^ 32" using unsigned_less [of w] by simp
  then show ?thesis
    using x [OF ab(1)] x [OF ab(2)] t hex8_val [of w] cs by (simp add: scan_x_def Let_def)
qed

section \<open>The notation of declarations\<close>

text \<open>A declaration as the schema writes it.\<close>

definition print_flag :: "int \<Rightarrow> int \<Rightarrow> string" where
  "print_flag n b = ''flags'' @ (if n = 1 then [] else dec (nat n)) @ ''.'' @ dec (nat b)"

definition print_arg :: "arg_t \<Rightarrow> string" where
  "print_arg a = a_name a @ '':'' @
     (case a_type a of None \<Rightarrow> ''#''
      | Some t \<Rightarrow> (if flagn a = 0 then t else print_flag (flagn a) (flagb a) @ ''?'' @ t))"

definition print_decl :: "method_t \<Rightarrow> string" where
  "print_decl m = the (m_name m) @ ''#'' @ hex8 (m_id m) @ concat (map (\<lambda>a. CHR '' '' # print_arg a) (m_args m)) @
     '' = '' @ the (m_ret m) @ '';'' @ [CHR 0x0A]"

text \<open>The characters with a meaning of their own; names and types are made of the others.\<close>

definition special :: "char \<Rightarrow> bool" where
  "special c \<longleftrightarrow> c \<in> set '' #=:?;{/'' \<or> c = CHR 0x0A \<or> c = CHR 0x00"

definition plain :: "string \<Rightarrow> bool" where
  "plain s \<longleftrightarrow> s \<noteq> [] \<and> (\<forall>c \<in> set s. \<not> special c)"

definition arg_ok :: "arg_t \<Rightarrow> bool" where
  "arg_ok a \<longleftrightarrow> plain (a_name a) \<and>
     (case a_type a of None \<Rightarrow> flagn a = 0 \<and> flagb a = 0
      | Some t \<Rightarrow> plain t \<and> 0 \<le> flagn a \<and> flagn a < 2 ^ 31 \<and> 0 \<le> flagb a \<and> flagb a < 2 ^ 31 \<and>
          (flagn a = 0 \<longrightarrow> flagb a = 0))"

definition is_flags :: "arg_t \<Rightarrow> bool" where
  "is_flags a \<longleftrightarrow> strstr (a_name a) ''flags'' \<noteq> None \<and> length (a_name a) < 7"

definition decl_ok :: "method_t \<Rightarrow> bool" where
  "decl_ok m \<longleftrightarrow> (\<exists>n. m_name m = Some n \<and> plain n) \<and> (\<exists>r. m_ret m = Some r \<and> plain r) \<and> m_id m \<noteq> 0 \<and>
     list_all arg_ok (m_args m) \<and> length (m_args m) \<le> 64 \<and>
     m_nflags m = int (length (filter is_flags (m_args m))) \<and> length (print_decl m) < 2 * BUFSIZ"

section \<open>Reading back a declaration\<close>

lemma special_chars [simp]:
  "special (CHR '' '')" "special (CHR ''#'')" "special (CHR ''='')" "special (CHR '':'')" "special (CHR ''?'')"
  "special (CHR '';'')" "special (CHR ''{'')" "special (CHR ''/'')" "special (CHR 0x0A)" "special (CHR 0x00)"
  by (simp_all add: special_def)

lemma plain_no: "\<forall>c \<in> set s. \<not> special c \<Longrightarrow> \<forall>c \<in> set d. special c \<Longrightarrow> \<forall>c \<in> set s. c \<notin> set d"
  by blast

lemma plain_chars: "plain s \<Longrightarrow> special c \<Longrightarrow> c \<notin> set s"
  by (auto simp: plain_def)

lemma plain_nonempty: "plain s \<Longrightarrow> s \<noteq> []"
  by (simp add: plain_def)

lemma hex8_plain: "\<forall>c \<in> set (hex8 w). \<not> special c"
proof
  fix c assume "c \<in> set (hex8 w)"
  then have "isxdigit c" by (rule hex8_xdigit)
  then show "\<not> special c" by (auto simp: isxdigit_def xdigit_val_def special_def)
qed

lemma dec_plain: "\<forall>c \<in> set (dec n). \<not> special c \<and> c \<noteq> CHR ''.''"
proof
  fix c assume "c \<in> set (dec n)"
  then have "isdigit c" by (rule dec_digits)
  then show "\<not> special c \<and> c \<noteq> CHR ''.''" by (auto simp: isdigit_def special_def)
qed

lemma print_flag_plain: "\<forall>c \<in> set (print_flag n b). \<not> special c"
proof -
  have "\<forall>c \<in> set ''flags.''. \<not> special c" by (simp add: special_def)
  with dec_plain [of "nat n"] dec_plain [of "nat b"] show ?thesis by (simp add: print_flag_def ball_Un)
qed

lemma print_flag_nonempty [simp]: "print_flag n b \<noteq> []"
  by (simp add: print_flag_def)

lemma scan_flags_print:
  assumes "1 \<le> n" "n < 2 ^ 31" "0 \<le> b" "b < 2 ^ 31"
  shows "scan_flags (print_flag n b) = Some (n, b)"
proof (cases "n = 1")
  case True
  have "scan_d (dec (nat b)) = Some (Some b, [])"
    using scan_d_dec [of "nat b" "[]"] assms by (simp add: nat_less_iff)
  with True show ?thesis by (simp add: scan_flags_def print_flag_def)
next
  case False
  have n: "scan_d (dec (nat n) @ CHR ''.'' # dec (nat b)) = Some (Some n, CHR ''.'' # dec (nat b))"
    using scan_d_dec [of "nat n" "CHR ''.'' # dec (nat b)"] assms by (simp add: nat_less_iff isdigit_def)
  have b: "scan_d (dec (nat b)) = Some (Some b, [])"
    using scan_d_dec [of "nat b" "[]"] assms by (simp add: nat_less_iff)
  obtain c s where cs: "dec (nat n) = c # s" by (cases "dec (nat n)") (use dec_nonempty in auto)
  then have "c \<noteq> CHR ''.''" using dec_plain [of "nat n"] by simp
  with n b False cs show ?thesis by (simp add: scan_flags_def print_flag_def)
qed

text \<open>An argument without the \<^verbatim>\<open>#\<close> that the split at \<^verbatim>\<open>#\<close> removes.\<close>

definition short_arg :: "arg_t \<Rightarrow> string" where
  "short_arg a = a_name a @ '':'' @
     (case a_type a of None \<Rightarrow> [] | Some t \<Rightarrow> (if flagn a = 0 then t else print_flag (flagn a) (flagb a) @ ''?'' @ t))"

lemma short_arg_special:
  assumes "arg_ok a" and "c \<in> set (short_arg a)" and "special c"
  shows "c = CHR '':'' \<or> c = CHR ''?''"
proof -
  have "\<not> special c" if "c \<in> set (a_name a)" using that assms(1) by (simp add: arg_ok_def plain_def)
  moreover have "\<not> special c" if "a_type a = Some t" "c \<in> set t" for t
    using that assms(1) by (simp add: arg_ok_def plain_def)
  moreover have "\<not> special c" if "c \<in> set (print_flag (flagn a) (flagb a))" using that print_flag_plain by blast
  ultimately show ?thesis
    using assms(2,3) by (cases "a_type a"; cases "flagn a = 0") (auto simp: short_arg_def)
qed

lemma short_arg_chars:
  assumes "arg_ok a"
  shows "CHR '' '' \<notin> set (short_arg a)" "CHR ''#'' \<notin> set (short_arg a)" "CHR ''='' \<notin> set (short_arg a)"
    "CHR ''{'' \<notin> set (short_arg a)" "CHR 0x0A \<notin> set (short_arg a)" "CHR 0x00 \<notin> set (short_arg a)"
  using short_arg_special [OF assms, of "CHR '' ''"] short_arg_special [OF assms, of "CHR ''#''"]
    short_arg_special [OF assms, of "CHR ''=''"] short_arg_special [OF assms, of "CHR ''{''"]
    short_arg_special [OF assms, of "CHR 0x0A"] short_arg_special [OF assms, of "CHR 0x00"] by auto

lemma short_arg_nonempty [simp]: "short_arg a \<noteq> []"
  by (simp add: short_arg_def)

text \<open>The calls of \<^verbatim>\<open>strtok\<close> on an argument, for its three forms.\<close>

lemma strtok_name: "plain n \<Longrightarrow> c_strtok '':'' (n @ CHR '':'' # r) = (Some n, r)"
  by (rule c_strtok_token) (auto simp: plain_def)

lemma strtok_plain: "plain t \<Longrightarrow> special x \<Longrightarrow> c_strtok [x] t = (Some t, [])"
  by (rule c_strtok_last) (auto simp: plain_def)

lemma strtok_flag: "c_strtok ''?'' (print_flag n b @ CHR ''?'' # t) = (Some (print_flag n b), t)"
  using print_flag_plain [of n b] by (intro c_strtok_token) auto

lemma strtok_flag_type:
  "plain t \<Longrightarrow> c_strtok '':'' (print_flag n b @ CHR ''?'' # t) = (Some (print_flag n b @ CHR ''?'' # t), [])"
  using print_flag_plain [of n b] by (intro c_strtok_last) (auto simp: plain_def)

lemma plain_no_question: "plain t \<Longrightarrow> takeWhile (\<lambda>c. c = CHR ''?'') t = []"
  by (cases t) (auto simp: plain_def)

lemma parse_method_args_short:
  assumes "arg_ok a"
  shows "parse_method_args m (short_arg a) =
         Some (m\<lparr>m_nflags := m_nflags m + (if is_flags a then 1 else 0)\<rparr>, a)"
proof -
  have n: "plain (a_name a)" using assms by (simp add: arg_ok_def)
  show ?thesis
  proof (cases "a_type a")
    case None
    then have "flagn a = 0 \<and> flagb a = 0" using assms by (simp add: arg_ok_def)
    with None strtok_name [OF n, of "[]"] show ?thesis
      by (cases a) (simp add: parse_method_args_def short_arg_def is_flags_def)
  next
    case (Some t)
    then have t: "plain t" using assms by (simp add: arg_ok_def)
    show ?thesis
    proof (cases "flagn a = 0")
      case True
      then have "flagb a = 0" using assms Some by (simp add: arg_ok_def)
      with True Some strtok_name [OF n, of t] strtok_plain [OF t, of "CHR '':''"] strtok_plain [OF t, of "CHR ''?''"]
        plain_no_question [OF t]
      show ?thesis by (cases a) (simp add: parse_method_args_def short_arg_def is_flags_def)
    next
      case False
      let ?f = "print_flag (flagn a) (flagb a)"
      have "scan_flags ?f = Some (flagn a, flagb a)"
        using assms Some False by (intro scan_flags_print) (simp_all add: arg_ok_def)
      with False Some strtok_name [OF n, of "?f @ CHR ''?'' # t"] strtok_flag_type [OF t] strtok_flag [of _ _ t]
        strtok_plain [OF t, of "CHR ''?''"]
      show ?thesis by (cases a) (simp add: parse_method_args_def short_arg_def is_flags_def)
    qed
  qed
qed

text \<open>The loop over the arguments, in the form the split at \<^verbatim>\<open>#\<close> leaves them.\<close>

definition after_args :: "method_t \<Rightarrow> arg_t list \<Rightarrow> method_t" where
  "after_args m as = m\<lparr>m_args := m_args m @ as, m_nflags := m_nflags m + int (length (filter is_flags as))\<rparr>"

lemma short_arg_not_type: "arg_ok a \<Longrightarrow> short_arg a \<noteq> ''{X:Type}''"
  using short_arg_special [of a "CHR ''{''"] by auto

lemma arg_loop_short:
  assumes "list_all arg_ok as" and "length (m_args m) + length as \<le> 64" and "idx \<noteq> 1"
  shows "arg_loop m idx (map short_arg as) = Some (after_args m as)"
  using assms
proof (induction as arbitrary: m)
  case (Cons a as)
  let ?m = "m\<lparr>m_nflags := m_nflags m + (if is_flags a then 1 else 0), m_args := m_args m @ [a]\<rparr>"
  have "arg_loop m idx (map short_arg (a # as)) = arg_loop ?m idx (map short_arg as)"
    using Cons.prems parse_method_args_short [of a m] short_arg_not_type [of a] by simp
  also have "\<dots> = Some (after_args ?m as)" using Cons by (intro Cons.IH) simp_all
  also have "after_args ?m as = after_args m (a # as)" by (cases m) (simp add: after_args_def)
  finally show ?case .
qed (simp add: after_args_def)

lemma arg_loop_append:
  "arg_loop m idx (xs @ ys) = do { m \<leftarrow> arg_loop m idx xs; arg_loop m (if idx = 1 \<and> xs \<noteq> [] then 2 else idx) ys }"
  by (induction m idx xs rule: arg_loop.induct) (auto split: option.splits bind_splits)

lemma arg_loop_idx: "idx \<noteq> 1 \<Longrightarrow> k \<noteq> 1 \<Longrightarrow> arg_loop m idx xs = arg_loop m k xs"
  by (induction m idx xs rule: arg_loop.induct) (auto split: option.splits bind_splits)

lemma strstr_missing: "c \<in> set p \<Longrightarrow> c \<notin> set s \<Longrightarrow> strstr s p = None"
  using strstr_Some [of s p] by (metis Un_iff append_take_drop_id not_None_eq set_append)

text \<open>Splitting at \<^verbatim>\<open>#\<close> and then at blanks finds the same arguments, whatever the fields with flags.\<close>

lemma print_short: "print_arg a = short_arg a @ (if a_type a = None then ''#'' else [])"
  by (simp add: print_arg_def short_arg_def split: option.splits)

lemma short_arg_tokens: "arg_ok a \<Longrightarrow> tokens '' '' (short_arg a) = [short_arg a]"
  using short_arg_chars(1) [of a] by (intro tokens_last) auto

lemma split_args:
  assumes "list_all arg_ok as" and "CHR ''#'' \<notin> set p" "CHR ''{'' \<notin> set p" and "idx = 1 \<Longrightarrow> tokens '' '' p \<noteq> []" and "idx \<noteq> 0"
  shows "method_loop m idx (tokens ''#'' (p @ concat (map (\<lambda>a. CHR '' '' # print_arg a) as) @ '' '')) =
         arg_loop m idx (tokens '' '' p @ map short_arg as)"
  using assms
proof (induction as arbitrary: p m idx)
  case Nil
  have "tokens ''#'' (p @ '' '') = [p @ '' '']" using Nil by (intro tokens_last) auto
  moreover have "strstr (p @ '' '') ''{t:Type}'' = None" using Nil by (intro strstr_missing [of "CHR ''{''"]) auto
  moreover have "tokens '' '' (p @ '' '') = tokens '' '' p" using tokens_append [of "CHR '' ''" "'' ''" p "[]"] by simp
  ultimately show ?case using Nil by (simp add: parse_method_id_and_args_def)
next
  case (Cons a as)
  let ?A = "concat (map (\<lambda>a. CHR '' '' # print_arg a) as)" and ?p = "p @ CHR '' '' # short_arg a"
  have sa: "CHR ''#'' \<notin> set (short_arg a)" "CHR ''{'' \<notin> set (short_arg a)"
    using short_arg_chars [of a] Cons.prems(1) by simp_all
  have tk: "tokens '' '' ?p = tokens '' '' p @ [short_arg a]"
    using tokens_append [of "CHR '' ''" "'' ''" p "short_arg a"] short_arg_tokens [of a] Cons.prems(1) by simp
  show ?case
  proof (cases "a_type a = None")
    case False
    then have "p @ concat (map (\<lambda>a. CHR '' '' # print_arg a) (a # as)) @ '' '' = ?p @ ?A @ '' ''"
      by (simp add: print_short)
    then show ?thesis using Cons.IH [of ?p idx m] Cons.prems sa tk by simp
  next
    case True
    have t: "tokens ''#'' (p @ concat (map (\<lambda>a. CHR '' '' # print_arg a) (a # as)) @ '' '') = ?p # tokens ''#'' (?A @ '' '')"
      using tokens_token [of ?p "''#''" "CHR ''#''" "?A @ '' ''"] Cons.prems(2) sa True by (auto simp: print_short)
    have s: "strstr ?p ''{t:Type}'' = None" using Cons.prems sa by (intro strstr_missing [of "CHR ''{''"]) auto
    have ih: "method_loop m' (Suc idx) (tokens ''#'' (?A @ '' '')) = arg_loop m' (Suc idx) (map short_arg as)" for m'
      using Cons.IH [of "[]" "Suc idx" m'] Cons.prems by simp
    have k: "arg_loop m' (Suc idx) xs = arg_loop m' (if idx = 1 then 2 else idx) xs" for m' xs
      using Cons.prems(5) by (intro arg_loop_idx) auto
    have "method_loop m idx (?p # tokens ''#'' (?A @ '' '')) =
        do { m' \<leftarrow> arg_loop m idx (tokens '' '' p @ [short_arg a]); arg_loop m' (if idx = 1 then 2 else idx) (map short_arg as) }"
      using s Cons.prems(5) by (simp add: parse_method_id_and_args_def tk ih k)
    also have "\<dots> = arg_loop m idx ((tokens '' '' p @ [short_arg a]) @ map short_arg as)"
      by (subst arg_loop_append) simp
    finally show ?thesis using t by simp
  qed
qed

lemma parse_method_print:
  assumes "decl_ok m" and "m_name m = Some n"
  shows "parse_method m0 (n @ ''#'' @ hex8 (m_id m) @ concat (map (\<lambda>a. CHR '' '' # print_arg a) (m_args m)) @ '' '') =
         arg_loop (m0\<lparr>m_name := Some n, m_id := m_id m\<rparr>) 2 (map short_arg (m_args m))"
proof -
  have n: "plain n" and a: "list_all arg_ok (m_args m)" using assms by (auto simp: decl_ok_def)
  have h': "CHR ''#'' \<notin> set (hex8 w)" "CHR ''{'' \<notin> set (hex8 w)" "CHR '' '' \<notin> set (hex8 w)" for w
    using hex8_plain [of w] special_chars by blast+
  then have hx: "tokens '' '' (hex8 w) = [hex8 w]" for w
    by (intro tokens_last) (auto simp flip: length_greater_0_conv)
  have c: "cut_slashes n = Some n" using n by (cases n) (auto simp: cut_slashes_def plain_def)
  have t: "tokens ''#'' (n @ CHR ''#'' # r) = n # tokens ''#'' r" for r
    using tokens_token [of n "''#''" "CHR ''#''" r] n plain_chars [OF n, of "CHR ''#''"] by (auto simp: plain_def)
  show ?thesis
    using split_args [OF a h'(1,2), of 1] hx scan_x_hex8 by (simp add: parse_method_def t c)
qed

text \<open>A whole line.\<close>

lemma print_arg_chars:
  assumes "arg_ok a"
  shows "CHR ''='' \<notin> set (print_arg a)" "CHR 0x0A \<notin> set (print_arg a)" "CHR 0x00 \<notin> set (print_arg a)"
  using short_arg_chars [OF assms] by (auto simp: print_short)

lemma method_part_chars:
  assumes "decl_ok m" and "m_name m = Some n" and c: "c = CHR ''='' \<or> c = CHR 0x0A \<or> c = CHR 0x00"
  shows "c \<notin> set (n @ ''#'' @ hex8 (m_id m) @ concat (map (\<lambda>a. CHR '' '' # print_arg a) (m_args m)) @ '' '')"
proof -
  have "plain n" "\<forall>a \<in> set (m_args m). arg_ok a" using assms by (auto simp: decl_ok_def list_all_iff)
  moreover have "special c" using c by auto
  ultimately have "c \<notin> set n" "c \<notin> set (hex8 (m_id m))" "\<forall>a \<in> set (m_args m). c \<notin> set (print_arg a)"
    using plain_chars hex8_plain print_arg_chars c by blast+
  then show ?thesis using c by auto
qed

lemma parse_line_print:
  assumes "decl_ok m"
  shows "parse_line (print_decl m) = Some (Declares m)"
proof -
  obtain n r where n: "m_name m = Some n" "plain n" and r: "m_ret m = Some r" "plain r" and a: "list_all arg_ok (m_args m)"
    and l: "length (m_args m) \<le> 64" and nf: "m_nflags m = int (length (filter is_flags (m_args m)))" and id: "m_id m \<noteq> 0"
    using assms by (auto simp: decl_ok_def)
  let ?M = "n @ ''#'' @ hex8 (m_id m) @ concat (map (\<lambda>a. CHR '' '' # print_arg a) (m_args m)) @ '' ''"
  let ?R = "CHR '' '' # r @ '';'' @ [CHR 0x0A]"
  have p: "print_decl m = ?M @ CHR ''='' # ?R" by (simp add: print_decl_def n r)
  obtain x xs where nx: "n = x # xs" using plain_nonempty [OF n(2)] by (cases n) auto
  then have h: "hd (print_decl m) \<noteq> CHR '' ''" "hd (print_decl m) \<noteq> CHR 0x0A" "print_decl m \<noteq> []"
    using plain_chars [OF n(2), of "CHR '' ''"] plain_chars [OF n(2), of "CHR 0x0A"] by (auto simp: p)
  have m1: "c_strtok ''='' (print_decl m) = (Some ?M, ?R)"
    unfolding p using method_part_chars [OF assms n(1), of "CHR ''=''"] by (intro c_strtok_token) auto
  have eq_r: "CHR ''='' \<notin> set ?R" using plain_chars [OF r(2), of "CHR ''=''"] by auto
  then have m2: "c_strtok ''='' ?R = (Some ?R, [])" by (intro c_strtok_last) auto
  have m3: "fst (c_strtok '' ;'' ?R) = Some r"
  proof -
    have "c_strtok '' ;'' ?R = c_strtok '' ;'' (r @ CHR '';'' # [CHR 0x0A])" by (simp add: c_strtok_delim)
    also have "\<dots> = (Some r, [CHR 0x0A])" using r(2) by (intro c_strtok_token) (auto simp: plain_def)
    finally show ?thesis by simp
  qed
  let ?m0 = "method_zero\<lparr>m_ret := Some r\<rparr>"
  have pm: "parse_method ?m0 ?M = Some (after_args (?m0\<lparr>m_name := Some n, m_id := m_id m\<rparr>) (m_args m))"
    unfolding parse_method_print [OF assms n(1)]
    by (rule arg_loop_short [OF a]) (simp_all add: method_zero_def l)
  have am: "after_args (?m0\<lparr>m_name := Some n, m_id := m_id m\<rparr>) (m_args m) = m"
    using n r nf by (cases m) (simp add: after_args_def method_zero_def)
  have "CHR ''?'' \<notin> set n" using plain_chars [OF n(2)] by simp
  with h pm am m2 m3 n(1) id show ?thesis
    by (simp add: parse_line_def m1 parse_method_return_def)
qed

section \<open>Reading back a schema\<close>

lemma fgets_line:
  "CHR 0x0A \<notin> set l \<Longrightarrow> Suc (length l) < n \<Longrightarrow> fgets n (l @ CHR 0x0A # r) = (l @ [CHR 0x0A], r)"
  by (induction l arbitrary: n) auto

lemma print_decl_line:
  assumes "decl_ok m"
  shows "\<exists>l. print_decl m = l @ [CHR 0x0A] \<and> CHR 0x0A \<notin> set l \<and> CHR 0x00 \<notin> set l"
proof -
  obtain n r where n: "m_name m = Some n" and r: "m_ret m = Some r" "plain r" using assms by (auto simp: decl_ok_def)
  show ?thesis
    using method_part_chars [OF assms n, of "CHR 0x0A"] method_part_chars [OF assms n, of "CHR 0x00"]
      plain_chars [OF r(2), of "CHR 0x0A"] plain_chars [OF r(2), of "CHR 0x00"]
    by (intro exI [of _ "(n @ ''#'' @ hex8 (m_id m) @ concat (map (\<lambda>a. CHR '' '' # print_arg a) (m_args m)) @ '' '') @ ''= '' @ r @ '';''"])
       (auto simp: print_decl_def n r(1))
qed

text \<open>The callback gets the declarations one after the other until it stops the parse.\<close>

fun deliver_all :: "'s schema_cb \<Rightarrow> method_t list \<Rightarrow> 's \<Rightarrow> 's" where
  "deliver_all cb [] st = st"
| "deliver_all cb (m # ms) st = (let (stop, st) = cb (Inl m) st in if stop \<noteq> 0 then st else deliver_all cb ms st)"

text \<open>
  C22: Reading a schema gives back what was declared: for a file of well-formed declarations, one to a
  line, the parser hands the callback exactly these declarations (name, number, result type,
  arguments with their types and flag positions), in order, and returns 0.
\<close>

theorem schema_roundtrip:
  assumes "list_all decl_ok ms"
  shows "tl_parse cb (Some (concat (map print_decl ms))) st = Some (0, deliver_all cb ms st)"
proof -
  have "parse_schema cb i (concat (map print_decl ms)) st = Some (0, deliver_all cb ms st)" for i
    using assms
  proof (induction ms arbitrary: i st)
    case (Cons m ms)
    then have m: "decl_ok m" by simp
    obtain l where l: "print_decl m = l @ [CHR 0x0A]" "CHR 0x0A \<notin> set l" "CHR 0x00 \<notin> set l"
      using print_decl_line [OF m] by blast
    have "length (print_decl m) < 2 * BUFSIZ" using m by (simp add: decl_ok_def)
    then have f: "fgets (2 * BUFSIZ) (print_decl m @ concat (map print_decl ms)) = (print_decl m, concat (map print_decl ms))"
      using fgets_line [OF l(2), of "2 * BUFSIZ"] l(1) by simp
    have z: "takeWhile (\<lambda>c. c \<noteq> CHR 0x00) (print_decl m) = print_decl m"
      using l by (auto simp: takeWhile_eq_all_conv)
    have IH: "parse_schema cb (Suc i) (concat (map print_decl ms)) st' = Some (0, deliver_all cb ms st')" for st'
      using Cons by simp
    have ne: "print_decl m \<noteq> []" using l(1) by simp
    show ?case
      by (subst parse_schema.simps) (simp add: f z ne parse_line_print [OF m] IH split: prod.splits)
  qed (simp add: parse_schema.simps)
  then show ?thesis by (simp add: tl_parse_def)
qed

text \<open>The callback that collects the declarations.\<close>

lemma deliver_collect:
  "deliver_all (\<lambda>x acc. (0, case x of Inl m \<Rightarrow> acc @ [m] | Inr _ \<Rightarrow> acc)) ms acc = acc @ ms"
  by (induction ms arbitrary: acc) simp_all

text \<open>Two declarations of the schema: \<^verbatim>\<open>messages.readHistory\<close> and a medium with optional fields.\<close>

definition sample_decls :: "method_t list" where
  "sample_decls =
     [\<lparr>m_name = Some ''messages.readHistory'', m_id = 0x0e306d3a, m_ret = Some ''messages.AffectedMessages'',
       m_args = [\<lparr>a_name = ''peer'', a_type = Some ''InputPeer'', flagn = 0, flagb = 0\<rparr>,
                 \<lparr>a_name = ''max_id'', a_type = Some ''int'', flagn = 0, flagb = 0\<rparr>], m_nflags = 0\<rparr>,
      \<lparr>m_name = Some ''inputMediaPoll'', m_id = 0x0f94e5f1, m_ret = Some ''InputMedia'',
       m_args = [\<lparr>a_name = ''flags'', a_type = None, flagn = 0, flagb = 0\<rparr>,
                 \<lparr>a_name = ''poll'', a_type = Some ''Poll'', flagn = 0, flagb = 0\<rparr>,
                 \<lparr>a_name = ''correct_answers'', a_type = Some ''Vector<bytes>'', flagn = 1, flagb = 0\<rparr>,
                 \<lparr>a_name = ''solution'', a_type = Some ''string'', flagn = 1, flagb = 1\<rparr>], m_nflags = 1\<rparr>]"

lemma sample_decls_ok: "list_all decl_ok sample_decls"
  by (simp add: sample_decls_def decl_ok_def arg_ok_def plain_def special_def is_flags_def print_decl_def print_arg_def
      print_flag_def BUFSIZ_def dec.simps)

theorem schema_roundtrip_witness:
  "tl_parse (\<lambda>x acc. (0, case x of Inl m \<Rightarrow> acc @ [m] | Inr _ \<Rightarrow> acc))
     (Some (concat (map print_decl sample_decls))) [] = Some (0, sample_decls)"
  using sample_decls_ok by (subst schema_roundtrip) (simp_all add: deliver_collect)

text \<open>The array of a method has room for 64 arguments; the 65th is written behind it.\<close>

lemma schema_too_many_arguments:
  "list_all arg_ok as \<Longrightarrow> 64 < length (m_args m) + length as \<Longrightarrow> length (m_args m) \<le> 64 \<Longrightarrow> idx \<noteq> 1 \<Longrightarrow>
   arg_loop m idx (map short_arg as) = None"
proof (induction as arbitrary: m)
  case (Cons a as)
  show ?case
  proof (cases "length (m_args m) = 64")
    case False
    with Cons show ?thesis using parse_method_args_short [of a m] short_arg_not_type [of a] by simp
  qed (use Cons.prems short_arg_not_type [of a] in simp)
qed simp

end
