(* ===== verification/Generator.thy ===== *)
theory Generator
  imports Schema
begin

text \<open>
  The code generator, \<^verbatim>\<open>libtg/tl_generator/generator.c\<close>: for every declaration of the
  schema it writes a function that builds the query or object, a function that reads the object, one
  that frees it, its struct, and its entries of the tables.  What it writes are lines of C from a small
  set of templates.  A datatype has one constructor for each template, the functions of
  the generator produce lists of them, and \<open>text_of\<close> functions print them as the program does; the
  meaning of the lines is given in \<^verbatim>\<open>Generated\<close>.  The texts are shorter than the arrays of
  64 and 1024 characters they are formatted in.
\<close>

section \<open>Text\<close>

definition nl :: string where
  "nl = [CHR 0x0A]"

text \<open>A line with \<open>n\<close> tabs in front.\<close>

definition line :: "nat \<Rightarrow> string \<Rightarrow> string" where
  "line n s = replicate n (CHR 0x09) @ s @ nl"

text \<open>\<^verbatim>\<open>*strrchr(s, '.') = '_'\<close>, until there is no dot or the bound is reached.\<close>

fun replace_last :: "char \<Rightarrow> char \<Rightarrow> string \<Rightarrow> string" where
  "replace_last c d [] = []"
| "replace_last c d (x # s) = (if c \<in> set s then x # replace_last c d s else (if x = c then d else x) # s)"

fun change_dots_to_underline :: "nat \<Rightarrow> string \<Rightarrow> string" where
  "change_dots_to_underline 0 s = s"
| "change_dots_to_underline (Suc len) s =
     (if CHR ''.'' \<in> set s then change_dots_to_underline len (replace_last (CHR ''.'') (CHR ''_'') s) else s)"

definition BLEN :: nat where
  "BLEN = 1024"

definition method_change_dots_to_underline :: "method_t \<Rightarrow> method_t" where
  "method_change_dots_to_underline m =
     (let u = change_dots_to_underline BLEN in
      m\<lparr>m_name := map_option u (m_name m), m_ret := map_option u (m_ret m),
        m_args := map (\<lambda>a. a\<lparr>a_name := u (a_name a), a_type := map_option u (a_type a)\<rparr>) (m_args m)\<rparr>)"

text \<open>
  \<^verbatim>\<open>strstr(type, "ector<")\<close> and the text up to the next \<^verbatim>\<open>'>'\<close>, which a type of the schema has.
\<close>

definition elem_type :: "string \<Rightarrow> string option" where
  "elem_type ty = map_option (\<lambda>p. takeWhile (\<lambda>c. c \<noteq> CHR ''>'') (drop (length ''ector<'') p)) (strstr ty ''ector<'')"

text \<open>The fields of flags, which have no type after the parse.\<close>

definition is_flag_field :: "arg_t \<Rightarrow> bool" where
  "is_flag_field a \<longleftrightarrow> a_type a = None \<and> strstr (a_name a) ''flags'' \<noteq> None"

section \<open>Prototypes\<close>

text \<open>The declaration of one parameter, in the two places that write it.\<close>

definition ptr_type :: "string \<Rightarrow> bool" where
  "ptr_type ty \<longleftrightarrow> ty \<notin> {''string'', ''true'', ''bool'', ''int'', ''long'', ''int128'', ''int256'', ''double''}"

text \<open>The replacements that both copies make in the same order.\<close>

definition c_type :: "string \<Rightarrow> string" where
  "c_type ty =
     (let ty = (if ty = ''string'' then ''const char *'' else ty);
          ty = (if ty = ''true'' then ''bool'' else ty);
          ty = (if ty = ''long'' then ''uint64_t'' else ty);
          ty = (if ty = ''int'' then ''uint32_t'' else ty);
          ty = (if ty = ''false'' then ''bool'' else ty);
          ty = (if ty = ''!X'' then ''X'' else ty);
          ty = (if ty = ''Object'' then ''X'' else ty);
          ty = (if ty = ''future_salt'' then ''FutureSalt'' else ty)
      in if ty = ''%Message'' then ''buf_t'' else ty)"

definition header_type :: "bool \<Rightarrow> string \<Rightarrow> string" where
  "header_type mt ty =
     (let ty = (if ty = ''bytes'' then ''buf_t'' else ty);
          ty = (if ty = ''string'' \<and> mt then ''buf_t'' else ty)
      in c_type ty)"

definition source_type :: "bool \<Rightarrow> string \<Rightarrow> string" where
  "source_type mt ty =
     (let ty = (if ty = ''string'' \<and> mt then ''buf_t'' else ty);
          ty = (if ty = ''bytes'' then ''buf_t'' else ty)
      in c_type ty)"

definition param_text :: "(string \<Rightarrow> string) \<Rightarrow> arg_t \<Rightarrow> string" where
  "param_text ctype a =
     (let ty = (case a_type a of None \<Rightarrow> ''int'' | Some t \<Rightarrow> t);
          name = a_name a @ ''_'';
          vec = elem_type ty;
          pointer = (if vec = None then [] else ''*'');
          len = (if vec = None then [] else '', int '' @ name @ ''len'');
          ty = (case vec of None \<Rightarrow> ty | Some e \<Rightarrow> e);
          pointer = (if flagn a \<noteq> 0 \<and> ty \<noteq> ''string'' \<and> ty \<noteq> ''true'' then ''*'' else pointer);
          pointer = (if ptr_type ty then ''*'' else pointer)
      in ctype ty @ '' '' @ pointer @ name @ len)"

text \<open>The loop over the arguments; \<open>more_args\<close> is the test \<^verbatim>\<open>i < m->argc - 1\<close>.\<close>

fun params_text :: "(string \<Rightarrow> string) \<Rightarrow> arg_t list \<Rightarrow> string" where
  "params_text ctype [] = []"
| "params_text ctype (a # as) =
     (if is_flag_field a then params_text ctype as
      else param_text ctype a @ (if as \<noteq> [] then '', '' else []) @ params_text ctype as)"

definition append_methods_header :: "bool \<Rightarrow> method_t \<Rightarrow> string" where
  "append_methods_header mt m =
     ''buf_t tl_'' @ the (m_name m) @ ''('' @ params_text (header_type mt) (m_args m) @ '');'' @ nl"

definition method_head :: "bool \<Rightarrow> method_t \<Rightarrow> string" where
  "method_head mt m =
     ''buf_t tl_'' @ the (m_name m) @ ''('' @ params_text (source_type mt) (m_args m) @ '')'' @ nl @ ''{'' @ nl"

section \<open>The functions that build queries\<close>

text \<open>
  The lines of such a function.  The flag after a name says that the parameter is a pointer that the
  line follows; \<open>Or_flag n b\<close> sets bit \<open>b\<close> of the word that \<^verbatim>\<open>flagN\<close> points to.
\<close>

datatype welem = El_bytes | El_string | El_ui32 | El_ui64 | El_double | El_obj

datatype wact =
    Cat_ui32 string bool
  | Cat_ui64 string bool
  | Cat_double string bool
  | Cat_data string nat
  | Cat_str string
  | Cat_bytes string
  | Cat_string string
  | Cat_vector string welem
  | Cat_obj string
  | Or_flag int int

datatype wstmt =
    W_comment string "string option"
  | W_flags nat
  | W_true string int int
  | W_block "string option" "wact list"

definition welem_of :: "string \<Rightarrow> welem" where
  "welem_of ty =
     (if ty = ''bytes'' then El_bytes
      else if ty = ''string'' then El_string
      else if ty = ''int'' \<or> ty = ''bool'' then El_ui32
      else if ty = ''long'' then El_ui64
      else if ty = ''double'' then El_double
      else El_obj)"

text \<open>The block of one argument: \<^verbatim>\<open>if (name)\<close> for an optional one, the bytes, the flag.\<close>

definition guard_of :: "arg_t \<Rightarrow> string option" where
  "guard_of a = (if flagn a \<noteq> 0 then Some (a_name a) else None)"

definition flag_of :: "arg_t \<Rightarrow> wact list" where
  "flag_of a = (if flagn a \<noteq> 0 then [Or_flag (flagn a) (flagb a)] else [])"

definition wact_of :: "bool \<Rightarrow> arg_t \<Rightarrow> string \<Rightarrow> wact" where
  "wact_of mt a ty =
     (if ty = ''int'' \<or> ty = ''bool'' then Cat_ui32 (a_name a) (flagn a \<noteq> 0)
      else if ty = ''int128'' then Cat_data (a_name a) 16
      else if ty = ''int256'' then Cat_data (a_name a) 32
      else if ty = ''long'' then Cat_ui64 (a_name a) (flagn a \<noteq> 0)
      else if ty = ''double'' then Cat_double (a_name a) (flagn a \<noteq> 0)
      else if ty = ''string'' \<and> mt then Cat_str (a_name a)
      else if ty = ''bytes'' then Cat_bytes (a_name a)
      else if ty = ''string'' then Cat_string (a_name a)
      else (case elem_type ty of Some e \<Rightarrow> Cat_vector (a_name a) (welem_of e) | None \<Rightarrow> Cat_obj (a_name a)))"

fun method_body :: "bool \<Rightarrow> nat \<Rightarrow> arg_t list \<Rightarrow> wstmt list" where
  "method_body mt nflag [] = []"
| "method_body mt nflag (a # as) =
     W_comment (a_name a) (a_type a) #
     (if is_flag_field a then W_flags (Suc nflag) # method_body mt (Suc nflag) as
      else (case a_type a of
          None \<Rightarrow> []
        | Some ty \<Rightarrow>
            if ty = ''true'' then (if flagn a \<noteq> 0 then [W_true (a_name a) (flagn a) (flagb a)] else [])
            else [W_block (guard_of a) (wact_of mt a ty # flag_of a)])
        @ method_body mt nflag as)"

section \<open>Printing them\<close>

fun text_of_elem :: "string \<Rightarrow> welem \<Rightarrow> string" where
  "text_of_elem n El_bytes = line 3 (''buf_t _bytes = serialize_bytes('' @ n @ ''_[i].data, '' @ n @ ''_[i].size);'') @
     line 3 ''buf = buf_cat(buf, _bytes);'' @ line 3 ''buf_free(_bytes);''"
| "text_of_elem n El_string = line 3 (''buf_t _string = serialize_string('' @ n @ ''_[i]);'') @
     line 3 ''buf = buf_cat(buf, _string);'' @ line 3 ''buf_free(_string);''"
| "text_of_elem n El_ui32 = line 3 (''buf = buf_cat_ui32(buf, '' @ n @ ''_[i]);'')"
| "text_of_elem n El_ui64 = line 3 (''buf = buf_cat_ui64(buf, '' @ n @ ''_[i]);'')"
| "text_of_elem n El_double = line 3 (''buf = buf_cat_double(buf, '' @ n @ ''_[i]);'')"
| "text_of_elem n El_obj = line 3 (''buf = buf_cat(buf, '' @ n @ ''_[i]);'')"

definition star :: "bool \<Rightarrow> string" where
  "star d = (if d then ''*'' else [])"

fun text_of_act :: "wact \<Rightarrow> string" where
  "text_of_act (Cat_ui32 n d) = line 2 (''buf = buf_cat_ui32(buf, '' @ star d @ n @ ''_);'')"
| "text_of_act (Cat_ui64 n d) = line 2 (''buf = buf_cat_ui64(buf, '' @ star d @ n @ ''_);'')"
| "text_of_act (Cat_double n d) = line 2 (''buf = buf_cat_double(buf, '' @ star d @ n @ ''_);'')"
| "text_of_act (Cat_data n k) = line 3 (''buf = buf_cat_data(buf, '' @ n @ ''_.data, '' @ dec k @ '');'')"
| "text_of_act (Cat_str n) = line 2 (''buf = buf_cat(buf, serialize_str('' @ n @ ''_));'')"
| "text_of_act (Cat_bytes n) = line 2 (''buf_t _bytes = serialize_bytes('' @ n @ ''_->data, '' @ n @ ''_->size);'') @
     line 2 ''buf = buf_cat(buf, _bytes);'' @ line 2 ''buf_free(_bytes);''"
| "text_of_act (Cat_string n) = line 2 (''buf_t _string = serialize_string('' @ n @ ''_);'') @
     line 2 ''buf = buf_cat(buf, _string);'' @ line 2 ''buf_free(_string);''"
| "text_of_act (Cat_vector n e) = line 2 ''buf = buf_cat(buf, tl_vector());'' @
     line 2 (''buf = buf_cat_ui32(buf, '' @ n @ ''_len);'') @ line 2 ''int i;'' @
     line 2 (''for (i=0; i<'' @ n @ ''_len; ++i){'') @ text_of_elem n e @ line 2 ''}''"
| "text_of_act (Cat_obj n) = line 2 (''buf = buf_cat(buf, *'' @ n @ ''_);'')"
| "text_of_act (Or_flag n b) = line 2 (''*flag'' @ sdec n @ '' |= (1 << '' @ sdec b @ '');'')"

fun text_of_stmt :: "wstmt \<Rightarrow> string" where
  "text_of_stmt (W_comment n t) =
     line 1 (''//parse argument '' @ n @ '' ('' @ (case t of None \<Rightarrow> ''(null)'' | Some t \<Rightarrow> t) @ '')'')"
| "text_of_stmt (W_flags k) = line 1 (''uint32_t *flag'' @ dec k @ '' = (uint32_t *)(&buf.data[buf.size]);'') @
     line 1 ''buf = buf_cat_ui32(buf, 0);''"
| "text_of_stmt (W_true n f b) = line 1 (''if ('' @ n @ ''_)'') @ line 2 (''*flag'' @ sdec f @ '' |= (1 << '' @ sdec b @ '');'')"
| "text_of_stmt (W_block g as) = (case g of None \<Rightarrow> [] | Some n \<Rightarrow> line 1 (''if ('' @ n @ ''_)'')) @
     line 1 ''{'' @ concat (map text_of_act as) @ line 1 ''}''"

definition append_methods :: "bool \<Rightarrow> method_t \<Rightarrow> string" where
  "append_methods mt m =
     method_head mt m @ line 1 (''buf_t buf = buf_add_ui32(0x'' @ hex8 (m_id m) @ '');'') @
     concat (map text_of_stmt (method_body mt 0 (m_args m))) @ line 1 ''return buf;'' @ ''}'' @ nl @ nl"

section \<open>The functions that read objects\<close>

datatype relem = Re_ui32 | Re_bool | Re_ui64 | Re_double | Re_bytes | Re_message | Re_obj

datatype ract =
    Rd_ui32
  | Rd_true
  | Rd_bool
  | Rd_ui64
  | Rd_double
  | Rd_bytes
  | Rd_buf nat
  | Rd_vector relem
  | Rd_obj

datatype rstmt =
    R_comment string "string option"
  | R_flags nat
  | R_arg "(int \<times> int) option" string ract

definition relem_of :: "string \<Rightarrow> relem" where
  "relem_of ty =
     (if ty = ''int'' then Re_ui32
      else if ty = ''bool'' then Re_bool
      else if ty = ''long'' then Re_ui64
      else if ty = ''double'' then Re_double
      else if ty = ''string'' then Re_bytes
      else if ty = ''bytes'' then Re_bytes
      else if ty = ''%Message'' then Re_message
      else Re_obj)"

definition ract_of :: "string \<Rightarrow> ract" where
  "ract_of ty =
     (if ty = ''int'' then Rd_ui32
      else if ty = ''true'' then Rd_true
      else if ty = ''bool'' then Rd_bool
      else if ty = ''long'' then Rd_ui64
      else if ty = ''double'' then Rd_double
      else if ty = ''string'' then Rd_bytes
      else if ty = ''bytes'' then Rd_bytes
      else if ty = ''int128'' then Rd_buf 16
      else if ty = ''int256'' then Rd_buf 32
      else (case elem_type ty of Some e \<Rightarrow> Rd_vector (relem_of e) | None \<Rightarrow> Rd_obj))"

fun deserialize_body :: "nat \<Rightarrow> arg_t list \<Rightarrow> rstmt list" where
  "deserialize_body nflag [] = []"
| "deserialize_body nflag (a # as) =
     R_comment (a_name a) (a_type a) #
     (if is_flag_field a then R_flags (Suc nflag) # deserialize_body (Suc nflag) as
      else (case a_type a of
          None \<Rightarrow> []
        | Some ty \<Rightarrow> [R_arg (if flagn a \<noteq> 0 then Some (flagn a, flagb a) else None) (a_name a) (ract_of ty)])
        @ deserialize_body nflag as)"

definition dq :: string where
  "dq = [CHR 0x22]"

definition backslash :: string where
  "backslash = [CHR 0x5C]"

text \<open>\<open>c_array n t e\<close>: the lines that allocate an array of \<open>t\<close> and read its elements.\<close>

definition c_array :: "string \<Rightarrow> string \<Rightarrow> string \<Rightarrow> string" where
  "c_array n t e =
     line 3 (''obj->'' @ n @ ''_ = ('' @ t @ '' *)MALLOC(obj->'' @ n @ ''_len * sizeof('' @ t @ ''), return NULL);'') @
     line 3 ''int i;'' @ line 3 (''for(i=0; i<obj->'' @ n @ ''_len; ++i){'') @
     line 4 (''obj->'' @ n @ ''_[i] = '' @ e @ ''(buf);'') @ line 3 ''}''"

fun text_of_relem :: "string \<Rightarrow> relem \<Rightarrow> string" where
  "text_of_relem n Re_ui32 = c_array n ''uint32_t'' ''deserialize_ui32''"
| "text_of_relem n Re_bool = c_array n ''bool'' ''deserialize_ui32''"
| "text_of_relem n Re_ui64 = c_array n ''uint64_t'' ''deserialize_ui64''"
| "text_of_relem n Re_double = c_array n ''double'' ''deserialize_double''"
| "text_of_relem n Re_bytes = c_array n ''buf_t'' ''deserialize_bytes''"
| "text_of_relem n Re_message = c_array n ''mtp_message_t'' ''deserialize_mtp_message''"
| "text_of_relem n Re_obj =
     line 3 (''obj->'' @ n @ ''_ = (tl_t **)MALLOC(obj->'' @ n @ ''_len * sizeof(tl_t *), return NULL);'') @
     line 3 ''int i;'' @ line 3 (''for(i=0; i<obj->'' @ n @ ''_len; ++i){'') @
     line 4 (''obj->'' @ n @ ''_[i] = tl_deserialize(buf);'') @ line 3 ''}''"

fun text_of_ract :: "string \<Rightarrow> ract \<Rightarrow> string" where
  "text_of_ract n Rd_ui32 = line 2 (''obj->'' @ n @ ''_ = deserialize_ui32(buf);'')"
| "text_of_ract n Rd_true = line 2 (''obj->'' @ n @ ''_ = true;'')"
| "text_of_ract n Rd_bool = line 2 (''obj->'' @ n @ ''_ = deserialize_ui32(buf);'')"
| "text_of_ract n Rd_ui64 = line 2 (''obj->'' @ n @ ''_ = deserialize_ui64(buf);'')"
| "text_of_ract n Rd_double = line 2 (''obj->'' @ n @ ''_ = deserialize_double(buf);'')"
| "text_of_ract n Rd_bytes = line 2 (''obj->'' @ n @ ''_ = deserialize_bytes(buf);'')"
| "text_of_ract n (Rd_buf k) = line 2 (''obj->'' @ n @ ''_ = deserialize_buf(buf, '' @ dec k @ '');'')"
| "text_of_ract n (Rd_vector e) =
     line 2 (''obj->'' @ n @ ''_len = deserialize_ui32(buf);'') @
     line 2 (''if(obj->'' @ n @ ''_len == id_vector)'') @
     line 3 (''obj->'' @ n @ ''_len = deserialize_ui32(buf); // skip vector definition'') @
     line 2 (''if (obj->'' @ n @ ''_len < 0 || obj->'' @ n @ ''_len > 10000) {printf('' @ dq @ ''vector len error'' @ backslash @ ''n'' @ dq @
       ''); return (tl_t*)obj;}; // some error'') @
     line 2 (''if (obj->'' @ n @ ''_len) {'') @ text_of_relem n e @ line 2 ''}''"
| "text_of_ract n Rd_obj = line 2 (''obj->'' @ n @ ''_ = tl_deserialize(buf);'')"

fun text_of_rstmt :: "rstmt \<Rightarrow> string" where
  "text_of_rstmt (R_comment n t) =
     line 1 (''// parse arg '' @ n @ '' ('' @ (case t of None \<Rightarrow> ''(null)'' | Some t \<Rightarrow> t) @ '')'')"
| "text_of_rstmt (R_flags k) = line 1 (''uint32_t flag'' @ dec k @ '' = deserialize_ui32(buf);'')"
| "text_of_rstmt (R_arg g n r) =
     (case g of None \<Rightarrow> []
      | Some (f, b) \<Rightarrow> line 1 (''if ((flag'' @ sdec f @ '' & (1 << '' @ sdec b @ '')) == (1 << '' @ sdec b @ ''))'')) @
     line 1 ''{'' @ text_of_ract n r @ line 1 ''}''"

definition append_deserialize_table :: "method_t \<Rightarrow> string" where
  "append_deserialize_table m = (let name = the (m_name m) in
     ''tl_t * tl_deserialize_'' @ name @ ''(buf_t *buf){'' @ nl @
     line 1 (''tl_'' @ name @ ''_t *obj = NEW(tl_'' @ name @ ''_t, return NULL);'') @
     line 1 ''obj->_buf = buf_add_buf(*buf);'' @ line 1 ''obj->_id = deserialize_ui32(buf);'' @
     (if name = ''vector'' then line 1 ''obj->len_ = deserialize_ui32(buf);'' @ line 1 ''obj->data_ = buf_add_buf(*buf);''
      else []) @
     concat (map text_of_rstmt (deserialize_body 0 (m_args m))) @
     line 1 ''return (tl_t *)obj;'' @ ''}'' @ nl @ nl)"

section \<open>Structs\<close>

text \<open>The type of a member, before the star of an array.\<close>

definition member_type :: "string \<Rightarrow> string" where
  "member_type ty =
     (let ty = (if ty \<notin> {''bytes'', ''string'', ''true'', ''bool'', ''int'', ''long'', ''int128'', ''int256'', ''%Message'', ''double''}
                then ''tl_t *'' else ty);
          ty = (if ty = ''bytes'' \<or> ty = ''int256'' \<or> ty = ''int128'' then ''buf_t'' else ty);
          ty = (if ty = ''string'' then ''string_t'' else ty);
          ty = (if ty = ''true'' then ''bool'' else ty);
          ty = (if ty = ''long'' then ''uint64_t'' else ty);
          ty = (if ty = ''int'' then ''uint32_t'' else ty);
          ty = (if ty = ''false'' then ''bool'' else ty)
      in if ty = ''%Message'' then ''mtp_message_t'' else ty)"

definition struct_arg :: "arg_t \<Rightarrow> string" where
  "struct_arg a =
     (if is_flag_field a then []
      else (let ty = (case a_type a of None \<Rightarrow> ''int'' | Some t \<Rightarrow> t);
                name = a_name a @ ''_''
            in case elem_type ty of
                 None \<Rightarrow> line 1 (member_type ty @ '' '' @ name @ '';'')
               | Some e \<Rightarrow> line 1 (member_type e @ '' *'' @ name @ ''; int '' @ name @ ''len;'')))"

definition append_struct :: "method_t \<Rightarrow> string" where
  "append_struct m = (let name = the (m_name m) in
     ''typedef struct tl_'' @ name @ ''_ {'' @ nl @ line 1 ''uint32_t _id;'' @ line 1 ''buf_t _buf;'' @
     (if name = ''vector'' then line 1 ''uint32_t len_;'' @ line 1 ''buf_t data_;'' else []) @
     concat (map struct_arg (m_args m)) @ ''} tl_'' @ name @ ''_t;'' @ nl @ nl)"

section \<open>The functions that free objects\<close>

datatype fact = Free_obj | Free_buf | Free_body

datatype fstmt =
    F_vector string "fact option"
  | F_one string fact

definition free_elem :: "string \<Rightarrow> fact option" where
  "free_elem ty =
     (if ty \<notin> {''bytes'', ''string'', ''true'', ''bool'', ''int'', ''long'', ''int128'', ''int256'', ''%Message'', ''double''}
      then Some Free_obj
      else if ty = ''bytes'' \<or> ty = ''int256'' \<or> ty = ''int128'' then Some Free_buf
      else if ty = ''string'' then Some Free_buf
      else None)"

fun free_body :: "arg_t list \<Rightarrow> fstmt list" where
  "free_body [] = []"
| "free_body (a # as) =
     (if is_flag_field a then []
      else (let ty = (case a_type a of None \<Rightarrow> ''int'' | Some t \<Rightarrow> t)
            in case elem_type ty of
                 Some e \<Rightarrow> [F_vector (a_name a) (free_elem e)]
               | None \<Rightarrow>
                   (case free_elem ty of None \<Rightarrow> [] | Some f \<Rightarrow> [F_one (a_name a) f]) @
                   (if ty = ''%Message'' then [F_one (a_name a) Free_body] else []))) @ free_body as"

fun text_of_free :: "fstmt \<Rightarrow> string" where
  "text_of_free (F_vector n f) =
     line 1 (''for(i=0; i<tl->'' @ n @ ''_len; ++i){'') @
     (case f of
        Some Free_obj \<Rightarrow> line 2 (''tl_free(tl->'' @ n @ ''_[i]);'')
      | Some Free_buf \<Rightarrow> line 2 (''buf_free(tl->'' @ n @ ''_[i]);'')
      | _ \<Rightarrow> []) @
     line 1 ''}'' @ line 1 (''free(tl->'' @ n @ ''_);'')"
| "text_of_free (F_one n f) =
     (case f of
        Free_obj \<Rightarrow> line 1 (''tl_free(tl->'' @ n @ ''_);'')
      | Free_buf \<Rightarrow> line 1 (''buf_free(tl->'' @ n @ ''_);'')
      | Free_body \<Rightarrow> line 1 (''buf_free(tl->'' @ n @ ''_.body_);''))"

definition append_free :: "method_t \<Rightarrow> string" where
  "append_free m = (let name = the (m_name m) in
     ''void tl_'' @ name @ ''_free(tl_t *tl_) {'' @ nl @
     line 1 (''tl_'' @ name @ ''_t *tl = (tl_'' @ name @ ''_t *)tl_;'') @ line 1 ''int i;'' @
     (if name = ''vector'' then line 1 ''buf_free(tl->data_);'' else []) @
     concat (map text_of_free (free_body (m_args m))) @
     line 1 ''buf_free(tl->_buf);'' @ line 1 ''free(tl);'' @ ''}'' @ nl @ nl)"

section \<open>The tables\<close>

text \<open>The entries that the other files get: \<^verbatim>\<open>id.h\<close>, \<^verbatim>\<open>names.h\<close>, \<^verbatim>\<open>free.h\<close> and \<^verbatim>\<open>deserialize_table.h\<close>.\<close>

definition append_id_header :: "method_t \<Rightarrow> string" where
  "append_id_header m = line 1 (''id_'' @ the (m_name m) @ '' = 0x'' @ hex8 (m_id m) @ '','')"

definition append_names_header :: "method_t \<Rightarrow> string" where
  "append_names_header m = line 1 (''{(char *)'' @ dq @ the (m_name m) @ dq @ '', 0x'' @ hex8 (m_id m) @ ''},'')"

definition append_free_header :: "method_t \<Rightarrow> string" where
  "append_free_header m = line 1 (''TL_FREE(0x'' @ hex8 (m_id m) @ '', tl_'' @ the (m_name m) @ ''_free) '' @ backslash)"

definition append_deserialize_table_header :: "method_t \<Rightarrow> string" where
  "append_deserialize_table_header m =
     line 1 (''TL_DESERIALIZE(0x'' @ hex8 (m_id m) @ '', tl_deserialize_'' @ the (m_name m) @ '') '' @ backslash)"

text \<open>A result type is noted once; a declaration without one makes \<^verbatim>\<open>strcmp\<close> read a null pointer.\<close>

definition append_types_header :: "string list \<Rightarrow> method_t \<Rightarrow> string list option" where
  "append_types_header tys m =
     (case m_ret m of None \<Rightarrow> None | Some r \<Rightarrow> Some (if r \<in> set tys then tys else tys @ [r]))"

text \<open>The list of types ends at the first vector.\<close>

fun close_types :: "string list \<Rightarrow> string" where
  "close_types [] = []"
| "close_types (n # ns) =
     (if strstr n ''Vector<'' \<noteq> None then [] else ''typedef buf_t '' @ n @ '';'' @ nl @ close_types ns)"

text \<open>
  \<^verbatim>\<open>generator_t\<close>: the files as far as they are written, the list of types, the schema that
  is being read.  The functions and table entries are kept as the lists of what they were
  generated from, and the output files are printed from these.
\<close>

record generator_t =
  id_h :: string
  methods_h :: string
  methods_c :: "(bool \<times> method_t) list"
  type_names :: "string list"
  names_h :: string
  struct_h :: string
  deserialize_table_h :: "method_t list"
  deserialize_table_c :: "method_t list"
  free_h :: "method_t list"
  free_c :: "method_t list"
  isMtproto :: bool

text \<open>The callback of the parser: an error is printed, a declaration goes to every file.\<close>

fun append_all :: "(generator_t option) schema_cb" where
  "append_all (Inr error) g = (0, g)"
| "append_all (Inl m) g = (0, do {
     g \<leftarrow> g;
     _ \<leftarrow> m_name m;
     let m = method_change_dots_to_underline m;
     tys \<leftarrow> append_types_header (type_names g) m;
     Some (g\<lparr>id_h := id_h g @ append_id_header m,
             methods_h := methods_h g @ append_methods_header (isMtproto g) m,
             type_names := tys,
             methods_c := methods_c g @ [(isMtproto g, m)],
             deserialize_table_h := deserialize_table_h g @ [m],
             deserialize_table_c := deserialize_table_c g @ [m],
             struct_h := struct_h g @ append_struct m,
             names_h := names_h g @ append_names_header m,
             free_h := free_h g @ [m],
             free_c := free_c g @ [m]\<rparr>)
   })"

text \<open>What the files start with.\<close>

definition generated_by :: string where
  "generated_by = ''/* generated by tl_generator */'' @ nl"

definition open_id_header :: string where
  "open_id_header = generated_by @ line 0 ''#ifndef TL_ID_H_'' @ line 0 ''#define TL_ID_H_'' @ line 0 ''enum {''"

definition open_names_header :: string where
  "open_names_header = generated_by @ line 0 ''#ifndef TL_NAMES_H_'' @ line 0 ''#define TL_NAMES_H_'' @ nl @
     line 0 ''#include <stdio.h>'' @
     line 0 ''struct TL_METHOD_NAME{char *name; unsigned int id;};'' @
     line 0 ''static struct TL_METHOD_NAME TL_METHOD_NAMES[] = {''"

definition open_struct :: string where
  "open_struct = generated_by @ nl @ line 0 ''#ifndef TL_STRUCT_H'' @ line 0 ''#define TL_STRUCT_H'' @ nl @
     line 0 (''#include '' @ dq @ ''tl.h'' @ dq) @ line 0 ''#include <stdbool.h>'' @
     line 0 (''#include '' @ dq @ ''types.h'' @ dq) @ nl"

definition open_methods_header :: string where
  "open_methods_header = generated_by @ nl @ line 0 (''#include '' @ dq @ ''types.h'' @ dq) @
     line 0 (''#include '' @ dq @ ''tl.h'' @ dq) @ line 0 ''#include <stdbool.h>'' @ nl"

definition generator_start :: generator_t where
  "generator_start =
     \<lparr>id_h = open_id_header, methods_h = open_methods_header, methods_c = [], type_names = [], names_h = open_names_header,
      struct_h = open_struct, deserialize_table_h = [], deserialize_table_c = [], free_h = [], free_c = [], isMtproto = True\<rparr>"

text \<open>
  \<^verbatim>\<open>main\<close>: both schemas go through the same callback, first that of the protocol with
  \<^verbatim>\<open>isMtproto\<close> set.  The return codes of the parser are ignored.
\<close>

definition main :: "string option \<Rightarrow> string option \<Rightarrow> generator_t option" where
  "main mtproto_api telegram_api = do {
     (_, g) \<leftarrow> tl_parse append_all mtproto_api (Some generator_start);
     g \<leftarrow> g;
     (_, g) \<leftarrow> tl_parse append_all telegram_api (Some (g\<lparr>isMtproto := False\<rparr>));
     g
   }"

section \<open>The files\<close>

text \<open>
  The two headers with a table have the same shape: the entries as one macro, the
  type of the functions, their prototypes, and an array of structs.
\<close>

definition table_file :: "string \<Rightarrow> string \<Rightarrow> string \<Rightarrow> string \<Rightarrow> string" where
  "table_file big small proto entries =
     generated_by @ nl @ line 0 (''#include '' @ dq @ ''tl.h'' @ dq) @ nl @
     line 0 (''#define TL_'' @ big @ ''S '' @ backslash) @ entries @
     nl @ nl @ proto @
     nl @ nl @ line 0 (''#define TL_'' @ big @ ''(id, name) '' @ backslash) @ line 0 (''tl_'' @ small @ ''_function name;'') @
     line 0 (''TL_'' @ big @ ''S'') @ line 0 (''#undef TL_'' @ big) @
     nl @ nl @ line 0 (''struct tl_'' @ small @ '' {unsigned int id; tl_'' @ small @ ''_function *fun;};'') @
     line 0 (''static struct tl_'' @ small @ '' tl_'' @ small @ ''_table[] = '') @ line 0 ''{'' @
     line 0 (''#define TL_'' @ big @ ''(id, name) '' @ backslash) @ line 0 ''{id, name},'' @ line 0 (''TL_'' @ big @ ''S'') @
     line 0 ''};'' @ line 0 (''#undef TL_'' @ big) @ nl"

definition free_header :: "generator_t \<Rightarrow> string" where
  "free_header g = table_file ''FREE'' ''free'' (line 0 ''typedef void tl_free_function(tl_t*);'')
     (concat (map append_free_header (free_h g)))"

definition deserialize_table_header :: "generator_t \<Rightarrow> string" where
  "deserialize_table_header g = table_file ''DESERIALIZE'' ''deserialize'' (line 0 ''typedef tl_t * tl_deserialize_function(buf_t*);'')
     (concat (map append_deserialize_table_header (deserialize_table_h g)))"

definition incl :: "string \<Rightarrow> string" where
  "incl f = line 0 (''#include '' @ dq @ f @ dq)"

definition free_source :: "generator_t \<Rightarrow> string" where
  "free_source g = generated_by @ nl @ incl ''free.h'' @ incl ''types.h'' @ line 0 ''#include <stdlib.h>'' @
     incl ''struct.h'' @ nl @ concat (map append_free (free_c g))"

definition deserialize_source :: "generator_t \<Rightarrow> string" where
  "deserialize_source g = generated_by @ nl @
     incl ''deserialize_table.h'' @ incl ''tl.h'' @ incl ''deserialize.h'' @ incl ''struct.h'' @
     incl ''alloc.h'' @ incl ''id.h'' @ incl ''../mtx/include/sel.h'' @ nl @
     concat (map append_deserialize_table (deserialize_table_c g))"

definition methods_source :: "generator_t \<Rightarrow> string" where
  "methods_source g = generated_by @ nl @ incl ''methods.h'' @ incl ''serialize.h'' @ incl ''alloc.h'' @ nl @
     concat (map (\<lambda>(mt, m). append_methods mt m) (methods_c g))"

definition types_header :: "generator_t \<Rightarrow> string" where
  "types_header g = generated_by @ nl @ incl ''tl.h'' @ nl @ line 0 ''typedef buf_t int128;'' @
     line 0 ''typedef buf_t int256;'' @ line 0 ''typedef buf_t string_t;'' @ close_types (type_names g)"

definition close_id_header :: string where
  "close_id_header = line 0 ''};'' @ line 0 ''#endif // TL_ID_H_''"

definition close_names_header :: string where
  "close_names_header = line 1 ''{NULL, 0}'' @ line 0 ''};'' @ nl @
     line 0 ''static const char * TL_NAME_FROM_ID(int id){'' @ line 1 ''int i = 0;'' @
     line 1 ''struct TL_METHOD_NAME *names = TL_METHOD_NAMES;'' @ line 1 ''while(names[i].name){'' @
     line 2 ''if (id == names[i].id)'' @ line 3 ''return names[i].name;'' @ line 2 ''i++;'' @ line 1 ''}'' @
     line 1 ''return NULL;'' @ line 0 ''}'' @ nl @ line 0 ''#endif // TL_NAMES_H_''"

definition api_layer :: string where
  "api_layer = line 0 ''#ifndef API_LAYER'' @ line 0 ''#define API_LAYER 185'' @ ''#endif''"

text \<open>What is written, file by file, in the order in which \<^verbatim>\<open>main\<close> closes them.\<close>

definition output_files :: "generator_t \<Rightarrow> (string \<times> string) list" where
  "output_files g =
     [(''../tl/api_layer.h'', api_layer),
      (''../tl/names.h'', names_h g @ close_names_header),
      (''../tl/id.h'', id_h g @ close_id_header),
      (''../tl/methods.h'', methods_h g),
      (''../tl/methods.c'', methods_source g),
      (''../tl/types.h'', types_header g),
      (''../tl/struct.h'', struct_h g @ nl @ line 0 ''#endif // TL_STRUCT_H''),
      (''../tl/deserialize_table.h'', deserialize_table_header g),
      (''../tl/deserialize_table.c'', deserialize_source g),
      (''../tl/free.h'', free_header g),
      (''../tl/free.c'', free_source g)]"

section \<open>Dots\<close>

lemma replace_last_filter:
  "c \<in> set s \<Longrightarrow> d \<noteq> c \<Longrightarrow> Suc (length (filter (\<lambda>x. x = c) (replace_last c d s))) = length (filter (\<lambda>x. x = c) s)"
  by (induction s) (auto simp: filter_empty_conv)

lemma map_replace_last: "map (\<lambda>x. if x = c then d else x) (replace_last c d s) = map (\<lambda>x. if x = c then d else x) s"
  by (induction s) auto

text \<open>Every dot becomes an underline, in a name of less than 1024 characters.\<close>

lemma change_dots_all:
  "length (filter (\<lambda>x. x = CHR ''.'') s) \<le> n \<Longrightarrow>
   change_dots_to_underline n s = map (\<lambda>x. if x = CHR ''.'' then CHR ''_'' else x) s"
proof (induction n arbitrary: s)
  case 0
  then have "CHR ''.'' \<notin> set s" by (auto simp: filter_empty_conv)
  then have "map (\<lambda>x. if x = CHR ''.'' then CHR ''_'' else x) s = s" by (intro map_idI) auto
  then show ?case by simp
next
  case (Suc n)
  show ?case
  proof (cases "CHR ''.'' \<in> set s")
    case True
    with Suc replace_last_filter [OF True, of "CHR ''_''"] show ?thesis by (simp add: map_replace_last)
  next
    case False
    then have "map (\<lambda>x. if x = CHR ''.'' then CHR ''_'' else x) s = s" by (intro map_idI) auto
    with False show ?thesis by simp
  qed
qed

section \<open>Prototype and definition agree\<close>

lemma header_source_type: "header_type mt = source_type mt"
  by (rule ext) (simp add: header_type_def source_type_def Let_def)

text \<open>
  The generator writes the parameter list of a query function twice, by two copies of the
  same loop; for every declaration the prototype in the header is the head of the definition.
\<close>

theorem prototype_matches_definition:
  "\<exists>p. append_methods_header mt m = p @ '';'' @ nl \<and> method_head mt m = p @ nl @ ''{'' @ nl"
  by (simp add: append_methods_header_def method_head_def header_source_type)

section \<open>Nothing of the schema is lost\<close>

definition declared :: "method_t list \<Rightarrow> method_t list" where
  "declared ms = map method_change_dots_to_underline ms"

fun add_types :: "string list \<Rightarrow> method_t list \<Rightarrow> string list" where
  "add_types tys [] = tys"
| "add_types tys (m # ms) = add_types (the (append_types_header tys m)) ms"

definition generate :: "generator_t \<Rightarrow> method_t list \<Rightarrow> generator_t" where
  "generate g ms = g\<lparr>id_h := id_h g @ concat (map append_id_header ms),
     methods_h := methods_h g @ concat (map (append_methods_header (isMtproto g)) ms),
     type_names := add_types (type_names g) ms,
     methods_c := methods_c g @ map (Pair (isMtproto g)) ms,
     deserialize_table_h := deserialize_table_h g @ ms,
     deserialize_table_c := deserialize_table_c g @ ms,
     struct_h := struct_h g @ concat (map append_struct ms),
     names_h := names_h g @ concat (map append_names_header ms),
     free_h := free_h g @ ms,
     free_c := free_c g @ ms\<rparr>"

lemma deliver_generate:
  assumes "list_all decl_ok ms"
  shows "deliver_all append_all ms (Some g) = Some (generate g (declared ms))"
  using assms
proof (induction ms arbitrary: g)
  case Nil
  then show ?case by (simp add: generate_def declared_def)
next
  case (Cons m ms)
  let ?m = "method_change_dots_to_underline m"
  obtain n r where n: "m_name m = Some n" and r: "m_ret m = Some r" using Cons.prems by (auto simp: decl_ok_def)
  then obtain tys where t: "append_types_header (type_names g) ?m = Some tys"
    by (simp add: append_types_header_def method_change_dots_to_underline_def Let_def)
  have "deliver_all append_all (m # ms) (Some g) = deliver_all append_all ms (Some (generate g [?m]))"
    using n t by (simp add: generate_def Let_def)
  also have "\<dots> = Some (generate (generate g [?m]) (declared ms))"
    using Cons by simp
  also have "generate (generate g [?m]) (declared ms) = generate g (declared (m # ms))"
    by (simp add: generate_def declared_def)
  finally show ?case .
qed

text \<open>
  C23: The generator leaves nothing of the schemas out and mixes nothing up: from two files of
  well-formed declarations it ends with a query function, a reader, a struct and a free function for
  every declaration, in the order of the files, those of the first file generated for the protocol's own strings, and
  the table of the readers and the table of the free functions list the same constructors in the same order.
\<close>

theorem generator_complete:
  assumes "list_all decl_ok ms" and "list_all decl_ok ns"
  shows "\<exists>g. main (Some (concat (map print_decl ms))) (Some (concat (map print_decl ns))) = Some g \<and>
    methods_c g = map (Pair True) (declared ms) @ map (Pair False) (declared ns) \<and>
    deserialize_table_c g = declared (ms @ ns) \<and> free_c g = deserialize_table_c g \<and>
    deserialize_table_h g = deserialize_table_c g \<and> free_h g = deserialize_table_h g \<and>
    struct_h g = open_struct @ concat (map append_struct (declared (ms @ ns)))"
proof -
  let ?g = "(generate generator_start (declared ms))\<lparr>isMtproto := False\<rparr>"
  have "tl_parse append_all (Some (concat (map print_decl ms))) (Some generator_start) = Some (0, Some (generate generator_start (declared ms)))"
    by (simp only: schema_roundtrip [OF assms(1)] deliver_generate [OF assms(1)])
  moreover have "tl_parse append_all (Some (concat (map print_decl ns))) (Some ?g) = Some (0, Some (generate ?g (declared ns)))"
    by (simp only: schema_roundtrip [OF assms(2)] deliver_generate [OF assms(2)])
  ultimately have m: "main (Some (concat (map print_decl ms))) (Some (concat (map print_decl ns))) = Some (generate ?g (declared ns))"
    by (simp add: main_def)
  show ?thesis
    by (intro exI [of _ "generate ?g (declared ns)"]) (simp add: m, simp add: generate_def generator_start_def declared_def)
qed

theorem generator_complete_witness:
  "\<exists>g. main (Some (concat (map print_decl sample_decls))) (Some (concat (map print_decl []))) = Some g \<and>
    free_h g = declared sample_decls"
proof -
  have "list_all decl_ok sample_decls" by (rule sample_decls_ok)
  then obtain g where "main (Some (concat (map print_decl sample_decls))) (Some (concat (map print_decl []))) = Some g"
    and "deserialize_table_c g = declared (sample_decls @ [])" "free_h g = deserialize_table_h g" "deserialize_table_h g = deserialize_table_c g"
    using generator_complete [of sample_decls "[]"] by (auto simp del: list.map concat.simps)
  then show ?thesis by (intro exI [of _ g]) (simp del: list.map concat.simps)
qed

text \<open>
  The committed \<^verbatim>\<open>libtg/tl/free.c\<close> is the output of this generator.  Its first function, printed
  from the declaration of \<^verbatim>\<open>resPQ\<close>:
\<close>

definition resPQ :: method_t where
  "resPQ = \<lparr>m_name = Some ''resPQ'', m_id = 0x05162463, m_ret = Some ''ResPQ'',
     m_args = [\<lparr>a_name = ''nonce'', a_type = Some ''int128'', flagn = 0, flagb = 0\<rparr>,
               \<lparr>a_name = ''server_nonce'', a_type = Some ''int128'', flagn = 0, flagb = 0\<rparr>,
               \<lparr>a_name = ''pq'', a_type = Some ''bytes'', flagn = 0, flagb = 0\<rparr>,
               \<lparr>a_name = ''server_public_key_fingerprints'', a_type = Some ''Vector<long>'', flagn = 0, flagb = 0\<rparr>],
     m_nflags = 0\<rparr>"

lemma free_resPQ:
  "append_free resPQ =
     line 0 ''void tl_resPQ_free(tl_t *tl_) {'' @
     line 1 ''tl_resPQ_t *tl = (tl_resPQ_t *)tl_;'' @
     line 1 ''int i;'' @
     line 1 ''buf_free(tl->nonce_);'' @
     line 1 ''buf_free(tl->server_nonce_);'' @
     line 1 ''buf_free(tl->pq_);'' @
     line 1 ''for(i=0; i<tl->server_public_key_fingerprints_len; ++i){'' @
     line 1 ''}'' @
     line 1 ''free(tl->server_public_key_fingerprints_);'' @
     line 1 ''buf_free(tl->_buf);'' @
     line 1 ''free(tl);'' @
     line 0 ''}'' @ nl"
  by (simp add: append_free_def resPQ_def line_def nl_def elem_type_def is_flag_field_def free_elem_def)

end
