(* ===== verification/Generated.thy ===== *)
theory Generated
  imports Generator
begin

text \<open>
  What the generated code does.  The lines of C that \<^verbatim>\<open>Generator\<close> writes are executed on
  the buffers of \<^verbatim>\<open>tl/buf.c\<close> with the primitives of \<^verbatim>\<open>tl/serialize.c\<close> and
  \<^verbatim>\<open>tl/deserialize.c\<close>.  A query function takes its arguments by name and returns the buffer; a reader
  takes the buffer and returns the object and the buffer behind it.  \<^term>\<open>None\<close> is undefined
  behaviour (or, for \<open>deserialize_obj\<close>, that the fuel has run out).
\<close>

section \<open>Query functions\<close>

text \<open>
  The arguments of a query function.  A pointer is what it points to, a null pointer is the
  absence of the argument; an array comes with its length.  A string is the memory from its first
  character on.
\<close>

datatype cval =
    C_ui32 u32
  | C_ui64 u64
  | C_double u64
  | C_bool bool
  | C_buf buf
  | C_str "byte list"
  | C_arr "cval list"

type_synonym params = "string \<Rightarrow> cval option"

text \<open>\<^verbatim>\<open>if (name)\<close>\<close>

definition truth :: "cval option \<Rightarrow> bool" where
  "truth v = (case v of None \<Rightarrow> False | Some (C_bool b) \<Rightarrow> b | Some _ \<Rightarrow> True)"

text \<open>
  The local variables: the buffer, and the pointers \<^verbatim>\<open>flag1\<close>, \<^verbatim>\<open>flag2\<close>, \<dots> into its block.  A
  pointer is valid as long as the block has not been moved by \<^verbatim>\<open>realloc\<close>; \<open>w_gen\<close> counts how often it has.
\<close>

record wst =
  w_buf :: buf
  w_gen :: nat
  w_flags :: "(nat \<times> nat) list"

text \<open>\<^verbatim>\<open>buf = buf_cat...(buf, ...)\<close>: the block was reallocated exactly when its size has changed.\<close>

definition w_set :: "wst \<Rightarrow> buf \<Rightarrow> wst" where
  "w_set st b = st\<lparr>w_buf := b, w_gen := (if basize b = basize (w_buf st) then w_gen st else Suc (w_gen st))\<rparr>"

definition w_cat :: "wst \<Rightarrow> buf \<Rightarrow> wst option" where
  "w_cat st src = map_option (w_set st) (buf_cat (w_buf st) src)"

definition ID_VECTOR :: u32 where
  "ID_VECTOR = 0x1cb5c415"

fun exec_elem :: "welem \<Rightarrow> cval \<Rightarrow> wst \<Rightarrow> wst option" where
  "exec_elem El_bytes (C_buf b) st = do { s \<leftarrow> serialize_bytes (bblk b) (bdata b) (ucast (bsize b)); w_cat st s }"
| "exec_elem El_string (C_str m) st = do { s \<leftarrow> serialize_string m; w_cat st s }"
| "exec_elem El_ui32 (C_ui32 v) st = map_option (w_set st) (buf_cat_ui32 (w_buf st) v)"
| "exec_elem El_ui64 (C_ui64 v) st = map_option (w_set st) (buf_cat_ui64 (w_buf st) v)"
| "exec_elem El_double (C_double v) st = map_option (w_set st) (buf_cat_double (w_buf st) v)"
| "exec_elem El_obj (C_buf b) st = w_cat st b"
| "exec_elem _ _ st = None"

fun exec_elems :: "welem \<Rightarrow> cval list \<Rightarrow> wst \<Rightarrow> wst option" where
  "exec_elems e [] st = Some st"
| "exec_elems e (x # xs) st = do { st \<leftarrow> exec_elem e x st; exec_elems e xs st }"

text \<open>\<^verbatim>\<open>*flagN |= (1 << b)\<close>\<close>

definition or_flag :: "int \<Rightarrow> int \<Rightarrow> wst \<Rightarrow> wst option" where
  "or_flag n b st =
     (if 1 \<le> n \<and> nat n \<le> length (w_flags st) \<and> 0 \<le> b \<and> b < 32 then
        (let (gen, off) = w_flags st ! (nat n - 1); blk = bblk (w_buf st) in
         if gen \<noteq> w_gen st then None
         else do {
           v \<leftarrow> load32 blk off;
           Some (st\<lparr>w_buf := (w_buf st)\<lparr>bblk := take off blk @ le_bytes 4 (v OR push_bit (nat b) 1) @ drop (off + 4) blk\<rparr>\<rparr>)
         })
      else None)"

fun exec_act :: "params \<Rightarrow> wact \<Rightarrow> wst \<Rightarrow> wst option" where
  "exec_act env (Cat_ui32 n d) st =
     (case env n of Some (C_ui32 v) \<Rightarrow> map_option (w_set st) (buf_cat_ui32 (w_buf st) v) | _ \<Rightarrow> None)"
| "exec_act env (Cat_ui64 n d) st =
     (case env n of Some (C_ui64 v) \<Rightarrow> map_option (w_set st) (buf_cat_ui64 (w_buf st) v) | _ \<Rightarrow> None)"
| "exec_act env (Cat_double n d) st =
     (case env n of Some (C_double v) \<Rightarrow> map_option (w_set st) (buf_cat_double (w_buf st) v) | _ \<Rightarrow> None)"
| "exec_act env (Cat_data n k) st =
     (case env n of Some (C_buf b) \<Rightarrow> map_option (w_set st) (buf_cat_data (w_buf st) (bblk b) (bdata b) (of_nat k)) | _ \<Rightarrow> None)"
| "exec_act env (Cat_str n) st =
     (case env n of Some (C_buf b) \<Rightarrow> do { s \<leftarrow> serialize_str b; w_cat st s } | _ \<Rightarrow> None)"
| "exec_act env (Cat_bytes n) st =
     (case env n of Some (C_buf b) \<Rightarrow> do { s \<leftarrow> serialize_bytes (bblk b) (bdata b) (ucast (bsize b)); w_cat st s } | _ \<Rightarrow> None)"
| "exec_act env (Cat_string n) st =
     (case env n of Some (C_str m) \<Rightarrow> do { s \<leftarrow> serialize_string m; w_cat st s } | _ \<Rightarrow> None)"
| "exec_act env (Cat_vector n e) st =
     (case env n of
        Some (C_arr xs) \<Rightarrow> do {
          v \<leftarrow> buf_add_ui32 ID_VECTOR;
          st \<leftarrow> w_cat st v;
          st \<leftarrow> map_option (w_set st) (buf_cat_ui32 (w_buf st) (of_nat (length xs)));
          exec_elems e xs st
        }
      | _ \<Rightarrow> None)"
| "exec_act env (Cat_obj n) st = (case env n of Some (C_buf b) \<Rightarrow> w_cat st b | _ \<Rightarrow> None)"
| "exec_act env (Or_flag n b) st = or_flag n b st"

fun exec_acts :: "params \<Rightarrow> wact list \<Rightarrow> wst \<Rightarrow> wst option" where
  "exec_acts env [] st = Some st"
| "exec_acts env (a # as) st = do { st \<leftarrow> exec_act env a st; exec_acts env as st }"

fun exec_stmt :: "params \<Rightarrow> wstmt \<Rightarrow> wst \<Rightarrow> wst option" where
  "exec_stmt env (W_comment n t) st = Some st"
| "exec_stmt env (W_flags k) st =
     (let st = st\<lparr>w_flags := w_flags st @ [(w_gen st, bdata (w_buf st) + unat (bsize (w_buf st)))]\<rparr>
      in map_option (w_set st) (buf_cat_ui32 (w_buf st) 0))"
| "exec_stmt env (W_true n f b) st = (if truth (env n) then or_flag f b st else Some st)"
| "exec_stmt env (W_block g as) st =
     (if (case g of None \<Rightarrow> True | Some n \<Rightarrow> truth (env n)) then exec_acts env as st else Some st)"

fun exec_stmts :: "params \<Rightarrow> wstmt list \<Rightarrow> wst \<Rightarrow> wst option" where
  "exec_stmts env [] st = Some st"
| "exec_stmts env (s # ss) st = do { st \<leftarrow> exec_stmt env s st; exec_stmts env ss st }"

definition run_method :: "bool \<Rightarrow> method_t \<Rightarrow> params \<Rightarrow> buf option" where
  "run_method mt m env = do {
     b \<leftarrow> buf_add_ui32 (m_id m);
     st \<leftarrow> exec_stmts env (method_body mt 0 (m_args m)) \<lparr>w_buf = b, w_gen = 0, w_flags = []\<rparr>;
     Some (w_buf st)
   }"

section \<open>Readers\<close>

text \<open>An object is its struct: identifier, copy of the bytes, members (the last assignment first).\<close>

datatype fval =
    F_ui32 u32
  | F_ui64 u64
  | F_double u64
  | F_bool bool
  | F_buf buf
  | F_msg mtp_message
  | F_obj "tobj option"
  | F_arr u32 "fval list"
and tobj = TObj (o_id: u32) (o_buf: buf) (o_fields: "(string \<times> fval) list")

text \<open>\<^verbatim>\<open>NEW\<close> clears the struct; the types of the members are those of \<open>append_struct\<close>.\<close>

definition mtp_message_zero :: mtp_message where
  "mtp_message_zero = \<lparr>msg_id = 0, msg_seqno = 0, msg_bytes = 0, msg_body = buf_none\<rparr>"

definition zero_member :: "arg_t \<Rightarrow> fval" where
  "zero_member a = (let ty = (case a_type a of None \<Rightarrow> ''int'' | Some t \<Rightarrow> t) in
     if elem_type ty \<noteq> None then F_arr 0 []
     else if member_type ty = ''buf_t'' \<or> member_type ty = ''string_t'' then F_buf buf_none
     else if member_type ty = ''bool'' then F_bool False
     else if member_type ty = ''uint64_t'' then F_ui64 0
     else if member_type ty = ''uint32_t'' then F_ui32 0
     else if member_type ty = ''double'' then F_double 0
     else if member_type ty = ''mtp_message_t'' then F_msg mtp_message_zero
     else F_obj None)"

definition new_struct :: "method_t \<Rightarrow> (string \<times> fval) list" where
  "new_struct m = map (\<lambda>a. (a_name a, zero_member a)) (filter (\<lambda>a. \<not> is_flag_field a) (m_args m))"

type_synonym tl_reader = "buf \<Rightarrow> (tobj option \<times> buf) option"

text \<open>\<open>D\<close> is \<^verbatim>\<open>tl_deserialize\<close>.\<close>

fun read_elem :: "tl_reader \<Rightarrow> relem \<Rightarrow> buf \<Rightarrow> (fval \<times> buf) option" where
  "read_elem D Re_ui32 b = do { (v, b) \<leftarrow> deserialize_ui32 b; Some (F_ui32 v, b) }"
| "read_elem D Re_bool b = do { (v, b) \<leftarrow> deserialize_ui32 b; Some (F_bool (v \<noteq> 0), b) }"
| "read_elem D Re_ui64 b = do { (v, b) \<leftarrow> deserialize_ui64 b; Some (F_ui64 v, b) }"
| "read_elem D Re_double b = do { (v, b) \<leftarrow> deserialize_double b; Some (F_double v, b) }"
| "read_elem D Re_bytes b = do { (v, b) \<leftarrow> deserialize_bytes b; Some (F_buf v, b) }"
| "read_elem D Re_message b = do { (v, b) \<leftarrow> deserialize_mtp_message LP64 b; Some (F_msg v, b) }"
| "read_elem D Re_obj b = do { (v, b) \<leftarrow> D b; Some (F_obj v, b) }"

fun read_elems :: "tl_reader \<Rightarrow> relem \<Rightarrow> nat \<Rightarrow> buf \<Rightarrow> (fval list \<times> buf) option" where
  "read_elems D e 0 b = Some ([], b)"
| "read_elems D e (Suc n) b = do {
     (v, b) \<leftarrow> read_elem D e b;
     (vs, b) \<leftarrow> read_elems D e n b;
     Some (v # vs, b)
   }"

text \<open>
  One member.  The boolean says that the reader has returned: a length below 0 or above 10000
  ends it with the object as far as it is read.
\<close>

fun read_act :: "tl_reader \<Rightarrow> ract \<Rightarrow> buf \<Rightarrow> (bool \<times> fval \<times> buf) option" where
  "read_act D Rd_ui32 b = do { (v, b) \<leftarrow> deserialize_ui32 b; Some (False, F_ui32 v, b) }"
| "read_act D Rd_true b = Some (False, F_bool True, b)"
| "read_act D Rd_bool b = do { (v, b) \<leftarrow> deserialize_ui32 b; Some (False, F_bool (v \<noteq> 0), b) }"
| "read_act D Rd_ui64 b = do { (v, b) \<leftarrow> deserialize_ui64 b; Some (False, F_ui64 v, b) }"
| "read_act D Rd_double b = do { (v, b) \<leftarrow> deserialize_double b; Some (False, F_double v, b) }"
| "read_act D Rd_bytes b = do { (v, b) \<leftarrow> deserialize_bytes b; Some (False, F_buf v, b) }"
| "read_act D (Rd_buf n) b = do { (v, b) \<leftarrow> deserialize_buf b (of_nat n); Some (False, F_buf v, b) }"
| "read_act D (Rd_vector e) b = do {
     (n, b) \<leftarrow> deserialize_ui32 b;
     (n, b) \<leftarrow> (if n = ID_VECTOR then deserialize_ui32 b else Some (n, b));
     if sint n < 0 \<or> 10000 < sint n then Some (True, F_arr n [], b)
     else do { (vs, b) \<leftarrow> read_elems D e (unat n) b; Some (False, F_arr n vs, b) }
   }"
| "read_act D Rd_obj b = do { (v, b) \<leftarrow> D b; Some (False, F_obj v, b) }"

record rst =
  r_fields :: "(string \<times> fval) list"
  r_flags :: "u32 list"
  r_buf :: buf

text \<open>\<^verbatim>\<open>(flagN & (1 << b)) == (1 << b)\<close>\<close>

definition flag_set :: "u32 list \<Rightarrow> int \<Rightarrow> int \<Rightarrow> bool option" where
  "flag_set fl n b =
     (if 1 \<le> n \<and> nat n \<le> length fl \<and> 0 \<le> b \<and> b < 32
      then Some (fl ! (nat n - 1) AND push_bit (nat b) 1 = push_bit (nat b) 1) else None)"

fun exec_rstmt :: "tl_reader \<Rightarrow> rstmt \<Rightarrow> rst \<Rightarrow> (bool \<times> rst) option" where
  "exec_rstmt D (R_comment n t) st = Some (False, st)"
| "exec_rstmt D (R_flags k) st = do {
     (v, b) \<leftarrow> deserialize_ui32 (r_buf st);
     Some (False, st\<lparr>r_flags := r_flags st @ [v], r_buf := b\<rparr>)
   }"
| "exec_rstmt D (R_arg g n a) st = do {
     go \<leftarrow> (case g of None \<Rightarrow> Some True | Some (f, b) \<Rightarrow> flag_set (r_flags st) f b);
     if \<not> go then Some (False, st)
     else do {
       (ret, v, b) \<leftarrow> read_act D a (r_buf st);
       Some (ret, st\<lparr>r_fields := (n, v) # r_fields st, r_buf := b\<rparr>)
     }
   }"

fun exec_rstmts :: "tl_reader \<Rightarrow> rstmt list \<Rightarrow> rst \<Rightarrow> rst option" where
  "exec_rstmts D [] st = Some st"
| "exec_rstmts D (s # ss) st = do {
     (ret, st) \<leftarrow> exec_rstmt D s st;
     if ret then Some st else exec_rstmts D ss st
   }"

definition run_reader :: "tl_reader \<Rightarrow> method_t \<Rightarrow> tl_reader" where
  "run_reader D m buf = do {
     copy \<leftarrow> buf_add_buf buf;
     (k, b) \<leftarrow> deserialize_ui32 buf;
     (own, b) \<leftarrow> (if m_name m = Some ''vector'' then do {
         (len, b) \<leftarrow> deserialize_ui32 b;
         rst \<leftarrow> buf_add_buf b;
         Some ([(''len'', F_ui32 len), (''data'', F_buf rst)], b)
       } else Some ([], b));
     st \<leftarrow> exec_rstmts D (deserialize_body 0 (m_args m)) \<lparr>r_fields = own @ new_struct m, r_flags = [], r_buf = b\<rparr>;
     Some (Some (TObj k copy (r_fields st)), r_buf st)
   }"

text \<open>
  The schema that was generated from, as the list \<open>methods_c\<close> of the generator.  \<open>deserialize_obj\<close> is
  \<^verbatim>\<open>tl_deserialize\<close> with the generated table; the fuel bounds how deep objects nest.
\<close>

type_synonym tl_schema = "(bool \<times> method_t) list"

fun deserialize_obj :: "nat \<Rightarrow> tl_schema \<Rightarrow> tl_reader" where
  "deserialize_obj 0 S b = None"
| "deserialize_obj (Suc n) S b = tl_deserialize (map (\<lambda>(mt, m). (m_id m, run_reader (deserialize_obj n S) m)) S) b"

end
