(* ===== verification/Tl_Wire.thy ===== *)
theory Tl_Wire
  imports Generated
begin

text \<open>
  The format that the generated code implements, and that it does: TL values, their encoding for a
  schema, the values that fit a declaration, and the proof that a query function writes the encoding
  of its arguments.  The other direction is in \<^verbatim>\<open>Tl_Roundtrip\<close>.
\<close>

section \<open>Values and their encoding\<close>

text \<open>
  An object has a constructor number and one entry for each argument of the declaration; the entry
  is missing for a field of flags and for an optional argument that is not there.
\<close>

datatype tlv =
    VInt u32
  | VLong u64
  | VDouble u64
  | VBytes "byte list"
  | VTrue
  | VRaw "byte list"
  | VVec "tlv list"
  | VObj u32 "tlv option list"

definition lookup :: "tl_schema \<Rightarrow> u32 \<Rightarrow> (bool \<times> method_t) option" where
  "lookup S k = map_of (map (\<lambda>(mt, m). (m_id m, mt, m)) S) k"

text \<open>The word of the \<open>n\<close>-th field of flags: a bit for every optional argument that is there.\<close>

fun flag_word :: "arg_t list \<Rightarrow> bool list \<Rightarrow> nat \<Rightarrow> u32" where
  "flag_word (a # as) (p # ps) n =
     (if p \<and> flagn a \<noteq> 0 \<and> flagn a = int n then push_bit (nat (flagb a)) 1 else 0) OR flag_word as ps n"
| "flag_word _ _ n = 0"

text \<open>The arguments behind the \<open>k\<close>-th field of flags; \<open>fw\<close> gives the words.\<close>

fun enc_args :: "(nat \<Rightarrow> u32) \<Rightarrow> nat \<Rightarrow> arg_t list \<Rightarrow> byte list option list \<Rightarrow> byte list" where
  "enc_args fw k (a # as) (x # xs) =
     (if is_flag_field a then le_bytes 4 (fw (Suc k)) @ enc_args fw (Suc k) as xs
      else (case x of None \<Rightarrow> [] | Some bs \<Rightarrow> bs) @ enc_args fw k as xs)"
| "enc_args fw k _ _ = []"

fun enc :: "tl_schema \<Rightarrow> tlv \<Rightarrow> byte list" where
  "enc S (VInt w) = le_bytes 4 w"
| "enc S (VLong w) = le_bytes 8 w"
| "enc S (VDouble w) = le_bytes 8 w"
| "enc S (VBytes xs) = tl_string xs"
| "enc S VTrue = []"
| "enc S (VRaw xs) = xs"
| "enc S (VVec vs) = le_bytes 4 ID_VECTOR @ le_bytes 4 (of_nat (length vs) :: u32) @ concat (map (enc S) vs)"
| "enc S (VObj k vs) = le_bytes 4 k @
     (case lookup S k of
        None \<Rightarrow> []
      | Some (mt, m) \<Rightarrow>
          enc_args (flag_word (m_args m) (map (\<lambda>v. v \<noteq> None) vs)) 0 (m_args m) (map (map_option (enc S)) vs))"

section \<open>The values of a type\<close>

text \<open>The types that the generator treats by name.\<close>

definition named :: "string set" where
  "named = {''int'', ''long'', ''double'', ''string'', ''bytes'', ''int128'', ''int256'', ''true'', ''bool'', ''%Message''}"

definition obj_type :: "string \<Rightarrow> bool" where
  "obj_type ty \<longleftrightarrow> ty \<notin> named \<and> elem_type ty = None"

definition elem_ok :: "string \<Rightarrow> bool" where
  "elem_ok e \<longleftrightarrow> e \<in> {''int'', ''long'', ''double'', ''string'', ''bytes''} \<or> obj_type e"

text \<open>
  Optional arguments that share a flag are there together.  (\<^verbatim>\<open>string\<close> arguments of the second schema are C
  strings, so they hold no zero byte; byte strings of \<open>2\<^sup>2\<^sup>4\<close> bytes do not fit the length prefix; the readers
  refuse vectors of more than 10000 elements.)
\<close>

definition flags_agree :: "arg_t list \<Rightarrow> bool list \<Rightarrow> bool" where
  "flags_agree as ps \<longleftrightarrow>
     (\<forall>(a, p) \<in> set (zip as ps). \<forall>(b, q) \<in> set (zip as ps).
        flagn a \<noteq> 0 \<and> flagn a = flagn b \<and> flagb a = flagb b \<longrightarrow> p = q)"

fun typed :: "tl_schema \<Rightarrow> bool \<Rightarrow> string \<Rightarrow> tlv \<Rightarrow> bool" where
  "typed S mt ty (VInt w) = (ty = ''int'')"
| "typed S mt ty (VLong w) = (ty = ''long'')"
| "typed S mt ty (VDouble w) = (ty = ''double'')"
| "typed S mt ty (VBytes xs) = (length xs < 2 ^ 24 \<and> (ty = ''bytes'' \<or> ty = ''string'' \<and> (mt \<or> 0 \<notin> set xs)))"
| "typed S mt ty VTrue = (ty = ''true'')"
| "typed S mt ty (VRaw xs) = (ty = ''int128'' \<and> length xs = 16 \<or> ty = ''int256'' \<and> length xs = 32)"
| "typed S mt ty (VVec vs) =
     (case elem_type ty of None \<Rightarrow> False
      | Some e \<Rightarrow> elem_ok e \<and> ty \<notin> named \<and> length vs \<le> 10000 \<and> (\<forall>v \<in> set vs. typed S False e v))"
| "typed S mt ty (VObj k vs) =
     (obj_type ty \<and>
      (case lookup S k of None \<Rightarrow> False
       | Some (mt', m) \<Rightarrow>
           length vs = length (m_args m) \<and> flags_agree (m_args m) (map (\<lambda>v. v \<noteq> None) vs) \<and>
           list_all2 (\<lambda>x a. (case x of
               None \<Rightarrow> a_type a = None \<or> flagn a \<noteq> 0
             | Some v \<Rightarrow> (case a_type a of None \<Rightarrow> False | Some t \<Rightarrow> typed S mt' t v))) vs (m_args m)))"

text \<open>
  The declarations the round trip is about: the fields of flags come before the arguments that use
  them, and no name is used twice.
\<close>

fun refs_ok :: "nat \<Rightarrow> arg_t list \<Rightarrow> bool" where
  "refs_ok k [] = True"
| "refs_ok k (a # as) =
     (if is_flag_field a then flagn a = 0 \<and> refs_ok (Suc k) as
      else a_type a \<noteq> None \<and> 0 \<le> flagn a \<and> nat (flagn a) \<le> k \<and> 0 \<le> flagb a \<and> flagb a < 32 \<and> refs_ok k as)"

definition m_ok :: "method_t \<Rightarrow> bool" where
  "m_ok m \<longleftrightarrow> m_id m \<noteq> 0 \<and> m_name m \<noteq> Some ''vector'' \<and> distinct (map a_name (m_args m)) \<and> refs_ok 0 (m_args m)"

definition schema_ok :: "tl_schema \<Rightarrow> bool" where
  "schema_ok S \<longleftrightarrow> distinct (map (\<lambda>(mt, m). m_id m) S) \<and> (\<forall>(mt, m) \<in> set S. m_ok m)"

section \<open>The arguments of a query function\<close>

text \<open>A nested object is passed as the buffer that its own query function has returned.\<close>

fun arg_val :: "tl_schema \<Rightarrow> bool \<Rightarrow> string \<Rightarrow> tlv \<Rightarrow> cval" where
  "arg_val S mt ty (VInt w) = C_ui32 w"
| "arg_val S mt ty (VLong w) = C_ui64 w"
| "arg_val S mt ty (VDouble w) = C_double w"
| "arg_val S mt ty (VBytes xs) = (if ty = ''bytes'' \<or> mt then C_buf (mkbuf xs) else C_str (xs @ [0]))"
| "arg_val S mt ty VTrue = C_bool True"
| "arg_val S mt ty (VRaw xs) = C_buf (mkbuf xs)"
| "arg_val S mt ty (VVec vs) = C_arr (map (arg_val S False (the (elem_type ty))) vs)"
| "arg_val S mt ty (VObj k vs) = C_buf (mkbuf (enc S (VObj k vs)))"

definition env_of :: "tl_schema \<Rightarrow> bool \<Rightarrow> method_t \<Rightarrow> tlv option list \<Rightarrow> params" where
  "env_of S mt m vs n =
     (case map_of (zip (map a_name (m_args m)) (zip (m_args m) vs)) n of
        Some (a, Some v) \<Rightarrow> Some (arg_val S mt (the (a_type a)) v)
      | Some (a, None) \<Rightarrow> (if a_type a = Some ''true'' then Some (C_bool False) else None)
      | None \<Rightarrow> None)"

text \<open>The flags that are set are set within the first \<^verbatim>\<open>BUFSIZ\<close> bytes.\<close>

fun early :: "nat \<Rightarrow> arg_t list \<Rightarrow> byte list option list \<Rightarrow> bool" where
  "early n (a # as) (x # xs) =
     (if is_flag_field a then early (n + 4) as xs
      else (case x of None \<Rightarrow> early n as xs
            | Some bs \<Rightarrow> (flagn a \<noteq> 0 \<longrightarrow> n + length bs \<le> BUFSIZ) \<and> early (n + length bs) as xs))"
| "early n _ _ = True"

section \<open>Appending to the buffer\<close>

text \<open>
  \<open>adds c xs st st'\<close>: the buffer held \<open>c\<close> and now holds \<open>c @ xs\<close>; as long as the first
  block is large enough it has not been moved.
\<close>

definition adds :: "byte list \<Rightarrow> byte list \<Rightarrow> wst \<Rightarrow> wst \<Rightarrow> bool" where
  "adds c xs st st' \<longleftrightarrow> w_buf st' = mkbuf (c @ xs) \<and> w_flags st' = w_flags st \<and>
     (length (c @ xs) \<le> BUFSIZ \<longrightarrow> w_gen st' = w_gen st)"

lemma adds_refl: "w_buf st = mkbuf c \<Longrightarrow> adds c [] st st"
  by (simp add: adds_def)

lemma adds_trans: "adds c xs st st' \<Longrightarrow> adds (c @ xs) ys st' st'' \<Longrightarrow> adds c (xs @ ys) st st''"
  by (simp add: adds_def)

lemma adds_w_set:
  assumes "w_buf st = mkbuf c"
  shows "adds c xs st (w_set st (mkbuf (c @ xs)))"
proof -
  have s: "basize (mkbuf ys) = of_nat (max BUFSIZ (length ys))" for ys by (simp add: mkbuf_def Let_def)
  have "max BUFSIZ (length (c @ xs)) = max BUFSIZ (length c)" if "length (c @ xs) \<le> BUFSIZ" using that by simp
  then have "length (c @ xs) \<le> BUFSIZ \<longrightarrow> basize (mkbuf (c @ xs)) = basize (mkbuf c)" by (simp add: s del: length_append)
  then show ?thesis using assms by (simp add: adds_def w_set_def)
qed

lemma w_cat_mkbuf:
  assumes "w_buf st = mkbuf c" and "fits (length c + length xs)"
  shows "\<exists>st'. w_cat st (mkbuf xs) = Some st' \<and> adds c xs st st'"
  using assms adds_w_set [OF assms(1), of xs] by (simp add: w_cat_def)

lemma w_cat_ui32:
  assumes "w_buf st = mkbuf c" and "fits (length c + 4)"
  shows "\<exists>st'. map_option (w_set st) (buf_cat_ui32 (w_buf st) v) = Some st' \<and> adds c (le_bytes 4 v) st st'"
  using assms adds_w_set [OF assms(1), of "le_bytes 4 v"] by simp

lemma w_cat_ui64:
  assumes "w_buf st = mkbuf c" and "fits (length c + 8)"
  shows "\<exists>st'. map_option (w_set st) (buf_cat_ui64 (w_buf st) v) = Some st' \<and> adds c (le_bytes 8 v) st st'"
  using assms adds_w_set [OF assms(1), of "le_bytes 8 v"] by simp

lemma w_cat_double:
  assumes "w_buf st = mkbuf c" and "fits (length c + 8)"
  shows "\<exists>st'. map_option (w_set st) (buf_cat_double (w_buf st) v) = Some st' \<and> adds c (le_bytes 8 v) st st'"
  using assms adds_w_set [OF assms(1), of "le_bytes 8 v"] by simp

text \<open>The byte strings.\<close>

lemma serialize_bytes_mkbuf:
  assumes "length xs < 2 ^ 24"
  shows "serialize_bytes (bblk (mkbuf xs)) 0 (ucast (of_nat (length xs) :: u32)) = Some (mkbuf (tl_string xs))"
proof -
  have f: "fits (length xs + 7)" using assms by (simp add: fits_def)
  have u: "ucast (of_nat (length xs) :: u32) = (of_nat (length xs) :: u64)"
    using assms by (simp add: unsigned_of_nat take_bit_nat_eq_self)
  have "xs = take (length xs) (drop 0 (bblk (mkbuf xs)))" "length xs \<le> length (drop 0 (bblk (mkbuf xs)))"
    by (simp_all add: mkbuf_def Let_def)
  from serialize_bytes_eq [OF this f] u show ?thesis by simp
qed

lemma serialize_string_cstr:
  assumes "length xs < 2 ^ 24" and "0 \<notin> set xs"
  shows "serialize_string (xs @ [0]) = Some (mkbuf (tl_string xs))"
proof -
  have l: "strlen (xs @ [0]) = length xs" using assms(2) by (induction xs) (auto simp: strlen_def)
  have "fits (length xs + 7)" using assms(1) by (simp add: fits_def)
  then show ?thesis using serialize_bytes_eq [of xs "length xs" 0 "xs @ [0]"] by (simp add: serialize_string_def l)
qed

lemma serialize_str_mkbuf: "length xs < 2 ^ 24 \<Longrightarrow> serialize_str (mkbuf xs) = Some (mkbuf (tl_string xs))"
  using serialize_str_eq [of "mkbuf xs"] by (simp add: fits_def)

section \<open>Types\<close>

lemma elem_type_named [simp]:
  "elem_type ''int'' = None" "elem_type ''long'' = None" "elem_type ''double'' = None" "elem_type ''string'' = None"
  "elem_type ''bytes'' = None" "elem_type ''int128'' = None" "elem_type ''int256'' = None" "elem_type ''true'' = None"
  "elem_type ''bool'' = None"
  by (simp_all add: elem_type_def)

lemma obj_typeD:
  "obj_type ty \<Longrightarrow> ty \<noteq> ''int'' \<and> ty \<noteq> ''long'' \<and> ty \<noteq> ''double'' \<and> ty \<noteq> ''string'' \<and> ty \<noteq> ''bytes'' \<and>
     ty \<noteq> ''int128'' \<and> ty \<noteq> ''int256'' \<and> ty \<noteq> ''true'' \<and> ty \<noteq> ''bool'' \<and> ty \<noteq> ''%Message'' \<and> elem_type ty = None"
  by (simp add: obj_type_def named_def)

lemma not_named:
  "ty \<notin> named \<Longrightarrow> ty \<noteq> ''int'' \<and> ty \<noteq> ''long'' \<and> ty \<noteq> ''double'' \<and> ty \<noteq> ''string'' \<and> ty \<noteq> ''bytes'' \<and>
     ty \<noteq> ''int128'' \<and> ty \<noteq> ''int256'' \<and> ty \<noteq> ''true'' \<and> ty \<noteq> ''bool'' \<and> ty \<noteq> ''%Message''"
  by (simp add: named_def)

text \<open>The template that the generator picks for an argument with a given value.\<close>

lemma wact_of_typed:
  assumes "typed S mt ty v" and "v \<noteq> VTrue"
  shows "wact_of mt a ty = (case v of
      VInt w \<Rightarrow> Cat_ui32 (a_name a) (flagn a \<noteq> 0)
    | VLong w \<Rightarrow> Cat_ui64 (a_name a) (flagn a \<noteq> 0)
    | VDouble w \<Rightarrow> Cat_double (a_name a) (flagn a \<noteq> 0)
    | VBytes xs \<Rightarrow> (if ty = ''bytes'' then Cat_bytes (a_name a) else if mt then Cat_str (a_name a) else Cat_string (a_name a))
    | VTrue \<Rightarrow> undefined
    | VRaw xs \<Rightarrow> Cat_data (a_name a) (length xs)
    | VVec vs \<Rightarrow> Cat_vector (a_name a) (welem_of (the (elem_type ty)))
    | VObj k vs \<Rightarrow> Cat_obj (a_name a))"
proof (cases v)
  case (VBytes xs)
  with assms have "ty = ''bytes'' \<or> ty = ''string''" by auto
  with VBytes show ?thesis by (elim disjE) (simp_all add: wact_of_def)
next
  case (VRaw xs)
  with assms have "ty = ''int128'' \<and> length xs = 16 \<or> ty = ''int256'' \<and> length xs = 32" by simp
  with VRaw show ?thesis by (elim disjE) (simp_all add: wact_of_def)
next
  case (VVec vs)
  with assms obtain e where "elem_type ty = Some e" "ty \<notin> named" by (auto split: option.splits)
  with VVec not_named [of ty] show ?thesis by (simp add: wact_of_def)
next
  case (VObj k vs)
  with assms obj_typeD [of ty] show ?thesis by (simp add: wact_of_def)
qed (use assms in \<open>simp_all add: wact_of_def\<close>)

section \<open>One value\<close>

lemma elem_okD [simp]:
  "\<not> elem_ok ''true''" "\<not> elem_ok ''int128''" "\<not> elem_ok ''int256''" "elem_ok e \<Longrightarrow> elem_type e = None"
  by (auto simp: elem_ok_def obj_type_def named_def)

lemma welem_of_typed:
  assumes "typed S False e v" and "elem_ok e"
  shows "welem_of e = (case v of
      VInt w \<Rightarrow> El_ui32 | VLong w \<Rightarrow> El_ui64 | VDouble w \<Rightarrow> El_double
    | VBytes xs \<Rightarrow> (if e = ''bytes'' then El_bytes else El_string)
    | VObj k vs \<Rightarrow> El_obj | _ \<Rightarrow> undefined)"
proof (cases v)
  case (VBytes xs)
  with assms have "e = ''bytes'' \<or> e = ''string''" by auto
  with VBytes show ?thesis by (elim disjE) (simp_all add: welem_of_def)
next
  case (VObj k vs)
  with assms obj_typeD [of e] show ?thesis by (simp add: welem_of_def)
next
  case (VRaw xs)
  with assms have "e = ''int128'' \<or> e = ''int256''" by auto
  with assms(2) show ?thesis by (elim disjE) simp_all
qed (use assms in \<open>simp_all add: welem_of_def\<close>)

lemma exec_elem_typed:
  assumes t: "typed S False e v" and o: "elem_ok e" and b: "w_buf st = mkbuf c" and f: "fits (length c + length (enc S v))"
  shows "\<exists>st'. exec_elem (welem_of e) (arg_val S False e v) st = Some st' \<and> adds c (enc S v) st st'"
proof (cases v)
  case (VInt w)
  with f w_cat_ui32 [OF b] show ?thesis by (simp add: welem_of_typed [OF t o])
next
  case (VLong w)
  with f w_cat_ui64 [OF b] show ?thesis by (simp add: welem_of_typed [OF t o])
next
  case (VDouble w)
  with f w_cat_double [OF b] show ?thesis by (simp add: welem_of_typed [OF t o])
next
  case (VBytes xs)
  then have l: "length xs < 2 ^ 24" "e = ''bytes'' \<or> 0 \<notin> set xs" using t by auto
  have w: "welem_of e = (if e = ''bytes'' then El_bytes else El_string)"
    using welem_of_typed [OF t o] VBytes by simp
  show ?thesis
    using VBytes l f w w_cat_mkbuf [OF b, of "tl_string xs"]
    by (cases "e = ''bytes''") (simp_all add: serialize_bytes_mkbuf serialize_string_cstr)
next
  case (VRaw xs)
  with t o have False by auto
  then show ?thesis ..
next
  case (VObj k vs)
  with f w_cat_mkbuf [OF b, of "enc S (VObj k vs)"] show ?thesis by (simp add: welem_of_typed [OF t o] del: enc.simps)
qed (use t o in auto)

lemma exec_elems_typed:
  assumes "\<forall>v \<in> set vs. typed S False e v" and "elem_ok e" and "w_buf st = mkbuf c"
    and "fits (length c + length (concat (map (enc S) vs)))"
  shows "\<exists>st'. exec_elems (welem_of e) (map (arg_val S False e) vs) st = Some st' \<and> adds c (concat (map (enc S) vs)) st st'"
  using assms
proof (induction vs arbitrary: c st)
  case Nil
  then show ?case by (simp add: adds_refl)
next
  case (Cons v vs)
  have "fits (length c + length (enc S v))" using Cons.prems(4) by (rule fits_mono) simp
  then obtain st1 where s1: "exec_elem (welem_of e) (arg_val S False e v) st = Some st1" "adds c (enc S v) st st1"
    using exec_elem_typed [of S e v st c] Cons.prems by auto
  then have "w_buf st1 = mkbuf (c @ enc S v)" by (simp add: adds_def)
  moreover have "fits (length (c @ enc S v) + length (concat (map (enc S) vs)))" using Cons.prems(4) by (simp add: add.assoc)
  ultimately obtain st2 where "exec_elems (welem_of e) (map (arg_val S False e) vs) st1 = Some st2"
    "adds (c @ enc S v) (concat (map (enc S) vs)) st1 st2"
    using Cons.IH [of st1 "c @ enc S v"] Cons.prems by auto
  with s1 show ?case by (auto intro: adds_trans)
qed

lemma exec_act_typed:
  assumes t: "typed S mt ty v" and nt: "v \<noteq> VTrue" and e: "env (a_name a) = Some (arg_val S mt ty v)"
    and b: "w_buf st = mkbuf c" and f: "fits (length c + length (enc S v))"
  shows "\<exists>st'. exec_act env (wact_of mt a ty) st = Some st' \<and> adds c (enc S v) st st'"
proof (cases v)
  case (VInt w)
  with e f w_cat_ui32 [OF b] show ?thesis by (simp add: wact_of_typed [OF t nt])
next
  case (VLong w)
  with e f w_cat_ui64 [OF b] show ?thesis by (simp add: wact_of_typed [OF t nt])
next
  case (VDouble w)
  with e f w_cat_double [OF b] show ?thesis by (simp add: wact_of_typed [OF t nt])
next
  case (VBytes xs)
  then have l: "length xs < 2 ^ 24" "ty = ''bytes'' \<or> mt \<or> 0 \<notin> set xs" using t by auto
  have w: "wact_of mt a ty = (if ty = ''bytes'' then Cat_bytes (a_name a) else if mt then Cat_str (a_name a) else Cat_string (a_name a))"
    using wact_of_typed [OF t nt] VBytes by simp
  show ?thesis
    using VBytes l e f w w_cat_mkbuf [OF b, of "tl_string xs"]
    by (cases "ty = ''bytes''"; cases mt) (simp_all add: serialize_bytes_mkbuf serialize_string_cstr serialize_str_mkbuf)
next
  case VTrue
  with nt show ?thesis by simp
next
  case (VRaw xs)
  have l: "unat (of_nat (length xs) :: u32) = length xs"
    using f VRaw fits_mono [of "length c + length xs" "length xs"] by simp
  have "take (length xs) (drop 0 (bblk (mkbuf xs))) = xs" "length xs \<le> length (bblk (mkbuf xs))"
    by (simp_all add: mkbuf_def Let_def)
  then have "buf_cat_data (w_buf st) (bblk (mkbuf xs)) (bdata (mkbuf xs)) (of_nat (length xs)) = Some (mkbuf (c @ xs))"
    using b f VRaw l by simp
  with VRaw e adds_w_set [OF b, of xs] show ?thesis by (simp add: wact_of_typed [OF t nt])
next
  case (VVec vs)
  then obtain el where el: "elem_type ty = Some el" "elem_ok el" "\<forall>v \<in> set vs. typed S False el v"
    using t by (auto split: option.splits)
  let ?n = "of_nat (length vs) :: u32" and ?xs = "concat (map (enc S) vs)"
  have f1: "fits (length c + 4)" "fits (length (c @ le_bytes 4 ID_VECTOR) + 4)"
    "fits (length (c @ le_bytes 4 ID_VECTOR @ le_bytes 4 ?n) + length ?xs)"
    using f VVec by (auto intro: fits_mono simp: add.assoc)
  obtain st1 where s1: "w_cat st (mkbuf (le_bytes 4 ID_VECTOR)) = Some st1" "adds c (le_bytes 4 ID_VECTOR) st st1"
    using w_cat_mkbuf [OF b, of "le_bytes 4 ID_VECTOR"] f1(1) by auto
  then have b1: "w_buf st1 = mkbuf (c @ le_bytes 4 ID_VECTOR)" by (simp add: adds_def)
  obtain st2 where s2: "map_option (w_set st1) (buf_cat_ui32 (w_buf st1) ?n) = Some st2"
    "adds (c @ le_bytes 4 ID_VECTOR) (le_bytes 4 ?n) st1 st2"
    using w_cat_ui32 [OF b1 f1(2), of ?n] by auto
  then have b2: "w_buf st2 = mkbuf (c @ le_bytes 4 ID_VECTOR @ le_bytes 4 ?n)" by (simp add: adds_def)
  obtain st3 where s3: "exec_elems (welem_of el) (map (arg_val S False el) vs) st2 = Some st3"
    "adds (c @ le_bytes 4 ID_VECTOR @ le_bytes 4 ?n) ?xs st2 st3"
    using exec_elems_typed [OF el(3,2) b2 f1(3)] by auto
  have "adds c (le_bytes 4 ID_VECTOR @ le_bytes 4 ?n @ ?xs) st st3"
    using adds_trans [OF s1(2) s2(2)] s3(2) adds_trans [of c "le_bytes 4 ID_VECTOR @ le_bytes 4 ?n" st st2 ?xs st3] by simp
  then show ?thesis using VVec e el by (simp add: wact_of_typed [OF t nt] s1(1) s2(1) s3(1))
next
  case (VObj k vs)
  with e f w_cat_mkbuf [OF b, of "enc S (VObj k vs)"] show ?thesis by (simp add: wact_of_typed [OF t nt] del: enc.simps)
qed

section \<open>The words of flags in the buffer\<close>

text \<open>Where the fields of flags lie, counted from the front of the buffer.\<close>

fun offs :: "nat \<Rightarrow> arg_t list \<Rightarrow> byte list option list \<Rightarrow> nat list" where
  "offs n (a # as) (x # xs) =
     (if is_flag_field a then n # offs (n + 4) as xs
      else offs (n + (case x of None \<Rightarrow> 0 | Some bs \<Rightarrow> length bs)) as xs)"
| "offs n _ _ = []"

definition nflags_of :: "arg_t list \<Rightarrow> nat" where
  "nflags_of as = length (filter is_flag_field as)"

lemma enc_args_append:
  "length P = length xs \<Longrightarrow>
   enc_args fw k (P @ as) (xs @ ys) = enc_args fw k P xs @ enc_args fw (k + nflags_of P) as ys"
  by (induction fw k P xs rule: enc_args.induct) (auto simp: nflags_of_def)

lemma offs_append:
  "length P = length xs \<Longrightarrow>
   offs n (P @ as) (xs @ ys) = offs n P xs @ offs (n + length (enc_args fw k P xs)) as ys"
  by (induction n P xs arbitrary: k rule: offs.induct) (auto simp: add.assoc split: option.splits)

lemma length_offs: "length P = length xs \<Longrightarrow> length (offs n P xs) = nflags_of P"
  by (induction n P xs rule: offs.induct) (auto simp: nflags_of_def)

text \<open>Setting a bit through a pointer changes one word of the encoding and nothing else.\<close>

lemma enc_args_cong: "(\<And>i. k < i \<Longrightarrow> i \<le> k + nflags_of as \<Longrightarrow> fw i = fw' i) \<Longrightarrow> enc_args fw k as xs = enc_args fw' k as xs"
proof (induction fw k as xs rule: enc_args.induct)
  case (1 fw k a as x xs)
  then show ?case by (cases "is_flag_field a") (auto simp: nflags_of_def)
qed auto

lemma enc_args_word:
  assumes "i < length (offs n P xs)" and "length P = length xs"
  shows "\<exists>A B. n \<le> offs n P xs ! i \<and> length A = offs n P xs ! i - n \<and>
           (\<forall>w. enc_args (fw(Suc (k + i) := w)) k P xs = A @ le_bytes 4 w @ B)"
  using assms
proof (induction n P xs arbitrary: i k rule: offs.induct)
  case (1 n a as x xs)
  show ?case
  proof (cases "is_flag_field a")
    case False
    then obtain A B where "n + (case x of None \<Rightarrow> 0 | Some bs \<Rightarrow> length bs) \<le> offs n (a # as) (x # xs) ! i"
      "length A = offs n (a # as) (x # xs) ! i - (n + (case x of None \<Rightarrow> 0 | Some bs \<Rightarrow> length bs))"
      "\<forall>w. enc_args (fw(Suc (k + i) := w)) k as xs = A @ le_bytes 4 w @ B"
      using "1.IH"(2) [OF False, of i k] "1.prems" False by (auto simp del: fun_upd_apply)
    with False show ?thesis
      by (rule_tac x = "(case x of None \<Rightarrow> [] | Some bs \<Rightarrow> bs) @ A" in exI, rule_tac x = B in exI)
        (auto simp del: fun_upd_apply split: option.splits)
  next
    case True
    show ?thesis
    proof (cases i)
      case 0
      have "enc_args (fw(Suc k := w)) (Suc k) as xs = enc_args fw (Suc k) as xs" for w
        by (rule enc_args_cong) auto
      with True 0 show ?thesis by (rule_tac x = "[]" in exI, rule_tac x = "enc_args fw (Suc k) as xs" in exI)
          (simp del: fun_upd_apply add: fun_upd_same)
    next
      case (Suc j)
      obtain A B where ab: "n + 4 \<le> offs (n + 4) as xs ! j" "length A = offs (n + 4) as xs ! j - (n + 4)"
        "\<forall>w. enc_args (fw(Suc (Suc k + j) := w)) (Suc k) as xs = A @ le_bytes 4 w @ B"
        using "1.IH"(1) [OF True, of j "Suc k"] "1.prems" True Suc by (auto simp del: fun_upd_apply)
      with True Suc show ?thesis
        by (rule_tac x = "le_bytes 4 (fw (Suc k)) @ A" in exI, rule_tac x = B in exI)
          (auto simp del: fun_upd_apply simp add: fun_upd_other)
    qed
  qed
qed auto

lemma mkbuf_store:
  "length (pre @ A) = off \<Longrightarrow>
   (mkbuf (pre @ A @ le_bytes 4 (w :: u32) @ B))\<lparr>bblk :=
      take off (bblk (mkbuf (pre @ A @ le_bytes 4 w @ B))) @ le_bytes 4 w' @
      drop (off + 4) (bblk (mkbuf (pre @ A @ le_bytes 4 w @ B)))\<rparr> = mkbuf (pre @ A @ le_bytes 4 (w' :: u32) @ B)"
  by (auto simp: mkbuf_def Let_def)

section \<open>The arguments, one after the other\<close>

text \<open>
  The state behind the arguments \<open>P\<close>: the buffer holds the constructor number and their encoding with the flags set so
  far; the pointers lead to the fields of flags, and are valid as long as the first block holds everything.
\<close>

definition written :: "u32 \<Rightarrow> arg_t list \<Rightarrow> byte list option list \<Rightarrow> (nat \<Rightarrow> u32) \<Rightarrow> wst \<Rightarrow> bool" where
  "written k P xs fw st \<longleftrightarrow>
     length P = length xs \<and>
     w_buf st = mkbuf (le_bytes 4 k @ enc_args fw 0 P xs) \<and>
     map snd (w_flags st) = offs 4 P xs \<and>
     (length (le_bytes 4 k @ enc_args fw 0 P xs) \<le> BUFSIZ \<longrightarrow> w_gen st = 0 \<and> (\<forall>f \<in> set (w_flags st). fst f = 0)) \<and>
     (\<forall>n. nflags_of P < n \<longrightarrow> fw n = 0)"

lemma load32_mkbuf: "length A = off \<Longrightarrow> load32 (bblk (mkbuf (A @ le_bytes 4 w @ B))) off = Some w"
  by (simp add: mkbuf_def Let_def)

text \<open>A flag is set.\<close>

lemma or_flag_written:
  assumes w: "written k P xs fw st" and n: "1 \<le> n" "nat n \<le> nflags_of P" and b: "0 \<le> b" "b < 32"
    and small: "length (le_bytes 4 k @ enc_args fw 0 P xs) \<le> BUFSIZ"
  shows "\<exists>st'. or_flag n b st = Some st' \<and> written k P xs (fw(nat n := fw (nat n) OR push_bit (nat b) 1)) st'"
proof -
  let ?i = "nat n - 1" and ?w' = "fw (nat n) OR push_bit (nat b) 1"
  have l: "length P = length xs" and buf: "w_buf st = mkbuf (le_bytes 4 k @ enc_args fw 0 P xs)"
    and fl: "map snd (w_flags st) = offs 4 P xs" and g: "w_gen st = 0" "\<forall>f \<in> set (w_flags st). fst f = 0"
    and z: "\<forall>n. nflags_of P < n \<longrightarrow> fw n = 0"
    using w small by (auto simp: written_def)
  have si: "Suc ?i = nat n" "nat n = Suc (0 + ?i)" using n(1) by auto
  have i: "?i < length (offs 4 P xs)" using n si(1) by (simp add: length_offs [OF l])
  then have iw: "?i < length (w_flags st)" by (simp flip: fl)
  then have fs: "w_flags st ! ?i = (0, offs 4 P xs ! ?i)"
    using g(2) nth_mem [OF iw] by (simp add: prod_eq_iff flip: fl)
  obtain A B where ab: "4 \<le> offs 4 P xs ! ?i" "length A = offs 4 P xs ! ?i - 4"
    "\<And>v. enc_args (fw(nat n := v)) 0 P xs = A @ le_bytes 4 v @ B"
    using enc_args_word [OF i l, where k = 0 and fw = fw] si(2) by auto
  have e: "enc_args fw 0 P xs = A @ le_bytes 4 (fw (nat n)) @ B" using ab(3) [of "fw (nat n)"] by simp
  have off: "length (le_bytes 4 k @ A) = offs 4 P xs ! ?i" using ab by simp
  have ld: "load32 (bblk (w_buf st)) (offs 4 P xs ! ?i) = Some (fw (nat n))"
    using load32_mkbuf [OF off, of "fw (nat n)" B] by (simp add: buf e)
  have len: "nat n \<le> length (w_flags st)" using iw by simp
  let ?st = "st\<lparr>w_buf := mkbuf (le_bytes 4 k @ A @ le_bytes 4 ?w' @ B)\<rparr>"
  have "or_flag n b st = Some ?st"
    using n(1) b len g(1) mkbuf_store [OF off, of "fw (nat n)" B ?w'] fs ld by (simp add: or_flag_def Let_def buf e)
  moreover have "written k P xs (fw(nat n := ?w')) ?st"
    using w n ab(3) [of ?w'] e z by (simp add: written_def del: fun_upd_apply) (simp add: fun_upd_other)
  ultimately show ?thesis by blast
qed

text \<open>An argument that is not a field of flags has been written.\<close>

lemma written_add:
  assumes w: "written k P xs fw st" and a: "\<not> is_flag_field a"
    and ad: "adds (le_bytes 4 k @ enc_args fw 0 P xs) bs st st'"
  shows "written k (P @ [a]) (xs @ [Some bs]) fw st'"
proof -
  have l: "length P = length xs" using w by (simp add: written_def)
  have "nflags_of (P @ [a]) = nflags_of P" using a by (simp add: nflags_of_def)
  with w ad a enc_args_append [OF l, of fw 0 "[a]" "[Some bs]"] offs_append [OF l, of 4 "[a]" "[Some bs]" fw 0]
  show ?thesis by (auto simp: written_def adds_def)
qed

lemma written_skip:
  assumes w: "written k P xs fw st" and a: "\<not> is_flag_field a"
  shows "written k (P @ [a]) (xs @ [None]) fw st"
proof -
  have l: "length P = length xs" using w by (simp add: written_def)
  have "nflags_of (P @ [a]) = nflags_of P" using a by (simp add: nflags_of_def)
  with w a enc_args_append [OF l, of fw 0 "[a]" "[None]"] offs_append [OF l, of 4 "[a]" "[None]" fw 0]
  show ?thesis by (auto simp: written_def)
qed

lemma written_flags:
  assumes w: "written k P xs fw st" and a: "is_flag_field a" and f: "fits (length (le_bytes 4 k @ enc_args fw 0 P xs) + 4)"
  shows "\<exists>st'. exec_stmt env (W_flags j) st = Some st' \<and> written k (P @ [a]) (xs @ [x]) fw st'"
proof -
  let ?c = "le_bytes 4 k @ enc_args fw 0 P xs"
  have l: "length P = length xs" and buf: "w_buf st = mkbuf ?c" and z: "\<forall>n. nflags_of P < n \<longrightarrow> fw n = 0"
    and small: "length ?c \<le> BUFSIZ \<longrightarrow> w_gen st = 0 \<and> (\<forall>f \<in> set (w_flags st). fst f = 0)"
    and fl: "map snd (w_flags st) = offs 4 P xs"
    using w by (auto simp: written_def)
  let ?st = "st\<lparr>w_flags := w_flags st @ [(w_gen st, length ?c)]\<rparr>"
  have b: "w_buf ?st = mkbuf ?c" by (simp add: buf)
  obtain st' where st': "map_option (w_set ?st) (buf_cat_ui32 (w_buf ?st) 0) = Some st'" "adds ?c (le_bytes 4 (0 :: u32)) ?st st'"
    using w_cat_ui32 [OF b f] by blast
  have fc: "fits (length ?c)" using f by (rule fits_mono) simp
  have sz: "unat (bsize (mkbuf ?c)) = length ?c" using fc by (simp only: bsize_mkbuf unat_of_nat_fits)
  have ex: "exec_stmt env (W_flags j) st = Some st'"
    using st'(1) by (simp add: buf sz del: length_append bsize_mkbuf)
  have fw0: "fw (Suc (nflags_of P)) = 0" using z by simp
  have nf: "nflags_of (P @ [a]) = Suc (nflags_of P)" using a by (simp add: nflags_of_def)
  have e: "enc_args fw 0 (P @ [a]) (xs @ [x]) = enc_args fw 0 P xs @ le_bytes 4 (0 :: u32)"
    using enc_args_append [OF l, of fw 0 "[a]" "[x]"] a fw0 by simp
  have o: "offs 4 (P @ [a]) (xs @ [x]) = offs 4 P xs @ [length ?c]"
    using offs_append [OF l, of 4 "[a]" "[x]" fw 0] a by simp
  have "written k (P @ [a]) (xs @ [x]) fw st'"
    using st'(2) l z small fl by (auto simp: written_def adds_def e o nf)
  with ex show ?thesis by blast
qed

lemma length_enc_args: "length (enc_args fw k as xs) = length (enc_args fw' k' as xs)"
proof (induction fw k as xs arbitrary: k' rule: enc_args.induct)
  case (1 fw k a as x xs)
  then show ?case by (cases "is_flag_field a") (auto split: option.splits)
qed auto

text \<open>What a query function needs of the environment: the arguments that are there, null for the others.\<close>

definition env_fits :: "tl_schema \<Rightarrow> bool \<Rightarrow> params \<Rightarrow> arg_t \<Rightarrow> tlv option \<Rightarrow> bool" where
  "env_fits S mt env a x \<longleftrightarrow>
     (case x of None \<Rightarrow> \<not> truth (env (a_name a)) | Some v \<Rightarrow> env (a_name a) = Some (arg_val S mt (the (a_type a)) v))"

definition arg_fits :: "tl_schema \<Rightarrow> bool \<Rightarrow> tlv option \<Rightarrow> arg_t \<Rightarrow> bool" where
  "arg_fits S mt x a \<longleftrightarrow>
     (case x of None \<Rightarrow> a_type a = None \<or> flagn a \<noteq> 0
      | Some v \<Rightarrow> (case a_type a of None \<Rightarrow> False | Some t \<Rightarrow> typed S mt t v))"

lemma truth_arg_val: "v \<noteq> VTrue \<Longrightarrow> truth (Some (arg_val S mt ty v))" "truth (Some (arg_val S mt ty VTrue))"
  by (cases v) (simp_all add: truth_def)

lemma exec_stmts_append: "exec_stmts env (ss @ ts) st = do { st \<leftarrow> exec_stmts env ss st; exec_stmts env ts st }"
  by (induction ss arbitrary: st) (auto split: bind_splits)

text \<open>The lines for one argument that is there.\<close>

definition arg_stmts :: "bool \<Rightarrow> arg_t \<Rightarrow> string \<Rightarrow> wstmt list" where
  "arg_stmts mt a ty =
     (if ty = ''true'' then (if flagn a \<noteq> 0 then [W_true (a_name a) (flagn a) (flagb a)] else [])
      else [W_block (guard_of a) (wact_of mt a ty # flag_of a)])"

definition with_flag :: "(nat \<Rightarrow> u32) \<Rightarrow> arg_t \<Rightarrow> nat \<Rightarrow> u32" where
  "with_flag fw a = (if flagn a = 0 then fw else fw(nat (flagn a) := fw (nat (flagn a)) OR push_bit (nat (flagb a)) 1))"

lemma maybe_flag:
  assumes w: "written k P xs fw st" and a: "a_type a \<noteq> None" "0 \<le> flagn a" "nat (flagn a) \<le> nflags_of P" "0 \<le> flagb a" "flagb a < 32"
    and small: "flagn a \<noteq> 0 \<longrightarrow> length (le_bytes 4 k @ enc_args fw 0 P xs) \<le> BUFSIZ"
  shows "\<exists>st'. exec_acts env (flag_of a) st = Some st' \<and> written k P xs (with_flag fw a) st'"
proof (cases "flagn a = 0")
  case True
  with w show ?thesis by (simp add: flag_of_def with_flag_def)
next
  case False
  then obtain st' where "or_flag (flagn a) (flagb a) st = Some st'" "written k P xs (with_flag fw a) st'"
    using or_flag_written [OF w, of "flagn a" "flagb a"] assms by (auto simp: with_flag_def simp del: fun_upd_apply)
  with False show ?thesis by (simp add: flag_of_def)
qed

lemma arg_written:
  assumes w: "written k P xs fw st" and a: "a_type a = Some ty" "0 \<le> flagn a" "nat (flagn a) \<le> nflags_of P" "0 \<le> flagb a" "flagb a < 32"
    and t: "typed S mt ty v" and e: "env (a_name a) = Some (arg_val S mt ty v)"
    and small: "flagn a \<noteq> 0 \<longrightarrow> length (le_bytes 4 k @ enc_args fw 0 P xs) + length (enc S v) \<le> BUFSIZ"
    and f: "fits (length (le_bytes 4 k @ enc_args fw 0 P xs) + length (enc S v))"
  shows "\<exists>st'. exec_stmts env (arg_stmts mt a ty) st = Some st' \<and> written k (P @ [a]) (xs @ [Some (enc S v)]) (with_flag fw a) st'"
proof -
  let ?c = "le_bytes 4 k @ enc_args fw 0 P xs"
  have nf: "\<not> is_flag_field a" using a(1) by (simp add: is_flag_field_def)
  have l: "length P = length xs" and buf: "w_buf st = mkbuf ?c" using w by (auto simp: written_def)
  have np: "nflags_of (P @ [a]) = nflags_of P" using nf by (simp add: nflags_of_def)
  have e1: "enc_args fw 0 (P @ [a]) (xs @ [Some (enc S v)]) = enc_args fw 0 P xs @ enc S v"
    using enc_args_append [OF l, of fw 0 "[a]" "[Some (enc S v)]"] nf by simp
  have small': "flagn a \<noteq> 0 \<longrightarrow> length (le_bytes 4 k @ enc_args fw 0 (P @ [a]) (xs @ [Some (enc S v)])) \<le> BUFSIZ"
    using small by (simp add: e1 add.assoc)
  have an: "a_type a \<noteq> None" using a(1) by simp
  show ?thesis
  proof (cases "v = VTrue")
    case True
    then have ty: "ty = ''true''" using t by simp
    have w1: "written k (P @ [a]) (xs @ [Some (enc S v)]) fw st"
      using written_add [OF w nf, of "[]" st] adds_refl [OF buf] True by simp
    obtain st' where st': "exec_acts env (flag_of a) st = Some st'" "written k (P @ [a]) (xs @ [Some (enc S v)]) (with_flag fw a) st'"
      using maybe_flag [OF w1 an a(2) _ a(4,5) small'] a(3) np by auto
    have "exec_stmts env (arg_stmts mt a ty) st = Some st'"
      using st'(1) e True truth_arg_val(2) [of S mt ty]
      by (cases "or_flag (flagn a) (flagb a) st") (simp_all add: arg_stmts_def ty flag_of_def split: if_splits)
    with st' show ?thesis by blast
  next
    case False
    obtain st1 where st1: "exec_act env (wact_of mt a ty) st = Some st1" "adds ?c (enc S v) st st1"
      using exec_act_typed [where S = S and mt = mt and ty = ty and v = v and a = a and env = env and st = st and c = ?c, OF t False e buf f]
      by blast
    have w1: "written k (P @ [a]) (xs @ [Some (enc S v)]) fw st1" by (rule written_add [OF w nf st1(2)])
    obtain st' where st': "exec_acts env (flag_of a) st1 = Some st'" "written k (P @ [a]) (xs @ [Some (enc S v)]) (with_flag fw a) st'"
      using maybe_flag [OF w1 an a(2) _ a(4,5) small'] a(3) np by auto
    have "ty \<noteq> ''true''" using t False by (cases v) (auto simp: obj_type_def named_def split: option.splits)
    then have "exec_stmts env (arg_stmts mt a ty) st = Some st'"
      using st' st1 e truth_arg_val(1) [OF False, of S mt ty] by (simp add: arg_stmts_def guard_of_def)
    with st' show ?thesis by blast
  qed
qed

lemma method_body_written:
  assumes "written k P xs fw st" and "refs_ok (nflags_of P) as" and "list_all2 (arg_fits S mt) vs as"
    and "\<forall>(a, x) \<in> set (zip as vs). env_fits S mt env a x"
    and "early (length (le_bytes 4 k @ enc_args fw 0 P xs)) as (map (map_option (enc S)) vs)"
    and "fits (length (le_bytes 4 k @ enc_args fw 0 P xs) + length (enc_args fw 0 as (map (map_option (enc S)) vs)))"
  shows "\<exists>st'. exec_stmts env (method_body mt (nflags_of P) as) st = Some st' \<and>
     written k (P @ as) (xs @ map (map_option (enc S)) vs) (\<lambda>n. fw n OR flag_word as (map (\<lambda>v. v \<noteq> None) vs) n) st'"
  using assms
proof (induction as arbitrary: P xs fw st vs)
  case Nil
  then show ?case by simp
next
  case (Cons a as)
  obtain x us where vs: "vs = x # us" using Cons.prems(3) by (cases vs) auto
  let ?c = "le_bytes 4 k @ enc_args fw 0 P xs" and ?e = "map_option (enc S) x" and ?es = "map (map_option (enc S)) us"
  let ?A = "enc_args fw 0 (P @ [a]) (xs @ [?e])"
  have l: "length P = length xs" using Cons.prems(1) by (simp add: written_def)
  have len: "length (enc_args fw' j as ?es) = length (enc_args fw 0 as ?es)" for fw' j by (rule length_enc_args)
  have lenA: "length (enc_args fw' 0 (P @ [a]) (xs @ [?e])) = length ?A" for fw' by (rule length_enc_args)
  have step: ?case
    if st1: "exec_stmts env (if is_flag_field a then [W_flags (Suc (nflags_of P))] else arg_stmts mt a (the (a_type a))) st = Some st1"
      and w1: "written k (P @ [a]) (xs @ [?e]) fw' st1"
      and r: "refs_ok (nflags_of (P @ [a])) as"
      and ea: "early (length (le_bytes 4 k @ ?A)) as ?es"
      and ft: "fits (length (le_bytes 4 k @ ?A) + length (enc_args fw 0 as ?es))"
      and fwe: "\<And>n. fw' n = fw n OR flag_word [a] [x \<noteq> None] n"
      and ty: "\<not> is_flag_field a \<Longrightarrow> a_type a \<noteq> None" for st1 fw'
  proof -
    have "early (length (le_bytes 4 k @ enc_args fw' 0 (P @ [a]) (xs @ [?e]))) as ?es"
      using ea lenA [of fw'] by (simp del: length_append add: length_append)
    moreover have "fits (length (le_bytes 4 k @ enc_args fw' 0 (P @ [a]) (xs @ [?e])) + length (enc_args fw' 0 as ?es))"
      using ft lenA [of fw'] len [of fw' 0] by (simp del: length_append add: length_append)
    ultimately obtain st2 where st2: "exec_stmts env (method_body mt (nflags_of (P @ [a])) as) st1 = Some st2"
      "written k ((P @ [a]) @ as) ((xs @ [?e]) @ ?es) (\<lambda>n. fw' n OR flag_word as (map (\<lambda>v. v \<noteq> None) us) n) st2"
      using Cons.IH [OF w1 r] Cons.prems(3,4) vs by auto
    have "method_body mt (nflags_of P) (a # as) = W_comment (a_name a) (a_type a) #
        (if is_flag_field a then [W_flags (Suc (nflags_of P))] else arg_stmts mt a (the (a_type a))) @
        method_body mt (nflags_of (P @ [a])) as"
      using ty by (cases "is_flag_field a"; cases "a_type a") (simp_all add: nflags_of_def arg_stmts_def)
    then have "exec_stmts env (method_body mt (nflags_of P) (a # as)) st = Some st2"
      using st1 st2(1) by (simp add: exec_stmts_append)
    moreover have "(\<lambda>n. fw' n OR flag_word as (map (\<lambda>v. v \<noteq> None) us) n) =
        (\<lambda>n. fw n OR flag_word (a # as) (map (\<lambda>v. v \<noteq> None) vs) n)"
      by (rule ext) (simp add: fwe vs or.assoc)
    ultimately show ?thesis using st2(2) vs by auto
  qed
  show ?case
  proof (cases "is_flag_field a")
    case True
    have x: "x = None" using Cons.prems(3) True vs by (cases x) (auto simp: arg_fits_def is_flag_field_def)
    have A: "enc_args fw 0 (P @ [a]) (xs @ [y]) = enc_args fw 0 P xs @ le_bytes 4 (fw (Suc (nflags_of P)))" for y
      using enc_args_append [OF l, of fw 0 "[a]" "[y]"] True by simp
    have np: "nflags_of (P @ [a]) = Suc (nflags_of P)" using True by (simp add: nflags_of_def)
    have ft: "fits (length (le_bytes 4 k @ ?A) + length (enc_args fw 0 as ?es))"
      using Cons.prems(6) vs True len [of fw "Suc 0"] by (simp add: A add.assoc)
    then have "fits (length ?c + 4)" by (rule fits_mono) (simp add: A)
    from written_flags [OF Cons.prems(1) True this] obtain st1 where
      "exec_stmt env (W_flags (Suc (nflags_of P))) st = Some st1" "written k (P @ [a]) (xs @ [?e]) fw st1" by blast
    moreover from this have "exec_stmts env [W_flags (Suc (nflags_of P))] st = Some st1" by (simp del: exec_stmt.simps)
    ultimately show ?thesis using ft
      using Cons.prems(2,5) vs True x np by (intro step [of st1 fw]) (simp_all add: A del: exec_stmts.simps)
  next
    case False
    have np: "nflags_of (P @ [a]) = nflags_of P" using False by (simp add: nflags_of_def)
    obtain ty where ty: "a_type a = Some ty" and r: "0 \<le> flagn a" "nat (flagn a) \<le> nflags_of P" "0 \<le> flagb a" "flagb a < 32"
      "refs_ok (nflags_of P) as"
      using Cons.prems(2) False by auto
    have A: "enc_args fw 0 (P @ [a]) (xs @ [y]) = enc_args fw 0 P xs @ (case y of None \<Rightarrow> [] | Some bs \<Rightarrow> bs)" for y
      using enc_args_append [OF l, of fw 0 "[a]" "[y]"] False by simp
    have ft: "fits (length (le_bytes 4 k @ ?A) + length (enc_args fw 0 as ?es))"
      using Cons.prems(6) vs False by (simp add: A add.assoc split: option.splits)
    have env: "env_fits S mt env a x" using Cons.prems(4) vs by auto
    show ?thesis
    proof (cases x)
      case None
      then have fl: "flagn a \<noteq> 0" "\<not> truth (env (a_name a))"
        using Cons.prems(3) vs ty env by (auto simp: arg_fits_def env_fits_def)
      have "exec_stmts env (arg_stmts mt a ty) st = Some st"
        using fl by (simp add: arg_stmts_def guard_of_def)
      moreover have "written k (P @ [a]) (xs @ [?e]) fw st" using written_skip [OF Cons.prems(1) False] None by simp
      ultimately show ?thesis
        using Cons.prems(5) vs False None np r ty ft by (intro step [of st fw]) (simp_all add: A)
    next
      case (Some v)
      have "typed S mt ty v" using Cons.prems(3) vs ty Some by (simp add: arg_fits_def)
      moreover have "env (a_name a) = Some (arg_val S mt ty v)" using env Some ty by (simp add: env_fits_def)
      moreover have "flagn a \<noteq> 0 \<longrightarrow> length ?c + length (enc S v) \<le> BUFSIZ" using Cons.prems(5) vs False Some by simp
      moreover have "fits (length ?c + length (enc S v))" using ft by (rule fits_mono) (simp add: A Some)
      ultimately obtain st1 where st1: "exec_stmts env (arg_stmts mt a ty) st = Some st1"
        "written k (P @ [a]) (xs @ [Some (enc S v)]) (with_flag fw a) st1"
        using arg_written [OF Cons.prems(1) ty r(1-4)] by blast
      have "with_flag fw a n = fw n OR flag_word [a] [x \<noteq> None] n" for n
        using Some r(1) by (auto simp: with_flag_def)
      with st1 show ?thesis
        using Cons.prems(5) vs False Some np r ty ft by (intro step [of st1 "with_flag fw a"]) (simp_all add: A add.assoc)
    qed
  qed
qed

section \<open>Query functions write the encoding\<close>

lemma env_of_fits:
  assumes d: "distinct (map a_name (m_args m))" and l: "length vs = length (m_args m)" and z: "(a, x) \<in> set (zip (m_args m) vs)"
  shows "env_fits S mt (env_of S mt m vs) a x"
proof -
  have "map_of (zip (map a_name (m_args m)) (zip (m_args m) vs)) (a_name a) = Some (a, x)"
  proof (rule map_of_is_SomeI)
    show "distinct (map fst (zip (map a_name (m_args m)) (zip (m_args m) vs)))" using d l by simp
    obtain i where "i < length (m_args m)" "m_args m ! i = a" "vs ! i = x" using z by (auto simp: set_zip)
    then show "(a_name a, a, x) \<in> set (zip (map a_name (m_args m)) (zip (m_args m) vs))"
      using l by (auto simp: set_zip intro!: exI [of _ i])
  qed
  then show ?thesis by (simp add: env_fits_def env_of_def truth_def split: option.splits)
qed

lemma typed_obj:
  "typed S mt ty (VObj k vs) \<longleftrightarrow> obj_type ty \<and> (case lookup S k of None \<Rightarrow> False
     | Some (mt', m) \<Rightarrow> length vs = length (m_args m) \<and> flags_agree (m_args m) (map (\<lambda>v. v \<noteq> None) vs) \<and>
         list_all2 (arg_fits S mt') vs (m_args m))"
proof -
  have "(\<lambda>x a. case x of None \<Rightarrow> a_type a = None \<or> flagn a \<noteq> 0
      | Some v \<Rightarrow> (case a_type a of None \<Rightarrow> False | Some t \<Rightarrow> typed S mt' t v)) = arg_fits S mt'" for mt'
    by (intro ext) (simp add: arg_fits_def)
  then show ?thesis by (cases "lookup S k") auto
qed

declare typed.simps(8) [simp del]

lemma lookupD:
  assumes "schema_ok S" and "lookup S k = Some (mt, m)"
  shows "(mt, m) \<in> set S" "m_ok m" "m_id m = k"
  using assms by (auto simp: lookup_def schema_ok_def dest!: map_of_SomeD split: prod.splits)

lemma run_method_writes:
  assumes m: "distinct (map a_name (m_args m))" "refs_ok 0 (m_args m)" and l: "list_all2 (arg_fits S mt) vs (m_args m)"
    and ea: "early 4 (m_args m) (map (map_option (enc S)) vs)"
    and f: "fits (4 + length (enc_args (\<lambda>n. 0) 0 (m_args m) (map (map_option (enc S)) vs)))"
  shows "run_method mt m (env_of S mt m vs) = Some (mkbuf (le_bytes 4 (m_id m) @
    enc_args (flag_word (m_args m) (map (\<lambda>v. v \<noteq> None) vs)) 0 (m_args m) (map (map_option (enc S)) vs)))"
proof -
  let ?st = "\<lparr>w_buf = mkbuf (le_bytes 4 (m_id m)), w_gen = 0, w_flags = []\<rparr>"
  let ?es = "map (map_option (enc S)) vs"
  have w: "written (m_id m) [] [] (\<lambda>n. 0) ?st" by (simp add: written_def)
  have "refs_ok (nflags_of []) (m_args m)" using m by (simp add: nflags_of_def)
  moreover have "\<forall>(a, x) \<in> set (zip (m_args m) vs). env_fits S mt (env_of S mt m vs) a x"
    using env_of_fits [of m vs] m list_all2_lengthD [OF l] by auto
  ultimately obtain st where st: "exec_stmts (env_of S mt m vs) (method_body mt (nflags_of []) (m_args m)) ?st = Some st"
    "written (m_id m) ([] @ m_args m) ([] @ ?es) (\<lambda>n. 0 OR flag_word (m_args m) (map (\<lambda>v. v \<noteq> None) vs) n) st"
    using method_body_written [OF w _ l, of "env_of S mt m vs"] ea f by auto
  then show ?thesis by (simp add: run_method_def nflags_of_def written_def)
qed

lemma run_method_encodes:
  assumes S: "schema_ok S" and t: "typed S mt0 ty (VObj k vs)" and lk: "lookup S k = Some (mt, m)"
    and ea: "early 4 (m_args m) (map (map_option (enc S)) vs)" and f: "fits (length (enc S (VObj k vs)))"
  shows "run_method mt m (env_of S mt m vs) = Some (mkbuf (enc S (VObj k vs)))"
proof -
  have m: "m_ok m" "m_id m = k" using lookupD [OF S lk] by auto
  have tv: "list_all2 (arg_fits S mt) vs (m_args m)" using t lk by (auto simp: typed_obj)
  have "fits (4 + length (enc_args (\<lambda>n. 0) 0 (m_args m) (map (map_option (enc S)) vs)))"
    using f lk length_enc_args [of "flag_word (m_args m) (map (\<lambda>v. v \<noteq> None) vs)" 0 "m_args m" _ "\<lambda>n. 0" 0] by simp
  with run_method_writes [OF _ _ tv ea] m lk show ?thesis by (simp add: m_ok_def)
qed

section \<open>An example of the schema\<close>

text \<open>
  The keyboard of the schema: \<^verbatim>\<open>replyKeyboardMarkup\<close> (with some of its optional arguments), its rows and
  buttons, and a value of it: one row of one button, for one use, with a placeholder.
\<close>

definition keyboard_button :: method_t where
  "keyboard_button = \<lparr>m_name = Some ''keyboardButton'', m_id = 0xa2fa4880, m_ret = Some ''KeyboardButton'',
     m_args = [\<lparr>a_name = ''text'', a_type = Some ''string'', flagn = 0, flagb = 0\<rparr>], m_nflags = 0\<rparr>"

definition keyboard_row :: method_t where
  "keyboard_row = \<lparr>m_name = Some ''keyboardButtonRow'', m_id = 0x77608b83, m_ret = Some ''KeyboardButtonRow'',
     m_args = [\<lparr>a_name = ''buttons'', a_type = Some ''Vector<KeyboardButton>'', flagn = 0, flagb = 0\<rparr>], m_nflags = 0\<rparr>"

definition keyboard_markup :: method_t where
  "keyboard_markup = \<lparr>m_name = Some ''replyKeyboardMarkup'', m_id = 0x85dd99d1, m_ret = Some ''ReplyMarkup'',
     m_args = [\<lparr>a_name = ''flags'', a_type = None, flagn = 0, flagb = 0\<rparr>,
       \<lparr>a_name = ''resize'', a_type = Some ''true'', flagn = 1, flagb = 0\<rparr>,
       \<lparr>a_name = ''single_use'', a_type = Some ''true'', flagn = 1, flagb = 1\<rparr>,
       \<lparr>a_name = ''rows'', a_type = Some ''Vector<KeyboardButtonRow>'', flagn = 0, flagb = 0\<rparr>,
       \<lparr>a_name = ''placeholder'', a_type = Some ''string'', flagn = 1, flagb = 3\<rparr>], m_nflags = 1\<rparr>"

definition keyboard_schema :: tl_schema where
  "keyboard_schema = [(False, keyboard_button), (False, keyboard_row), (False, keyboard_markup)]"

definition keyboard :: "tlv option list" where
  "keyboard = [None, None, Some VTrue,
     Some (VVec [VObj 0x77608b83 [Some (VVec [VObj 0xa2fa4880 [Some (VBytes [0x6f, 0x6b])]])]]), Some (VBytes [0x3f])]"

lemmas keyboard_methods = keyboard_button_def keyboard_row_def keyboard_markup_def

lemma keyboard_lookup:
  "lookup keyboard_schema 0x85dd99d1 = Some (False, keyboard_markup)"
  "lookup keyboard_schema 0x77608b83 = Some (False, keyboard_row)"
  "lookup keyboard_schema 0xa2fa4880 = Some (False, keyboard_button)"
  by (simp_all add: lookup_def keyboard_schema_def keyboard_methods)

lemma keyboard_types:
  "elem_type ''Vector<KeyboardButtonRow>'' = Some ''KeyboardButtonRow''"
  "elem_type ''Vector<KeyboardButton>'' = Some ''KeyboardButton''"
  "obj_type ''KeyboardButtonRow''" "obj_type ''KeyboardButton''" "obj_type ''ReplyMarkup''"
  by (simp_all add: elem_type_def obj_type_def named_def)

lemma keyboard_schema_ok: "schema_ok keyboard_schema"
  by (simp add: schema_ok_def keyboard_schema_def keyboard_methods m_ok_def is_flag_field_def)

lemma keyboard_length: "length (enc keyboard_schema (VObj 0x85dd99d1 keyboard)) = 40"
  by (simp add: keyboard_lookup keyboard_methods keyboard_def is_flag_field_def tl_string_def pad_len_def)

lemma keyboard_typed: "typed keyboard_schema False ''ReplyMarkup'' (VObj 0x85dd99d1 keyboard)"
  by (simp add: typed.simps(8) keyboard_lookup keyboard_types keyboard_methods keyboard_def flags_agree_def elem_ok_def named_def)

lemma keyboard_early: "early 4 (m_args keyboard_markup) (map (map_option (enc keyboard_schema)) keyboard)"
  by (simp add: keyboard_methods keyboard_def keyboard_lookup is_flag_field_def tl_string_def pad_len_def BUFSIZ_def)

section \<open>What a query function returns\<close>

text \<open>
  C8: A generated query function writes the TL encoding of its arguments: the constructor number,
  the words of flags with a bit for every optional argument that is there, the arguments in the order of the
  declaration, strings with length and padding, vectors with their number and length.  (The flags have to be
  set before the buffer outgrows its first block.)
\<close>

theorem query_function_encodes:
  assumes "schema_ok S" and "typed S mt0 ty (VObj k vs)" and "lookup S k = Some (mt, m)"
    and "early 4 (m_args m) (map (map_option (enc S)) vs)" and "fits (length (enc S (VObj k vs)))"
  shows "run_method mt m (env_of S mt m vs) = Some (mkbuf (enc S (VObj k vs)))"
  using assms by (rule run_method_encodes)

theorem query_function_encodes_witness:
  "run_method False keyboard_markup (env_of keyboard_schema False keyboard_markup keyboard) =
     Some (mkbuf (enc keyboard_schema (VObj 0x85dd99d1 keyboard)))"
  using keyboard_schema_ok keyboard_typed keyboard_lookup(1) keyboard_early
  by (rule query_function_encodes) (simp add: keyboard_length fits_def del: enc.simps)

end
