(* ===== verification/Tl_Roundtrip.thy ===== *)
theory Tl_Roundtrip
  imports Tl_Wire
begin

text \<open>
  Reading back what was written: the generated readers, run on the encoding of a value, return an object
  whose members are that value and leave the buffer behind it.  With \<^verbatim>\<open>Tl_Wire\<close> this is the round trip
  through the generated code for every schema, and the two ways in which it fails are shown on the schema's own
  declarations.
\<close>

section \<open>The object of a value\<close>

text \<open>
  A member holds the value of its argument, or zero when the argument is not there.  The object keeps a copy of
  the bytes it was read from, which starts with its encoding.
\<close>

fun repr :: "tl_schema \<Rightarrow> tlv \<Rightarrow> fval \<Rightarrow> bool" where
  "repr S (VInt w) f = (f = F_ui32 w)"
| "repr S (VLong w) f = (f = F_ui64 w)"
| "repr S (VDouble w) f = (f = F_double w)"
| "repr S (VBytes xs) f = (f = F_buf (mkbuf xs))"
| "repr S VTrue f = (f = F_bool True)"
| "repr S (VRaw xs) f = (f = F_buf (mkbuf xs))"
| "repr S (VVec vs) f =
     (case f of F_arr n gs \<Rightarrow> n = of_nat (length vs) \<and> list_all2 (repr S) vs gs | _ \<Rightarrow> False)"
| "repr S (VObj k vs) f =
     (case f of
        F_obj (Some (TObj i b flds)) \<Rightarrow>
          i = k \<and> take (length (enc S (VObj k vs))) (bytes b) = enc S (VObj k vs) \<and>
          (case lookup S k of None \<Rightarrow> False
           | Some (mt, m) \<Rightarrow>
               list_all2 (\<lambda>x a. is_flag_field a \<or>
                  (case map_of flds (a_name a) of None \<Rightarrow> False
                   | Some g \<Rightarrow> (case x of None \<Rightarrow> g = zero_member a | Some v \<Rightarrow> repr S v g))) vs (m_args m))
      | _ \<Rightarrow> False)"

section \<open>The reader's position\<close>

text \<open>The buffer has \<open>xs\<close> still to be read.\<close>

definition reads :: "buf \<Rightarrow> byte list \<Rightarrow> bool" where
  "reads b xs \<longleftrightarrow> readable b \<and> bytes b = xs \<and> fits (unat (bsize b))"

lemma reads_mkbuf: "fits (length xs) \<Longrightarrow> reads (mkbuf xs) xs"
  by (simp add: reads_def)

lemma reads_rest: "reads b xs \<Longrightarrow> \<exists>zs. rest b = xs @ zs"
  by (auto simp: reads_def rest_def bytes_def) (metis append_take_drop_id)

lemma reads_length: "reads b xs \<Longrightarrow> length xs = unat (bsize b)"
  by (auto simp: reads_def)

lemma reads_advance:
  assumes "reads b (xs @ ys)" and "n = of_nat (length xs)"
  shows "reads (advance b n) ys"
proof -
  have l: "length xs + length ys = unat (bsize b)" using reads_length [OF assms(1)] by simp
  have f: "fits (length xs)" using assms(1) l by (auto simp: reads_def intro: fits_mono)
  then have n: "unat n = length xs" using assms(2) by simp
  then have "n \<le> bsize b" using l by (simp add: word_le_nat_alt)
  then have s: "unat (bsize b - n) = length ys" using l n by (simp add: unat_sub)
  let ?r = "drop (bdata b) (bblk b)"
  have t: "take (length ys + length xs) ?r = xs @ ys"
    using assms(1) l by (simp add: reads_def bytes_def add.commute)
  have "take (length ys) (drop (length xs) ?r) = drop (length xs) (take (length ys + length xs) ?r)"
    by (rule take_drop)
  then have "take (length ys) (drop (length xs) ?r) = ys" by (simp add: t)
  then have "bytes (advance b n) = ys" using s n by (simp add: bytes_def advance_def add.commute)
  moreover have "readable (advance b n)" using assms(1) l s n by (simp add: reads_def readable_def advance_def)
  moreover have "fits (unat (bsize (advance b n)))"
    using assms(1) s l by (auto simp: reads_def advance_def intro: fits_mono)
  ultimately show ?thesis by (simp add: reads_def)
qed

lemma reads_ui32:
  assumes "reads b (le_bytes 4 w @ ys)"
  shows "\<exists>b'. deserialize_ui32 b = Some (w, b') \<and> reads b' ys"
  using reads_advance [OF assms, of 4] reads_rest [OF assms] by auto

lemma reads_ui64:
  assumes "reads b (le_bytes 8 w @ ys)"
  shows "\<exists>b'. deserialize_ui64 b = Some (w, b') \<and> reads b' ys"
  using reads_advance [OF assms, of 8] reads_rest [OF assms] by auto

lemma reads_double:
  assumes "reads b (le_bytes 8 w @ ys)"
  shows "\<exists>b'. deserialize_double b = Some (w, b') \<and> reads b' ys"
  using reads_advance [OF assms, of 8] reads_rest [OF assms] by auto

lemma reads_bytes:
  assumes "reads b (tl_string xs @ ys)" and "length xs < 2 ^ 24"
  shows "\<exists>b'. deserialize_bytes b = Some (mkbuf xs, b') \<and> reads b' ys"
proof -
  obtain zs where "rest b = tl_string xs @ ys @ zs" using reads_rest [OF assms(1)] by auto
  with deserialize_bytes_tl_string assms(2) reads_advance [OF assms(1) refl] show ?thesis by blast
qed

lemma reads_buf:
  assumes "reads b (xs @ ys)" and "n = length xs"
  shows "\<exists>b'. deserialize_buf b (of_nat n) = Some (mkbuf xs, b') \<and> reads b' ys"
proof -
  obtain zs where r: "rest b = xs @ ys @ zs" using reads_rest [OF assms(1)] by auto
  have "fits (length xs)"
    using assms(1) reads_length [OF assms(1)] by (auto simp: reads_def intro: fits_mono)
  with deserialize_buf_eq [OF r] reads_advance [OF assms(1) refl] assms(2) show ?thesis by blast
qed

lemma reads_copy: "reads b xs \<Longrightarrow> buf_add_buf b = Some (mkbuf xs)"
  by (simp add: reads_def buf_add_buf_def bytes_def readable_def)

section \<open>Reading one value\<close>

text \<open>What \<^verbatim>\<open>tl_deserialize\<close> does for the objects inside.\<close>

definition reads_objects :: "tl_schema \<Rightarrow> nat \<Rightarrow> tl_reader \<Rightarrow> bool" where
  "reads_objects S n D \<longleftrightarrow>
     (\<forall>mt ty k vs b ys. typed S mt ty (VObj k vs) \<and> length (enc S (VObj k vs)) \<le> n \<and> reads b (enc S (VObj k vs) @ ys) \<longrightarrow>
        (\<exists>obj b'. D b = Some (Some obj, b') \<and> reads b' ys \<and> repr S (VObj k vs) (F_obj (Some obj))))"

lemma reads_objectsD:
  assumes "reads_objects S n D" and "typed S mt ty (VObj k vs)" and "length (enc S (VObj k vs)) \<le> n"
    and "reads b (enc S (VObj k vs) @ ys)"
  shows "\<exists>obj b'. D b = Some (Some obj, b') \<and> reads b' ys \<and> repr S (VObj k vs) (F_obj (Some obj))"
  using assms unfolding reads_objects_def by blast

lemma relem_of_typed:
  assumes "typed S False e v" and "elem_ok e"
  shows "relem_of e = (case v of
      VInt w \<Rightarrow> Re_ui32 | VLong w \<Rightarrow> Re_ui64 | VDouble w \<Rightarrow> Re_double | VBytes xs \<Rightarrow> Re_bytes
    | VObj k vs \<Rightarrow> Re_obj | _ \<Rightarrow> undefined)"
proof (cases v)
  case (VBytes xs)
  with assms have "e = ''bytes'' \<or> e = ''string''" by auto
  with VBytes show ?thesis by (elim disjE) (simp_all add: relem_of_def)
next
  case (VObj k vs)
  with assms obj_typeD [of e] show ?thesis by (simp add: relem_of_def typed.simps)
next
  case (VRaw xs)
  with assms have "e = ''int128'' \<or> e = ''int256''" by auto
  with assms(2) show ?thesis by (elim disjE) simp_all
qed (use assms in \<open>simp_all add: relem_of_def\<close>)

lemma ract_of_typed:
  assumes "typed S mt ty v"
  shows "ract_of ty = (case v of
      VInt w \<Rightarrow> Rd_ui32 | VLong w \<Rightarrow> Rd_ui64 | VDouble w \<Rightarrow> Rd_double | VBytes xs \<Rightarrow> Rd_bytes | VTrue \<Rightarrow> Rd_true
    | VRaw xs \<Rightarrow> Rd_buf (length xs) | VVec vs \<Rightarrow> Rd_vector (relem_of (the (elem_type ty))) | VObj k vs \<Rightarrow> Rd_obj)"
proof (cases v)
  case (VBytes xs)
  with assms have "ty = ''bytes'' \<or> ty = ''string''" by auto
  with VBytes show ?thesis by (elim disjE) (simp_all add: ract_of_def)
next
  case (VRaw xs)
  with assms have "ty = ''int128'' \<and> length xs = 16 \<or> ty = ''int256'' \<and> length xs = 32" by simp
  with VRaw show ?thesis by (elim disjE) (simp_all add: ract_of_def)
next
  case (VVec vs)
  with assms obtain e where "elem_type ty = Some e" "ty \<notin> named" by (auto split: option.splits)
  with VVec not_named [of ty] show ?thesis by (simp add: ract_of_def)
next
  case (VObj k vs)
  with assms obj_typeD [of ty] show ?thesis by (simp add: ract_of_def typed.simps)
qed (use assms in \<open>simp_all add: ract_of_def\<close>)

lemma read_elem_typed:
  assumes t: "typed S False e v" and o: "elem_ok e" and D: "reads_objects S n D" and l: "length (enc S v) \<le> n"
    and b: "reads b (enc S v @ ys)"
  shows "\<exists>f b'. read_elem D (relem_of e) b = Some (f, b') \<and> reads b' ys \<and> repr S v f"
proof (cases v)
  case (VInt w)
  with b reads_ui32 [of b w ys] show ?thesis by (auto simp: relem_of_typed [OF t o])
next
  case (VLong w)
  with b reads_ui64 [of b w ys] show ?thesis by (auto simp: relem_of_typed [OF t o])
next
  case (VDouble w)
  with b reads_double [of b w ys] show ?thesis by (auto simp: relem_of_typed [OF t o])
next
  case (VBytes xs)
  then have "length xs < 2 ^ 24" using t by simp
  with VBytes b reads_bytes [of b xs ys] show ?thesis by (auto simp: relem_of_typed [OF t o])
next
  case (VRaw xs)
  with t o have False by auto
  then show ?thesis ..
next
  case (VObj k vs)
  then show ?thesis
    using reads_objectsD [OF D, of False e k vs b ys] t l b by (auto simp: relem_of_typed [OF t o] simp del: enc.simps repr.simps)
qed (use t o in auto)

lemma read_elems_typed:
  assumes "\<forall>v \<in> set vs. typed S False e v" and "elem_ok e" and "reads_objects S n D" and "length (concat (map (enc S) vs)) \<le> n"
    and "reads b (concat (map (enc S) vs) @ ys)"
  shows "\<exists>fs b'. read_elems D (relem_of e) (length vs) b = Some (fs, b') \<and> reads b' ys \<and> list_all2 (repr S) vs fs"
  using assms
proof (induction vs arbitrary: b)
  case Nil
  then show ?case by simp
next
  case (Cons v vs)
  obtain f b1 where 1: "read_elem D (relem_of e) b = Some (f, b1)" "reads b1 (concat (map (enc S) vs) @ ys)" "repr S v f"
    using read_elem_typed [of S e v n D b "concat (map (enc S) vs) @ ys"] Cons.prems by auto
  obtain fs b2 where "read_elems D (relem_of e) (length vs) b1 = Some (fs, b2)" "reads b2 ys" "list_all2 (repr S) vs fs"
    using Cons.IH [OF _ Cons.prems(2,3) _ 1(2)] Cons.prems by auto
  with 1 show ?case by simp
qed

lemma vector_length:
  assumes "n \<le> 10000"
  shows "(of_nat n :: u32) \<noteq> ID_VECTOR" "unat (of_nat n :: u32) = n" "\<not> sint (of_nat n :: u32) < 0" "\<not> 10000 < sint (of_nat n :: u32)"
proof -
  show u: "unat (of_nat n :: u32) = n" using assms by (simp add: unat_of_nat)
  then have "sint (of_nat n :: u32) = int n" using assms by (simp add: sint_small)
  then show "\<not> sint (of_nat n :: u32) < 0" "\<not> 10000 < sint (of_nat n :: u32)" using assms by simp_all
  show "(of_nat n :: u32) \<noteq> ID_VECTOR"
  proof
    assume "(of_nat n :: u32) = ID_VECTOR"
    then have "n = unat ID_VECTOR" using u by simp
    with assms show False by (simp add: ID_VECTOR_def)
  qed
qed

lemma read_act_typed:
  assumes t: "typed S mt ty v" and D: "reads_objects S n D" and l: "length (enc S v) \<le> n" and b: "reads b (enc S v @ ys)"
  shows "\<exists>f b'. read_act D (ract_of ty) b = Some (False, f, b') \<and> reads b' ys \<and> repr S v f"
proof (cases v)
  case (VInt w)
  with b reads_ui32 [of b w ys] show ?thesis by (auto simp: ract_of_typed [OF t])
next
  case (VLong w)
  with b reads_ui64 [of b w ys] show ?thesis by (auto simp: ract_of_typed [OF t])
next
  case (VDouble w)
  with b reads_double [of b w ys] show ?thesis by (auto simp: ract_of_typed [OF t])
next
  case (VBytes xs)
  then have "length xs < 2 ^ 24" using t by simp
  with VBytes b reads_bytes [of b xs ys] show ?thesis by (auto simp: ract_of_typed [OF t])
next
  case VTrue
  with b show ?thesis by (simp add: ract_of_typed [OF t])
next
  case (VRaw xs)
  with b reads_buf [of b xs ys "length xs"] show ?thesis by (auto simp: ract_of_typed [OF t])
next
  case (VVec vs)
  then obtain e where e: "elem_type ty = Some e" "elem_ok e" "length vs \<le> 10000" "\<forall>v \<in> set vs. typed S False e v"
    using t by (auto split: option.splits)
  let ?n = "of_nat (length vs) :: u32" and ?xs = "concat (map (enc S) vs)"
  obtain b1 where b1: "deserialize_ui32 b = Some (ID_VECTOR, b1)" "reads b1 (le_bytes 4 ?n @ ?xs @ ys)"
    using reads_ui32 [of b ID_VECTOR "le_bytes 4 ?n @ ?xs @ ys"] b VVec by auto
  obtain b2 where b2: "deserialize_ui32 b1 = Some (?n, b2)" "reads b2 (?xs @ ys)"
    using reads_ui32 [OF b1(2)] by auto
  obtain fs b3 where "read_elems D (relem_of e) (length vs) b2 = Some (fs, b3)" "reads b3 ys" "list_all2 (repr S) vs fs"
    using read_elems_typed [OF e(4,2) D _ b2(2)] l VVec by auto
  with b1 b2 e(1) VVec show ?thesis by (simp add: ract_of_typed [OF t] vector_length [OF e(3)])
next
  case (VObj k vs)
  then show ?thesis
    using reads_objectsD [OF D, of mt ty k vs b ys] t l b by (auto simp: ract_of_typed [OF t] simp del: enc.simps repr.simps)
qed

section \<open>Flags\<close>

lemma and_bit: "b < 32 \<Longrightarrow> (w AND push_bit b 1 = push_bit b (1 :: u32)) = bit w b"
proof -
  assume b: "b < 32"
  have "w AND push_bit b 1 = (if bit w b then push_bit b 1 else 0)"
    by (rule bit_word_eqI) (auto simp: bit_simps)
  moreover have "push_bit b (1 :: u32) \<noteq> 0" using b by (simp add: push_bit_eq_0_iff)
  ultimately show ?thesis by simp
qed

lemma bit_flag_word:
  assumes "i < 32" and "\<forall>a \<in> set as. flagn a \<noteq> 0 \<longrightarrow> 0 \<le> flagb a"
  shows "bit (flag_word as ps n) i \<longleftrightarrow> (\<exists>(a, p) \<in> set (zip as ps). p \<and> flagn a \<noteq> 0 \<and> flagn a = int n \<and> flagb a = int i)"
  using assms by (induction as ps n rule: flag_word.induct) (auto simp: bit_simps)

lemma flags_agreeD:
  assumes "flags_agree as ps" and "(c, q) \<in> set (zip as ps)" and "(a, p) \<in> set (zip as ps)"
    and "flagn c = flagn a" and "flagb c = flagb a" and "flagn a \<noteq> 0"
  shows "q = p"
proof -
  from bspec [OF assms(1) [unfolded flags_agree_def] assms(2)] have
    "\<forall>(b, r) \<in> set (zip as ps). flagn c \<noteq> 0 \<and> flagn c = flagn b \<and> flagb c = flagb b \<longrightarrow> q = r" by simp
  from bspec [OF this assms(3)] assms(4-6) show ?thesis by simp
qed

text \<open>When the optional arguments that share a flag agree, the flag tells for each of them whether it is there.\<close>

lemma flag_word_present:
  assumes "flags_agree as ps" and "(a, p) \<in> set (zip as ps)" and "0 < flagn a" "0 \<le> flagb a" "flagb a < 32"
    and "\<forall>a \<in> set as. flagn a \<noteq> 0 \<longrightarrow> 0 \<le> flagb a"
  shows "bit (flag_word as ps (nat (flagn a))) (nat (flagb a)) = p"
proof -
  have "bit (flag_word as ps (nat (flagn a))) (nat (flagb a)) \<longleftrightarrow>
      (\<exists>(c, q) \<in> set (zip as ps). q \<and> flagn c \<noteq> 0 \<and> flagn c = flagn a \<and> flagb c = flagb a)"
    using assms bit_flag_word [of "nat (flagb a)" as ps "nat (flagn a)"] by simp
  also have "\<dots> \<longleftrightarrow> p"
  proof
    assume "\<exists>(c, q) \<in> set (zip as ps). q \<and> flagn c \<noteq> 0 \<and> flagn c = flagn a \<and> flagb c = flagb a"
    then obtain c q where c: "(c, q) \<in> set (zip as ps)" "q" "flagn c = flagn a" "flagb c = flagb a" by auto
    have "flagn a \<noteq> 0" using assms(3) by simp
    then have "q = p" using assms(1,2) c(1,3,4) flags_agreeD by metis
    with c(2) show p by simp
  next
    assume p
    with assms(2,3) show "\<exists>(c, q) \<in> set (zip as ps). q \<and> flagn c \<noteq> 0 \<and> flagn c = flagn a \<and> flagb c = flagb a"
      by (intro bexI [of _ "(a, p)"]) simp_all
  qed
  finally show ?thesis .
qed

section \<open>Reading the arguments\<close>

text \<open>The member of one argument.\<close>

definition member_ok :: "tl_schema \<Rightarrow> (string \<times> fval) list \<Rightarrow> tlv option \<Rightarrow> arg_t \<Rightarrow> bool" where
  "member_ok S flds x a \<longleftrightarrow> is_flag_field a \<or>
     (case map_of flds (a_name a) of None \<Rightarrow> False
      | Some g \<Rightarrow> (case x of None \<Rightarrow> g = zero_member a | Some v \<Rightarrow> repr S v g))"

definition arg_flag :: "(nat \<Rightarrow> u32) \<Rightarrow> arg_t \<Rightarrow> tlv option \<Rightarrow> bool" where
  "arg_flag fw a x \<longleftrightarrow> (flagn a \<noteq> 0 \<longrightarrow> bit (fw (nat (flagn a))) (nat (flagb a)) = (x \<noteq> None))"

lemma exec_arg:
  assumes "(case g of None \<Rightarrow> Some True | Some (f, bt) \<Rightarrow> flag_set (r_flags st) f bt) = Some go"
  shows "exec_rstmts D (R_comment c t # R_arg g nm a # ss) st =
    (if go then (case read_act D a (r_buf st) of None \<Rightarrow> None
                 | Some (ret, v, b) \<Rightarrow> let st = st\<lparr>r_fields := (nm, v) # r_fields st, r_buf := b\<rparr> in
                     if ret then Some st else exec_rstmts D ss st)
     else exec_rstmts D ss st)"
  by (cases "read_act D a (r_buf st)") (simp_all add: assms Let_def split: prod.splits)

lemma args_read:
  assumes "list_all2 (arg_fits S mt) vs as" and "refs_ok (length fl) as" and "\<forall>i < length fl. fl ! i = fw (Suc i)"
    and "\<forall>(a, x) \<in> set (zip as vs). arg_flag fw a x" and D: "reads_objects S n D"
    and "length (enc_args fw (length fl) as (map (map_option (enc S)) vs)) \<le> n" and "distinct (map a_name as)"
    and "reads b (enc_args fw (length fl) as (map (map_option (enc S)) vs) @ ys)"
    and "\<forall>a \<in> set as. \<not> is_flag_field a \<longrightarrow> map_of flds (a_name a) = Some (zero_member a)"
  shows "\<exists>st. exec_rstmts D (deserialize_body (length fl) as) \<lparr>r_fields = flds, r_flags = fl, r_buf = b\<rparr> = Some st \<and>
     reads (r_buf st) ys \<and> list_all2 (member_ok S (r_fields st)) vs as \<and>
     (\<forall>nm. nm \<notin> a_name ` set as \<longrightarrow> map_of (r_fields st) nm = map_of flds nm)"
  using assms(1-4,6-9)
proof (induction as arbitrary: vs fl flds b rule: list.induct)
  case Nil
  from Nil.prems(1) have "vs = []" by (cases vs) auto
  with Nil.prems show ?case by simp
next
  case (Cons a as)
  obtain x us where vs: "vs = x # us" using Cons.prems(1) by (cases vs) auto
  let ?es = "map (map_option (enc S)) us"
  show ?case
  proof (cases "is_flag_field a")
    case True
    have x: "x = None" using Cons.prems(1) True vs by (cases x) (auto simp: arg_fits_def is_flag_field_def)
    let ?w = "fw (Suc (length fl))"
    obtain b1 where b1: "deserialize_ui32 b = Some (?w, b1)" "reads b1 (enc_args fw (Suc (length fl)) as ?es @ ys)"
      using reads_ui32 [of b ?w "enc_args fw (Suc (length fl)) as ?es @ ys"] Cons.prems(7) True vs by auto
    have fl': "\<forall>i < length (fl @ [?w]). (fl @ [?w]) ! i = fw (Suc i)"
      using Cons.prems(3) by (auto simp: nth_append less_Suc_eq)
    obtain st where st: "exec_rstmts D (deserialize_body (Suc (length fl)) as) \<lparr>r_fields = flds, r_flags = fl @ [?w], r_buf = b1\<rparr> = Some st"
      "reads (r_buf st) ys" "list_all2 (member_ok S (r_fields st)) us as"
      "\<forall>nm. nm \<notin> a_name ` set as \<longrightarrow> map_of (r_fields st) nm = map_of flds nm"
      using Cons.IH [OF _ _ fl', of us b1 flds] Cons.prems b1(2) True vs by auto
    have "exec_rstmts D (deserialize_body (length fl) (a # as)) \<lparr>r_fields = flds, r_flags = fl, r_buf = b\<rparr> = Some st"
      using True b1(1) st(1) by simp
    moreover have "list_all2 (member_ok S (r_fields st)) vs (a # as)"
      using st(3) vs True by (simp add: member_ok_def)
    ultimately show ?thesis using st by (intro exI [of _ st]) auto
  next
    case False
    then obtain ty where ty: "a_type a = Some ty" and r: "0 \<le> flagn a" "nat (flagn a) \<le> length fl" "0 \<le> flagb a" "flagb a < 32"
      "refs_ok (length fl) as"
      using Cons.prems(2) by auto
    have z: "map_of flds (a_name a) = Some (zero_member a)" using Cons.prems(8) False by simp
    let ?g = "if flagn a \<noteq> 0 then Some (flagn a, flagb a) else None"
    have go: "(case ?g of None \<Rightarrow> Some True | Some (f, bt) \<Rightarrow> flag_set fl f bt) = Some (x \<noteq> None)"
    proof (cases "flagn a = 0")
      case True
      then show ?thesis using Cons.prems(1) vs ty by (auto simp: arg_fits_def split: option.splits)
    next
      case False
      then have n: "1 \<le> flagn a" "nat (flagn a) - 1 < length fl" "Suc (nat (flagn a) - 1) = nat (flagn a)" using r by auto
      have "bit (fw (nat (flagn a))) (nat (flagb a)) = (x \<noteq> None)"
        using Cons.prems(4) vs False by (auto simp: arg_flag_def)
      moreover have "fl ! (nat (flagn a) - 1) = fw (nat (flagn a))" using Cons.prems(3) n by metis
      moreover have "nat (flagb a) < 32" using r by simp
      ultimately show ?thesis using False n(1) r by (simp add: flag_set_def and_bit del: push_bit_of_1)
    qed
    have body: "deserialize_body (length fl) (a # as) =
        R_comment (a_name a) (a_type a) # R_arg ?g (a_name a) (ract_of ty) # deserialize_body (length fl) as"
      using False ty by simp
    show ?thesis
    proof (cases x)
      case None
      obtain st where st: "exec_rstmts D (deserialize_body (length fl) as) \<lparr>r_fields = flds, r_flags = fl, r_buf = b\<rparr> = Some st"
        "reads (r_buf st) ys" "list_all2 (member_ok S (r_fields st)) us as"
        "\<forall>nm. nm \<notin> a_name ` set as \<longrightarrow> map_of (r_fields st) nm = map_of flds nm"
        using Cons.IH [of us fl b flds] Cons.prems False None vs r(5) by auto
      have "map_of (r_fields st) (a_name a) = Some (zero_member a)" using st(4) z Cons.prems(6) by auto
      then have "list_all2 (member_ok S (r_fields st)) vs (a # as)" using st(3) None vs by (simp add: member_ok_def [of S _ None a])
      moreover have "exec_rstmts D (deserialize_body (length fl) (a # as)) \<lparr>r_fields = flds, r_flags = fl, r_buf = b\<rparr> = Some st"
        using st(1) None exec_arg [where g = ?g and st = "\<lparr>r_fields = flds, r_flags = fl, r_buf = b\<rparr>" and go = False] go
        by (simp only: body rst.simps option.simps if_False not_None_eq simp_thms)
      ultimately show ?thesis using st(2,4) by auto
    next
      case (Some v)
      have t: "typed S mt ty v" using Cons.prems(1) vs ty Some by (simp add: arg_fits_def)
      obtain f b1 where 1: "read_act D (ract_of ty) b = Some (False, f, b1)" "reads b1 (enc_args fw (length fl) as ?es @ ys)" "repr S v f"
        using read_act_typed [OF t D, of b "enc_args fw (length fl) as ?es @ ys"] Cons.prems(5,7) False vs Some by auto
      have zs: "\<forall>c \<in> set as. \<not> is_flag_field c \<longrightarrow> map_of ((a_name a, f) # flds) (a_name c) = Some (zero_member c)"
      proof (intro ballI impI)
        fix c assume c: "c \<in> set as" "\<not> is_flag_field c"
        have "a_name a \<notin> a_name ` set as" using Cons.prems(6) by simp
        with c(1) have "a_name c \<noteq> a_name a" by (metis image_eqI)
        with c Cons.prems(8) show "map_of ((a_name a, f) # flds) (a_name c) = Some (zero_member c)" by simp
      qed
      obtain st where st: "exec_rstmts D (deserialize_body (length fl) as) \<lparr>r_fields = (a_name a, f) # flds, r_flags = fl, r_buf = b1\<rparr> = Some st"
        "reads (r_buf st) ys" "list_all2 (member_ok S (r_fields st)) us as"
        "\<forall>nm. nm \<notin> a_name ` set as \<longrightarrow> map_of (r_fields st) nm = map_of ((a_name a, f) # flds) nm"
        using Cons.IH [OF _ r(5) Cons.prems(3) _ _ _ 1(2) zs] Cons.prems(1,4,5,6) False Some vs by auto
      have "map_of (r_fields st) (a_name a) = Some f" using st(4) Cons.prems(6) by auto
      then have "list_all2 (member_ok S (r_fields st)) vs (a # as)"
        using st(3) 1(3) Some vs by (simp add: member_ok_def [of S _ "Some v" a])
      moreover have "exec_rstmts D (deserialize_body (length fl) (a # as)) \<lparr>r_fields = flds, r_flags = fl, r_buf = b\<rparr> = Some st"
        using st(1) 1(1) Some exec_arg [where g = ?g and st = "\<lparr>r_fields = flds, r_flags = fl, r_buf = b\<rparr>" and go = True] go
        by (simp only: body rst.simps option.simps if_True if_False not_None_eq simp_thms prod.case Let_def)
      ultimately show ?thesis using st(2,4) by auto
    qed
  qed
qed

section \<open>Reading an object\<close>

lemma repr_obj:
  "repr S (VObj k vs) f \<longleftrightarrow>
     (case f of
        F_obj (Some (TObj i b flds)) \<Rightarrow>
          i = k \<and> take (length (enc S (VObj k vs))) (bytes b) = enc S (VObj k vs) \<and>
          (case lookup S k of None \<Rightarrow> False | Some (mt, m) \<Rightarrow> list_all2 (member_ok S flds) vs (m_args m))
      | _ \<Rightarrow> False)"
  unfolding repr.simps member_ok_def [abs_def] ..

declare repr.simps(8) [simp del]

lemma get_fun_table: "get_fun (map (\<lambda>(mt, m). (m_id m, R m)) S) k = map_option (\<lambda>(mt, m). R m) (lookup S k)"
  by (induction S) (auto simp: lookup_def)

lemma new_struct_zero:
  assumes "a \<in> set (m_args m)" and "\<not> is_flag_field a" and "distinct (map a_name (m_args m))"
  shows "map_of (new_struct m) (a_name a) = Some (zero_member a)"
proof (rule map_of_is_SomeI)
  have "map fst (new_struct m) = map a_name (filter (\<lambda>a. \<not> is_flag_field a) (m_args m))" by (simp add: new_struct_def)
  then show "distinct (map fst (new_struct m))" using assms(3) by (simp add: distinct_map_filter)
  show "(a_name a, zero_member a) \<in> set (new_struct m)" using assms(1,2) by (auto simp: new_struct_def)
qed

lemma refs_ok_flags:
  "refs_ok k as \<Longrightarrow> a \<in> set as \<Longrightarrow> is_flag_field a \<and> flagn a = 0 \<or> 0 \<le> flagn a \<and> 0 \<le> flagb a \<and> flagb a < 32"
  by (induction as arbitrary: k) (auto split: if_splits)

lemma flags_tell:
  assumes r: "refs_ok 0 as" and f: "flags_agree as (map (\<lambda>v. v \<noteq> None) vs)" and l: "length vs = length as"
  shows "\<forall>(a, x) \<in> set (zip as vs). arg_flag (flag_word as (map (\<lambda>v. v \<noteq> None) vs)) a x"
proof (intro ballI, clarify)
  fix a x assume z: "(a, x) \<in> set (zip as vs)"
  then have a: "a \<in> set as" by (rule set_zip_leftD)
  have z': "(a, x \<noteq> None) \<in> set (zip as (map (\<lambda>v. v \<noteq> None) vs))" using z l by (force simp: set_zip)
  have nn: "\<forall>a \<in> set as. flagn a \<noteq> 0 \<longrightarrow> 0 \<le> flagb a" using refs_ok_flags [OF r] by auto
  show "arg_flag (flag_word as (map (\<lambda>v. v \<noteq> None) vs)) a x"
  proof (cases "flagn a = 0")
    case False
    then have "0 < flagn a" "0 \<le> flagb a" "flagb a < 32" using refs_ok_flags [OF r a] by auto
    with flag_word_present [OF f z' _ _ _ nn] show ?thesis by (simp add: arg_flag_def)
  qed (simp add: arg_flag_def)
qed

lemma reads_load32: "reads b (le_bytes 4 k @ ys) \<Longrightarrow> load32 (bblk b) (bdata b) = Some (k :: u32)"
  using reads_rest [of b "le_bytes 4 k @ ys"] by (auto simp: load_rest)

lemma run_reader_typed:
  assumes m: "m_ok m" "m_id m = k" and lk: "lookup S k = Some (mt, m)" and t: "typed S mt0 ty (VObj k vs)"
    and D: "reads_objects S n D" and l: "length (enc S (VObj k vs)) \<le> Suc n" and b: "reads b (enc S (VObj k vs) @ ys)"
  shows "\<exists>obj b'. run_reader D m b = Some (Some obj, b') \<and> reads b' ys \<and> repr S (VObj k vs) (F_obj (Some obj))"
proof -
  let ?fw = "flag_word (m_args m) (map (\<lambda>v. v \<noteq> None) vs)" and ?es = "map (map_option (enc S)) vs"
  have e: "enc S (VObj k vs) = le_bytes 4 k @ enc_args ?fw 0 (m_args m) ?es" using lk by simp
  have tv: "length vs = length (m_args m)" "flags_agree (m_args m) (map (\<lambda>v. v \<noteq> None) vs)" "list_all2 (arg_fits S mt) vs (m_args m)"
    using t lk by (auto simp: typed_obj)
  have r: "refs_ok 0 (m_args m)" and d: "distinct (map a_name (m_args m))" using m by (auto simp: m_ok_def)
  obtain b1 where b1: "deserialize_ui32 b = Some (k, b1)" "reads b1 (enc_args ?fw 0 (m_args m) ?es @ ys)"
    using reads_ui32 [of b k "enc_args ?fw 0 (m_args m) ?es @ ys"] b e by auto
  have n: "length (enc_args ?fw 0 (m_args m) ?es) \<le> n" using l by (simp add: e del: enc.simps)
  have z: "\<forall>a \<in> set (m_args m). \<not> is_flag_field a \<longrightarrow> map_of (new_struct m) (a_name a) = Some (zero_member a)"
    using new_struct_zero [OF _ _ d] by blast
  obtain st where st: "exec_rstmts D (deserialize_body 0 (m_args m)) \<lparr>r_fields = new_struct m, r_flags = [], r_buf = b1\<rparr> = Some st"
    "reads (r_buf st) ys" "list_all2 (member_ok S (r_fields st)) vs (m_args m)"
    using args_read [OF tv(3), where fl = "[]" and fw = ?fw and D = D and n = n and b = b1 and ys = ys and flds = "new_struct m"] r flags_tell [OF r tv(2,1)] D n d b1(2) z by auto
  have "run_reader D m b = Some (Some (TObj k (mkbuf (enc S (VObj k vs) @ ys)) (r_fields st)), r_buf st)"
    using m b1(1) st(1) reads_copy [OF b] by (simp add: run_reader_def m_ok_def)
  moreover have "repr S (VObj k vs) (F_obj (Some (TObj k (mkbuf (enc S (VObj k vs) @ ys)) (r_fields st))))"
  proof -
    have "fits (length (enc S (VObj k vs) @ ys))" using b reads_length [OF b] by (simp add: reads_def del: enc.simps)
    then have "bytes (mkbuf (enc S (VObj k vs) @ ys)) = enc S (VObj k vs) @ ys" by (simp del: enc.simps)
    with st(3) lk show ?thesis by (simp add: repr_obj del: enc.simps)
  qed
  ultimately show ?thesis using st(2) by blast
qed

lemma deserialize_obj_reads:
  assumes S: "schema_ok S"
  shows "reads_objects S n (deserialize_obj n S)"
proof (induction n)
  case 0
  show ?case by (auto simp: reads_objects_def)
next
  case (Suc n)
  show ?case unfolding reads_objects_def
  proof (intro allI impI, elim conjE)
    fix mt ty k vs b ys
    assume t: "typed S mt ty (VObj k vs)" and l: "length (enc S (VObj k vs)) \<le> Suc n" and b: "reads b (enc S (VObj k vs) @ ys)"
    obtain mt' m where lk: "lookup S k = Some (mt', m)" using t by (auto simp: typed_obj split: option.splits)
    have m: "m_ok m" "m_id m = k" using lookupD [OF S lk] by auto
    have "load32 (bblk b) (bdata b) = Some k" using reads_load32 [of b k] b by simp
    moreover have "k \<noteq> 0" using m by (auto simp: m_ok_def)
    ultimately have "deserialize_obj (Suc n) S b = run_reader (deserialize_obj n S) m b"
      by (simp add: tl_deserialize_def get_fun_table lk)
    with run_reader_typed [OF m lk t Suc l b]
    show "\<exists>obj b'. deserialize_obj (Suc n) S b = Some (Some obj, b') \<and> reads b' ys \<and> repr S (VObj k vs) (F_obj (Some obj))" by simp
  qed
qed

section \<open>The round trip\<close>

text \<open>
  C7: What a generated query function writes, the generated reader reads: on the returned buffer, followed by
  anything, \<^verbatim>\<open>tl_deserialize\<close> returns an object whose members hold the arguments (zero where
  an optional argument was not given), nested objects and vectors included, and leaves exactly what follows.  The
  depth of the calls is bounded by the number of bytes.
\<close>

theorem generated_code_roundtrip:
  assumes "schema_ok S" and "typed S mt0 ty (VObj k vs)" and "lookup S k = Some (mt, m)"
    and "early 4 (m_args m) (map (map_option (enc S)) vs)"
    and "fits (length (enc S (VObj k vs)) + length ys)" and "length (enc S (VObj k vs)) \<le> n"
  shows "\<exists>b obj b'. run_method mt m (env_of S mt m vs) = Some b \<and> deserialize_obj n S (mkbuf (bytes b @ ys)) = Some (Some obj, b') \<and>
    bytes b' = ys \<and> repr S (VObj k vs) (F_obj (Some obj))"
proof -
  let ?e = "enc S (VObj k vs)"
  have f: "fits (length ?e)" using assms(5) by (rule fits_mono) simp
  have "reads (mkbuf (?e @ ys)) (?e @ ys)" using assms(5) by (simp add: reads_mkbuf del: enc.simps)
  then obtain obj b' where o: "deserialize_obj n S (mkbuf (?e @ ys)) = Some (Some obj, b')" "reads b' ys" "repr S (VObj k vs) (F_obj (Some obj))"
    using reads_objectsD [OF deserialize_obj_reads [OF assms(1)] assms(2,6)] by blast
  then show ?thesis using run_method_encodes [OF assms(1-4) f] f by (auto simp: reads_def simp del: enc.simps)
qed

theorem generated_code_roundtrip_witness:
  "\<exists>b obj b'. run_method False keyboard_markup (env_of keyboard_schema False keyboard_markup keyboard) = Some b \<and>
    deserialize_obj 40 keyboard_schema (mkbuf (bytes b @ [1, 2, 3])) = Some (Some obj, b') \<and> bytes b' = [1, 2, 3] \<and>
    repr keyboard_schema (VObj 0x85dd99d1 keyboard) (F_obj (Some obj))"
  using keyboard_schema_ok keyboard_typed keyboard_lookup(1) keyboard_early
  by (rule generated_code_roundtrip) (simp_all add: keyboard_length fits_def del: enc.simps)

section \<open>Where it fails\<close>

text \<open>
  \<^verbatim>\<open>account.updateProfile\<close>.  The pointer to the word of flags is taken before the arguments are
  appended; when the name does not fit into the first block, the block is moved and the flag of the name is set in
  freed memory.
\<close>

definition update_profile :: method_t where
  "update_profile = \<lparr>m_name = Some ''account.updateProfile'', m_id = 0x78515775, m_ret = Some ''User'',
     m_args = [\<lparr>a_name = ''flags'', a_type = None, flagn = 0, flagb = 0\<rparr>,
       \<lparr>a_name = ''first_name'', a_type = Some ''string'', flagn = 1, flagb = 0\<rparr>,
       \<lparr>a_name = ''last_name'', a_type = Some ''string'', flagn = 1, flagb = 1\<rparr>,
       \<lparr>a_name = ''about'', a_type = Some ''string'', flagn = 1, flagb = 2\<rparr>], m_nflags = 1\<rparr>"

lemma w_cat_moves:
  assumes "w_buf st = mkbuf c" and "length c \<le> BUFSIZ" and "BUFSIZ < length c + length xs" and f: "fits (length c + length xs)"
  shows "w_cat st (mkbuf xs) = Some (w_set st (mkbuf (c @ xs)))" "w_gen (w_set st (mkbuf (c @ xs))) = Suc (w_gen st)"
proof -
  show "w_cat st (mkbuf xs) = Some (w_set st (mkbuf (c @ xs)))" using assms by (simp add: w_cat_def)
  have s: "basize (mkbuf ys) = of_nat (max BUFSIZ (length ys))" for ys by (simp add: mkbuf_def Let_def)
  have "(of_nat (length c + length xs) :: u32) \<noteq> of_nat BUFSIZ"
  proof
    assume "(of_nat (length c + length xs) :: u32) = of_nat BUFSIZ"
    then have "unat (of_nat (length c + length xs) :: u32) = unat (of_nat BUFSIZ :: u32)" by simp
    moreover have "unat (of_nat (length c + length xs) :: u32) = length c + length xs" using f by (simp del: of_nat_add)
    moreover have "unat (of_nat BUFSIZ :: u32) = BUFSIZ" by (simp add: BUFSIZ_def)
    ultimately show False using assms(3) by simp
  qed
  moreover have "max BUFSIZ (length (c @ xs)) = length c + length xs" "max BUFSIZ (length c) = BUFSIZ" using assms(2,3) by simp_all
  ultimately show "w_gen (w_set st (mkbuf (c @ xs))) = Suc (w_gen st)"
    using assms(1) by (simp add: w_set_def s del: of_nat_add length_append)
qed

text \<open>
  A name that does not fit into the first block makes the query function write to freed memory.
\<close>

theorem flag_after_realloc:
  assumes "env ''first_name'' = Some (C_buf (mkbuf xs))" and "BUFSIZ < 8 + length (tl_string xs)" and "length xs < 2 ^ 24"
  shows "run_method True update_profile env = None"
proof -
  let ?k = "0x78515775 :: u32"
  let ?st = "\<lparr>w_buf = mkbuf (le_bytes 4 ?k), w_gen = 0, w_flags = []\<rparr>" and ?c = "le_bytes 4 ?k @ le_bytes 4 (0 :: u32)"
  have "written ?k [] [] (\<lambda>n. 0) ?st" by (simp add: written_def)
  from written_flags [where a = "hd (m_args update_profile)" and x = None and j = 1 and env = env, OF this] obtain st where
    st: "exec_stmt env (W_flags 1) ?st = Some st" "w_buf st = mkbuf ?c" "w_flags st = [(0, 4)]" "w_gen st = 0"
    by (auto simp: written_def update_profile_def is_flag_field_def fits_def BUFSIZ_def simp del: exec_stmt.simps)
  have "fits (length ?c + length (tl_string xs))" using assms(3) length_tl_string_bound [of xs] by (simp add: fits_def)
  then have w: "w_cat st (mkbuf (tl_string xs)) = Some (w_set st (mkbuf (?c @ tl_string xs)))"
    "w_gen (w_set st (mkbuf (?c @ tl_string xs))) = 1"
    using w_cat_moves [OF st(2), of "tl_string xs"] assms(2) st(4) by (simp_all add: BUFSIZ_def)
  have "w_flags (w_set st (mkbuf (?c @ tl_string xs))) = [(0, 4)]" using st(3) by (simp add: w_set_def)
  with w(2) have o: "or_flag 1 0 (w_set st (mkbuf (?c @ tl_string xs))) = None" by (simp add: or_flag_def)
  obtain ss where b: "method_body True 0 (m_args update_profile) = W_comment ''flags'' None # W_flags 1 #
      W_comment ''first_name'' (Some ''string'') # W_block (Some ''first_name'') [Cat_str ''first_name'', Or_flag 1 0] # ss"
    by (simp add: update_profile_def is_flag_field_def wact_of_def guard_of_def flag_of_def)
  have "exec_stmts env (method_body True 0 (m_args update_profile)) ?st = None"
    unfolding b using assms st(1) w(1) o by (simp add: truth_def serialize_str_mkbuf del: exec_stmt.simps(2))
  moreover have "m_id update_profile = ?k" by (simp add: update_profile_def)
  ultimately show ?thesis by (simp add: run_method_def)
qed

text \<open>For example a name of 1100 letters.\<close>

theorem flag_after_realloc_witness:
  "run_method True update_profile [''first_name'' \<mapsto> C_buf (mkbuf (replicate 1100 0x41))] = None"
  by (rule flag_after_realloc [of _ "replicate 1100 0x41"]) (simp_all add: BUFSIZ_def length_tl_string)

text \<open>
  \<^verbatim>\<open>messageActionGiftPremium\<close>: the currency and the amount share a flag.  A caller that gives one of them
  sets the flag for both.
\<close>

definition gift_premium :: method_t where
  "gift_premium = \<lparr>m_name = Some ''messageActionGiftPremium'', m_id = 0xc83d6aec, m_ret = Some ''MessageAction'',
     m_args = [\<lparr>a_name = ''flags'', a_type = None, flagn = 0, flagb = 0\<rparr>,
       \<lparr>a_name = ''currency'', a_type = Some ''string'', flagn = 0, flagb = 0\<rparr>,
       \<lparr>a_name = ''amount'', a_type = Some ''long'', flagn = 0, flagb = 0\<rparr>,
       \<lparr>a_name = ''months'', a_type = Some ''int'', flagn = 0, flagb = 0\<rparr>,
       \<lparr>a_name = ''crypto_currency'', a_type = Some ''string'', flagn = 1, flagb = 0\<rparr>,
       \<lparr>a_name = ''crypto_amount'', a_type = Some ''long'', flagn = 1, flagb = 0\<rparr>], m_nflags = 1\<rparr>"

definition gift :: "tlv option list" where
  "gift = [None, Some (VBytes [0x45, 0x55, 0x52]), Some (VLong 5), Some (VInt 3), Some (VBytes [0x54, 0x4f, 0x4e]), None]"

lemma gift_bytes:
  "run_method False gift_premium (env_of S False gift_premium gift) =
     Some (mkbuf (le_bytes 4 (0xc83d6aec :: u32) @ le_bytes 4 (1 :: u32) @ tl_string [0x45, 0x55, 0x52] @
       le_bytes 8 (5 :: u64) @ le_bytes 4 (3 :: u32) @ tl_string [0x54, 0x4f, 0x4e]))"
  by (subst run_method_writes [where vs = gift])
     (simp_all add: gift_premium_def gift_def is_flag_field_def arg_fits_def BUFSIZ_def tl_string_def pad_len_def fits_def)

text \<open>
  When only one of two arguments that share a flag is given, the reader takes what follows the object for
  the other one.
\<close>

theorem shared_flag_misread:
  assumes "fits (100 + length ys)"
  shows "\<exists>b obj b'. run_method False gift_premium (env_of S False gift_premium gift) = Some b \<and>
    deserialize_obj 1 [(False, gift_premium)] (mkbuf (bytes b @ le_bytes 8 z @ ys)) = Some (Some obj, b') \<and> bytes b' = ys \<and>
    map_of (o_fields obj) ''crypto_amount'' = Some (F_ui64 z)"
proof -
  let ?k = "0xc83d6aec :: u32" and ?s1 = "tl_string [0x45, 0x55, 0x52]" and ?s2 = "tl_string [0x54, 0x4f, 0x4e]"
  let ?e = "le_bytes 4 ?k @ le_bytes 4 (1 :: u32) @ ?s1 @ le_bytes 8 (5 :: u64) @ le_bytes 4 (3 :: u32) @ ?s2 @ le_bytes 8 z @ ys"
  have "reads (mkbuf ?e) ?e" using assms by (intro reads_mkbuf) (auto intro: fits_mono simp: tl_string_def pad_len_def)
  note r0 = this
  from reads_ui32 [OF r0] obtain b1 where 1: "deserialize_ui32 (mkbuf ?e) = Some (?k, b1)"
    and r1: "reads b1 (le_bytes 4 (1 :: u32) @ ?s1 @ le_bytes 8 (5 :: u64) @ le_bytes 4 (3 :: u32) @ ?s2 @ le_bytes 8 z @ ys)" by blast
  from reads_ui32 [OF r1] obtain b2 where 2: "deserialize_ui32 b1 = Some (1, b2)"
    and r2: "reads b2 (?s1 @ le_bytes 8 (5 :: u64) @ le_bytes 4 (3 :: u32) @ ?s2 @ le_bytes 8 z @ ys)" by blast
  from reads_bytes [OF r2] obtain b3 where 3: "deserialize_bytes b2 = Some (mkbuf [0x45, 0x55, 0x52], b3)"
    and r3: "reads b3 (le_bytes 8 (5 :: u64) @ le_bytes 4 (3 :: u32) @ ?s2 @ le_bytes 8 z @ ys)" by auto
  from reads_ui64 [OF r3] obtain b4 where 4: "deserialize_ui64 b3 = Some (5, b4)"
    and r4: "reads b4 (le_bytes 4 (3 :: u32) @ ?s2 @ le_bytes 8 z @ ys)" by blast
  from reads_ui32 [OF r4] obtain b5 where 5: "deserialize_ui32 b4 = Some (3, b5)" and r5: "reads b5 (?s2 @ le_bytes 8 z @ ys)" by blast
  from reads_bytes [OF r5] obtain b6 where 6: "deserialize_bytes b5 = Some (mkbuf [0x54, 0x4f, 0x4e], b6)"
    and r6: "reads b6 (le_bytes 8 z @ ys)" by auto
  from reads_ui64 [OF r6] obtain b7 where 7: "deserialize_ui64 b6 = Some (z, b7)" and r7: "reads b7 ys" by blast
  have "\<exists>obj. deserialize_obj 1 [(False, gift_premium)] (mkbuf ?e) = Some (Some obj, b7) \<and>
      map_of (o_fields obj) ''crypto_amount'' = Some (F_ui64 z)"
    using 1 2 3 4 5 6 7 reads_copy [OF r0] reads_load32 [OF r0]
    by (simp add: tl_deserialize_def gift_premium_def run_reader_def is_flag_field_def ract_of_def flag_set_def)
  moreover have "bytes b7 = ys" using r7 by (simp add: reads_def)
  ultimately show ?thesis by (auto simp: gift_bytes fits_def tl_string_def pad_len_def)
qed

theorem shared_flag_misread_witness:
  "\<exists>b obj b'. run_method False gift_premium (env_of [] False gift_premium gift) = Some b \<and>
    deserialize_obj 1 [(False, gift_premium)] (mkbuf (bytes b @ le_bytes 8 (7 :: u64) @ [])) = Some (Some obj, b') \<and> bytes b' = [] \<and>
    map_of (o_fields obj) ''crypto_amount'' = Some (F_ui64 7)"
  by (rule shared_flag_misread) (simp add: fits_def)

end
