(* ===== verification/Base64.thy ===== *)
theory Base64
  imports Buf
begin

text \<open>
  Base64 of \<^verbatim>\<open>libtg/tl/base64.h\<close> and its use on buffers in \<^verbatim>\<open>libtg/tl/buf.c\<close>: file references
  and pictures cross the interface of the library in this form.  A C string is the list of its
  bytes with the terminating zero.
\<close>

section \<open>Tables\<close>

definition encoding_table :: "byte list" where
  "encoding_table = map of_char ''ABCDEFGHIJKLMNOPQRSTUVWXYZabcdefghijklmnopqrstuvwxyz0123456789+/''"

definition mod_table :: "nat list" where
  "mod_table = [0, 2, 1]"

text \<open>The block comes from \<^verbatim>\<open>malloc\<close>: an entry that no character of the alphabet sets is indeterminate.\<close>

definition build_decoding_table :: "byte option list" where
  "build_decoding_table = fold (\<lambda>i t. t[unat (encoding_table ! i) := Some (of_nat i)]) [0..<64] (replicate 256 None)"

section \<open>Encoding\<close>

text \<open>\<^verbatim>\<open>i < input_length ? data[i++] : 0\<close> on what is left of the input.\<close>

fun next_octet :: "byte list \<Rightarrow> u32 \<times> byte list" where
  "next_octet [] = (0, [])"
| "next_octet (x # xs) = (ucast x, xs)"

lemma next_octet_length: "next_octet xs = (v, ys) \<Longrightarrow> length ys \<le> length xs"
  by (cases xs) auto

definition sextet_of :: "u32 \<Rightarrow> nat \<Rightarrow> byte" where
  "sextet_of triple k = encoding_table ! unat (drop_bit (k * 6) triple AND 0x3F)"

text \<open>\<open>out\<close> is the block for the result, \<open>j\<close> the index in it.\<close>

function encode_loop :: "byte list \<Rightarrow> byte list \<Rightarrow> nat \<Rightarrow> byte list option" where
  "encode_loop data out j =
     (if data = [] then Some out
      else let (octet_a, data1) = next_octet data;
               (octet_b, data2) = next_octet data1;
               (octet_c, data3) = next_octet data2;
               triple = push_bit 0x10 octet_a + push_bit 0x08 octet_b + octet_c in
        if j + 3 < length out then
          encode_loop data3
            (out[j := sextet_of triple 3, j + 1 := sextet_of triple 2, j + 2 := sextet_of triple 1, j + 3 := sextet_of triple 0])
            (j + 4)
        else None)"
  by pat_completeness auto
termination
proof (relation "measure (\<lambda>(data, out, j). length data)", goal_cases)
  case (2 data out j x octet_a data1 y octet_b data2 z octet_c data3 triple)
  then show ?case by (cases data) (auto dest!: next_octet_length [OF sym])
qed simp

declare encode_loop.simps [simp del]

fun pad_loop :: "nat \<Rightarrow> byte list \<Rightarrow> nat \<Rightarrow> byte list" where
  "pad_loop 0 out i = out"
| "pad_loop (Suc n) out i = pad_loop n (out[length out - 1 - i := of_char (CHR ''='')]) (Suc i)"

text \<open>The indices are of type \<^verbatim>\<open>int\<close>, the lengths are not.\<close>

definition base64_encode :: "byte list \<Rightarrow> byte list option" where
  "base64_encode data = do {
     let input_length = length data;
     let output_length = 4 * ((input_length + 2) div 3);
     _ \<leftarrow> (if output_length < 2 ^ 31 then Some () else None);
     out \<leftarrow> encode_loop data (replicate output_length 0) 0;
     Some (pad_loop (mod_table ! (input_length mod 3)) out 0)
   }"

section \<open>Decoding\<close>

text \<open>The index is a signed character: a byte of 128 or more is an index before the table.\<close>

definition sextet :: "byte \<Rightarrow> u32 option" where
  "sextet c = (if c = of_char (CHR ''='') then Some 0
     else if c < 128 then map_option ucast (build_decoding_table ! unat c) else None)"

definition put_octet :: "u32 \<Rightarrow> nat \<Rightarrow> byte list \<times> nat \<Rightarrow> byte list \<times> nat" where
  "put_octet triple k = (\<lambda>(out, j). if j < length out then (out[j := ucast (drop_bit (k * 8) triple AND 0xFF)], j + 1) else (out, j))"

fun decode_loop :: "byte list \<Rightarrow> byte list \<times> nat \<Rightarrow> byte list option" where
  "decode_loop (a # b # c # d # data) o' = do {
     sextet_a \<leftarrow> sextet a;
     sextet_b \<leftarrow> sextet b;
     sextet_c \<leftarrow> sextet c;
     sextet_d \<leftarrow> sextet d;
     let triple = push_bit (3 * 6) sextet_a + push_bit (2 * 6) sextet_b + push_bit (1 * 6) sextet_c + push_bit (0 * 6) sextet_d;
     decode_loop data (put_octet triple 0 (put_octet triple 1 (put_octet triple 2 o')))
   }"
| "decode_loop data o' = (if data = [] then Some (fst o') else None)"

text \<open>The input is read from its end before its length is looked at; the inner \<^term>\<open>None\<close> is the null pointer.\<close>

definition base64_decode :: "byte list \<Rightarrow> byte list option option" where
  "base64_decode data =
     (let input_length = length data in
      if input_length mod 4 \<noteq> 0 then Some None
      else if input_length = 0 then None
      else do {
        let output_length = input_length div 4 * 3;
        let output_length = (if data ! (input_length - 1) = of_char (CHR ''='') then output_length - 1 else output_length);
        let output_length = (if data ! (input_length - 2) = of_char (CHR ''='') then output_length - 1 else output_length);
        _ \<leftarrow> (if input_length < 2 ^ 31 then Some () else None);
        out \<leftarrow> decode_loop data (replicate output_length 0, 0);
        Some (Some out)
      })"

section \<open>On buffers\<close>

definition buf_to_base64 :: "buf \<Rightarrow> byte list option option" where
  "buf_to_base64 b =
     (if bsize b < 1 then Some None
      else do {
        data \<leftarrow> mem_read (bblk b) (bdata b) (unat (bsize b));
        s \<leftarrow> base64_encode data;
        Some (if length s > 0 then Some (s @ [0]) else None)
      })"

definition buf_from_base64 :: "byte list option \<Rightarrow> buf option" where
  "buf_from_base64 s =
     (case s of None \<Rightarrow> Some buf_new
      | Some s \<Rightarrow> do {
          _ \<leftarrow> (if 0 \<in> set s then Some () else None);
          data \<leftarrow> base64_decode (takeWhile (\<lambda>c. c \<noteq> 0) s);
          (case data of
             None \<Rightarrow> Some buf_new
           | Some data \<Rightarrow> buf_cat_data buf_new data 0 (of_nat (length data)))
        })"

section \<open>The encoding of RFC 4648\<close>

text \<open>Groups of three bytes are four characters; the last group has one or two characters of padding.\<close>

definition b64 :: "nat \<Rightarrow> byte" where
  "b64 i = encoding_table ! i"

abbreviation padding :: byte where
  "padding \<equiv> of_char (CHR ''='')"

fun rfc4648 :: "byte list \<Rightarrow> byte list" where
  "rfc4648 [] = []"
| "rfc4648 [a] = [b64 (unat a div 4), b64 (unat a mod 4 * 16), padding, padding]"
| "rfc4648 [a, b] = [b64 (unat a div 4), b64 (unat a mod 4 * 16 + unat b div 16), b64 (unat b mod 16 * 4), padding]"
| "rfc4648 (a # b # c # r) =
     [b64 (unat a div 4), b64 (unat a mod 4 * 16 + unat b div 16), b64 (unat b mod 16 * 4 + unat c div 64), b64 (unat c mod 64)] @
     rfc4648 r"

lemma length_rfc4648: "length (rfc4648 xs) = 4 * ((length xs + 2) div 3)"
proof (induction xs rule: rfc4648.induct)
  case (4 a b c r)
  have "(5 + length r) div 3 = Suc (Suc (Suc (length r)) div 3)" by (simp add: div_if)
  with 4 show ?case by simp
qed simp_all

lemma byte_bound: "unat (b :: byte) < 256"
  using unsigned_less [of b] by simp

text \<open>The four characters of a group in the code.\<close>

lemma triple_unat: "unat (push_bit 16 (ucast a) + push_bit 8 (ucast b) + ucast c :: u32) = unat (a :: byte) * 65536 + unat (b :: byte) * 256 + unat (c :: byte)"
  using byte_bound [of a] byte_bound [of b] byte_bound [of c]
  by (simp add: unat_word_ariths push_bit_eq_mult unsigned_ucast_eq take_bit_nat_eq_self)

lemma sextet_of_unat: "sextet_of t k = b64 (unat t div 2 ^ (k * 6) mod 64)"
proof -
  have "drop_bit (k * 6) t AND 0x3F = take_bit 6 (drop_bit (k * 6) t)"
    by (simp add: take_bit_eq_mask mask_eq_exp_minus_1)
  then have "unat (drop_bit (k * 6) t AND 0x3F) = unat t div 2 ^ (k * 6) mod 64"
    by (simp only: unsigned_take_bit_eq unat_drop_bit_eq) (simp add: take_bit_eq_mod drop_bit_eq_div)
  then show ?thesis by (simp add: sextet_of_def b64_def)
qed

lemma sextets_triple:
  fixes a b c :: byte
  defines "t \<equiv> push_bit 16 (ucast a) + push_bit 8 (ucast b) + ucast c :: u32"
  shows "sextet_of t 3 = b64 (unat a div 4)" "sextet_of t 2 = b64 (unat a mod 4 * 16 + unat b div 16)"
    "sextet_of t 1 = b64 (unat b mod 16 * 4 + unat c div 64)" "sextet_of t 0 = b64 (unat c mod 64)"
proof -
  define qa ra qb rb qc rc where d: "qa = unat a div 4" "ra = unat a mod 4" "qb = unat b div 16" "rb = unat b mod 16"
    "qc = unat c div 64" "rc = unat c mod 64"
  have e: "unat a = 4 * qa + ra" "unat b = 16 * qb + rb" "unat c = 64 * qc + rc" by (simp_all add: d)
  have b: "qa < 64" "ra < 4" "qb < 16" "rb < 16" "qc < 4" "rc < 64"
    using byte_bound [of a] byte_bound [of b] byte_bound [of c] by (simp_all add: d less_mult_imp_div_less)
  let ?n = "unat a * 65536 + unat b * 256 + unat c"
  have "?n div 262144 = qa" unfolding e add_mult_distrib using b by (intro div_nat_eqI) simp_all
  moreover have "?n div 4096 = qa * 64 + (ra * 16 + qb)" unfolding e add_mult_distrib using b by (intro div_nat_eqI) simp_all
  moreover have "?n div 64 mod 64 = rb * 4 + qc"
  proof -
    have "?n div 64 = rb * 4 + qc + 64 * (qa * 64 + (ra * 16 + qb))"
      unfolding e add_mult_distrib using b by (intro div_nat_eqI) simp_all
    then show ?thesis using b by (simp only: mod_mult_self2) simp
  qed
  moreover have "?n mod 64 = rc"
  proof -
    have "?n = unat c + 64 * (unat a * 1024 + unat b * 4)" by simp
    then show ?thesis unfolding d by (simp only: mod_mult_self2)
  qed
  ultimately have n: "?n div 262144 mod 64 = unat a div 4"
    "?n div 4096 mod 64 = unat a mod 4 * 16 + unat b div 16"
    "?n div 64 mod 64 = unat b mod 16 * 4 + unat c div 64"
    "?n mod 64 = unat c mod 64"
    using b by (simp_all flip: d)
  have p: "(2 :: nat) ^ (3 * 6) = 262144" "(2 :: nat) ^ (2 * 6) = 4096" "(2 :: nat) ^ (1 * 6) = 64" "(2 :: nat) ^ (0 * 6) = 1"
    by simp_all
  show "sextet_of t 3 = b64 (unat a div 4)" "sextet_of t 2 = b64 (unat a mod 4 * 16 + unat b div 16)"
    "sextet_of t 1 = b64 (unat b mod 16 * 4 + unat c div 64)" "sextet_of t 0 = b64 (unat c mod 64)"
    unfolding sextet_of_unat t_def triple_unat p div_by_1 n by (rule refl)+
qed

text \<open>The loop writes the groups, the zeros of an incomplete one included.\<close>

fun groups :: "byte list \<Rightarrow> byte list" where
  "groups [] = []"
| "groups [a] = [b64 (unat a div 4), b64 (unat a mod 4 * 16), b64 0, b64 0]"
| "groups [a, b] = [b64 (unat a div 4), b64 (unat a mod 4 * 16 + unat b div 16), b64 (unat b mod 16 * 4), b64 0]"
| "groups (a # b # c # r) =
     [b64 (unat a div 4), b64 (unat a mod 4 * 16 + unat b div 16), b64 (unat b mod 16 * 4 + unat c div 64), b64 (unat c mod 64)] @
     groups r"

lemma length_groups: "length (groups xs) = length (rfc4648 xs)"
  by (induction xs rule: groups.induct) simp_all

lemma store4:
  assumes "j + 3 < length out"
  shows "out[j := w, j + 1 := x, j + 2 := y, j + 3 := z] = take j out @ [w, x, y, z] @ drop (j + 4) out"
  using assms by (intro nth_equalityI) (auto simp: nth_append nth_list_update nth_Cons' less_Suc_eq)

lemma encode_step:
  assumes "xs \<noteq> []" and "next_octet xs = (ucast (a :: byte), xs1)" "next_octet xs1 = (ucast (b :: byte), xs2)" "next_octet xs2 = (ucast (c :: byte), xs3)"
    and "j + 3 < length out"
  shows "encode_loop xs out j = encode_loop xs3 (take j out @ [b64 (unat a div 4), b64 (unat a mod 4 * 16 + unat b div 16),
     b64 (unat b mod 16 * 4 + unat c div 64), b64 (unat c mod 64)] @ drop (j + 4) out) (j + 4)"
  using assms sextets_triple [of a b c] store4 [OF assms(5)] by (subst encode_loop.simps) simp

lemma encode_loop_eq:
  "j + length (groups xs) \<le> length out \<Longrightarrow>
   encode_loop xs out j = Some (take j out @ groups xs @ drop (j + length (groups xs)) out)"
proof (induction xs arbitrary: out j rule: groups.induct)
  case 1
  then show ?case by (simp add: encode_loop.simps)
next
  case (2 a)
  have l: "length (groups [a]) = 4" by simp
  show ?case
    unfolding l using 2 l by (subst encode_step [of _ a "[]" 0 "[]" 0 "[]"]) (simp_all add: encode_loop.simps [of "[]"])
next
  case (3 a b)
  have l: "length (groups [a, b]) = 4" by simp
  show ?case
    unfolding l using 3 l by (subst encode_step [of _ a "[b]" b "[]" 0 "[]"]) (simp_all add: encode_loop.simps [of "[]"])
next
  case (4 a b c r)
  have l: "length (groups (a # b # c # r)) = 4 + length (groups r)" by simp
  show ?case
    unfolding l using 4 by (subst encode_step [of _ a "b # c # r" b "c # r" c r]) (simp_all add: "4.IH" drop_append [of "4 + _" "[_, _, _, _]", simplified], simp add: ac_simps)
qed

lemma pad_loop_append: "n + i \<le> length zs \<Longrightarrow> pad_loop n (ys @ zs) i = ys @ pad_loop n zs i"
proof (induction n arbitrary: zs i)
  case (Suc n)
  have "length (ys @ zs) - 1 - i = length ys + (length zs - 1 - i)" using Suc.prems by simp
  then have e: "(ys @ zs)[length (ys @ zs) - 1 - i := padding] = ys @ zs[length zs - 1 - i := padding]"
    by (simp only: list_update_append) simp
  show ?case unfolding pad_loop.simps e by (rule Suc.IH) (use Suc.prems in simp)
qed simp

lemma encode_eq: "length (rfc4648 xs) < 2 ^ 31 \<Longrightarrow> base64_encode xs = Some (rfc4648 xs)"
proof -
  have "4 * ((length xs + 2) div 3) = length (groups xs)" by (simp add: length_groups length_rfc4648)
  moreover have "pad_loop (mod_table ! (length xs mod 3)) (groups xs) 0 = rfc4648 xs"
  proof (induction xs rule: groups.induct)
    case (4 a b c r)
    show ?case
    proof (cases "r = []")
      case False
      have "mod_table ! (length r mod 3) \<le> 4" by (cases "length r mod 3" rule: nat.exhaust) (auto simp: mod_table_def nth_Cons')
      moreover have "4 \<le> length (groups r)" using False by (cases r rule: groups.cases) simp_all
      ultimately show ?thesis
        using 4 pad_loop_append [of "mod_table ! (length r mod 3)" 0 "groups r" "take 4 (groups (a # b # c # r))"] by simp
    qed (simp add: mod_table_def)
  qed (simp_all add: mod_table_def numeral_2_eq_2)
  moreover assume "length (rfc4648 xs) < 2 ^ 31"
  ultimately show ?thesis by (simp add: base64_encode_def encode_loop_eq length_groups)
qed

text \<open>Back again.\<close>

lemma fold_update_nth:
  "distinct (map f is) \<Longrightarrow> i \<in> set is \<Longrightarrow> (\<forall>j \<in> set is. f j < length t) \<Longrightarrow> fold (\<lambda>i t. t[f i := g i]) is t ! f i = g i"
proof (induction "is" arbitrary: t)
  case (Cons k ks)
  have keep: "f k \<notin> f ` set js \<Longrightarrow> fold (\<lambda>i t. t[f i := g i]) js t ! f k = t ! f k" for js and t
    by (induction js arbitrary: t) auto
  from Cons show ?case
    by (cases "i = k") (auto simp: keep)
qed simp

lemma encoding_table_facts: "distinct encoding_table" "length encoding_table = 64" "\<forall>c \<in> set encoding_table. c \<noteq> padding \<and> c \<noteq> 0 \<and> c < 128"
  by code_simp+

lemma encoding_table_ok:
  assumes "i < 64"
  shows "sextet (b64 i) = Some (of_nat i)" "b64 i \<noteq> padding" "b64 i \<noteq> 0"
proof -
  have m: "b64 i \<in> set encoding_table" using assms encoding_table_facts(2) by (simp add: b64_def)
  then show "b64 i \<noteq> padding" "b64 i \<noteq> 0" using encoding_table_facts(3) by auto
  have d: "distinct (map (\<lambda>i. unat (encoding_table ! i)) [0..<64])"
    using encoding_table_facts(1,2) by (auto simp: distinct_map inj_on_def nth_eq_iff_index_eq simp flip: word_unat_eq_iff)
  have "build_decoding_table ! unat (b64 i) = Some (of_nat i)"
    unfolding build_decoding_table_def b64_def
    using fold_update_nth [OF d, of i "replicate 256 None" "\<lambda>i. Some (of_nat i)"] assms byte_bound by simp
  moreover have "ucast (of_nat i :: byte) = (of_nat i :: u32)" using assms by (simp add: word_unat_eq_iff unsigned_ucast_eq unat_of_nat take_bit_nat_eq_self)
  ultimately show "sextet (b64 i) = Some (of_nat i)"
    using m encoding_table_facts(3) by (auto simp: sextet_def)
qed

lemma sextet_padding [simp]: "sextet 61 = Some 0"
  by (simp add: sextet_def)

text \<open>The bytes of a group from its sextets.\<close>

lemma octets_triple:
  fixes a b c :: byte
  defines "t \<equiv> push_bit 18 (of_nat (unat a div 4)) + push_bit 12 (of_nat (unat a mod 4 * 16 + unat b div 16)) +
    push_bit 6 (of_nat (unat b mod 16 * 4 + unat c div 64)) + (of_nat (unat c mod 64) :: u32)"
  shows "ucast (drop_bit 16 t AND 0xFF) = a" "ucast (drop_bit 8 t AND 0xFF) = b" "ucast (t AND 0xFF) = c"
proof -
  note b = byte_bound [of a] byte_bound [of b] byte_bound [of c]
  let ?n = "unat a * 65536 + unat b * 256 + unat c"
  have "unat a div 4 * 262144 + (unat a mod 4 * 16 + unat b div 16) * 4096 + (unat b mod 16 * 4 + unat c div 64) * 64 + unat c mod 64 = ?n"
    using div_mult_mod_eq [of "unat a" 4] div_mult_mod_eq [of "unat b" 16] div_mult_mod_eq [of "unat c" 64] unfolding add_mult_distrib by linarith
  moreover have "unat t = unat a div 4 * 262144 + (unat a mod 4 * 16 + unat b div 16) * 4096 + (unat b mod 16 * 4 + unat c div 64) * 64 + unat c mod 64"
    unfolding t_def using b by (simp add: unat_word_ariths push_bit_eq_mult unat_of_nat less_mult_imp_div_less)
  ultimately have t: "unat t = ?n" by simp
  have u: "unat (ucast (drop_bit j t AND 0xFF) :: byte) = unat t div 2 ^ j mod 256" for j
  proof -
    have "drop_bit j t AND 0xFF = take_bit 8 (drop_bit j t)" by (simp add: take_bit_eq_mask mask_eq_exp_minus_1)
    then have "unat (ucast (drop_bit j t AND 0xFF) :: byte) = take_bit 8 (drop_bit j (unat t))"
      by (simp only: unsigned_ucast_eq unsigned_take_bit_eq unat_drop_bit_eq) simp
    then show ?thesis by (simp add: take_bit_eq_mod drop_bit_eq_div)
  qed
  have "?n div 65536 = unat a" "?n div 256 = unat b + 256 * unat a"
    using b by (simp_all add: div_nat_eqI)
  then show "ucast (drop_bit 16 t AND 0xFF) = a" "ucast (drop_bit 8 t AND 0xFF) = b"
    using u [of 16] u [of 8] b by (simp_all add: word_unat_eq_iff t)
  have "?n = unat c + 256 * (unat a * 256 + unat b)" by simp
  then have "?n mod 256 = unat c" using b by (simp only: mod_mult_self2) simp
  then show "ucast (t AND 0xFF) = c" using u [of 0] by (simp add: word_unat_eq_iff t)
qed

text \<open>Decoding the encoding writes the bytes, as far as the block for the result goes.\<close>

lemma put_octet_eq:
  "put_octet t k (out, j) = (if j < length out then (out[j := ucast (drop_bit (k * 8) t AND 0xFF)], j + 1) else (out, j))"
  by (simp add: put_octet_def)

lemma sextets_ok:
  fixes a b c :: byte
  shows "sextet (b64 (unat a div 4)) = Some (of_nat (unat a div 4))"
    "sextet (b64 (unat a mod 4 * 16)) = Some (of_nat (unat a mod 4 * 16))"
    "sextet (b64 (unat a mod 4 * 16 + unat b div 16)) = Some (of_nat (unat a mod 4 * 16 + unat b div 16))"
    "sextet (b64 (unat b mod 16 * 4)) = Some (of_nat (unat b mod 16 * 4))"
    "sextet (b64 (unat b mod 16 * 4 + unat c div 64)) = Some (of_nat (unat b mod 16 * 4 + unat c div 64))"
    "sextet (b64 (unat c mod 64)) = Some (of_nat (unat c mod 64))"
proof -
  have "unat a div 4 < 64" "unat a mod 4 < 4" "unat b div 16 < 16" "unat b mod 16 < 16" "unat c div 64 < 4" "unat c mod 64 < 64"
    using byte_bound [of a] byte_bound [of b] byte_bound [of c] by (simp_all add: less_mult_imp_div_less)
  then show "sextet (b64 (unat a div 4)) = Some (of_nat (unat a div 4))"
    "sextet (b64 (unat a mod 4 * 16)) = Some (of_nat (unat a mod 4 * 16))"
    "sextet (b64 (unat a mod 4 * 16 + unat b div 16)) = Some (of_nat (unat a mod 4 * 16 + unat b div 16))"
    "sextet (b64 (unat b mod 16 * 4)) = Some (of_nat (unat b mod 16 * 4))"
    "sextet (b64 (unat b mod 16 * 4 + unat c div 64)) = Some (of_nat (unat b mod 16 * 4 + unat c div 64))"
    "sextet (b64 (unat c mod 64)) = Some (of_nat (unat c mod 64))"
    by (intro encoding_table_ok(1); simp)+
qed

lemma decode_loop_eq: "length out = j + length xs \<Longrightarrow> decode_loop (rfc4648 xs) (out, j) = Some (take j out @ xs)"
proof (induction xs arbitrary: out j rule: rfc4648.induct)
  case (2 a)
  then have "out[j := a] = take j out @ [a]"
    by (intro nth_equalityI) (auto simp: nth_append nth_list_update less_Suc_eq)
  with 2 show ?case
    using sextets_ok(1,2) octets_triple [of a 0 0] by (simp add: put_octet_eq)
next
  case (3 a b)
  then have "out[j := a, j + 1 := b] = take j out @ [a, b]"
    by (intro nth_equalityI) (auto simp: nth_append nth_list_update nth_Cons' less_Suc_eq)
  with 3 show ?case
    using sextets_ok(1,3,4) octets_triple [of a b 0] by (simp add: put_octet_eq)
next
  case (4 a b c r)
  let ?out = "out[j := a, j + 1 := b, j + 2 := c]"
  have "decode_loop (rfc4648 (a # b # c # r)) (out, j) = decode_loop (rfc4648 r) (?out, Suc (Suc (Suc j)))"
    using 4 sextets_ok octets_triple [of a b c] by (simp add: put_octet_eq)
  also have "\<dots> = Some (take (Suc (Suc (Suc j))) ?out @ r)"
    using 4 by (intro "4.IH") simp
  also have "take (Suc (Suc (Suc j))) ?out = take j out @ [a, b, c]"
    using "4.prems" by (intro nth_equalityI) (auto simp: nth_append nth_list_update nth_Cons' less_Suc_eq nth_list_update_eq [OF Suc_le_lessD])
  finally show ?case by simp
qed simp

lemma rfc4648_end:
  assumes "xs \<noteq> []"
  shows "rfc4648 xs ! (length (rfc4648 xs) - 1) = padding \<longleftrightarrow> length xs mod 3 \<noteq> 0"
    "rfc4648 xs ! (length (rfc4648 xs) - 2) = padding \<longleftrightarrow> length xs mod 3 = 1"
  using assms
proof (induction xs rule: rfc4648.induct)
  case (2 a)
  { case 1 show ?case by simp }
  { case 2 show ?case by simp }
next
  case (3 a b)
  have "b64 (unat b mod 16 * 4) \<noteq> padding" by (rule encoding_table_ok(2)) (simp add: less_mult_imp_div_less)
  { case 1 show ?case by simp }
  { case 2 show ?case using \<open>b64 (unat b mod 16 * 4) \<noteq> padding\<close> by simp }
next
  case (4 a b c r)
  have "unat b mod 16 < 16" "unat c div 64 < 4" using byte_bound [of c] by (simp_all add: less_mult_imp_div_less)
  then have n: "b64 (unat c mod 64) \<noteq> padding" "b64 (unat b mod 16 * 4 + unat c div 64) \<noteq> padding"
    by (intro encoding_table_ok(2); simp)+
  have l: "4 \<le> length (rfc4648 r)" if "r \<noteq> []" using that by (cases r rule: rfc4648.cases) simp_all
  have k: "rfc4648 (a # b # c # r) ! (length (rfc4648 (a # b # c # r)) - i) = rfc4648 r ! (length (rfc4648 r) - i)"
    if "r \<noteq> []" "i \<in> {1, 2}" for i
  proof -
    have "length (rfc4648 (a # b # c # r)) - i = 4 + (length (rfc4648 r) - i)" using l that by auto
    then show ?thesis by simp
  qed
  { case 1 show ?case using n k [of 1] 4 by (cases "r = []") simp_all }
  { case 2 show ?case using n k [of 2] 4 by (cases "r = []") simp_all }
qed simp_all

lemma decode_rfc4648:
  assumes "xs \<noteq> []" and "length (rfc4648 xs) < 2 ^ 31"
  shows "base64_decode (rfc4648 xs) = Some (Some xs)"
proof -
  let ?n = "length (rfc4648 xs)"
  have m: "?n mod 4 = 0" "?n \<noteq> 0" using assms by (simp_all add: length_rfc4648 div_if)
  have "(length xs + 2) div 3 * 3 = length xs + (if length xs mod 3 = 0 then 0 else 3 - length xs mod 3)"
    by presburger
  then have "?n div 4 * 3 - (if length xs mod 3 \<noteq> 0 then 1 else 0) - (if length xs mod 3 = 1 then 1 else 0) = length xs"
    by (auto simp: length_rfc4648)
  then show ?thesis
    using m assms(2) rfc4648_end [OF assms(1)] decode_loop_eq [of "replicate (length xs) 0" 0 xs]
    by (auto simp: base64_decode_def Let_def split: if_splits)
qed

section \<open>Properties\<close>

text \<open>The encoder produces the encoding of RFC 4648, and never writes outside its block.\<close>

theorem base64_is_rfc4648: "length xs < 2 ^ 30 \<Longrightarrow> base64_encode xs = Some (rfc4648 xs)"
  by (rule encode_eq) (simp add: length_rfc4648)

text \<open>``Man'' of the RFC's illustration, and the two kinds of padding.\<close>

theorem base64_is_rfc4648_witness: "base64_encode (map of_char ''Many'') = Some (map of_char ''TWFueQ=='')"
  by (subst base64_is_rfc4648) (simp, code_simp)

lemma rfc4648_nonzero: "0 \<notin> set (rfc4648 xs)"
proof -
  have p: "padding \<noteq> 0" by simp
  have m: "x \<in> set encoding_table \<union> {padding}" if "x \<in> set (rfc4648 xs)" for x
    using that
  proof (induction xs rule: rfc4648.induct)
    case (2 a)
    then show ?case using byte_bound [of a] encoding_table_facts(2) by (auto simp: b64_def less_mult_imp_div_less intro!: nth_mem)
  next
    case (3 a b)
    then show ?case using byte_bound [of a] byte_bound [of b] encoding_table_facts(2) by (auto simp: b64_def less_mult_imp_div_less intro!: nth_mem)
  next
    case (4 a b c r)
    have "unat b mod 16 < 16" "unat c div 64 < 4" using byte_bound [of c] by (simp_all add: less_mult_imp_div_less)
    with 4 show ?case using byte_bound [of a] byte_bound [of b] encoding_table_facts(2) by (auto simp: b64_def less_mult_imp_div_less intro!: nth_mem)
  qed simp
  show ?thesis
  proof
    assume "0 \<in> set (rfc4648 xs)"
    from m [OF this] show False using p encoding_table_facts(3) by auto
  qed
qed

text \<open>
  A file reference or a picture survives the text form: reading the text that was
  written for a buffer that is not empty gives the bytes of that buffer.
\<close>

theorem base64_roundtrip:
  assumes "readable b" and "bsize b \<noteq> 0" "unat (bsize b) < 2 ^ 30"
  shows "\<exists>s. buf_to_base64 b = Some (Some s) \<and> buf_from_base64 (Some s) = Some (mkbuf (bytes b))"
proof -
  have l: "length (bytes b) = unat (bsize b)" using assms(1) by simp
  have r: "mem_read (bblk b) (bdata b) (unat (bsize b)) = Some (bytes b)"
    using assms(1) by (simp add: mem_read_def readable_def bytes_def)
  have n: "bytes b \<noteq> []" "length (rfc4648 (bytes b)) < 2 ^ 31"
    using l assms(2,3) by (auto simp: length_rfc4648 unat_eq_zero)
  then have "rfc4648 (bytes b) \<noteq> []" by (cases "bytes b" rule: rfc4648.cases) simp_all
  with r n assms(2) have "buf_to_base64 b = Some (Some (rfc4648 (bytes b) @ [0]))"
    by (simp add: buf_to_base64_def encode_eq word_less_nat_alt unat_gt_0)
  moreover have "takeWhile (\<lambda>c. c \<noteq> 0) (rfc4648 (bytes b) @ [0]) = rfc4648 (bytes b)"
    using rfc4648_nonzero [of "bytes b"] by (auto simp: takeWhile_append)
  then have "buf_from_base64 (Some (rfc4648 (bytes b) @ [0])) = Some (mkbuf (bytes b))"
    using decode_rfc4648 [OF n] l assms(3) by (simp add: buf_from_base64_def fits_def)
  ultimately show ?thesis by blast
qed

theorem base64_roundtrip_witness:
  "\<exists>s. buf_to_base64 (mkbuf [1, 2, 255, 0]) = Some (Some s) \<and> buf_from_base64 (Some s) = Some (mkbuf [1, 2, 255, 0])"
  using base64_roundtrip [of "mkbuf [1, 2, 255, 0]"] by (simp add: fits_def)

text \<open>An empty string is read one byte before its beginning: the test for padding comes before any test for length.\<close>

theorem base64_empty_undefined: "buf_from_base64 (Some [0]) = None"
  by (simp add: buf_from_base64_def base64_decode_def)

end
