(* ===== verification/Images.thy ===== *)
theory Images
  imports Tl_Object
begin

text \<open>
  The dynamic string of \<^verbatim>\<open>libtg/tl/str.h\<close> and the pictures of \<^verbatim>\<open>libtg/tg/images.c\<close>: a stripped
  photo gets back the JPEG header it was sent without, an outline becomes an SVG file.
\<close>

section \<open>The dynamic string\<close>

text \<open>\<^verbatim>\<open>struct str\<close>; bytes that nobody has written are zeros here, they lie behind the terminating zero.\<close>

record str =
  st_str :: "byte list"
  st_len :: int
  st_size :: int

definition str_init :: str where
  "str_init = \<lparr>st_str = replicate BUFSIZ 0, st_len = 0, st_size = int BUFSIZ\<rparr>"

function str_realloc :: "str \<Rightarrow> int \<Rightarrow> str" where
  "str_realloc s new_size =
     (if st_size s < new_size
      then str_realloc (s\<lparr>st_str := st_str s @ replicate BUFSIZ 0, st_size := st_size s + int BUFSIZ\<rparr>) new_size
      else s)"
  by pat_completeness auto
termination
  by (relation "measure (\<lambda>(s, new_size). nat (new_size - st_size s))") (auto simp: BUFSIZ_def)

declare str_realloc.simps [simp del]

text \<open>\<open>m\<close> is what \<^verbatim>\<open>str\<close> points to; the sizes are of type \<^verbatim>\<open>int\<close>.\<close>

definition str_append :: "str \<Rightarrow> byte list \<Rightarrow> int \<Rightarrow> str option" where
  "str_append s m len =
     (if len < 1 then Some s
      else if \<not> st_len s + len + 1 < 2 ^ 31 then None
      else do {
        let s = str_realloc s (st_len s + len + 1);
        blk \<leftarrow> copy_loop (nat len) (st_str s) (nat (st_len s)) m 0;
        if nat (st_len s + len) < length blk
        then Some (s\<lparr>st_str := blk[nat (st_len s + len) := 0], st_len := st_len s + len\<rparr>)
        else None
      })"

text \<open>\<^verbatim>\<open>str_appendf\<close> with a formatted text: it goes through an array of \<^verbatim>\<open>BUFSIZ\<close> characters.\<close>

definition str_appendf :: "str \<Rightarrow> string \<Rightarrow> str option" where
  "str_appendf s t = (let t = takeWhile (\<lambda>c. c \<noteq> CHR 0x00) (take (BUFSIZ - 2) t) in str_append s (str_bytes t @ [0]) (int (length t)))"

section \<open>Pictures\<close>

definition photo_header :: "byte list" where
  "photo_header = [
     255, 216, 255, 224, 0, 16, 74, 70, 73, 70, 0, 1, 1, 0, 0, 1, 0, 1, 0, 0, 255, 219, 0, 67,
     0, 40, 28, 30, 35, 30, 25, 40, 35, 33, 35, 45, 43, 40, 48, 60, 100, 65, 60, 55, 55, 60, 123, 88,
     93, 73, 100, 145, 128, 153, 150, 143, 128, 140, 138, 160, 180, 230, 195, 160, 170, 218, 173, 138, 140, 200, 255, 203,
     218, 238, 245, 255, 255, 255, 155, 193, 255, 255, 255, 250, 255, 230, 253, 255, 248, 255, 219, 0, 67, 1, 43, 45,
     45, 60, 53, 60, 118, 65, 65, 118, 248, 165, 140, 165, 248, 248, 248, 248, 248, 248, 248, 248, 248, 248, 248, 248,
     248, 248, 248, 248, 248, 248, 248, 248, 248, 248, 248, 248, 248, 248, 248, 248, 248, 248, 248, 248, 248, 248, 248, 248,
     248, 248, 248, 248, 248, 248, 248, 248, 248, 248, 248, 248, 248, 248, 255, 192, 0, 17, 8, 0, 0, 0, 0, 3,
     1, 34, 0, 2, 17, 1, 3, 17, 1, 255, 196, 0, 31, 0, 0, 1, 5, 1, 1, 1, 1, 1, 1, 0,
     0, 0, 0, 0, 0, 0, 0, 1, 2, 3, 4, 5, 6, 7, 8, 9, 10, 11, 255, 196, 0, 181, 16, 0,
     2, 1, 3, 3, 2, 4, 3, 5, 5, 4, 4, 0, 0, 1, 125, 1, 2, 3, 0, 4, 17, 5, 18, 33,
     49, 65, 6, 19, 81, 97, 7, 34, 113, 20, 50, 129, 145, 161, 8, 35, 66, 177, 193, 21, 82, 209, 240, 36,
     51, 98, 114, 130, 9, 10, 22, 23, 24, 25, 26, 37, 38, 39, 40, 41, 42, 52, 53, 54, 55, 56, 57, 58,
     67, 68, 69, 70, 71, 72, 73, 74, 83, 84, 85, 86, 87, 88, 89, 90, 99, 100, 101, 102, 103, 104, 105, 106,
     115, 116, 117, 118, 119, 120, 121, 122, 131, 132, 133, 134, 135, 136, 137, 138, 146, 147, 148, 149, 150, 151, 152, 153,
     154, 162, 163, 164, 165, 166, 167, 168, 169, 170, 178, 179, 180, 181, 182, 183, 184, 185, 186, 194, 195, 196, 197, 198,
     199, 200, 201, 202, 210, 211, 212, 213, 214, 215, 216, 217, 218, 225, 226, 227, 228, 229, 230, 231, 232, 233, 234, 241,
     242, 243, 244, 245, 246, 247, 248, 249, 250, 255, 196, 0, 31, 1, 0, 3, 1, 1, 1, 1, 1, 1, 1, 1,
     1, 0, 0, 0, 0, 0, 0, 1, 2, 3, 4, 5, 6, 7, 8, 9, 10, 11, 255, 196, 0, 181, 17, 0,
     2, 1, 2, 4, 4, 3, 4, 7, 5, 4, 4, 0, 1, 2, 119, 0, 1, 2, 3, 17, 4, 5, 33, 49,
     6, 18, 65, 81, 7, 97, 113, 19, 34, 50, 129, 8, 20, 66, 145, 161, 177, 193, 9, 35, 51, 82, 240, 21,
     98, 114, 209, 10, 22, 36, 52, 225, 37, 241, 23, 24, 25, 26, 38, 39, 40, 41, 42, 53, 54, 55, 56, 57,
     58, 67, 68, 69, 70, 71, 72, 73, 74, 83, 84, 85, 86, 87, 88, 89, 90, 99, 100, 101, 102, 103, 104, 105,
     106, 115, 116, 117, 118, 119, 120, 121, 122, 130, 131, 132, 133, 134, 135, 136, 137, 138, 146, 147, 148, 149, 150, 151,
     152, 153, 154, 162, 163, 164, 165, 166, 167, 168, 169, 170, 178, 179, 180, 181, 182, 183, 184, 185, 186, 194, 195, 196,
     197, 198, 199, 200, 201, 202, 210, 211, 212, 213, 214, 215, 216, 217, 218, 226, 227, 228, 229, 230, 231, 232, 233, 234,
     242, 243, 244, 245, 246, 247, 248, 249, 250, 255, 218, 0, 12, 3, 1, 0, 2, 17, 3, 17, 0, 63, 0]"

definition photo_footer :: "byte list" where
  "photo_footer = [255, 217]"

definition image_from_photo_stripped :: "buf \<Rightarrow> buf option" where
  "image_from_photo_stripped bs =
     (if bsize bs < 3 then Some buf_new
      else do {
        b0 \<leftarrow> mem_read (bblk bs) (bdata bs) 1;
        if b0 \<noteq> [1] then Some buf_new
        else do {
          buf \<leftarrow> buf_cat_data buf_new photo_header 0 (of_nat (length photo_header));
          blk \<leftarrow> copy_loop 1 (bblk buf) (bdata buf + 164) (bblk bs) (bdata bs + 1);
          blk \<leftarrow> copy_loop 1 blk (bdata buf + 166) (bblk bs) (bdata bs + 2);
          let buf = buf\<lparr>bblk := blk\<rparr>;
          buf \<leftarrow> buf_cat_data buf (bblk bs) (bdata bs + 3) (bsize bs - 3);
          buf_cat_data buf photo_footer 0 (of_nat (length photo_footer))
        }
      })"

definition svg_lookup :: string where
  "svg_lookup = ''AACAAAAHAAALMAAAQASTAVAAAZaacaaaahaaalmaaaqastava.az0123456789-,''"

definition svg_head :: string where
  "svg_head = ''<?xml version=\"1.0\" encoding=\"utf-8\"?>'' @ [CHR 0x0A] @
     ''<svg version=\"1.1\" xmlns=\"http://www.w3.org/2000/svg\" xmlns:xlink=\"http://www.w3.org/1999/xlink\"'' @ [CHR 0x0A] @
     ''viewBox=\"0 0 512 512\" xml:space=\"preserve\">'' @ [CHR 0x0A] @ ''<path d=\"''"

fun svg_loop :: "str \<Rightarrow> byte list \<Rightarrow> str option" where
  "svg_loop svg [] = Some svg"
| "svg_loop svg (num # encoded) = do {
     svg \<leftarrow>
       (if 192 \<le> num then str_append svg (drop (unat num - 192) (str_bytes svg_lookup @ [0])) 1
        else do {
          svg \<leftarrow> (if 128 \<le> num then str_append svg (str_bytes '','') 1
                  else if 64 \<le> num then str_append svg (str_bytes ''-'') 1
                  else Some svg);
          str_append svg [num AND 63] 1
        });
     svg_loop svg encoded
   }"

definition image_from_svg_path :: "buf \<Rightarrow> byte list option" where
  "image_from_svg_path encoded = do {
     let svg = str_init;
     svg \<leftarrow> str_appendf svg svg_head;
     svg \<leftarrow> str_appendf svg ''M'';
     data \<leftarrow> mem_read (bblk encoded) (bdata encoded) (nat (sint (bsize encoded)));
     svg \<leftarrow> svg_loop svg data;
     svg \<leftarrow> str_append svg (str_bytes ''z'') 1;
     svg \<leftarrow> str_appendf svg (''\"/>'' @ [CHR 0x0A]);
     svg \<leftarrow> str_appendf svg (''</svg>'' @ [CHR 0x0A]);
     Some (take (nat (st_len svg)) (st_str svg))
   }"

section \<open>What a string holds\<close>

text \<open>The struct is consistent: the block has the size it says, holds \<open>xs\<close> and a zero behind it.\<close>

definition str_holds :: "str \<Rightarrow> byte list \<Rightarrow> bool" where
  "str_holds s xs \<longleftrightarrow> int (length (st_str s)) = st_size s \<and> st_len s = int (length xs) \<and> length xs < length (st_str s) \<and>
     take (length xs) (st_str s) = xs \<and> st_str s ! length xs = 0"

lemma holds_init: "str_holds str_init []"
  by (simp add: str_holds_def str_init_def BUFSIZ_def)

lemma str_realloc_grows:
  "int (length (st_str s)) = st_size s \<Longrightarrow> \<exists>k. str_realloc s n =
     s\<lparr>st_str := st_str s @ replicate k 0, st_size := st_size s + int k\<rparr> \<and> n \<le> st_size s + int k"
proof (induction s n rule: str_realloc.induct)
  case (1 s n)
  show ?case
  proof (cases "st_size s < n")
    case True
    let ?s = "s\<lparr>st_str := st_str s @ replicate BUFSIZ 0, st_size := st_size s + int BUFSIZ\<rparr>"
    obtain k where "str_realloc ?s n = ?s\<lparr>st_str := st_str ?s @ replicate k 0, st_size := st_size ?s + int k\<rparr>"
        "n \<le> st_size ?s + int k"
      using 1 True by auto
    with True show ?thesis
      by (intro exI [of _ "BUFSIZ + k"]) (simp add: str_realloc.simps [of s] replicate_add)
  next
    case False
    then show ?thesis by (intro exI [of _ 0]) (simp add: str_realloc.simps)
  qed
qed

lemma str_append_holds:
  assumes "str_holds s xs" and "n \<le> length m" and "length xs + n + 1 < 2 ^ 31"
  shows "\<exists>s'. str_append s m (int n) = Some s' \<and> str_holds s' (xs @ take n m)"
proof (cases "n = 0")
  case True
  with assms(1) show ?thesis by (simp add: str_append_def)
next
  case False
  have h: "int (length (st_str s)) = st_size s" "st_len s = int (length xs)" "length xs < length (st_str s)"
    "take (length xs) (st_str s) = xs" using assms(1) by (simp_all add: str_holds_def)
  obtain k where k: "str_realloc s (st_len s + int n + 1) = s\<lparr>st_str := st_str s @ replicate k 0, st_size := st_size s + int k\<rparr>"
      "st_len s + int n + 1 \<le> st_size s + int k"
    using str_realloc_grows [OF h(1)] by blast
  let ?b = "st_str s @ replicate k 0"
  have l: "length xs + n < length ?b" using k(2) h(1,2) by simp
  have t: "take (length xs) ?b = xs" using h(3,4) by simp
  define blk where "blk = xs @ take n m @ drop (length xs + n) ?b"
  have "copy_loop n ?b (length xs) m 0 = Some blk"
    using assms(2) l t by (subst copy_loop_eq) (auto simp: blk_def)
  moreover have b: "length blk = length ?b" "take (length xs + n) blk = xs @ take n m"
    using assms(2) l by (simp_all add: blk_def del: length_append) simp
  moreover from this have "str_holds (s\<lparr>st_size := st_size s + int k, st_str := blk[length xs + n := 0], st_len := int (length xs + n)\<rparr>) (xs @ take n m)"
    using assms(2) l h(1) by (simp add: str_holds_def min_absorb2)
  moreover have "nat (int (length xs) + int n) = length xs + n" by simp
  ultimately show ?thesis
    using False assms(3) k(1) h(2) l by (simp add: str_append_def Let_def)
qed

lemma str_appendf_holds:
  assumes "str_holds s xs" and "length t < BUFSIZ - 1" "CHR 0x00 \<notin> set t" and "length xs + length t + 1 < 2 ^ 31"
  shows "\<exists>s'. str_appendf s t = Some s' \<and> str_holds s' (xs @ str_bytes t)"
proof -
  have "takeWhile (\<lambda>c. c \<noteq> CHR 0x00) (take (BUFSIZ - 2) t) = t" using assms(2,3) by (auto simp: takeWhile_eq_all_conv)
  then show ?thesis
    using str_append_holds [OF assms(1), of "length t" "str_bytes t @ [0]"] assms(4) by (simp add: str_appendf_def)
qed

text \<open>What the loop appends for one byte.\<close>

definition svg_piece :: "byte \<Rightarrow> byte list" where
  "svg_piece num = (if 192 \<le> num then [str_bytes svg_lookup ! (unat num - 192)]
     else (if 128 \<le> num then str_bytes '','' else if 64 \<le> num then str_bytes ''-'' else []) @ [num AND 63])"

lemma svg_piece_length: "length (svg_piece b) \<le> 2"
  by (simp add: svg_piece_def)

lemma svg_loop_holds:
  assumes "str_holds s xs" and "length xs + 2 * length bs + 2 < 2 ^ 31"
  shows "\<exists>s'. svg_loop s bs = Some s' \<and> str_holds s' (xs @ concat (map svg_piece bs))"
  using assms
proof (induction bs arbitrary: s xs)
  case (Cons b bs)
  have one: "\<exists>s'. str_append s m 1 = Some s' \<and> str_holds s' (xs @ [m ! 0])" if "str_holds s xs" "m \<noteq> []" "length xs < 2 ^ 31 - 2" for s xs m
    using str_append_holds [OF that(1), of 1 m] that(2,3) by (cases m) auto
  have "\<exists>s'. (if 192 \<le> b then str_append s (drop (unat b - 192) (str_bytes svg_lookup @ [0])) 1
        else do {
          svg \<leftarrow> (if 128 \<le> b then str_append s (str_bytes '','') 1
                  else if 64 \<le> b then str_append s (str_bytes ''-'') 1
                  else Some s);
          str_append svg [b AND 63] 1
        }) = Some s' \<and> str_holds s' (xs @ svg_piece b)"
  proof (cases "192 \<le> b")
    case True
    have "unat b < 256" using unsigned_less [of b] by simp
    then have i: "unat b - 192 < length (str_bytes svg_lookup)" by (simp add: svg_lookup_def)
    then have "(drop (unat b - 192) (str_bytes svg_lookup @ [0])) ! 0 = str_bytes svg_lookup ! (unat b - 192)"
      by (simp add: nth_append)
    with True i show ?thesis
      using one [OF Cons.prems(1), of "drop (unat b - 192) (str_bytes svg_lookup @ [0])"] Cons.prems(2) by (auto simp: svg_piece_def)
  next
    case False
    obtain s1 where s1: "(if 128 \<le> b then str_append s (str_bytes '','') 1
                  else if 64 \<le> b then str_append s (str_bytes ''-'') 1 else Some s) = Some s1"
        "str_holds s1 (xs @ (if 128 \<le> b then str_bytes '','' else if 64 \<le> b then str_bytes ''-'' else []))"
      using one [OF Cons.prems(1), of "str_bytes '',''"] one [OF Cons.prems(1), of "str_bytes ''-''"] Cons.prems
      by (cases "128 \<le> b"; cases "64 \<le> b") (auto simp: str_bytes_def)
    then show ?thesis
      using False one [OF s1(2), of "[b AND 63]"] Cons.prems(2) by (auto simp: svg_piece_def)
  qed
  then obtain s1 where s1: "svg_loop s (b # bs) = svg_loop s1 bs" "str_holds s1 (xs @ svg_piece b)"
    by (auto simp: svg_piece_def)
  then show ?case using Cons.IH [OF s1(2)] Cons.prems(2) svg_piece_length [of b] by simp
qed simp

section \<open>Properties\<close>

lemma nth_block: "readable b \<Longrightarrow> i < unat (bsize b) \<Longrightarrow> bdata b + i < length (bblk b) \<and> bblk b ! (bdata b + i) = bytes b ! i"
  by (simp add: readable_def bytes_def)

lemma length_photo_header [simp]: "length photo_header = 623"
  by (simp add: photo_header_def)

text \<open>
  The picture that a stripped photo becomes: the header with height and width of the frame
  taken from the second and third byte, the data behind them, the end marker.  Anything
  else than a stripped photo becomes an empty buffer.
\<close>

theorem photo_stripped_restored:
  assumes "readable b" and "unat (bsize b) < 2 ^ 31"
  shows "image_from_photo_stripped b = Some (mkbuf (case bytes b of
       m # h # w # data \<Rightarrow> if m = 1 then photo_header[164 := h, 166 := w] @ data @ photo_footer else []
     | _ \<Rightarrow> []))"
proof (cases "drop 2 (bytes b)")
  case Nil
  then have "unat (bsize b) < 3" using assms(1) by (simp flip: length_bytes)
  moreover from Nil have "(case bytes b of m # h # w # data \<Rightarrow> if m = 1 then photo_header[164 := h, 166 := w] @ data @ photo_footer else []
     | _ \<Rightarrow> []) = []" by (auto split: list.split)
  ultimately show ?thesis by (simp add: image_from_photo_stripped_def word_less_nat_alt)
next
  case (Cons w data)
  then obtain m h where x: "bytes b = m # h # w # data" by (cases "bytes b"; cases "tl (bytes b)") auto
  have l: "unat (bsize b) = length data + 3" using length_bytes [OF assms(1)] x by simp
  have r: "bdata b + unat (bsize b) \<le> length (bblk b)" using assms(1) by (simp add: readable_def)
  have n: "bdata b + i < length (bblk b) \<and> bblk b ! (bdata b + i) = (m # h # w # data) ! i" if "i < 3" for i
    using nth_block [OF assms(1), of i] x l that by simp
  have m: "mem_read (bblk b) (bdata b) 1 = Some [m]"
    using n [of 0] r l by (simp add: mem_read_def take_Suc_conv_app_nth [of 0, simplified] hd_drop_conv_nth)
  have d: "take (length data) (drop (bdata b + 3) (bblk b)) = data"
  proof -
    have "data = drop 3 (bytes b)" by (simp add: x)
    then show ?thesis using l by (simp add: bytes_def drop_take add.commute)
  qed
  let ?h = "photo_header[164 := h, 166 := w]"
  have u: "unat (bsize b - 3) = length data" using l by (simp add: unat_sub word_le_nat_alt)
  have "buf_cat_data (mkbuf ?h) (bblk b) (bdata b + 3) (bsize b - 3) = Some (mkbuf (?h @ data))"
    using u l r d assms(2) by (subst buf_cat_data_eq) (simp_all add: fits_def)
  moreover have "buf_cat_data (mkbuf (?h @ data)) photo_footer 0 (of_nat (length photo_footer)) = Some (mkbuf (?h @ data @ photo_footer))"
    using l assms(2) by (subst buf_cat_data_eq) (simp_all add: fits_def photo_footer_def)
  moreover have "buf_cat_data buf_new photo_header 0 (of_nat (length photo_header)) = Some (mkbuf photo_header)"
    by (simp add: fits_def)
  moreover have "(mkbuf photo_header)\<lparr>bblk := (bblk (mkbuf photo_header))[164 := h, 166 := w]\<rparr> = mkbuf ?h"
    by (simp add: mkbuf_def Let_def list_update_append)
  moreover have "length (bblk (mkbuf photo_header)) = BUFSIZ + 1" by (simp add: mkbuf_def Let_def BUFSIZ_def)
  ultimately show ?thesis
    using m n [of 1] n [of 2] l x
    by (simp add: image_from_photo_stripped_def word_less_nat_alt BUFSIZ_def del: buf_cat_data_eq)
qed

text \<open>The outline as the comment in the code describes it: a number is written in decimal.\<close>

definition svg_documented :: "byte \<Rightarrow> byte list" where
  "svg_documented num = (if 192 \<le> num then [str_bytes svg_lookup ! (unat num - 192)]
     else (if 128 \<le> num then str_bytes '','' else if 64 \<le> num then str_bytes ''-'' else []) @ str_bytes (dec (unat (num AND 63))))"

definition svg_file :: "byte list \<Rightarrow> byte list" where
  "svg_file path = str_bytes (svg_head @ ''M'') @ path @ str_bytes (''z\"/>'' @ [CHR 0x0A] @ ''</svg>'' @ [CHR 0x0A])"

lemma svg_path_length: "length (concat (map svg_piece bs)) \<le> 2 * length bs"
proof (induction bs)
  case (Cons a bs)
  then show ?case using svg_piece_length [of a] by simp
qed simp

lemma svg_file_eq:
  assumes "readable b" and "unat (bsize b) < 2 ^ 29"
  shows "image_from_svg_path b = Some (svg_file (concat (map svg_piece (bytes b))))"
proof -
  let ?p = "concat (map svg_piece (bytes b))"
  have l: "length ?p < 2 ^ 30" "length (bytes b) < 2 ^ 29" using svg_path_length [of "bytes b"] assms by simp_all
  have h: "length svg_head < 300" "CHR 0x00 \<notin> set svg_head" by (simp_all add: svg_head_def)
  obtain s1 where s1: "str_appendf str_init svg_head = Some s1" "str_holds s1 (str_bytes svg_head)"
    using str_appendf_holds [OF holds_init, of svg_head] h by (auto simp: BUFSIZ_def)
  obtain s2 where s2: "str_appendf s1 ''M'' = Some s2" "str_holds s2 (str_bytes (svg_head @ ''M''))"
    using str_appendf_holds [OF s1(2), of "''M''"] h by (auto simp: BUFSIZ_def str_bytes_def)
  obtain s3 where s3: "svg_loop s2 (bytes b) = Some s3" "str_holds s3 (str_bytes (svg_head @ ''M'') @ ?p)"
    using svg_loop_holds [OF s2(2), of "bytes b"] h l by auto
  obtain s4 where s4: "str_append s3 (str_bytes ''z'') 1 = Some s4" "str_holds s4 (str_bytes (svg_head @ ''M'') @ ?p @ str_bytes ''z'')"
    using str_append_holds [OF s3(2), of 1 "str_bytes ''z''"] h l by auto
  obtain s5 where s5: "str_appendf s4 (''\"/>'' @ [CHR 0x0A]) = Some s5"
      "str_holds s5 (str_bytes (svg_head @ ''M'') @ ?p @ str_bytes (''z\"/>'' @ [CHR 0x0A]))"
    using str_appendf_holds [OF s4(2), of "''\"/>'' @ [CHR 0x0A]"] h l by (auto simp: BUFSIZ_def str_bytes_def)
  obtain s6 where s6: "str_appendf s5 (''</svg>'' @ [CHR 0x0A]) = Some s6" "str_holds s6 (svg_file ?p)"
    using str_appendf_holds [OF s5(2), of "''</svg>'' @ [CHR 0x0A]"] h l by (auto simp: BUFSIZ_def str_bytes_def svg_file_def)
  have "mem_read (bblk b) (bdata b) (nat (sint (bsize b))) = Some (bytes b)"
    using assms by (simp add: mem_read_def readable_def bytes_def sint_small)
  moreover have "take (nat (st_len s6)) (st_str s6) = svg_file ?p" using s6(2) by (simp add: str_holds_def)
  ultimately show ?thesis by (simp add: image_from_svg_path_def s1(1) s2(1) s3(1) s4(1) s5(1) s6(1) del: append.simps)
qed

theorem photo_stripped_restored_witness:
  "image_from_photo_stripped (mkbuf [1, 30, 40, 7]) = Some (mkbuf (photo_header[164 := 30, 166 := 40] @ [7] @ photo_footer))"
  using photo_stripped_restored [of "mkbuf [1, 30, 40, 7]"] by (simp add: fits_def)

text \<open>A character that stands for a number below 64 is not the decimal of that number.\<close>

lemma dec_not_raw: "n < 64 \<Longrightarrow> str_bytes (dec n) \<noteq> [of_nat n] \<and> 1 \<le> length (str_bytes (dec n))"
proof -
  have "\<forall>n \<in> set [0..<64]. str_bytes (dec n) \<noteq> [of_nat n] \<and> 1 \<le> length (str_bytes (dec n))" by code_simp
  then show "n < 64 \<Longrightarrow> ?thesis" by simp
qed

lemma svg_piece_documented:
  "length (svg_piece b) \<le> length (svg_documented b)" "svg_piece b = svg_documented b \<longleftrightarrow> 192 \<le> b"
proof -
  have "b AND 63 = take_bit 6 b" by (simp add: take_bit_eq_mask mask_eq_exp_minus_1)
  then have "unat (b AND 63) < 64" by (simp only: unsigned_take_bit_eq) (simp add: take_bit_eq_mod)
  note dec_not_raw [OF this]
  then show "length (svg_piece b) \<le> length (svg_documented b)" "svg_piece b = svg_documented b \<longleftrightarrow> 192 \<le> b"
    by (auto simp: svg_piece_def svg_documented_def)
qed

lemma concat_pieces:
  "concat (map svg_piece bs) = concat (map svg_documented bs) \<longleftrightarrow> (\<forall>b \<in> set bs. 192 \<le> b)"
proof (induction bs)
  case (Cons b bs)
  have le: "length (concat (map svg_piece bs)) \<le> length (concat (map svg_documented bs))" for bs
    by (induction bs) (auto intro: add_mono svg_piece_documented(1))
  have "length (svg_piece b) = length (svg_documented b)" if "svg_piece b @ concat (map svg_piece bs) = svg_documented b @ concat (map svg_documented bs)"
    using arg_cong [OF that, of length] le [of bs] svg_piece_documented(1) [of b] by simp
  then have "svg_piece b @ concat (map svg_piece bs) = svg_documented b @ concat (map svg_documented bs) \<longleftrightarrow>
      svg_piece b = svg_documented b \<and> concat (map svg_piece bs) = concat (map svg_documented bs)"
    by (auto simp: append_eq_append_conv)
  then show ?case using Cons svg_piece_documented(2) [of b] by simp
qed simp

text \<open>
  An outline becomes the file that the comment in the code describes exactly when it str_holds no
  number: a byte below 192 stands for a number, which the comment writes in decimal and the
  code as the character with that code.
\<close>

theorem svg_as_documented_iff:
  assumes "readable b" and "unat (bsize b) < 2 ^ 29"
  shows "image_from_svg_path b = Some (svg_file (concat (map svg_documented (bytes b)))) \<longleftrightarrow> (\<forall>c \<in> set (bytes b). 192 \<le> c)"
  unfolding svg_file_eq [OF assms] using concat_pieces by (simp add: svg_file_def)

theorem svg_as_documented_iff_witness:
  "image_from_svg_path (mkbuf [192, 65]) \<noteq> Some (svg_file (concat (map svg_documented [192, 65])))"
  using svg_as_documented_iff [of "mkbuf [192, 65]"] by (simp add: fits_def)

end
