(* ===== verification/Rows.thy ===== *)
theory Rows
  imports Generated Base64 Images
begin

text \<open>
  Users, chats, channels and dialogs are declared by lists of macro calls (\<^verbatim>\<open>TG_USER_ARGS\<close> and so on): each
  call names a member, its type and its column, and the code expands the list once for each of the struct, the
  conversion from the TL object, the SQL text that stores it and the reader of a row.  Here such a
  list is a list of records, and the expansions are functions over it.  A TL object is what the generated
  reader returns.
\<close>

section \<open>Structs\<close>

datatype ctyp = T_bool | T_u32 | T_u64 | T_double | T_str

datatype xkind = X_arg | X_str | X_spa | X_sps | X_per

record xrow =
  x_kind :: xkind
  x_type :: ctyp
  x_field :: string
  x_sql :: string
  x_col :: string
  x_ifmin :: nat

text \<open>One entry of a list, as it is written in the header.\<close>

definition TG_ARG :: "ctyp \<Rightarrow> string \<Rightarrow> string \<Rightarrow> string \<Rightarrow> nat \<Rightarrow> xrow" where
  "TG_ARG t f s c m = \<lparr>x_kind = X_arg, x_type = t, x_field = f, x_sql = s, x_col = c, x_ifmin = m\<rparr>"

definition TG_STR :: "ctyp \<Rightarrow> string \<Rightarrow> string \<Rightarrow> string \<Rightarrow> nat \<Rightarrow> xrow" where
  "TG_STR t f s c m = \<lparr>x_kind = X_str, x_type = t, x_field = f, x_sql = s, x_col = c, x_ifmin = m\<rparr>"

definition TG_SPA :: "ctyp \<Rightarrow> string \<Rightarrow> string \<Rightarrow> string \<Rightarrow> nat \<Rightarrow> xrow" where
  "TG_SPA t f s c m = \<lparr>x_kind = X_spa, x_type = t, x_field = f, x_sql = s, x_col = c, x_ifmin = m\<rparr>"

definition TG_SPS :: "ctyp \<Rightarrow> string \<Rightarrow> string \<Rightarrow> string \<Rightarrow> nat \<Rightarrow> xrow" where
  "TG_SPS t f s c m = \<lparr>x_kind = X_sps, x_type = t, x_field = f, x_sql = s, x_col = c, x_ifmin = m\<rparr>"

text \<open>
  A member is a number, kept as the 64 bits it converts to, or a pointer to a string, kept without the
  terminating zero.  \<^verbatim>\<open>memset\<close> makes every member 0.
\<close>

datatype xcell = N u64 | S "byte list option"

type_synonym cstruct = "string \<Rightarrow> xcell"

definition is_text :: "xrow \<Rightarrow> bool" where
  "is_text r \<longleftrightarrow> x_kind r = X_str \<or> x_kind r = X_sps"

definition zeroed :: "xrow list \<Rightarrow> cstruct" where
  "zeroed rows n = (if \<exists>r \<in> set rows. x_field r = n \<and> is_text r then S None else N 0)"

fun num_val :: "xcell \<Rightarrow> u64" where
  "num_val (N v) = v"
| "num_val (S s) = of_bool (s \<noteq> None)"

fun str_of :: "xcell \<Rightarrow> byte list option" where
  "str_of (S s) = s"
| "str_of (N v) = None"

text \<open>Assignment to a member of the given type.\<close>

definition narrow :: "ctyp \<Rightarrow> u64 \<Rightarrow> u64" where
  "narrow t v = (case t of T_bool \<Rightarrow> of_bool (v \<noteq> 0) | T_u32 \<Rightarrow> ucast (ucast v :: u32) | _ \<Rightarrow> v)"

section \<open>From the TL object\<close>

text \<open>The members of the generated structs are the names of the schema with an underline.\<close>

definition tl_member :: "tobj \<Rightarrow> string \<Rightarrow> fval option" where
  "tl_member p n = map_of (o_fields p) (butlast n)"

fun num_of :: "fval \<Rightarrow> u64 option" where
  "num_of (F_ui32 w) = Some (ucast w)"
| "num_of (F_ui64 w) = Some w"
| "num_of (F_double w) = Some w"
| "num_of (F_bool b) = Some (of_bool b)"
| "num_of _ = None"

text \<open>\<^verbatim>\<open>strndup((char *)b.data, b.size)\<close>\<close>

definition buf_strdup :: "buf \<Rightarrow> byte list option" where
  "buf_strdup b = map_option (takeWhile (\<lambda>c. c \<noteq> 0)) (mem_read (bblk b) (bdata b) (unat (bsize b)))"

text \<open>\<^verbatim>\<open>BUF2IMG\<close>: the picture in base 64; a null pointer when there is none.\<close>

definition BUF2IMG :: "buf \<Rightarrow> byte list option option" where
  "BUF2IMG b = do {
     i \<leftarrow> image_from_photo_stripped b;
     map_option (map_option (takeWhile (\<lambda>c. c \<noteq> 0))) (buf_to_base64 i)
   }"

text \<open>\<^verbatim>\<open>tgm->dst = p->src\<close>\<close>

definition put_num :: "tobj \<Rightarrow> string \<Rightarrow> ctyp \<Rightarrow> string \<Rightarrow> cstruct \<Rightarrow> cstruct option" where
  "put_num p src t dst st = do {
     f \<leftarrow> tl_member p src;
     v \<leftarrow> num_of f;
     Some (st(dst := N (narrow t v)))
   }"

definition tl_bytes :: "tobj \<Rightarrow> string \<Rightarrow> buf option" where
  "tl_bytes p src = (case tl_member p src of Some (F_buf b) \<Rightarrow> Some b | _ \<Rightarrow> None)"

definition tl_pointer :: "tobj \<Rightarrow> string \<Rightarrow> tobj option option" where
  "tl_pointer p src = (case tl_member p src of Some (F_obj x) \<Rightarrow> Some x | _ \<Rightarrow> None)"

fun from_arg :: "tobj \<Rightarrow> xrow \<Rightarrow> cstruct \<Rightarrow> cstruct option" where
  "from_arg p r st =
     (case x_kind r of
        X_arg \<Rightarrow> put_num p (x_field r) (x_type r) (x_field r) st
      | X_str \<Rightarrow> do {
          b \<leftarrow> tl_bytes p (x_field r);
          if 0 < bsize b then do { s \<leftarrow> buf_strdup b; Some (st(x_field r := S (Some s))) } else Some st
        }
      | _ \<Rightarrow> Some st)"

fun from_args :: "tobj \<Rightarrow> xrow list \<Rightarrow> cstruct \<Rightarrow> cstruct option" where
  "from_args p [] st = Some st"
| "from_args p (r # rows) st = do { st \<leftarrow> from_arg p r st; from_args p rows st }"

text \<open>A block of such assignments from another object.\<close>

fun put_nums :: "tobj \<Rightarrow> (string \<times> ctyp \<times> string) list \<Rightarrow> cstruct \<Rightarrow> cstruct option" where
  "put_nums p [] st = Some st"
| "put_nums p ((src, t, dst) # as) st = do { st \<leftarrow> put_num p src t dst st; put_nums p as st }"

text \<open>\<^verbatim>\<open>if (tlm->f && tlm->f->_id == k) ...\<close>\<close>

definition when_obj :: "tobj \<Rightarrow> string \<Rightarrow> u32 \<Rightarrow> (tobj \<Rightarrow> cstruct \<Rightarrow> cstruct option) \<Rightarrow> cstruct \<Rightarrow> cstruct option" where
  "when_obj q f k body st = do {
     x \<leftarrow> tl_pointer q f;
     case x of None \<Rightarrow> Some st | Some p \<Rightarrow> if o_id p = k then body p st else Some st
   }"

section \<open>The SQL text\<close>

text \<open>The text is put together from formatted pieces and the strings of the struct.\<close>

datatype piece = Fmt string | Raw "byte list"

fun add_piece :: "str \<Rightarrow> piece \<Rightarrow> str option" where
  "add_piece s (Fmt t) = str_appendf s t"
| "add_piece s (Raw m) = str_append s (m @ [0]) (int (length m))"

fun add_pieces :: "str \<Rightarrow> piece list \<Rightarrow> str option" where
  "add_pieces s [] = Some s"
| "add_pieces s (p # ps) = do { s \<leftarrow> add_piece s p; add_pieces s ps }"

definition sql_text :: "piece list \<Rightarrow> byte list option" where
  "sql_text ps = map_option (\<lambda>s. takeWhile (\<lambda>c. c \<noteq> 0) (st_str s)) (add_pieces str_init ps)"

definition quote :: string where
  "quote = [CHR 0x27]"

text \<open>\<^verbatim>\<open>_LD_\<close> of an unsigned number prints it as a signed one.\<close>

definition ld :: "u64 \<Rightarrow> string" where
  "ld v = sdec (sint v)"

text \<open>
  The assignment of one column.  Users, chats and channels leave out empty strings, dialogs only missing ones; a
  column with \<open>x_ifmin = 1\<close> is left out for users that the server sends with \<^verbatim>\<open>min\<close>.
\<close>

definition col_pieces :: "bool \<Rightarrow> bool \<Rightarrow> cstruct \<Rightarrow> xrow \<Rightarrow> piece list" where
  "col_pieces nonempty minimal st r =
     (if is_text r then
        (case str_of (st (x_field r)) of
           None \<Rightarrow> []
         | Some s \<Rightarrow> if nonempty \<and> s = [] then []
                     else [Fmt (quote @ x_col r @ quote @ '' = '' @ quote), Raw s, Fmt (quote @ '', '')])
      else if x_kind r = X_arg \<and> minimal \<and> x_ifmin r = 1 then []
      else [Fmt (quote @ x_col r @ quote @ '' = '' @ ld (num_val (st (x_field r))) @ '', '')])"

definition save_pieces :: "string \<Rightarrow> string \<Rightarrow> bool \<Rightarrow> bool \<Rightarrow> xrow list \<Rightarrow> int \<Rightarrow> u64 \<Rightarrow> cstruct \<Rightarrow> piece list" where
  "save_pieces tab key nonempty minimal rows tgid k st =
     [Fmt (''INSERT INTO '' @ quote @ tab @ quote @ '' ('' @ quote @ key @ quote @ '') SELECT  '' @ ld k @
        '' WHERE NOT EXISTS (SELECT 1 FROM '' @ tab @ '' WHERE '' @ key @ '' = '' @ ld k @ '');'' @ nl),
      Fmt (''UPDATE '' @ quote @ tab @ quote @ '' SET '')] @
     concat (map (col_pieces nonempty minimal st) rows) @
     [Fmt (''id = '' @ sdec tgid @ '' WHERE '' @ key @ '' = '' @ ld k @ '';'' @ nl)]"

definition select_pieces :: "string \<Rightarrow> xrow list \<Rightarrow> string \<Rightarrow> piece list" where
  "select_pieces tab rows tail =
     [Fmt ''SELECT ''] @ map (\<lambda>r. Fmt (x_col r @ '', '')) rows @ [Fmt (''id FROM '' @ tab @ '' WHERE id = '' @ tail)]"

section \<open>Reading a row\<close>

text \<open>
  What a column of the result holds, and what the functions of SQLite return for it.  A text in a column that is read
  as a number would be converted; this is left out.
\<close>

datatype sqlval = Sq_null | Sq_int int | Sq_text "byte list"

definition column_int64 :: "sqlval \<Rightarrow> u64 option" where
  "column_int64 v = (case v of Sq_null \<Rightarrow> Some 0 | Sq_int i \<Rightarrow> Some (word_of_int i) | Sq_text s \<Rightarrow> None)"

definition column_text :: "sqlval \<Rightarrow> byte list" where
  "column_text v = (case v of Sq_null \<Rightarrow> [] | Sq_int i \<Rightarrow> str_bytes (sdec i) | Sq_text s \<Rightarrow> s)"

fun read_row :: "xrow list \<Rightarrow> sqlval list \<Rightarrow> cstruct \<Rightarrow> cstruct option" where
  "read_row [] vs st = Some st"
| "read_row (r # rows) [] st = None"
| "read_row (r # rows) (v # vs) st =
     (if is_text r then
        read_row rows vs (if column_text v \<noteq> [] then st(x_field r := S (Some (takeWhile (\<lambda>c. c \<noteq> 0) (column_text v)))) else st)
      else do {
        n \<leftarrow> column_int64 v;
        read_row rows vs (st(x_field r := N (narrow (x_type r) n)))
      })"

end
