(* ===== verification/People.thy ===== *)
theory People
  imports Rows
begin

text \<open>
  \<^verbatim>\<open>libtg/tg/user.c\<close>, \<^verbatim>\<open>libtg/tg/chat.c\<close> and \<^verbatim>\<open>libtg/tg/channel.c\<close>: the objects the server sends become
  structs, which are stored in the database and read back.  A function that stores something returns
  the SQL texts it executes; \<open>query\<close> gives the rows that SQLite returns for a text.
\<close>

section \<open>The lists of members\<close>

definition TG_USER_ARGS :: "xrow list" where
  "TG_USER_ARGS =
     [TG_ARG T_bool ''self_'' ''INT'' ''self'' 0,
      TG_ARG T_bool ''contact_'' ''INT'' ''contact'' 1,
      TG_ARG T_bool ''mutual_contact_'' ''INT'' ''mutual_contact'' 1,
      TG_ARG T_bool ''deleted_'' ''INT'' ''deleted'' 0,
      TG_ARG T_bool ''bot_'' ''INT'' ''bot'' 0,
      TG_ARG T_bool ''bot_chat_history_'' ''INT'' ''bot_chat_history'' 0,
      TG_ARG T_bool ''bot_nochats_'' ''INT'' ''bot_nochats'' 0,
      TG_ARG T_bool ''verified_'' ''INT'' ''verified'' 0,
      TG_ARG T_bool ''restricted_'' ''INT'' ''restricted'' 0,
      TG_ARG T_bool ''min_'' ''INT'' ''min'' 0,
      TG_ARG T_bool ''bot_inline_geo_'' ''INT'' ''bot_inline_geo'' 0,
      TG_ARG T_bool ''support_'' ''INT'' ''support'' 0,
      TG_ARG T_bool ''scam_'' ''INT'' ''scam'' 0,
      TG_ARG T_bool ''apply_min_photo_'' ''INT'' ''apply_min_photo'' 0,
      TG_ARG T_bool ''fake_'' ''INT'' ''fake'' 0,
      TG_ARG T_bool ''bot_attach_menu_'' ''INT'' ''bot_attach_menu'' 0,
      TG_ARG T_bool ''premium_'' ''INT'' ''premium'' 0,
      TG_ARG T_bool ''attach_menu_enabled_'' ''INT'' ''attach_menu_enabled'' 0,
      TG_ARG T_bool ''bot_can_edit_'' ''INT'' ''bot_can_edit'' 0,
      TG_ARG T_bool ''close_friend_'' ''INT'' ''close_friend'' 1,
      TG_ARG T_bool ''stories_hidden_'' ''INT'' ''stories_hidden'' 1,
      TG_ARG T_bool ''stories_unavailable_'' ''INT'' ''stories_unavailable'' 0,
      TG_ARG T_bool ''contact_require_premium_'' ''INT'' ''contact_require_premium'' 0,
      TG_ARG T_bool ''bot_business_'' ''INT'' ''bot_business'' 0,
      TG_ARG T_bool ''bot_has_main_app_'' ''INT'' ''bot_has_main_app'' 0,
      TG_ARG T_u64 ''id_'' ''INT'' ''user_id'' 0,
      TG_ARG T_u64 ''access_hash_'' ''INT'' ''access_hash'' 2,
      TG_STR T_str ''first_name_'' ''TEXT'' ''first_name'' 2,
      TG_STR T_str ''last_name_'' ''TEXT'' ''last_name'' 2,
      TG_STR T_str ''username_'' ''TEXT'' ''username'' 2,
      TG_STR T_str ''phone_'' ''TEXT'' ''phone'' 2,
      TG_SPA T_bool ''photo_has_video'' ''INT'' ''photo_has_video'' 2,
      TG_SPA T_bool ''photo_personal'' ''INT'' ''photo_personal'' 2,
      TG_SPA T_u64 ''photo_id'' ''INT'' ''photo_id'' 2,
      TG_SPS T_str ''photo_stripped_thumb'' ''INT'' ''photo_stripped_thumb'' 2,
      TG_SPA T_u32 ''photo_dc_id'' ''INT'' ''photo_dc_id'' 2,
      TG_SPA T_u32 ''user_satus'' ''INT'' ''user_status'' 2,
      TG_SPA T_u32 ''user_satus_time'' ''INT'' ''user_status_time'' 2,
      TG_SPA T_bool ''user_satus_byme'' ''INT'' ''user_status_byme'' 2,
      TG_ARG T_bool ''bot_info_version_'' ''INT'' ''bot_info_version'' 0,
      TG_STR T_str ''bot_inline_placeholder_'' ''INT'' ''bot_inline_placeholder'' 0,
      TG_STR T_str ''lang_code_'' ''INT'' ''lang_code'' 0,
      TG_ARG T_bool ''stories_max_id_'' ''INT'' ''stories_max_id'' 1,
      TG_SPA T_u32 ''color'' ''INT'' ''color'' 0,
      TG_SPA T_u32 ''profile_color'' ''INT'' ''profile_color'' 0,
      TG_ARG T_u32 ''bot_active_users_'' ''INT'' ''bot_active_users'' 0]"

definition TG_CHAT_ARGS :: "xrow list" where
  "TG_CHAT_ARGS =
     [TG_ARG T_bool ''creator_'' ''INT'' ''creator'' 0,
      TG_ARG T_bool ''left_'' ''INT'' ''left'' 0,
      TG_ARG T_bool ''deactivated_'' ''INT'' ''deactivated'' 0,
      TG_ARG T_bool ''call_active_'' ''INT'' ''call_active'' 0,
      TG_ARG T_bool ''call_not_empty_'' ''INT'' ''call_not_empty'' 0,
      TG_ARG T_bool ''noforwards_'' ''INT'' ''call_not_empty'' 0,
      TG_ARG T_u64 ''id_'' ''INT'' ''chat_id'' 0,
      TG_STR T_str ''title_'' ''TEXT'' ''title'' 0,
      TG_SPA T_bool ''photo_has_video'' ''INT'' ''photo_has_video'' 0,
      TG_SPA T_u64 ''photo_id'' ''INT'' ''photo_id'' 0,
      TG_SPS T_str ''photo_stripped_thumb'' ''TEXT'' ''photo_stripped_thumb'' 0,
      TG_SPA T_u32 ''photo_dc_id'' ''INT'' ''photo_dc_id'' 0,
      TG_ARG T_u32 ''participants_count_'' ''INT'' ''participants_count'' 0,
      TG_ARG T_u32 ''date_'' ''INT'' ''date'' 0,
      TG_ARG T_u32 ''version_'' ''INT'' ''version'' 0,
      TG_SPA T_u64 ''migrated_to_channel_id'' ''INT'' ''migrated_to_channel_id'' 0,
      TG_SPA T_u64 ''migrated_to_access_hash'' ''INT'' ''migrated_to_access_hash'' 0,
      TG_SPA T_u64 ''migrated_to_channel_access_hash'' ''INT'' ''migrated_to_channel_access_hash'' 0,
      TG_SPA T_bool ''chat_admin_rights_change_info'' ''INT'' ''chat_admin_rights_change_info'' 0,
      TG_SPA T_bool ''chat_admin_rights_post_messages'' ''INT'' ''chat_admin_rights_post_messages'' 0,
      TG_SPA T_bool ''chat_admin_rights_edit_messages'' ''INT'' ''chat_admin_rights_edit_messages'' 0,
      TG_SPA T_bool ''chat_admin_rights_delete_messages'' ''INT'' ''chat_admin_rights_delete_messages'' 0,
      TG_SPA T_bool ''chat_admin_rights_ban_users'' ''INT'' ''chat_admin_rights_ban_users'' 0,
      TG_SPA T_bool ''chat_admin_rights_invite_users'' ''INT'' ''chat_admin_rights_invite_users'' 0,
      TG_SPA T_bool ''chat_admin_rights_pin_messages'' ''INT'' ''chat_admin_rights_pin_messages'' 0,
      TG_SPA T_bool ''chat_admin_rights_add_admins'' ''INT'' ''chat_admin_rights_add_admins'' 0,
      TG_SPA T_bool ''chat_admin_rights_anonymous'' ''INT'' ''chat_admin_rights_anonymous'' 0,
      TG_SPA T_bool ''chat_admin_rights_manage_call'' ''INT'' ''chat_admin_rights_manage_call'' 0,
      TG_SPA T_bool ''chat_admin_rights_other'' ''INT'' ''chat_admin_rights_other'' 0,
      TG_SPA T_bool ''chat_admin_rights_manage_topics'' ''INT'' ''chat_admin_rights_manage_topics'' 0,
      TG_SPA T_bool ''chat_admin_rights_post_stories'' ''INT'' ''chat_admin_rights_post_stories'' 0,
      TG_SPA T_bool ''chat_admin_rights_edit_stories'' ''INT'' ''chat_admin_rights_edit_stories'' 0,
      TG_SPA T_bool ''chat_admin_rights_delete_stories'' ''INT'' ''chat_admin_rights_delete_stories'' 0,
      TG_SPA T_bool ''chat_default_banned_rights_view_messages'' ''INT'' ''chat_default_banned_rights_view_messages'' 0,
      TG_SPA T_bool ''chat_default_banned_rights_send_messages'' ''INT'' ''chat_default_banned_rights_send_messages'' 0,
      TG_SPA T_bool ''chat_default_banned_rights_send_media'' ''INT'' ''chat_default_banned_rights_send_media'' 0,
      TG_SPA T_bool ''chat_default_banned_rights_send_stickers'' ''INT'' ''chat_default_banned_rights_send_stickers'' 0,
      TG_SPA T_bool ''chat_default_banned_rights_send_gifs'' ''INT'' ''chat_default_banned_rights_send_gifs'' 0,
      TG_SPA T_bool ''chat_default_banned_rights_send_games'' ''INT'' ''chat_default_banned_rights_send_games'' 0,
      TG_SPA T_bool ''chat_default_banned_rights_send_inline'' ''INT'' ''chat_default_banned_rights_send_inline'' 0,
      TG_SPA T_bool ''chat_default_banned_rights_embed_links'' ''INT'' ''chat_default_banned_rights_embed_links'' 0,
      TG_SPA T_bool ''chat_default_banned_rights_send_polls'' ''INT'' ''chat_default_banned_rights_send_polls'' 0,
      TG_SPA T_bool ''chat_default_banned_rights_change_info'' ''INT'' ''chat_default_banned_rights_change_info'' 0,
      TG_SPA T_bool ''chat_default_banned_rights_invite_users'' ''INT'' ''chat_default_banned_rights_invite_users'' 0,
      TG_SPA T_bool ''chat_default_banned_rights_pin_messages'' ''INT'' ''chat_default_banned_rights_pin_messages'' 0,
      TG_SPA T_bool ''chat_default_banned_rights_manage_topics'' ''INT'' ''chat_default_banned_rights_manage_topics'' 0,
      TG_SPA T_bool ''chat_default_banned_rights_send_photos'' ''INT'' ''chat_default_banned_rights_send_photos'' 0,
      TG_SPA T_bool ''chat_default_banned_rights_send_videos'' ''INT'' ''chat_default_banned_rights_send_videos'' 0,
      TG_SPA T_bool ''chat_default_banned_rights_send_roundvideos'' ''INT'' ''chat_default_banned_rights_send_roundvideos'' 0,
      TG_SPA T_bool ''chat_default_banned_rights_send_audios'' ''INT'' ''chat_default_banned_rights_send_audios'' 0,
      TG_SPA T_bool ''chat_default_banned_rights_send_voices'' ''INT'' ''chat_default_banned_rights_send_voices'' 0,
      TG_SPA T_bool ''chat_default_banned_rights_send_docs'' ''INT'' ''chat_default_banned_rights_send_docs'' 0,
      TG_SPA T_bool ''chat_default_banned_rights_send_plain'' ''INT'' ''chat_default_banned_rights_send_plain'' 0,
      TG_SPA T_u32 ''chat_default_banned_rights_until_date'' ''INT'' ''chat_default_banned_rights_until_date'' 0]"

definition TG_CHANNEL_ARGS :: "xrow list" where
  "TG_CHANNEL_ARGS =
     [TG_ARG T_bool ''creator_'' ''INT'' ''creator'' 0,
      TG_ARG T_bool ''left_'' ''INT'' ''left'' 0,
      TG_ARG T_bool ''broadcast_'' ''INT'' ''broadcast'' 0,
      TG_ARG T_bool ''verified_'' ''INT'' ''verified'' 0,
      TG_ARG T_bool ''megagroup_'' ''INT'' ''megagroup'' 0,
      TG_ARG T_bool ''restricted_'' ''INT'' ''restricted'' 0,
      TG_ARG T_bool ''signatures_'' ''INT'' ''signatures'' 0,
      TG_ARG T_bool ''min_'' ''INT'' ''min'' 0,
      TG_ARG T_bool ''scam_'' ''INT'' ''scam'' 0,
      TG_ARG T_bool ''has_link_'' ''INT'' ''has_link'' 0,
      TG_ARG T_bool ''has_geo_'' ''INT'' ''has_geo'' 0,
      TG_ARG T_bool ''slowmode_enabled_'' ''INT'' ''slowmode_enabled'' 0,
      TG_ARG T_bool ''call_active_'' ''INT'' ''call_active'' 0,
      TG_ARG T_bool ''call_not_empty_'' ''INT'' ''call_not_empty'' 0,
      TG_ARG T_bool ''fake_'' ''INT'' ''fake'' 0,
      TG_ARG T_bool ''gigagroup_'' ''INT'' ''gigagroup'' 0,
      TG_ARG T_bool ''noforwards_'' ''INT'' ''noforwards'' 0,
      TG_ARG T_bool ''join_to_send_'' ''INT'' ''join_to_send'' 0,
      TG_ARG T_bool ''join_request_'' ''INT'' ''join_request'' 0,
      TG_ARG T_bool ''forum_'' ''INT'' ''forum'' 0,
      TG_ARG T_bool ''stories_hidden_'' ''INT'' ''stories_hidden'' 0,
      TG_ARG T_bool ''stories_hidden_min_'' ''INT'' ''stories_hidden_min'' 0,
      TG_ARG T_bool ''stories_unavailable_'' ''INT'' ''stories_unavailable'' 0,
      TG_ARG T_u64 ''id_'' ''INT'' ''channel_id'' 0,
      TG_ARG T_u64 ''access_hash_'' ''INT'' ''access_hash'' 0,
      TG_STR T_str ''title_'' ''TEXT'' ''title'' 0,
      TG_STR T_str ''username_'' ''TEXT'' ''username'' 0,
      TG_SPA T_bool ''photo_has_video'' ''INT'' ''photo_has_video'' 0,
      TG_SPA T_u64 ''photo_id'' ''INT'' ''photo_id'' 0,
      TG_SPS T_str ''photo_stripped_thumb'' ''TEXT'' ''photo_stripped_thumb'' 0,
      TG_SPA T_u32 ''photo_dc_id'' ''INT'' ''photo_dc_id'' 0,
      TG_ARG T_u32 ''date_'' ''INT'' ''date'' 0,
      TG_ARG T_u32 ''participants_count_'' ''INT'' ''participants_count'' 0,
      TG_ARG T_u32 ''stories_max_id_'' ''INT'' ''stories_max_id'' 0,
      TG_SPA T_bool ''chat_admin_rights_change_info'' ''INT'' ''chat_admin_rights_change_info'' 0,
      TG_SPA T_bool ''chat_admin_rights_post_messages'' ''INT'' ''chat_admin_rights_post_messages'' 0,
      TG_SPA T_bool ''chat_admin_rights_edit_messages'' ''INT'' ''chat_admin_rights_edit_messages'' 0,
      TG_SPA T_bool ''chat_admin_rights_delete_messages'' ''INT'' ''chat_admin_rights_delete_messages'' 0,
      TG_SPA T_bool ''chat_admin_rights_ban_users'' ''INT'' ''chat_admin_rights_ban_users'' 0,
      TG_SPA T_bool ''chat_admin_rights_invite_users'' ''INT'' ''chat_admin_rights_invite_users'' 0,
      TG_SPA T_bool ''chat_admin_rights_pin_messages'' ''INT'' ''chat_admin_rights_pin_messages'' 0,
      TG_SPA T_bool ''chat_admin_rights_add_admins'' ''INT'' ''chat_admin_rights_add_admins'' 0,
      TG_SPA T_bool ''chat_admin_rights_anonymous'' ''INT'' ''chat_admin_rights_anonymous'' 0,
      TG_SPA T_bool ''chat_admin_rights_manage_call'' ''INT'' ''chat_admin_rights_manage_call'' 0,
      TG_SPA T_bool ''chat_admin_rights_other'' ''INT'' ''chat_admin_rights_other'' 0,
      TG_SPA T_bool ''chat_admin_rights_manage_topics'' ''INT'' ''chat_admin_rights_manage_topics'' 0,
      TG_SPA T_bool ''chat_admin_rights_post_stories'' ''INT'' ''chat_admin_rights_post_stories'' 0,
      TG_SPA T_bool ''chat_admin_rights_edit_stories'' ''INT'' ''chat_admin_rights_edit_stories'' 0,
      TG_SPA T_bool ''chat_admin_rights_delete_stories'' ''INT'' ''chat_admin_rights_delete_stories'' 0,
      TG_SPA T_bool ''chat_default_banned_rights_view_messages'' ''INT'' ''chat_default_banned_rights_view_messages'' 0,
      TG_SPA T_bool ''chat_default_banned_rights_send_messages'' ''INT'' ''chat_default_banned_rights_send_messages'' 0,
      TG_SPA T_bool ''chat_default_banned_rights_send_media'' ''INT'' ''chat_default_banned_rights_send_media'' 0,
      TG_SPA T_bool ''chat_default_banned_rights_send_stickers'' ''INT'' ''chat_default_banned_rights_send_stickers'' 0,
      TG_SPA T_bool ''chat_default_banned_rights_send_gifs'' ''INT'' ''chat_default_banned_rights_send_gifs'' 0,
      TG_SPA T_bool ''chat_default_banned_rights_send_games'' ''INT'' ''chat_default_banned_rights_send_games'' 0,
      TG_SPA T_bool ''chat_default_banned_rights_send_inline'' ''INT'' ''chat_default_banned_rights_send_inline'' 0,
      TG_SPA T_bool ''chat_default_banned_rights_embed_links'' ''INT'' ''chat_default_banned_rights_embed_links'' 0,
      TG_SPA T_bool ''chat_default_banned_rights_send_polls'' ''INT'' ''chat_default_banned_rights_send_polls'' 0,
      TG_SPA T_bool ''chat_default_banned_rights_change_info'' ''INT'' ''chat_default_banned_rights_change_info'' 0,
      TG_SPA T_bool ''chat_default_banned_rights_invite_users'' ''INT'' ''chat_default_banned_rights_invite_users'' 0,
      TG_SPA T_bool ''chat_default_banned_rights_pin_messages'' ''INT'' ''chat_default_banned_rights_pin_messages'' 0,
      TG_SPA T_bool ''chat_default_banned_rights_manage_topics'' ''INT'' ''chat_default_banned_rights_manage_topics'' 0,
      TG_SPA T_bool ''chat_default_banned_rights_send_photos'' ''INT'' ''chat_default_banned_rights_send_photos'' 0,
      TG_SPA T_bool ''chat_default_banned_rights_send_videos'' ''INT'' ''chat_default_banned_rights_send_videos'' 0,
      TG_SPA T_bool ''chat_default_banned_rights_send_roundvideos'' ''INT'' ''chat_default_banned_rights_send_roundvideos'' 0,
      TG_SPA T_bool ''chat_default_banned_rights_send_audios'' ''INT'' ''chat_default_banned_rights_send_audios'' 0,
      TG_SPA T_bool ''chat_default_banned_rights_send_voices'' ''INT'' ''chat_default_banned_rights_send_voices'' 0,
      TG_SPA T_bool ''chat_default_banned_rights_send_docs'' ''INT'' ''chat_default_banned_rights_send_docs'' 0,
      TG_SPA T_bool ''chat_default_banned_rights_send_plain'' ''INT'' ''chat_default_banned_rights_send_plain'' 0,
      TG_SPA T_u32 ''chat_default_banned_rights_until_date'' ''INT'' ''chat_default_banned_rights_until_date'' 0,
      TG_SPA T_u32 ''color'' ''INT'' ''color'' 0,
      TG_SPA T_u32 ''profile_color'' ''INT'' ''profile_color'' 0]"

section \<open>Constructor numbers\<close>

definition id_user :: u32 where "id_user = 0x83314fca"
definition id_chat :: u32 where "id_chat = 0x41cbf256"
definition id_channel :: u32 where "id_channel = 0x0aadfc8f"
definition id_userProfilePhoto :: u32 where "id_userProfilePhoto = 0x82d1f706"
definition id_chatPhoto :: u32 where "id_chatPhoto = 0x1c6e1c11"
definition id_peerColor :: u32 where "id_peerColor = 0xb54b5acf"
definition id_userStatusEmpty :: u32 where "id_userStatusEmpty = 0x09d05049"
definition id_userStatusOnline :: u32 where "id_userStatusOnline = 0xedb93949"
definition id_userStatusOffline :: u32 where "id_userStatusOffline = 0x008c703f"
definition id_userStatusLastWeek :: u32 where "id_userStatusLastWeek = 0x541a1d1a"
definition id_userStatusLastMonth :: u32 where "id_userStatusLastMonth = 0x65899777"
definition id_inputChannel :: u32 where "id_inputChannel = 0xf35aec28"
definition id_inputChannelFromMessage :: u32 where "id_inputChannelFromMessage = 0x5b934f9d"
definition id_chatAdminRights :: u32 where "id_chatAdminRights = 0x5fb224d5"
definition id_chatBannedRights :: u32 where "id_chatBannedRights = 0x9f120418"
definition id_messages_messages :: u32 where "id_messages_messages = 0x8c718e87"
definition id_messages_messagesSlice :: u32 where "id_messages_messagesSlice = 0x3a54685e"
definition id_messages_channelMessages :: u32 where "id_messages_channelMessages = 0xc776ba4e"

section \<open>From the objects\<close>

definition put_thumb :: "tobj \<Rightarrow> string \<Rightarrow> cstruct \<Rightarrow> cstruct option" where
  "put_thumb p dst st = do { b \<leftarrow> tl_bytes p ''stripped_thumb_''; s \<leftarrow> BUF2IMG b; Some (st(dst := S s)) }"

text \<open>The photo of a user, a chat or a channel.\<close>

definition put_photo :: "tobj \<Rightarrow> cstruct \<Rightarrow> cstruct option" where
  "put_photo p st = do {
     st \<leftarrow> put_num p ''has_video_'' T_bool ''photo_has_video'' st;
     st \<leftarrow> put_num p ''photo_id_'' T_u64 ''photo_id'' st;
     st \<leftarrow> put_thumb p ''photo_stripped_thumb'' st;
     put_num p ''dc_id_'' T_u32 ''photo_dc_id'' st
   }"

text \<open>A state is named by its constructor number; \<^verbatim>\<open>userStatusRecently\<close> has no case.\<close>

definition put_status :: "tobj \<Rightarrow> cstruct \<Rightarrow> cstruct option" where
  "put_status p st =
     (let st' = st(''user_satus'' := N (ucast (o_id p))) in
      if o_id p = id_userStatusEmpty then Some st'
      else if o_id p = id_userStatusOnline then put_num p ''expires_'' T_u32 ''user_satus_time'' st'
      else if o_id p = id_userStatusOffline then put_num p ''was_online_'' T_u32 ''user_satus_time'' st'
      else if o_id p = id_userStatusLastWeek then put_num p ''by_me_'' T_bool ''user_satus_byme'' st'
      else if o_id p = id_userStatusLastMonth then put_num p ''by_me_'' T_bool ''user_satus_byme'' st'
      else Some st)"

definition tg_user_from_tl :: "tobj \<Rightarrow> cstruct option" where
  "tg_user_from_tl tlm = do {
     st \<leftarrow> from_args tlm TG_USER_ARGS (zeroed TG_USER_ARGS);
     st \<leftarrow> when_obj tlm ''photo_'' id_userProfilePhoto put_photo st;
     status \<leftarrow> tl_pointer tlm ''status_'';
     st \<leftarrow> (case status of None \<Rightarrow> Some st | Some p \<Rightarrow> put_status p st);
     st \<leftarrow> when_obj tlm ''color_'' id_peerColor (\<lambda>p. put_num p ''color_'' T_u32 ''color'') st;
     when_obj tlm ''profile_color_'' id_peerColor (\<lambda>p. put_num p ''color_'' T_u32 ''profile_color'') st
   }"

definition admin_rights :: "(string \<times> ctyp \<times> string) list" where
  "admin_rights =
     [(''change_info_'', T_bool, ''chat_admin_rights_change_info''),
      (''post_messages_'', T_bool, ''chat_admin_rights_post_messages''),
      (''edit_messages_'', T_bool, ''chat_admin_rights_edit_messages''),
      (''delete_messages_'', T_bool, ''chat_admin_rights_delete_messages''),
      (''ban_users_'', T_bool, ''chat_admin_rights_ban_users''),
      (''invite_users_'', T_bool, ''chat_admin_rights_invite_users''),
      (''pin_messages_'', T_bool, ''chat_admin_rights_pin_messages''),
      (''add_admins_'', T_bool, ''chat_admin_rights_add_admins''),
      (''anonymous_'', T_bool, ''chat_admin_rights_anonymous''),
      (''manage_call_'', T_bool, ''chat_admin_rights_manage_call''),
      (''other_'', T_bool, ''chat_admin_rights_other''),
      (''manage_topics_'', T_bool, ''chat_admin_rights_manage_topics''),
      (''post_stories_'', T_bool, ''chat_admin_rights_post_stories''),
      (''edit_stories_'', T_bool, ''chat_admin_rights_edit_stories''),
      (''delete_stories_'', T_bool, ''chat_admin_rights_delete_stories'')]"

definition banned_rights :: "(string \<times> ctyp \<times> string) list" where
  "banned_rights =
     [(''view_messages_'', T_bool, ''chat_default_banned_rights_view_messages''),
      (''send_messages_'', T_bool, ''chat_default_banned_rights_send_messages''),
      (''send_media_'', T_bool, ''chat_default_banned_rights_send_media''),
      (''send_stickers_'', T_bool, ''chat_default_banned_rights_send_stickers''),
      (''send_gifs_'', T_bool, ''chat_default_banned_rights_send_gifs''),
      (''send_games_'', T_bool, ''chat_default_banned_rights_send_games''),
      (''send_inline_'', T_bool, ''chat_default_banned_rights_send_inline''),
      (''embed_links_'', T_bool, ''chat_default_banned_rights_embed_links''),
      (''send_polls_'', T_bool, ''chat_default_banned_rights_send_polls''),
      (''change_info_'', T_bool, ''chat_default_banned_rights_change_info''),
      (''invite_users_'', T_bool, ''chat_default_banned_rights_invite_users''),
      (''pin_messages_'', T_bool, ''chat_default_banned_rights_pin_messages''),
      (''manage_topics_'', T_bool, ''chat_default_banned_rights_manage_topics''),
      (''send_photos_'', T_bool, ''chat_default_banned_rights_send_photos''),
      (''send_videos_'', T_bool, ''chat_default_banned_rights_send_videos''),
      (''send_roundvideos_'', T_bool, ''chat_default_banned_rights_send_roundvideos''),
      (''send_audios_'', T_bool, ''chat_default_banned_rights_send_audios''),
      (''send_voices_'', T_bool, ''chat_default_banned_rights_send_voices''),
      (''send_docs_'', T_bool, ''chat_default_banned_rights_send_docs''),
      (''send_plain_'', T_bool, ''chat_default_banned_rights_send_plain''),
      (''until_date_'', T_u32, ''chat_default_banned_rights_until_date'')]"

text \<open>The blocks that chats and channels share.\<close>

definition put_rights :: "tobj \<Rightarrow> cstruct \<Rightarrow> cstruct option" where
  "put_rights tlm st = do {
     st \<leftarrow> when_obj tlm ''photo_'' id_chatPhoto put_photo st;
     st \<leftarrow> when_obj tlm ''admin_rights_'' id_chatAdminRights (\<lambda>p. put_nums p admin_rights) st;
     when_obj tlm ''default_banned_rights_'' id_chatBannedRights (\<lambda>p. put_nums p banned_rights) st
   }"

definition put_migrated :: "tobj \<Rightarrow> cstruct \<Rightarrow> cstruct option" where
  "put_migrated p st =
     (if o_id p = id_inputChannel then do {
        st \<leftarrow> put_num p ''channel_id_'' T_u64 ''migrated_to_channel_id'' st;
        put_num p ''access_hash_'' T_u64 ''migrated_to_access_hash'' st
      }
      else if o_id p = id_inputChannelFromMessage then put_num p ''channel_id_'' T_u64 ''migrated_to_channel_id'' st
      else Some st)"

definition tg_chat_from_tl :: "tobj \<Rightarrow> cstruct option" where
  "tg_chat_from_tl tlm = do {
     st \<leftarrow> from_args tlm TG_CHAT_ARGS (zeroed TG_CHAT_ARGS);
     migrated \<leftarrow> tl_pointer tlm ''migrated_to_'';
     st \<leftarrow> (case migrated of None \<Rightarrow> Some st | Some p \<Rightarrow> put_migrated p st);
     put_rights tlm st
   }"

definition tg_channel_from_tl :: "tobj \<Rightarrow> cstruct option" where
  "tg_channel_from_tl tlm = do {
     st \<leftarrow> from_args tlm TG_CHANNEL_ARGS (zeroed TG_CHANNEL_ARGS);
     st \<leftarrow> put_rights tlm st;
     st \<leftarrow> when_obj tlm ''color_'' id_peerColor (\<lambda>p. put_num p ''color_'' T_u32 ''color'') st;
     when_obj tlm ''profile_color_'' id_peerColor (\<lambda>p. put_num p ''color_'' T_u32 ''profile_color'') st
   }"

section \<open>Storing\<close>

text \<open>The statements that create the table; the columns are added one by one.\<close>

definition create_table :: "string \<Rightarrow> string \<Rightarrow> xrow list \<Rightarrow> string list" where
  "create_table tab key rows =
     (''CREATE TABLE IF NOT EXISTS '' @ tab @ '' (id INT, '' @ key @ '' INT UNIQUE); '') #
     map (\<lambda>r. ''ALTER TABLE '' @ quote @ tab @ quote @ '' ADD COLUMN '' @ quote @ x_col r @ quote @ '' '' @ x_sql r @ '';'') rows"

definition tg_user_create_table :: "string list" where
  "tg_user_create_table = create_table ''users'' ''user_id'' TG_USER_ARGS"

definition tg_chat_create_table :: "string list" where
  "tg_chat_create_table = create_table ''chats'' ''chat_id'' TG_CHAT_ARGS"

definition tg_channel_create_table :: "string list" where
  "tg_channel_create_table = create_table ''channels'' ''channel_id'' TG_CHANNEL_ARGS"

definition tg_user_save :: "int \<Rightarrow> cstruct \<Rightarrow> byte list option" where
  "tg_user_save tgid m = sql_text (save_pieces ''users'' ''user_id'' True (num_val (m ''min_'') \<noteq> 0) TG_USER_ARGS tgid (num_val (m ''id_'')) m)"

definition tg_chat_save :: "int \<Rightarrow> cstruct \<Rightarrow> byte list option" where
  "tg_chat_save tgid m = sql_text (save_pieces ''chats'' ''chat_id'' True False TG_CHAT_ARGS tgid (num_val (m ''id_'')) m)"

definition tg_channel_save :: "int \<Rightarrow> cstruct \<Rightarrow> byte list option" where
  "tg_channel_save tgid m =
     sql_text (save_pieces ''channels'' ''channel_id'' True False TG_CHANNEL_ARGS tgid (num_val (m ''id_'')) m)"

text \<open>The arrays that come with an answer; \<^verbatim>\<open>None\<close> is a null pointer.\<close>

fun tg_users_save :: "int \<Rightarrow> tobj option list \<Rightarrow> byte list list option" where
  "tg_users_save tgid [] = Some []"
| "tg_users_save tgid (None # us) = tg_users_save tgid us"
| "tg_users_save tgid (Some u # us) =
     (if o_id u \<noteq> id_user then tg_users_save tgid us
      else do {
        m \<leftarrow> tg_user_from_tl u;
        s \<leftarrow> tg_user_save tgid m;
        ss \<leftarrow> tg_users_save tgid us;
        Some (s # ss)
      })"

fun tg_chats_save :: "int \<Rightarrow> tobj option list \<Rightarrow> byte list list option" where
  "tg_chats_save tgid [] = Some []"
| "tg_chats_save tgid (None # cs) = tg_chats_save tgid cs"
| "tg_chats_save tgid (Some c # cs) =
     (if o_id c = id_chat then do {
        m \<leftarrow> tg_chat_from_tl c;
        s \<leftarrow> tg_chat_save tgid m;
        ss \<leftarrow> tg_chats_save tgid cs;
        Some (s # ss)
      }
      else if o_id c = id_channel then do {
        m \<leftarrow> tg_channel_from_tl c;
        s \<leftarrow> tg_channel_save tgid m;
        ss \<leftarrow> tg_chats_save tgid cs;
        Some (s # ss)
      }
      else tg_chats_save tgid cs)"

definition delete_all :: "string \<Rightarrow> string" where
  "delete_all tab = ''DELETE from '' @ quote @ tab @ quote @ '';''"

section \<open>Reading back\<close>

text \<open>Only the first row is read.\<close>

definition first_row :: "(byte list \<Rightarrow> sqlval list list) \<Rightarrow> string \<Rightarrow> xrow list \<Rightarrow> string \<Rightarrow> cstruct option" where
  "first_row query tab rows tail = do {
     sql \<leftarrow> sql_text (select_pieces tab rows tail);
     case query sql of [] \<Rightarrow> Some (zeroed rows) | v # _ \<Rightarrow> read_row rows v (zeroed rows)
   }"

definition by_date :: string where
  "by_date = ''ORDER BY '' @ quote @ ''date'' @ quote @ '' DESC;''"

definition tg_user_get :: "(byte list \<Rightarrow> sqlval list list) \<Rightarrow> int \<Rightarrow> u64 \<Rightarrow> cstruct option" where
  "tg_user_get query tgid k = first_row query ''users'' TG_USER_ARGS (sdec tgid @ '' AND user_id = '' @ ld k @ '' '' @ by_date)"

definition tg_user_get_by_phone :: "(byte list \<Rightarrow> sqlval list list) \<Rightarrow> int \<Rightarrow> string \<Rightarrow> cstruct option" where
  "tg_user_get_by_phone query tgid phone =
     first_row query ''users'' TG_USER_ARGS (sdec tgid @ '' AND phone = '' @ quote @ phone @ quote @ by_date)"

definition tg_chat_get :: "(byte list \<Rightarrow> sqlval list list) \<Rightarrow> int \<Rightarrow> u64 \<Rightarrow> cstruct option" where
  "tg_chat_get query tgid k = first_row query ''chats'' TG_CHAT_ARGS (sdec tgid @ '' AND chat_id = '' @ ld k @ '' '' @ by_date)"

definition tg_channel_get :: "(byte list \<Rightarrow> sqlval list list) \<Rightarrow> int \<Rightarrow> u64 \<Rightarrow> cstruct option" where
  "tg_channel_get query tgid k =
     first_row query ''channels'' TG_CHANNEL_ARGS (sdec tgid @ '' AND channel_id = '' @ ld k @ '' '' @ by_date)"

section \<open>Searching for channels\<close>

text \<open>
  \<open>cb\<close> is the callback with its data; a result other than 0 ends the loop.  A null pointer among the
  chats is followed.
\<close>

fun tg_parse_channels :: "('s \<Rightarrow> cstruct \<Rightarrow> int \<times> 's) option \<Rightarrow> tobj option list \<Rightarrow> 's \<Rightarrow> (int \<times> 's) option" where
  "tg_parse_channels cb [] s = Some (0, s)"
| "tg_parse_channels cb (None # cs) s = None"
| "tg_parse_channels cb (Some c # cs) s =
     (if o_id c \<noteq> id_channel then tg_parse_channels cb cs s
      else do {
        m \<leftarrow> tg_channel_from_tl c;
        let (stop, s) = (case cb of None \<Rightarrow> (0, s) | Some f \<Rightarrow> f s m);
        if stop \<noteq> 0 then Some (1, s)
        else do { (n, s) \<leftarrow> tg_parse_channels cb cs s; Some (n + 1, s) }
      })"

definition tl_array :: "tobj \<Rightarrow> string \<Rightarrow> tobj option list option" where
  "tl_array p n = (case tl_member p n of
     Some (F_arr k xs) \<Rightarrow>
       (if list_all (\<lambda>f. case f of F_obj x \<Rightarrow> True | _ \<Rightarrow> False) xs
        then Some (map (\<lambda>f. case f of F_obj x \<Rightarrow> x | _ \<Rightarrow> None) xs) else None)
   | _ \<Rightarrow> None)"

text \<open>A length without an array, which a reader leaves that gave up, makes the loops that do not test the pointer follow it.\<close>

definition tl_vector :: "tobj \<Rightarrow> string \<Rightarrow> tobj option list option" where
  "tl_vector p n = (case tl_member p n of
     Some (F_arr k xs) \<Rightarrow> if 0 < sint k \<and> xs = [] then None else tl_array p n
   | _ \<Rightarrow> None)"

definition is_messages :: "tobj \<Rightarrow> bool" where
  "is_messages p \<longleftrightarrow> o_id p \<in> {id_messages_channelMessages, id_messages_messages, id_messages_messagesSlice}"

text \<open>What is done with the answer of the search.\<close>

definition channel_search :: "('s \<Rightarrow> cstruct \<Rightarrow> int \<times> 's) option \<Rightarrow> tobj option \<Rightarrow> 's \<Rightarrow> (int \<times> 's) option" where
  "channel_search cb r s =
     (case r of None \<Rightarrow> Some (0, s)
      | Some p \<Rightarrow> if is_messages p then do { cs \<leftarrow> tl_vector p ''chats_''; tg_parse_channels cb cs s } else Some (0, s))"

text \<open>The asynchronous variant calls \<open>done\<close> at the end.\<close>

definition channel_search_cb :: "('s \<Rightarrow> cstruct \<Rightarrow> int \<times> 's) option \<Rightarrow> ('s \<Rightarrow> 's) option \<Rightarrow> tobj option \<Rightarrow> 's \<Rightarrow> 's option" where
  "channel_search_cb cb on_done r s = do {
     (_, s) \<leftarrow> channel_search cb r s;
     Some (case on_done of None \<Rightarrow> s | Some f \<Rightarrow> f s)
   }"

text \<open>
  The query for the search: \<open>g_searchGlobal\<close> is the generated function for this query, \<open>nobody\<close> the peer
  without a name; \<open>send\<close> sends a query and returns the answer.
\<close>

definition tg_channel_search_global ::
  "(string \<Rightarrow> buf \<Rightarrow> buf \<Rightarrow> int \<Rightarrow> int \<Rightarrow> buf) \<Rightarrow> buf \<Rightarrow> (buf \<Rightarrow> 's \<Rightarrow> tobj option \<times> 's) \<Rightarrow>
    ('s \<Rightarrow> cstruct \<Rightarrow> int \<times> 's) option \<Rightarrow> string \<Rightarrow> buf \<Rightarrow> int \<Rightarrow> int \<Rightarrow> 's \<Rightarrow> (int \<times> 's) option" where
  "tg_channel_search_global g_searchGlobal nobody send cb query filt offset limit s =
     (let (r, s) = send (g_searchGlobal query filt nobody offset limit) s in channel_search cb r s)"

definition tg_channel_set_read ::
  "(u64 \<Rightarrow> u64 \<Rightarrow> buf) \<Rightarrow> (buf \<Rightarrow> u32 \<Rightarrow> buf) \<Rightarrow> (buf \<Rightarrow> 's \<Rightarrow> tobj option \<times> 's) \<Rightarrow> u64 \<Rightarrow> u64 \<Rightarrow> u32 \<Rightarrow> 's \<Rightarrow> int \<times> 's" where
  "tg_channel_set_read g_inputChannel g_readHistory send k access_hash max_id s =
     (0, snd (send (g_readHistory (g_inputChannel k access_hash) max_id) s))"

end
