(* ===== verification/Sql.thy ===== *)
theory Sql
  imports Rows
begin

text \<open>
  What the texts that store a struct mean: a parser of the statements, following the syntax of SQL, and the
  effect of an \<^verbatim>\<open>UPDATE\<close> on a row.  The lemmas connect it with the text that is put together from the list of
  members.
\<close>

section \<open>Reading the statements\<close>

definition chars :: "byte list \<Rightarrow> string" where
  "chars bs = map (\<lambda>b. char_of (unat b)) bs"

definition apos :: char where
  "apos = CHR 0x27"

text \<open>A string literal after its first quote; a quote inside is written twice.\<close>

fun quoted :: "string \<Rightarrow> (string \<times> string) option" where
  "quoted [] = None"
| "quoted [c] = (if c = apos then Some ([], []) else None)"
| "quoted (c # d # s) =
     (if c \<noteq> apos then map_option (\<lambda>(t, r). (c # t, r)) (quoted (d # s))
      else if d = apos then map_option (\<lambda>(t, r). (apos # t, r)) (quoted s)
      else Some ([], d # s))"

definition number :: "string \<Rightarrow> (int \<times> string) option" where
  "number s = (let neg = (s \<noteq> [] \<and> hd s = CHR ''-''); u = (if neg then List.tl s else s); ds = takeWhile isdigit u
     in if ds = [] then None
        else Some (if neg then - int (digits_val 0 ds) else int (digits_val 0 ds), dropWhile isdigit u))"

definition strip :: "string \<Rightarrow> string \<Rightarrow> string option" where
  "strip p s = (if take (length p) s = p then Some (drop (length p) s) else None)"

definition sql_literal :: "string \<Rightarrow> (sqlval \<times> string) option" where
  "sql_literal s = (if s \<noteq> [] \<and> hd s = apos then map_option (\<lambda>(t, r). (Sq_text (str_bytes t), r)) (quoted (List.tl s))
     else map_option (\<lambda>(n, r). (Sq_int n, r)) (number s))"

definition assignment :: "string \<Rightarrow> ((string \<times> sqlval) \<times> string) option" where
  "assignment s = do {
     s \<leftarrow> strip [apos] s;
     (c, s) \<leftarrow> quoted s;
     s \<leftarrow> strip '' = '' s;
     (v, s) \<leftarrow> sql_literal s;
     s \<leftarrow> strip '', '' s;
     Some ((c, v), s)
   }"

text \<open>The assignments to quoted columns and the rest of the statement.\<close>

fun assignments :: "nat \<Rightarrow> string \<Rightarrow> (string \<times> sqlval) list \<times> string" where
  "assignments 0 s = ([], s)"
| "assignments (Suc n) s =
     (case assignment s of None \<Rightarrow> ([], s) | Some (a, r) \<Rightarrow> (let (as, r) = assignments n r in (a # as, r)))"

text \<open>The second line of the text is the \<^verbatim>\<open>UPDATE\<close> statement.\<close>

definition update_of :: "string \<Rightarrow> byte list \<Rightarrow> ((string \<times> sqlval) list \<times> string) option" where
  "update_of tab text = do {
     s \<leftarrow> strip (''UPDATE '' @ [apos] @ tab @ [apos] @ '' SET '') (List.tl (dropWhile (\<lambda>c. c \<noteq> CHR 0x0A) (chars text)));
     Some (assignments (length s) s)
   }"

fun columns_from :: "string \<Rightarrow> string \<Rightarrow> string list" where
  "columns_from acc [] = [acc]"
| "columns_from acc (c # s) =
     (if c = CHR '','' then acc # columns_from [] s
      else if c = CHR '' '' then (if acc = [] then columns_from [] s else [acc])
      else columns_from (acc @ [c]) s)"

text \<open>The columns that a \<^verbatim>\<open>SELECT\<close> asks for.\<close>

definition select_of :: "byte list \<Rightarrow> string list option" where
  "select_of text = map_option (columns_from []) (strip ''SELECT '' (chars text))"

section \<open>The effect on a row\<close>

text \<open>
  A column declared \<^verbatim>\<open>INT\<close> turns a text that reads as a number into that number; \<open>numeric\<close> is how SQLite
  reads it.  The first declaration of a column counts, and the last assignment to it.
\<close>

definition declared_as :: "xrow list \<Rightarrow> string \<Rightarrow> string" where
  "declared_as rows c = (case find (\<lambda>r. x_col r = c) rows of Some r \<Rightarrow> x_sql r | None \<Rightarrow> ''INT'')"

definition affinity :: "(byte list \<Rightarrow> sqlval option) \<Rightarrow> string \<Rightarrow> sqlval \<Rightarrow> sqlval" where
  "affinity numeric ty v = (case v of
     Sq_text s \<Rightarrow> if ty = ''INT'' then (case numeric s of Some n \<Rightarrow> n | None \<Rightarrow> v) else v
   | Sq_int i \<Rightarrow> if ty = ''TEXT'' then Sq_text (str_bytes (sdec i)) else v
   | Sq_null \<Rightarrow> v)"

definition assign :: "(byte list \<Rightarrow> sqlval option) \<Rightarrow> xrow list \<Rightarrow> (string \<times> sqlval) list \<Rightarrow> (string \<Rightarrow> sqlval) \<Rightarrow> string \<Rightarrow> sqlval" where
  "assign numeric rows as row c = (case map_of (rev as) c of None \<Rightarrow> row c | Some v \<Rightarrow> affinity numeric (declared_as rows c) v)"

section \<open>Putting the text together\<close>

lemma chars_append: "chars (xs @ ys) = chars xs @ chars ys"
  by (simp add: chars_def)

lemma chars_str_bytes [simp]: "chars (str_bytes s) = s"
  by (simp add: chars_def str_bytes_def comp_def)

lemma str_bytes_chars [simp]: "str_bytes (chars bs) = bs"
proof -
  have "(of_nat (of_char (char_of (unat b) :: char)) :: byte) = b" for b :: byte
    proof -
    have "unat b < 256" using unsigned_less [of b] by simp
    then show ?thesis by (simp add: of_char_of)
  qed
  then show ?thesis by (simp add: chars_def str_bytes_def comp_def)
qed

lemma str_bytes_append: "str_bytes (s @ t) = str_bytes s @ str_bytes t"
  by (simp add: str_bytes_def)

lemma str_bytes_eq_Nil [simp]: "str_bytes s = [] \<longleftrightarrow> s = []"
  by (simp add: str_bytes_def)

fun piece_bytes :: "piece \<Rightarrow> byte list" where
  "piece_bytes (Fmt t) = str_bytes t"
| "piece_bytes (Raw m) = m"

fun piece_ok :: "piece \<Rightarrow> bool" where
  "piece_ok (Fmt t) \<longleftrightarrow> length t < BUFSIZ - 1 \<and> CHR 0x00 \<notin> set t"
| "piece_ok (Raw m) \<longleftrightarrow> 0 \<notin> set m"

definition all_bytes :: "piece list \<Rightarrow> byte list" where
  "all_bytes ps = concat (map piece_bytes ps)"

lemma all_bytes_simps [simp]:
  "all_bytes [] = []" "all_bytes (p # ps) = piece_bytes p @ all_bytes ps" "all_bytes (ps @ ps') = all_bytes ps @ all_bytes ps'"
  by (simp_all add: all_bytes_def)

lemma add_pieces_holds:
  assumes "str_holds s xs" and "\<forall>p \<in> set ps. piece_ok p" and "length xs + length (all_bytes ps) + 1 < 2 ^ 31"
  shows "\<exists>s'. add_pieces s ps = Some s' \<and> str_holds s' (xs @ all_bytes ps)"
  using assms
proof (induction ps arbitrary: s xs)
  case (Cons p ps)
  have "\<exists>s1. add_piece s p = Some s1 \<and> str_holds s1 (xs @ piece_bytes p)"
  proof (cases p)
    case (Fmt t)
    with Cons.prems show ?thesis using str_appendf_holds [OF Cons.prems(1), of t] by simp
  next
    case (Raw m)
    with Cons.prems show ?thesis using str_append_holds [OF Cons.prems(1), of "length m" "m @ [0]"] by simp
  qed
  then obtain s1 where s1: "add_piece s p = Some s1" "str_holds s1 (xs @ piece_bytes p)" by blast
  then show ?case using Cons.IH [OF s1(2)] Cons.prems by simp
qed simp

lemma holds_takeWhile:
  assumes "str_holds s xs" and "0 \<notin> set xs"
  shows "takeWhile (\<lambda>c. c \<noteq> 0) (st_str s) = xs"
proof -
  have h: "length xs < length (st_str s)" "take (length xs) (st_str s) = xs" "st_str s ! length xs = 0"
    using assms(1) by (simp_all add: str_holds_def)
  have "st_str s = xs @ 0 # drop (Suc (length xs)) (st_str s)"
    using h by (metis append_take_drop_id Cons_nth_drop_Suc)
  moreover have "takeWhile (\<lambda>c. c \<noteq> 0) (xs @ 0 # zs) = xs" for zs
    using assms(2) by (induction xs) auto
  ultimately show ?thesis by metis
qed

lemma char_zero: "char_of (0 :: nat) = CHR 0x00"
  by code_simp

lemma nonzero_str: "CHR 0x00 \<notin> set t \<Longrightarrow> 0 \<notin> set (str_bytes t)"
proof (induction t)
  case (Cons c t)
  have "(of_nat (of_char c) :: byte) \<noteq> 0"
    using Cons.prems char_of_byte [of c] by (metis char_zero list.set_intros(1) unsigned_0)
  with Cons show ?case by (simp add: str_bytes_def)
qed (simp add: str_bytes_def)

lemma all_bytes_nonzero: "\<forall>p \<in> set ps. piece_ok p \<Longrightarrow> 0 \<notin> set (all_bytes ps)"
proof (induction ps)
  case (Cons p ps)
  then show ?case by (cases p) (auto dest: nonzero_str)
qed simp

text \<open>The text is the pieces one after another.\<close>

lemma sql_text_eq:
  assumes "\<forall>p \<in> set ps. piece_ok p" and "length (all_bytes ps) + 1 < 2 ^ 31"
  shows "sql_text ps = Some (all_bytes ps)"
  using add_pieces_holds [OF holds_init assms(1)] assms(2) holds_takeWhile all_bytes_nonzero [OF assms(1)]
  by (fastforce simp: sql_text_def)

section \<open>Reading what was put together\<close>

lemma quoted_plain: "apos \<notin> set t \<Longrightarrow> r = [] \<or> hd r \<noteq> apos \<Longrightarrow> quoted (t @ apos # r) = Some (t, r)"
proof (induction t)
  case Nil
  then show ?case by (cases r) auto
next
  case (Cons c t)
  then show ?case by (cases t) auto
qed

lemma number_sdec:
  assumes "r = [] \<or> \<not> isdigit (hd r)"
  shows "number (sdec v @ r) = Some (v, r)"
proof -
  have t: "takeWhile isdigit (dec n @ r) = dec n" "dropWhile isdigit (dec n @ r) = r" for n
    using assms dec_digits [of _ n] by (cases r; simp add: takeWhile_append dropWhile_append)+
  have h: "hd (dec n @ r) \<noteq> CHR ''-''" for n
    using hd_dec_digit [of n] dec_nonempty [of n] by (auto simp: isdigit_def)
  show ?thesis
    using t h dec_nonempty by (simp add: number_def sdec_def digits_val_dec Let_def)
qed

lemma strip_append [simp]: "strip p (p @ s) = Some s"
  by (simp add: strip_def)

lemma hd_sdec: "sdec v \<noteq> [] \<and> hd (sdec v) \<noteq> apos"
proof -
  have "\<not> isdigit apos" by (simp add: apos_def isdigit_def)
  moreover have "apos \<noteq> CHR ''-''" by (simp add: apos_def)
  ultimately show ?thesis using dec_nonempty hd_dec_digit by (auto simp: sdec_def) metis
qed

definition plain_col :: "string \<Rightarrow> bool" where
  "plain_col c \<longleftrightarrow> length c < 100 \<and> list_all (\<lambda>x. x \<noteq> apos \<and> x \<noteq> CHR 0x00 \<and> x \<noteq> CHR 0x0A \<and> x \<noteq> CHR '','' \<and> x \<noteq> CHR '' '') c \<and> c \<noteq> []"

lemma plain_colD: "plain_col c \<Longrightarrow> length c < 100 \<and> apos \<notin> set c \<and> CHR 0x00 \<notin> set c \<and> CHR 0x0A \<notin> set c \<and> CHR '','' \<notin> set c \<and> CHR '' '' \<notin> set c \<and> c \<noteq> []"
  by (auto simp: plain_col_def list_all_iff)

lemma assignment_int: "plain_col c \<Longrightarrow> assignment ([apos] @ c @ [apos] @ '' = '' @ sdec v @ '', '' @ s) = Some ((c, Sq_int v), s)"
proof -
  assume "plain_col c"
  then have c: "apos \<notin> set c" by (simp add: plain_colD)
  have "quoted (c @ apos # '' = '' @ sdec v @ '', '' @ s) = Some (c, '' = '' @ sdec v @ '', '' @ s)"
    using c by (intro quoted_plain) (simp_all add: apos_def)
  moreover have "sql_literal (sdec v @ '', '' @ s) = Some (Sq_int v, '', '' @ s)"
    using number_sdec [of "'', '' @ s" v] hd_sdec [of v] by (auto simp: sql_literal_def isdigit_def)
  ultimately show ?thesis
    using strip_append [of "[apos]"] strip_append [of "'' = ''"] strip_append [of "'', ''"] by (simp add: assignment_def)
qed

lemma assignment_text:
  assumes "plain_col c" and "apos \<notin> set (chars t)"
  shows "assignment ([apos] @ c @ [apos] @ '' = '' @ [apos] @ chars t @ [apos] @ '', '' @ s) = Some ((c, Sq_text t), s)"
proof -
  have c: "apos \<notin> set c" using assms(1) by (simp add: plain_colD)
  have "quoted (c @ apos # '' = '' @ [apos] @ chars t @ [apos] @ '', '' @ s) = Some (c, '' = '' @ [apos] @ chars t @ [apos] @ '', '' @ s)"
    using c by (intro quoted_plain) (simp_all add: apos_def)
  moreover have "sql_literal ([apos] @ chars t @ [apos] @ '', '' @ s) = Some (Sq_text t, '', '' @ s)"
    using quoted_plain [of "chars t" "'', '' @ s"] assms(2) by (simp add: sql_literal_def apos_def)
  ultimately show ?thesis
    using strip_append [of "[apos]"] strip_append [of "'' = ''"] strip_append [of "'', ''"] by (simp add: assignment_def)
qed

text \<open>What the piece for one member assigns.\<close>

definition col_assigns :: "bool \<Rightarrow> bool \<Rightarrow> cstruct \<Rightarrow> xrow \<Rightarrow> (string \<times> sqlval) list" where
  "col_assigns nonempty minimal st r =
     (if is_text r then
        (case str_of (st (x_field r)) of None \<Rightarrow> [] | Some s \<Rightarrow> if nonempty \<and> s = [] then [] else [(x_col r, Sq_text s)])
      else if x_kind r = X_arg \<and> minimal \<and> x_ifmin r = 1 then []
      else [(x_col r, Sq_int (sint (num_val (st (x_field r)))))])"

text \<open>The strings of the struct: zero terminated, and without an apostrophe.\<close>

definition clean :: "byte list \<Rightarrow> bool" where
  "clean s \<longleftrightarrow> 0 \<notin> set s \<and> 39 \<notin> set s"

lemma char_apos: "char_of (39 :: nat) = apos"
  by code_simp

lemma clean_chars: "clean s \<Longrightarrow> apos \<notin> set (chars s)"
proof
  assume "clean s" and "apos \<in> set (chars s)"
  then obtain b where b: "b \<in> set s" "char_of (unat b) = apos" by (auto simp: chars_def)
  have "chars [b] = chars [39]"
    using b(2) char_apos by (simp add: chars_def)
  then have "b = 39" by (metis str_bytes_chars list.inject)
  with b(1) \<open>clean s\<close> show False by (simp add: clean_def)
qed

definition strings_clean :: "xrow list \<Rightarrow> cstruct \<Rightarrow> bool" where
  "strings_clean rows st \<longleftrightarrow> (\<forall>r \<in> set rows. is_text r \<longrightarrow> (case str_of (st (x_field r)) of None \<Rightarrow> True | Some s \<Rightarrow> clean s))"

lemma col_assigned:
  assumes "plain_col (x_col r)" and "strings_clean [r] st"
  shows "col_assigns e m st r = [] \<and> all_bytes (col_pieces e m st r) = [] \<or>
    (\<exists>a. col_assigns e m st r = [a] \<and> (\<forall>s. assignment (chars (all_bytes (col_pieces e m st r)) @ s) = Some (a, s)) \<and>
      all_bytes (col_pieces e m st r) \<noteq> [])"
proof (cases "is_text r")
  case True
  show ?thesis
  proof (cases "str_of (st (x_field r))")
    case (Some t)
    then have "apos \<notin> set (chars t)" using assms(2) True by (simp add: strings_clean_def clean_chars)
    then show ?thesis
      using True Some assignment_text [OF assms(1), of t]
      by (auto simp: col_assigns_def col_pieces_def quote_def apos_def chars_append str_bytes_append)
  qed (use True in \<open>simp add: col_assigns_def col_pieces_def\<close>)
next
  case False
  then show ?thesis
    using assignment_int [OF assms(1), of "sint (num_val (st (x_field r)))"]
    by (auto simp: col_assigns_def col_pieces_def quote_def apos_def chars_append ld_def)
qed

lemma assignments_cols:
  assumes "\<forall>r \<in> set rows. plain_col (x_col r)" and "strings_clean rows st"
  shows "assignments (length (concat (map (col_assigns e m st) rows)) + n) (chars (all_bytes (concat (map (col_pieces e m st) rows))) @ s) =
    (concat (map (col_assigns e m st) rows) @ fst (assignments n s), snd (assignments n s))"
  using assms
proof (induction rows)
  case Nil
  then show ?case by (simp add: chars_def)
next
  case (Cons r rows)
  have c: "plain_col (x_col r)" "strings_clean [r] st" "strings_clean rows st" using Cons.prems(1,2) by (auto simp: strings_clean_def)
  from col_assigned [OF c(1,2), of e m] show ?case
  proof
    assume "col_assigns e m st r = [] \<and> all_bytes (col_pieces e m st r) = []"
    then show ?thesis using Cons.IH Cons.prems c(3) by simp
  next
    assume "\<exists>a. col_assigns e m st r = [a] \<and> (\<forall>s. assignment (chars (all_bytes (col_pieces e m st r)) @ s) = Some (a, s)) \<and>
      all_bytes (col_pieces e m st r) \<noteq> []"
    then obtain a where "col_assigns e m st r = [a]" "\<And>s. assignment (chars (all_bytes (col_pieces e m st r)) @ s) = Some (a, s)"
      by blast
    then show ?thesis using Cons.IH Cons.prems c(3) by (simp add: chars_append split_beta)
  qed
qed

lemma assignments_end: "assignment s = None \<Longrightarrow> assignments n s = ([], s)"
  by (cases n) auto

lemma assigns_length:
  assumes "\<forall>r \<in> set rows. plain_col (x_col r)" and "strings_clean rows st"
  shows "length (concat (map (col_assigns e m st) rows)) \<le> length (chars (all_bytes (concat (map (col_pieces e m st) rows))))"
  using assms
proof (induction rows)
  case (Cons r rows)
  have c: "plain_col (x_col r)" "strings_clean [r] st" "strings_clean rows st" using Cons.prems by (auto simp: strings_clean_def)
  have "length (col_assigns e m st r) \<le> length (all_bytes (col_pieces e m st r))"
    using col_assigned [OF c(1,2), of e m] by (cases "all_bytes (col_pieces e m st r)") auto
  then show ?case using Cons.IH c(3) Cons.prems(1) by (simp add: chars_append chars_def)
qed simp

section \<open>The size of the text\<close>

definition text_size :: "xrow list \<Rightarrow> cstruct \<Rightarrow> nat" where
  "text_size rows st = (\<Sum>r \<leftarrow> rows. if is_text r then (case str_of (st (x_field r)) of None \<Rightarrow> 0 | Some s \<Rightarrow> length s) else 0)"

lemma length_sdec64: "- (2 ^ 63) \<le> v \<Longrightarrow> v < 2 ^ 63 \<Longrightarrow> length (sdec v) \<le> 20"
proof -
  assume v: "- (2 ^ 63) \<le> v" "v < 2 ^ 63"
  then have "nat v < 10 ^ Suc 18" "nat (- v) < 10 ^ Suc 18" by simp_all
  from length_dec [OF this(1)] length_dec [OF this(2)] show ?thesis by (simp add: sdec_def)
qed

lemma length_ld: "length (ld v) \<le> 20"
  using sint_greater_eq [of v] sint_less [of v] by (auto simp: ld_def intro!: length_sdec64)

lemma col_length:
  "plain_col (x_col r) \<Longrightarrow> length (all_bytes (col_pieces e m st r)) \<le> 130 + (if is_text r then (case str_of (st (x_field r)) of None \<Rightarrow> 0 | Some s \<Rightarrow> length s) else 0)"
  using length_ld [of "num_val (st (x_field r))"] by (auto simp: col_pieces_def quote_def dest!: plain_colD split: option.split)

lemma cols_length:
  "\<forall>r \<in> set rows. plain_col (x_col r) \<Longrightarrow> length (all_bytes (concat (map (col_pieces e m st) rows))) \<le> 130 * length rows + text_size rows st"
proof (induction rows)
  case (Cons r rows)
  then show ?case using col_length [of r e m st] by (simp add: text_size_def)
qed (simp add: text_size_def)

section \<open>The text of a struct\<close>

lemma sdec_chars: "c \<in> set (sdec v) \<Longrightarrow> c = CHR ''-'' \<or> isdigit c"
  using dec_digits by (auto simp: sdec_def split: if_splits)

lemma sdec_plain: "CHR 0x00 \<notin> set (sdec v)" "CHR 0x0A \<notin> set (sdec v)"
  using sdec_chars [of _ v] by (auto simp: isdigit_def dest!: sdec_chars)

definition strings_whole :: "xrow list \<Rightarrow> cstruct \<Rightarrow> bool" where
  "strings_whole rows st \<longleftrightarrow> (\<forall>r \<in> set rows. is_text r \<longrightarrow> (case str_of (st (x_field r)) of None \<Rightarrow> True | Some s \<Rightarrow> 0 \<notin> set s))"

lemma clean_whole: "strings_clean rows st \<Longrightarrow> strings_whole rows st"
  by (auto simp: strings_clean_def strings_whole_def clean_def split: option.splits)

lemma col_pieces_ok:
  "plain_col (x_col r) \<Longrightarrow> strings_whole [r] st \<Longrightarrow> p \<in> set (col_pieces e m st r) \<Longrightarrow> piece_ok p"
  using length_ld [of "num_val (st (x_field r))"]
  by (auto simp: col_pieces_def quote_def BUFSIZ_def ld_def sdec_plain strings_whole_def
      dest!: plain_colD split: if_splits option.splits)

definition head_text :: "string \<Rightarrow> string \<Rightarrow> u64 \<Rightarrow> string" where
  "head_text tab key k = ''INSERT INTO '' @ quote @ tab @ quote @ '' ('' @ quote @ key @ quote @ '') SELECT  '' @ ld k @
        '' WHERE NOT EXISTS (SELECT 1 FROM '' @ tab @ '' WHERE '' @ key @ '' = '' @ ld k @ '');''"

definition tail_text :: "string \<Rightarrow> int \<Rightarrow> u64 \<Rightarrow> string" where
  "tail_text key tgid k = ''id = '' @ sdec tgid @ '' WHERE '' @ key @ '' = '' @ ld k @ '';'' @ nl"

lemma save_pieces_eq:
  "save_pieces tab key e m rows tgid k st =
    [Fmt (head_text tab key k @ nl), Fmt (''UPDATE '' @ quote @ tab @ quote @ '' SET '')] @
     concat (map (col_pieces e m st) rows) @ [Fmt (tail_text key tgid k)]"
  by (simp add: save_pieces_def head_text_def tail_text_def)

lemma save_bytes:
  assumes "plain_col tab" and "plain_col key" and "\<forall>r \<in> set rows. plain_col (x_col r)" and "strings_whole rows st"
    and "length rows < 1000" and "text_size rows st < 2 ^ 30" and "- (2 ^ 31) \<le> tgid" "tgid < 2 ^ 31"
  shows "\<exists>text body. sql_text (save_pieces tab key e m rows tgid k st) = Some text \<and>
    body = chars (all_bytes (concat (map (col_pieces e m st) rows))) @ tail_text key tgid k \<and>
    update_of tab text = Some (assignments (length body) body)"
proof -
  let ?ps = "save_pieces tab key e m rows tgid k st"
  let ?body = "chars (all_bytes (concat (map (col_pieces e m st) rows))) @ tail_text key tgid k"
  have t: "length tab < 100" "length key < 100" using assms(1,2) by (auto dest: plain_colD)
  have h: "length (head_text tab key k) \<le> 600" "length (tail_text key tgid k) \<le> 600"
    using t length_ld [of k] length_sdec [OF assms(7,8)] by (simp_all add: head_text_def tail_text_def quote_def nl_def)
  have z: "CHR 0x00 \<notin> set (head_text tab key k)" "CHR 0x00 \<notin> set (tail_text key tgid k)" "CHR 0x0A \<notin> set (head_text tab key k)"
    using assms(1,2) by (auto simp: head_text_def tail_text_def quote_def nl_def ld_def sdec_plain dest!: plain_colD)
  have "\<forall>p \<in> set ?ps. piece_ok p"
  proof -
    have "\<forall>r \<in> set rows. strings_whole [r] st" using assms(4) by (simp add: strings_whole_def)
    then have "\<forall>p \<in> set (concat (map (col_pieces e m st) rows)). piece_ok p" using assms(3) col_pieces_ok by fastforce
    moreover have "CHR 0x00 \<notin> set tab" using assms(1) by (simp add: plain_colD)
    ultimately show ?thesis using h t z by (auto simp: save_pieces_eq quote_def nl_def BUFSIZ_def)
  qed
  moreover have "length (all_bytes ?ps) + 1 < 2 ^ 31"
    using cols_length [OF assms(3), of e m st] h t assms(5,6) by (simp add: save_pieces_eq quote_def nl_def)
  ultimately have s: "sql_text ?ps = Some (all_bytes ?ps)" by (rule sql_text_eq)
  have d: "List.tl (dropWhile (\<lambda>c. c \<noteq> CHR 0x0A) (head_text tab key k @ nl @ r)) = r" for r
    using z(3) by (subst dropWhile_append2) (auto simp: nl_def)
  have c: "chars (all_bytes ?ps) = head_text tab key k @ nl @ (''UPDATE '' @ [apos] @ tab @ [apos] @ '' SET '') @ ?body"
    by (simp add: save_pieces_eq chars_append apos_def quote_def)
  have "update_of tab (all_bytes ?ps) = Some (assignments (length ?body) ?body)"
    unfolding update_of_def c d strip_append by simp
  with s show ?thesis by blast
qed

lemma tail_no_assignment: "assignments n (tail_text key tgid k) = ([], tail_text key tgid k)"
  by (rule assignments_end) (simp add: assignment_def tail_text_def strip_def apos_def)

text \<open>The statement assigns to the columns what the members hold, in the order of the list.\<close>

lemma save_text:
  assumes "plain_col tab" and "plain_col key" and "\<forall>r \<in> set rows. plain_col (x_col r)" and "strings_clean rows st"
    and "length rows < 1000" and "text_size rows st < 2 ^ 30" and "- (2 ^ 31) \<le> tgid" "tgid < 2 ^ 31"
  shows "\<exists>text. sql_text (save_pieces tab key e m rows tgid k st) = Some text \<and>
    update_of tab text = Some (concat (map (col_assigns e m st) rows), tail_text key tgid k)"
proof -
  let ?body = "chars (all_bytes (concat (map (col_pieces e m st) rows))) @ tail_text key tgid k"
  obtain j where "length ?body = length (concat (map (col_assigns e m st) rows)) + j"
    using assigns_length [OF assms(3,4), of e m] le_Suc_ex by (metis length_append trans_le_add1)
  then have "assignments (length ?body) ?body = (concat (map (col_assigns e m st) rows), tail_text key tgid k)"
    using assignments_cols [OF assms(3,4), of e m] by (simp add: tail_no_assignment)
  then show ?thesis
    using save_bytes [OF assms(1-3) clean_whole [OF assms(4)] assms(5-8), of e m k] by metis
qed

section \<open>From a struct to a row and back\<close>

lemma last_assignment:
  assumes "\<forall>r \<in> set rows. \<forall>(c, v) \<in> set (g r). c = x_col r" and "\<forall>r' \<in> set rows. x_col r' = c \<longrightarrow> g r' = as"
  shows "map_of (rev (concat (map g rows))) c = (if c \<in> x_col ` set rows then map_of (rev as) c else None)"
  using assms
proof (induction rows)
  case (Cons r rows)
  then have IH: "map_of (rev (concat (map g rows))) c = (if c \<in> x_col ` set rows then map_of (rev as) c else None)" by simp
  show ?case
  proof (cases "x_col r = c")
    case True
    with Cons.prems IH show ?thesis by (auto simp: map_add_def split: option.split)
  next
    case False
    then have "map_of (rev (g r)) c = None" using Cons.prems(1) by (fastforce simp: map_of_eq_None_iff)
    with False IH show ?thesis by (auto simp: map_add_def split: option.split)
  qed
qed simp

definition reads_cell :: "xrow \<Rightarrow> sqlval \<Rightarrow> xcell \<Rightarrow> xcell \<Rightarrow> bool" where
  "reads_cell r v old new \<longleftrightarrow>
     (if is_text r then new = (if column_text v \<noteq> [] then S (Some (takeWhile (\<lambda>c. c \<noteq> 0) (column_text v))) else old)
      else (\<exists>n. column_int64 v = Some n \<and> new = N (narrow (x_type r) n)))"

lemma read_row_eq:
  "distinct (map x_field rows) \<Longrightarrow> \<forall>r \<in> set rows. reads_cell r (f r) (st (x_field r)) (g (x_field r)) \<Longrightarrow>
   read_row rows (map f rows @ vs) st = Some (\<lambda>n. if n \<in> x_field ` set rows then g n else st n)"
proof (induction rows arbitrary: st)
  case (Cons r rows)
  let ?st = "st(x_field r := g (x_field r))"
  have "read_row (r # rows) (map f (r # rows) @ vs) st = read_row rows (map f rows @ vs) ?st"
    using Cons.prems(2) by (auto simp: reads_cell_def fun_upd_idem_iff)
  also have "\<dots> = Some (\<lambda>n. if n \<in> x_field ` set rows then g n else ?st n)"
  proof (rule Cons.IH)
    have "x_field r' \<noteq> x_field r" if "r' \<in> set rows" for r'
      using Cons.prems(1) that by (auto simp: image_iff)
    then show "\<forall>r \<in> set rows. reads_cell r (f r) (?st (x_field r)) (g (x_field r))" using Cons.prems(2) by simp
  qed (use Cons.prems(1) in simp)
  finally show ?case by (auto simp: fun_eq_iff)
qed simp

text \<open>The struct has a cell of the right sort for every member.\<close>

definition members :: "xrow list \<Rightarrow> cstruct \<Rightarrow> bool" where
  "members rows m \<longleftrightarrow>
     (\<forall>r \<in> set rows. case m (x_field r) of S s \<Rightarrow> is_text r | N v \<Rightarrow> \<not> is_text r \<and> narrow (x_type r) v = v) \<and>
     (\<forall>n. n \<notin> x_field ` set rows \<longrightarrow> m n = N 0)"

definition no_empty :: "cstruct \<Rightarrow> cstruct" where
  "no_empty m n = (if m n = S (Some []) then S None else m n)"

definition numbers_kept :: "(byte list \<Rightarrow> sqlval option) \<Rightarrow> xrow list \<Rightarrow> cstruct \<Rightarrow> bool" where
  "numbers_kept numeric rows m \<longleftrightarrow>
     (\<forall>r \<in> set rows. is_text r \<longrightarrow> declared_as rows (x_col r) = ''INT'' \<longrightarrow>
       (case str_of (m (x_field r)) of None \<Rightarrow> True | Some s \<Rightarrow> numeric s = None))"

lemma row_roundtrip:
  assumes "distinct (map x_field rows)" and "members rows m" and "strings_clean rows m" and "numbers_kept numeric rows m"
    and "\<forall>r \<in> set rows. \<not> is_text r \<longrightarrow> declared_as rows (x_col r) = ''INT''"
    and "\<forall>r \<in> set rows. \<forall>r' \<in> set rows. x_col r' = x_col r \<longrightarrow> col_assigns True False m r' = col_assigns True False m r"
  shows "read_row rows (map (assign numeric rows (concat (map (col_assigns True False m) rows)) (\<lambda>_. Sq_null)) (map x_col rows) @ vs)
    (zeroed rows) = Some (no_empty m)"
proof -
  let ?as = "concat (map (col_assigns True False m) rows)"
  let ?f = "\<lambda>r. assign numeric rows ?as (\<lambda>_. Sq_null) (x_col r)"
  have z: "zeroed rows n = N 0" if "n \<notin> x_field ` set rows" for n using that by (auto simp: zeroed_def)
  have "reads_cell r (?f r) (zeroed rows (x_field r)) (no_empty m (x_field r))" if r: "r \<in> set rows" for r
  proof -
    have k: "\<forall>r \<in> set rows. \<forall>(c, v) \<in> set (col_assigns True False m r). c = x_col r"
      by (auto simp: col_assigns_def split: option.splits)
    have "\<forall>r' \<in> set rows. x_col r' = x_col r \<longrightarrow> col_assigns True False m r' = col_assigns True False m r"
      using assms(6) r by blast
    from last_assignment [OF k this] r
    have "map_of (rev ?as) (x_col r) = map_of (rev (col_assigns True False m r)) (x_col r)" by simp
    then have f: "?f r = (case map_of (rev (col_assigns True False m r)) (x_col r) of None \<Rightarrow> Sq_null
        | Some v \<Rightarrow> affinity numeric (declared_as rows (x_col r)) v)"
      by (simp add: assign_def)
    have mr: "case m (x_field r) of S s \<Rightarrow> is_text r | N v \<Rightarrow> \<not> is_text r \<and> narrow (x_type r) v = v"
      using assms(2) r by (simp add: members_def)
    show ?thesis
    proof (cases "is_text r")
      case True
      with mr obtain s where s: "m (x_field r) = S s" by (cases "m (x_field r)") simp_all
      have zr: "zeroed rows (x_field r) = S None" using r True by (auto simp: zeroed_def)
      show ?thesis
      proof (cases "s = None \<or> s = Some []")
        case empty: True
        with True s f zr show ?thesis by (auto simp: reads_cell_def col_assigns_def column_text_def no_empty_def)
      next
        case False
        then obtain t where t: "s = Some t" "t \<noteq> []" by auto
        have "clean t" "declared_as rows (x_col r) = ''INT'' \<longrightarrow> numeric t = None"
          using assms(3,4) r True s t by (auto simp: strings_clean_def numbers_kept_def)
        moreover from this(1) have "takeWhile (\<lambda>c. c \<noteq> 0) t = t" by (auto simp: clean_def takeWhile_eq_all_conv)
        ultimately show ?thesis
          using True s t f
          by (auto simp: reads_cell_def col_assigns_def column_text_def no_empty_def affinity_def simp del: takeWhile_eq_all_conv)
      qed
    next
      case False
      with mr obtain v where v: "m (x_field r) = N v" "narrow (x_type r) v = v" by (cases "m (x_field r)") simp_all
      then show ?thesis
        using False f assms(5) r by (auto simp: reads_cell_def col_assigns_def column_int64_def no_empty_def affinity_def)
    qed
  qed
  then have "read_row rows (map ?f rows @ vs) (zeroed rows) = Some (\<lambda>n. if n \<in> x_field ` set rows then no_empty m n else zeroed rows n)"
    by (intro read_row_eq assms(1)) simp
  also have "(\<lambda>n. if n \<in> x_field ` set rows then no_empty m n else zeroed rows n) = no_empty m"
    using z assms(2) by (auto simp: fun_eq_iff members_def no_empty_def)
  finally show ?thesis by (simp add: comp_def)
qed

section \<open>The columns of a query\<close>

lemma columns_name:
  "CHR '','' \<notin> set c \<Longrightarrow> CHR '' '' \<notin> set c \<Longrightarrow> columns_from acc (c @ CHR '','' # s) = (acc @ c) # columns_from [] s"
  by (induction c arbitrary: acc) auto

lemma select_text:
  assumes "\<forall>r \<in> set rows. plain_col (x_col r)" and "plain_col tab" and "length rows < 1000" and "length rest_text < 500" "CHR 0x00 \<notin> set rest_text"
  shows "\<exists>sql. sql_text (select_pieces tab rows rest_text) = Some sql \<and> select_of sql = Some (map x_col rows @ [''id''])"
proof -
  let ?ps = "select_pieces tab rows rest_text"
  let ?tail = "''id FROM '' @ tab @ '' WHERE id = '' @ rest_text"
  have cols: "chars (all_bytes (map (\<lambda>r. Fmt (x_col r @ '', '')) rs)) = concat (map (\<lambda>r. x_col r @ '', '') rs)" for rs :: "xrow list"
    by (induction rs) (simp_all add: chars_append, simp add: chars_def)
  have len: "length (all_bytes (map (\<lambda>r. Fmt (x_col r @ '', '')) rs)) \<le> 102 * length rs" if "\<forall>r \<in> set rs. plain_col (x_col r)" for rs :: "xrow list"
    using that by (induction rs) (auto dest!: plain_colD)
  have "\<forall>p \<in> set ?ps. piece_ok p"
    using assms by (auto simp: select_pieces_def BUFSIZ_def dest!: plain_colD)
  moreover have "length (all_bytes ?ps) + 1 < 2 ^ 31"
    using len [OF assms(1)] assms(2-4) by (auto simp: select_pieces_def dest!: plain_colD)
  ultimately have s: "sql_text ?ps = Some (all_bytes ?ps)" by (rule sql_text_eq)
  have c: "columns_from [] (concat (map (\<lambda>r. x_col r @ '', '') rs) @ ?tail) = map x_col rs @ [''id'']" if "\<forall>r \<in> set rs. plain_col (x_col r)" for rs
    using that
  proof (induction rs)
    case Nil
    then show ?case by simp
  next
    case (Cons r rs)
    then show ?case using columns_name [of "x_col r" "[]"] by (auto dest!: plain_colD)
  qed
  have "chars (all_bytes ?ps) = ''SELECT '' @ concat (map (\<lambda>r. x_col r @ '', '') rows) @ ?tail"
    by (simp add: select_pieces_def chars_append cols)
  then have "select_of (all_bytes ?ps) = map_option (columns_from []) (strip ''SELECT '' (''SELECT '' @ concat (map (\<lambda>r. x_col r @ '', '') rows) @ ?tail))"
    by (simp only: select_of_def)
  also have "\<dots> = Some (map x_col rows @ [''id''])"
    unfolding strip_append using c [OF assms(1)] by simp
  finally have "select_of (all_bytes ?ps) = Some (map x_col rows @ [''id''])" .
  with s show ?thesis by blast
qed

end
