(* ===== verification/People_Props.thy ===== *)
theory People_Props
  imports People Sql
begin

text \<open>
  What is stored about users, chats and channels, and what is read back: the round trip through the text of the
  statement and the row, the two members of a chat that share a column, and strings with an apostrophe.
\<close>

section \<open>Storing and reading back\<close>

text \<open>
  The table holds the one row that the \<^verbatim>\<open>UPDATE\<close> has filled in after the \<^verbatim>\<open>INSERT\<close> has made it, and a query
  returns the columns it names of this row.
\<close>

definition table_answers :: "(byte list \<Rightarrow> sqlval option) \<Rightarrow> xrow list \<Rightarrow> string \<Rightarrow> byte list option \<Rightarrow> (byte list \<Rightarrow> sqlval list list) \<Rightarrow> bool" where
  "table_answers numeric rows tab saved query \<longleftrightarrow>
     (\<forall>text as w sql cols. saved = Some text \<longrightarrow> update_of tab text = Some (as, w) \<longrightarrow> select_of sql = Some cols \<longrightarrow>
       query sql = [map (assign numeric rows as (\<lambda>_. Sq_null)) cols])"

text \<open>What is computed once for each of the lists; reversed names differ earlier.\<close>

definition good_rows :: "xrow list \<Rightarrow> bool" where
  "good_rows rows \<longleftrightarrow> list_all (\<lambda>r. plain_col (x_col r)) rows \<and> distinct (map (\<lambda>r. rev (x_field r)) rows) \<and> length rows < 1000 \<and>
     list_all (\<lambda>r. is_text r \<or> x_sql r = ''INT'') rows"

lemma good_users: "good_rows TG_USER_ARGS"
  by code_simp

lemma good_chats: "good_rows TG_CHAT_ARGS"
  by code_simp

lemma good_channels: "good_rows TG_CHANNEL_ARGS"
  by code_simp

lemma distinct_rev: "distinct (map (\<lambda>r. rev (f r)) rows) \<Longrightarrow> distinct (map f rows)"
  by (auto simp: distinct_map inj_on_def)

lemma distinct_users: "distinct (map x_col TG_USER_ARGS)"
  by (rule distinct_rev) code_simp

lemma distinct_channels: "distinct (map x_col TG_CHANNEL_ARGS)"
  by (rule distinct_rev) code_simp

lemma same_col: "distinct (map x_col rows) \<Longrightarrow> r \<in> set rows \<Longrightarrow> r' \<in> set rows \<Longrightarrow> x_col r' = x_col r \<Longrightarrow> r' = r"
  by (auto simp: distinct_map dest: inj_onD)

lemma declared_same:
  assumes "r \<in> set rows" and "\<And>r'. r' \<in> set rows \<Longrightarrow> x_col r' = x_col r \<Longrightarrow> x_sql r' = x_sql r"
  shows "declared_as rows (x_col r) = x_sql r"
proof (cases "find (\<lambda>r'. x_col r' = x_col r) rows")
  case None
  then show ?thesis using assms(1) by (auto simp: find_None_iff)
next
  case (Some r')
  then have "r' \<in> set rows" "x_col r' = x_col r" by (auto simp: find_Some_iff)
  with Some show ?thesis using assms(2) by (simp add: declared_as_def)
qed

lemma get_saved:
  assumes "good_rows rows" and "plain_col tab" "plain_col key" and "members rows m" and "strings_clean rows m" and "text_size rows m < 2 ^ 30"
    and "numbers_kept numeric rows m'" "members rows m'" "strings_clean rows m'"
    and "- (2 ^ 31) \<le> tgid" "tgid < 2 ^ 31" and "length rest_text < 500" "CHR 0x00 \<notin> set rest_text"
    and same: "\<And>r r'. r \<in> set rows \<Longrightarrow> r' \<in> set rows \<Longrightarrow> x_col r' = x_col r \<Longrightarrow> col_assigns True False m' r' = col_assigns True False m' r"
    and sql: "\<And>r r'. r \<in> set rows \<Longrightarrow> r' \<in> set rows \<Longrightarrow> x_col r' = x_col r \<Longrightarrow> x_sql r' = x_sql r"
    and eq: "map_of (rev (concat (map (col_assigns True False m) rows))) = map_of (rev (concat (map (col_assigns True False m') rows)))"
    and "table_answers numeric rows tab (sql_text (save_pieces tab key True False rows tgid k m)) query"
  shows "(\<exists>text. sql_text (save_pieces tab key True False rows tgid k m) = Some text \<and>
      update_of tab text = Some (concat (map (col_assigns True False m) rows), tail_text key tgid k)) \<and>
    first_row query tab rows rest_text = Some (no_empty m')"
proof -
  have good: "list_all (\<lambda>r. plain_col (x_col r)) rows" "distinct (map (\<lambda>r. rev (x_field r)) rows)" "length rows < 1000"
    "list_all (\<lambda>r. is_text r \<or> x_sql r = ''INT'') rows"
    using assms(1) by (simp_all add: good_rows_def)
  have ints: "declared_as rows (x_col r) = ''INT''" if "r \<in> set rows" "\<not> is_text r" for r
    using declared_same [OF that(1) sql [OF that(1)]] good(4) that by (auto simp: list_all_iff)
  have g: "\<forall>r \<in> set rows. plain_col (x_col r)" "distinct (map x_field rows)" "length rows < 1000"
    "\<forall>r \<in> set rows. \<not> is_text r \<longrightarrow> declared_as rows (x_col r) = ''INT''"
    using good(1,3) ints distinct_rev [OF good(2)] by (simp_all add: list_all_iff)
  obtain sq where t: "sql_text (save_pieces tab key True False rows tgid k m) = Some sq"
      "update_of tab sq = Some (concat (map (col_assigns True False m) rows), tail_text key tgid k)"
    using save_text [OF assms(2,3) g(1) assms(5) g(3) assms(6,10,11), of True False k] by blast
  obtain sql where s: "sql_text (select_pieces tab rows rest_text) = Some sql" "select_of sql = Some (map x_col rows @ [''id''])"
    using select_text [OF g(1) assms(2) g(3) assms(12,13)] by blast
  let ?row = "assign numeric rows (concat (map (col_assigns True False m) rows)) (\<lambda>_. Sq_null)"
  have row: "?row = assign numeric rows (concat (map (col_assigns True False m') rows)) (\<lambda>_. Sq_null)"
    by (simp add: fun_eq_iff assign_def eq)
  have "query sql = [map ?row (map x_col rows @ [''id''])]"
    using assms(17) t s(2) by (simp add: table_answers_def)
  moreover have "read_row rows (map ?row (map x_col rows @ [''id''])) (zeroed rows) = Some (no_empty m')"
    unfolding row map_append by (rule row_roundtrip [OF g(2) assms(8,9,7) g(4)]) (use same in blast)
  ultimately show ?thesis using t s(1) by (simp add: first_row_def)
qed

lemma by_date_ok: "length by_date = 21 \<and> CHR 0x00 \<notin> set by_date"
  by (simp add: by_date_def quote_def)

lemma where_ok:
  assumes "- (2 ^ 31) \<le> tgid" "tgid < 2 ^ 31" and "plain_col key"
  shows "length (sdec tgid @ '' AND '' @ key @ '' = '' @ ld k @ '' '' @ by_date) < 500"
    "CHR 0x00 \<notin> set (sdec tgid @ '' AND '' @ key @ '' = '' @ ld k @ '' '' @ by_date)"
  using length_sdec [OF assms(1,2)] length_ld [of k] by_date_ok plain_colD [OF assms(3)] by (auto simp: sdec_plain ld_def)


definition table_query :: "(byte list \<Rightarrow> sqlval option) \<Rightarrow> xrow list \<Rightarrow> string \<Rightarrow> byte list option \<Rightarrow> byte list \<Rightarrow> sqlval list list" where
  "table_query numeric rows tab saved sql =
     (case (Option.bind saved (update_of tab), select_of sql) of
        (Some (as, w), Some cols) \<Rightarrow> [map (assign numeric rows as (\<lambda>_. Sq_null)) cols]
      | _ \<Rightarrow> [])"

lemma answers_table: "table_answers numeric rows tab saved (table_query numeric rows tab saved)"
  by (auto simp: table_answers_def table_query_def)

lemma members_zeroed: "distinct (map x_field rows) \<Longrightarrow> members rows (zeroed rows)"
  by (auto simp: members_def zeroed_def narrow_def distinct_map dest: inj_onD split: ctyp.split)

lemma membersD: "members rows m \<Longrightarrow> r \<in> set rows \<Longrightarrow> case m (x_field r) of S s \<Rightarrow> is_text r | N n \<Rightarrow> \<not> is_text r \<and> narrow (x_type r) n = n"
  by (simp add: members_def)

lemma no_text_size:
  assumes "\<And>n. str_of (m n) = None"
  shows "text_size rows m = 0"
proof -
  have "(\<lambda>r. if is_text r then (case str_of (m (x_field r)) of None \<Rightarrow> 0 | Some s \<Rightarrow> length s) else 0) = (\<lambda>_. 0 :: nat)"
    by (rule ext) (simp only: assms option.case if_cancel)
  then show ?thesis by (simp add: text_size_def)
qed

lemma members_upd:
  assumes "members rows m" and "r \<in> set rows" and "distinct (map x_field rows)"
    and "case v of S s \<Rightarrow> is_text r | N n \<Rightarrow> \<not> is_text r \<and> narrow (x_type r) n = n"
  shows "members rows (m(x_field r := v))"
proof -
  have "x_field r' = x_field r \<Longrightarrow> r' \<in> set rows \<Longrightarrow> r' = r" for r'
    using assms(2,3) by (auto simp: distinct_map dest: inj_onD)
  then show ?thesis using assms(1,2,4) by (auto simp: members_def)
qed

lemma good_fields: "good_rows rows \<Longrightarrow> distinct (map x_field rows)"
  by (simp add: good_rows_def distinct_rev)

text \<open>A user with a number and a first name.\<close>

definition ada :: cstruct where
  "ada = (zeroed TG_USER_ARGS)(''id_'' := N 7, ''first_name_'' := S (Some (str_bytes ''Ada'')))"

lemma user_fields:
  "TG_ARG T_u64 ''id_'' ''INT'' ''user_id'' 0 \<in> set TG_USER_ARGS" "TG_STR T_str ''first_name_'' ''TEXT'' ''first_name'' 2 \<in> set TG_USER_ARGS"
  by (simp_all add: TG_USER_ARGS_def)

lemma ada_members: "members TG_USER_ARGS ada"
  using members_upd [OF members_upd [OF members_zeroed [OF good_fields [OF good_users]] user_fields(1) good_fields [OF good_users], of "N 7"]
      user_fields(2) good_fields [OF good_users], of "S (Some (str_bytes ''Ada''))"]
  by (simp add: ada_def TG_ARG_def TG_STR_def is_text_def narrow_def)

lemma ada_cells: "ada n = (if n = ''first_name_'' then S (Some (str_bytes ''Ada'')) else if n = ''id_'' then N 7 else zeroed TG_USER_ARGS n)"
  by (simp add: ada_def)

lemma zeroed_str: "str_of (zeroed rows n) = None"
  by (simp add: zeroed_def)

lemma ada_strings: "str_of (ada n) = (if n = ''first_name_'' then Some (str_bytes ''Ada'') else None)"
  by (simp add: ada_cells zeroed_str)


section \<open>What a column holds afterwards\<close>


lemma ada_text: "strings_clean TG_USER_ARGS ada" "text_size TG_USER_ARGS ada < 2 ^ 30"
  by (simp_all add: strings_clean_def ada_strings clean_def str_bytes_def text_size_def
      TG_USER_ARGS_def TG_ARG_def TG_STR_def TG_SPA_def TG_SPS_def is_text_def)


section \<open>Channels and chats\<close>

theorem channel_roundtrip:
  assumes "members TG_CHANNEL_ARGS m" and "strings_clean TG_CHANNEL_ARGS m" and "text_size TG_CHANNEL_ARGS m < 2 ^ 30"
    and "numbers_kept numeric TG_CHANNEL_ARGS m" and "- (2 ^ 31) \<le> tgid" "tgid < 2 ^ 31"
    and "table_answers numeric TG_CHANNEL_ARGS ''channels'' (tg_channel_save tgid m) query"
  shows "tg_channel_save tgid m \<noteq> None \<and> tg_channel_get query tgid (num_val (m ''id_'')) = Some (no_empty m)"
proof -
  have p: "plain_col ''channels''" "plain_col ''channel_id''" by code_simp+
  have same: "r' = r" if "r \<in> set TG_CHANNEL_ARGS" "r' \<in> set TG_CHANNEL_ARGS" "x_col r' = x_col r" for r r'
    using same_col [OF distinct_channels] that by blast
  have f: "tg_channel_get query tgid k =
      first_row query ''channels'' TG_CHANNEL_ARGS (sdec tgid @ '' AND '' @ ''channel_id'' @ '' = '' @ ld k @ '' '' @ by_date)" for k
    by (simp add: tg_channel_get_def)
  show ?thesis
    using get_saved [OF good_channels p assms(1,2,3,4,1,2,5,6) where_ok [OF assms(5,6) p(2)]
        arg_cong [where f = "col_assigns True False m", OF same] arg_cong [where f = x_sql, OF same] refl
        assms(7) [unfolded tg_channel_save_def]]
    unfolding tg_channel_save_def f by blast
qed

text \<open>The struct in which both flags are the one that is stored last.\<close>

definition shared_column :: "cstruct \<Rightarrow> cstruct" where
  "shared_column m = m(''call_not_empty_'' := m ''noforwards_'')"

lemma chat_split:
  "TG_CHAT_ARGS = take 4 TG_CHAT_ARGS @ TG_ARG T_bool ''call_not_empty_'' ''INT'' ''call_not_empty'' 0 #
     TG_ARG T_bool ''noforwards_'' ''INT'' ''call_not_empty'' 0 # drop 6 TG_CHAT_ARGS"
  by (simp add: TG_CHAT_ARGS_def)

lemma chat_other_fields: "\<forall>r \<in> set (take 4 TG_CHAT_ARGS @ drop 6 TG_CHAT_ARGS). x_field r \<noteq> ''call_not_empty_'' \<and> x_col r \<noteq> ''call_not_empty''"
  by (simp add: TG_CHAT_ARGS_def TG_ARG_def TG_STR_def TG_SPA_def TG_SPS_def)

lemma distinct_chats: "distinct (map x_col (take 4 TG_CHAT_ARGS @ drop 6 TG_CHAT_ARGS))"
  by (rule distinct_rev) code_simp

lemma shared_assigns: "x_field r \<noteq> ''call_not_empty_'' \<Longrightarrow> col_assigns e m (shared_column st) r = col_assigns e m st r"
  by (simp add: col_assigns_def shared_column_def)

lemma chat_same:
  assumes "r \<in> set TG_CHAT_ARGS" and "r' \<in> set TG_CHAT_ARGS" and "x_col r' = x_col r"
  shows "col_assigns True False (shared_column m) r' = col_assigns True False (shared_column m) r \<and> x_sql r' = x_sql r"
proof (cases "x_col r = ''call_not_empty''")
  case True
  have "r \<in> {TG_ARG T_bool ''call_not_empty_'' ''INT'' ''call_not_empty'' 0, TG_ARG T_bool ''noforwards_'' ''INT'' ''call_not_empty'' 0}"
    if "r \<in> set TG_CHAT_ARGS" "x_col r = ''call_not_empty''" for r
    using that(1)[unfolded arg_cong [OF chat_split, of set]] that(2) chat_other_fields by (simp del: set_drop_subset) blast
  from this [OF assms(1)] this [OF assms(2)] True assms(3) show ?thesis
    by (auto simp: TG_ARG_def col_assigns_def shared_column_def is_text_def)
next
  case False
  have "r \<in> set (take 4 TG_CHAT_ARGS @ drop 6 TG_CHAT_ARGS)" if "r \<in> set TG_CHAT_ARGS" "x_col r \<noteq> ''call_not_empty''" for r
    using that(1)[unfolded arg_cong [OF chat_split, of set]] that(2) by (auto simp: TG_ARG_def)
  from this [OF assms(1)] this [OF assms(2)] False assms(3) have "r' = r" using same_col [OF distinct_chats] by force
  then show ?thesis by simp
qed

lemma chat_assigns:
  "map_of (rev (concat (map (col_assigns True False m) TG_CHAT_ARGS))) =
   map_of (rev (concat (map (col_assigns True False (shared_column m)) TG_CHAT_ARGS)))"
proof -
  have e: "map (col_assigns True False (shared_column m)) (take 4 TG_CHAT_ARGS) = map (col_assigns True False m) (take 4 TG_CHAT_ARGS)"
    "map (col_assigns True False (shared_column m)) (drop 6 TG_CHAT_ARGS) = map (col_assigns True False m) (drop 6 TG_CHAT_ARGS)"
    using chat_other_fields by (auto intro: shared_assigns)
  show ?thesis
    unfolding arg_cong [OF chat_split, of "map (col_assigns True False m)"]
      arg_cong [OF chat_split, of "map (col_assigns True False (shared_column m))"] map_append list.map e
    by (simp add: TG_ARG_def col_assigns_def shared_column_def is_text_def map_add_def fun_eq_iff split: option.split)
qed

lemma chat_fields:
  "TG_ARG T_bool ''call_not_empty_'' ''INT'' ''call_not_empty'' 0 \<in> set TG_CHAT_ARGS" "TG_ARG T_bool ''noforwards_'' ''INT'' ''call_not_empty'' 0 \<in> set TG_CHAT_ARGS"
  by (simp_all add: TG_CHAT_ARGS_def)

text \<open>
  A chat comes back with one flag for two: the members \<open>call_not_empty_\<close> and \<open>noforwards_\<close> are stored in the same column,
  the second one wins, and after \<^verbatim>\<open>tg_chat_get\<close> both have its value; every other member is what was stored.
\<close>

theorem chat_roundtrip_shares_flag:
  assumes "members TG_CHAT_ARGS m" and "strings_clean TG_CHAT_ARGS m" and "text_size TG_CHAT_ARGS m < 2 ^ 30"
    and "numbers_kept numeric TG_CHAT_ARGS m" and "- (2 ^ 31) \<le> tgid" "tgid < 2 ^ 31"
    and "table_answers numeric TG_CHAT_ARGS ''chats'' (tg_chat_save tgid m) query"
  shows "tg_chat_save tgid m \<noteq> None \<and>
    tg_chat_get query tgid (num_val (m ''id_'')) = Some (no_empty (m(''call_not_empty_'' := m ''noforwards_'')))"
proof -
  have p: "plain_col ''chats''" "plain_col ''chat_id''" by code_simp+
  let ?m = "shared_column m"
  have "case m ''call_not_empty_'' of S s \<Rightarrow> False | N n \<Rightarrow> narrow T_bool n = n"
    "case m ''noforwards_'' of S s \<Rightarrow> False | N n \<Rightarrow> narrow T_bool n = n"
    using membersD [OF assms(1) chat_fields(1)] membersD [OF assms(1) chat_fields(2)] by (auto simp: TG_ARG_def is_text_def split: xcell.splits)
  then obtain a b where n: "m ''call_not_empty_'' = N a" "m ''noforwards_'' = N b" "narrow T_bool b = b" by (auto split: xcell.splits)
  then have m: "members TG_CHAT_ARGS ?m"
    using members_upd [OF assms(1) chat_fields(1) good_fields [OF good_chats], of "N b"]
    by (simp add: shared_column_def TG_ARG_def is_text_def)
  have s: "str_of (?m f) = str_of (m f)" for f using n by (simp add: shared_column_def)
  have f: "tg_chat_get query tgid k =
      first_row query ''chats'' TG_CHAT_ARGS (sdec tgid @ '' AND '' @ ''chat_id'' @ '' = '' @ ld k @ '' '' @ by_date)" for k
    by (simp add: tg_chat_get_def)
  have c: "strings_clean TG_CHAT_ARGS ?m" "numbers_kept numeric TG_CHAT_ARGS ?m"
    using assms(2,4) s by (simp_all add: strings_clean_def numbers_kept_def)
  show ?thesis
    unfolding tg_chat_save_def f shared_column_def [symmetric]
    using get_saved [OF good_chats p assms(1,2,3) c(2) m c(1) assms(5,6) where_ok [OF assms(5,6) p(2)]
        conjunct1 [OF chat_same] conjunct2 [OF chat_same] chat_assigns assms(7) [unfolded tg_chat_save_def]]
    by blast
qed

text \<open>Without the flag for calls the one for forwarding sets both.\<close>

definition club :: cstruct where
  "club = (zeroed TG_CHAT_ARGS)(''id_'' := N 9, ''noforwards_'' := N 1)"

lemma club_members: "members TG_CHAT_ARGS club"
proof -
  have r: "TG_ARG T_u64 ''id_'' ''INT'' ''chat_id'' 0 \<in> set TG_CHAT_ARGS" by (simp add: TG_CHAT_ARGS_def)
  show ?thesis
    using members_upd [OF members_upd [OF members_zeroed [OF good_fields [OF good_chats]] r good_fields [OF good_chats], of "N 9"]
      chat_fields(2) good_fields [OF good_chats], of "N 1"]
    by (simp add: club_def TG_ARG_def is_text_def narrow_def)
qed

lemma club_strings: "str_of (club n) = None"
  by (simp add: club_def zeroed_str)

theorem chat_roundtrip_shares_flag_witness:
  "num_val (club ''call_not_empty_'') = 0 \<and>
   (\<exists>c. tg_chat_get (table_query (\<lambda>_. None) TG_CHAT_ARGS ''chats'' (tg_chat_save 1 club)) 1 9 = Some c \<and> num_val (c ''call_not_empty_'') = 1)"
proof -
  have z: "zeroed TG_CHAT_ARGS ''call_not_empty_'' = N 0"
    by (simp add: zeroed_def TG_CHAT_ARGS_def TG_ARG_def TG_STR_def TG_SPA_def TG_SPS_def is_text_def)
  have c: "strings_clean TG_CHAT_ARGS club" "text_size TG_CHAT_ARGS club < 2 ^ 30" "numbers_kept (\<lambda>_. None) TG_CHAT_ARGS club"
    by (simp_all add: strings_clean_def club_strings numbers_kept_def no_text_size [of club, OF club_strings])
  have i: "num_val (club ''id_'') = 9" "num_val (club ''call_not_empty_'') = 0" "club ''noforwards_'' = N 1"
    by (simp_all add: club_def z)
  show ?thesis
    using chat_roundtrip_shares_flag [OF club_members c, of 1, OF _ _ answers_table] by (simp add: i no_empty_def)
qed

section \<open>Strings with an apostrophe\<close>

text \<open>A name that goes on behind its apostrophe with an assignment to the column \<open>phone\<close>.\<close>

definition name_with_phone :: "byte list \<Rightarrow> byte list \<Rightarrow> byte list" where
  "name_with_phone t p = t @ str_bytes ([apos] @ '', '' @ [apos] @ ''phone'' @ [apos] @ '' = '' @ [apos]) @ p"

lemma user_split:
  "TG_USER_ARGS = take 27 TG_USER_ARGS @ TG_STR T_str ''first_name_'' ''TEXT'' ''first_name'' 2 # drop 28 TG_USER_ARGS"
  by (simp add: TG_USER_ARGS_def)

lemma user_other_fields: "\<forall>r \<in> set (take 27 TG_USER_ARGS @ drop 28 TG_USER_ARGS). x_field r \<noteq> ''first_name_''"
  by (simp add: TG_USER_ARGS_def TG_ARG_def TG_STR_def TG_SPA_def TG_SPS_def)

lemma pieces_upd: "x_field r \<noteq> f \<Longrightarrow> col_pieces e m (st(f := v)) r = col_pieces e m st r"
  by (simp add: col_pieces_def)

lemma assigns_phone:
  assumes "strings_clean rows m" and "str_of (m ''phone_'') = None \<or> str_of (m ''phone_'') = Some []"
    and "\<forall>r \<in> set rows. x_col r = ''phone'' \<longrightarrow> is_text r \<and> x_field r = ''phone_''"
  shows "map_of (rev (concat (map (col_assigns True b m) rows))) ''phone'' = None"
  using assms by (induction rows) (auto simp: col_assigns_def strings_clean_def map_add_def split: option.splits)

text \<open>
  C37: A name can set other columns: strings go into the statement as they are, so a user whose first name goes on, after an
  apostrophe, with an assignment has this assignment executed.  Here a user without a phone number gets the one that
  stands in the name.
\<close>

theorem user_name_injection:
  assumes "strings_clean TG_USER_ARGS m" and "text_size TG_USER_ARGS (m(''first_name_'' := S (Some (name_with_phone t p)))) < 2 ^ 30"
    and "clean t" and "clean p" and "str_of (m ''phone_'') = None \<or> str_of (m ''phone_'') = Some []"
    and "- (2 ^ 31) \<le> tgid" "tgid < 2 ^ 31"
  shows "\<exists>text as. tg_user_save tgid (m(''first_name_'' := S (Some (name_with_phone t p)))) = Some text \<and>
    update_of ''users'' text = Some (as, tail_text ''user_id'' tgid (num_val (m ''id_''))) \<and>
    assign numeric TG_USER_ARGS as row ''phone'' = Sq_text p"
proof -
  let ?m = "m(''first_name_'' := S (Some (name_with_phone t p)))"
  let ?b = "num_val (m ''min_'') \<noteq> 0"
  let ?A = "take 27 TG_USER_ARGS" and ?B = "drop 28 TG_USER_ARGS" and ?r = "TG_STR T_str ''first_name_'' ''TEXT'' ''first_name'' 2"
  let ?ca = "\<lambda>rs. concat (map (col_assigns True ?b m) rs)" and ?cb = "\<lambda>rs. chars (all_bytes (concat (map (col_pieces True ?b m) rs)))"
  let ?tail = "tail_text ''user_id'' tgid (num_val (m ''id_''))"
  have pl: "plain_col ''users''" "plain_col ''user_id''" "plain_col ''first_name''" "plain_col ''phone''" by code_simp+
  have g: "\<forall>r \<in> set TG_USER_ARGS. plain_col (x_col r)" "length TG_USER_ARGS < 1000"
    using good_users by (auto simp: good_rows_def list_all_iff)
  have AB: "set ?A \<subseteq> set TG_USER_ARGS" "set ?B \<subseteq> set TG_USER_ARGS" by (simp_all add: set_take_subset set_drop_subset)
  have ab: "\<forall>r \<in> set ?A. plain_col (x_col r)" "strings_clean ?A m" "\<forall>r \<in> set ?B. plain_col (x_col r)" "strings_clean ?B m"
    using AB g(1) assms(1) unfolding strings_clean_def by blast+
  have w: "strings_whole TG_USER_ARGS ?m"
    using clean_whole [OF assms(1)] assms(3,4) nonzero_str [of "[apos] @ '', '' @ [apos] @ ''phone'' @ [apos] @ '' = '' @ [apos]"]
    by (auto simp: strings_whole_def name_with_phone_def clean_def apos_def)
  have s: "tg_user_save tgid ?m = sql_text (save_pieces ''users'' ''user_id'' True ?b TG_USER_ARGS tgid (num_val (m ''id_'')) ?m)"
    by (simp add: tg_user_save_def)
  let ?body = "chars (all_bytes (concat (map (col_pieces True ?b ?m) TG_USER_ARGS))) @ ?tail"
  obtain sq where sq: "tg_user_save tgid ?m = Some sq" "update_of ''users'' sq = Some (assignments (length ?body) ?body)"
    using save_bytes [OF pl(1,2) g(1) w g(2) assms(2,6,7), of True ?b "num_val (m ''id_'')"] unfolding s by blast
  have others: "\<forall>r \<in> set rs. x_field r \<noteq> ''first_name_'' \<Longrightarrow> map (col_pieces True ?b ?m) rs = map (col_pieces True ?b m) rs" for rs
    by (rule map_cong [OF refl], rule pieces_upd) (erule bspec)
  have pieces: "map (col_pieces True ?b ?m) ?A = map (col_pieces True ?b m) ?A" "map (col_pieces True ?b ?m) ?B = map (col_pieces True ?b m) ?B"
    using user_other_fields unfolding set_append ball_Un by (blast intro: others)+
  define chunk where "chunk = [apos] @ ''first_name'' @ [apos] @ '' = '' @ [apos] @ chars t @ [apos] @ '', '' @
      [apos] @ ''phone'' @ [apos] @ '' = '' @ [apos] @ chars p @ [apos] @ '', ''"
  have "chars (all_bytes (col_pieces True ?b ?m ?r)) = chunk"
    by (simp add: col_pieces_def TG_STR_def is_text_def name_with_phone_def chunk_def chars_append quote_def apos_def)
  then have body: "?body = ?cb ?A @ chunk @ ?cb ?B @ ?tail"
    unfolding arg_cong [OF user_split, of "map (col_pieces True ?b ?m)"] map_append list.map pieces concat_append concat.simps
    by (simp add: chars_append)
  have two: "assignments (Suc (Suc n)) (chunk @ z) =
      ((''first_name'', Sq_text t) # (''phone'', Sq_text p) # fst (assignments n z), snd (assignments n z))" for n z
    using assignment_text [OF pl(3) clean_chars [OF assms(3)]] assignment_text [OF pl(4) clean_chars [OF assms(4)], of z]
    by (simp add: chunk_def split_beta)
  have "length (?ca ?A) \<le> length (?cb ?A)" "length (?ca ?B) \<le> length (?cb ?B)" by (intro assigns_length ab)+
  moreover have "2 \<le> length chunk" by (simp add: chunk_def)
  ultimately have "length (?ca ?A) + Suc (Suc (length (?ca ?B))) \<le> length ?body" by (simp add: body)
  from le_Suc_ex [OF this] obtain j where j: "length ?body = length (?ca ?A) + Suc (Suc (length (?ca ?B))) + j" by (rule exE)
  have fuel: "a + Suc (Suc b) + j = a + Suc (Suc (b + j))" for a b by simp
  have "assignments (length ?body) ?body = assignments (length (?ca ?A) + Suc (Suc (length (?ca ?B) + j))) ?body"
    by (simp only: j fuel)
  also have "\<dots> = (?ca ?A @ (''first_name'', Sq_text t) # (''phone'', Sq_text p) # ?ca ?B, ?tail)"
    unfolding body assignments_cols [OF ab(1,2)] two assignments_cols [OF ab(3,4)] by (simp add: tail_no_assignment)
  finally have "assignments (length ?body) ?body = (?ca ?A @ (''first_name'', Sq_text t) # (''phone'', Sq_text p) # ?ca ?B, ?tail)" .
  moreover have "map_of (rev (?ca ?B)) ''phone'' = None"
    by (rule assigns_phone [OF ab(4) assms(5)]) (simp add: TG_USER_ARGS_def TG_ARG_def TG_STR_def TG_SPA_def TG_SPS_def is_text_def)
  moreover have "declared_as TG_USER_ARGS ''phone'' = ''TEXT''" by code_simp
  ultimately show ?thesis using sq by (auto simp: assign_def map_add_def affinity_def)
qed

theorem user_name_injection_witness:
  "\<exists>text as w. tg_user_save 1 (ada(''first_name_'' := S (Some (name_with_phone (str_bytes ''Ada'') (str_bytes ''666''))))) = Some text \<and>
    update_of ''users'' text = Some (as, w) \<and> str_of (ada ''phone_'') = None \<and>
    assign (\<lambda>_. None) TG_USER_ARGS as (\<lambda>_. Sq_null) ''phone'' = Sq_text (str_bytes ''666'')"
proof -
  have s: "str_of ((ada(''first_name_'' := S (Some v))) f) = (if f = ''first_name_'' then Some v else None)" for v f
    by (simp add: ada_strings)
  have t: "text_size TG_USER_ARGS (ada(''first_name_'' := S (Some (name_with_phone (str_bytes ''Ada'') (str_bytes ''666''))))) < 2 ^ 30"
    by (simp add: text_size_def s ada_strings name_with_phone_def TG_USER_ARGS_def TG_ARG_def TG_STR_def TG_SPA_def TG_SPS_def is_text_def)
  have c: "clean (str_bytes ''Ada'')" "clean (str_bytes ''666'')" by (simp_all add: clean_def str_bytes_def)
  have p: "str_of (ada ''phone_'') = None" by (simp add: ada_strings)
  then show ?thesis
    using user_name_injection [OF ada_text(1) t c disjI1 [OF p], of 1 "\<lambda>_. None" "\<lambda>_. Sq_null"] by auto
qed

end
