(* ===== verification/Messages.thy ===== *)
theory Messages
  imports People
begin

text \<open>
  \<^verbatim>\<open>libtg/tg/messages.c\<close>: the struct that is made of a message object, the database of messages, and the queries
  about messages.  The members of the headers that a message may contain are kept in the same struct, under
  their path.  The struct is undefined where the C code reads it before it is written.
\<close>

section \<open>The lists of members\<close>

definition TG_PER :: "ctyp \<Rightarrow> string \<Rightarrow> string \<Rightarrow> string \<Rightarrow> nat \<Rightarrow> xrow" where
  "TG_PER t f s c m = \<lparr>x_kind = X_per, x_type = t, x_field = f, x_sql = s, x_col = c, x_ifmin = m\<rparr>"

text \<open>The columns are only named in code that is commented out.\<close>

definition TG_MESSAGE_FWD_HEADER_ARGS :: "xrow list" where
  "TG_MESSAGE_FWD_HEADER_ARGS =
     [TG_ARG T_bool ''imported_'' ''INT'' ''imported'' 0,
      TG_ARG T_bool ''saved_out_'' ''INT'' ''saved_out'' 0,
      TG_PER T_u64 ''from_id_'' ''INT'' ''from_id'' 0,
      TG_STR T_str ''from_name_'' ''INT'' ''from_name'' 0,
      TG_ARG T_u32 ''date_'' ''INT'' ''date'' 0,
      TG_ARG T_u32 ''channel_post_'' ''INT'' ''channel_post'' 0,
      TG_STR T_str ''post_author_'' ''INT'' ''post_author'' 0,
      TG_PER T_u64 ''saved_from_peer_'' ''INT'' ''saved_from_peer'' 0,
      TG_ARG T_u32 ''saved_from_msg_id_'' ''INT'' ''saved_from_msg_id'' 0,
      TG_PER T_u64 ''saved_from_id_'' ''INT'' ''saved_from_id'' 0,
      TG_STR T_str ''saved_from_name_'' ''INT'' ''saved_from_name'' 0,
      TG_ARG T_u32 ''saved_date_'' ''INT'' ''saved_date'' 0,
      TG_STR T_str ''psa_type_'' ''INT'' ''psa_type'' 0]"

definition TG_MESSAGE_REPLY_HEADER_ARGS :: "xrow list" where
  "TG_MESSAGE_REPLY_HEADER_ARGS =
     [TG_ARG T_bool ''reply_to_scheduled_'' ''INT'' ''reply_to_scheduled'' 0,
      TG_ARG T_bool ''forum_topic_'' ''INT'' ''forum_topic'' 0,
      TG_ARG T_bool ''quote_'' ''INT'' ''quote'' 0,
      TG_ARG T_u32 ''reply_to_msg_id_'' ''INT'' ''reply_to_msg_id'' 0,
      TG_PER T_u64 ''reply_to_peer_id_'' ''INT'' ''reply_to_peer_id'' 0,
      TG_ARG T_u32 ''reply_to_top_id_'' ''INT'' ''reply_to_top_id'' 0,
      TG_STR T_str ''quote_text_'' ''INT'' ''quote_text'' 0,
      TG_ARG T_u32 ''quote_offset_'' ''INT'' ''quote_offset'' 0]"

definition TG_MESSAGE_ENTITY_ARGS :: "xrow list" where
  "TG_MESSAGE_ENTITY_ARGS =
     [TG_ARG T_u32 ''entityType'' ''INT'' ''entityType'' 0,
      TG_ARG T_u32 ''offset_'' ''INT'' ''offset'' 0,
      TG_ARG T_u32 ''length_'' ''INT'' ''length'' 0,
      TG_ARG T_u64 ''user_id_'' ''INT'' ''user_id'' 0,
      TG_ARG T_u64 ''document_id_'' ''INT'' ''document_id'' 0,
      TG_ARG T_bool ''collapsed_'' ''INT'' ''collapsed'' 0,
      TG_STR T_str ''language_'' ''INT'' ''language'' 0,
      TG_STR T_str ''url_'' ''INT'' ''url'' 0]"

definition TG_MESSAGE_ARGS :: "xrow list" where
  "TG_MESSAGE_ARGS =
     [TG_ARG T_bool ''out_'' ''INT'' ''out'' 0,
      TG_ARG T_bool ''mentioned_'' ''INT'' ''mentioned'' 0,
      TG_ARG T_bool ''media_unread_'' ''INT'' ''media_unread'' 0,
      TG_ARG T_bool ''silent_'' ''INT'' ''silent'' 0,
      TG_ARG T_bool ''post_'' ''INT'' ''post'' 0,
      TG_ARG T_bool ''from_scheduled_'' ''INT'' ''from_scheduled'' 0,
      TG_ARG T_bool ''legacy_'' ''INT'' ''legacy'' 0,
      TG_ARG T_bool ''edit_hide_'' ''INT'' ''edit_hide'' 0,
      TG_ARG T_bool ''pinned_'' ''INT'' ''pinned'' 0,
      TG_ARG T_bool ''noforwards_'' ''INT'' ''noforwards'' 0,
      TG_ARG T_bool ''invert_media_'' ''INT'' ''invert_media'' 0,
      TG_ARG T_bool ''offline_'' ''INT'' ''offline'' 0,
      TG_ARG T_u32 ''id_'' ''INT'' ''msg_id'' 0,
      TG_PER T_u64 ''from_id_'' ''INT'' ''from_id'' 0,
      TG_ARG T_u32 ''from_boosts_applied_'' ''INT'' ''from_boosts_applied'' 0,
      TG_PER T_u64 ''peer_id_'' ''INT'' ''peer_id'' 0,
      TG_PER T_u64 ''saved_peer_id_'' ''INT'' ''saved_peer_id'' 0,
      TG_ARG T_u32 ''date_'' ''INT'' ''date'' 0,
      TG_STR T_str ''message_'' ''TEXT'' ''message'' 0,
      TG_SPA T_u32 ''media_type'' ''INT'' ''media_type'' 0,
      TG_SPA T_u64 ''photo_id'' ''INT'' ''photo_id'' 0,
      TG_SPA T_u64 ''photo_access_hash'' ''INT'' ''photo_access_hash'' 0,
      TG_SPA T_u32 ''photo_dc_id'' ''INT'' ''photo_dc_id'' 0,
      TG_SPA T_u32 ''photo_date'' ''INT'' ''photo_date'' 0,
      TG_SPS T_str ''photo_file_reference'' ''TEXT'' ''photo_file_reference'' 0,
      TG_SPS T_str ''photo_stripped'' ''TEXT'' ''photo_stripped'' 0,
      TG_SPS T_str ''photo_cached_size'' ''TEXT'' ''photo_cached_size'' 0,
      TG_SPS T_str ''photo_sizes'' ''TEXT'' ''photo_sizes'' 0,
      TG_SPS T_str ''photo_svg'' ''TEXT'' ''photo_svg'' 0,
      TG_SPA T_double ''geo_long'' ''INT'' ''geo_long'' 0,
      TG_SPA T_double ''geo_lat'' ''INT'' ''geo_lat'' 0,
      TG_SPA T_u64 ''geo_access_hash'' ''INT'' ''geo_access_hash'' 0,
      TG_SPA T_u32 ''geo_accuracy_radius'' ''INT'' ''geo_accuracy_radius'' 0,
      TG_SPS T_str ''video_sizes'' ''TEXT'' ''video_sizes'' 0,
      TG_SPA T_bool ''doc_isVideo'' ''INT'' ''doc_isVideo'' 0,
      TG_SPA T_bool ''doc_isRound'' ''INT'' ''doc_isRound'' 0,
      TG_SPA T_bool ''doc_isVoice'' ''INT'' ''doc_isVoice'' 0,
      TG_SPA T_u64 ''doc_id'' ''INT'' ''doc_id'' 0,
      TG_SPA T_u64 ''doc_access_hash'' ''INT'' ''doc_access_hash'' 0,
      TG_SPS T_str ''doc_file_reference'' ''TEXT'' ''doc_file_reference'' 0,
      TG_SPA T_u32 ''doc_date'' ''INT'' ''doc_date'' 0,
      TG_SPS T_str ''doc_mime_type'' ''TEXT'' ''doc_mime_type'' 0,
      TG_SPA T_u64 ''doc_size'' ''INT'' ''doc_size'' 0,
      TG_SPS T_str ''doc_thumbs'' ''TEXT'' ''doc_thumbs'' 0,
      TG_SPS T_str ''doc_video_thumbs'' ''TEXT'' ''doc_video_thumbs'' 0,
      TG_SPA T_u32 ''doc_dc_id'' ''INT'' ''doc_dc_id'' 0,
      TG_SPS T_str ''doc_file_name'' ''TEXT'' ''doc_file_name'' 0,
      TG_SPA T_u32 ''doc_w'' ''INT'' ''doc_w'' 0,
      TG_SPA T_u32 ''doc_h'' ''INT'' ''doc_h'' 0,
      TG_SPA T_u32 ''doc_vw'' ''INT'' ''doc_vw'' 0,
      TG_SPA T_u32 ''doc_vh'' ''INT'' ''doc_vh'' 0,
      TG_SPA T_u64 ''doc_aduration'' ''INT'' ''doc_aduration'' 0,
      TG_SPA T_u64 ''doc_vduration'' ''INT'' ''doc_vduration'' 0,
      TG_SPS T_str ''doc_title'' ''TEXT'' ''doc_title'' 0,
      TG_SPA T_u64 ''web_id'' ''INT'' ''web_id'' 0,
      TG_SPS T_str ''web_url'' ''TEXT'' ''web_url'' 0,
      TG_SPS T_str ''web_display_url'' ''TEXT'' ''web_display_url'' 0,
      TG_SPA T_u32 ''web_hash'' ''INT'' ''web_hash'' 0,
      TG_SPS T_str ''web_type'' ''TEXT'' ''web_type'' 0,
      TG_SPS T_str ''web_site_name'' ''TEXT'' ''web_site_name'' 0,
      TG_SPS T_str ''web_title'' ''TEXT'' ''web_title'' 0,
      TG_SPS T_str ''web_description'' ''TEXT'' ''web_description'' 0,
      TG_SPA T_u64 ''web_photo_id'' ''INT'' ''web_photo_id'' 0,
      TG_SPA T_u64 ''web_photo_access_hash'' ''INT'' ''web_photo_access_hash'' 0,
      TG_SPA T_u32 ''web_photo_dc_id'' ''INT'' ''web_photo_dc_id'' 0,
      TG_SPA T_u32 ''web_photo_date'' ''INT'' ''web_photo_date'' 0,
      TG_SPS T_str ''web_photo_file_reference'' ''TEXT'' ''web_photo_file_reference'' 0,
      TG_SPS T_str ''contact_phone_number'' ''TEXT'' ''contact_phone_number'' 0,
      TG_SPS T_str ''contact_first_name'' ''TEXT'' ''contact_first_name'' 0,
      TG_SPS T_str ''contact_last_name'' ''TEXT'' ''contact_last_name'' 0,
      TG_SPS T_str ''contact_vcard'' ''TEXT'' ''contact_vcard'' 0,
      TG_SPA T_u64 ''contact_user_id'' ''INT'' ''contact_user_id'' 0,
      TG_SPA T_bool ''is_service'' ''INT'' ''is_service'' 0,
      TG_SPA T_u32 ''ttl_period_'' ''INT'' ''ttl_period'' 0,
      TG_SPA T_bool ''is_sticker'' ''INT'' ''is_sticker'' 0,
      TG_SPA T_bool ''phone_call_video'' ''INT'' ''iphone_call_video'' 0,
      TG_SPA T_u64 ''phone_call_id'' ''INT'' ''phone_call_id'' 0,
      TG_SPA T_u32 ''phone_call_duration'' ''INT'' ''phone_call_duration'' 0,
      TG_SPA T_u32 ''phone_call_reason'' ''INT'' ''phone_call_reason'' 0]"

section \<open>Constructor numbers\<close>

definition id_messageFwdHeader :: u32 where "id_messageFwdHeader = 0x4e4df4bb"
definition id_messageReplyHeader :: u32 where "id_messageReplyHeader = 0xafbc09db"
definition id_videoSize :: u32 where "id_videoSize = 0xde33b094"
definition id_photoSize :: u32 where "id_photoSize = 0x75c78e60"
definition id_photoCachedSize :: u32 where "id_photoCachedSize = 0x021e1ad6"
definition id_photoStrippedSize :: u32 where "id_photoStrippedSize = 0xe0b0bc2e"
definition id_photoPathSize :: u32 where "id_photoPathSize = 0xd8214d41"
definition id_messageEntityTextUrl :: u32 where "id_messageEntityTextUrl = 0x76a6d327"
definition id_messageEntityBlockquote :: u32 where "id_messageEntityBlockquote = 0xf1ccaaac"
definition id_messageEntityMentionName :: u32 where "id_messageEntityMentionName = 0xdc7b1140"
definition id_messageEntityCustomEmoji :: u32 where "id_messageEntityCustomEmoji = 0xc8cf05f8"
definition id_messageMediaPhoto :: u32 where "id_messageMediaPhoto = 0x695150d7"
definition id_photo :: u32 where "id_photo = 0xfb197a65"
definition id_messageMediaGeo :: u32 where "id_messageMediaGeo = 0x56e0d474"
definition id_geoPoint :: u32 where "id_geoPoint = 0xb2a2f663"
definition id_messageMediaDocument :: u32 where "id_messageMediaDocument = 0x4cf4d72d"
definition id_document :: u32 where "id_document = 0x8fd4c4d8"
definition id_documentAttributeImageSize :: u32 where "id_documentAttributeImageSize = 0x6c37c15c"
definition id_documentAttributeVideo :: u32 where "id_documentAttributeVideo = 0x17399fad"
definition id_documentAttributeAudio :: u32 where "id_documentAttributeAudio = 0x9852f9c6"
definition id_documentAttributeFilename :: u32 where "id_documentAttributeFilename = 0x15590068"
definition id_documentAttributeSticker :: u32 where "id_documentAttributeSticker = 0x6319d612"
definition id_messageMediaWebPage :: u32 where "id_messageMediaWebPage = 0xddf10c3b"
definition id_webPage :: u32 where "id_webPage = 0xe89c45b2"
definition id_messageMediaContact :: u32 where "id_messageMediaContact = 0x70322949"
definition id_messageActionEmpty :: u32 where "id_messageActionEmpty = 0xb6aef7b0"
definition id_messageActionChatCreate :: u32 where "id_messageActionChatCreate = 0xbd47cbad"
definition id_messageActionChatEditTitle :: u32 where "id_messageActionChatEditTitle = 0xb5a1ce5a"
definition id_messageActionChatEditPhoto :: u32 where "id_messageActionChatEditPhoto = 0x7fcb13a8"
definition id_messageActionChatDeletePhoto :: u32 where "id_messageActionChatDeletePhoto = 0x95e3fbef"
definition id_messageActionChatAddUser :: u32 where "id_messageActionChatAddUser = 0x15cefd00"
definition id_messageActionChatDeleteUser :: u32 where "id_messageActionChatDeleteUser = 0xa43f30cc"
definition id_messageActionChatJoinedByLink :: u32 where "id_messageActionChatJoinedByLink = 0x031224c3"
definition id_messageActionChannelCreate :: u32 where "id_messageActionChannelCreate = 0x95d2ac92"
definition id_messageActionChatMigrateTo :: u32 where "id_messageActionChatMigrateTo = 0xe1037f92"
definition id_messageActionChannelMigrateFrom :: u32 where "id_messageActionChannelMigrateFrom = 0xea3948e9"
definition id_messageActionPhoneCall :: u32 where "id_messageActionPhoneCall = 0x80e11a7f"
definition id_phoneCallDiscardReasonMissed :: u32 where "id_phoneCallDiscardReasonMissed = 0x85e42301"
definition id_phoneCallDiscardReasonDisconnect :: u32 where "id_phoneCallDiscardReasonDisconnect = 0xe095c1a0"
definition id_phoneCallDiscardReasonHangup :: u32 where "id_phoneCallDiscardReasonHangup = 0x57adc690"
definition id_phoneCallDiscardReasonBusy :: u32 where "id_phoneCallDiscardReasonBusy = 0xfaf7e8c9"
definition id_messageActionCustomAction :: u32 where "id_messageActionCustomAction = 0xfae69f56"
definition id_message :: u32 where "id_message = 0x94345242"
definition id_messageService :: u32 where "id_messageService = 0x2b085862"
definition id_peerUser :: u32 where "id_peerUser = 0x59511722"
definition id_peerChat :: u32 where "id_peerChat = 0x36c6019a"
definition id_peerChannel :: u32 where "id_peerChannel = 0xa2a5371e"
definition id_outboxReadDate :: u32 where "id_outboxReadDate = 0x3bb842ac"
definition id_messages_affectedMessages :: u32 where "id_messages_affectedMessages = 0x84d19185"
definition id_rpc_error_obj :: u32 where "id_rpc_error_obj = 0x2144ca19"

section \<open>The struct\<close>

definition nested :: "string \<Rightarrow> xrow list \<Rightarrow> xrow list" where
  "nested pre rows = map (\<lambda>r. r\<lparr>x_field := pre @ x_field r\<rparr>) rows"

definition message_members :: "xrow list" where
  "message_members = TG_MESSAGE_ARGS @ nested ''reply_to_.'' TG_MESSAGE_REPLY_HEADER_ARGS @
     nested ''reply_to_.reply_from_.'' TG_MESSAGE_FWD_HEADER_ARGS"

record msg_struct =
  mg_data :: buf
  mg_st :: cstruct
  mg_entities :: "cstruct list"

definition msg_zero :: msg_struct where
  "msg_zero = \<lparr>mg_data = buf_none, mg_st = zeroed message_members, mg_entities = []\<rparr>"

text \<open>What the code takes from elsewhere: \<^verbatim>\<open>%lf\<close>, the conversion of a double to an integer, the names of constructors.\<close>

record msg_env =
  e_lf :: "u64 \<Rightarrow> string"
  e_trunc :: "u64 \<Rightarrow> u64"
  e_name :: "u32 \<Rightarrow> string option"

section \<open>Headers\<close>

text \<open>
  The number in a peer is read as that of a \<^verbatim>\<open>peerUser\<close>, which for a chat or a channel lies at the same
  place.  Other objects would be read by their layout in memory.
\<close>

definition tl_u32 :: "tobj \<Rightarrow> string \<Rightarrow> u32 option" where
  "tl_u32 p n = (case tl_member p n of Some (F_ui32 w) \<Rightarrow> Some w | _ \<Rightarrow> None)"

definition tl_u64 :: "tobj \<Rightarrow> string \<Rightarrow> u64 option" where
  "tl_u64 p n = (case tl_member p n of Some (F_ui64 w) \<Rightarrow> Some w | _ \<Rightarrow> None)"

definition tl_double :: "tobj \<Rightarrow> string \<Rightarrow> u64 option" where
  "tl_double p n = (case tl_member p n of Some (F_double w) \<Rightarrow> Some w | _ \<Rightarrow> None)"

definition peer_number :: "tobj \<Rightarrow> u64 option" where
  "peer_number p =
     (if o_id p = id_peerUser then tl_u64 p ''user_id_''
      else if o_id p = id_peerChat then tl_u64 p ''chat_id_''
      else if o_id p = id_peerChannel then tl_u64 p ''channel_id_''
      else None)"

fun msg_arg :: "string \<Rightarrow> tobj \<Rightarrow> xrow \<Rightarrow> cstruct \<Rightarrow> cstruct option" where
  "msg_arg pre p r st =
     (case x_kind r of
        X_arg \<Rightarrow> put_num p (x_field r) (x_type r) (pre @ x_field r) st
      | X_str \<Rightarrow> do {
          b \<leftarrow> tl_bytes p (x_field r);
          if 0 < bsize b then do { s \<leftarrow> buf_strdup b; Some (st(pre @ x_field r := S (Some s))) } else Some st
        }
      | X_per \<Rightarrow> do {
          x \<leftarrow> tl_pointer p (x_field r);
          case x of
            None \<Rightarrow> Some st
          | Some peer \<Rightarrow> do {
              n \<leftarrow> peer_number peer;
              Some (st(pre @ x_field r := N n, pre @ ''type_'' @ x_field r := N (ucast (o_id peer))))
            }
        }
      | _ \<Rightarrow> Some st)"

fun msg_args :: "string \<Rightarrow> tobj \<Rightarrow> xrow list \<Rightarrow> cstruct \<Rightarrow> cstruct option" where
  "msg_args pre p [] st = Some st"
| "msg_args pre p (r # rows) st = do { st \<leftarrow> msg_arg pre p r st; msg_args pre p rows st }"

definition tg_message_fwd :: "string \<Rightarrow> tobj \<Rightarrow> cstruct \<Rightarrow> cstruct option" where
  "tg_message_fwd pre h st = msg_args pre h TG_MESSAGE_FWD_HEADER_ARGS st"

definition tg_message_reply :: "string \<Rightarrow> tobj \<Rightarrow> cstruct \<Rightarrow> cstruct option" where
  "tg_message_reply pre h st = do {
     st \<leftarrow> msg_args pre h TG_MESSAGE_REPLY_HEADER_ARGS st;
     when_obj h ''reply_from_'' id_messageFwdHeader (tg_message_fwd (pre @ ''reply_from_.'')) st
   }"

section \<open>Pictures and documents\<close>

definition put_text :: "tobj \<Rightarrow> string \<Rightarrow> string \<Rightarrow> cstruct \<Rightarrow> cstruct option" where
  "put_text p src dst st = do { b \<leftarrow> tl_bytes p src; s \<leftarrow> buf_strdup b; Some (st(dst := S (Some s))) }"

definition put_b64 :: "tobj \<Rightarrow> string \<Rightarrow> string \<Rightarrow> cstruct \<Rightarrow> cstruct option" where
  "put_b64 p src dst st = do {
     b \<leftarrow> tl_bytes p src;
     s \<leftarrow> buf_to_base64 b;
     Some (st(dst := S (map_option (takeWhile (\<lambda>c. c \<noteq> 0)) s)))
   }"

text \<open>\<^verbatim>\<open>%d\<close> of a 32-bit member, \<^verbatim>\<open>%s\<close> of a string.\<close>

definition fmt_d :: "u32 \<Rightarrow> string" where
  "fmt_d w = sdec (sint w)"

definition fmt_s :: "buf \<Rightarrow> string" where
  "fmt_s b = cstr (rest b)"

text \<open>What the string holds when the pointer to it is taken.\<close>

definition str_text :: "str \<Rightarrow> xcell" where
  "str_text s = S (Some (takeWhile (\<lambda>c. c \<noteq> 0) (st_str s)))"

fun video_sizes_loop :: "msg_env \<Rightarrow> str \<Rightarrow> tobj option list \<Rightarrow> str option" where
  "video_sizes_loop env s [] = Some s"
| "video_sizes_loop env s (None # xs) = video_sizes_loop env s xs"
| "video_sizes_loop env s (Some vs # xs) =
     (if o_id vs = id_videoSize then do {
        ty \<leftarrow> tl_bytes vs ''type_'';
        w \<leftarrow> tl_u32 vs ''w_'';
        h \<leftarrow> tl_u32 vs ''h_'';
        sz \<leftarrow> tl_u32 vs ''size_'';
        ts \<leftarrow> tl_double vs ''video_start_ts_'';
        s \<leftarrow> str_appendf s (fmt_s ty @ ''='' @ fmt_d w @ ''x'' @ fmt_d h @ ''='' @ fmt_d sz @ ''='' @ e_lf env ts @ '' '');
        video_sizes_loop env s xs
      }
      else video_sizes_loop env s xs)"

definition video_sizes :: "msg_env \<Rightarrow> tobj option list \<Rightarrow> cstruct \<Rightarrow> cstruct option" where
  "video_sizes env xs st = do { s \<leftarrow> video_sizes_loop env str_init xs; Some (st(''video_sizes'' := str_text s)) }"

fun photo_sizes_loop :: "str \<Rightarrow> tobj option list \<Rightarrow> cstruct \<Rightarrow> (str \<times> cstruct) option" where
  "photo_sizes_loop s [] st = Some (s, st)"
| "photo_sizes_loop s (None # xs) st = photo_sizes_loop s xs st"
| "photo_sizes_loop s (Some ps # xs) st =
     (if o_id ps = id_photoSize then do {
        ty \<leftarrow> tl_bytes ps ''type_'';
        w \<leftarrow> tl_u32 ps ''w_'';
        h \<leftarrow> tl_u32 ps ''h_'';
        s \<leftarrow> str_appendf s (fmt_s ty @ ''='' @ fmt_d w @ ''x'' @ fmt_d h @ '' '');
        photo_sizes_loop s xs st
      }
      else if o_id ps = id_photoCachedSize then do {
        w \<leftarrow> tl_u32 ps ''w_'';
        h \<leftarrow> tl_u32 ps ''h_'';
        photo_sizes_loop s xs (st(''photo_cached_size'' := S (Some (str_bytes (take 30 (fmt_d w @ ''x'' @ fmt_d h))))))
      }
      else if o_id ps = id_photoStrippedSize then do {
        b \<leftarrow> tl_bytes ps ''bytes_'';
        t \<leftarrow> BUF2IMG b;
        photo_sizes_loop s xs (st(''photo_stripped'' := S t))
      }
      else if o_id ps = id_photoPathSize then do {
        b \<leftarrow> tl_bytes ps ''bytes_'';
        svg \<leftarrow> image_from_svg_path b;
        photo_sizes_loop s xs (st(''photo_svg'' := S (Some svg)))
      }
      else photo_sizes_loop s xs st)"

definition photo_sizes :: "tobj option list \<Rightarrow> cstruct \<Rightarrow> cstruct option" where
  "photo_sizes xs st = do { (s, st) \<leftarrow> photo_sizes_loop str_init xs st; Some (st(''photo_sizes'' := str_text s)) }"

definition document_attribute :: "msg_env \<Rightarrow> tobj \<Rightarrow> cstruct \<Rightarrow> cstruct option" where
  "document_attribute env a st =
     (if o_id a = id_documentAttributeImageSize then put_nums a [(''w_'', T_u32, ''doc_w''), (''h_'', T_u32, ''doc_h'')] st
      else if o_id a = id_documentAttributeVideo then do {
        st \<leftarrow> put_nums a [(''w_'', T_u32, ''doc_vw''), (''h_'', T_u32, ''doc_vh'')] st;
        d \<leftarrow> tl_double a ''duration_'';
        Some (st(''doc_vduration'' := N (e_trunc env d), ''doc_isVideo'' := N 1))
      }
      else if o_id a = id_documentAttributeAudio then do {
        st \<leftarrow> put_text a ''title_'' ''doc_title'' st;
        put_num a ''duration_'' T_u64 ''doc_aduration'' st
      }
      else if o_id a = id_documentAttributeFilename then put_text a ''file_name_'' ''doc_file_name'' st
      else if o_id a = id_documentAttributeSticker then do {
        st \<leftarrow> put_text a ''alt_'' ''message_'' st;
        Some (st(''is_sticker'' := N 1))
      }
      else Some st)"

fun document_attributes :: "msg_env \<Rightarrow> tobj option list \<Rightarrow> cstruct \<Rightarrow> cstruct option" where
  "document_attributes env [] st = Some st"
| "document_attributes env (None # as) st = document_attributes env as st"
| "document_attributes env (Some a # as) st = do { st \<leftarrow> document_attribute env a st; document_attributes env as st }"

section \<open>Media\<close>

definition media_photo :: "tobj \<Rightarrow> cstruct \<Rightarrow> cstruct option" where
  "media_photo photo st = do {
     st \<leftarrow> put_nums photo [(''access_hash_'', T_u64, ''photo_access_hash''), (''id_'', T_u64, ''photo_id''),
       (''dc_id_'', T_u32, ''photo_dc_id''), (''date_'', T_u32, ''photo_date'')] st;
     st \<leftarrow> put_b64 photo ''file_reference_'' ''photo_file_reference'' st;
     xs \<leftarrow> tl_array photo ''sizes_'';
     photo_sizes xs st
   }"

definition media_geo :: "tobj \<Rightarrow> cstruct \<Rightarrow> cstruct option" where
  "media_geo geo st = put_nums geo [(''long_'', T_double, ''geo_long''), (''lat_'', T_double, ''geo_lat''),
     (''access_hash_'', T_u64, ''geo_access_hash''), (''accuracy_radius_'', T_u32, ''geo_accuracy_radius'')] st"

text \<open>The flag of a video is written to the member for voice messages, and then overwritten.\<close>

definition media_document :: "msg_env \<Rightarrow> tobj \<Rightarrow> tobj \<Rightarrow> cstruct \<Rightarrow> cstruct option" where
  "media_document env mmp doc st = do {
     st \<leftarrow> put_nums mmp [(''video_'', T_bool, ''doc_isVoice''), (''round_'', T_bool, ''doc_isRound''), (''voice_'', T_bool, ''doc_isVoice'')] st;
     st \<leftarrow> put_nums doc [(''id_'', T_u64, ''doc_id''), (''access_hash_'', T_u64, ''doc_access_hash'')] st;
     st \<leftarrow> put_b64 doc ''file_reference_'' ''doc_file_reference'' st;
     st \<leftarrow> put_nums doc [(''date_'', T_u32, ''doc_date''), (''size_'', T_u64, ''doc_size''), (''dc_id_'', T_u32, ''doc_dc_id'')] st;
     xs \<leftarrow> tl_array doc ''thumbs_'';
     st \<leftarrow> photo_sizes xs st;
     vs \<leftarrow> tl_array doc ''video_thumbs_'';
     st \<leftarrow> video_sizes env vs st;
     as \<leftarrow> tl_vector doc ''attributes_'';
     document_attributes env as st
   }"

definition web_photo :: "tobj \<Rightarrow> cstruct \<Rightarrow> cstruct option" where
  "web_photo photo st = do {
     st \<leftarrow> put_nums photo [(''id_'', T_u64, ''web_photo_id''), (''access_hash_'', T_u64, ''web_photo_access_hash''),
       (''dc_id_'', T_u32, ''web_photo_dc_id''), (''date_'', T_u32, ''web_photo_date'')] st;
     put_b64 photo ''file_reference_'' ''web_photo_file_reference'' st
   }"

definition media_webpage :: "tobj \<Rightarrow> cstruct \<Rightarrow> cstruct option" where
  "media_webpage web st = do {
     st \<leftarrow> put_num web ''id_'' T_u64 ''web_id'' st;
     st \<leftarrow> put_text web ''url_'' ''web_url'' st;
     st \<leftarrow> put_text web ''display_url_'' ''web_display_url'' st;
     st \<leftarrow> put_num web ''hash_'' T_u32 ''web_hash'' st;
     st \<leftarrow> put_text web ''type_'' ''web_type'' st;
     st \<leftarrow> put_text web ''site_name_'' ''web_site_name'' st;
     st \<leftarrow> put_text web ''title_'' ''web_title'' st;
     st \<leftarrow> put_text web ''description_'' ''web_description'' st;
     when_obj web ''photo_'' id_photo web_photo st
   }"

definition media_contact :: "tobj \<Rightarrow> cstruct \<Rightarrow> cstruct option" where
  "media_contact mmp st = do {
     st \<leftarrow> put_text mmp ''phone_number_'' ''contact_phone_number'' st;
     st \<leftarrow> put_text mmp ''first_name_'' ''contact_first_name'' st;
     st \<leftarrow> put_text mmp ''last_name_'' ''contact_last_name'' st;
     st \<leftarrow> put_text mmp ''vcard_'' ''contact_vcard'' st;
     put_num mmp ''user_id_'' T_u64 ''contact_user_id'' st
   }"

definition put_media :: "msg_env \<Rightarrow> tobj \<Rightarrow> cstruct \<Rightarrow> cstruct option" where
  "put_media env m st =
     (let st = st(''media_type'' := N (ucast (o_id m))) in
      if o_id m = id_messageMediaPhoto then when_obj m ''photo_'' id_photo media_photo st
      else if o_id m = id_messageMediaGeo then when_obj m ''geo_'' id_geoPoint media_geo st
      else if o_id m = id_messageMediaDocument then when_obj m ''document_'' id_document (media_document env m) st
      else if o_id m = id_messageMediaWebPage then when_obj m ''webpage_'' id_webPage media_webpage st
      else if o_id m = id_messageMediaContact then media_contact m st
      else Some st)"

section \<open>Messages\<close>

definition entity_of :: "tobj \<Rightarrow> cstruct option" where
  "entity_of e = do {
     let st = (zeroed TG_MESSAGE_ENTITY_ARGS)(''entityType'' := N (ucast (o_id e)));
     st \<leftarrow> put_nums e [(''offset_'', T_u32, ''offset_''), (''length_'', T_u32, ''length_'')] st;
     if o_id e = id_messageEntityTextUrl then put_text e ''url_'' ''url_'' st
     else if o_id e = id_messageEntityBlockquote then put_num e ''collapsed_'' T_bool ''collapsed_'' st
     else if o_id e = id_messageEntityMentionName then put_num e ''user_id_'' T_u64 ''user_id_'' st
     else if o_id e = id_messageEntityCustomEmoji then put_num e ''document_id_'' T_u64 ''document_id_'' st
     else Some st
   }"

text \<open>A null pointer among the entities is followed.\<close>

fun entities_of :: "tobj option list \<Rightarrow> cstruct list option" where
  "entities_of [] = Some []"
| "entities_of (None # es) = None"
| "entities_of (Some e # es) = do { x \<leftarrow> entity_of e; xs \<leftarrow> entities_of es; Some (x # xs) }"

definition tg_message_from_tl :: "msg_env \<Rightarrow> tobj \<Rightarrow> msg_struct option" where
  "tg_message_from_tl env tlm = do {
     d \<leftarrow> buf_add_buf (o_buf tlm);
     st \<leftarrow> msg_args [] tlm TG_MESSAGE_ARGS (mg_st msg_zero);
     st \<leftarrow> when_obj tlm ''reply_to_'' id_messageReplyHeader (tg_message_reply ''reply_to_.'') st;
     es \<leftarrow> tl_vector tlm ''entities_'';
     ens \<leftarrow> entities_of es;
     media \<leftarrow> tl_pointer tlm ''media_'';
     st \<leftarrow> (case media of None \<Rightarrow> Some st | Some m \<Rightarrow> put_media env m st);
     Some \<lparr>mg_data = d, mg_st = st, mg_entities = ens\<rparr>
   }"

section \<open>Service messages\<close>

text \<open>\<^verbatim>\<open>strdup(STR(...))\<close>: the text goes through an array of \<^verbatim>\<open>BUFSIZ\<close> characters.\<close>

definition STRF :: "string \<Rightarrow> xcell" where
  "STRF t = S (Some (str_bytes (takeWhile (\<lambda>c. c \<noteq> CHR 0x00) (take (BUFSIZ - 2) t))))"

definition say :: "string \<Rightarrow> cstruct \<Rightarrow> cstruct" where
  "say t st = st(''message_'' := S (Some (str_bytes t)))"

definition title_text :: "string \<Rightarrow> tobj \<Rightarrow> cstruct \<Rightarrow> cstruct option" where
  "title_text t p st = do {
     b \<leftarrow> tl_bytes p ''title_'';
     Some (st(''message_'' := STRF (t @ ''\"'' @ fmt_s b @ ''\"'')))
   }"

definition number_text :: "string \<Rightarrow> string \<Rightarrow> tobj \<Rightarrow> cstruct \<Rightarrow> cstruct option" where
  "number_text t f p st = do { v \<leftarrow> tl_u64 p f; Some (st(''message_'' := STRF (t @ ld v))) }"

text \<open>
  The loop over the users of \<^verbatim>\<open>messageActionChatAddUser\<close>: an identifier is compared with the constructor number
  of a user object, and the first difference ends it.
\<close>

fun users_text :: "str \<Rightarrow> fval list \<Rightarrow> str option" where
  "users_text s [] = Some s"
| "users_text s (F_ui64 u # us) = (if u \<noteq> ucast id_user then Some s else do { s \<leftarrow> str_appendf s (ld u @ '' ''); users_text s us })"
| "users_text s (_ # us) = None"

definition add_users_text :: "tobj \<Rightarrow> cstruct \<Rightarrow> cstruct option" where
  "add_users_text p st = do {
     s \<leftarrow> str_appendf str_init ''chat add users: '';
     s \<leftarrow> (case tl_member p ''users_'' of Some (F_arr k us) \<Rightarrow> users_text s us | _ \<Rightarrow> None);
     Some (st(''message_'' := str_text s))
   }"

text \<open>The reason of a call is followed before it is compared with null.\<close>

definition call_text :: "tobj \<Rightarrow> cstruct \<Rightarrow> cstruct option" where
  "call_text p st = do {
     st \<leftarrow> put_nums p [(''video_'', T_bool, ''phone_call_video''), (''call_id_'', T_u64, ''phone_call_id''),
       (''duration_'', T_u32, ''phone_call_duration'')] st;
     reason \<leftarrow> tl_pointer p ''reason_'';
     case reason of
       None \<Rightarrow> None
     | Some r \<Rightarrow> do {
         let st = st(''phone_call_reason'' := N (ucast (o_id r)));
         let video = (num_val (st ''phone_call_video'') \<noteq> 0);
         Some (if o_id r = id_phoneCallDiscardReasonMissed then say (if video then ''missed video call'' else ''missed phone call'') st
               else if o_id r = id_phoneCallDiscardReasonDisconnect
               then say (if video then ''video call disconnected'' else ''phone call disconnected'') st
               else if o_id r = id_phoneCallDiscardReasonHangup then say (if video then ''video call hanged up'' else ''phone call hanged up'') st
               else if o_id r = id_phoneCallDiscardReasonBusy then say (if video then ''video call busy'' else ''phone call busy'') st
               else st)
       }
   }"

definition action_text :: "msg_env \<Rightarrow> tobj \<Rightarrow> cstruct \<Rightarrow> cstruct option" where
  "action_text env p st =
     (if o_id p = id_messageActionEmpty then Some (say ''empty'' st)
      else if o_id p = id_messageActionChatCreate then title_text ''chat create: '' p st
      else if o_id p = id_messageActionChatEditTitle then title_text ''chat edit title: '' p st
      else if o_id p = id_messageActionChatEditPhoto then Some (say ''chat edit photo'' st)
      else if o_id p = id_messageActionChatDeletePhoto then Some (say ''chat delete photo'' st)
      else if o_id p = id_messageActionChatAddUser then add_users_text p st
      else if o_id p = id_messageActionChatDeleteUser then number_text ''chat delete user: '' ''user_id_'' p st
      else if o_id p = id_messageActionChatJoinedByLink then number_text ''chat joined by link: '' ''inviter_id_'' p st
      else if o_id p = id_messageActionChannelCreate then title_text ''channel create: '' p st
      else if o_id p = id_messageActionChatMigrateTo then number_text ''chat migrate to: '' ''channel_id_'' p st
      else if o_id p = id_messageActionChannelMigrateFrom then number_text ''chat migrate from: '' ''chat_id_'' p st
      else if o_id p = id_messageActionPhoneCall then call_text p st
      else if o_id p = id_messageActionCustomAction then put_text p ''message_'' ''message_'' st
      else do { t \<leftarrow> e_name env (o_id p); Some (say t st) })"

definition put_peer :: "tobj \<Rightarrow> string \<Rightarrow> cstruct \<Rightarrow> cstruct option" where
  "put_peer p f st = msg_arg [] p (TG_PER T_u64 f ''INT'' [] 0) st"

definition tg_message_from_tl_service :: "msg_env \<Rightarrow> tobj \<Rightarrow> msg_struct option" where
  "tg_message_from_tl_service env tlm = do {
     d \<leftarrow> buf_add_buf (o_buf tlm);
     let st = (mg_st msg_zero)(''is_service'' := N 1);
     st \<leftarrow> put_nums tlm [(''out_'', T_bool, ''out_''), (''mentioned_'', T_bool, ''mentioned_''), (''media_unread_'', T_bool, ''media_unread_''),
       (''silent_'', T_bool, ''silent_''), (''post_'', T_bool, ''post_''), (''legacy_'', T_bool, ''legacy_''), (''id_'', T_u32, ''id_'')] st;
     st \<leftarrow> put_peer tlm ''from_id_'' st;
     st \<leftarrow> put_peer tlm ''peer_id_'' st;
     st \<leftarrow> when_obj tlm ''reply_to_'' id_messageReplyHeader (tg_message_reply ''reply_to_.'') st;
     st \<leftarrow> put_num tlm ''date_'' T_u32 ''date_'' st;
     action \<leftarrow> tl_pointer tlm ''action_'';
     st \<leftarrow> (case action of None \<Rightarrow> None | Some p \<Rightarrow> action_text env p st);
     st \<leftarrow> put_num tlm ''ttl_period_'' T_u32 ''ttl_period_'' st;
     Some \<lparr>mg_data = d, mg_st = st, mg_entities = []\<rparr>
   }"

text \<open>Other objects leave the struct as it was; \<open>m\<close> is what it held, \<^term>\<open>None\<close> when nothing was written to it.\<close>

definition tg_message_from_tl_unknown :: "msg_env \<Rightarrow> msg_struct option \<Rightarrow> tobj \<Rightarrow> msg_struct option option" where
  "tg_message_from_tl_unknown env m tlm =
     (if o_id tlm = id_message then map_option Some (tg_message_from_tl env tlm)
      else if o_id tlm = id_messageService then map_option Some (tg_message_from_tl_service env tlm)
      else Some m)"

section \<open>The database of messages\<close>

text \<open>A statement that is executed, or one with the bytes that are bound to its parameter.\<close>

datatype sqlop = Exec "byte list" | Exec_blob string buf

definition msg_key :: "int \<Rightarrow> u64 \<Rightarrow> u32 \<Rightarrow> string" where
  "msg_key tgid peer k = quote @ sdec tgid @ ''_'' @ ld peer @ ''_'' @ fmt_d k @ quote"

definition tg_message_to_database :: "int \<Rightarrow> msg_struct \<Rightarrow> sqlop list" where
  "tg_message_to_database tgid m =
     (let peer = num_val (mg_st m ''peer_id_''); k = (ucast (num_val (mg_st m ''id_'')) :: u32);
          date = (ucast (num_val (mg_st m ''date_'')) :: u32); key = msg_key tgid peer k
      in [Exec (str_bytes (''INSERT INTO '' @ quote @ ''messages'' @ quote @ '' (id_peer_id_msg_id_) SELECT '' @ key @
            '' WHERE NOT EXISTS (SELECT 1 FROM '' @ quote @ ''messages'' @ quote @ '' WHERE id_peer_id_msg_id_ = '' @ key @ '');'' @ nl)),
          Exec_blob (''UPDATE '' @ quote @ ''messages'' @ quote @ '' SET id = '' @ sdec tgid @ '', date = '' @ fmt_d date @ '', msg_id_ = '' @ fmt_d k @
            '', peer_id = '' @ ld peer @ '', message_data = (?) WHERE id_peer_id_msg_id_ = '' @ key @ '';'') (mg_data m)])"

definition tg_messages_create_table :: "string list" where
  "tg_messages_create_table =
     [''CREATE TABLE IF NOT EXISTS messages (id INT); '',
      ''ALTER TABLE messages ADD COLUMN msg_id_ INT; '',
      ''ALTER TABLE messages ADD COLUMN id_peer_id_msg_id_ TEXT; '',
      ''ALTER TABLE messages ADD COLUMN message_data BLOB; '',
      ''ALTER TABLE messages ADD COLUMN date INT; '',
      ''ALTER TABLE messages ADD COLUMN peer_id INT; '']"

definition select_messages :: "int \<Rightarrow> u64 \<Rightarrow> int \<Rightarrow> int \<Rightarrow> string" where
  "select_messages tgid peer offset_date limit =
     ''SELECT message_data FROM messages WHERE id = '' @ sdec tgid @ '' AND peer_id = '' @ ld peer @ '' AND date < '' @ sdec offset_date @
     '' AND date > 0 ORDER BY '' @ quote @ ''date'' @ quote @ '' DESC LIMIT '' @ sdec limit @ '';''"

text \<open>\<open>deser\<close> is \<^verbatim>\<open>tl_deserialize\<close>.  What the callback returns is not looked at.\<close>

fun read_messages :: "msg_env \<Rightarrow> tl_reader \<Rightarrow> ('s \<Rightarrow> msg_struct \<Rightarrow> int \<times> 's) option \<Rightarrow> byte list list \<Rightarrow> 's \<Rightarrow> 's option" where
  "read_messages env deser cb [] s = Some s"
| "read_messages env deser cb (blob # blobs) s = do {
     b \<leftarrow> buf_add blob 0 (of_nat (length blob));
     (p, _) \<leftarrow> deser b;
     s \<leftarrow> (case p of
         None \<Rightarrow> Some s
       | Some tlm \<Rightarrow> do {
           m \<leftarrow> tg_message_from_tl_unknown env (Some msg_zero) tlm;
           case m of None \<Rightarrow> None | Some m \<Rightarrow> Some (case cb of None \<Rightarrow> s | Some f \<Rightarrow> snd (f s m))
         });
     read_messages env deser cb blobs s
   }"

definition tg_get_messages_from_database ::
  "msg_env \<Rightarrow> tl_reader \<Rightarrow> (string \<Rightarrow> byte list list) \<Rightarrow> int \<Rightarrow> u64 \<Rightarrow> int \<Rightarrow> int \<Rightarrow> ('s \<Rightarrow> msg_struct \<Rightarrow> int \<times> 's) option \<Rightarrow> 's \<Rightarrow> 's option" where
  "tg_get_messages_from_database env deser query tgid peer offset_date limit cb s =
     read_messages env deser cb (query (select_messages tgid peer offset_date limit)) s"

section \<open>Messages in an answer\<close>

text \<open>The result counts the objects before the one whose callback stopped the loop.\<close>

fun parse_messages :: "msg_env \<Rightarrow> int \<Rightarrow> ('s \<Rightarrow> msg_struct \<Rightarrow> int \<times> 's) option \<Rightarrow> tobj option list \<Rightarrow> 's \<Rightarrow> (int \<times> sqlop list \<times> 's) option" where
  "parse_messages env tgid cb [] s = Some (0, [], s)"
| "parse_messages env tgid cb (None # ms) s = do { (n, ops, s) \<leftarrow> parse_messages env tgid cb ms s; Some (n + 1, ops, s) }"
| "parse_messages env tgid cb (Some p # ms) s = do {
     m \<leftarrow> tg_message_from_tl_unknown env None p;
     case m of
       None \<Rightarrow> None
     | Some m \<Rightarrow>
         (let ops = tg_message_to_database tgid m; (stop, s) = (case cb of None \<Rightarrow> (0, s) | Some f \<Rightarrow> f s m) in
          if stop \<noteq> 0 then Some (0, ops, s)
          else do { (n, ops', s) \<leftarrow> parse_messages env tgid cb ms s; Some (n + 1, ops @ ops', s) })
   }"

text \<open>The three kinds of answers differ only in members that are not read.\<close>

definition parse_tl :: "msg_env \<Rightarrow> int \<Rightarrow> ('s \<Rightarrow> msg_struct \<Rightarrow> int \<times> 's) option \<Rightarrow> tobj option \<Rightarrow> 's \<Rightarrow> (int \<times> sqlop list \<times> 's) option" where
  "parse_tl env tgid cb r s =
     (case r of
        None \<Rightarrow> Some (0, [], s)
      | Some p \<Rightarrow>
          if is_messages p then do {
            us \<leftarrow> tl_array p ''users_'';
            users \<leftarrow> tg_users_save tgid us;
            cs \<leftarrow> tl_array p ''chats_'';
            chats \<leftarrow> tg_chats_save tgid cs;
            ms \<leftarrow> tl_vector p ''messages_'';
            (n, ops, s) \<leftarrow> parse_messages env tgid cb ms s;
            Some (n, map Exec users @ map Exec chats @ ops, s)
          }
          else Some (0, [], s))"

end
