(* ===== verification/Tg_State.thy ===== *)
theory Tg_State
  imports Tl_Codec
begin

text \<open>
  The client object \<^verbatim>\<open>tg_t\<close> (\<^verbatim>\<open>libtg/tg/tg.h\<close>) as far as the message layers use it, the
  world it runs in (clock, random source, mutexes, the generated constructors and the
  primitives of OpenSSL, all parameters), the clock of \<^verbatim>\<open>header.c\<close>, the envelope
  \<^verbatim>\<open>tg_mtp_message\<close> and the acknowledgement lists of \<^verbatim>\<open>ack.c\<close>.
\<close>

section \<open>The client and its world\<close>

datatype mutex = Seqnm | Msgidsm | Todropm | Queue_lock | Databasem | Send_query

text \<open>One entry of \<^verbatim>\<open>config->dc_options_\<close>, or \<^verbatim>\<open>NULL\<close>: the \<^verbatim>\<open>id\<close> and the address.\<close>

type_synonym dc_option = "(int \<times> string) option"

record tg =
  tg_id :: int
  tg_apiId :: int
  tg_apiHash :: string
  tg_database_path :: string
  tg_pubkey :: string
  tg_ip :: string
  tg_port :: int
  tg_config :: "dc_option list option"
  tg_seqn :: u32
  tg_key :: buf
  tg_key_id :: u64
  tg_salt :: buf
  tg_ssid :: buf
  tg_msgids :: "u64 list"
  tg_todrop :: "u64 list"
  tg_timediff :: u64
  tg_ticks :: nat   \<comment> \<open>how often the clock was read\<close>

text \<open>
  \<open>e_clock n\<close> is the \<open>n\<close>-th reading of the real-time clock in units of \<open>2\<^sup>-\<^sup>3\<^sup>2\<close> seconds, the
  value of \<^verbatim>\<open>(long long)((1LL << 32) * utime)\<close>; \<^verbatim>\<open>time(NULL)\<close> is its upper half.
  \<open>e_rnd seed i\<close> is the \<open>i\<close>-th \<^verbatim>\<open>rand()\<close> after \<^verbatim>\<open>srand(seed)\<close>.  \<open>e_lock m\<close> tells whether
  \<^verbatim>\<open>pthread_mutex_lock\<close> succeeds.  \<open>e_msgs_ack\<close> and \<open>e_drop\<close> are the generated
  constructors \<^verbatim>\<open>tl_msgs_ack\<close> and \<^verbatim>\<open>tl_rpc_drop_answer\<close>.  The last four are \<^verbatim>\<open>SHA1\<close>,
  \<^verbatim>\<open>SHA256\<close> and \<^verbatim>\<open>AES_ige_encrypt\<close> in its two modes with a 256-bit key.
\<close>

record env =
  e_clock :: "nat \<Rightarrow> u64"
  e_rnd :: "u32 \<Rightarrow> nat \<Rightarrow> nat"
  e_lock :: "mutex \<Rightarrow> bool"
  e_msgs_ack :: "u64 list \<Rightarrow> buf"
  e_drop :: "u64 \<Rightarrow> buf"
  e_sha1 :: "byte list \<Rightarrow> byte list"
  e_sha256 :: "byte list \<Rightarrow> byte list"
  e_ige_e :: "byte list \<Rightarrow> byte list \<Rightarrow> byte list \<Rightarrow> byte list"
  e_ige_d :: "byte list \<Rightarrow> byte list \<Rightarrow> byte list \<Rightarrow> byte list"

text \<open>A reading of the clock moves it on.\<close>

definition tick :: "tg \<Rightarrow> tg" where
  "tick tg = tg\<lparr>tg_ticks := Suc (tg_ticks tg)\<rparr>"

definition tg_get_current_time :: "env \<Rightarrow> tg \<Rightarrow> u64 \<times> tg" where
  "tg_get_current_time env tg =
     ((e_clock env (tg_ticks tg) AND (- 4)) + tg_timediff tg, tick tg)"

text \<open>\<^verbatim>\<open>time(NULL)\<close>\<close>

definition now_seconds :: "env \<Rightarrow> tg \<Rightarrow> u64 \<times> tg" where
  "now_seconds env tg = (drop_bit 32 (e_clock env (tg_ticks tg)), tick tg)"

section \<open>The message envelope\<close>

text \<open>
  \<^verbatim>\<open>tg->seqn++ * 2 + 1\<close> for a content-related message, \<^verbatim>\<open>tg->seqn * 2\<close> otherwise.  The
  counter is a C \<^verbatim>\<open>int\<close>, appended as 32 bits.
\<close>

definition next_seqno :: "tg \<Rightarrow> bool \<Rightarrow> u32 \<times> tg" where
  "next_seqno tg content =
     (if content then (tg_seqn tg * 2 + 1, tg\<lparr>tg_seqn := tg_seqn tg + 1\<rparr>)
      else (tg_seqn tg * 2, tg))"

text \<open>The result is the message, the identifier (stored where \<^verbatim>\<open>msgid\<close> points, if it does), the client.\<close>

definition tg_mtp_message :: "env \<Rightarrow> tg \<Rightarrow> buf \<Rightarrow> bool \<Rightarrow> (buf \<times> u64 \<times> tg) option" where
  "tg_mtp_message env tg payload content = do {
     let msg = buf_new;
     let (mid, tg) = tg_get_current_time env tg;
     msg \<leftarrow> buf_cat_ui64 msg mid;
     if \<not> e_lock env Seqnm then Some (msg, mid, tg)
     else do {
       let (sq, tg) = next_seqno tg content;
       msg \<leftarrow> buf_cat_ui32 msg sq;
       msg \<leftarrow> buf_cat_ui32 msg (bsize payload);
       msg \<leftarrow> buf_cat msg payload;
       Some (msg, mid, tg)
     }
   }"

section \<open>Acknowledgements\<close>

definition tg_add_msgid :: "env \<Rightarrow> tg \<Rightarrow> u64 \<Rightarrow> tg" where
  "tg_add_msgid env tg msgid =
     (if \<not> e_lock env Msgidsm then tg else tg\<lparr>tg_msgids := tg_msgids tg @ [msgid]\<rparr>)"

definition tg_ack :: "env \<Rightarrow> tg \<Rightarrow> buf \<times> tg" where
  "tg_ack env tg =
     (let ack = buf_new in
      if \<not> e_lock env Msgidsm then (ack, tg)
      else if length (tg_msgids tg) < 1 then (ack, tg)
      else (e_msgs_ack env (tg_msgids tg), tg\<lparr>tg_msgids := []\<rparr>))"

definition tg_add_todrop :: "env \<Rightarrow> tg \<Rightarrow> u64 \<Rightarrow> tg" where
  "tg_add_todrop env tg msgid =
     (if \<not> e_lock env Todropm then tg else tg\<lparr>tg_todrop := tg_todrop tg @ [msgid]\<rparr>)"

fun drop_loop :: "env \<Rightarrow> tg \<Rightarrow> u64 list \<Rightarrow> buf \<Rightarrow> (buf \<times> tg) option" where
  "drop_loop env tg [] buf = Some (buf, tg)"
| "drop_loop env tg (m # ms) buf = do {
     let drop = e_drop env m;
     (msg, _, tg) \<leftarrow> tg_mtp_message env tg drop True;
     buf \<leftarrow> buf_cat buf msg;
     drop_loop env tg ms buf
   }"

definition tg_to_drop :: "env \<Rightarrow> tg \<Rightarrow> buf \<Rightarrow> (int \<times> buf \<times> tg) option" where
  "tg_to_drop env tg buf =
     (if \<not> e_lock env Todropm then Some (0, buf, tg)
      else if length (tg_todrop tg) < 1 then Some (0, buf, tg)
      else do {
        (buf, tg') \<leftarrow> drop_loop env tg (tg_todrop tg) buf;
        Some (int (length (tg_todrop tg)), buf, tg'\<lparr>tg_todrop := []\<rparr>)
      })"

section \<open>The envelope as bytes\<close>

text \<open>\<^verbatim>\<open>message msg_id:long seqno:int bytes:int body:Object = Message\<close>\<close>

definition mtp_wire :: "u64 \<Rightarrow> u32 \<Rightarrow> byte list \<Rightarrow> byte list" where
  "mtp_wire mid sq body = le_bytes 8 mid @ le_bytes 4 sq @ le_bytes 4 (of_nat (length body) :: u32) @ body"

definition locks_ok :: "env \<Rightarrow> bool" where
  "locks_ok env \<longleftrightarrow> (\<forall>m \<in> {Seqnm, Msgidsm, Todropm, Queue_lock, Databasem, Send_query}. e_lock env m)"

lemma locks_okD [simp]: "locks_ok env \<Longrightarrow> e_lock env m"
  by (cases m) (simp_all add: locks_ok_def)

lemma length_mtp_wire [simp]: "length (mtp_wire mid sq body) = 16 + length body"
  by (simp add: mtp_wire_def)

text \<open>The identifier of the message that the next clock reading would give.\<close>

definition id_at :: "env \<Rightarrow> tg \<Rightarrow> nat \<Rightarrow> u64" where
  "id_at env tg k = (e_clock env (tg_ticks tg + k) AND (- 4)) + tg_timediff tg"

lemma get_current_time_eq: "tg_get_current_time env tg = (id_at env tg 0, tick tg)"
  by (simp add: tg_get_current_time_def id_at_def)

lemma tick_simps [simp]:
  "tg_ticks (tick tg) = Suc (tg_ticks tg)" "tg_timediff (tick tg) = tg_timediff tg"
  "tg_seqn (tick tg) = tg_seqn tg" "tg_msgids (tick tg) = tg_msgids tg"
  "tg_todrop (tick tg) = tg_todrop tg" "tg_key (tick tg) = tg_key tg"
  "tg_salt (tick tg) = tg_salt tg" "tg_ssid (tick tg) = tg_ssid tg"
  by (simp_all add: tick_def)

lemma tg_mtp_message_eq:
  assumes "e_lock env Seqnm" and "readable p" and "fits (16 + unat (bsize p))"
  shows "tg_mtp_message env tg p content =
     Some (mkbuf (mtp_wire (id_at env tg 0) (fst (next_seqno (tick tg) content)) (bytes p)),
           id_at env tg 0, snd (next_seqno (tick tg) content))"
proof -
  have "of_nat (length (bytes p)) = bsize p" using assms(2) by simp
  with assms show ?thesis
    by (simp add: tg_mtp_message_def get_current_time_eq mtp_wire_def split_beta Let_def)
qed

lemma tg_ack_empty: "tg_msgids tg = [] \<Longrightarrow> tg_ack env tg = (mkbuf [], tg)"
  by (simp add: tg_ack_def Let_def)

lemma tg_ack_pending:
  "tg_msgids tg \<noteq> [] \<Longrightarrow> e_lock env Msgidsm \<Longrightarrow>
   tg_ack env tg = (e_msgs_ack env (tg_msgids tg), tg\<lparr>tg_msgids := []\<rparr>)"
  by (simp add: tg_ack_def Suc_le_eq)

text \<open>The drop requests behind a client, as bytes: each is a content-related message of its own.\<close>

fun drops_wire :: "env \<Rightarrow> tg \<Rightarrow> u64 list \<Rightarrow> byte list" where
  "drops_wire env tg [] = []"
| "drops_wire env tg (m # ms) =
     mtp_wire (id_at env tg 0) (tg_seqn tg * 2 + 1) (bytes (e_drop env m)) @
     drops_wire env ((tick tg)\<lparr>tg_seqn := tg_seqn tg + 1\<rparr>) ms"

lemma length_drops_wire:
  "(\<And>m. m \<in> set ms \<Longrightarrow> readable (e_drop env m)) \<Longrightarrow>
   length (drops_wire env tg ms) = sum_list (map (\<lambda>m. 16 + unat (bsize (e_drop env m))) ms)"
  by (induction ms arbitrary: tg) simp_all

lemma drop_loop_eq:
  assumes "e_lock env Seqnm"
  shows "(\<And>m. m \<in> set ms \<Longrightarrow> readable (e_drop env m)) \<Longrightarrow>
         fits (length xs + sum_list (map (\<lambda>m. 16 + unat (bsize (e_drop env m))) ms)) \<Longrightarrow>
         drop_loop env tg ms (mkbuf xs) =
           Some (mkbuf (xs @ drops_wire env tg ms),
                 tg\<lparr>tg_seqn := tg_seqn tg + of_nat (length ms), tg_ticks := tg_ticks tg + length ms\<rparr>)"
proof (induction ms arbitrary: tg xs)
  case Nil
  then show ?case by simp
next
  case (Cons m ms)
  let ?n = "unat (bsize (e_drop env m))"
  have rd: "readable (e_drop env m)" and f: "fits (length xs + (16 + ?n))" "fits (16 + ?n)"
    using Cons.prems by (auto intro: fits_mono)
  have msg: "tg_mtp_message env tg (e_drop env m) True =
     Some (mkbuf (mtp_wire (id_at env tg 0) (tg_seqn tg * 2 + 1) (bytes (e_drop env m))),
           id_at env tg 0, (tick tg)\<lparr>tg_seqn := tg_seqn tg + 1\<rparr>)"
    using tg_mtp_message_eq [OF assms rd f(2)] by (simp add: next_seqno_def)
  let ?w = "mtp_wire (id_at env tg 0) (tg_seqn tg * 2 + 1) (bytes (e_drop env m))"
  have "drop_loop env ((tick tg)\<lparr>tg_seqn := tg_seqn tg + 1\<rparr>) ms (mkbuf (xs @ ?w)) =
        Some (mkbuf ((xs @ ?w) @ drops_wire env ((tick tg)\<lparr>tg_seqn := tg_seqn tg + 1\<rparr>) ms),
              tg\<lparr>tg_seqn := tg_seqn tg + 1 + of_nat (length ms), tg_ticks := Suc (tg_ticks tg) + length ms\<rparr>)"
    by (subst Cons.IH) (use Cons.prems rd in \<open>simp_all add: tick_def add.assoc\<close>)
  with rd f show ?case by (simp add: msg Let_def)
qed


section \<open>A sample world\<close>

text \<open>A concrete world and client on which the theorems are exercised.\<close>

definition sample_env :: env where
  "sample_env = \<lparr>e_clock = (\<lambda>n. of_nat (1000 * n + 4294967299)), e_rnd = (\<lambda>seed i. unat seed + i),
     e_lock = (\<lambda>m. True), e_msgs_ack = (\<lambda>ids. mkbuf (le_bytes 8 (hd ids))),
     e_drop = (\<lambda>m. mkbuf (le_bytes 8 m)), e_sha1 = (\<lambda>xs. replicate 20 7),
     e_sha256 = (\<lambda>xs. replicate 32 (of_nat (length xs))),
     e_ige_e = (\<lambda>k iv xs. xs), e_ige_d = (\<lambda>k iv xs. xs)\<rparr>"

definition sample_tg :: tg where
  "sample_tg = \<lparr>tg_id = 0, tg_apiId = 1, tg_apiHash = ''h'', tg_database_path = ''db'', tg_pubkey = [],
     tg_ip = ''149.154.167.50'', tg_port = 443, tg_config = None, tg_seqn = 0,
     tg_key = mkbuf (replicate 256 1), tg_key_id = 0, tg_salt = mkbuf (replicate 8 2), tg_ssid = mkbuf (replicate 8 3),
     tg_msgids = [], tg_todrop = [], tg_timediff = 0, tg_ticks = 0\<rparr>"

lemma sample_locks [simp]: "locks_ok sample_env"
  by (simp add: locks_ok_def sample_env_def)

end
