(* ===== verification/Header.thy ===== *)
theory Header
  imports Tg_State
begin

text \<open>
  The inner message layer, \<^verbatim>\<open>libtg/tg/header.c\<close>: \<^verbatim>\<open>tg_header\<close> puts salt, session, message
  identifier, sequence number, length and padding around a query, wrapping it in a
  container together with pending acknowledgements and drop requests;
  \<^verbatim>\<open>tg_deheader\<close> takes the payload out of what the server sent.
\<close>

section \<open>The operations\<close>

text \<open>The constructor identifier of \<^verbatim>\<open>msg_container\<close> in the MTProto schema.\<close>

definition id_msg_container :: u32 where
  "id_msg_container = 0x73f1f8dc"

text \<open>\<^verbatim>\<open>16 + (16 - (buf.size % 16)) % 16\<close>\<close>

definition pad16 :: "u32 \<Rightarrow> u32" where
  "pad16 n = 16 + (16 - n mod 16) mod 16"

text \<open>
  The part of \<^verbatim>\<open>tg_header\<close> that chooses the body: the query alone, or a container when
  there is something to acknowledge.  The result is the body, whether the outer
  message is content-related, the identifier stored so far, and the client.
\<close>

definition header_body :: "env \<Rightarrow> tg \<Rightarrow> buf \<Rightarrow> bool \<Rightarrow> (buf \<times> bool \<times> u64 \<times> tg) option" where
  "header_body env tg query content = do {
     let buf = buf_new;
     let (ack, tg) = tg_ack env tg;
     if bsize ack > 0 then do {
       (msg0, msg_id, tg) \<leftarrow> tg_mtp_message env tg query True;
       (msg1, _, tg) \<leftarrow> tg_mtp_message env tg ack False;
       buf \<leftarrow> buf_add_ui32 id_msg_container;
       let todrop = buf_new;
       (len, todrop, tg) \<leftarrow> tg_to_drop env tg todrop;
       buf \<leftarrow> buf_cat_ui32 buf (of_int (2 + len));
       buf \<leftarrow> buf_cat buf msg0;
       buf \<leftarrow> buf_cat buf msg1;
       buf \<leftarrow> buf_cat buf todrop;
       Some (buf, False, msg_id, tg)
     } else do {
       buf \<leftarrow> buf_cat buf query;
       Some (buf, content, 0, tg)
     }
   }"

definition tg_header :: "env \<Rightarrow> tg \<Rightarrow> buf \<Rightarrow> bool \<Rightarrow> bool \<Rightarrow> u64 \<Rightarrow> (buf \<times> u64 \<times> tg) option" where
  "tg_header env tg query enc content msgid =
     (if enc then do {
        let s = buf_new;
        (buf, content, msgid, tg) \<leftarrow> header_body env tg query content;
        s \<leftarrow> buf_cat s (tg_salt tg);
        s \<leftarrow> buf_cat s (tg_ssid tg);
        let (mid, tg) = tg_get_current_time env tg;
        s \<leftarrow> buf_cat_ui64 s mid;
        let msgid = (if msgid = 0 then mid else msgid);
        if \<not> e_lock env Seqnm then Some (s, msgid, tg)
        else do {
          let (sq, tg) = next_seqno tg content;
          s \<leftarrow> buf_cat_ui32 s sq;
          s \<leftarrow> buf_cat_ui32 s (bsize buf);
          s \<leftarrow> buf_cat s buf;
          let (now, tg) = now_seconds env tg;
          s \<leftarrow> buf_cat_rand (e_rnd env) now s (pad16 (bsize buf));
          Some (s, msgid, tg)
        }
      } else do {
        let s = buf_new;
        s \<leftarrow> buf_cat_ui64 s 0;
        let (mid, tg) = tg_get_current_time env tg;
        s \<leftarrow> buf_cat_ui64 s mid;
        s \<leftarrow> buf_cat_ui32 s (bsize query);
        s \<leftarrow> buf_cat s query;
        Some (s, msgid, tg)
      })"

text \<open>
  Reading a message.  The session identifier is compared and a mismatch only logged; the
  size of the payload is set to the length the message claims.
\<close>

definition tg_deheader :: "env \<Rightarrow> tg \<Rightarrow> buf \<Rightarrow> bool \<Rightarrow> (buf \<times> tg) option" where
  "tg_deheader env tg b enc =
     (if bsize b = 0 then Some (b, tg)
      else if enc then do {
        let d = buf_new;
        (salt, b) \<leftarrow> deserialize_ui64 b;
        s \<leftarrow> buf_add_ui64 salt;
        let tg = tg\<lparr>tg_salt := s\<rparr>;
        (ssid, b) \<leftarrow> deserialize_ui64 b;
        own \<leftarrow> buf_get_ui64 (tg_ssid tg);
        (msg_id, b) \<leftarrow> deserialize_ui64 b;
        let tg = tg_add_msgid env tg msg_id;
        (seq_no, b) \<leftarrow> deserialize_ui32 b;
        (msg_data_len, b) \<leftarrow> deserialize_ui32 b;
        d \<leftarrow> buf_cat d (b\<lparr>bsize := msg_data_len\<rparr>);
        Some (d, tg)
      } else do {
        let d = buf_new;
        auth_key_id \<leftarrow> buf_get_ui64 b;
        if auth_key_id \<noteq> 0 then Some (b, tg)
        else do {
          (_, b) \<leftarrow> deserialize_ui64 b;
          (msg_id, b) \<leftarrow> deserialize_ui64 b;
          (msg_data_len, b) \<leftarrow> deserialize_ui32 b;
          d \<leftarrow> buf_cat d b;
          Some (d, tg)
        }
      })"

section \<open>The layouts\<close>

text \<open>\<open>salt session_id message_id seq_no message_data_length message_data padding\<close>\<close>

definition plain_wire :: "byte list \<Rightarrow> byte list \<Rightarrow> u64 \<Rightarrow> u32 \<Rightarrow> byte list \<Rightarrow> byte list \<Rightarrow> byte list" where
  "plain_wire salt ssid mid sq body pad =
     salt @ ssid @ le_bytes 8 mid @ le_bytes 4 sq @ le_bytes 4 (of_nat (length body) :: u32) @ body @ pad"

text \<open>\<open>auth_key_id = 0, message_id, message_data_length, message_data\<close>\<close>

definition open_wire :: "u64 \<Rightarrow> byte list \<Rightarrow> byte list" where
  "open_wire mid body = le_bytes 8 (0 :: u64) @ le_bytes 8 mid @ le_bytes 4 (of_nat (length body) :: u32) @ body"

text \<open>A container: a list of (identifier, sequence number, body).\<close>

definition container_wire :: "(u64 \<times> u32 \<times> byte list) list \<Rightarrow> byte list" where
  "container_wire ms =
     le_bytes 4 id_msg_container @ le_bytes 4 (of_nat (length ms) :: u32) @
     concat (map (\<lambda>(m, sq, body). mtp_wire m sq body) ms)"

definition pad_count :: "nat \<Rightarrow> nat" where
  "pad_count n = 16 + (16 - n mod 16) mod 16"

definition rand_bytes :: "env \<Rightarrow> tg \<Rightarrow> nat \<Rightarrow> byte list" where
  "rand_bytes env tg n = map (\<lambda>i. of_nat (e_rnd env (ucast (drop_bit 32 (e_clock env (tg_ticks tg)))) i mod 256)) [0..<n]"

text \<open>The messages of the container that \<^verbatim>\<open>tg_header\<close> builds around a query.\<close>

definition drop_msgs :: "env \<Rightarrow> tg \<Rightarrow> nat \<Rightarrow> u32 \<Rightarrow> u64 list \<Rightarrow> (u64 \<times> u32 \<times> byte list) list" where
  "drop_msgs env tg k sq ms =
     map (\<lambda>i. (id_at env tg (k + i), (sq + of_nat i) * 2 + 1, bytes (e_drop env (ms ! i)))) [0..<length ms]"

definition container_msgs :: "env \<Rightarrow> tg \<Rightarrow> byte list \<Rightarrow> (u64 \<times> u32 \<times> byte list) list" where
  "container_msgs env tg query =
     (id_at env tg 0, tg_seqn tg * 2 + 1, query) #
     (id_at env tg 1, (tg_seqn tg + 1) * 2, bytes (e_msgs_ack env (tg_msgids tg))) #
     drop_msgs env tg 2 (tg_seqn tg + 1) (tg_todrop tg)"


text \<open>A client with a session: salt and session identifier are eight bytes each.\<close>

definition session_ok :: "tg \<Rightarrow> bool" where
  "session_ok tg \<longleftrightarrow> readable (tg_salt tg) \<and> bsize (tg_salt tg) = 8 \<and>
                     readable (tg_ssid tg) \<and> bsize (tg_ssid tg) = 8"

text \<open>How many bytes the drop requests of a client take.\<close>

definition drops_size :: "env \<Rightarrow> tg \<Rightarrow> nat" where
  "drops_size env tg = sum_list (map (\<lambda>m. 16 + unat (bsize (e_drop env m))) (tg_todrop tg))"

text \<open>
  The generated constructors deliver a non-empty buffer, and everything that waits to be
  sent has room in the 32-bit sizes together with \<open>n\<close> further bytes.
\<close>

definition pending_ok :: "env \<Rightarrow> tg \<Rightarrow> nat \<Rightarrow> bool" where
  "pending_ok env tg n \<longleftrightarrow>
     readable (e_msgs_ack env (tg_msgids tg)) \<and> bsize (e_msgs_ack env (tg_msgids tg)) > 0 \<and>
     (\<forall>m \<in> set (tg_todrop tg). readable (e_drop env m)) \<and>
     fits (unat (bsize (e_msgs_ack env (tg_msgids tg))) + drops_size env tg + n + 128)"

section \<open>Lemmas\<close>

lemma unat_pad16: "unat (pad16 n) = pad_count (unat n)"
proof -
  have m: "unat (n mod 16) = unat n mod 16" by (simp add: unat_mod)
  then have "n mod 16 \<le> 16" by (simp add: word_le_nat_alt)
  then have "unat (16 - n mod 16) = 16 - unat n mod 16" by (simp add: unat_sub m)
  then have "unat ((16 - n mod 16) mod 16) = (16 - unat n mod 16) mod 16" by (simp add: unat_mod)
  moreover have "(16 - unat n mod 16) mod 16 < 16" by simp
  ultimately show ?thesis by (simp add: pad16_def pad_count_def unat_word_ariths)
qed

lemma pad_count_bounds: "16 \<le> pad_count n" "pad_count n < 32"
  by (auto simp: pad_count_def)

lemma pad_count_aligns: "16 dvd n + pad_count n"
proof -
  have "(n + pad_count n) mod 16 = (n mod 16 + (16 - n mod 16) mod 16) mod 16"
    by (metis (no_types, lifting) pad_count_def add.left_commute mod_add_left_eq mod_add_self1)
  also have "\<dots> = 0"
    by (cases "n mod 16 = 0") (auto simp: mod_less)
  finally show ?thesis by (simp add: dvd_eq_mod_eq_0)
qed

lemma length_rand_bytes [simp]: "length (rand_bytes env tg n) = n"
  by (simp add: rand_bytes_def)

lemma buf_cat_rand_eq:
  assumes "fits (length xs + unat n)" and "unat n \<le> BUFSIZ" and "now_seconds env tg = (now, tg')"
  shows "buf_cat_rand (e_rnd env) now (mkbuf xs) n = Some (mkbuf (xs @ rand_bytes env tg (unat n)))"
  using assms by (auto simp: buf_cat_rand_def buf_rand_eq rand_bytes_def now_seconds_def)

lemma length_container_wire:
  "length (container_wire ms) = 8 + sum_list (map (\<lambda>(m, sq, body). 16 + length body) ms)"
  by (simp add: container_wire_def length_concat comp_def case_prod_beta')

lemma drop_msgs_wire:
  "concat (map (\<lambda>(m, sq, body). mtp_wire m sq body) (drop_msgs env tg k sq ms)) =
   drops_wire env (tg\<lparr>tg_seqn := sq, tg_ticks := tg_ticks tg + k\<rparr>) ms"
proof (induction ms arbitrary: k sq)
  case Nil
  then show ?case by (simp add: drop_msgs_def)
next
  case (Cons m ms)
  have "drop_msgs env tg k sq (m # ms) =
        (id_at env tg k, sq * 2 + 1, bytes (e_drop env m)) # drop_msgs env tg (Suc k) (sq + 1) ms"
    by (simp add: drop_msgs_def upt_conv_Cons map_Suc_upt [symmetric] comp_def add.assoc del: upt_Suc)
  moreover have "id_at env (tg\<lparr>tg_seqn := sq, tg_ticks := tg_ticks tg + k\<rparr>) 0 = id_at env tg k"
    by (simp add: id_at_def)
  moreover have "(tick (tg\<lparr>tg_seqn := sq, tg_ticks := tg_ticks tg + k\<rparr>))\<lparr>tg_seqn := sq + 1\<rparr> =
                 tg\<lparr>tg_seqn := sq + 1, tg_ticks := tg_ticks tg + Suc k\<rparr>"
    by (cases tg) (simp add: tick_def)
  ultimately show ?case by (simp add: Cons.IH)
qed

lemma header_body_plain:
  assumes "tg_msgids tg = []" and "readable q" and "fits (unat (bsize q))"
  shows "header_body env tg q content = Some (mkbuf (bytes q), content, 0, tg)"
  using assms by (simp add: header_body_def tg_ack_empty)

lemma to_drop_eq:
  assumes "locks_ok env" and "\<And>m. m \<in> set (tg_todrop tg) \<Longrightarrow> readable (e_drop env m)"
    and "fits (drops_size env tg)"
  shows "tg_to_drop env tg (mkbuf []) =
     Some (int (length (tg_todrop tg)), mkbuf (drops_wire env tg (tg_todrop tg)),
           tg\<lparr>tg_seqn := tg_seqn tg + of_nat (length (tg_todrop tg)),
              tg_ticks := tg_ticks tg + length (tg_todrop tg), tg_todrop := []\<rparr>)"
proof (cases "tg_todrop tg = []")
  case True
  then show ?thesis by (simp add: tg_to_drop_def)
next
  case False
  have "drop_loop env tg (tg_todrop tg) (mkbuf []) =
     Some (mkbuf (drops_wire env tg (tg_todrop tg)),
           tg\<lparr>tg_seqn := tg_seqn tg + of_nat (length (tg_todrop tg)),
              tg_ticks := tg_ticks tg + length (tg_todrop tg)\<rparr>)"
    using drop_loop_eq [of env "tg_todrop tg" "[]" tg] assms by (simp add: drops_size_def)
  with False assms(1) show ?thesis by (simp add: tg_to_drop_def Suc_le_eq)
qed


text \<open>The client behind a container: everything pending is gone, the counters moved on.\<close>

definition after_container :: "tg \<Rightarrow> tg" where
  "after_container tg =
     tg\<lparr>tg_seqn := tg_seqn tg + 1 + of_nat (length (tg_todrop tg)), tg_msgids := [], tg_todrop := [],
        tg_ticks := tg_ticks tg + 2 + length (tg_todrop tg)\<rparr>"

lemma header_body_container:
  assumes lk: "locks_ok env" and pend: "tg_msgids tg \<noteq> []" and ok: "pending_ok env tg (unat (bsize q))"
    and rd: "readable q"
  shows "header_body env tg q content =
     Some (mkbuf (container_wire (container_msgs env tg (bytes q))), False, id_at env tg 0, after_container tg)"
proof -
  let ?a = "e_msgs_ack env (tg_msgids tg)"
  let ?t0 = "tg\<lparr>tg_msgids := []\<rparr>"
  let ?t1 = "(tick ?t0)\<lparr>tg_seqn := tg_seqn tg + 1\<rparr>"
  let ?t2 = "tick ?t1"
  let ?d = "drops_wire env ?t2 (tg_todrop tg)"
  have ra: "readable ?a" "0 < bsize ?a" and rdr: "\<And>m. m \<in> set (tg_todrop tg) \<Longrightarrow> readable (e_drop env m)"
    and fit: "fits (unat (bsize ?a) + drops_size env tg + unat (bsize q) + 128)"
    using ok by (auto simp: pending_ok_def)
  have f: "fits (16 + unat (bsize q))" "fits (16 + unat (bsize ?a))" "fits (drops_size env tg)"
    using fit by (auto intro: fits_mono)
  have i0: "id_at env ?t0 0 = id_at env tg 0" "id_at env ?t1 0 = id_at env tg 1"
    by (simp_all add: id_at_def)
  have m0: "tg_mtp_message env ?t0 q True =
      Some (mkbuf (mtp_wire (id_at env tg 0) (tg_seqn tg * 2 + 1) (bytes q)), id_at env tg 0, ?t1)"
    using tg_mtp_message_eq [OF _ rd f(1), of env ?t0 True] lk by (simp add: next_seqno_def i0)
  have m1: "tg_mtp_message env ?t1 ?a False =
      Some (mkbuf (mtp_wire (id_at env tg 1) ((tg_seqn tg + 1) * 2) (bytes ?a)), id_at env tg 1, ?t2)"
    using tg_mtp_message_eq [OF _ ra(1) f(2), of env ?t1 False] lk by (simp add: next_seqno_def i0)
  have td: "tg_todrop ?t2 = tg_todrop tg" "drops_size env ?t2 = drops_size env tg"
    by (simp_all add: drops_size_def)
  have t3: "?t2\<lparr>tg_seqn := tg_seqn ?t2 + of_nat (length (tg_todrop tg)),
              tg_ticks := tg_ticks ?t2 + length (tg_todrop tg), tg_todrop := []\<rparr> = after_container tg"
    by (cases tg) (simp add: tick_def after_container_def)
  have dr: "tg_to_drop env ?t2 (mkbuf []) = Some (int (length (tg_todrop tg)), mkbuf ?d, after_container tg)"
    using to_drop_eq [of env ?t2] lk rdr f(3) t3 by (simp add: td)
  have ld: "length ?d = drops_size env tg"
    using length_drops_wire [of "tg_todrop tg" env ?t2] rdr by (simp add: drops_size_def)
  have lq: "length (bytes q) = unat (bsize q)" "length (bytes ?a) = unat (bsize ?a)"
    using rd ra by simp_all
  have fl: "fits (24 + unat (bsize q))" "fits (24 + unat (bsize q) + (16 + unat (bsize ?a)))"
    "fits (40 + (unat (bsize q) + unat (bsize ?a)) + drops_size env tg)"
    using fit by (auto intro: fits_mono)
  have wire: "container_wire (container_msgs env tg (bytes q)) =
      le_bytes 4 id_msg_container @ le_bytes 4 (of_int (2 + int (length (tg_todrop tg))) :: u32) @
      mtp_wire (id_at env tg 0) (tg_seqn tg * 2 + 1) (bytes q) @
      mtp_wire (id_at env tg 1) ((tg_seqn tg + 1) * 2) (bytes ?a) @ ?d"
  proof -
    have "tg\<lparr>tg_seqn := tg_seqn tg + 1, tg_ticks := tg_ticks tg + 2\<rparr> = ?t2\<lparr>tg_msgids := tg_msgids tg\<rparr>"
      by (cases tg) (simp add: tick_def)
    moreover have "drops_wire env (t\<lparr>tg_msgids := x\<rparr>) ms = drops_wire env t ms" for t x ms
    proof (induction ms arbitrary: t)
      case (Cons m ms)
      have "(tick (t\<lparr>tg_msgids := x\<rparr>))\<lparr>tg_seqn := tg_seqn t + 1\<rparr> =
            (tick t)\<lparr>tg_seqn := tg_seqn t + 1\<rparr>\<lparr>tg_msgids := x\<rparr>"
        by (cases t) (simp add: tick_def)
      with Cons show ?case by (simp add: id_at_def)
    qed simp
    moreover have "length (drop_msgs env tg 2 (tg_seqn tg + 1) (tg_todrop tg)) = length (tg_todrop tg)"
      by (simp add: drop_msgs_def)
    ultimately show ?thesis
      by (simp add: container_wire_def container_msgs_def drop_msgs_wire)
  qed
  show ?thesis
    unfolding wire header_body_def
    using pend lk ra(2) fl lq ld
    by (simp add: tg_ack_pending m0 m1 dr Let_def)
qed


lemma length_plain_wire:
  "length (plain_wire salt ssid mid sq body pad) =
   length salt + length ssid + 16 + length body + length pad"
  by (simp add: plain_wire_def)

text \<open>Around whatever body was chosen, the frame is the same.\<close>

lemma header_frame:
  assumes body: "header_body env tg q content = Some (mkbuf body, c, m, t)" and lk: "locks_ok env"
    and ses: "session_ok t" and fit: "fits (length body + 64)"
  shows "tg_header env tg q True content msgid =
     Some (mkbuf (plain_wire (bytes (tg_salt t)) (bytes (tg_ssid t)) (id_at env t 0)
                    (fst (next_seqno t c)) body
                    (rand_bytes env (snd (next_seqno (tick t) c)) (pad_count (length body)))),
           if m = 0 then id_at env t 0 else m, tick (snd (next_seqno (tick t) c)))"
proof -
  let ?t = "snd (next_seqno (tick t) c)"
  have s8: "readable (tg_salt t)" "bsize (tg_salt t) = 8" "readable (tg_ssid t)" "bsize (tg_ssid t) = 8"
    using ses by (auto simp: session_ok_def)
  have ln: "length (bytes (tg_salt t)) = 8" "length (bytes (tg_ssid t)) = 8"
    using s8 by simp_all
  have fb: "fits (length body)" using fit by (rule fits_mono) simp
  have f: "fits (32 + length body)" "fits (32 + length body + pad_count (length body))"
    using fit pad_count_bounds [of "length body"] by (auto intro!: fits_mono [OF fit])
  have pc: "unat (pad16 (of_nat (length body))) = pad_count (length body)"
    using fb by (simp add: unat_pad16)
  then have pl: "unat (pad16 (of_nat (length body))) \<le> BUFSIZ"
    using pad_count_bounds [of "length body"] by (simp add: BUFSIZ_def)
  have sq: "fst (next_seqno (tick t) c) = fst (next_seqno t c)" by (simp add: next_seqno_def)
  have ns: "now_seconds env ?t = (fst (now_seconds env ?t), tick ?t)" "snd (now_seconds env ?t) = tick ?t"
    by (simp_all add: now_seconds_def)
  let ?xs = "bytes (tg_salt t) @ bytes (tg_ssid t) @ le_bytes 8 (id_at env t 0) @
             le_bytes 4 (fst (next_seqno t c)) @ le_bytes 4 (of_nat (length body) :: u32) @ body"
  have r: "buf_cat_rand (e_rnd env) (fst (now_seconds env ?t)) (mkbuf ?xs) (pad16 (of_nat (length body))) =
     Some (mkbuf (?xs @ rand_bytes env ?t (pad_count (length body))))"
    using buf_cat_rand_eq [OF _ pl ns(1), of ?xs] f(2) ln pc by simp
  have cat: "buf_cat (mkbuf (bytes (tg_salt t))) (tg_ssid t) = Some (mkbuf (bytes (tg_salt t) @ bytes (tg_ssid t)))"
    "buf_cat (mkbuf []) (tg_salt t) = Some (mkbuf (bytes (tg_salt t)))"
    using s8 ln by simp_all
  show ?thesis
    unfolding tg_header_def
    using lk f(1) ln sq r ns(2)
    by (simp add: body get_current_time_eq cat Let_def split_beta plain_wire_def)
qed

lemma rest_split: "rest b = bytes b @ drop (unat (bsize b)) (rest b)"
  by (metis append_take_drop_id bytes_def rest_def)

text \<open>What the reader makes of a message with the common layout.\<close>

lemma deheader_plain:
  assumes r: "rest b = plain_wire salt ssid mid sq body pad @ ys" and nz: "bsize b \<noteq> 0"
    and l8: "length salt = 8" "length ssid = 8" and fit: "fits (length body)"
    and own: "8 \<le> length (rest (tg_ssid tg))"
  shows "tg_deheader env tg b True =
     Some (mkbuf body, tg_add_msgid env (tg\<lparr>tg_salt := mkbuf salt\<rparr>) mid)"
proof -
  have salt: "mkbuf (le_bytes 8 (le_val salt :: u64)) = mkbuf salt"
    using le_bytes_le_val [of salt, where 'a = 64] l8 by simp
  have r1: "rest (advance b 8) = ssid @ le_bytes 8 mid @ le_bytes 4 sq @
      le_bytes 4 (of_nat (length body) :: u32) @ body @ pad @ ys"
    using r l8 by (simp add: plain_wire_def)
  let ?b = "advance (advance (advance (advance (advance b 8) 8) 8) 4) 4"
  have r5: "rest ?b = body @ pad @ ys" using r1 l8 by simp
  let ?d = "?b\<lparr>bsize := of_nat (length body)\<rparr>"
  have rd: "readable ?d"
  proof -
    have "length (rest b) \<ge> 32 + length body" using r l8 by (simp add: length_plain_wire)
    then have "bdata b + 32 + length body \<le> length (bblk b)" by (simp add: rest_def)
    with fit show ?thesis by (simp add: readable_def advance_def)
  qed
  have "bytes ?d = body" using r5 fit by (simp add: bytes_def rest_def)
  then have cat: "buf_cat (mkbuf []) ?d = Some (mkbuf body)" using rd fit by simp
  have g: "buf_get_ui64 (tg_ssid (tg\<lparr>tg_salt := s\<rparr>)) = Some (le_val (take 8 (rest (tg_ssid tg))))" for s
    using own by (simp add: buf_get_ui64_def load_rest)
  show ?thesis
    unfolding tg_deheader_def
    using nz r r1 l8 salt g cat by (simp add: plain_wire_def Let_def)
qed


lemma session_ssid: "session_ok tg \<Longrightarrow> 8 \<le> length (rest (tg_ssid tg))"
  by (auto simp: session_ok_def readable_def rest_def)

text \<open>The frame around a container.\<close>

lemma container_length:
  assumes "pending_ok env tg n" and "readable q"
  shows "length (container_wire (container_msgs env tg (bytes q))) =
     40 + unat (bsize q) + unat (bsize (e_msgs_ack env (tg_msgids tg))) + drops_size env tg"
proof -
  have rd: "\<forall>m \<in> set (tg_todrop tg). readable (e_drop env m)" and ra: "readable (e_msgs_ack env (tg_msgids tg))"
    using assms(1) by (auto simp: pending_ok_def)
  have "map (\<lambda>(m, sq, body). 16 + length body) (drop_msgs env tg 2 (tg_seqn tg + 1) (tg_todrop tg)) =
        map (\<lambda>m. 16 + unat (bsize (e_drop env m))) (tg_todrop tg)"
    by (rule nth_equalityI) (use rd in \<open>simp_all add: drop_msgs_def\<close>)
  then show ?thesis
    using ra assms(2) by (simp add: length_container_wire container_msgs_def drops_size_def)
qed

lemma header_container:
  assumes "locks_ok env" and "session_ok tg" and "tg_msgids tg \<noteq> []" and "readable q"
    and "pending_ok env tg (unat (bsize q))" and "id_at env tg 0 \<noteq> 0"
    and "c = container_wire (container_msgs env tg (bytes q))" and "t = after_container tg"
  shows "tg_header env tg q True True msgid =
     Some (mkbuf (plain_wire (bytes (tg_salt tg)) (bytes (tg_ssid tg)) (id_at env tg (2 + length (tg_todrop tg)))
                    (tg_seqn t * 2) c (rand_bytes env (tick t) (pad_count (length c)))),
           id_at env tg 0, tick (tick t))"
proof -
  have "fits (unat (bsize (e_msgs_ack env (tg_msgids tg))) + drops_size env tg + unat (bsize q) + 128)"
    using assms(5) by (simp add: pending_ok_def)
  then have f: "fits (length c + 64)"
    using container_length [OF assms(5,4)] assms(7) by (auto intro: fits_mono)
  have s: "session_ok t" using assms(2,8) by (simp add: session_ok_def after_container_def)
  have t: "bytes (tg_salt t) = bytes (tg_salt tg)" "bytes (tg_ssid t) = bytes (tg_ssid tg)"
    "id_at env t 0 = id_at env tg (2 + length (tg_todrop tg))"
    by (simp_all add: assms(8) after_container_def id_at_def add.assoc)
  have b: "header_body env tg q True = Some (mkbuf c, False, id_at env tg 0, t)"
    unfolding assms(7,8) by (rule header_body_container [OF assms(1,3,5,4)])
  show ?thesis
    using header_frame [OF b assms(1) s f] assms(6) by (simp add: next_seqno_def t)
qed

section \<open>What the layer promises\<close>

text \<open>
  With nothing to acknowledge, \<^verbatim>\<open>tg_header\<close> writes exactly salt, session, a fresh
  identifier, the odd sequence number of a content-related message, the length, the
  query and 16 to 31 bytes of padding; the whole is a multiple of the cipher's block,
  the counter advances by one, the caller learns the identifier, and requests to drop
  answers stay queued.
\<close>

theorem header_query_layout:
  assumes "locks_ok env" and "session_ok tg" and "tg_msgids tg = []" and "readable q"
    and "unat (bsize q) < 2 ^ 32 - 128"
  shows "\<exists>pad tg'. tg_header env tg q True True msgid =
           Some (mkbuf (plain_wire (bytes (tg_salt tg)) (bytes (tg_ssid tg)) (id_at env tg 0)
                          (tg_seqn tg * 2 + 1) (bytes q) pad), id_at env tg 0, tg') \<and>
         16 \<le> length pad \<and> length pad < 32 \<and>
         16 dvd 8 + 8 + 16 + length (bytes q) + length pad \<and>
         tg_seqn tg' = tg_seqn tg + 1 \<and> tg_todrop tg' = tg_todrop tg"
proof -
  have f: "fits (unat (bsize q) + 64)" "fits (unat (bsize q))" using assms(5) by (simp_all add: fits_def)
  have "16 dvd 32 + (unat (bsize q) + pad_count (unat (bsize q)))"
    by (rule dvd_add [OF _ pad_count_aligns]) simp
  then show ?thesis
    using header_frame [OF header_body_plain [OF assms(3,4) f(2)] assms(1,2)] assms(4) f(1)
      pad_count_bounds [of "unat (bsize q)"]
    by (auto simp: next_seqno_def add.assoc)
qed

theorem header_query_layout_witness:
  "\<exists>pad tg'. tg_header sample_env sample_tg (mkbuf [1, 2, 3, 4]) True True 0 =
       Some (mkbuf (plain_wire (bytes (tg_salt sample_tg)) (bytes (tg_ssid sample_tg)) (id_at sample_env sample_tg 0)
                      (tg_seqn sample_tg * 2 + 1) (bytes (mkbuf [1, 2, 3, 4])) pad), id_at sample_env sample_tg 0, tg') \<and>
     16 \<le> length pad \<and> length pad < 32 \<and>
     16 dvd 8 + 8 + 16 + length (bytes (mkbuf [1, 2, 3, 4])) + length pad \<and>
     tg_seqn tg' = tg_seqn sample_tg + 1 \<and> tg_todrop tg' = tg_todrop sample_tg"
  by (rule header_query_layout) (simp_all add: session_ok_def sample_tg_def fits_def)

text \<open>
  With acknowledgements pending, the query travels in a container with the
  acknowledgement and every queued drop request, in that order; content-related messages
  carry consecutive odd sequence numbers, the acknowledgement and the container itself even
  ones; the caller learns the identifier of the inner message that carries the query,
  and both lists are empty afterwards.
\<close>

theorem header_container_layout:
  assumes "locks_ok env" and "session_ok tg" and "tg_msgids tg \<noteq> []" and "readable q"
    and "pending_ok env tg (unat (bsize q))" and "id_at env tg 0 \<noteq> 0"
  shows "\<exists>pad tg'. tg_header env tg q True True msgid =
           Some (mkbuf (plain_wire (bytes (tg_salt tg)) (bytes (tg_ssid tg))
                          (id_at env tg (2 + length (tg_todrop tg)))
                          ((tg_seqn tg + 1 + of_nat (length (tg_todrop tg))) * 2)
                          (container_wire (container_msgs env tg (bytes q))) pad), id_at env tg 0, tg') \<and>
         16 \<le> length pad \<and> length pad < 32 \<and>
         16 dvd length (container_wire (container_msgs env tg (bytes q))) + length pad \<and>
         tg_msgids tg' = [] \<and> tg_todrop tg' = [] \<and>
         tg_seqn tg' = tg_seqn tg + 1 + of_nat (length (tg_todrop tg))"
proof -
  let ?c = "container_wire (container_msgs env tg (bytes q))" and ?t = "after_container tg"
  have "tg_msgids ?t = []" "tg_todrop ?t = []" "tg_seqn ?t = tg_seqn tg + 1 + of_nat (length (tg_todrop tg))"
    by (simp_all add: after_container_def)
  then show ?thesis
    using header_container [OF assms refl refl] pad_count_bounds [of "length ?c"] pad_count_aligns [of "length ?c"]
    by (intro exI [of _ "rand_bytes env (tick ?t) (pad_count (length ?c))"] exI [of _ "tick (tick ?t)"]) simp
qed


theorem header_container_layout_witness:
  "let tg = sample_tg\<lparr>tg_msgids := [77], tg_todrop := [5]\<rparr>; q = mkbuf [1, 2, 3, 4] in
   \<exists>pad tg'. tg_header sample_env tg q True True 0 =
       Some (mkbuf (plain_wire (bytes (tg_salt tg)) (bytes (tg_ssid tg))
                      (id_at sample_env tg (2 + length (tg_todrop tg)))
                      ((tg_seqn tg + 1 + of_nat (length (tg_todrop tg))) * 2)
                      (container_wire (container_msgs sample_env tg (bytes q))) pad), id_at sample_env tg 0, tg') \<and>
     16 \<le> length pad \<and> length pad < 32 \<and>
     16 dvd length (container_wire (container_msgs sample_env tg (bytes q))) + length pad \<and>
     tg_msgids tg' = [] \<and> tg_todrop tg' = [] \<and>
     tg_seqn tg' = tg_seqn tg + 1 + of_nat (length (tg_todrop tg))"
  unfolding Let_def
  by (rule header_container_layout)
     (simp_all add: session_ok_def sample_tg_def fits_def pending_ok_def drops_size_def sample_env_def id_at_def locks_ok_def)



text \<open>
  The session identifier of an incoming message is not enforced: two messages that
  differ only in it give the same payload and the same client state.
\<close>

theorem deheader_ignores_session:
  assumes "length salt = 8" and "length ssid = 8" and "length ssid' = 8" and "session_ok tg"
    and "length body + length pad < 2 ^ 32 - 64"
  shows "tg_deheader env tg (mkbuf (plain_wire salt ssid mid sq body pad)) True =
         tg_deheader env tg (mkbuf (plain_wire salt ssid' mid sq body pad)) True \<and>
         tg_deheader env tg (mkbuf (plain_wire salt ssid' mid sq body pad)) True \<noteq> None"
proof -
  have own: "8 \<le> length (rest (tg_ssid tg))" using assms(4) by (rule session_ssid)
  have fb: "fits (length body)" using assms(5) by (simp add: fits_def)
  have "tg_deheader env tg (mkbuf (plain_wire salt z mid sq body pad)) True =
        Some (mkbuf body, tg_add_msgid env (tg\<lparr>tg_salt := mkbuf salt\<rparr>) mid)" if z: "length z = 8" for z
  proof -
    let ?w = "plain_wire salt z mid sq body pad"
    have lw: "length ?w = 32 + length body + length pad" using assms(1) z by (simp add: length_plain_wire)
    then have fw: "fits (length ?w)" using assms(5) by (simp add: fits_def)
    have "unat (bsize (mkbuf ?w)) = length ?w" using fw by simp
    with lw have nz: "bsize (mkbuf ?w) \<noteq> 0" by (metis add_is_0 unat_0 zero_neq_numeral)
    obtain ys where "rest (mkbuf ?w) = ?w @ ys" by (simp add: rest_mkbuf)
    from deheader_plain [OF this nz assms(1) z fb own] show ?thesis .
  qed
  with assms(2,3) show ?thesis by simp
qed

theorem deheader_ignores_session_witness:
  "let w = (\<lambda>ssid. mkbuf (plain_wire (replicate 8 1) ssid 5 6 [1, 2, 3, 4] [])) in
   tg_deheader sample_env sample_tg (w (replicate 8 9)) True =
     tg_deheader sample_env sample_tg (w (replicate 8 10)) True \<and>
   tg_deheader sample_env sample_tg (w (replicate 8 10)) True \<noteq> None"
  unfolding Let_def
  by (rule deheader_ignores_session) (simp_all add: session_ok_def sample_tg_def fits_def)

text \<open>
  A message whose length field claims more bytes than the buffer's block holds makes
  the reader run outside the block: the field is taken as it is.
\<close>

theorem deheader_length_unchecked:
  assumes "length salt = 8" and "length ssid = 8" and "session_ok tg"
    and "rest b = salt @ ssid @ le_bytes 8 mid @ le_bytes 4 sq @ le_bytes 4 (n :: u32) @ ys"
    and "bsize b \<noteq> 0" and "length ys < unat n" and "fits (unat n)"
  shows "tg_deheader env tg b True = None"
proof -
  have own: "8 \<le> length (rest (tg_ssid tg))" using assms(3) by (rule session_ssid)
  let ?b = "advance (advance (advance (advance (advance b 8) 8) 8) 4) 4"
  have r5: "rest ?b = ys" using assms(1,2,4) by simp
  have n: "of_nat (unat n) = n" by simp
  have "reserve (mkbuf []) n \<noteq> None" using reserve_mkbuf [of n "[]"] assms(7) by simp
  moreover have "copy_loop (unat n) d k (bblk ?b) (bdata ?b) = None" for d k
    using assms(6) r5 by (intro copy_loop_None) (auto simp: rest_def)
  ultimately have cat: "buf_cat (mkbuf []) (?b\<lparr>bsize := n\<rparr>) = None"
    by (auto simp: buf_cat_def Let_def)
  have g: "buf_get_ui64 (tg_ssid (tg\<lparr>tg_salt := s\<rparr>)) = Some (le_val (take 8 (rest (tg_ssid tg))))" for s
    using own by (simp add: buf_get_ui64_def load_rest)
  show ?thesis
    unfolding tg_deheader_def using assms(1,2,4,5) g cat by (simp add: Let_def)
qed


theorem deheader_length_unchecked_witness:
  "tg_deheader sample_env sample_tg
     \<lparr>bblk = replicate 8 1 @ replicate 8 2 @ le_bytes 8 (5 :: u64) @ le_bytes 4 (6 :: u32) @ le_bytes 4 (100 :: u32) @ [1, 2],
      bdata = 0, bsize = 34, basize = 33\<rparr> True = None"
  by (rule deheader_length_unchecked [of "replicate 8 1" "replicate 8 2" _ _ 5 6 100 "[1, 2]"])
     (simp_all add: session_ok_def sample_tg_def rest_def)

text \<open>
  Message identifiers: divisible by four, as the protocol asks of a client, exactly
  when the time correction is; and along a clock that does not run backwards (and does
  not wrap) identifiers never decrease, so a container's identifier is at least that of
  every message in it.
\<close>

theorem message_ids:
  assumes "\<And>i j. i \<le> j \<Longrightarrow> e_clock env i \<le> e_clock env j"
    and "\<And>i. unat (e_clock env i) + unat (tg_timediff tg) < 2 ^ 64" and "j \<le> k"
  shows "(4 dvd unat (id_at env tg j) \<longleftrightarrow> 4 dvd unat (tg_timediff tg)) \<and> id_at env tg j \<le> id_at env tg k"
proof -
  let ?c = "\<lambda>i. e_clock env (tg_ticks tg + i)"
  have mask: "unat (x AND (- 4)) = unat x - unat x mod 4" for x :: u64
  proof -
    have "x AND (- 4) = x - x mod 4"
    proof -
      have "(x AND mask 2) + (x AND NOT (mask 2)) = (x AND mask 2) OR (x AND NOT (mask 2))"
        by (rule disjunctive_add) (auto simp: bit_simps)
      also have "\<dots> = x" by (rule bit_word_eqI) (auto simp: bit_simps)
      finally have "(x AND mask 2) + (x AND NOT (mask 2)) = x" .
      moreover have "x AND mask 2 = x mod 4" by (simp add: take_bit_eq_mask [symmetric] take_bit_eq_mod)
      moreover have "NOT (mask 2) = (- 4 :: u64)" by (simp add: mask_eq_exp_minus_1)
      ultimately show ?thesis by (metis add_diff_cancel_left')
    qed
    moreover have "x mod 4 \<le> x" by (simp add: word_le_nat_alt unat_mod)
    ultimately show ?thesis by (simp add: unat_sub unat_mod)
  qed
  have u: "unat (id_at env tg i) = (unat (?c i) - unat (?c i) mod 4) + unat (tg_timediff tg)" for i
  proof -
    have "(unat (?c i) - unat (?c i) mod 4) + unat (tg_timediff tg) < 2 ^ 64"
      using assms(2) [of "tg_ticks tg + i"] by linarith
    then show ?thesis by (simp add: id_at_def unat_word_ariths mask)
  qed
  have "4 dvd unat (?c j) - unat (?c j) mod 4" by simp
  then have d: "4 dvd unat (id_at env tg j) \<longleftrightarrow> 4 dvd unat (tg_timediff tg)"
    unfolding u by (rule dvd_add_right_iff)
  have "unat (?c j) \<le> unat (?c k)"
    using assms(1) [of "tg_ticks tg + j" "tg_ticks tg + k"] assms(3) by (simp add: word_le_nat_alt)
  then have "unat (?c j) - unat (?c j) mod 4 \<le> unat (?c k) - unat (?c k) mod 4"
    by (metis div_le_mono minus_mod_eq_mult_div mult_le_mono2)
  then show ?thesis using d by (simp add: word_le_nat_alt u)
qed


theorem message_ids_witness:
  "(4 dvd unat (id_at (sample_env\<lparr>e_clock := \<lambda>n. 4294967299\<rparr>) (sample_tg\<lparr>tg_timediff := 2\<rparr>) 0) \<longleftrightarrow>
      4 dvd unat (tg_timediff (sample_tg\<lparr>tg_timediff := 2\<rparr>))) \<and>
   id_at (sample_env\<lparr>e_clock := \<lambda>n. 4294967299\<rparr>) (sample_tg\<lparr>tg_timediff := 2\<rparr>) 0 \<le>
     id_at (sample_env\<lparr>e_clock := \<lambda>n. 4294967299\<rparr>) (sample_tg\<lparr>tg_timediff := 2\<rparr>) 3"
  by (rule message_ids) simp_all

end
