(* ===== verification/Encrypt.thy ===== *)
theory Encrypt
  imports Header
begin

text \<open>
  The encryption layer, \<^verbatim>\<open>libtg/tg/encrypt.c\<close>, with the wrappers of
  \<^verbatim>\<open>libtg/crypto/hsh.c\<close> and \<^verbatim>\<open>libtg/crypto/aes.c\<close> around OpenSSL.  The layer is compared
  with the message encryption of MTProto 2.0 written as functions on byte strings
  (\<open>mt_seal\<close>, with the direction offset \<open>x\<close>).
\<close>

section \<open>The wrappers around OpenSSL\<close>

definition tg_hsh_sha1 :: "env \<Rightarrow> buf \<Rightarrow> buf option" where
  "tg_hsh_sha1 env b = do {
     let h = buf_new;
     src \<leftarrow> mem_read (bblk b) (bdata b) (unat (bsize b));
     blk \<leftarrow> copy_loop 20 (bblk h) (bdata h) (e_sha1 env src) 0;
     Some (h\<lparr>bblk := blk, bsize := 20\<rparr>)
   }"

definition tg_hsh_sha256 :: "env \<Rightarrow> buf \<Rightarrow> buf option" where
  "tg_hsh_sha256 env b = do {
     let h = buf_new;
     src \<leftarrow> mem_read (bblk b) (bdata b) (unat (bsize b));
     blk \<leftarrow> copy_loop 32 (bblk h) (bdata h) (e_sha256 env src) 0;
     Some (h\<lparr>bblk := blk, bsize := 32\<rparr>)
   }"

text \<open>
  Both directions run \<^verbatim>\<open>AES_ige_encrypt\<close> with a key of 32 bytes and an initial vector of
  32 bytes; OpenSSL asserts that the length is a multiple of 16.  The result buffer is
  enlarged to three times the length, computed in 32 bits.
\<close>

definition cry_aes :: "(byte list \<Rightarrow> byte list \<Rightarrow> byte list \<Rightarrow> byte list) \<Rightarrow> buf \<Rightarrow> buf \<Rightarrow> buf \<Rightarrow> buf option" where
  "cry_aes ige b k iv = do {
     let r = buf_new;
     r \<leftarrow> (if bsize b > bsize r then map_option snd (buf_realloc malloc_ok r (bsize b * 3)) else Some r);
     key \<leftarrow> mem_read (bblk k) (bdata k) 32;
     ivec \<leftarrow> mem_read (bblk iv) (bdata iv) 32;
     src \<leftarrow> mem_read (bblk b) (bdata b) (unat (bsize b));
     if unat (bsize b) mod 16 \<noteq> 0 then None
     else do {
       blk \<leftarrow> copy_loop (unat (bsize b)) (bblk r) (bdata r) (ige key ivec src) 0;
       Some (r\<lparr>bblk := blk, bsize := bsize b\<rparr>)
     }
   }"

definition tg_cry_aes_e :: "env \<Rightarrow> buf \<Rightarrow> buf \<Rightarrow> buf \<Rightarrow> buf option" where
  "tg_cry_aes_e env b k iv = cry_aes (e_ige_e env) b k iv"

definition tg_cry_aes_d :: "env \<Rightarrow> buf \<Rightarrow> buf \<Rightarrow> buf \<Rightarrow> buf option" where
  "tg_cry_aes_d env b k iv = cry_aes (e_ige_d env) b k iv"

section \<open>The layer\<close>

definition tg_encrypt :: "env \<Rightarrow> tg \<Rightarrow> buf \<Rightarrow> bool \<Rightarrow> buf option" where
  "tg_encrypt env tg b enc = (let e = buf_new; key = tg_key tg in
     if enc then do {
       key_hash \<leftarrow> tg_hsh_sha1 env key;
       auth_key_id \<leftarrow> buf_add (bblk key_hash) (bdata key_hash + 12) 8;
       msg_key_large' \<leftarrow> buf_add (bblk key) (bdata key + 88) 32;
       msg_key_large' \<leftarrow> buf_cat msg_key_large' b;
       msg_key_large \<leftarrow> tg_hsh_sha256 env msg_key_large';
       msg_key \<leftarrow> buf_add (bblk msg_key_large) (bdata msg_key_large + 8) 16;
       sha256_a' \<leftarrow> buf_add (bblk msg_key) (bdata msg_key) (bsize msg_key);
       sha256_a' \<leftarrow> buf_cat_data sha256_a' (bblk key) (bdata key) 36;
       sha256_a \<leftarrow> tg_hsh_sha256 env sha256_a';
       sha256_b' \<leftarrow> buf_add (bblk key) (bdata key + 40) 36;
       sha256_b' \<leftarrow> buf_cat_data sha256_b' (bblk msg_key) (bdata msg_key) (bsize msg_key);
       sha256_b \<leftarrow> tg_hsh_sha256 env sha256_b';
       aes_key \<leftarrow> buf_add (bblk sha256_a) (bdata sha256_a) 8;
       aes_key \<leftarrow> buf_cat_data aes_key (bblk sha256_b) (bdata sha256_b + 8) 16;
       aes_key \<leftarrow> buf_cat_data aes_key (bblk sha256_a) (bdata sha256_a + 24) 8;
       aes_iv \<leftarrow> buf_add (bblk sha256_b) (bdata sha256_b) 8;
       aes_iv \<leftarrow> buf_cat_data aes_iv (bblk sha256_a) (bdata sha256_a + 8) 16;
       aes_iv \<leftarrow> buf_cat_data aes_iv (bblk sha256_b) (bdata sha256_b + 24) 8;
       enc \<leftarrow> tg_cry_aes_e env b aes_key aes_iv;
       e \<leftarrow> buf_cat e auth_key_id;
       e \<leftarrow> buf_cat e msg_key;
       buf_cat e enc
     } else buf_cat e b)"

definition tg_decrypt :: "env \<Rightarrow> tg \<Rightarrow> buf \<Rightarrow> bool \<Rightarrow> buf option" where
  "tg_decrypt env tg m enc = (let d = buf_new; key = tg_key tg in
     if bsize m = 0 then Some d
     else if enc then do {
       auth_key_id \<leftarrow> buf_get_ui64 m;
       key_hash \<leftarrow> tg_hsh_sha1 env key;
       auth_key_id' \<leftarrow> buf_add (bblk key_hash) (bdata key_hash + 12) 8;
       own \<leftarrow> buf_get_ui64 auth_key_id';
       if auth_key_id \<noteq> own then Some d
       else do {
         (_, m) \<leftarrow> deserialize_ui64 m;
         (msg_key, m) \<leftarrow> deserialize_buf m 16;
         if bsize m mod 16 \<noteq> 0 then Some d
         else do {
           sha256_a' \<leftarrow> buf_add (bblk msg_key) (bdata msg_key) (bsize msg_key);
           sha256_a' \<leftarrow> buf_cat_data sha256_a' (bblk key) (bdata key + 8) 36;
           sha256_a \<leftarrow> tg_hsh_sha256 env sha256_a';
           sha256_b' \<leftarrow> buf_add (bblk key) (bdata key + 40 + 8) 36;
           sha256_b' \<leftarrow> buf_cat sha256_b' msg_key;
           sha256_b \<leftarrow> tg_hsh_sha256 env sha256_b';
           aes_key \<leftarrow> buf_add (bblk sha256_a) (bdata sha256_a) 8;
           aes_key \<leftarrow> buf_cat_data aes_key (bblk sha256_b) (bdata sha256_b + 8) 16;
           aes_key \<leftarrow> buf_cat_data aes_key (bblk sha256_a) (bdata sha256_a + 24) 8;
           aes_iv \<leftarrow> buf_add (bblk sha256_b) (bdata sha256_b) 8;
           aes_iv \<leftarrow> buf_cat_data aes_iv (bblk sha256_a) (bdata sha256_a + 8) 16;
           aes_iv \<leftarrow> buf_cat_data aes_iv (bblk sha256_b) (bdata sha256_b + 24) 8;
           tg_cry_aes_d env m aes_key aes_iv
         }
       }
     } else buf_cat d m)"

section \<open>MTProto 2.0 on byte strings\<close>

definition substr :: "byte list \<Rightarrow> nat \<Rightarrow> nat \<Rightarrow> byte list" where
  "substr xs p n = take n (drop p xs)"

definition mt_auth_key_id :: "env \<Rightarrow> byte list \<Rightarrow> byte list" where
  "mt_auth_key_id env key = substr (e_sha1 env key) 12 8"

definition mt_msg_key :: "env \<Rightarrow> nat \<Rightarrow> byte list \<Rightarrow> byte list \<Rightarrow> byte list" where
  "mt_msg_key env x key plain = substr (e_sha256 env (substr key (88 + x) 32 @ plain)) 8 16"

definition mt_sha_a :: "env \<Rightarrow> nat \<Rightarrow> byte list \<Rightarrow> byte list \<Rightarrow> byte list" where
  "mt_sha_a env x key mk = e_sha256 env (mk @ substr key x 36)"

definition mt_sha_b :: "env \<Rightarrow> nat \<Rightarrow> byte list \<Rightarrow> byte list \<Rightarrow> byte list" where
  "mt_sha_b env x key mk = e_sha256 env (substr key (40 + x) 36 @ mk)"

definition mt_aes_key :: "env \<Rightarrow> nat \<Rightarrow> byte list \<Rightarrow> byte list \<Rightarrow> byte list" where
  "mt_aes_key env x key mk = (let a = mt_sha_a env x key mk; b = mt_sha_b env x key mk in
     substr a 0 8 @ substr b 8 16 @ substr a 24 8)"

definition mt_aes_iv :: "env \<Rightarrow> nat \<Rightarrow> byte list \<Rightarrow> byte list \<Rightarrow> byte list" where
  "mt_aes_iv env x key mk = (let a = mt_sha_a env x key mk; b = mt_sha_b env x key mk in
     substr b 0 8 @ substr a 8 16 @ substr b 24 8)"

definition mt_seal :: "env \<Rightarrow> nat \<Rightarrow> byte list \<Rightarrow> byte list \<Rightarrow> byte list" where
  "mt_seal env x key plain = (let mk = mt_msg_key env x key plain in
     mt_auth_key_id env key @ mk @ e_ige_e env (mt_aes_key env x key mk) (mt_aes_iv env x key mk) plain)"

text \<open>What the layer relies on of OpenSSL: the sizes of the digests, and that IGE decryption
  inverts encryption on whole blocks and keeps the length.\<close>

definition crypto_ok :: "env \<Rightarrow> bool" where
  "crypto_ok env \<longleftrightarrow>
     (\<forall>xs. length (e_sha1 env xs) = 20) \<and> (\<forall>xs. length (e_sha256 env xs) = 32) \<and>
     (\<forall>k iv xs. 16 dvd length xs \<longrightarrow> length (e_ige_e env k iv xs) = length xs \<and>
        length (e_ige_d env k iv xs) = length xs \<and> e_ige_d env k iv (e_ige_e env k iv xs) = xs)"

text \<open>The authorization key has 256 bytes.\<close>

definition key_ok :: "tg \<Rightarrow> bool" where
  "key_ok tg \<longleftrightarrow> readable (tg_key tg) \<and> bsize (tg_key tg) = 256"

section \<open>Lemmas\<close>

lemma length_substr [simp]: "p + n \<le> length xs \<Longrightarrow> length (substr xs p n) = n"
  by (simp add: substr_def)

lemma mem_read_bytes: "readable b \<Longrightarrow> mem_read (bblk b) (bdata b) (unat (bsize b)) = Some (bytes b)"
  by (simp add: mem_read_def readable_def bytes_def)

lemma mem_read_mkbuf: "n \<le> length xs \<Longrightarrow> mem_read (bblk (mkbuf xs)) 0 n = Some (take n xs)"
  by (simp add: mem_read_def mkbuf_def Let_def)

lemma digest_eq:
  assumes "length h = n" and "n \<le> BUFSIZ"
  shows "copy_loop n (bblk (mkbuf [])) 0 h 0 = Some (bblk (mkbuf h))"
proof -
  have "copy_loop n (replicate (Suc BUFSIZ) 0) 0 h 0 = Some (h @ replicate (Suc BUFSIZ - n) 0)"
    using assms by (subst copy_loop_eq) (auto simp del: replicate_Suc)
  with assms show ?thesis by (simp add: mkbuf_def Let_def max_def del: replicate_Suc)
qed

lemma mkbuf_digest:
  "length h \<le> BUFSIZ \<Longrightarrow> (mkbuf [])\<lparr>bblk := bblk (mkbuf h), bsize := of_nat (length h)\<rparr> = mkbuf h"
  by (simp add: mkbuf_def Let_def max_def)

lemma sha1_eq:
  "crypto_ok env \<Longrightarrow> readable b \<Longrightarrow> tg_hsh_sha1 env b = Some (mkbuf (e_sha1 env (bytes b)))"
  using mkbuf_digest [of "e_sha1 env (bytes b)"]
  by (simp add: tg_hsh_sha1_def mem_read_bytes digest_eq crypto_ok_def BUFSIZ_def)

lemma sha256_eq:
  "crypto_ok env \<Longrightarrow> readable b \<Longrightarrow> tg_hsh_sha256 env b = Some (mkbuf (e_sha256 env (bytes b)))"
  using mkbuf_digest [of "e_sha256 env (bytes b)"]
  by (simp add: tg_hsh_sha256_def mem_read_bytes digest_eq crypto_ok_def BUFSIZ_def)

text \<open>Taking a part out of a buffer.\<close>

lemma buf_add_part:
  assumes "readable b" and "p + unat n \<le> unat (bsize b)" and "fits (unat n)"
  shows "buf_add (bblk b) (bdata b + p) n = Some (mkbuf (substr (bytes b) p (unat n)))"
  using assms by (auto simp: readable_def bytes_def substr_def drop_take add.commute intro!: arg_cong [of _ _ mkbuf])

lemma buf_add_part_mkbuf:
  assumes "p + unat n \<le> length xs" and "fits (length xs)"
  shows "buf_add (bblk (mkbuf xs)) p n = Some (mkbuf (substr xs p (unat n)))"
proof -
  have "fits (unat n)" using assms(2) by (rule fits_mono) (use assms(1) in simp)
  with assms show ?thesis using buf_add_part [of "mkbuf xs" p n] by simp
qed

lemma buf_cat_data_part:
  assumes "readable b" and "p + unat n \<le> unat (bsize b)" and "fits (length xs + unat n)"
  shows "buf_cat_data (mkbuf xs) (bblk b) (bdata b + p) n = Some (mkbuf (xs @ substr (bytes b) p (unat n)))"
proof -
  have f: "fits (unat n)" using assms(3) by (rule fits_mono) simp
  have l: "length (substr (bytes b) p (unat n)) = unat n" using assms(1,2) by simp
  show ?thesis
    using buf_add_part [OF assms(1,2) f] assms(3) l by (simp add: buf_cat_data_def)
qed

lemma buf_cat_data_part_mkbuf:
  assumes "p + unat n \<le> length ys" and "fits (length ys)" and "fits (length xs + unat n)"
  shows "buf_cat_data (mkbuf xs) (bblk (mkbuf ys)) p n = Some (mkbuf (xs @ substr ys p (unat n)))"
  using assms buf_cat_data_part [of "mkbuf ys" p n xs] by simp

lemmas part_simps = buf_add_part buf_add_part_mkbuf buf_cat_data_part buf_cat_data_part_mkbuf
  buf_add_part [where p = 0, simplified] buf_cat_data_part [where p = 0, simplified]


lemma realloc_reserve: "map_option snd (buf_realloc malloc_ok b n) = reserve b n"
  by (simp add: reserve_def buf_realloc_def)

lemma cry_aes_eq:
  assumes ige: "\<And>k iv xs. 16 dvd length xs \<Longrightarrow> length (ige k iv xs) = length xs"
    and b: "readable b" "16 dvd unat (bsize b)" "fits (3 * unat (bsize b))"
    and k: "length k = 32" "length iv = 32"
  shows "\<exists>r. cry_aes ige b (mkbuf k) (mkbuf iv) = Some r \<and> readable r \<and>
             bytes r = ige k iv (bytes b) \<and> bsize r = bsize b"
proof -
  let ?n = "unat (bsize b)"
  have n3: "unat (bsize b * 3) = 3 * ?n"
    using b(3) by (simp add: unat_word_ariths fits_def)
  have rs: "(if bsize b > bsize (mkbuf []) then map_option snd (buf_realloc malloc_ok (mkbuf []) (bsize b * 3))
             else Some (mkbuf [])) =
     Some \<lparr>bblk = replicate (Suc (max BUFSIZ (3 * ?n))) 0, bdata = 0, bsize = 0,
           basize = of_nat (max BUFSIZ (3 * ?n))\<rparr>"
  proof (cases "bsize b = 0")
    case True
    then show ?thesis by (simp add: mkbuf_def Let_def)
  next
    case False
    then show ?thesis
      using reserve_mkbuf [of "bsize b * 3" "[]"] b(3) n3 by (simp add: realloc_reserve word_gt_0)
  qed
  have lb: "length (bytes b) = ?n" using b by simp
  then have li: "length (ige k iv (bytes b)) = ?n" using ige b by simp
  have cp: "copy_loop ?n (replicate (Suc (max BUFSIZ (3 * ?n))) 0) 0 (ige k iv (bytes b)) 0 =
      Some (ige k iv (bytes b) @ replicate (Suc (max BUFSIZ (3 * ?n)) - ?n) 0)"
    using li by (subst copy_loop_eq) (auto simp del: replicate_Suc)
  have m16: "?n mod 16 = 0" using b(2) by (simp add: dvd_eq_mod_eq_0)
  let ?r = "\<lparr>bblk = ige k iv (bytes b) @ replicate (Suc (max BUFSIZ (3 * ?n)) - ?n) 0, bdata = 0,
             bsize = bsize b, basize = of_nat (max BUFSIZ (3 * ?n))\<rparr>"
  have "cry_aes ige b (mkbuf k) (mkbuf iv) = Some ?r"
    using k rs cp m16 by (simp add: cry_aes_def mem_read_mkbuf mem_read_bytes b(1) del: replicate_Suc)
  moreover have "readable ?r" "bytes ?r = ige k iv (bytes b)"
    using li by (simp_all add: readable_def bytes_def [of ?r])
  ultimately show ?thesis by simp
qed

lemma length_mt:
  assumes "crypto_ok env" and "length mk = 16"
  shows "length (mt_aes_key env x key mk) = 32" "length (mt_aes_iv env x key mk) = 32"
  using assms by (simp_all add: mt_aes_key_def mt_aes_iv_def mt_sha_a_def mt_sha_b_def crypto_ok_def Let_def)

lemma length_mt_msg_key [simp]: "crypto_ok env \<Longrightarrow> length (mt_msg_key env x key plain) = 16"
  by (simp add: mt_msg_key_def crypto_ok_def)

lemma length_mt_auth_key_id [simp]: "crypto_ok env \<Longrightarrow> length (mt_auth_key_id env key) = 8"
  by (simp add: mt_auth_key_id_def crypto_ok_def)

lemma encrypt_eq:
  assumes c: "crypto_ok env" and k: "key_ok tg"
    and b: "readable b" "16 dvd unat (bsize b)" "fits (3 * unat (bsize b))" "fits (unat (bsize b) + 32)"
  shows "tg_encrypt env tg b True = Some (mkbuf (mt_seal env 0 (bytes (tg_key tg)) (bytes b)))"
proof -
  let ?k = "bytes (tg_key tg)"
  let ?mk = "mt_msg_key env 0 ?k (bytes b)"
  have kr: "readable (tg_key tg)" "bsize (tg_key tg) = 256" using k by (auto simp: key_ok_def)
  have lk: "length ?k = 256" using kr by simp
  have lh: "length (e_sha1 env xs) = 20" "length (e_sha256 env xs) = 32" for xs
    using c by (auto simp: crypto_ok_def)
  have lb: "length (bytes b) = unat (bsize b)" using b by simp
  have f: "fits (32 + unat (bsize b))" "fits (24 + unat (bsize b))"
    using b(4) by (auto intro: fits_mono)
  have mk: "substr (e_sha256 env (substr ?k 88 32 @ bytes b)) 8 16 = ?mk"
    by (simp add: mt_msg_key_def)
  have lm: "length ?mk = 16" using c by simp
  have all: "substr ?mk 0 16 = ?mk" using lm by (simp add: substr_def)
  obtain r where r: "cry_aes (e_ige_e env) b (mkbuf (mt_aes_key env 0 ?k ?mk)) (mkbuf (mt_aes_iv env 0 ?k ?mk)) = Some r"
    "readable r" "bytes r = e_ige_e env (mt_aes_key env 0 ?k ?mk) (mt_aes_iv env 0 ?k ?mk) (bytes b)"
    "bsize r = bsize b"
    using cry_aes_eq [OF _ b(1-3) length_mt [OF c lm]] c by (metis crypto_ok_def)
  have a: "mt_aes_key env 0 ?k ?mk =
      substr (mt_sha_a env 0 ?k ?mk) 0 8 @ substr (mt_sha_b env 0 ?k ?mk) 8 16 @ substr (mt_sha_a env 0 ?k ?mk) 24 8"
    "mt_aes_iv env 0 ?k ?mk =
      substr (mt_sha_b env 0 ?k ?mk) 0 8 @ substr (mt_sha_a env 0 ?k ?mk) 8 16 @ substr (mt_sha_b env 0 ?k ?mk) 24 8"
    by (simp_all add: mt_aes_key_def mt_aes_iv_def Let_def)
  have ab: "e_sha256 env (?mk @ substr ?k 0 36) = mt_sha_a env 0 ?k ?mk"
    "e_sha256 env (substr ?k 40 36 @ ?mk) = mt_sha_b env 0 ?k ?mk"
    "length (mt_sha_a env 0 ?k ?mk) = 32" "length (mt_sha_b env 0 ?k ?mk) = 32"
    by (simp_all add: mt_sha_a_def mt_sha_b_def lh)
  show ?thesis
    unfolding tg_encrypt_def
    using kr lk lb f lm r(2,4) r(1) [unfolded a] b(1)
    by (simp add: Let_def sha1_eq sha256_eq c part_simps lh mk all ab tg_cry_aes_e_def
        mt_seal_def mt_auth_key_id_def r(3) a)
qed


text \<open>
  Reading: a message under the client's own key identifier, with any message key and any
  ciphertext of whole blocks.
\<close>

lemma decrypt_eq:
  assumes c: "crypto_ok env" and k: "key_ok tg"
    and r: "rest m = mt_auth_key_id env (bytes (tg_key tg)) @ mk @ ct @ ys"
    and sz: "bsize m = of_nat (24 + length ct)" and mk: "length mk = 16" and ct: "16 dvd length ct"
    and f: "fits (3 * length ct)" "fits (24 + length ct)"
  shows "\<exists>d. tg_decrypt env tg m True = Some d \<and> readable d \<and> bsize d = of_nat (length ct) \<and>
     bytes d = e_ige_d env (mt_aes_key env 8 (bytes (tg_key tg)) mk) (mt_aes_iv env 8 (bytes (tg_key tg)) mk) ct"
proof -
  let ?k = "bytes (tg_key tg)" and ?id = "mt_auth_key_id env (bytes (tg_key tg))"
  let ?m = "advance (advance m 8) 16"
  have kr: "readable (tg_key tg)" "bsize (tg_key tg) = 256" using k by (auto simp: key_ok_def)
  have lk: "length ?k = 256" using kr by simp
  have lh: "length (e_sha1 env xs) = 20" "length (e_sha256 env xs) = 32" for xs
    using c by (auto simp: crypto_ok_def)
  have li: "length ?id = 8" using c by simp
  have fc: "fits (length ct)" using f(2) by (rule fits_mono) simp
  have nz: "bsize m \<noteq> 0"
    using f(2) sz by (metis add_eq_0_iff_both_eq_0 unat_of_nat_fits unat_0 zero_neq_numeral)
  have rm: "rest ?m = ct @ ys" using r li mk by simp
  have szm: "bsize ?m = of_nat (length ct)" using sz by (simp add: advance_def)
  have rd: "readable ?m"
  proof -
    have "length (rest m) \<ge> 24 + length ct" using r li mk by simp
    then have "bdata m + 24 + length ct \<le> length (bblk m)" by (simp add: rest_def)
    with fc szm show ?thesis by (simp add: readable_def advance_def)
  qed
  have bm: "bytes ?m = ct" using rm szm fc by (simp add: bytes_def rest_def)
  have m16: "bsize ?m mod 16 = 0"
    using szm fc ct by (simp add: word_unat_eq_iff unat_mod dvd_eq_mod_eq_0)
  have id8: "le_val (take 8 (rest m)) = (le_val ?id :: u64)" using r li by simp
  have own: "buf_get_ui64 (mkbuf ?id) = Some (le_val ?id)"
    using load_rest(2) [of "mkbuf ?id"] li by (simp add: buf_get_ui64_def rest_mkbuf)
  have mid: "buf_get_ui64 m = Some (le_val ?id)"
    using load_rest(2) [of m] r li by (simp add: buf_get_ui64_def)
  have dk: "deserialize_buf (advance m 8) 16 = Some (mkbuf mk, ?m)"
    by (rule deserialize_buf_eq [of _ mk "ct @ ys"]) (use r li mk in simp_all)
  obtain d where d: "cry_aes (e_ige_d env) ?m (mkbuf (mt_aes_key env 8 ?k mk)) (mkbuf (mt_aes_iv env 8 ?k mk)) = Some d"
    "readable d" "bytes d = e_ige_d env (mt_aes_key env 8 ?k mk) (mt_aes_iv env 8 ?k mk) ct" "bsize d = bsize ?m"
  proof -
    have u: "unat (bsize ?m) = length ct" unfolding szm using fc by simp
    have g: "length (e_ige_d env k' iv' xs) = length xs" if "16 dvd length xs" for k' iv' xs
      using c that by (simp add: crypto_ok_def)
    have "\<exists>r. cry_aes (e_ige_d env) ?m (mkbuf (mt_aes_key env 8 ?k mk)) (mkbuf (mt_aes_iv env 8 ?k mk)) = Some r \<and>
        readable r \<and> bytes r = e_ige_d env (mt_aes_key env 8 ?k mk) (mt_aes_iv env 8 ?k mk) (bytes ?m) \<and>
        bsize r = bsize ?m"
      by (rule cry_aes_eq) (use g rd u ct f(1) length_mt [OF c mk] in simp_all)
    with bm that show thesis by auto
  qed
  have a: "mt_aes_key env 8 ?k mk =
      substr (mt_sha_a env 8 ?k mk) 0 8 @ substr (mt_sha_b env 8 ?k mk) 8 16 @ substr (mt_sha_a env 8 ?k mk) 24 8"
    "mt_aes_iv env 8 ?k mk =
      substr (mt_sha_b env 8 ?k mk) 0 8 @ substr (mt_sha_a env 8 ?k mk) 8 16 @ substr (mt_sha_b env 8 ?k mk) 24 8"
    by (simp_all add: mt_aes_key_def mt_aes_iv_def Let_def)
  have ab: "e_sha256 env (mk @ substr ?k 8 36) = mt_sha_a env 8 ?k mk"
    "e_sha256 env (substr ?k 48 36 @ mk) = mt_sha_b env 8 ?k mk"
    "length (mt_sha_a env 8 ?k mk) = 32" "length (mt_sha_b env 8 ?k mk) = 32"
    by (simp_all add: mt_sha_a_def mt_sha_b_def lh)
  have all: "substr mk 0 16 = mk" using mk by (simp add: substr_def)
  have p48: "buf_add (bblk (tg_key tg)) (48 + bdata (tg_key tg)) 36 = Some (mkbuf (substr ?k 48 36))"
    using buf_add_part [of "tg_key tg" 48 36] kr by (subst add.commute) simp
  have idk: "buf_add (bblk (mkbuf (e_sha1 env ?k))) 12 8 = Some (mkbuf ?id)"
    by (simp add: part_simps lh mt_auth_key_id_def)
  have "tg_decrypt env tg m True = Some d"
    unfolding tg_decrypt_def
    using kr lk nz m16 mk d(1) [unfolded a] r li
    by (simp add: Let_def sha1_eq sha256_eq c mid own dk part_simps p48 idk lh ab all tg_cry_aes_d_def)
  with d szm show ?thesis by auto
qed


section \<open>What the layer promises\<close>

text \<open>
  C14: \<^verbatim>\<open>tg_encrypt\<close> computes the message encryption of MTProto 2.0 for the direction
  client to server (\<open>x = 0\<close>): key identifier from SHA-1, message key from SHA-256 over
  part of the key and the padded plaintext, AES key and vector interleaved from the two
  digests, ciphertext.  For every plaintext of whole blocks.
\<close>

theorem encrypt_refines_mtproto:
  assumes "crypto_ok env" and "key_ok tg" and "readable b" and "16 dvd unat (bsize b)"
    and "unat (bsize b) < 2 ^ 30"
  shows "tg_encrypt env tg b True = Some (mkbuf (mt_seal env 0 (bytes (tg_key tg)) (bytes b)))"
  using assms by (intro encrypt_eq) (simp_all add: fits_def)

lemma sample_crypto [simp]: "crypto_ok sample_env"
  by (simp add: crypto_ok_def sample_env_def)

lemma sample_key [simp]: "key_ok sample_tg"
  by (simp add: key_ok_def sample_tg_def)

theorem encrypt_refines_mtproto_witness:
  "tg_encrypt sample_env sample_tg (mkbuf (replicate 32 5)) True =
     Some (mkbuf (mt_seal sample_env 0 (bytes (tg_key sample_tg)) (bytes (mkbuf (replicate 32 5)))))"
  by (rule encrypt_refines_mtproto) simp_all

text \<open>
  C15: What a server seals for the client (\<open>x = 8\<close>) with the shared key is opened by
  \<^verbatim>\<open>tg_decrypt\<close>, for every plaintext of whole blocks.
\<close>

theorem decrypt_opens_server_message:
  assumes "crypto_ok env" and "key_ok tg" and "16 dvd length plain" and "length plain < 2 ^ 30"
  shows "\<exists>d. tg_decrypt env tg (mkbuf (mt_seal env 8 (bytes (tg_key tg)) plain)) True = Some d \<and>
             readable d \<and> bytes d = plain"
proof -
  let ?k = "bytes (tg_key tg)"
  let ?mk = "mt_msg_key env 8 ?k plain"
  let ?ct = "e_ige_e env (mt_aes_key env 8 ?k ?mk) (mt_aes_iv env 8 ?k ?mk) plain"
  have l: "length ?ct = length plain" and inv:
    "e_ige_d env (mt_aes_key env 8 ?k ?mk) (mt_aes_iv env 8 ?k ?mk) ?ct = plain"
    using assms(1,3) by (auto simp: crypto_ok_def)
  have w: "mt_seal env 8 ?k plain = mt_auth_key_id env ?k @ ?mk @ ?ct" by (simp add: mt_seal_def Let_def)
  obtain ys where r: "rest (mkbuf (mt_seal env 8 ?k plain)) = mt_auth_key_id env ?k @ ?mk @ ?ct @ ys"
    by (simp add: rest_mkbuf w)
  have "bsize (mkbuf (mt_seal env 8 ?k plain)) = of_nat (24 + length ?ct)"
    using assms(1) by (simp add: w)
  from decrypt_eq [OF assms(1,2) r this] assms l inv show ?thesis by (auto simp: fits_def)
qed

theorem decrypt_opens_server_message_witness:
  "\<exists>d. tg_decrypt sample_env sample_tg (mkbuf (mt_seal sample_env 8 (bytes (tg_key sample_tg)) (replicate 16 9))) True = Some d \<and>
       readable d \<and> bytes d = replicate 16 9"
  by (rule decrypt_opens_server_message) simp_all

text \<open>
  The message key is not verified on receipt: under the right key identifier every
  message key and every ciphertext of whole blocks is accepted and its decryption
  returned, although MTProto 2.0 requires the receiver to recompute the message key
  from the plaintext and to reject a mismatch.
\<close>

theorem decrypt_accepts_any_msg_key:
  assumes "crypto_ok env" and "key_ok tg" and "length mk = 16" and "16 dvd length ct" and "length ct < 2 ^ 30"
  shows "\<exists>d. tg_decrypt env tg (mkbuf (mt_auth_key_id env (bytes (tg_key tg)) @ mk @ ct)) True = Some d \<and>
     bytes d = e_ige_d env (mt_aes_key env 8 (bytes (tg_key tg)) mk) (mt_aes_iv env 8 (bytes (tg_key tg)) mk) ct"
proof -
  let ?w = "mt_auth_key_id env (bytes (tg_key tg)) @ mk @ ct"
  obtain ys where r: "rest (mkbuf ?w) = mt_auth_key_id env (bytes (tg_key tg)) @ mk @ ct @ ys"
    by (simp add: rest_mkbuf)
  have "bsize (mkbuf ?w) = of_nat (24 + length ct)" using assms(1,3) by simp
  from decrypt_eq [OF assms(1,2) r this] assms show ?thesis by (auto simp: fits_def)
qed

theorem decrypt_accepts_any_msg_key_witness:
  "\<exists>d. tg_decrypt sample_env sample_tg
         (mkbuf (mt_auth_key_id sample_env (bytes (tg_key sample_tg)) @ replicate 16 0 @ replicate 16 6)) True = Some d \<and>
     bytes d = e_ige_d sample_env (mt_aes_key sample_env 8 (bytes (tg_key sample_tg)) (replicate 16 0))
                 (mt_aes_iv sample_env 8 (bytes (tg_key sample_tg)) (replicate 16 0)) (replicate 16 6)"
  by (rule decrypt_accepts_any_msg_key) simp_all

end
