(* ===== verification/Framing.thy ===== *)
theory Framing
  imports Prelude
begin

text \<open>
  The interface that the layers of both protocol stacks share, with the laws of their
  composition.  Buffers are of any type: \<open>good\<close> ones hold the bytes \<open>content\<close>; \<open>enc\<close> puts a frame around a buffer, \<open>dec\<close> takes it off; \<open>frame\<close> is the frame on byte
  strings and \<open>ok\<close> describes the payloads the layer can carry.
\<close>

locale framing =
  fixes good :: "'b \<Rightarrow> bool" and content :: "'b \<Rightarrow> byte list"
    and enc :: "'b \<Rightarrow> 'b option" and dec :: "'b \<Rightarrow> 'b option"
    and frame :: "byte list \<Rightarrow> byte list" and ok :: "byte list \<Rightarrow> bool"
  assumes enc_frame: "good b \<Longrightarrow> ok (content b) \<Longrightarrow>
      \<exists>w. enc b = Some w \<and> good w \<and> content w = frame (content b)"
    and dec_frame: "good w \<Longrightarrow> ok xs \<Longrightarrow> content w = frame xs \<Longrightarrow>
      \<exists>b. dec w = Some b \<and> good b \<and> content b = xs"
begin

lemma roundtrip:
  assumes "good b" and "ok (content b)"
  shows "\<exists>w b'. enc b = Some w \<and> dec w = Some b' \<and> good b' \<and> content b' = content b"
  using enc_frame [OF assms] dec_frame [OF _ assms(2)] by blast

lemma frame_inj:
  assumes "ok xs" and "ok ys" and "good w" and "content w = frame xs" and "frame xs = frame ys"
  shows "xs = ys"
proof -
  have "content w = frame ys" using assms by simp
  then obtain b where "dec w = Some b" "content b = ys" using dec_frame [OF assms(3,2)] by blast
  moreover obtain c where "dec w = Some c" "content c = xs" using dec_frame [OF assms(3,1,4)] by blast
  ultimately show ?thesis by simp
qed

end

text \<open>Two layers on top of each other are a layer.\<close>

locale framing_pair =
  inner: framing good content enc1 dec1 frame1 ok1 + outer: framing good content enc2 dec2 frame2 ok2
  for good content enc1 dec1 frame1 ok1 enc2 dec2 frame2 ok2 +
  fixes okp :: "byte list \<Rightarrow> bool"
  assumes ok_inner: "okp xs \<Longrightarrow> ok1 xs" and ok_outer: "okp xs \<Longrightarrow> ok2 (frame1 xs)"
begin

lemma pair_framing:
  "framing good content (\<lambda>b. enc1 b \<bind> enc2) (\<lambda>w. dec2 w \<bind> dec1) (\<lambda>xs. frame2 (frame1 xs)) okp"
proof
  fix b assume b: "good b" "okp (content b)"
  obtain v where v: "enc1 b = Some v" "good v" "content v = frame1 (content b)"
    using inner.enc_frame [OF b(1) ok_inner [OF b(2)]] by auto
  then show "\<exists>w. enc1 b \<bind> enc2 = Some w \<and> good w \<and> content w = frame2 (frame1 (content b))"
    using outer.enc_frame [OF v(2)] ok_outer [OF b(2)] by auto
next
  fix w xs assume w: "good w" "okp xs" "content w = frame2 (frame1 xs)"
  obtain v where "dec2 w = Some v" "good v" "content v = frame1 xs"
    using outer.dec_frame [OF w(1) ok_outer [OF w(2)] w(3)] by auto
  then show "\<exists>b. dec2 w \<bind> dec1 = Some b \<and> good b \<and> content b = xs"
    using inner.dec_frame [OF _ ok_inner [OF w(2)]] by auto
qed

end

sublocale framing_pair \<subseteq> pair: framing good content "\<lambda>b. enc1 b \<bind> enc2" "\<lambda>w. dec2 w \<bind> dec1" "\<lambda>xs. frame2 (frame1 xs)" okp
  by (rule pair_framing)

end
