(* ===== verification/Transport.thy ===== *)
theory Transport
  imports Encrypt Framing
begin

text \<open>
  The outermost layer, \<^verbatim>\<open>libtg/tg/transport.c\<close> (the intermediate transport: a 32-bit length
  before each packet) and the assembly of a query in \<^verbatim>\<open>libtg/tg/prepare_query.c\<close>.
\<close>

section \<open>The operations\<close>

definition tg_transport :: "buf \<Rightarrow> buf option" where
  "tg_transport buf = do {
     let b = buf_new;
     b \<leftarrow> buf_cat_ui32 b (bsize buf);
     buf_cat b buf
   }"

text \<open>\<^verbatim>\<open>len == -404\<close> compares 32-bit patterns; so does \<^verbatim>\<open>buf_add_ui32(-405)\<close>.\<close>

definition tg_detransport :: "buf \<Rightarrow> buf option" where
  "tg_detransport a = (let b = buf_new in
     if bsize a = 0 then Some b
     else do {
       (len, a) \<leftarrow> deserialize_ui32 a;
       is404 \<leftarrow> (if len = - 404 then Some True
                 else map_option (\<lambda>w. w = 0xfffffe6c) (buf_get_ui32 a));
       if is404 then buf_cat_ui32 b 0xfffffe6c
       else do {
         b \<leftarrow> buf_cat b a;
         if len \<noteq> bsize b then buf_add_ui32 (- 405) else Some b
       }
     })"

definition tg_prepare_query :: "env \<Rightarrow> tg \<Rightarrow> buf \<Rightarrow> bool \<Rightarrow> u64 \<Rightarrow> (buf \<times> u64 \<times> tg) option" where
  "tg_prepare_query env tg query enc msgid = do {
     (h, msgid, tg) \<leftarrow> tg_header env tg query enc True msgid;
     e \<leftarrow> tg_encrypt env tg h enc;
     t \<leftarrow> tg_transport e;
     Some (t, msgid, tg)
   }"

section \<open>The layer on bytes\<close>

definition len_frame :: "byte list \<Rightarrow> byte list" where
  "len_frame xs = le_bytes 4 (of_nat (length xs) :: u32) @ xs"

text \<open>
  The payloads the transport carries: a length that fits and is not the code 404, and at
  least four bytes that are not that code either.
\<close>

definition packet_ok :: "byte list \<Rightarrow> bool" where
  "packet_ok xs \<longleftrightarrow> 4 \<le> length xs \<and> fits (length xs + 404) \<and> le_val (take 4 xs) \<noteq> (0xfffffe6c :: u32)"

lemma transport_eq:
  assumes "readable b" and "fits (unat (bsize b) + 4)"
  shows "tg_transport b = Some (mkbuf (len_frame (bytes b)))"
  using assms by (simp add: tg_transport_def len_frame_def add.commute)

lemma readable_rest_length: "readable b \<Longrightarrow> unat (bsize b) \<le> length (rest b)"
  by (auto simp: readable_def rest_def)

lemma readable_advance:
  assumes "readable b" and "unat n \<le> unat (bsize b)"
  shows "readable (advance b n)" "bytes (advance b n) = drop (unat n) (bytes b)"
    "unat (bsize (advance b n)) = unat (bsize b) - unat n"
proof -
  have "n \<le> bsize b" using assms(2) by (simp add: word_le_nat_alt)
  then have u: "unat (bsize b - n) = unat (bsize b) - unat n" by (simp add: unat_sub)
  show "readable (advance b n)" "unat (bsize (advance b n)) = unat (bsize b) - unat n"
    using assms u by (auto simp: readable_def advance_def)
  show "bytes (advance b n) = drop (unat n) (bytes b)"
    using assms u by (simp add: bytes_def advance_def drop_take add.commute)
qed

lemma detransport_frame:
  assumes w: "readable w" and ok: "packet_ok xs" and eq: "bytes w = len_frame xs"
  shows "tg_detransport w = Some (mkbuf xs)"
proof -
  have f: "fits (length xs)" "4 \<le> length xs" using ok by (auto simp: packet_ok_def intro: fits_mono)
  have lw: "unat (bsize w) = 4 + length xs"
    using length_bytes [OF w] eq by (simp add: len_frame_def)
  then have nz: "bsize w \<noteq> 0" by auto
  obtain ys where rw: "rest w = le_bytes 4 (of_nat (length xs) :: u32) @ xs @ ys"
    using rest_split [of w] eq by (simp add: len_frame_def)
  have l: "(of_nat (length xs) :: u32) \<noteq> - 404"
  proof
    assume "(of_nat (length xs) :: u32) = - 404"
    then have "unat (of_nat (length xs) :: u32) = unat (- 404 :: u32)" by simp
    with f(1) have "length xs = 4294966892" by simp
    with ok show False by (simp add: packet_ok_def)
  qed
  have g: "buf_get_ui32 (advance w 4) = Some (le_val (take 4 xs))"
    using load_rest(1) [of "advance w 4"] rw f(2) by (simp add: buf_get_ui32_def)
  have a: "readable (advance w 4)" "bytes (advance w 4) = xs" "bsize (advance w 4) = of_nat (length xs)"
  proof -
    have "unat (4 :: u32) \<le> unat (bsize w)" using lw by simp
    note r = readable_advance [OF w this]
    show "readable (advance w 4)" "bytes (advance w 4) = xs" using r eq by (simp_all add: len_frame_def)
    show "bsize (advance w 4) = of_nat (length xs)" using r(3) lw by (metis add_diff_cancel_left' of_nat_unat ucast_id unat_numeral_sizes(1))
  qed
  have "buf_cat (mkbuf []) (advance w 4) = Some (mkbuf xs)" using a f(1) by simp
  with nz rw l g ok show ?thesis
    by (simp add: tg_detransport_def packet_ok_def)
qed

interpretation transport: framing readable bytes tg_transport tg_detransport len_frame packet_ok
proof
  fix b assume b: "readable b" "packet_ok (bytes b)"
  then have f: "fits (unat (bsize b) + 404)" by (simp add: packet_ok_def)
  then have "fits (unat (bsize b) + 4)" by (rule fits_mono) simp
  with b f show "\<exists>w. tg_transport b = Some w \<and> readable w \<and> bytes w = len_frame (bytes b)"
    using transport_eq [OF b(1)] by (simp add: len_frame_def add.commute)
next
  fix w xs assume "readable w" "packet_ok xs" "bytes w = len_frame xs"
  moreover from this(2) have "fits (length xs)" by (auto simp: packet_ok_def intro: fits_mono)
  ultimately show "\<exists>b. tg_detransport w = Some b \<and> readable b \<and> bytes b = xs"
    using detransport_frame by simp
qed


text \<open>Without encryption the middle layer copies.\<close>

definition clear_ok :: "byte list \<Rightarrow> bool" where
  "clear_ok xs \<longleftrightarrow> xs \<noteq> [] \<and> fits (length xs)"

interpretation clear: framing readable bytes "\<lambda>b. tg_encrypt env tg b False" "\<lambda>m. tg_decrypt env tg m False" "\<lambda>xs. xs" clear_ok
  for env tg
proof
  fix b assume "readable b" "clear_ok (bytes b)"
  then show "\<exists>w. tg_encrypt env tg b False = Some w \<and> readable w \<and> bytes w = bytes b"
    by (simp add: tg_encrypt_def clear_ok_def)
next
  fix w xs assume w: "readable w" "clear_ok xs" "bytes w = xs"
  then have "unat (bsize w) \<noteq> 0" using length_bytes [of w] by (metis clear_ok_def length_0_conv)
  then have "bsize w \<noteq> 0" by auto
  with w show "\<exists>b. tg_decrypt env tg w False = Some b \<and> readable b \<and> bytes b = xs"
    by (auto simp: tg_decrypt_def clear_ok_def)
qed

interpretation clear_channel: framing_pair readable bytes
  "\<lambda>b. tg_encrypt env tg b False" "\<lambda>m. tg_decrypt env tg m False" "\<lambda>xs. xs" clear_ok
  tg_transport tg_detransport len_frame packet_ok packet_ok
  for env tg
  by unfold_locales (auto simp: packet_ok_def clear_ok_def intro: fits_mono)

text \<open>Below the header: sealing and framing what it wrote.\<close>

lemma prepare_sealed:
  assumes "crypto_ok env" and "key_ok tg" and "tg_header env tg q True True msgid = Some (mkbuf w, mid, t)"
    and "tg_key t = tg_key tg" and "16 dvd length w" and "length w < 2 ^ 30"
  shows "tg_prepare_query env tg q True msgid = Some (mkbuf (len_frame (mt_seal env 0 (bytes (tg_key tg)) w)), mid, t) \<and>
     fits (length (len_frame (mt_seal env 0 (bytes (tg_key tg)) w)))"
proof -
  let ?s = "mt_seal env 0 (bytes (tg_key tg)) w"
  have fw: "fits (length w)" "fits (3 * length w)" "fits (length w + 32)" using assms(6) by (simp_all add: fits_def)
  have u: "unat (bsize (mkbuf w)) = length w" using fw(1) by simp
  have e: "tg_encrypt env t (mkbuf w) True = Some (mkbuf ?s)"
    using encrypt_eq [of env t "mkbuf w"] assms(1,2,4,5) fw u by (simp add: key_ok_def)
  have "length ?s = 24 + length w"
    using assms(1,5) by (simp add: mt_seal_def Let_def crypto_ok_def mt_msg_key_def mt_auth_key_id_def)
  then have fs: "fits (length ?s + 4)" "fits (length ?s)" using assms(6) by (simp_all add: fits_def)
  have "tg_transport (mkbuf ?s) = Some (mkbuf (len_frame ?s))" using transport_eq [of "mkbuf ?s"] fs by simp
  then show ?thesis using fs(1) assms(3) e by (simp add: tg_prepare_query_def len_frame_def add.commute)
qed

lemma prepare_query_state:
  assumes "locks_ok env" and "crypto_ok env" and "session_ok tg" and "key_ok tg"
    and "tg_msgids tg = []" and "readable q" and "unat (bsize q) < 2 ^ 29"
  shows "\<exists>pad p. tg_prepare_query env tg q True msgid =
       Some (mkbuf p, id_at env tg 0, tick (snd (next_seqno (tick tg) True))) \<and> fits (length p) \<and>
     p = len_frame (mt_seal env 0 (bytes (tg_key tg))
           (plain_wire (bytes (tg_salt tg)) (bytes (tg_ssid tg)) (id_at env tg 0) (tg_seqn tg * 2 + 1) (bytes q) pad))"
proof -
  let ?n = "unat (bsize q)" and ?t = "snd (next_seqno (tick tg) True)"
  have f: "fits (?n + 64)" "fits ?n" using assms(7) by (simp_all add: fits_def)
  let ?w = "plain_wire (bytes (tg_salt tg)) (bytes (tg_ssid tg)) (id_at env tg 0)
              (tg_seqn tg * 2 + 1) (bytes q) (rand_bytes env ?t (pad_count ?n))"
  have h: "tg_header env tg q True True msgid = Some (mkbuf ?w, id_at env tg 0, tick ?t)"
    using header_frame [OF header_body_plain [OF assms(5,6) f(2)] assms(1,3)] assms(6) f(1)
    by (simp add: next_seqno_def)
  have lw: "length ?w = 32 + (?n + pad_count ?n)"
    using assms(3,6) by (simp add: length_plain_wire session_ok_def)
  have d16: "16 dvd length ?w" unfolding lw by (rule dvd_add [OF _ pad_count_aligns]) simp
  have "length ?w < 2 ^ 30" unfolding lw using assms(7) pad_count_bounds(2) [of ?n] by simp
  from prepare_sealed [OF assms(2,4) h _ d16 this] show ?thesis by (auto simp: next_seqno_def)
qed

text \<open>With acknowledgements pending it is the container that is sealed.\<close>

lemma prepare_query_pending:
  assumes "locks_ok env" and "crypto_ok env" and "session_ok tg" and "key_ok tg"
    and "tg_msgids tg \<noteq> []" and "readable q" and "pending_ok env tg (unat (bsize q))" and "id_at env tg 0 \<noteq> 0"
    and "unat (bsize (e_msgs_ack env (tg_msgids tg))) + drops_size env tg + unat (bsize q) < 2 ^ 29"
  shows "\<exists>pad p. tg_prepare_query env tg q True msgid =
       Some (mkbuf p, id_at env tg 0, tick (tick (after_container tg))) \<and> fits (length p) \<and>
     p = len_frame (mt_seal env 0 (bytes (tg_key tg))
           (plain_wire (bytes (tg_salt tg)) (bytes (tg_ssid tg)) (id_at env tg (2 + length (tg_todrop tg)))
              (tg_seqn (after_container tg) * 2) (container_wire (container_msgs env tg (bytes q))) pad))"
proof -
  let ?c = "container_wire (container_msgs env tg (bytes q))" and ?t = "after_container tg"
  let ?w = "plain_wire (bytes (tg_salt tg)) (bytes (tg_ssid tg)) (id_at env tg (2 + length (tg_todrop tg)))
              (tg_seqn ?t * 2) ?c (rand_bytes env (tick ?t) (pad_count (length ?c)))"
  note h = header_container [OF assms(1,3,5,6,7,8) refl refl]
  have lw: "length ?w = 32 + (length ?c + pad_count (length ?c))"
    using assms(3) by (simp add: length_plain_wire session_ok_def)
  have d16: "16 dvd length ?w" unfolding lw by (rule dvd_add [OF _ pad_count_aligns]) simp
  have "length ?c < 2 ^ 29 + 40" using container_length [OF assms(7,6)] assms(9) by linarith
  then have "length ?w < 2 ^ 30" unfolding lw using pad_count_bounds(2) [of "length ?c"] by simp
  from prepare_sealed [OF assms(2,4) h _ d16 this] show ?thesis by (auto simp: after_container_def)
qed

lemma prepare_query_eq:
  assumes "locks_ok env" and "crypto_ok env" and "session_ok tg" and "key_ok tg"
    and "tg_msgids tg = []" and "readable q" and "unat (bsize q) < 2 ^ 29"
  shows "\<exists>pad tg' p. tg_prepare_query env tg q True msgid = Some (mkbuf p, id_at env tg 0, tg') \<and> fits (length p) \<and>
     p = len_frame (mt_seal env 0 (bytes (tg_key tg))
           (plain_wire (bytes (tg_salt tg)) (bytes (tg_ssid tg)) (id_at env tg 0) (tg_seqn tg * 2 + 1) (bytes q) pad))"
  using prepare_query_state [OF assms] by blast

section \<open>What the layer promises\<close>

text \<open>
  The unencrypted channel of the key exchange is transparent: a packet of at least four
  bytes that does not start with the code 404 goes through encryption layer (switched off)
  and transport and comes back as it was, whatever the two clients' states are.
\<close>

theorem clear_channel_transparent:
  assumes "readable b" and "packet_ok (bytes b)"
  shows "\<exists>w b'. tg_encrypt env tg b False \<bind> tg_transport = Some w \<and>
                tg_detransport w \<bind> (\<lambda>m. tg_decrypt env tg m False) = Some b' \<and> bytes b' = bytes b"
  using clear_channel.pair.roundtrip [OF assms, of env tg] by blast

theorem clear_channel_transparent_witness:
  "\<exists>w b'. tg_encrypt sample_env sample_tg (mkbuf [1, 2, 3, 4, 5]) False \<bind> tg_transport = Some w \<and>
          tg_detransport w \<bind> (\<lambda>m. tg_decrypt sample_env sample_tg m False) = Some b' \<and>
          bytes b' = bytes (mkbuf [1, 2, 3, 4, 5])"
  by (rule clear_channel_transparent) (simp_all add: packet_ok_def fits_def)

text \<open>
  C39: The outcomes of unframing a packet of \<open>n \<ge> 4\<close> payload bytes behind a length field:
  the code 404 when the field or the first payload word is that code, the code 405 when the
  field disagrees with the payload, and the payload otherwise.
\<close>

theorem detransport_outcomes:
  assumes "readable w" and "bytes w = le_bytes 4 (len :: u32) @ xs" and "4 \<le> length xs"
    and "fits (length xs)"
  shows "tg_detransport w =
     Some (if len = 0xfffffe6c \<or> le_val (take 4 xs) = (0xfffffe6c :: u32) then mkbuf (le_bytes 4 (0xfffffe6c :: u32))
           else if len = of_nat (length xs) then mkbuf xs
           else mkbuf (le_bytes 4 (- 405 :: u32)))"
proof -
  have lw: "unat (bsize w) = 4 + length xs" using length_bytes [OF assms(1)] assms(2) by simp
  then have nz: "bsize w \<noteq> 0" by auto
  obtain ys where rw: "rest w = le_bytes 4 len @ xs @ ys"
    using rest_split [of w] assms(2) by simp
  have g: "buf_get_ui32 (advance w 4) = Some (le_val (take 4 xs))"
    using load_rest(1) [of "advance w 4"] rw assms(3) by (simp add: buf_get_ui32_def)
  have le: "unat (4 :: u32) \<le> unat (bsize w)" using lw by simp
  note r = readable_advance [OF assms(1) le]
  have c: "buf_cat (mkbuf []) (advance w 4) = Some (mkbuf xs)"
    using r assms(2,4) lw by simp
  show ?thesis
    using nz rw g c by (simp add: tg_detransport_def)
qed

theorem detransport_outcomes_witness:
  "tg_detransport (mkbuf (le_bytes 4 (9 :: u32) @ [1, 2, 3, 4, 5])) =
     Some (if (9 :: u32) = 0xfffffe6c \<or> le_val (take 4 [1, 2, 3, 4, 5]) = (0xfffffe6c :: u32)
           then mkbuf (le_bytes 4 (0xfffffe6c :: u32))
           else if (9 :: u32) = of_nat (length [1, 2, 3, 4, 5 :: byte]) then mkbuf [1, 2, 3, 4, 5]
           else mkbuf (le_bytes 4 (- 405 :: u32)))"
  by (rule detransport_outcomes) (simp_all add: fits_def)



end
