(* ===== verification/Errors.thy ===== *)
theory Errors
  imports Tl_Object
begin

text \<open>
  Errors: the data centres of \<^verbatim>\<open>libtg/tg/dc.h\<close>, the analysis of error texts in
  \<^verbatim>\<open>libtg/tg/errors.c\<close> (which data centre to move to, how long to wait), and
  \<^verbatim>\<open>tg_strerr\<close> of \<^verbatim>\<open>libtg/tg/strerr.c\<close>.  The outer \<^term>\<open>None\<close> of a result is undefined
  behaviour, the inner one a \<^verbatim>\<open>NULL\<close> pointer.
\<close>

section \<open>Data centres\<close>

record dc =
  dc_enum :: int
  dc_number :: int
  dc_id_in_dh_params :: int
  dc_name :: string
  dc_ipv4 :: string

text \<open>
  The table, as the macro \<^verbatim>\<open>DC(n, num, ...)\<close> fills it: \<^verbatim>\<open>number\<close> gets \<open>num\<close> and
  \<^verbatim>\<open>id_in_dh_params\<close> the enumeration constant.
\<close>

definition DC :: "int \<Rightarrow> int \<Rightarrow> string \<Rightarrow> string \<Rightarrow> dc" where
  "DC n num nm ip4 = \<lparr>dc_enum = n, dc_number = num, dc_id_in_dh_params = n, dc_name = nm, dc_ipv4 = ip4\<rparr>"

definition DCs :: "dc list" where
  "DCs = [DC 0 0 ''NULL'' ''0'',
     DC 1 1 ''pluto'' ''149.154.175.53'', DC 2 2 ''venus'' ''149.154.167.51'',
     DC 3 3 ''aurora'' ''149.154.175.100'', DC 4 4 ''vesta'' ''149.154.167.91'',
     DC 5 5 ''flora'' ''91.108.56.130'', DC 6 10001 ''pluto'' ''149.154.175.10'',
     DC 7 10002 ''venus'' ''149.154.167.40'', DC 8 10003 ''aurora'' ''149.154.175.117'']"

section \<open>Error texts\<close>

definition tg_error_get_num :: "string \<Rightarrow> string \<Rightarrow> int option" where
  "tg_error_get_num error pattern =
     (case strstr error pattern of
        Some str \<Rightarrow> atoi (drop (length pattern) str)
      | None \<Rightarrow> Some 0)"

text \<open>\<^verbatim>\<open>&DCs[n]\<close> for a table of nine entries; the callers dereference it.\<close>

definition dc_at :: "int \<Rightarrow> dc option option" where
  "dc_at n = (if 0 \<le> n \<and> n < int (length DCs) then Some (Some (DCs ! nat n)) else None)"

definition error_dc :: "string \<Rightarrow> string option \<Rightarrow> dc option option" where
  "error_dc pattern error =
     (case error of None \<Rightarrow> Some None
      | Some e \<Rightarrow> do { n \<leftarrow> tg_error_get_num e pattern; if n \<noteq> 0 then dc_at n else Some None })"

definition tg_error_migrate :: "string option \<Rightarrow> dc option option" where
  "tg_error_migrate error = error_dc ''MIGRATE_'' error"

definition tg_error_phone_migrate :: "string option \<Rightarrow> dc option option" where
  "tg_error_phone_migrate error = error_dc ''PHONE_MIGRATE_'' error"

definition tg_error_user_migrate :: "string option \<Rightarrow> dc option option" where
  "tg_error_user_migrate error = error_dc ''USER_MIGRATE_'' error"

definition tg_error_file_migrate :: "string option \<Rightarrow> dc option option" where
  "tg_error_file_migrate error = error_dc ''FILE_MIGRATE_'' error"

definition tg_error_flood_wait :: "string option \<Rightarrow> int option" where
  "tg_error_flood_wait error =
     (case error of None \<Rightarrow> Some 0 | Some e \<Rightarrow> tg_error_get_num e ''FLOOD_WAIT_'')"

text \<open>
  \<^verbatim>\<open>RPC_ERROR(tl)\<close> is the data pointer of the message taken as a C string: it ends at the
  first NUL of the block, not at the size of the buffer.
\<close>

definition RPC_ERROR :: "buf \<Rightarrow> string option" where
  "RPC_ERROR b = (if 0 \<in> set (rest b) then Some (cstr (rest b)) else None)"

section \<open>Error descriptions\<close>

text \<open>
  \<open>nm\<close> is the generated table behind \<^verbatim>\<open>TL_NAME_FROM_ID\<close>.  The two formatted texts go
  through an array of 256 characters; a longer text overruns it.
\<close>

definition fmt256 :: "string \<Rightarrow> string option" where
  "fmt256 s = (if length s < 256 then Some s else None)"

definition tg_strerr :: "(u32 \<Rightarrow> string) \<Rightarrow> tl option \<Rightarrow> string option" where
  "tg_strerr nm t =
     (case t of
        None \<Rightarrow> Some ''OBJECT_IS_NULL''
      | Some t \<Rightarrow>
          (if tl_id t = 0xfffffe6c then Some ''404_ERROR''
           else case t of
             Rpc_error _ _ m \<Rightarrow> map_option cstr (mem_read (bblk m) (bdata m) (unat (bsize m)))
           | Bad_msg_notification _ code \<Rightarrow> fmt256 (''BAD_MSG_NOTIFICATION: '' @ sdec code)
           | _ \<Rightarrow> fmt256 (''UMANAGED TL: tl_'' @ nm (tl_id t) @ ''_t ('' @ hex8 (tl_id t) @ '')'')))"

section \<open>Lemmas\<close>

lemma get_num_dec:
  assumes "p \<noteq> []" and "hd p \<notin> set k" and "n < 2 ^ 31" and "r = [] \<or> \<not> isdigit (hd r)"
  shows "tg_error_get_num (k @ p @ dec n @ r) p = Some (int n)"
  using assms strstr_skip [OF assms(1,2), of "dec n @ r"] atoi_dec [OF assms(3,4)]
  by (simp add: tg_error_get_num_def)

lemma length_DCs [simp]: "length DCs = 9"
  by (simp add: DCs_def)

lemma RPC_ERROR_str: "CHR 0x00 \<notin> set s \<Longrightarrow> RPC_ERROR (mkbuf (str_bytes s)) = Some s"
  by (simp add: RPC_ERROR_def rest_str cstr_str_bytes)

section \<open>What the analysis promises\<close>

text \<open>
  A redirection \<open>..MIGRATE_n\<close> to one of the five production centres selects exactly
  that centre: the entry whose number is \<open>n\<close>, with an address of its own.
\<close>

theorem migrate_selects_dc:
  assumes "CHR ''M'' \<notin> set k" and "1 \<le> n" and "n \<le> 5"
  shows "\<exists>d. tg_error_migrate (Some (k @ ''MIGRATE_'' @ dec n)) = Some (Some d) \<and>
             dc_number d = int n \<and> d = DCs ! n \<and>
             (\<forall>m < length DCs. dc_ipv4 (DCs ! m) = dc_ipv4 d \<longrightarrow> m = n)"
proof -
  have "tg_error_get_num (k @ ''MIGRATE_'' @ dec n) ''MIGRATE_'' = Some (int n)"
    using get_num_dec [of "''MIGRATE_''" k n "[]"] assms by simp
  then have e: "tg_error_migrate (Some (k @ ''MIGRATE_'' @ dec n)) = Some (Some (DCs ! n))"
    using assms by (simp add: tg_error_migrate_def error_dc_def dc_at_def)
  have n: "n \<in> {1, 2, 3, 4, 5}" using assms by auto
  then have "dc_number (DCs ! n) = int n" by (auto simp: DCs_def DC_def)
  moreover have "\<forall>m \<in> set [0..<9]. dc_ipv4 (DCs ! m) = dc_ipv4 (DCs ! n) \<longrightarrow> m = n"
    using n by (auto simp: upt_rec DCs_def DC_def nth_Cons')
  ultimately show ?thesis using e by auto
qed

theorem migrate_selects_dc_witness:
  "\<exists>d. tg_error_migrate (Some (''PHONE_'' @ ''MIGRATE_'' @ dec 4)) = Some (Some d) \<and>
       dc_number d = int 4 \<and> d = DCs ! 4 \<and>
       (\<forall>m < length DCs. dc_ipv4 (DCs ! m) = dc_ipv4 d \<longrightarrow> m = 4)"
  by (rule migrate_selects_dc) simp_all

text \<open>
  The number in a redirection is not checked against the table: from 9 on, the entry
  taken lies behind its end, for each of the four kinds of redirection the code knows.
\<close>

theorem migrate_out_of_table:
  assumes "9 \<le> n" and "n < 2 ^ 31" and "p \<in> {''MIGRATE_'', ''PHONE_MIGRATE_'', ''USER_MIGRATE_'', ''FILE_MIGRATE_''}"
  shows "error_dc p (Some (p @ dec n)) = None"
proof -
  have "tg_error_get_num (p @ dec n) p = Some (int n)"
    using get_num_dec [of p "[]" n "[]"] assms by auto
  then show ?thesis using assms by (simp add: error_dc_def dc_at_def)
qed

theorem migrate_out_of_table_witness: "error_dc ''FILE_MIGRATE_'' (Some (''FILE_MIGRATE_'' @ dec 9)) = None"
  by (rule migrate_out_of_table) simp_all

text \<open>
  A flood-wait error yields its number of seconds, and no other error does: a text
  without the letter F is not a flood-wait error, nor is a missing one.
\<close>

theorem flood_wait_seconds:
  assumes "CHR ''F'' \<notin> set k" and "n < 2 ^ 31"
  shows "tg_error_flood_wait (Some (k @ ''FLOOD_WAIT_'' @ dec n)) = Some (int n) \<and>
         tg_error_flood_wait (Some k) = Some 0 \<and> tg_error_flood_wait None = Some 0"
proof -
  have "strstr k ''FLOOD_WAIT_'' = None" using assms(1) by (intro strstr_absent) simp_all
  then show ?thesis
    using get_num_dec [of "''FLOOD_WAIT_''" k n "[]"] assms
    by (simp add: tg_error_flood_wait_def tg_error_get_num_def)
qed

theorem flood_wait_seconds_witness:
  "tg_error_flood_wait (Some (''420 '' @ ''FLOOD_WAIT_'' @ dec 30)) = Some (int 30) \<and>
   tg_error_flood_wait (Some ''420 '') = Some 0 \<and> tg_error_flood_wait None = Some 0"
  by (rule flood_wait_seconds) simp_all

text \<open>
  \<^verbatim>\<open>tg_strerr\<close> never overruns its 256-character array as long as the names of the
  constructors have at most 200 characters, and reads an RPC error's text only inside
  its buffer: it always returns a text, and that of an RPC error is the message itself.
\<close>

theorem strerr_total:
  assumes "\<And>k. length (nm k) \<le> 200" and "- (2 ^ 31) \<le> code" and "code < 2 ^ 31" and "readable m"
  shows "\<exists>s. tg_strerr nm (Some (Bad_msg_notification b code)) = Some s \<and>
         tg_strerr nm (Some (Rpc_error b code m)) = Some (cstr (bytes m)) \<and>
         (\<exists>s'. tg_strerr nm (Some (Other b k)) = Some s') \<and> tg_strerr nm None = Some ''OBJECT_IS_NULL''"
  using assms(1) [of k] length_sdec [OF assms(2,3)] assms(4)
  by (simp add: tg_strerr_def fmt256_def hex8_def mem_read_def readable_def bytes_def)

theorem strerr_total_witness:
  "\<exists>s. tg_strerr (\<lambda>k. ''future'') (Some (Bad_msg_notification (mkbuf []) 16)) = Some s \<and>
       tg_strerr (\<lambda>k. ''future'') (Some (Rpc_error (mkbuf []) 16 (mkbuf [65, 66]))) = Some (cstr (bytes (mkbuf [65, 66]))) \<and>
       (\<exists>s'. tg_strerr (\<lambda>k. ''future'') (Some (Other (mkbuf []) 5)) = Some s') \<and>
       tg_strerr (\<lambda>k. ''future'') None = Some ''OBJECT_IS_NULL''"
  by (rule strerr_total) (simp_all add: fits_def)

end
