(* ===== verification/Tg_Core.thy ===== *)
theory Tg_Core
  imports Transport Errors
begin

text \<open>
  The client object's own operations, \<^verbatim>\<open>libtg/tg/tg.c\<close>: creation, server address, session,
  the hash of message lists, the address of a data centre, and unpacking
  (\<^verbatim>\<open>libtg/tl/gunzip.c\<close>).  The database and zlib are parameters.
\<close>

section \<open>Creation and settings\<close>

definition SERVER_IP :: string where
  "SERVER_IP = ''149.154.167.50''"

definition SERVER_PORT :: int where
  "SERVER_PORT = 443"

text \<open>\<^verbatim>\<open>strncpy(d, s, n)\<close> into an array that holds zeros behind the first \<open>n\<close> characters.\<close>

definition strncpy :: "string \<Rightarrow> nat \<Rightarrow> string" where
  "strncpy s n = take n s"

text \<open>
  What creation asks of the database: the result of \<^verbatim>\<open>database_init\<close>, the stored address and
  the stored key.
\<close>

record database =
  db_init :: int
  db_ip :: "string option"
  db_key :: buf

text \<open>\<open>mtx i\<close> is the result of the \<open>i\<close>-th \<^verbatim>\<open>pthread_mutex_init\<close>; a freshly allocated struct is zero.\<close>

definition tg_zero :: tg where
  "tg_zero = \<lparr>tg_id = 0, tg_apiId = 0, tg_apiHash = [], tg_database_path = [], tg_pubkey = [], tg_ip = [],
     tg_port = 0, tg_config = None, tg_seqn = 0, tg_key = buf_none, tg_key_id = 0, tg_salt = buf_none,
     tg_ssid = buf_none, tg_msgids = [], tg_todrop = [], tg_timediff = 0, tg_ticks = 0\<rparr>"

definition tg_new :: "env \<Rightarrow> database \<Rightarrow> (nat \<Rightarrow> int) \<Rightarrow> string option \<Rightarrow> int \<Rightarrow> int \<Rightarrow> string \<Rightarrow> string \<Rightarrow> tg option option" where
  "tg_new env db mtx database_path ident apiId apiHash pem =
     (case database_path of None \<Rightarrow> Some None | Some path \<Rightarrow>
      let tg = tg_zero\<lparr>tg_database_path := strncpy path (BUFSIZ - 1), tg_id := ident\<rparr> in
      if db_init db \<noteq> 0 then Some None
      else do {
        let tg = tg\<lparr>tg_apiId := apiId, tg_apiHash := strncpy apiHash 33, tg_pubkey := pem,
                    tg_ip := strncpy (case db_ip db of Some ip \<Rightarrow> ip | None \<Rightarrow> SERVER_IP) 15,
                    tg_port := SERVER_PORT, tg_key := db_key db\<rparr>;
        tg \<leftarrow> (if bsize (tg_key tg) \<noteq> 0 then do {
                 key_hash \<leftarrow> tg_hsh_sha1 env (tg_key tg);
                 auth_key_id \<leftarrow> buf_add (bblk key_hash) (bdata key_hash + 12) 8;
                 k \<leftarrow> buf_get_ui64 auth_key_id;
                 Some (tg\<lparr>tg_key_id := k\<rparr>)
               } else Some tg);
        if \<exists>i \<in> set [0..<7]. mtx i \<noteq> 0 then Some None else Some (Some (tg\<lparr>tg_seqn := 0\<rparr>))
      })"

definition tg_set_server_address :: "env \<Rightarrow> tg \<Rightarrow> string \<Rightarrow> int \<Rightarrow> tg" where
  "tg_set_server_address env tg ip port =
     (if \<not> e_lock env Databasem then tg
      else tg\<lparr>tg_ip := strncpy ip 15, tg_port := port\<rparr>)"

definition tg_new_session :: "env \<Rightarrow> tg \<Rightarrow> tg option" where
  "tg_new_session env tg =
     (if \<not> e_lock env Queue_lock then Some tg
      else do {
        let (now, tg) = now_seconds env tg;
        s \<leftarrow> buf_rand (e_rnd env) now 8;
        Some (tg\<lparr>tg_ssid := s\<rparr>)
      })"

text \<open>The correction of the clock: the function returns before it asks the time server.\<close>

definition ntp_time_diff :: u64 where
  "ntp_time_diff = 0"

section \<open>Hashes of message lists\<close>

definition update_hash :: "u64 option \<Rightarrow> u32 \<Rightarrow> u64 option" where
  "update_hash hash mid =
     (let h = (case hash of None \<Rightarrow> 0 | Some h \<Rightarrow> h);
          h = h XOR drop_bit 21 h;
          h = h XOR push_bit 35 h;
          h = h XOR drop_bit 4 h;
          h = h + ucast mid
      in case hash of None \<Rightarrow> None | Some _ \<Rightarrow> Some h)"

section \<open>Addresses of data centres\<close>

fun find_dc :: "dc_option list \<Rightarrow> int \<Rightarrow> string option" where
  "find_dc [] dc = None"
| "find_dc (None # os) dc = find_dc os dc"
| "find_dc (Some (k, ip) # os) dc = (if k = dc then Some ip else find_dc os dc)"

definition tg_ip_address_for_dc :: "tg \<Rightarrow> int \<Rightarrow> string option" where
  "tg_ip_address_for_dc tg dc = (case tg_config tg of None \<Rightarrow> None | Some os \<Rightarrow> find_dc os dc)"

section \<open>Unpacking\<close>

text \<open>
  \<open>z_init\<close> is the result of \<^verbatim>\<open>inflateInit2\<close>; \<open>z_inflate input avail\<close> the result code and the
  output of one \<^verbatim>\<open>inflate(.., Z_FINISH)\<close> with room for \<open>avail\<close> bytes.  \<open>l_table\<close> is the
  generated deserialisation table, \<open>l_name\<close> the generated table of names.
\<close>

record lib =
  z_init :: int
  z_inflate :: "byte list \<Rightarrow> nat \<Rightarrow> int \<times> byte list"
  l_table :: "tl dtable"
  l_name :: "u32 \<Rightarrow> string"

definition gunzip_buf :: "lib \<Rightarrow> buf \<Rightarrow> (int \<times> buf) option" where
  "gunzip_buf lib src = do {
     let dst = snd (buf_init malloc_ok buf_none);
     dst \<leftarrow> map_option snd (buf_realloc malloc_ok dst (bsize src * 10));
     input \<leftarrow> mem_read (bblk src) (bdata src) (unat (bsize src));
     if z_init lib \<noteq> 0 then Some (1, dst)
     else do {
       let (ret, out) = z_inflate lib input (unat (basize dst));
       blk \<leftarrow> copy_loop (length out) (bblk dst) (bdata dst) out 0;
       let dst = dst\<lparr>bblk := blk\<rparr>;
       if ret \<noteq> 0 \<and> ret \<noteq> 1 then Some (ret, dst)
       else Some (0, dst\<lparr>bsize := of_nat (length out)\<rparr>)
     }
   }"

definition tg_tl_from_gzip :: "lib \<Rightarrow> tl option \<Rightarrow> tl option option" where
  "tg_tl_from_gzip lib t =
     (case t of
        None \<Rightarrow> Some None
      | Some (Gzip_packed _ packed) \<Rightarrow> do {
          (e, buf) \<leftarrow> gunzip_buf lib packed;
          if e \<noteq> 0 then Some None else map_option fst (tl_deserialize (l_table lib) buf)
        }
      | Some _ \<Rightarrow> Some None)"

section \<open>Lemmas\<close>

lemma xor_eq_zero: "a XOR b = 0 \<longleftrightarrow> a = (b :: 'a::len word)"
  by (metis xor.assoc xor.right_neutral xor_self_eq)

lemma xorshift_right_inj:
  fixes x y :: "'a::len word"
  assumes "0 < k" and "x XOR drop_bit k x = y XOR drop_bit k y"
  shows "x = y"
proof -
  let ?z = "x XOR y"
  have "?z XOR drop_bit k ?z = (x XOR drop_bit k x) XOR (y XOR drop_bit k y)"
    by (rule bit_word_eqI) (auto simp: bit_simps)
  also have "\<dots> = 0" using assms(2) by simp
  finally have z: "?z = drop_bit k ?z" by (simp only: xor_eq_zero)
  have "unat ?z = unat ?z div 2 ^ k" by (subst (1) z) (simp only: unat_drop_bit_eq drop_bit_eq_div [where 'a = nat])
  then have "unat ?z = 0"
    using assms(1) by (metis div_less_dividend less_irrefl one_less_numeral_iff one_less_power semiring_norm(76) neq0_conv)
  then have "?z = 0" using unat_eq_zero [of ?z] by blast
  then show ?thesis by (simp add: xor_eq_zero)
qed


lemma xorshift_left_inj:
  fixes x y :: "'a::len word"
  assumes "0 < k" and "x XOR push_bit k x = y XOR push_bit k y"
  shows "x = y"
proof -
  let ?z = "x XOR y"
  have "?z XOR push_bit k ?z = (x XOR push_bit k x) XOR (y XOR push_bit k y)"
    by (rule bit_word_eqI) (auto simp: bit_simps)
  also have "\<dots> = 0" using assms(2) by simp
  finally have z: "?z = push_bit k ?z" by (simp only: xor_eq_zero)
  have "\<not> bit ?z n" for n
  proof (induction n rule: less_induct)
    case (less n)
    show ?case
    proof (cases "k \<le> n")
      case True
      then have "bit ?z n \<Longrightarrow> bit ?z (n - k)" by (subst (asm) z) (auto simp: bit_simps)
      with less [of "n - k"] True assms(1) show ?thesis by auto
    next
      case False
      then show ?thesis by (subst z) (simp add: bit_simps)
    qed
  qed
  then have "?z = 0" by (intro bit_word_eqI) simp
  then show ?thesis by (simp add: xor_eq_zero)
qed

definition hash_step :: "u64 \<Rightarrow> u32 \<Rightarrow> u64" where
  "hash_step h m = (case update_hash (Some h) m of Some h' \<Rightarrow> h' | None \<Rightarrow> h)"

lemma hash_step_inj: "hash_step h m = hash_step h' m \<Longrightarrow> h = h'"
proof -
  assume a: "hash_step h m = hash_step h' m"
  let ?f = "\<lambda>x :: u64. x XOR drop_bit 21 x" and ?g = "\<lambda>x :: u64. x XOR push_bit 35 x"
  let ?k = "\<lambda>x :: u64. x XOR drop_bit 4 x"
  have "?k (?g (?f h)) = ?k (?g (?f h'))" using a by (simp add: hash_step_def update_hash_def Let_def)
  then have "?g (?f h) = ?g (?f h')" by (rule xorshift_right_inj [rotated]) simp
  then have "?f h = ?f h'" by (rule xorshift_left_inj [rotated]) simp
  then show ?thesis by (rule xorshift_right_inj [rotated]) simp
qed

lemma hash_step_inj_id: "hash_step h m = hash_step h m' \<Longrightarrow> m = m'"
proof -
  assume "hash_step h m = hash_step h m'"
  then have "(ucast m :: u64) = ucast m'" by (simp add: hash_step_def update_hash_def Let_def)
  moreover have "ucast (ucast x :: u64) = x" for x :: u32
    by (rule bit_word_eqI) (auto simp: bit_simps)
  ultimately show ?thesis by metis
qed

lemma fold_hash_inj: "foldl hash_step h ms = foldl hash_step h' ms \<Longrightarrow> h = h'"
  by (induction ms arbitrary: h h') (auto dest: hash_step_inj)

text \<open>What the code relies on of zlib: \<open>data\<close> is a stream of the bytes \<open>out\<close>.\<close>

definition inflates :: "lib \<Rightarrow> byte list \<Rightarrow> byte list \<Rightarrow> bool" where
  "inflates lib data out \<longleftrightarrow> z_init lib = 0 \<and>
     (\<forall>avail. z_inflate lib data avail =
        (if length out \<le> avail then (1, out) else (- 5, take avail out)))"

section \<open>What the operations promise\<close>

text \<open>
  The hash of a message list loses nothing: no two lists that differ in one
  identifier only have the same hash, whatever the identifiers before and after.
\<close>

theorem update_hash_distinguishes:
  "foldl hash_step h (xs @ a # ys) = foldl hash_step h (xs @ b # ys) \<longleftrightarrow> a = b"
proof
  assume "foldl hash_step h (xs @ a # ys) = foldl hash_step h (xs @ b # ys)"
  then have "foldl hash_step (hash_step (foldl hash_step h xs) a) ys =
             foldl hash_step (hash_step (foldl hash_step h xs) b) ys" by simp
  then have "hash_step (foldl hash_step h xs) a = hash_step (foldl hash_step h xs) b"
    by (rule fold_hash_inj)
  then show "a = b" by (rule hash_step_inj_id)
qed simp

text \<open>
  Unpacking succeeds exactly when the unpacked data fits in ten times the packed size
  (and at least 1024 bytes), and then yields the data; a better compressed object is
  refused with zlib's buffer error.
\<close>

theorem gunzip_ratio:
  assumes "inflates lib (bytes src) out" and "readable src" and "unat (bsize src) < 2 ^ 28"
  shows "\<exists>d. gunzip_buf lib src =
           Some (if length out \<le> max BUFSIZ (10 * unat (bsize src)) then 0 else - 5, d) \<and>
         (length out \<le> max BUFSIZ (10 * unat (bsize src)) \<longrightarrow> readable d \<and> bytes d = out)"
proof -
  let ?n = "unat (bsize src)" and ?c = "max BUFSIZ (10 * unat (bsize src))"
  have n10: "unat (bsize src * 10) = 10 * ?n" using assms(3) by (simp add: unat_word_ariths)
  have fc: "fits ?c" using assms(3) by (simp add: fits_def BUFSIZ_def)
  have rs: "map_option snd (buf_realloc malloc_ok (mkbuf []) (bsize src * 10)) =
     Some \<lparr>bblk = replicate (Suc ?c) 0, bdata = 0, bsize = 0, basize = of_nat ?c\<rparr>"
    using reserve_mkbuf [of "bsize src * 10" "[]"] assms(3) n10 by (simp add: realloc_reserve fits_def)
  have cp: "copy_loop (length o') (replicate (Suc ?c) 0) 0 o' 0 = Some (o' @ replicate (Suc ?c - length o') 0)"
    if "length o' \<le> ?c" for o' :: "byte list"
    using that by (subst copy_loop_eq) (auto simp del: replicate_Suc)
  have z: "z_init lib = 0" "z_inflate lib (bytes src) ?c = (if length out \<le> ?c then (1, out) else (- 5, take ?c out))"
    using assms(1) by (auto simp: inflates_def)
  show ?thesis
  proof (cases "length out \<le> ?c")
    case True
    let ?d = "\<lparr>bblk = out @ replicate (Suc ?c - length out) 0, bdata = 0, bsize = of_nat (length out), basize = of_nat ?c\<rparr>"
    have fo: "fits (length out)" using fc True by (rule fits_mono)
    have "gunzip_buf lib src = Some (0, ?d)"
      using True z cp [OF True] assms(2) fc
      by (simp add: gunzip_buf_def buf_init_ok mem_read_bytes rs del: replicate_Suc)
    moreover have "readable ?d" "bytes ?d = out" using fo by (simp_all add: readable_def bytes_def [of ?d])
    ultimately show ?thesis using True by auto
  next
    case False
    have l: "length (take ?c out) \<le> ?c" by simp
    have "\<exists>d. gunzip_buf lib src = Some (- 5, d)"
      using False z cp [OF l] assms(2) fc
      by (simp add: gunzip_buf_def buf_init_ok mem_read_bytes rs del: replicate_Suc length_take)
    then show ?thesis using False by auto
  qed
qed


theorem gunzip_ratio_witness:
  "let lib = \<lparr>z_init = 0, z_inflate = (\<lambda>x avail. if length [7, 8, 9 :: byte] \<le> avail then (1, [7, 8, 9]) else (- 5, take avail [7, 8, 9])),
              l_table = [], l_name = (\<lambda>k. [])\<rparr> in
   \<exists>d. gunzip_buf lib (mkbuf [1, 2]) =
         Some (if length [7, 8, 9 :: byte] \<le> max BUFSIZ (10 * unat (bsize (mkbuf [1, 2]))) then 0 else - 5, d) \<and>
       (length [7, 8, 9 :: byte] \<le> max BUFSIZ (10 * unat (bsize (mkbuf [1, 2]))) \<longrightarrow> readable d \<and> bytes d = [7, 8, 9])"
  unfolding Let_def
  by (rule gunzip_ratio) (simp_all add: inflates_def fits_def)

text \<open>
  A new client starts on the stored address or the default one, on the default port,
  with an empty acknowledgement list and the sequence counter at zero; with a stored key
  it knows the key's identifier, the lower half-word of SHA-1 that the encryption layer
  puts in front of every message.
\<close>

theorem tg_new_initial:
  assumes "db_init db = 0" and "\<And>i. mtx i = 0" and "crypto_ok env" and "readable (db_key db)"
  shows "\<exists>tg. tg_new env db mtx (Some path) ident apiId apiHash pem = Some (Some tg) \<and>
     tg_ip tg = take 15 (case db_ip db of Some ip \<Rightarrow> ip | None \<Rightarrow> SERVER_IP) \<and> tg_port tg = 443 \<and>
     tg_seqn tg = 0 \<and> tg_msgids tg = [] \<and> tg_todrop tg = [] \<and> tg_key tg = db_key db \<and>
     (bsize (db_key db) \<noteq> 0 \<longrightarrow> le_bytes 8 (tg_key_id tg) = mt_auth_key_id env (bytes (db_key db)))"
proof -
  have l: "length (e_sha1 env xs) = 20" for xs using assms(3) by (simp add: crypto_ok_def)
  let ?id = "mt_auth_key_id env (bytes (db_key db))"
  have a: "buf_add (bblk (mkbuf (e_sha1 env (bytes (db_key db))))) 12 8 = Some (mkbuf ?id)"
    by (simp add: part_simps l mt_auth_key_id_def)
  have g: "buf_get_ui64 (mkbuf ?id) = Some (le_val ?id)"
    using load_rest(2) [of "mkbuf ?id"] assms(3) by (simp add: buf_get_ui64_def rest_mkbuf)
  have i: "le_bytes 8 (le_val ?id :: u64) = ?id"
    using le_bytes_le_val [of ?id, where 'a = 64] assms(3) by simp
  show ?thesis
    using assms sha1_eq [OF assms(3,4)] a g i
    by (simp add: tg_new_def tg_zero_def strncpy_def SERVER_PORT_def Let_def)
qed

theorem tg_new_initial_witness:
  "let db = \<lparr>db_init = 0, db_ip = None, db_key = mkbuf [1, 2]\<rparr> in
   \<exists>tg. tg_new sample_env db (\<lambda>i. 0) (Some ''tg.db'') 1 2 ''hash'' ''pem'' = Some (Some tg) \<and>
     tg_ip tg = take 15 (case db_ip db of Some ip \<Rightarrow> ip | None \<Rightarrow> SERVER_IP) \<and> tg_port tg = 443 \<and>
     tg_seqn tg = 0 \<and> tg_msgids tg = [] \<and> tg_todrop tg = [] \<and> tg_key tg = db_key db \<and>
     (bsize (db_key db) \<noteq> 0 \<longrightarrow> le_bytes 8 (tg_key_id tg) = mt_auth_key_id sample_env (bytes (db_key db)))"
  unfolding Let_def
  by (rule tg_new_initial) (simp_all add: fits_def)

end
