(* ===== verification/List_H.thy ===== *)
theory List_H
  imports Prelude
begin

text \<open>
  The linked list of \<^verbatim>\<open>libtg/tg/list.h\<close>, on the level of its cells and pointers, the
  interface its clients use (\<open>item_list\<close>), and the two implementations of that interface:
  the cells, and the plain list that the queue model works with.
\<close>

section \<open>The interface\<close>

text \<open>The first item that satisfies a test, and the list without it.\<close>

fun cut_first :: "('a \<Rightarrow> bool) \<Rightarrow> 'a list \<Rightarrow> 'a option \<times> 'a list" where
  "cut_first P [] = (None, [])"
| "cut_first P (x # xs) = (if P x then (Some x, xs) else apsnd ((#) x) (cut_first P xs))"

lemma cut_first_None: "fst (cut_first P xs) = None \<longleftrightarrow> (\<forall>x \<in> set xs. \<not> P x)"
  by (induction xs) auto

lemma cut_first_absent: "(\<forall>x \<in> set xs. \<not> P x) \<Longrightarrow> cut_first P xs = (None, xs)"
  by (induction xs) auto

lemma cut_first_split:
  "cut_first P xs = (Some x, ys) \<Longrightarrow> \<exists>as bs. xs = as @ x # bs \<and> ys = as @ bs \<and> P x \<and> (\<forall>a \<in> set as. \<not> P a)"
proof (induction xs arbitrary: ys)
  case (Cons a xs)
  show ?case
  proof (cases "P a")
    case True
    with Cons.prems show ?thesis by (intro exI [of _ "[]"] exI [of _ xs]) auto
  next
    case False
    with Cons.prems obtain zs where z: "cut_first P xs = (Some x, zs)" "ys = a # zs"
      by (cases "cut_first P xs") auto
    from Cons.IH [OF z(1)] obtain as bs where
      "xs = as @ x # bs" "zs = as @ bs" "P x" "\<forall>a \<in> set as. \<not> P a" by blast
    with False z(2) show ?thesis by (intro exI [of _ "a # as"] exI [of _ bs]) auto
  qed
qed simp

locale item_list =
  fixes alpha :: "'s \<Rightarrow> 'a list" and inv :: "'s \<Rightarrow> bool"
    and add :: "'s \<Rightarrow> 'a \<Rightarrow> 's" and cut :: "('a \<Rightarrow> bool) \<Rightarrow> 's \<Rightarrow> ('a option \<times> 's) option"
  assumes add_law: "inv s \<Longrightarrow> inv (add s x) \<and> alpha (add s x) = x # alpha s"
    and cut_law: "inv s \<Longrightarrow> \<exists>r s'. cut P s = Some (r, s') \<and> inv s' \<and> (r, alpha s') = cut_first P (alpha s)"
begin

text \<open>The last item added comes first.\<close>

lemma cut_add:
  assumes "inv s" and "P x"
  shows "\<exists>s'. cut P (add s x) = Some (Some x, s') \<and> inv s' \<and> alpha s' = alpha s"
proof -
  obtain r s' where "cut P (add s x) = Some (r, s')" "inv s'" "(r, alpha s') = cut_first P (alpha (add s x))"
    using cut_law add_law [OF assms(1)] by blast
  with add_law [OF assms(1), of x] assms(2) show ?thesis by auto
qed

text \<open>An item that is the only one to satisfy the test can be cut once and not twice.\<close>

lemma cut_once:
  assumes "inv s" and "cut P s = Some (Some x, s')" and "length (filter P (alpha s)) = 1"
  shows "inv s' \<and> (\<exists>s''. cut P s' = Some (None, s'') \<and> alpha s'' = alpha s')"
proof -
  obtain as bs where i: "inv s'" "alpha s = as @ x # bs" "alpha s' = as @ bs" "P x"
    using cut_law [OF assms(1), of P] assms(2) cut_first_split [of P "alpha s" x "alpha s'"] by fastforce
  with assms(3) have "\<forall>y \<in> set (alpha s'). \<not> P y" by (auto simp: filter_empty_conv)
  with cut_law [OF i(1), of P] cut_first_absent [of "alpha s'" P] i(1) show ?thesis by auto
qed

text \<open>What is not tested stays.\<close>

lemma cut_keeps:
  assumes "inv s" and "cut P s = Some (r, s')" and "\<not> P y"
  shows "y \<in> set (alpha s') \<longleftrightarrow> y \<in> set (alpha s)"
proof -
  have c: "(r, alpha s') = cut_first P (alpha s)" using cut_law [OF assms(1), of P] assms(2) by auto
  show ?thesis
  proof (cases r)
    case None
    with c have "fst (cut_first P (alpha s)) = None" by (metis fst_conv)
    then have "cut_first P (alpha s) = (None, alpha s)"
      using cut_first_None [of P "alpha s"] by (intro cut_first_absent) simp
    with c show ?thesis by simp
  next
    case (Some x)
    with c cut_first_split [of P "alpha s" x "alpha s'"] assms(3) show ?thesis by auto
  qed
qed

end

section \<open>Cells and pointers\<close>

text \<open>The field \<^verbatim>\<open>prev\<close> of a cell leads to the item added before.  \<^term>\<open>None\<close> is \<^verbatim>\<open>NULL\<close>.\<close>

record 'a cell =
  prev :: "nat option"
  data :: 'a

type_synonym 'a lheap = "nat \<Rightarrow> 'a cell option"

text \<open>\<open>a\<close> is the result of \<^verbatim>\<open>malloc\<close>.\<close>

definition list_add :: "nat option \<Rightarrow> 'a lheap \<Rightarrow> nat option \<Rightarrow> 'a \<Rightarrow> int \<times> 'a lheap \<times> nat option" where
  "list_add a h listp item =
     (case a of None \<Rightarrow> (1, h, listp)
      | Some n \<Rightarrow> (0, h(n \<mapsto> \<lparr>prev = listp, data = item\<rparr>), Some n))"

text \<open>The loop of \<^verbatim>\<open>list_cut\<close>; on a cyclic list without a match it does not return.\<close>

partial_function (option) cut_loop ::
  "('a \<Rightarrow> bool) \<Rightarrow> 'a lheap \<Rightarrow> nat option \<Rightarrow> nat option \<Rightarrow> nat option \<Rightarrow> ('a option \<times> 'a lheap \<times> nat option) option"
where
  "cut_loop cmp h listp pr l =
     (case l of None \<Rightarrow> Some (None, h, listp)
      | Some a \<Rightarrow> (case h a of None \<Rightarrow> None
        | Some c \<Rightarrow>
            (if cmp (data c) then
               (case pr of
                  Some p \<Rightarrow> (case h p of None \<Rightarrow> None
                    | Some pc \<Rightarrow> Some (Some (data c), (h(p \<mapsto> pc\<lparr>prev := prev c\<rparr>))(a := None), listp))
                | None \<Rightarrow> Some (Some (data c), h(a := None), prev c))
             else cut_loop cmp h listp (Some a) (prev c))))"

definition list_cut :: "('a \<Rightarrow> bool) \<Rightarrow> 'a lheap \<Rightarrow> nat option \<Rightarrow> ('a option \<times> 'a lheap \<times> nat option) option" where
  "list_cut cmp h listp = cut_loop cmp h listp None listp"

partial_function (option) list_free :: "'a lheap \<Rightarrow> nat option \<Rightarrow> ('a lheap \<times> nat option) option" where
  "list_free h l =
     (case l of None \<Rightarrow> Some (h, None)
      | Some a \<Rightarrow> (case h a of None \<Rightarrow> None | Some c \<Rightarrow> list_free (h(a := None)) (prev c)))"

text \<open>The items in the order in which \<^verbatim>\<open>list_for_each\<close> visits them.\<close>

partial_function (option) list_items :: "'a lheap \<Rightarrow> nat option \<Rightarrow> 'a list option" where
  "list_items h l =
     (case l of None \<Rightarrow> Some []
      | Some a \<Rightarrow> (case h a of None \<Rightarrow> None
        | Some c \<Rightarrow> do { is \<leftarrow> list_items h (prev c); Some (data c # is) }))"

section \<open>Chains\<close>

text \<open>The cells behind a pointer, with their addresses.\<close>

fun chain :: "'a lheap \<Rightarrow> nat option \<Rightarrow> (nat \<times> 'a) list \<Rightarrow> bool" where
  "chain h p [] \<longleftrightarrow> p = None"
| "chain h p ((a, x) # cs) \<longleftrightarrow> p = Some a \<and> (\<exists>q. h a = Some \<lparr>prev = q, data = x\<rparr> \<and> chain h q cs)"

lemma chain_frame: "a \<notin> fst ` set cs \<Longrightarrow> chain (h(a := v)) p cs = chain h p cs"
  by (induction h p cs rule: chain.induct) auto

lemma chain_eq: "(\<And>a. a \<in> fst ` set cs \<Longrightarrow> h' a = h a) \<Longrightarrow> chain h' p cs = chain h p cs"
  by (induction h p cs rule: chain.induct) auto

text \<open>From the second cell on: the cell before the one that is cut is relinked.\<close>

lemma cut_loop_tail:
  assumes "chain h (Some p) ((p, d) # cs)" and "distinct (p # map fst cs)" and "h p = Some \<lparr>prev = q, data = d\<rparr>"
  shows "\<exists>r h' cs'. cut_loop P h lp (Some p) q = Some (r, h', lp) \<and> chain h' (Some p) ((p, d) # cs') \<and>
     (r, map snd cs') = cut_first P (map snd cs) \<and> fst ` set cs' \<subseteq> fst ` set cs \<and> distinct (map fst cs') \<and>
     (\<forall>a. a \<notin> insert p (fst ` set cs) \<longrightarrow> h' a = h a)"
  using assms
proof (induction cs arbitrary: p d q)
  case Nil
  then show ?case by (intro exI [of _ None] exI [of _ h] exI [of _ "[]"]) (simp add: cut_loop.simps)
next
  case (Cons c cs)
  obtain a x where c: "c = (a, x)" by (cases c)
  from Cons.prems obtain q' where q: "q = Some a" "h a = Some \<lparr>prev = q', data = x\<rparr>" "chain h q' cs"
    by (auto simp: c)
  show ?case
  proof (cases "P x")
    case True
    let ?h = "(h(p \<mapsto> \<lparr>prev = q', data = d\<rparr>))(a := None)"
    have "chain ?h q' cs" using Cons.prems(2) q(3) by (simp add: c chain_frame)
    then have "chain ?h (Some p) ((p, d) # cs)" using Cons.prems(2) by (simp add: c)
    moreover have "cut_loop P h lp (Some p) q = Some (Some x, ?h, lp)"
      using q True Cons.prems(3) by (subst cut_loop.simps) simp
    moreover have "\<forall>b. b \<notin> {p, a} \<longrightarrow> ?h b = h b" by simp
    ultimately obtain h2 where "cut_loop P h lp (Some p) q = Some (Some x, h2, lp)"
      "chain h2 (Some p) ((p, d) # cs)" "\<forall>b. b \<notin> {p, a} \<longrightarrow> h2 b = h b" by blast
    then show ?thesis
      using True Cons.prems(2)
      by (intro exI [of _ "Some x"] exI [of _ h2] exI [of _ cs]) (auto simp: c)
  next
    case False
    have "cut_loop P h lp (Some p) q = cut_loop P h lp (Some a) q'"
      using q False by (subst cut_loop.simps) simp
    moreover obtain r h' cs' where IH:
      "cut_loop P h lp (Some a) q' = Some (r, h', lp)" "chain h' (Some a) ((a, x) # cs')"
      "(r, map snd cs') = cut_first P (map snd cs)" "fst ` set cs' \<subseteq> fst ` set cs" "distinct (map fst cs')"
      "\<forall>b. b \<notin> insert a (fst ` set cs) \<longrightarrow> h' b = h b"
      using Cons.IH [of a x q'] Cons.prems(2) q by (auto simp: c)
    moreover have "h' p = h p" using IH(6) Cons.prems(2) by (auto simp: c)
    then have "chain h' (Some p) ((p, d) # (a, x) # cs')"
      using IH(2) Cons.prems(3) q(1) by simp
    moreover have "(r, map snd ((a, x) # cs')) = cut_first P (map snd (c # cs))"
      using False IH(3) by (cases "cut_first P (map snd cs)") (simp add: c)
    ultimately show ?thesis
      using Cons.prems(2) by (intro exI [of _ r] exI [of _ h'] exI [of _ "(a, x) # cs'"]) (auto simp: c)
  qed
qed

lemma list_cut_chain:
  assumes "chain h l cs" and "distinct (map fst cs)"
  shows "\<exists>r h' l' cs'. list_cut P h l = Some (r, h', l') \<and> chain h' l' cs' \<and>
     (r, map snd cs') = cut_first P (map snd cs) \<and> fst ` set cs' \<subseteq> fst ` set cs \<and> distinct (map fst cs') \<and>
     (\<forall>a. a \<notin> fst ` set cs \<longrightarrow> h' a = h a)"
proof (cases cs)
  case Nil
  with assms show ?thesis
    by (intro exI [of _ None] exI [of _ h] exI [of _ None] exI [of _ "[]"]) (simp add: list_cut_def cut_loop.simps)
next
  case (Cons c cs1)
  obtain a x where c: "c = (a, x)" by (cases c)
  with assms Cons obtain q where q: "l = Some a" "h a = Some \<lparr>prev = q, data = x\<rparr>" "chain h q cs1" by auto
  show ?thesis
  proof (cases "P x")
    case True
    have "chain (h(a := None)) q cs1" using assms(2) q(3) Cons c by (simp add: chain_frame)
    moreover have "list_cut P h l = Some (Some x, h(a := None), q)"
      using q True by (simp add: list_cut_def cut_loop.simps)
    ultimately show ?thesis
      using True assms(2) Cons c
      by (intro exI [of _ "Some x"] exI [of _ "h(a := None)"] exI [of _ q] exI [of _ cs1]) auto
  next
    case False
    have "list_cut P h l = cut_loop P h l (Some a) q"
      using q False by (simp add: list_cut_def cut_loop.simps [of _ _ _ None])
    moreover have "chain h (Some a) ((a, x) # cs1)" using q by simp
    with assms(2) q(2) Cons c obtain r h' cs' where
      "cut_loop P h l (Some a) q = Some (r, h', l)" "chain h' (Some a) ((a, x) # cs')"
      "(r, map snd cs') = cut_first P (map snd cs1)" "fst ` set cs' \<subseteq> fst ` set cs1" "distinct (map fst cs')"
      "\<forall>b. b \<notin> insert a (fst ` set cs1) \<longrightarrow> h' b = h b"
      using cut_loop_tail [of h a x cs1 q P l] by auto
    moreover from this have "(r, map snd ((a, x) # cs')) = cut_first P (map snd cs)"
      using False Cons c by (cases "cut_first P (map snd cs1)") simp
    ultimately show ?thesis
      using q(1) assms(2) Cons c
      by (intro exI [of _ r] exI [of _ h'] exI [of _ l] exI [of _ "(a, x) # cs'"]) auto
  qed
qed


section \<open>The two implementations\<close>

text \<open>
  The pointer structure with an allocator that hands out addresses in order: the heap,
  the head and the next free address.
\<close>

type_synonym 'a plist = "'a lheap \<times> nat option \<times> nat"

definition plist_items :: "'a plist \<Rightarrow> 'a list" where
  "plist_items s = (case s of (h, l, n) \<Rightarrow> (case list_items h l of Some is \<Rightarrow> is | None \<Rightarrow> []))"

definition plist_inv :: "'a plist \<Rightarrow> bool" where
  "plist_inv s = (case s of (h, l, n) \<Rightarrow> \<exists>cs. chain h l cs \<and> distinct (map fst cs) \<and> (\<forall>a \<in> fst ` set cs. a < n))"

definition plist_add :: "'a plist \<Rightarrow> 'a \<Rightarrow> 'a plist" where
  "plist_add s x = (case s of (h, l, n) \<Rightarrow> (case list_add (Some n) h l x of (_, h', l') \<Rightarrow> (h', l', Suc n)))"

definition plist_cut :: "('a \<Rightarrow> bool) \<Rightarrow> 'a plist \<Rightarrow> ('a option \<times> 'a plist) option" where
  "plist_cut P s = (case s of (h, l, n) \<Rightarrow> map_option (\<lambda>(r, h', l'). (r, h', l', n)) (list_cut P h l))"

lemma list_items_chain: "chain h l cs \<Longrightarrow> list_items h l = Some (map snd cs)"
  by (induction h l cs rule: chain.induct) (auto simp: list_items.simps)

interpretation plist: item_list plist_items plist_inv plist_add plist_cut
proof
  fix s :: "'a plist" and x :: 'a
  assume i: "plist_inv s"
  obtain h l n where s: "s = (h, l, n)" by (cases s)
  from i obtain cs where cs: "chain h l cs" "distinct (map fst cs)" "\<forall>a \<in> fst ` set cs. a < n"
    by (auto simp: plist_inv_def s)
  have "n \<notin> fst ` set cs" using cs(3) by auto
  then have c: "chain (h(n \<mapsto> \<lparr>prev = l, data = x\<rparr>)) (Some n) ((n, x) # cs)" "distinct (map fst ((n, x) # cs))"
    using cs by (simp_all add: chain_frame)
  moreover have "\<forall>a \<in> fst ` set ((n, x) # cs). a < Suc n" using cs(3) by auto
  ultimately have "\<exists>cs. chain (h(n \<mapsto> \<lparr>prev = l, data = x\<rparr>)) (Some n) cs \<and> distinct (map fst cs) \<and>
      (\<forall>a \<in> fst ` set cs. a < Suc n)" by blast
  then have "plist_inv (plist_add s x)"
    by (simp add: plist_inv_def plist_add_def s list_add_def)
  moreover have "plist_items (plist_add s x) = x # plist_items s"
    using list_items_chain [OF c(1)] list_items_chain [OF cs(1)]
    by (simp add: plist_items_def plist_add_def s list_add_def)
  ultimately show "plist_inv (plist_add s x) \<and> plist_items (plist_add s x) = x # plist_items s" ..
next
  fix s :: "'a plist" and P
  assume i: "plist_inv s"
  obtain h l n where s: "s = (h, l, n)" by (cases s)
  from i obtain cs where cs: "chain h l cs" "distinct (map fst cs)" "\<forall>a \<in> fst ` set cs. a < n"
    by (auto simp: plist_inv_def s)
  from list_cut_chain [OF cs(1,2), of P] obtain r h' l' cs' where
    c: "list_cut P h l = Some (r, h', l')" "chain h' l' cs'" "(r, map snd cs') = cut_first P (map snd cs)"
       "fst ` set cs' \<subseteq> fst ` set cs" "distinct (map fst cs')" by blast
  have "\<forall>a \<in> fst ` set cs'. a < n" using c(4) cs(3) by blast
  with c(2,5) have "plist_inv (h', l', n)" by (auto simp: plist_inv_def)
  then show "\<exists>r s'. plist_cut P s = Some (r, s') \<and> plist_inv s' \<and> (r, plist_items s') = cut_first P (plist_items s)"
    using c list_items_chain [OF c(2)] list_items_chain [OF cs(1)]
    by (intro exI [of _ r] exI [of _ "(h', l', n)"]) (simp add: plist_cut_def s plist_items_def)
qed

text \<open>The plain list.\<close>

definition qlist_add :: "'a list \<Rightarrow> 'a \<Rightarrow> 'a list" where
  "qlist_add xs x = x # xs"

definition qlist_cut :: "('a \<Rightarrow> bool) \<Rightarrow> 'a list \<Rightarrow> ('a option \<times> 'a list) option" where
  "qlist_cut P xs = Some (cut_first P xs)"

interpretation qlist: item_list "\<lambda>xs. xs" "\<lambda>xs. True" qlist_add qlist_cut
proof
  fix s :: "'a list" and P
  show "\<exists>r s'. qlist_cut P s = Some (r, s') \<and> True \<and> (r, s') = cut_first P s"
    by (cases "cut_first P s") (simp add: qlist_cut_def)
qed (simp add: qlist_add_def)

section \<open>What the list promises\<close>

lemma list_free_chain:
  assumes "chain h l cs" and "distinct (map fst cs)"
  shows "\<exists>h'. list_free h l = Some (h', None) \<and> (\<forall>a \<in> fst ` set cs. h' a = None) \<and>
              (\<forall>a. a \<notin> fst ` set cs \<longrightarrow> h' a = h a)"
  using assms
proof (induction cs arbitrary: h l)
  case Nil
  then show ?case by (simp add: list_free.simps)
next
  case (Cons c cs)
  obtain a x where c: "c = (a, x)" by (cases c)
  with Cons.prems obtain q where q: "l = Some a" "h a = Some \<lparr>prev = q, data = x\<rparr>" "chain h q cs" by auto
  then have "chain (h(a := None)) q cs" using Cons.prems(2) by (simp add: c chain_frame)
  moreover have "distinct (map fst cs)" using Cons.prems(2) by simp
  ultimately obtain h' where
    "list_free (h(a := None)) q = Some (h', None)" "\<forall>b \<in> fst ` set cs. h' b = None"
    "\<forall>b. b \<notin> fst ` set cs \<longrightarrow> h' b = (h(a := None)) b" using Cons.IH by blast
  moreover have "list_free h l = list_free (h(a := None)) q" using q by (subst list_free.simps) simp
  ultimately show ?case using Cons.prems(2) by (intro exI [of _ h']) (auto simp: c)
qed

text \<open>
  Removing from the linked list, cells and pointers included: on a well-formed list
  \<^verbatim>\<open>list_cut\<close> returns, unlinks exactly the first item that matches, keeps the others in
  their order, and leaves every cell outside the list alone.
\<close>

theorem list_cut_unlinks_first:
  assumes "chain h l cs" and "distinct (map fst cs)"
  shows "\<exists>r h' l' cs'. list_cut cmp h l = Some (r, h', l') \<and> chain h' l' cs' \<and> distinct (map fst cs') \<and>
     (r, map snd cs') = cut_first cmp (map snd cs) \<and> (\<forall>a. a \<notin> fst ` set cs \<longrightarrow> h' a = h a)"
  using list_cut_chain [OF assms] by metis

theorem list_cut_unlinks_first_witness:
  "\<exists>r h' l' cs'. list_cut (\<lambda>x. x = (5 :: nat)) [3 \<mapsto> \<lparr>prev = Some 1, data = 4\<rparr>, 1 \<mapsto> \<lparr>prev = None, data = 5\<rparr>] (Some 3) = Some (r, h', l') \<and>
     chain h' l' cs' \<and> distinct (map fst cs') \<and>
     (r, map snd cs') = cut_first (\<lambda>x. x = 5) (map snd [(3 :: nat, 4), (1, 5)]) \<and>
     (\<forall>a. a \<notin> fst ` set [(3 :: nat, 4 :: nat), (1, 5)] \<longrightarrow> h' a = ([3 \<mapsto> \<lparr>prev = Some 1, data = 4\<rparr>, 1 \<mapsto> \<lparr>prev = None, data = 5\<rparr>] a))"
  by (rule list_cut_unlinks_first) simp_all

text \<open>
  The interface the queue relies on, for the pointer structure: an item just added is
  the one found, and taking it out again restores the list; an item that is the only
  match is found once and not a second time.
\<close>

theorem plist_add_cut:
  assumes "plist_inv s" and "P x" and "\<forall>y \<in> set (plist_items s). \<not> P y"
  shows "\<exists>s'. plist_cut P (plist_add s x) = Some (Some x, s') \<and> plist_items s' = plist_items s \<and>
              (\<exists>s''. plist_cut P s' = Some (None, s''))"
proof -
  obtain s' where s: "plist_cut P (plist_add s x) = Some (Some x, s')" "plist_items s' = plist_items s"
    using plist.cut_add [OF assms(1), of P x] assms(2) by blast
  have a: "plist_inv (plist_add s x)" "plist_items (plist_add s x) = x # plist_items s"
    using plist.add_law [OF assms(1), of x] by auto
  then have "length (filter P (plist_items (plist_add s x))) = 1"
    using assms(2,3) by (simp add: filter_empty_conv)
  from plist.cut_once [OF a(1) s(1) this] s show ?thesis by blast
qed

theorem plist_add_cut_witness:
  "\<exists>s'. plist_cut (\<lambda>x. x = (5 :: nat)) (plist_add (Map.empty, None, 0) 5) = Some (Some 5, s') \<and>
        plist_items s' = plist_items (Map.empty, None, 0) \<and>
        (\<exists>s''. plist_cut (\<lambda>x. x = 5) s' = Some (None, s''))"
  by (rule plist_add_cut) (simp_all add: plist_inv_def plist_items_def list_items.simps exI [of _ "[]"])

end
