(* ===== verification/Queue.thy ===== *)
theory Queue
  imports Tg_Core List_H
begin

text \<open>
  The query queue, \<^verbatim>\<open>libtg/tg/queue.c\<close>: a query is a struct on the heap with a thread of its
  own that sends it, receives packets and hands every object to the query it answers.
  The structs live in a store under their addresses, because the list \<^verbatim>\<open>tg->queue\<close>, the
  threads and the handlers share them; callbacks, database writes, sockets and threads
  appear as events in a trace.  A result \<^term>\<open>None\<close> is undefined behaviour, a call that
  blocks, or fuel that did not suffice.
\<close>

section \<open>Structs, events, world\<close>

datatype tid = T_run nat | T_timer nat

text \<open>The callbacks of a query: none, one of the application, or \<^verbatim>\<open>tg_send_query_sync_cb\<close>.\<close>

datatype callback = No_cb | User_cb | Sync_cb

record queue =
  q_ip :: string
  q_port :: int
  q_p :: "tid option"
  q_socket :: int
  q_loop :: bool
  q_multithread :: bool
  q_query :: buf
  q_msgid :: u64
  q_on_done :: callback
  q_progress :: "(u32 \<Rightarrow> u32 \<Rightarrow> int) option"

datatype event =
    Done nat "tl option"          \<comment> \<open>\<^verbatim>\<open>on_done\<close> of the query at that address\<close>
  | Updated tl                    \<comment> \<open>\<^verbatim>\<open>tg_do_updates\<close>\<close>
  | Sleep int
  | Db_ip string                  \<comment> \<open>\<^verbatim>\<open>ip_address_to_database\<close>\<close>
  | Spawn tid
  | Send int "byte list"
  | Close int

record sys =
  s_tg :: tg
  s_heap :: "nat \<Rightarrow> queue option"
  s_next :: nat
  s_list :: "nat list"            \<comment> \<open>\<^verbatim>\<open>tg->queue\<close>, the last query added first\<close>
  s_trace :: "event list"

text \<open>What \<^verbatim>\<open>api.app.open\<close> of the key exchange leaves in \<^verbatim>\<open>shared_rc\<close>.\<close>

record shared_rc =
  rc_key :: "byte list"
  rc_salt :: "byte list"
  rc_sockfd :: int
  rc_seqnh :: u32

record world =
  w_env :: env
  w_lib :: lib
  w_lock :: "nat \<Rightarrow> bool"          \<comment> \<open>\<^verbatim>\<open>pthread_mutex_lock(&queue->lock)\<close> succeeds\<close>
  w_trylock :: "nat \<Rightarrow> bool"
  w_malloc :: bool
  w_mutex :: "nat \<Rightarrow> int"          \<comment> \<open>the two \<^verbatim>\<open>pthread_mutex_init\<close> of a new query\<close>
  w_thread :: int                  \<comment> \<open>\<^verbatim>\<open>pthread_create\<close> of its thread\<close>
  w_send :: "byte list \<Rightarrow> int"
  w_app :: "string \<Rightarrow> int \<Rightarrow> shared_rc"

definition emit :: "event \<Rightarrow> sys \<Rightarrow> sys" where
  "emit e s = s\<lparr>s_trace := s_trace s @ [e]\<rparr>"

definition set_queue :: "nat \<Rightarrow> (queue \<Rightarrow> queue) \<Rightarrow> sys \<Rightarrow> sys" where
  "set_queue a f s = s\<lparr>s_heap := (s_heap s)(a := map_option f (s_heap s a))\<rparr>"

definition set_tg :: "(tg \<Rightarrow> tg) \<Rightarrow> sys \<Rightarrow> sys" where
  "set_tg f s = s\<lparr>s_tg := f (s_tg s)\<rparr>"

section \<open>The list of queries\<close>

fun list_cut_msgid :: "(nat \<Rightarrow> queue option) \<Rightarrow> u64 \<Rightarrow> nat list \<Rightarrow> (nat option \<times> nat list) option" where
  "list_cut_msgid h mid [] = Some (None, [])"
| "list_cut_msgid h mid (a # as) =
     (case h a of None \<Rightarrow> None
      | Some q \<Rightarrow> (if mid = q_msgid q then Some (Some a, as)
                 else do { (r, as') \<leftarrow> list_cut_msgid h mid as; Some (r, a # as') }))"

definition tg_queue_cut :: "world \<Rightarrow> sys \<Rightarrow> u64 \<Rightarrow> (nat option \<times> sys) option" where
  "tg_queue_cut w s mid =
     (if \<not> e_lock (w_env w) Queue_lock then Some (None, s)
      else do {
        (r, l) \<leftarrow> list_cut_msgid (s_heap s) mid (s_list s);
        Some (r, s\<lparr>s_list := l\<rparr>)
      })"

definition tg_queue_add :: "world \<Rightarrow> sys \<Rightarrow> nat \<Rightarrow> sys" where
  "tg_queue_add w s a =
     (if \<not> e_lock (w_env w) Queue_lock then s else s\<lparr>s_list := qlist_add (s_list s) a\<rparr>)"

section \<open>New queries\<close>

text \<open>
  \<^verbatim>\<open>tg_queue_new\<close>: the struct, its copy of the query, its two threads.  The identifiers of
  both threads are stored in the same field \<^verbatim>\<open>p\<close>.
\<close>

definition tg_queue_new ::
  "world \<Rightarrow> sys \<Rightarrow> buf \<Rightarrow> string \<Rightarrow> int \<Rightarrow> bool \<Rightarrow> callback \<Rightarrow> (u32 \<Rightarrow> u32 \<Rightarrow> int) option \<Rightarrow> (nat option \<times> sys) option"
where
  "tg_queue_new w s query ip port multithread on_done progress =
     (if \<not> w_malloc w then Some (None, s)
      else if w_mutex w 0 \<noteq> 0 then Some (None, s)
      else if w_mutex w 1 \<noteq> 0 then Some (None, s)
      else do {
        q \<leftarrow> buf_add_buf query;
        let a = s_next s;
        let queue = \<lparr>q_ip = strncpy ip 15, q_port = port, q_p = None, q_socket = 0, q_loop = True,
                     q_multithread = multithread, q_query = q, q_msgid = 0,
                     q_on_done = on_done, q_progress = progress\<rparr>;
        let s = s\<lparr>s_heap := (s_heap s)(a \<mapsto> queue), s_next := Suc a\<rparr>;
        if w_thread w \<noteq> 0 then Some (None, s)
        else do {
          let s = emit (Spawn (T_run a)) (set_queue a (\<lambda>q. q\<lparr>q_p := Some (T_run a)\<rparr>) s);
          let s = emit (Spawn (T_timer a)) (set_queue a (\<lambda>q. q\<lparr>q_p := Some (T_timer a)\<rparr>) s);
          Some (Some a, s)
        }
      })"

definition flood_wait_for_seconds :: "world \<Rightarrow> sys \<Rightarrow> nat \<Rightarrow> int \<Rightarrow> sys option" where
  "flood_wait_for_seconds w s a seconds = do {
     q \<leftarrow> s_heap s a;
     let s = emit (Sleep seconds) s;
     (_, s) \<leftarrow> tg_queue_new w s (q_query q) (q_ip q) (q_port q) (q_multithread q) (q_on_done q) (q_progress q);
     Some s
   }"

definition migrate_to_dc :: "world \<Rightarrow> sys \<Rightarrow> nat \<Rightarrow> dc \<Rightarrow> string \<Rightarrow> sys option" where
  "migrate_to_dc w s a d err = do {
     q \<leftarrow> s_heap s a;
     let ip = (case tg_ip_address_for_dc (s_tg s) (dc_number d) of Some ip \<Rightarrow> ip | None \<Rightarrow> dc_ipv4 d);
     fm \<leftarrow> tg_error_file_migrate (Some err);
     let s = (if fm = None
              then emit (Db_ip ip) (set_tg (\<lambda>tg. tg_set_server_address (w_env w) tg ip (tg_port tg)) s)
              else s);
     (_, s) \<leftarrow> tg_queue_new w s (q_query q) ip (q_port q) (q_multithread q) (q_on_done q) (q_progress q);
     Some s
   }"

section \<open>Delivering an object\<close>

text \<open>
  Calling \<^verbatim>\<open>on_done\<close>.  \<^verbatim>\<open>tg_send_query_sync_cb\<close> deserialises a copy of the object from its
  buffer, which for \<^verbatim>\<open>NULL\<close> is an access through a null pointer.
\<close>

definition run_on_done :: "world \<Rightarrow> sys \<Rightarrow> nat \<Rightarrow> queue \<Rightarrow> tl option \<Rightarrow> sys option" where
  "run_on_done w s a q t =
     (case q_on_done q of
        No_cb \<Rightarrow> Some s
      | User_cb \<Rightarrow> Some (emit (Done a t) s)
      | Sync_cb \<Rightarrow> (case t of None \<Rightarrow> None
          | Some t \<Rightarrow> do { (t', _) \<leftarrow> tl_deserialize (l_table (w_lib w)) (tl_buf t); Some (emit (Done a t') s) }))"

definition stop_loop :: "nat \<Rightarrow> sys \<Rightarrow> sys" where
  "stop_loop a s = set_queue a (\<lambda>q. q\<lparr>q_loop := False\<rparr>) s"

text \<open>The new time correction, under the lock.\<close>

definition set_timediff :: "world \<Rightarrow> sys \<Rightarrow> sys" where
  "set_timediff w s =
     (if \<not> e_lock (w_env w) Seqnm then s else set_tg (\<lambda>tg. tg\<lparr>tg_timediff := ntp_time_diff\<rparr>) s)"

text \<open>The switch of \<^verbatim>\<open>catched_tl\<close> on the object, for the query \<open>q\<close> at \<open>a\<close>.\<close>

definition catched_obj :: "world \<Rightarrow> sys \<Rightarrow> nat \<Rightarrow> queue \<Rightarrow> tl \<Rightarrow> sys option" where
  "catched_obj w s a q t =
     (case t of
        Gzip_packed _ packed \<Rightarrow> do {
          (e, buf) \<leftarrow> gunzip_buf (w_lib w) packed;
          ttl \<leftarrow> (if e \<noteq> 0 then Some None else map_option fst (tl_deserialize (l_table (w_lib w)) buf));
          s \<leftarrow> run_on_done w s a q ttl;
          Some (stop_loop a s)
        }
      | Bad_msg_notification _ _ \<Rightarrow> do {
          _ \<leftarrow> tg_strerr (l_name (w_lib w)) (Some t);
          let s = set_timediff w s;
          s \<leftarrow> run_on_done w s a q None;
          Some (stop_loop a s)
        }
      | Rpc_error _ _ m \<Rightarrow> do {
          err \<leftarrow> RPC_ERROR m;
          dc \<leftarrow> tg_error_migrate (Some err);
          (case dc of
             Some d \<Rightarrow> do { s \<leftarrow> migrate_to_dc w s a d err; Some (stop_loop a s) }
           | None \<Rightarrow> do {
               wait \<leftarrow> tg_error_flood_wait (Some err);
               if wait \<noteq> 0 then do { s \<leftarrow> flood_wait_for_seconds w s a wait; Some (stop_loop a s) }
               else do {
                 _ \<leftarrow> tg_strerr (l_name (w_lib w)) (Some t);
                 s \<leftarrow> run_on_done w s a q (Some t);
                 Some (stop_loop a s)
               }
             })
        }
      | _ \<Rightarrow> do { s \<leftarrow> run_on_done w s a q (Some t); Some (stop_loop a s) })"

definition catched_tl :: "world \<Rightarrow> sys \<Rightarrow> u64 \<Rightarrow> tl option \<Rightarrow> sys option" where
  "catched_tl w s mid t = do {
     (r, s) \<leftarrow> tg_queue_cut w s mid;
     (case r of
        None \<Rightarrow> Some s
      | Some a \<Rightarrow> do {
          q \<leftarrow> s_heap s a;
          if \<not> q_loop q then Some s
          else if \<not> w_lock w a then Some s
          else (case t of
                  None \<Rightarrow> run_on_done w s a q None
                | Some t \<Rightarrow> catched_obj w s a q t)
        })
   }"

section \<open>Handling a received object\<close>

text \<open>
  \<open>handle_tl\<close> works for the query at \<open>a\<close> whose thread received the object.  Packed objects and
  containers are opened and their contents handled in turn, which is why it takes fuel:
  the nesting is the server's choice.
\<close>

fun handle_tl :: "nat \<Rightarrow> world \<Rightarrow> nat \<Rightarrow> sys \<Rightarrow> tl option \<Rightarrow> sys option"
  and handle_msgs :: "nat \<Rightarrow> world \<Rightarrow> nat \<Rightarrow> sys \<Rightarrow> mtp_message list \<Rightarrow> sys option"
where
  "handle_tl 0 w a s t = None"
| "handle_tl (Suc n) w a s None = Some s"
| "handle_tl (Suc n) w a s (Some t) =
     (case t of
        Gzip_packed _ packed \<Rightarrow> do {
          (e, buf) \<leftarrow> gunzip_buf (w_lib w) packed;
          (ttl, _) \<leftarrow> tl_deserialize (l_table (w_lib w)) buf;
          handle_tl n w a s ttl
        }
      | Msg_container _ ms \<Rightarrow> handle_msgs n w a s ms
      | Bad_msg_notification _ _ \<Rightarrow> do {
          _ \<leftarrow> tg_strerr (l_name (w_lib w)) (Some t);
          Some (set_timediff w s)
        }
      | Rpc_error _ _ m \<Rightarrow> do {
          err \<leftarrow> RPC_ERROR m;
          dc \<leftarrow> tg_error_migrate (Some err);
          (case dc of
             Some d \<Rightarrow> do { s \<leftarrow> migrate_to_dc w s a d err; Some (stop_loop a s) }
           | None \<Rightarrow> do {
               wait \<leftarrow> tg_error_flood_wait (Some err);
               if wait \<noteq> 0 then do { s \<leftarrow> flood_wait_for_seconds w s a wait; Some (stop_loop a s) }
               else Some s
             })
        }
      | Msg_detailed_info _ k \<Rightarrow> catched_tl w s k None
      | Msg_new_detailed_info _ k \<Rightarrow> catched_tl w s k None
      | Rpc_result _ k r \<Rightarrow> catched_tl w s k r
      | Updates _ _ \<Rightarrow> Some (emit (Updated t) s)
      | _ \<Rightarrow> Some s)"
| "handle_msgs n w a s [] = Some s"
| "handle_msgs n w a s (m # ms) =
     (case n of 0 \<Rightarrow> None
      | Suc k \<Rightarrow> do {
          let s = set_tg (\<lambda>tg. tg_add_msgid (w_env w) tg (msg_id m)) s;
          (ttl, _) \<leftarrow> tl_deserialize (l_table (w_lib w)) (msg_body m);
          s \<leftarrow> handle_tl k w a s ttl;
          handle_msgs n w a s ms
        })"


section \<open>Receiving\<close>

text \<open>
  Each call of \<^verbatim>\<open>recv\<close> takes the next element of the input: an error, or some bytes
  (none when the peer has closed the connection).
\<close>

datatype rcv = R_error | R_data "byte list"

text \<open>How the loop that fills the buffer ends; \<open>Rl_wait\<close> when it is still running after the input.\<close>

datatype rl = Rl_error | Rl_cancel | Rl_overrun | Rl_wait | Rl_done "byte list" "rcv list"

fun recv_loop :: "(u32 \<Rightarrow> u32 \<Rightarrow> int) option \<Rightarrow> u32 \<Rightarrow> byte list \<Rightarrow> u32 \<Rightarrow> rcv list \<Rightarrow> rl" where
  "recv_loop progress len blk received inp =
     (if received < len then
        (case inp of
           [] \<Rightarrow> Rl_wait
         | R_error # _ \<Rightarrow> Rl_error
         | R_data bs # inp \<Rightarrow>
             (if unat (len - received) < length bs then Rl_overrun
              else case copy_loop (length bs) blk (unat received) bs 0 of
                     None \<Rightarrow> Rl_overrun
                   | Some blk \<Rightarrow>
                       let received = received + of_nat (length bs) in
                       if (case progress of None \<Rightarrow> False | Some f \<Rightarrow> f received len \<noteq> 0) then Rl_cancel
                       else recv_loop progress len blk received inp))
      else Rl_done blk inp)"

declare recv_loop.simps [simp del]

datatype RTL = RTL_EXIT | RTL_ERROR | RTL_REREAD | RTL_RESEND

text \<open>
  \<^verbatim>\<open>_tg_receive\<close>.  The four bytes of the length are taken to come in one piece: with
  fewer, \<^verbatim>\<open>len\<close> is not initialised.  The test \<^verbatim>\<open>len < 0\<close> on an unsigned number is never true.
\<close>

definition tg_receive :: "nat \<Rightarrow> world \<Rightarrow> nat \<Rightarrow> sys \<Rightarrow> rcv list \<Rightarrow> (RTL \<times> sys \<times> rcv list) option" where
  "tg_receive fuel w a s inp = do {
     q \<leftarrow> s_heap s a;
     (case inp of
        [] \<Rightarrow> None
      | R_error # inp \<Rightarrow> Some (RTL_ERROR, s, inp)
      | R_data h4 # inp \<Rightarrow>
          (if length h4 \<noteq> 4 then None
           else do {
             let len = (le_val h4 :: u32);
             (e, r) \<leftarrow> buf_realloc malloc_ok buf_new len;
             if e \<noteq> 0 then Some (RTL_ERROR, s, inp)
             else (case recv_loop (q_progress q) len (bblk r) 0 inp of
                 Rl_error \<Rightarrow> Some (RTL_ERROR, s, [])
               | Rl_cancel \<Rightarrow> Some (RTL_EXIT, set_tg (\<lambda>tg. tg_add_todrop (w_env w) tg (q_msgid q)) s, [])
               | Rl_overrun \<Rightarrow> None
               | Rl_wait \<Rightarrow> None
               | Rl_done blk inp \<Rightarrow> do {
                   let r = r\<lparr>bblk := blk, bsize := len\<rparr>;
                   is404 \<leftarrow> (if bsize r = 4 then map_option (\<lambda>v. v = 0xfffffe6c) (buf_get_ui32 r) else Some False);
                   if is404 then Some (RTL_ERROR, s, inp)
                   else do {
                     d \<leftarrow> tg_decrypt (w_env w) (s_tg s) r True;
                     if bsize d = 0 then Some (RTL_ERROR, s, inp)
                     else do {
                       (msg, tg) \<leftarrow> tg_deheader (w_env w) (s_tg s) d True;
                       let s = s\<lparr>s_tg := tg\<rparr>;
                       (t, _) \<leftarrow> tl_deserialize (l_table (w_lib w)) msg;
                       (case t of
                          None \<Rightarrow> None
                        | Some t \<Rightarrow>
                            (if tl_id t = 0xedab447b then Some (RTL_RESEND, s, inp)
                             else do {
                               s \<leftarrow> handle_tl fuel w a s (Some t);
                               Some (RTL_REREAD, s, inp)
                             }))
                     }
                   }
                 })
           }))
   }"

section \<open>Sending\<close>

definition tg_prepare_mtproto :: "world \<Rightarrow> nat \<Rightarrow> sys \<Rightarrow> sys option" where
  "tg_prepare_mtproto w a s = do {
     s \<leftarrow> (if bsize (tg_key (s_tg s)) = 0 then do {
             let rc = w_app w (tg_ip (s_tg s)) (tg_port (s_tg s));
             key \<leftarrow> buf_add (rc_key rc) 0 (of_nat (length (rc_key rc)));
             salt \<leftarrow> buf_add (rc_salt rc) 0 (of_nat (length (rc_salt rc)));
             Some (set_queue a (\<lambda>q. q\<lparr>q_socket := rc_sockfd rc\<rparr>)
                     (set_tg (\<lambda>tg. tg\<lparr>tg_key := key, tg_salt := salt, tg_seqn := rc_seqnh rc + 1\<rparr>) s))
           } else Some s);
     s \<leftarrow> (if bsize (tg_ssid (s_tg s)) = 0 then do {
             let (now, tg) = now_seconds (w_env w) (s_tg s);
             r \<leftarrow> buf_rand (e_rnd (w_env w)) now 8;
             Some (s\<lparr>s_tg := tg\<lparr>tg_ssid := r\<rparr>\<rparr>)
           } else Some s);
     (if bsize (tg_salt (s_tg s)) = 0 then do {
        let (now, tg) = now_seconds (w_env w) (s_tg s);
        r \<leftarrow> buf_rand (e_rnd (w_env w)) now 8;
        Some (s\<lparr>s_tg := tg\<lparr>tg_salt := r\<rparr>\<rparr>)
      } else Some s)
   }"

definition tg_send :: "world \<Rightarrow> nat \<Rightarrow> sys \<Rightarrow> (int \<times> sys) option" where
  "tg_send w a s =
     (if \<not> e_lock (w_env w) Queue_lock then Some (1, s)
      else do {
        s \<leftarrow> tg_prepare_mtproto w a s;
        q \<leftarrow> s_heap s a;
        (b, mid, tg) \<leftarrow> tg_prepare_query (w_env w) (s_tg s) (q_query q) True (q_msgid q);
        let s = set_queue a (\<lambda>q. q\<lparr>q_msgid := mid\<rparr>) (s\<lparr>s_tg := tg\<rparr>);
        if bsize b = 0 then Some (1, emit (Close (q_socket q)) s)
        else do {
          out \<leftarrow> mem_read (bblk b) (bdata b) (unat (bsize b));
          if w_send w out < 0 then Some (1, emit (Close (q_socket q)) s)
          else Some (0, emit (Send (q_socket q) out) s)
        }
      })"

section \<open>The thread of a query\<close>

text \<open>
  The receive loop.  \<open>locks\<close> are the results of successive \<^verbatim>\<open>pthread_mutex_trylock\<close> on the
  socket's mutex (0 when the mutex was taken).
\<close>

fun run_loop :: "nat \<Rightarrow> nat \<Rightarrow> world \<Rightarrow> nat \<Rightarrow> sys \<Rightarrow> rcv list \<Rightarrow> int list \<Rightarrow> sys option" where
  "run_loop 0 fuel w a s inp locks = None"
| "run_loop (Suc n) fuel w a s inp locks = do {
     q \<leftarrow> s_heap s a;
     if \<not> q_loop q then Some s
     else if q_multithread q then do {
       (res, s, inp) \<leftarrow> tg_receive fuel w a s inp;
       (case res of
          RTL_RESEND \<Rightarrow> do { (r, s) \<leftarrow> tg_send w a s; if r = 0 then run_loop n fuel w a s inp locks else Some s }
        | RTL_EXIT \<Rightarrow> Some s
        | RTL_ERROR \<Rightarrow> Some s
        | RTL_REREAD \<Rightarrow> run_loop n fuel w a s inp locks)
     } else (case locks of
         [] \<Rightarrow> None
       | l # locks \<Rightarrow>
           (if l \<noteq> 0 then do {
              (res, s, inp) \<leftarrow> tg_receive fuel w a s inp;
              (case res of
                 RTL_RESEND \<Rightarrow> do { (r, s) \<leftarrow> tg_send w a s; if r = 0 then run_loop n fuel w a s inp locks else Some s }
               | RTL_EXIT \<Rightarrow> Some s
               | RTL_ERROR \<Rightarrow> Some s
               | RTL_REREAD \<Rightarrow> run_loop n fuel w a s inp locks)
            } else run_loop n fuel w a s inp locks))
   }"

text \<open>
  \<open>sock\<close> is the result of \<^verbatim>\<open>tg_net_open\<close>; the lock \<^verbatim>\<open>inloop_lock\<close>, which only this thread and
  its timer take, is taken to be obtained.
\<close>

definition tg_run_queue :: "nat \<Rightarrow> nat \<Rightarrow> world \<Rightarrow> nat \<Rightarrow> int \<Rightarrow> sys \<Rightarrow> rcv list \<Rightarrow> int list \<Rightarrow> sys option" where
  "tg_run_queue n fuel w a sock s inp locks = do {
     let s = set_queue a (\<lambda>q. q\<lparr>q_socket := sock\<rparr>) s;
     if sock < 0 then Some s
     else do {
       let s = tg_queue_add w s a;
       (r, s) \<leftarrow> tg_send w a s;
       let s = (if r \<noteq> 0 then stop_loop a s else s);
       s \<leftarrow> run_loop n fuel w a s inp locks;
       q \<leftarrow> s_heap s a;
       let s = (if q_socket q \<ge> 0 then emit (Close (q_socket q)) s else s);
       (_, s) \<leftarrow> tg_queue_cut w s (q_msgid q);
       Some s
     }
   }"

definition tg_send_query_async :: "world \<Rightarrow> sys \<Rightarrow> buf \<Rightarrow> bool \<Rightarrow> callback \<Rightarrow> (u32 \<Rightarrow> u32 \<Rightarrow> int) option \<Rightarrow> (tid option \<times> sys) option" where
  "tg_send_query_async w s query multithread cb progress = do {
     (r, s) \<leftarrow> tg_queue_new w s query (tg_ip (s_tg s)) (tg_port (s_tg s)) multithread cb progress;
     a \<leftarrow> r;
     q \<leftarrow> s_heap s a;
     Some (q_p q, s)
   }"

section \<open>Cancelling\<close>

fun cancel_each :: "world \<Rightarrow> nat list \<Rightarrow> sys \<Rightarrow> sys option" where
  "cancel_each w [] s = Some s"
| "cancel_each w (a # as) s =
     (case s_heap s a of None \<Rightarrow> None
      | Some _ \<Rightarrow> cancel_each w as (if w_trylock w a then stop_loop a s else s))"

definition tg_queue_cancell_all :: "world \<Rightarrow> sys \<Rightarrow> sys option" where
  "tg_queue_cancell_all w s =
     (if \<not> e_lock (w_env w) Queue_lock then Some s
      else do { s \<leftarrow> cancel_each w (s_list s) s; Some (s\<lparr>s_list := []\<rparr>) })"

definition tg_queue_cancell_queue :: "world \<Rightarrow> sys \<Rightarrow> u64 \<Rightarrow> (int \<times> sys) option" where
  "tg_queue_cancell_queue w s mid = do {
     (r, s) \<leftarrow> tg_queue_cut w s mid;
     (case r of
        None \<Rightarrow> Some (1, s)
      | Some a \<Rightarrow>
          (if \<not> w_lock w a then Some (1, s)
           else do { _ \<leftarrow> s_heap s a; Some (0, stop_loop a s) }))
   }"

section \<open>The timer of a query\<close>

definition tg_queue_free :: "nat \<Rightarrow> sys \<Rightarrow> sys" where
  "tg_queue_free a s = s\<lparr>s_heap := (s_heap s)(a := None)\<rparr>"

text \<open>
  \<^verbatim>\<open>tg_run_timer\<close>: after a minute the loop is told to end, and once the query's thread has
  released \<^verbatim>\<open>inloop_lock\<close> the struct is freed; \<open>locked\<close> tells whether the lock was obtained.
\<close>

definition tg_run_timer :: "nat \<Rightarrow> bool \<Rightarrow> sys \<Rightarrow> sys option" where
  "tg_run_timer a locked s = do {
     _ \<leftarrow> s_heap s a;
     let s = stop_loop a (emit (Sleep 60) s);
     if \<not> locked then Some s else Some (tg_queue_free a s)
   }"

end
