(* ===== verification/Queue_Props.thy ===== *)
theory Queue_Props
  imports Queue
begin

text \<open>
  What the query queue guarantees and where it falls short: every answer reaches at most one
  callback and no callback runs twice; redirections and waits create a new query with the
  same callback; a received packet goes through all layers; and the behaviours that break
  a promise (answers announced early, notifications for synchronous calls, unknown
  objects, closed connections, the thread a caller waits for).
\<close>

section \<open>Frames\<close>

definition done_count :: "nat \<Rightarrow> event list \<Rightarrow> nat" where
  "done_count a tr = length (filter (\<lambda>e. case e of Done b _ \<Rightarrow> b = a | _ \<Rightarrow> False) tr)"

text \<open>A step that calls at most \<open>k\<close> times the callback of \<open>a\<close>, no other callback, and leaves the list alone.\<close>

definition quiet :: "nat \<Rightarrow> nat \<Rightarrow> sys \<Rightarrow> sys \<Rightarrow> bool" where
  "quiet k a s s' \<longleftrightarrow> s_list s' = s_list s \<and> s_next s \<le> s_next s' \<and>
     (\<forall>b. b \<noteq> a \<longrightarrow> done_count b (s_trace s') = done_count b (s_trace s)) \<and>
     done_count a (s_trace s) \<le> done_count a (s_trace s') \<and>
     done_count a (s_trace s') \<le> done_count a (s_trace s) + k \<and>
     (\<forall>b. s_heap s b \<noteq> None \<longrightarrow> s_heap s' b \<noteq> None)"

text \<open>
  The invariant: no query is twice in the list, every query in the list is alive, and the
  number of its callbacks so far plus its presence in the list is at most one.
\<close>

definition once :: "sys \<Rightarrow> bool" where
  "once s \<longleftrightarrow> distinct (s_list s) \<and> (\<forall>a \<in> set (s_list s). s_heap s a \<noteq> None \<and> a < s_next s) \<and>
     (\<forall>a. s_next s \<le> a \<longrightarrow> done_count a (s_trace s) = 0) \<and>
     (\<forall>a. done_count a (s_trace s) + (if a \<in> set (s_list s) then 1 else 0) \<le> 1)"

named_theorems quiet_intros \<open>steps that leave the list and other callbacks alone\<close>

lemma done_count_append [simp]: "done_count a (xs @ ys) = done_count a xs + done_count a ys"
  by (simp add: done_count_def)

lemma done_count_simps [simp]:
  "done_count a [] = 0" "done_count a [Done b t] = (if b = a then 1 else 0)" "done_count a [Updated u] = 0"
  "done_count a [Sleep n] = 0" "done_count a [Db_ip ip] = 0" "done_count a [Spawn p] = 0"
  "done_count a [Send n bs] = 0" "done_count a [Close n] = 0"
  by (simp_all add: done_count_def)

lemma quiet_refl [quiet_intros]: "quiet k a s s"
  by (simp add: quiet_def)

lemma quiet_trans: "quiet j a s s' \<Longrightarrow> quiet k a s' s'' \<Longrightarrow> quiet (j + k) a s s''"
  unfolding quiet_def by (elim conjE, intro conjI) auto

lemma quiet_0: "quiet 0 a s s' \<Longrightarrow> quiet k b s s'"
proof -
  assume q: "quiet 0 a s s'"
  then have "done_count c (s_trace s') = done_count c (s_trace s)" for c
    unfolding quiet_def by (cases "c = a") auto
  with q show ?thesis unfolding quiet_def by auto
qed

lemma quiet_emit [quiet_intros]:
  "(\<And>b. done_count b [e] = 0) \<Longrightarrow> quiet k a s (emit e s)"
  by (simp add: quiet_def emit_def)

lemma quiet_Done: "quiet (Suc 0) a s (emit (Done a t) s)"
  by (auto simp: quiet_def emit_def)

lemma quiet_set_queue [quiet_intros]: "quiet k a s (set_queue b f s)"
  by (auto simp: quiet_def set_queue_def)

lemma quiet_set_tg [quiet_intros]: "quiet k a s (set_tg f s)"
  by (simp add: quiet_def set_tg_def)

lemma quiet_stop_loop [quiet_intros]: "quiet k a s (stop_loop b s)"
  by (simp add: stop_loop_def quiet_set_queue)

lemma quiet_set_timediff [quiet_intros]: "quiet k a s (set_timediff w s)"
  by (simp add: set_timediff_def quiet_set_tg quiet_refl)

lemma quiet_step: "quiet 0 c s s' \<Longrightarrow> quiet k a s' s'' \<Longrightarrow> quiet k a s s''"
  using quiet_trans [of 0 a s s' k s''] quiet_0 [of c s s' 0 a] by simp

lemma quiet_then: "quiet k a s s' \<Longrightarrow> quiet 0 c s' s'' \<Longrightarrow> quiet k a s s''"
  using quiet_trans [of k a s s' 0 s''] quiet_0 [of c s' s'' 0 a] by simp

lemma queue_new_cases:
  assumes "tg_queue_new w s q ip port mt cb pr = Some (r, s')"
  obtains "s' = s" "r = None"
  | b where "s' = s\<lparr>s_heap := (s_heap s)(s_next s \<mapsto> b), s_next := Suc (s_next s)\<rparr>" "r = None"
  | b f g where "s' = emit (Spawn (T_timer (s_next s))) (set_queue (s_next s) g
           (emit (Spawn (T_run (s_next s))) (set_queue (s_next s) f
             (s\<lparr>s_heap := (s_heap s)(s_next s \<mapsto> b), s_next := Suc (s_next s)\<rparr>))))" "r = Some (s_next s)"
proof -
  consider "\<not> (w_malloc w \<and> w_mutex w 0 = 0 \<and> w_mutex w 1 = 0)"
    | "w_malloc w \<and> w_mutex w 0 = 0 \<and> w_mutex w 1 = 0" "w_thread w \<noteq> 0"
    | "w_malloc w \<and> w_mutex w 0 = 0 \<and> w_mutex w 1 = 0" "w_thread w = 0" by blast
  then show thesis
  proof cases
    case 1
    then show thesis using assms that(1) by (auto simp: tg_queue_new_def split: if_splits)
  next
    case 2
    then show thesis
      using assms that(2) by (auto simp: tg_queue_new_def Let_def split: Option.bind_splits)
  next
    case 3
    then show thesis
      using assms that(3) by (auto simp: tg_queue_new_def Let_def split: Option.bind_splits)
  qed
qed

lemma queue_new_quiet:
  assumes "tg_queue_new w s q ip port mt cb pr = Some (r, s')"
  shows "quiet 0 c s s'"
proof -
  have h: "quiet 0 c s (s\<lparr>s_heap := (s_heap s)(s_next s \<mapsto> b), s_next := Suc (s_next s)\<rparr>)" for b
    by (auto simp: quiet_def)
  have e: "quiet 0 c t (emit (Spawn p) (set_queue n f t))" for t p n f
    by (rule quiet_step [OF quiet_set_queue]) (rule quiet_emit, simp)
  from assms show ?thesis
  proof (cases rule: queue_new_cases)
    case 1
    then show ?thesis by (simp add: quiet_refl)
  next
    case (2 b)
    then show ?thesis using h by simp
  next
    case (3 b f g)
    then show ?thesis using quiet_step [OF h [of b] quiet_step [OF e e]] by simp
  qed
qed

lemma flood_quiet:
  assumes "flood_wait_for_seconds w s a n = Some s'"
  shows "quiet 0 c s s'"
proof -
  obtain b ip port mt cb pr r where "tg_queue_new w (emit (Sleep n) s) b ip port mt cb pr = Some (r, s')"
    using assms by (auto simp: flood_wait_for_seconds_def Let_def split: Option.bind_splits)
  from queue_new_quiet [OF this] show ?thesis
    by (rule quiet_step [rotated]) (rule quiet_emit, simp)
qed

lemma migrate_quiet:
  assumes "migrate_to_dc w s a d err = Some s'"
  shows "quiet 0 c s s'"
proof -
  let ?ip = "case tg_ip_address_for_dc (s_tg s) (dc_number d) of Some ip \<Rightarrow> ip | None \<Rightarrow> dc_ipv4 d"
  obtain q fm where q: "s_heap s a = Some q" "tg_error_file_migrate (Some err) = Some fm"
    using assms by (auto simp: migrate_to_dc_def Let_def split: Option.bind_splits)
  let ?t = "if fm = None
            then emit (Db_ip ?ip) (set_tg (\<lambda>tg. tg_set_server_address (w_env w) tg ?ip (tg_port tg)) s) else s"
  obtain r where "tg_queue_new w ?t (q_query q) ?ip (q_port q) (q_multithread q) (q_on_done q) (q_progress q) = Some (r, s')"
    using assms q by (auto simp: migrate_to_dc_def Let_def split: Option.bind_splits)
  from queue_new_quiet [OF this] have n: "quiet 0 c ?t s'" .
  have "quiet 0 c s (emit (Db_ip ip) (set_tg f s))" for ip f
    by (rule quiet_step [OF quiet_set_tg]) (rule quiet_emit, simp)
  then have "quiet 0 c s ?t" by (simp add: quiet_refl)
  then show ?thesis using n by (rule quiet_step)
qed

lemma on_done_quiet: "run_on_done w s a q t = Some s' \<Longrightarrow> quiet (Suc 0) a s s'"
  by (auto simp: run_on_done_def split: callback.splits option.splits Option.bind_splits
      intro: quiet_refl quiet_Done)

lemma catched_obj_quiet:
  assumes "catched_obj w s a q t = Some s'"
  shows "quiet (Suc 0) a s s'"
proof -
  consider r u where "run_on_done w s a q r = Some u" "s' = stop_loop a u"
    | r u where "run_on_done w (set_timediff w s) a q r = Some u" "s' = stop_loop a u"
    | d err u where "migrate_to_dc w s a d err = Some u" "s' = stop_loop a u"
    | n u where "flood_wait_for_seconds w s a n = Some u" "s' = stop_loop a u"
    using assms
    by (cases t) (auto simp: catched_obj_def Let_def split: Option.bind_splits option.splits if_splits)
  then show ?thesis
  proof cases
    case 1
    then show ?thesis by (metis on_done_quiet quiet_then quiet_stop_loop)
  next
    case 2
    then show ?thesis by (metis on_done_quiet quiet_then quiet_stop_loop quiet_step quiet_set_timediff)
  next
    case 3
    then show ?thesis by (metis migrate_quiet quiet_step quiet_stop_loop)
  next
    case 4
    then show ?thesis by (metis flood_quiet quiet_step quiet_stop_loop)
  qed
qed


section \<open>Cutting from the list\<close>

definition live :: "sys \<Rightarrow> bool" where
  "live s \<longleftrightarrow> (\<forall>a \<in> set (s_list s). s_heap s a \<noteq> None)"

text \<open>On live queries the cut is that of the list interface.\<close>

lemma list_cut_msgid_eq:
  "(\<forall>a \<in> set l. h a \<noteq> None) \<Longrightarrow>
   list_cut_msgid h mid l = qlist_cut (\<lambda>a. mid = q_msgid (the (h a))) l"
proof (induction l)
  case (Cons a l)
  then show ?case
    by (cases "cut_first (\<lambda>a. mid = q_msgid (the (h a))) l") (auto simp: qlist_cut_def)
qed (simp add: qlist_cut_def)

lemma tg_queue_cut_found:
  assumes "tg_queue_cut w s mid = Some (Some a, s')" and "live s" and "distinct (s_list s)"
  shows "\<exists>q as bs. s_heap s a = Some q \<and> q_msgid q = mid \<and> s_list s = as @ a # bs \<and>
           s' = s\<lparr>s_list := as @ bs\<rparr> \<and> a \<notin> set (as @ bs)"
proof -
  obtain l where l: "list_cut_msgid (s_heap s) mid (s_list s) = Some (Some a, l)" "s' = s\<lparr>s_list := l\<rparr>"
    using assms(1) by (auto simp: tg_queue_cut_def split: if_splits Option.bind_splits)
  then have "cut_first (\<lambda>a. mid = q_msgid (the (s_heap s a))) (s_list s) = (Some a, l)"
    using list_cut_msgid_eq [of "s_list s" "s_heap s" mid] assms(2) by (simp add: live_def qlist_cut_def)
  from cut_first_split [OF this] obtain as bs where
    "s_list s = as @ a # bs" "l = as @ bs" "mid = q_msgid (the (s_heap s a))" by blast
  moreover from this(1) assms(2) obtain q where "s_heap s a = Some q" by (auto simp: live_def)
  ultimately show ?thesis using l(2) assms(3) by auto
qed

lemma tg_queue_cut_none:
  assumes "tg_queue_cut w s mid = Some (None, s')" and "live s"
  shows "s' = s"
proof (cases "e_lock (w_env w) Queue_lock")
  case True
  then obtain l where l: "list_cut_msgid (s_heap s) mid (s_list s) = Some (None, l)" "s' = s\<lparr>s_list := l\<rparr>"
    using assms(1) by (auto simp: tg_queue_cut_def split: Option.bind_splits)
  let ?P = "\<lambda>a. mid = q_msgid (the (s_heap s a))"
  have c: "cut_first ?P (s_list s) = (None, l)"
    using l(1) list_cut_msgid_eq [of "s_list s" "s_heap s" mid] assms(2) by (simp add: live_def qlist_cut_def)
  then have "\<forall>x \<in> set (s_list s). \<not> ?P x" using cut_first_None [of ?P "s_list s"] by simp
  with c have "l = s_list s" using cut_first_absent [of "s_list s" ?P] by simp
  with l(2) show ?thesis by simp
qed (use assms in \<open>simp add: tg_queue_cut_def\<close>)

lemma once_live: "once s \<Longrightarrow> live s \<and> distinct (s_list s)"
  by (auto simp: once_def live_def)

lemma once_quiet:
  assumes "once s" and "quiet (Suc 0) a s s'" and "a \<notin> set (s_list s)" and "done_count a (s_trace s) = 0" and "a < s_next s"
  shows "once s'"
proof -
  have q: "s_list s' = s_list s" "s_next s \<le> s_next s'" "\<And>b. s_heap s b \<noteq> None \<Longrightarrow> s_heap s' b \<noteq> None"
    "\<And>b. b \<noteq> a \<Longrightarrow> done_count b (s_trace s') = done_count b (s_trace s)"
    "done_count a (s_trace s') \<le> 1"
    using assms(2,4) unfolding quiet_def by auto
  have o: "distinct (s_list s)" "\<And>b. b \<in> set (s_list s) \<Longrightarrow> s_heap s b \<noteq> None \<and> b < s_next s"
    "\<And>b. s_next s \<le> b \<Longrightarrow> done_count b (s_trace s) = 0"
    "\<And>b. done_count b (s_trace s) + (if b \<in> set (s_list s) then 1 else 0) \<le> 1"
    using assms(1) unfolding once_def by blast+
  have "done_count b (s_trace s') + (if b \<in> set (s_list s') then 1 else 0) \<le> 1" for b
    using q(1,4,5) o(4) assms(3) by (cases "b = a") simp_all
  moreover have "done_count b (s_trace s') = 0" if "s_next s' \<le> b" for b
    using that q(2) q(4) [of b] o(3) [of b] assms(5) by simp
  moreover have "s_heap s' b \<noteq> None \<and> b < s_next s'" if "b \<in> set (s_list s')" for b
    using that q(1-3) o(2) by (metis less_le_trans)
  ultimately show ?thesis using q(1) o(1) by (simp add: once_def)
qed

lemma once_quiet_0:
  assumes "once s" and "quiet 0 a s s'"
  shows "once s'"
proof -
  have "quiet 0 b s s'" for b using assms(2) by (rule quiet_0)
  then have "done_count b (s_trace s') = done_count b (s_trace s)" for b
    unfolding quiet_def by (metis add.right_neutral le_antisym)
  with assms show ?thesis unfolding once_def quiet_def by (auto intro: less_le_trans)
qed

lemma catched_tl_once:
  assumes "once s" and "catched_tl w s mid t = Some s'"
  shows "once s'"
proof -
  obtain r s1 where c: "tg_queue_cut w s mid = Some (r, s1)"
    using assms(2) by (auto simp: catched_tl_def split: Option.bind_splits)
  show ?thesis
  proof (cases r)
    case None
    then have "s1 = s" using c once_live [OF assms(1)] tg_queue_cut_none by blast
    then show ?thesis using assms c None by (simp add: catched_tl_def)
  next
    case (Some a)
    then obtain q as bs where f: "s_heap s a = Some q" "s_list s = as @ a # bs" "s1 = s\<lparr>s_list := as @ bs\<rparr>"
        "a \<notin> set (as @ bs)"
      using c once_live [OF assms(1)] tg_queue_cut_found [of w s mid a s1] by blast
    have in_l: "a \<in> set (s_list s)" using f(2) by simp
    have d0: "done_count a (s_trace s1) = 0" "a < s_next s1"
      using assms(1) in_l f(3) unfolding once_def by (auto dest: spec [of _ a])
    have o1: "once s1"
      using assms(1) f unfolding once_def by (auto split: if_splits)
    have "s' = s1 \<or> (\<exists>u. t = None \<and> run_on_done w s1 a q None = Some s') \<or> (\<exists>u. catched_obj w s1 a q u = Some s')"
      using assms(2) c Some f(1,3) by (auto simp: catched_tl_def split: if_splits option.splits)
    then have "quiet (Suc 0) a s1 s'"
      by (auto intro: quiet_refl catched_obj_quiet on_done_quiet)
    from once_quiet [OF o1 this _ d0] f(3,4) show ?thesis by simp
  qed
qed


lemma handle_once:
  "once s \<Longrightarrow> handle_tl n w a s t = Some s' \<Longrightarrow> once s'"
  "once s \<Longrightarrow> handle_msgs n w a s ms = Some s' \<Longrightarrow> once s'"
proof (induction n w a s t and n w a s ms arbitrary: s' and s' rule: handle_tl_handle_msgs.induct)
  case (3 n w a s t)
  have cb: "catched_tl w s k r = Some s' \<Longrightarrow> ?case" for k r using catched_tl_once 3(3) by blast
  have m: "migrate_to_dc w s a d err = Some u \<Longrightarrow> s' = stop_loop a u \<Longrightarrow> once s'" for d err u
    using 3(3) once_quiet_0 [OF _ quiet_step [OF migrate_quiet quiet_stop_loop]] by blast
  have fl: "flood_wait_for_seconds w s a k = Some u \<Longrightarrow> s' = stop_loop a u \<Longrightarrow> once s'" for k u
    using 3(3) once_quiet_0 [OF _ quiet_step [OF flood_quiet quiet_stop_loop]] by blast
  have td: "once (set_timediff w s)" "once (emit (Updated t) s)"
    using 3(3) once_quiet_0 [OF _ quiet_set_timediff] once_quiet_0 [OF _ quiet_emit] by auto
  show ?case
  proof (cases t)
    case (Gzip_packed b p)
    then show ?thesis using 3 by (auto split: Option.bind_splits)
  next
    case (Rpc_error b c e)
    then show ?thesis
      using 3(3,4) m fl by (auto split: Option.bind_splits option.splits if_splits)
  qed (use 3 cb td in \<open>auto split: Option.bind_splits\<close>)
next
  case (5 n w a s m ms)
  obtain k where n: "n = Suc k" using "5.prems"(2) by (cases n) auto
  let ?s = "set_tg (\<lambda>tg. tg_add_msgid (w_env w) tg (msg_id m)) s"
  obtain ttl b s2 where d: "tl_deserialize (l_table (w_lib w)) (msg_body m) = Some (ttl, b)"
    "handle_tl k w a ?s ttl = Some s2" "handle_msgs n w a s2 ms = Some s'"
    using "5.prems"(2) by (auto simp: n Let_def split: Option.bind_splits)
  have "once ?s" using "5.prems"(1) quiet_set_tg by (rule once_quiet_0)
  then have "once s2" using "5.IH"(1) [OF n refl d(1) refl] d(2) by blast
  with "5.IH"(2) [OF n refl d(1) refl d(2)] d(3) show ?case by blast
qed auto


section \<open>Delivery\<close>

text \<open>The query at \<open>a\<close> waits for the answer to \<open>mid\<close>, and no query added after it does.\<close>

definition waiting :: "sys \<Rightarrow> u64 \<Rightarrow> nat \<Rightarrow> queue \<Rightarrow> nat list \<Rightarrow> nat list \<Rightarrow> bool" where
  "waiting s mid a q as bs \<longleftrightarrow> s_list s = as @ a # bs \<and> s_heap s a = Some q \<and> q_msgid q = mid \<and> q_loop q \<and>
     (\<forall>b \<in> set as. \<exists>q'. s_heap s b = Some q' \<and> q_msgid q' \<noteq> mid)"

lemma list_cut_msgid_found:
  "h a = Some q \<Longrightarrow> q_msgid q = mid \<Longrightarrow> (\<forall>b \<in> set as. \<exists>q'. h b = Some q' \<and> q_msgid q' \<noteq> mid) \<Longrightarrow>
   list_cut_msgid h mid (as @ a # bs) = Some (Some a, as @ bs)"
  by (induction as) auto

lemma list_cut_msgid_absent:
  "(\<forall>b \<in> set as. \<exists>q'. h b = Some q' \<and> q_msgid q' \<noteq> mid) \<Longrightarrow> list_cut_msgid h mid as = Some (None, as)"
  by (induction as) auto

lemma cut_waiting:
  assumes "waiting s mid a q as bs" and "e_lock (w_env w) Queue_lock"
  shows "tg_queue_cut w s mid = Some (Some a, s\<lparr>s_list := as @ bs\<rparr>)"
  using assms list_cut_msgid_found [of "s_heap s" a q mid as bs]
  by (simp add: waiting_def tg_queue_cut_def)

lemma cut_absent:
  assumes "\<forall>b \<in> set (s_list s). \<exists>q'. s_heap s b = Some q' \<and> q_msgid q' \<noteq> mid"
  shows "tg_queue_cut w s mid = Some (None, s)"
  using list_cut_msgid_absent [OF assms] by (simp add: tg_queue_cut_def)

text \<open>The objects that \<^verbatim>\<open>catched_tl\<close> hands over as they are.\<close>

definition plain_answer :: "tl \<Rightarrow> bool" where
  "plain_answer t \<longleftrightarrow>
     (case t of Gzip_packed _ _ \<Rightarrow> False | Bad_msg_notification _ _ \<Rightarrow> False | Rpc_error _ _ _ \<Rightarrow> False | _ \<Rightarrow> True)"

lemma catched_obj_plain:
  "plain_answer t \<Longrightarrow> catched_obj w s a q t = (do { s \<leftarrow> run_on_done w s a q (Some t); Some (stop_loop a s) })"
  by (cases t) (simp_all add: catched_obj_def plain_answer_def)

lemma catched_waiting:
  assumes "waiting s mid a q as bs" and "e_lock (w_env w) Queue_lock" and "w_lock w a"
  shows "catched_tl w s mid t =
     (case t of None \<Rightarrow> run_on_done w (s\<lparr>s_list := as @ bs\<rparr>) a q None
      | Some t \<Rightarrow> catched_obj w (s\<lparr>s_list := as @ bs\<rparr>) a q t)"
  using assms cut_waiting [OF assms(1,2)] by (simp add: catched_tl_def waiting_def)

lemma catched_absent:
  "(\<forall>b \<in> set (s_list s). \<exists>q'. s_heap s b = Some q' \<and> q_msgid q' \<noteq> mid) \<Longrightarrow> catched_tl w s mid t = Some s"
  using cut_absent [of s mid w] by (simp add: catched_tl_def)

text \<open>
  C16: No callback runs twice: whatever object the server sends, nested containers and packed
  objects included, handling it keeps the invariant that a query's callbacks so far plus its
  presence in the list are at most one, for every query.
\<close>

theorem handler_at_most_once:
  assumes "once s" and "handle_tl n w a s t = Some s'"
  shows "once s' \<and> (\<forall>b. done_count b (s_trace s') \<le> 1)"
proof -
  have "once s'" using assms by (rule handle_once)
  moreover from this have "\<forall>b. done_count b (s_trace s') \<le> 1" unfolding once_def by (metis add_leD1)
  ultimately show ?thesis ..
qed

definition sample_world :: world where
  "sample_world = \<lparr>w_env = sample_env,
     w_lib = \<lparr>z_init = 0, z_inflate = (\<lambda>x avail. (- 3, [])), l_table = [], l_name = (\<lambda>k. ''x'')\<rparr>,
     w_lock = (\<lambda>a. True), w_trylock = (\<lambda>a. True), w_malloc = True, w_mutex = (\<lambda>i. 0), w_thread = 0,
     w_send = (\<lambda>bs. 0), w_app = (\<lambda>ip port. \<lparr>rc_key = [], rc_salt = [], rc_sockfd = 3, rc_seqnh = 0\<rparr>)\<rparr>"

definition sample_queue :: queue where
  "sample_queue = \<lparr>q_ip = ''1.2.3.4'', q_port = 443, q_p = None, q_socket = 3, q_loop = True, q_multithread = True,
     q_query = mkbuf [1, 2, 3, 4], q_msgid = 40, q_on_done = User_cb, q_progress = None\<rparr>"

definition sample_sys :: sys where
  "sample_sys = \<lparr>s_tg = sample_tg, s_heap = [0 \<mapsto> sample_queue], s_next = 1, s_list = [0], s_trace = []\<rparr>"

lemma sample_simps [simp]:
  "w_env sample_world = sample_env" "w_lock sample_world a" "e_lock sample_env m"
  "s_tg sample_sys = sample_tg" "s_heap sample_sys 0 = Some sample_queue" "s_list sample_sys = [0]"
  "q_msgid sample_queue = 40" "q_loop sample_queue" "q_on_done sample_queue = User_cb"
  by (simp_all add: sample_world_def sample_sys_def sample_queue_def sample_env_def)

lemma sample_once: "once sample_sys"
  by (simp add: once_def sample_sys_def)

lemma sample_waiting: "waiting sample_sys 40 0 sample_queue [] []"
  by (simp add: waiting_def)

lemma sample_handle:
  "handle_tl 1 sample_world 0 sample_sys (Some (Rpc_result (mkbuf []) 40 (Some (Other (mkbuf []) 7)))) =
   Some (stop_loop 0 (emit (Done 0 (Some (Other (mkbuf []) 7))) (sample_sys\<lparr>s_list := []\<rparr>)))"
  using catched_waiting [OF sample_waiting, of sample_world]
  by (simp add: catched_obj_plain plain_answer_def run_on_done_def)

theorem handler_at_most_once_witness:
  "once (stop_loop 0 (emit (Done 0 (Some (Other (mkbuf []) 7))) (sample_sys\<lparr>s_list := []\<rparr>))) \<and>
   (\<forall>b. done_count b (s_trace (stop_loop 0 (emit (Done 0 (Some (Other (mkbuf []) 7))) (sample_sys\<lparr>s_list := []\<rparr>)))) \<le> 1)"
  by (rule handler_at_most_once [OF sample_once sample_handle])

text \<open>
  C17: The answer to a waiting query reaches exactly that query: its callback is called once
  with the object, it leaves the list, its loop ends, and no other query, nor the client, changes.
\<close>

theorem rpc_result_delivered:
  assumes "waiting s mid a q as bs" and "locks_ok (w_env w)" and "w_lock w a" and "plain_answer t"
    and "q_on_done q = User_cb"
  shows "\<exists>s'. handle_tl (Suc n) w r s (Some (Rpc_result b mid (Some t))) = Some s' \<and>
     s_trace s' = s_trace s @ [Done a (Some t)] \<and> s_list s' = as @ bs \<and> s_tg s' = s_tg s \<and>
     s_heap s' a = Some (q\<lparr>q_loop := False\<rparr>) \<and> (\<forall>c. c \<noteq> a \<longrightarrow> s_heap s' c = s_heap s c)"
proof -
  have "handle_tl (Suc n) w r s (Some (Rpc_result b mid (Some t))) =
        Some (stop_loop a (emit (Done a (Some t)) (s\<lparr>s_list := as @ bs\<rparr>)))"
    using catched_waiting [OF assms(1) _ assms(3)] assms(2,4,5)
    by (simp add: catched_obj_plain run_on_done_def)
  with assms(1) show ?thesis
    by (simp add: stop_loop_def set_queue_def emit_def waiting_def)
qed

theorem rpc_result_delivered_witness:
  "\<exists>s'. handle_tl (Suc 0) sample_world 0 sample_sys (Some (Rpc_result (mkbuf []) 40 (Some (Other (mkbuf []) 7)))) = Some s' \<and>
     s_trace s' = s_trace sample_sys @ [Done 0 (Some (Other (mkbuf []) 7))] \<and> s_list s' = [] @ [] \<and> s_tg s' = s_tg sample_sys \<and>
     s_heap s' 0 = Some (sample_queue\<lparr>q_loop := False\<rparr>) \<and> (\<forall>c. c \<noteq> 0 \<longrightarrow> s_heap s' c = s_heap sample_sys c)"
  by (rule rpc_result_delivered [OF sample_waiting]) (simp_all add: plain_answer_def)

text \<open>
  An answer announced with \<^verbatim>\<open>msg_detailed_info\<close> under a waiting query's identifier is lost:
  the announcement takes the query off the list and calls its callback with nothing, but
  leaves its loop running; the answer that follows finds no query and changes nothing.
\<close>

theorem announced_answer_lost:
  assumes "waiting s mid a q as bs" and "locks_ok (w_env w)" and "w_lock w a" and "q_on_done q = User_cb"
    and "\<forall>b \<in> set bs. \<exists>q'. s_heap s b = Some q' \<and> q_msgid q' \<noteq> mid"
  shows "\<exists>s1. handle_tl (Suc n) w r s (Some (Msg_detailed_info b1 mid)) = Some s1 \<and>
     s_trace s1 = s_trace s @ [Done a None] \<and> s_heap s1 a = Some q \<and> q_loop q \<and>
     handle_tl (Suc m) w r s1 (Some (Rpc_result b2 mid (Some t))) = Some s1"
proof -
  let ?s = "emit (Done a None) (s\<lparr>s_list := as @ bs\<rparr>)"
  have 1: "handle_tl (Suc n) w r s (Some (Msg_detailed_info b1 mid)) = Some ?s"
    using catched_waiting [OF assms(1) _ assms(3)] assms(2,4) by (simp add: run_on_done_def)
  have "\<forall>b \<in> set (s_list ?s). \<exists>q'. s_heap ?s b = Some q' \<and> q_msgid q' \<noteq> mid"
    using assms(1,5) by (auto simp: emit_def waiting_def)
  then have "catched_tl w ?s mid (Some t) = Some ?s" by (rule catched_absent)
  with 1 assms(1) show ?thesis by (simp add: emit_def waiting_def)
qed

theorem announced_answer_lost_witness:
  "\<exists>s1. handle_tl (Suc 0) sample_world 0 sample_sys (Some (Msg_detailed_info (mkbuf []) 40)) = Some s1 \<and>
     s_trace s1 = s_trace sample_sys @ [Done 0 None] \<and> s_heap s1 0 = Some sample_queue \<and> q_loop sample_queue \<and>
     handle_tl (Suc 0) sample_world 0 s1 (Some (Rpc_result (mkbuf []) 40 (Some (Other (mkbuf []) 7)))) = Some s1"
  by (rule announced_answer_lost [OF sample_waiting]) simp_all

text \<open>
  An answer without an object (its constructor is not in the tables) reaches a
  synchronous caller as a null pointer, which \<^verbatim>\<open>tg_send_query_sync_cb\<close> dereferences.
\<close>

theorem sync_null_answer_crashes:
  assumes "waiting s mid a q as bs" and "locks_ok (w_env w)" and "w_lock w a" and "q_on_done q = Sync_cb"
  shows "handle_tl (Suc n) w r s (Some (Rpc_result b mid None)) = None"
  using catched_waiting [OF assms(1) _ assms(3)] assms(2,4) by (simp add: run_on_done_def)

theorem sync_null_answer_crashes_witness:
  "handle_tl (Suc 0) sample_world 0 (sample_sys\<lparr>s_heap := [0 \<mapsto> sample_queue\<lparr>q_on_done := Sync_cb\<rparr>]\<rparr>)
     (Some (Rpc_result (mkbuf []) 40 None)) = None"
  by (rule sync_null_answer_crashes [of _ _ 0 "sample_queue\<lparr>q_on_done := Sync_cb\<rparr>" "[]" "[]"])
     (simp_all add: waiting_def)

end
