(* ===== verification/Thread_Props.thy ===== *)
theory Thread_Props
  imports Queue_Props
begin

text \<open>
  The thread of a query: what the receive loop makes of the bytes on the socket, a packet's
  way through all layers, redirections, and what happens at the edges (a closed
  connection, an unknown object, a send that fails, the thread the caller waits for).
\<close>

section \<open>The receive loop\<close>

lemma recv_loop_stop: "\<not> received < len \<Longrightarrow> recv_loop pr len blk received inp = Rl_done blk inp"
  by (subst recv_loop.simps) simp

lemma recv_loop_step:
  assumes "received < len" and "length c \<le> unat (len - received)" and "unat received + length c \<le> length blk"
  shows "recv_loop None len blk received (R_data c # inp) =
     recv_loop None len (take (unat received) blk @ c @ drop (unat received + length c) blk)
       (received + of_nat (length c)) inp"
proof -
  have cp: "copy_loop (length c) blk (unat received) c 0 =
      Some (take (unat received) blk @ c @ drop (unat received + length c) blk)"
    using assms(3) by (subst copy_loop_eq) auto
  show ?thesis using assms(1,2) by (subst recv_loop.simps) (simp add: cp not_less)
qed

text \<open>Whole packets in any number of non-empty pieces.\<close>

lemma recv_loop_chunks:
  "length pre + length (concat css) = unat len \<Longrightarrow> [] \<notin> set css \<Longrightarrow> length blk = unat len + k \<Longrightarrow>
   take (length pre) blk = pre \<Longrightarrow>
   recv_loop None len blk (of_nat (length pre)) (map R_data css @ inp) =
     Rl_done (pre @ concat css @ drop (unat len) blk) inp"
proof (induction css arbitrary: pre blk)
  case Nil
  have "length pre = unat len" using Nil.prems(1) by simp
  then have "of_nat (length pre) = len" by simp
  moreover have "blk = pre @ drop (unat len) blk"
    using Nil.prems by (metis add.right_neutral append_take_drop_id concat.simps(1) list.size(3))
  ultimately show ?case using recv_loop_stop [of len len] by simp
next
  case (Cons c css)
  let ?p = "length pre"
  have lt: "?p + length c \<le> unat len" "0 < length c" using Cons.prems by auto
  have u: "unat (of_nat ?p :: u32) = ?p"
  proof -
    have "unat len < 2 ^ 32" using unsigned_less [of len] by simp
    with lt have "?p < 2 ^ 32" by linarith
    then show ?thesis by (simp add: unat_of_nat)
  qed
  have "?p < unat len" using lt by linarith
  then have r: "(of_nat ?p :: u32) < len" using u by (simp add: word_less_nat_alt)
  then have d: "unat (len - of_nat ?p) = unat len - ?p" using u by (simp add: unat_sub)
  have "recv_loop None len blk (of_nat ?p) (R_data c # map R_data css @ inp) =
        recv_loop None len (take ?p blk @ c @ drop (?p + length c) blk) (of_nat ?p + of_nat (length c)) (map R_data css @ inp)"
    using recv_loop_step [OF r, of c blk "map R_data css @ inp"] lt d u Cons.prems(3) by simp
  also have "\<dots> = Rl_done ((pre @ c) @ concat css @ drop (unat len) (take ?p blk @ c @ drop (?p + length c) blk)) inp"
    using Cons.IH [of "pre @ c" "take ?p blk @ c @ drop (?p + length c) blk"] Cons.prems lt by simp
  also have "drop (unat len) (take ?p blk @ c @ drop (?p + length c) blk) = drop (unat len) blk"
    using Cons.prems(3) lt by simp
  finally show ?case by simp
qed

text \<open>
  A connection closed in the middle of a packet is never noticed: once \<^verbatim>\<open>recv\<close> returns
  no bytes, the loop goes on asking; after any number of such calls it is where it was.
\<close>

theorem closed_connection_spins:
  assumes "received < len" and "unat received \<le> length blk"
  shows "recv_loop None len blk received (replicate k (R_data [])) = Rl_wait"
proof (induction k)
  case 0
  then show ?case using assms(1) by (subst recv_loop.simps) simp
next
  case (Suc k)
  have "take (unat received) blk @ drop (unat received) blk = blk" by simp
  with Suc recv_loop_step [OF assms(1), of "[]" blk "replicate k (R_data [])"] assms(2) show ?case by simp
qed

theorem closed_connection_spins_witness:
  "recv_loop None 100 (replicate 1025 0) 50 (replicate 7 (R_data [])) = Rl_wait"
  by (rule closed_connection_spins) simp_all


section \<open>A packet through all layers\<close>

lemma buf_realloc_pair: "buf_realloc malloc_ok b n = map_option (Pair 0) (reserve b n)"
  by (simp add: buf_realloc_def reserve_def malloc_ok_def)

text \<open>What the server sends: a length and the sealed, framed body.\<close>

definition server_packet :: "env \<Rightarrow> byte list \<Rightarrow> byte list \<Rightarrow> byte list \<Rightarrow> u64 \<Rightarrow> u32 \<Rightarrow> byte list \<Rightarrow> byte list \<Rightarrow> byte list" where
  "server_packet env key salt ssid mid sq body pad = mt_seal env 8 key (plain_wire salt ssid mid sq body pad)"

text \<open>The client after it: the new salt, and the message to be acknowledged.\<close>

definition after_packet :: "world \<Rightarrow> sys \<Rightarrow> byte list \<Rightarrow> u64 \<Rightarrow> sys" where
  "after_packet w s salt mid = s\<lparr>s_tg := tg_add_msgid (w_env w) ((s_tg s)\<lparr>tg_salt := mkbuf salt\<rparr>) mid\<rparr>"

lemma decrypt_deheader_packet:
  assumes c: "crypto_ok env" and k: "key_ok tg" and ses: "session_ok tg"
    and l: "length salt = 8" "length ssid = 8" "16 dvd length (plain_wire salt ssid mid sq body pad)"
      "length (plain_wire salt ssid mid sq body pad) < 2 ^ 30"
    and r: "rest b = server_packet env (bytes (tg_key tg)) salt ssid mid sq body pad @ ys"
      "bsize b = of_nat (length (server_packet env (bytes (tg_key tg)) salt ssid mid sq body pad))"
  shows "\<exists>d. tg_decrypt env tg b True = Some d \<and> bsize d \<noteq> 0 \<and>
     tg_deheader env tg d True = Some (mkbuf body, tg_add_msgid env (tg\<lparr>tg_salt := mkbuf salt\<rparr>) mid)"
proof -
  let ?k = "bytes (tg_key tg)" and ?w = "plain_wire salt ssid mid sq body pad"
  let ?mk = "mt_msg_key env 8 ?k ?w"
  let ?ct = "e_ige_e env (mt_aes_key env 8 ?k ?mk) (mt_aes_iv env 8 ?k ?mk) ?w"
  have lc: "length ?ct = length ?w" and inv:
    "e_ige_d env (mt_aes_key env 8 ?k ?mk) (mt_aes_iv env 8 ?k ?mk) ?ct = ?w"
    using c l(3) by (auto simp: crypto_ok_def)
  have w: "server_packet env ?k salt ssid mid sq body pad = mt_auth_key_id env ?k @ ?mk @ ?ct"
    by (simp add: server_packet_def mt_seal_def Let_def)
  have rb: "rest b = mt_auth_key_id env ?k @ ?mk @ ?ct @ ys" using r(1) w by simp
  have sz: "bsize b = of_nat (24 + length ?ct)" using r(2) c by (simp add: w)
  have fw: "fits (3 * length ?ct)" "fits (24 + length ?ct)" "fits (length ?w)"
    using l(4) lc by (simp_all add: fits_def)
  from decrypt_eq [OF c k rb sz _ _ fw(1,2)] c l(3) lc inv obtain d where
    d: "tg_decrypt env tg b True = Some d" "readable d" "bsize d = of_nat (length ?w)" "bytes d = ?w"
    by auto
  have "length ?w \<ge> 32" using l(1,2) by (simp add: length_plain_wire)
  then have nz: "bsize d \<noteq> 0" using d(3) fw(3) by (metis not_numeral_le_zero unat_0 unat_of_nat_fits)
  have fb: "fits (length body)" using fw(3) by (rule fits_mono) (simp add: length_plain_wire)
  have "rest d = ?w @ drop (unat (bsize d)) (rest d)" using rest_split [of d] d(4) by simp
  from deheader_plain [OF this nz l(1,2) fb session_ssid [OF ses]] d(1) nz show ?thesis by blast
qed

text \<open>The receive buffer after the pieces of a packet have arrived.\<close>

lemma assembled_packet:
  assumes "crypto_ok env"
    and "length salt = 8" and "length ssid = 8" and "16 dvd length (plain_wire salt ssid mid sq body pad)"
    and "length (plain_wire salt ssid mid sq body pad) < 2 ^ 30"
    and "concat css = server_packet env key salt ssid mid sq body pad" and "[] \<notin> set css"
  shows "\<exists>r blk. buf_realloc malloc_ok (mkbuf []) (of_nat (length (concat css))) = Some (0, r) \<and>
     recv_loop None (of_nat (length (concat css))) (bblk r) 0 (map R_data css @ inp) = Rl_done blk inp \<and>
     (of_nat (length (concat css)) :: u32) \<noteq> 4 \<and>
     rest (r\<lparr>bblk := blk, bsize := of_nat (length (concat css))\<rparr>) =
       server_packet env key salt ssid mid sq body pad @ drop (length (concat css)) blk"
proof -
  let ?p = "concat css" and ?n = "length (concat css)"
  let ?w = "plain_wire salt ssid mid sq body pad"
  have lp: "?n = 24 + length ?w"
    using assms(1,4,6) by (simp add: server_packet_def mt_seal_def Let_def crypto_ok_def mt_msg_key_def mt_auth_key_id_def)
  have fn: "fits ?n" using assms(5) lp by (simp add: fits_def)
  have l32: "32 \<le> length ?w" using assms(2,3) by (simp add: length_plain_wire)
  have un: "unat (of_nat ?n :: u32) = ?n" using fn by simp
  let ?r = "\<lparr>bblk = replicate (Suc (max BUFSIZ ?n)) 0, bdata = 0, bsize = 0, basize = of_nat (max BUFSIZ ?n)\<rparr> :: buf"
  have al: "buf_realloc malloc_ok (mkbuf []) (of_nat ?n) = Some (0, ?r)"
    using reserve_mkbuf [of "of_nat ?n" "[]"] fn by (simp add: buf_realloc_pair)
  have lb: "length (bblk ?r) = unat (of_nat ?n :: u32) + (Suc (max BUFSIZ ?n) - ?n)"
    using fn by simp
  have rl: "recv_loop None (of_nat ?n) (bblk ?r) 0 (map R_data css @ inp) = Rl_done (?p @ drop ?n (bblk ?r)) inp"
    using recv_loop_chunks [of "[]" css "of_nat ?n" "bblk ?r" "Suc (max BUFSIZ ?n) - ?n" inp] assms(7) lb un by simp
  have n4: "(of_nat ?n :: u32) \<noteq> 4"
  proof
    assume "(of_nat ?n :: u32) = 4"
    then have "?n = 4" using un by (metis unat_numeral_sizes(1))
    with lp l32 show False by simp
  qed
  have rs: "rest (?r\<lparr>bblk := ?p @ drop ?n (bblk ?r), bsize := of_nat ?n\<rparr>) =
      server_packet env key salt ssid mid sq body pad @ drop ?n (?p @ drop ?n (bblk ?r))"
    using assms(6) by (simp add: rest_def)
  show ?thesis
    by (rule exI [of _ ?r], rule exI [of _ "?p @ drop ?n (bblk ?r)"]) (intro conjI al rl n4 rs)
qed

text \<open>Up to the object: the layers applied to a packet that arrives in pieces.\<close>

lemma receive_layers:
  assumes "crypto_ok (w_env w)" and "key_ok (s_tg s)" and "session_ok (s_tg s)"
    and "length salt = 8" and "length ssid = 8" and "16 dvd length (plain_wire salt ssid mid sq body pad)"
    and "length (plain_wire salt ssid mid sq body pad) < 2 ^ 30"
    and "concat css = server_packet (w_env w) (bytes (tg_key (s_tg s))) salt ssid mid sq body pad" and "[] \<notin> set css"
    and "s_heap s a = Some q" and "q_progress q = None"
  shows "tg_receive fuel w a s (R_data (le_bytes 4 (of_nat (length (concat css)) :: u32)) # map R_data css @ inp) =
     do {
       (t, _) \<leftarrow> tl_deserialize (l_table (w_lib w)) (mkbuf body);
       (case t of
          None \<Rightarrow> None
        | Some t \<Rightarrow>
            (if tl_id t = 0xedab447b then Some (RTL_RESEND, after_packet w s salt mid, inp)
             else do {
               s \<leftarrow> handle_tl fuel w a (after_packet w s salt mid) (Some t);
               Some (RTL_REREAD, s, inp)
             }))
     }"
proof -
  obtain r blk where r: "buf_realloc malloc_ok (mkbuf []) (of_nat (length (concat css))) = Some (0, r)"
      "recv_loop None (of_nat (length (concat css))) (bblk r) 0 (map R_data css @ inp) = Rl_done blk inp"
      "(of_nat (length (concat css)) :: u32) \<noteq> 4"
      "rest (r\<lparr>bblk := blk, bsize := of_nat (length (concat css))\<rparr>) =
         server_packet (w_env w) (bytes (tg_key (s_tg s))) salt ssid mid sq body pad @ drop (length (concat css)) blk"
    using assembled_packet [OF assms(1,4-9), of inp] by blast
  let ?b = "r\<lparr>bblk := blk, bsize := of_nat (length (concat css))\<rparr>"
  have "bsize ?b = of_nat (length (server_packet (w_env w) (bytes (tg_key (s_tg s))) salt ssid mid sq body pad))"
    using assms(8) by simp
  from decrypt_deheader_packet [OF assms(1-7) r(4) this] obtain d where
    d: "tg_decrypt (w_env w) (s_tg s) ?b True = Some d" "bsize d \<noteq> 0"
       "tg_deheader (w_env w) (s_tg s) d True = Some (mkbuf body, tg_add_msgid (w_env w) ((s_tg s)\<lparr>tg_salt := mkbuf salt\<rparr>) mid)"
    by blast
  show ?thesis
    unfolding after_packet_def
    using d r(1-3) assms(10,11) by (simp add: tg_receive_def Let_def)
qed

text \<open>
  C2: A packet's way in: the bytes of a sealed server message, in any pieces, are assembled,
  decrypted, unframed and deserialised; the object is handled, the message identifier is
  queued for acknowledgement, the server's salt is adopted, and the thread reads on.
\<close>

theorem receive_server_packet:
  assumes "crypto_ok (w_env w)" and "key_ok (s_tg s)" and "session_ok (s_tg s)"
    and "length salt = 8" and "length ssid = 8" and "16 dvd length (plain_wire salt ssid mid sq body pad)"
    and "length (plain_wire salt ssid mid sq body pad) < 2 ^ 30"
    and "concat css = server_packet (w_env w) (bytes (tg_key (s_tg s))) salt ssid mid sq body pad" and "[] \<notin> set css"
    and "s_heap s a = Some q" and "q_progress q = None"
    and "tl_deserialize (l_table (w_lib w)) (mkbuf body) = Some (Some t, b')" and "tl_id t \<noteq> 0xedab447b"
    and "handle_tl fuel w a (after_packet w s salt mid) (Some t) = Some s'"
  shows "tg_receive fuel w a s (R_data (le_bytes 4 (of_nat (length (concat css)) :: u32)) # map R_data css @ inp) =
         Some (RTL_REREAD, s', inp)"
  using receive_layers [OF assms(1-11)] assms(12-14) by simp

definition sample_world1 :: world where
  "sample_world1 = sample_world\<lparr>w_lib := (w_lib sample_world)\<lparr>l_table := [(1, \<lambda>b. Some (Some (Other b 1), b))]\<rparr>\<rparr>"

lemma sample_session [simp]: "session_ok sample_tg"
  by (simp add: session_ok_def sample_tg_def)

lemma sample_progress [simp]: "q_progress sample_queue = None"
  by (simp add: sample_queue_def)

theorem receive_server_packet_witness:
  "let p = server_packet sample_env (bytes (tg_key sample_tg)) (replicate 8 1) (replicate 8 2) 5 6 [1, 0, 0, 0] (replicate 12 0) in
   tg_receive 1 sample_world1 0 sample_sys (R_data (le_bytes 4 (of_nat (length (concat [take 10 p, drop 10 p])) :: u32)) #
     map R_data [take 10 p, drop 10 p] @ []) =
   Some (RTL_REREAD, after_packet sample_world1 sample_sys (replicate 8 1) 5, [])"
proof -
  let ?p = "server_packet sample_env (bytes (tg_key sample_tg)) (replicate 8 1) (replicate 8 2) 5 6 [1, 0, 0, 0] (replicate 12 0)"
  have e: "w_env sample_world1 = sample_env" by (simp add: sample_world1_def)
  have lp: "length ?p = 72"
    by (simp add: server_packet_def mt_seal_def Let_def mt_auth_key_id_def mt_msg_key_def sample_env_def length_plain_wire)
  then have ne: "?p \<noteq> []" by auto
  have t: "tl_deserialize (l_table (w_lib sample_world1)) (mkbuf [1, 0, 0, 0]) =
      Some (Some (Other (mkbuf [1, 0, 0, 0]) 1), mkbuf [1, 0, 0, 0])"
    by (simp add: tl_deserialize_def sample_world1_def load_rest [of "mkbuf _", simplified] rest_mkbuf BUFSIZ_def)
  have h: "handle_tl 1 sample_world1 0 (after_packet sample_world1 sample_sys (replicate 8 1) 5) (Some (Other (mkbuf [1, 0, 0, 0]) 1)) =
      Some (after_packet sample_world1 sample_sys (replicate 8 1) 5)" by simp
  show ?thesis
    unfolding Let_def
    by (rule receive_server_packet [OF _ _ _ _ _ _ _ _ _ _ _ t _ h, of "replicate 8 2" 6 "replicate 12 0" _ sample_queue])
       (use lp ne in \<open>simp_all add: e length_plain_wire\<close>)
qed


text \<open>
  A message that the tables do not know brings the thread down: the object is a null
  pointer, whose identifier is read before anything else.  A bad-salt message asks for the
  query to be sent again, and the client has adopted the salt of that message by then.
\<close>

theorem receive_unknown_or_bad_salt:
  assumes "crypto_ok (w_env w)" and "key_ok (s_tg s)" and "session_ok (s_tg s)"
    and "length salt = 8" and "length ssid = 8" and "16 dvd length (plain_wire salt ssid mid sq body pad)"
    and "length (plain_wire salt ssid mid sq body pad) < 2 ^ 30"
    and "concat css = server_packet (w_env w) (bytes (tg_key (s_tg s))) salt ssid mid sq body pad" and "[] \<notin> set css"
    and "s_heap s a = Some q" and "q_progress q = None"
    and "tl_deserialize (l_table (w_lib w)) (mkbuf body) = Some (t, b')"
    and "t = None \<or> (\<exists>b. t = Some (Bad_server_salt b))"
  shows "tg_receive fuel w a s (R_data (le_bytes 4 (of_nat (length (concat css)) :: u32)) # map R_data css @ inp) =
         (if t = None then None else Some (RTL_RESEND, after_packet w s salt mid, inp)) \<and>
         tg_salt (s_tg (after_packet w s salt mid)) = mkbuf salt"
  using receive_layers [OF assms(1-11)] assms(12,13)
  by (auto simp: after_packet_def tg_add_msgid_def)

theorem receive_unknown_or_bad_salt_witness:
  "let p = server_packet sample_env (bytes (tg_key sample_tg)) (replicate 8 1) (replicate 8 2) 5 6 [1, 0, 0, 0] (replicate 12 0) in
   tg_receive 1 sample_world 0 sample_sys (R_data (le_bytes 4 (of_nat (length (concat [p])) :: u32)) # map R_data [p] @ []) =
     (if None = (None :: tl option) then None else Some (RTL_RESEND, after_packet sample_world sample_sys (replicate 8 1) 5, [])) \<and>
   tg_salt (s_tg (after_packet sample_world sample_sys (replicate 8 1) 5)) = mkbuf (replicate 8 1)"
proof -
  let ?p = "server_packet sample_env (bytes (tg_key sample_tg)) (replicate 8 1) (replicate 8 2) 5 6 [1, 0, 0, 0] (replicate 12 0)"
  have "length ?p = 72"
    by (simp add: server_packet_def mt_seal_def Let_def mt_auth_key_id_def mt_msg_key_def sample_env_def length_plain_wire)
  then have ne: "?p \<noteq> []" by auto
  have t: "tl_deserialize (l_table (w_lib sample_world)) (mkbuf [1, 0, 0, 0]) = Some (None, mkbuf [1, 0, 0, 0])"
    by (simp add: tl_deserialize_def sample_world_def load_rest [of "mkbuf _", simplified] rest_mkbuf BUFSIZ_def)
  show ?thesis
    unfolding Let_def
    by (rule receive_unknown_or_bad_salt [OF _ _ _ _ _ _ _ _ _ _ _ t, where ssid = "replicate 8 2" and sq = 6 and pad = "replicate 12 0" and q = sample_queue])
       (use ne in \<open>simp_all add: length_plain_wire\<close>)
qed

section \<open>Starting and redirecting queries\<close>

text \<open>
  The thread that a caller of \<^verbatim>\<open>tg_send_query_async\<close> gets, and that a synchronous call
  joins, is the timer that sleeps a minute, not the thread that works on the query: the
  second \<^verbatim>\<open>pthread_create\<close> overwrites the first one's identifier.
\<close>

theorem async_returns_timer:
  assumes "tg_send_query_async w s query mt cb pr = Some (p, s')"
  shows "p = Some (T_timer (s_next s)) \<and>
         s_trace s' = s_trace s @ [Spawn (T_run (s_next s)), Spawn (T_timer (s_next s))]"
  using assms
  by (auto simp: tg_send_query_async_def tg_queue_new_def Let_def emit_def set_queue_def
      split: if_splits Option.bind_splits)

theorem async_returns_timer_witness:
  "\<exists>s'. tg_send_query_async sample_world sample_sys (mkbuf [1, 2, 3, 4]) True User_cb None = Some (Some (T_timer 1), s') \<and>
        s_trace s' = s_trace sample_sys @ [Spawn (T_run 1), Spawn (T_timer 1)]"
proof -
  obtain p s' where r: "tg_send_query_async sample_world sample_sys (mkbuf [1, 2, 3, 4]) True User_cb None = Some (p, s')"
    by (simp add: tg_send_query_async_def tg_queue_new_def Let_def emit_def set_queue_def sample_world_def buf_add_buf_def buf_add_part_mkbuf fits_def)
  have "s_next sample_sys = 1" by (simp add: sample_sys_def)
  with async_returns_timer [OF r] r show ?thesis by simp
qed


lemma queue_new_ok:
  assumes "w_malloc w" and "\<And>i. w_mutex w i = 0" and "w_thread w = 0" and "readable b" and "fits (unat (bsize b))"
  shows "\<exists>q s'. tg_queue_new w s b ip port mt cb pr = Some (Some (s_next s), s') \<and>
     s_heap s' = (s_heap s)(s_next s \<mapsto> q) \<and> s_tg s' = s_tg s \<and> s_list s' = s_list s \<and>
     s_trace s' = s_trace s @ [Spawn (T_run (s_next s)), Spawn (T_timer (s_next s))] \<and>
     q_query q = mkbuf (bytes b) \<and> q_ip q = take 15 ip \<and> q_port q = port \<and> q_on_done q = cb \<and> q_loop q"
proof -
  have "buf_add_buf b = Some (mkbuf (bytes b))"
    using assms(4,5) buf_add_part [of b 0 "bsize b"] by (simp add: buf_add_buf_def substr_def)
  then show ?thesis
    using assms(1-3)
    by (intro exI [of _ "\<lparr>q_ip = take 15 ip, q_port = port, q_p = Some (T_timer (s_next s)), q_socket = 0, q_loop = True,
          q_multithread = mt, q_query = mkbuf (bytes b), q_msgid = 0, q_on_done = cb, q_progress = pr\<rparr>"])
       (simp add: tg_queue_new_def Let_def emit_def set_queue_def strncpy_def)
qed

text \<open>The text of a redirection of either kind.\<close>

definition redirect_text :: "bool \<Rightarrow> nat \<Rightarrow> string" where
  "redirect_text to_file n = (if to_file then ''FILE_'' else ''USER_'') @ ''MIGRATE_'' @ dec n"

lemma redirect_kind:
  assumes "1 \<le> n" and "n \<le> 5"
  shows "tg_error_migrate (Some (redirect_text to_file n)) = Some (Some (DCs ! n))"
    "tg_error_file_migrate (Some (redirect_text to_file n)) = Some (if to_file then Some (DCs ! n) else None)"
proof -
  have g: "tg_error_get_num (k @ p @ dec n) p = Some (int n)" if "p \<noteq> []" "hd p \<notin> set k" for k p
    using get_num_dec [OF that, of n "[]"] assms by simp
  have d: "dc_at (int n) = Some (Some (DCs ! n))" using assms by (simp add: dc_at_def)
  show "tg_error_migrate (Some (redirect_text to_file n)) = Some (Some (DCs ! n))"
    using g [of "''MIGRATE_''" "if to_file then ''FILE_'' else ''USER_''"] d assms
    by (simp add: tg_error_migrate_def error_dc_def redirect_text_def split: if_splits)
  have f: "tg_error_get_num (''FILE_MIGRATE_'' @ dec n) ''FILE_MIGRATE_'' = Some (int n)"
    using g [of "''FILE_MIGRATE_''" "[]"] by simp
  have nf: "CHR ''F'' \<notin> set (dec n)"
  proof
    assume "CHR ''F'' \<in> set (dec n)"
    then have "isdigit (CHR ''F'')" by (rule dec_digits)
    then show False by (simp add: isdigit_def)
  qed
  have "strstr (''USER_MIGRATE_'' @ dec n) ''FILE_MIGRATE_'' = None"
    by (rule strstr_absent) (use nf in simp_all)
  then show "tg_error_file_migrate (Some (redirect_text to_file n)) = Some (if to_file then Some (DCs ! n) else None)"
    using f d assms
    by (simp add: tg_error_file_migrate_def error_dc_def redirect_text_def tg_error_get_num_def)
qed

lemma dc_ipv4_short: "n < 9 \<Longrightarrow> take 15 (dc_ipv4 (DCs ! n)) = dc_ipv4 (DCs ! n)"
  by (auto simp: DCs_def DC_def nth_Cons' numeral_nat)




lemma cut_total: "live s \<Longrightarrow> \<exists>r l. tg_queue_cut w s mid = Some (r, s\<lparr>s_list := l\<rparr>)"
proof (cases "e_lock (w_env w) Queue_lock")
  case True
  assume "live s"
  then show ?thesis
    using list_cut_msgid_eq [of "s_list s" "s_heap s" mid] True
    by (cases "cut_first (\<lambda>a. mid = q_msgid (the (s_heap s a))) (s_list s)")
       (auto simp: tg_queue_cut_def live_def qlist_cut_def)
next
  case False
  then show ?thesis by (intro exI [of _ None] exI [of _ "s_list s"]) (simp add: tg_queue_cut_def)
qed

text \<open>Nothing to prepare for a client that has key, session and salt.\<close>

lemma prepare_mtproto_ready:
  "session_ok (s_tg s) \<Longrightarrow> key_ok (s_tg s) \<Longrightarrow> tg_prepare_mtproto w a s = Some s"
  by (simp add: tg_prepare_mtproto_def session_ok_def key_ok_def)

lemma send_fails:
  assumes "locks_ok (w_env w)" and "crypto_ok (w_env w)" and "session_ok (s_tg s)" and "key_ok (s_tg s)"
    and "tg_msgids (s_tg s) = []" and "s_heap s a = Some q" and "readable (q_query q)"
    and "unat (bsize (q_query q)) < 2 ^ 29" and "\<And>bs. w_send w bs < 0"
  shows "\<exists>mid tg'. tg_send w a s =
     Some (1, emit (Close (q_socket q)) (set_queue a (\<lambda>q. q\<lparr>q_msgid := mid\<rparr>) (s\<lparr>s_tg := tg'\<rparr>)))"
proof -
  obtain b mid tg' where p: "tg_prepare_query (w_env w) (s_tg s) (q_query q) True (q_msgid q) = Some (b, mid, tg')"
    "readable b"
    using prepare_query_eq [OF assms(1-5,7,8), of "q_msgid q"] by (metis readable_mkbuf)
  show ?thesis
    using p assms(1,6,9) prepare_mtproto_ready [OF assms(3,4), of w a] mem_read_bytes [OF p(2)]
    by (intro exI [of _ mid] exI [of _ tg']) (simp add: tg_send_def Let_def)
qed

text \<open>
  When a query cannot be sent, its socket is closed twice: once where the send fails and
  again when the thread ends.
\<close>

theorem failed_send_closes_twice:
  assumes "locks_ok (w_env w)" and "crypto_ok (w_env w)" and "session_ok (s_tg s)" and "key_ok (s_tg s)"
    and "tg_msgids (s_tg s) = []" and "s_heap s a = Some q" and "readable (q_query q)"
    and "unat (bsize (q_query q)) < 2 ^ 29" and "\<And>bs. w_send w bs < 0" and "0 \<le> sock"
    and "live s"
  shows "\<exists>s'. tg_run_queue (Suc n) fuel w a sock s inp lks = Some s' \<and>
              s_trace s' = s_trace s @ [Close sock, Close sock]"
proof -
  let ?s = "tg_queue_add w (set_queue a (\<lambda>q. q\<lparr>q_socket := sock\<rparr>) s) a"
  let ?q = "q\<lparr>q_socket := sock\<rparr>"
  have s: "s_tg ?s = s_tg s" "s_heap ?s a = Some ?q" "s_trace ?s = s_trace s" "s_list ?s = a # s_list s"
    "\<And>b. s_heap s b \<noteq> None \<Longrightarrow> s_heap ?s b \<noteq> None"
    using assms(1,6) by (auto simp: tg_queue_add_def set_queue_def qlist_add_def)
  obtain mid tg' where snd: "tg_send w a ?s =
     Some (1, emit (Close sock) (set_queue a (\<lambda>q. q\<lparr>q_msgid := mid\<rparr>) (?s\<lparr>s_tg := tg'\<rparr>)))"
    using send_fails [of w ?s a ?q] assms s(1,2) by auto
  let ?u = "stop_loop a (emit (Close sock) (set_queue a (\<lambda>q. q\<lparr>q_msgid := mid\<rparr>) (?s\<lparr>s_tg := tg'\<rparr>)))"
  have u: "s_heap ?u a = Some (?q\<lparr>q_msgid := mid, q_loop := False\<rparr>)" "s_trace ?u = s_trace s @ [Close sock]"
    "s_list ?u = a # s_list s" "\<And>b. s_heap s b \<noteq> None \<Longrightarrow> s_heap ?u b \<noteq> None"
    using s by (auto simp: stop_loop_def set_queue_def emit_def)
  let ?v = "emit (Close sock) ?u"
  have "live ?v" using u assms(11) by (auto simp: live_def emit_def)
  from cut_total [OF this, of w mid] obtain r l where c: "tg_queue_cut w ?v mid = Some (r, ?v\<lparr>s_list := l\<rparr>)" by blast
  have "tg_run_queue (Suc n) fuel w a sock s inp lks = Some (?v\<lparr>s_list := l\<rparr>)"
    using assms(10) snd u(1) c by (simp add: tg_run_queue_def Let_def)
  then show ?thesis using u(2) by (simp add: emit_def)
qed


theorem failed_send_closes_twice_witness:
  "\<exists>s'. tg_run_queue (Suc 0) 1 (sample_world\<lparr>w_send := \<lambda>bs. - 1\<rparr>) 0 3 sample_sys [] [] = Some s' \<and>
        s_trace s' = s_trace sample_sys @ [Close 3, Close 3]"
  by (rule failed_send_closes_twice [where q = sample_queue])
     (simp_all add: sample_queue_def fits_def live_def sample_tg_def [of] sample_world_def session_ok_def key_ok_def)

end
