(* ===== verification/Answer.thy ===== *)
theory Answer
  imports Tg_Core
begin

text \<open>
  \<^verbatim>\<open>tg_parse_answer\<close> of \<^verbatim>\<open>libtg/tg/answer.c\<close>: the second way an object is taken apart, for the
  blocking calls of \<^verbatim>\<open>send_query.c\<close>.  The callback works on a state of its own; updates
  are collected.
\<close>

text \<open>The client, the callback's state, and the updates handed to \<^verbatim>\<open>tg_do_updates\<close>.\<close>

record 'p answer =
  a_tg :: tg
  a_ptr :: 'p
  a_updates :: "tl list"

type_synonym 'p cb = "'p \<Rightarrow> tl option \<Rightarrow> ('p \<times> int) option"

definition call_cb :: "'p cb option \<Rightarrow> 'p answer \<Rightarrow> tl option \<Rightarrow> ('p answer \<times> int) option" where
  "call_cb cb s t = (case cb of None \<Rightarrow> Some (s, 0)
     | Some f \<Rightarrow> do { (p, r) \<leftarrow> f (a_ptr s) t; Some (s\<lparr>a_ptr := p\<rparr>, r) })"

text \<open>The loop over the identifiers of \<^verbatim>\<open>msgs_ack\<close>.\<close>

fun ack_loop :: "'p cb option \<Rightarrow> u64 \<Rightarrow> tl \<Rightarrow> u64 list \<Rightarrow> int \<Rightarrow> 'p answer \<Rightarrow> (int \<times> 'p answer) option" where
  "ack_loop cb mid t [] ret s = Some (ret, s)"
| "ack_loop cb mid t (k # ks) ret s =
     (if mid = k then do {
        (s, r) \<leftarrow> call_cb cb s (Some t);
        if r \<noteq> 0 then Some (0, s) else ack_loop cb mid t ks 0 s
      } else ack_loop cb mid t ks ret s)"

text \<open>
  The result is 0 when the object is for \<open>mid\<close>.  In the branch for packed objects the
  inner declaration \<^verbatim>\<open>tl_t *tl = tg_tl_from_gzip(tg, tl)\<close> reads the variable it
  declares: undefined.
\<close>

fun tg_parse_answer :: "nat \<Rightarrow> env \<Rightarrow> lib \<Rightarrow> 'p cb option \<Rightarrow> u64 \<Rightarrow> 'p answer \<Rightarrow> tl option \<Rightarrow> (int \<times> 'p answer) option"
  and parse_msgs :: "nat \<Rightarrow> env \<Rightarrow> lib \<Rightarrow> 'p cb option \<Rightarrow> u64 \<Rightarrow> 'p answer \<Rightarrow> mtp_message list \<Rightarrow> 'p answer option"
where
  "tg_parse_answer 0 env lib cb mid s t = None"
| "tg_parse_answer (Suc n) env lib cb mid s None = Some (1, s)"
| "tg_parse_answer (Suc n) env lib cb mid s (Some t) =
     (case t of
        Rpc_result _ k r \<Rightarrow> do {
          let s = s\<lparr>a_tg := tg_add_msgid env (a_tg s) mid\<rparr>;
          if mid = k then do { (s, _) \<leftarrow> call_cb cb s r; Some (0, s) }
          else Some (1, s)
        }
      | Msg_detailed_info _ k \<Rightarrow>
          (if mid = k then do {
             let s = s\<lparr>a_tg := tg_add_msgid env (a_tg s) k\<rparr>;
             (s, _) \<leftarrow> call_cb cb s (Some t);
             Some (0, s)
           } else Some (1, s))
      | Msg_new_detailed_info _ k \<Rightarrow>
          (if mid = k then do {
             let s = s\<lparr>a_tg := tg_add_msgid env (a_tg s) k\<rparr>;
             (s, _) \<leftarrow> call_cb cb s (Some t);
             Some (0, s)
           } else Some (1, s))
      | Rpc_error _ _ _ \<Rightarrow> do {
          _ \<leftarrow> tg_strerr (l_name lib) (Some t);
          Some (1, s\<lparr>a_tg := (a_tg s)\<lparr>tg_timediff := ntp_time_diff\<rparr>\<rparr>)
        }
      | Bad_msg_notification _ _ \<Rightarrow> do {
          _ \<leftarrow> tg_strerr (l_name lib) (Some t);
          Some (1, s\<lparr>a_tg := (a_tg s)\<lparr>tg_timediff := ntp_time_diff\<rparr>\<rparr>)
        }
      | Updates _ _ \<Rightarrow> Some (1, s\<lparr>a_updates := a_updates s @ [t]\<rparr>)
      | Msg_container _ ms \<Rightarrow> do { s \<leftarrow> parse_msgs n env lib cb mid s ms; Some (1, s) }
      | Gzip_packed _ _ \<Rightarrow> None
      | Msgs_ack _ ks \<Rightarrow> ack_loop cb mid t ks 1 s
      | _ \<Rightarrow> Some (1, s))"
| "parse_msgs n env lib cb mid s [] = Some s"
| "parse_msgs n env lib cb mid s (m # ms) =
     (case n of 0 \<Rightarrow> None
      | Suc k \<Rightarrow> do {
          (t, _) \<leftarrow> tl_deserialize (l_table lib) (msg_body m);
          (_, s) \<leftarrow> tg_parse_answer k env lib cb mid s t;
          parse_msgs n env lib cb mid s ms
        })"

section \<open>What it does\<close>

text \<open>
  The answer to the request is recognised by its identifier: the callback gets its object
  and the result is 0; a result for another request is left alone and gives 1.  Either way
  the client's own request identifier, not the server's message, is queued for
  acknowledgement.
\<close>

theorem parse_answer_result:
  assumes "e_lock env Msgidsm" and "\<And>p t. \<exists>p' r. cb p t = Some (p', r)"
  shows "\<exists>s'. tg_parse_answer (Suc n) env lib (Some cb) mid s (Some (Rpc_result b k r)) =
           Some (if mid = k then 0 else 1, s') \<and>
         tg_msgids (a_tg s') = tg_msgids (a_tg s) @ [mid] \<and>
         a_ptr s' = (if mid = k then fst (the (cb (a_ptr s) r)) else a_ptr s)"
proof (cases "mid = k")
  case True
  obtain p' e where "cb (a_ptr s) r = Some (p', e)" using assms(2) by blast
  with True assms(1) show ?thesis by (simp add: call_cb_def tg_add_msgid_def Let_def)
next
  case False
  with assms(1) show ?thesis by (simp add: tg_add_msgid_def Let_def)
qed

definition sample_lib :: lib where
  "sample_lib = \<lparr>z_init = 0, z_inflate = (\<lambda>x avail. (- 3, [])), l_table = [(7, \<lambda>b. Some (Some (Rpc_result b 9 None), b))],
     l_name = (\<lambda>k. ''x'')\<rparr>"

definition sample_answer :: "nat answer" where
  "sample_answer = \<lparr>a_tg = sample_tg, a_ptr = 0, a_updates = []\<rparr>"

theorem parse_answer_result_witness:
  "\<exists>s'. tg_parse_answer (Suc 0) sample_env sample_lib (Some (\<lambda>p t. Some (Suc p, 0))) 9 sample_answer (Some (Rpc_result (mkbuf []) 9 None)) =
          Some (if (9 :: u64) = 9 then 0 else 1, s') \<and>
        tg_msgids (a_tg s') = tg_msgids (a_tg sample_answer) @ [9] \<and>
        a_ptr s' = (if (9 :: u64) = 9 then fst (the ((\<lambda>p t. Some (Suc p, 0 :: int)) (a_ptr sample_answer) None)) else a_ptr sample_answer)"
  by (rule parse_answer_result) (simp_all add: sample_env_def)

text \<open>
  Inside a container the answer is found and handed to the callback, but the result says
  otherwise: for a container of messages that deserialise, whatever is inside, the result
  is 1, \<^verbatim>\<open>not for this request\<close>.
\<close>

theorem container_answer_reports_mismatch:
  assumes "tg_parse_answer (Suc n) env lib cb mid s (Some (Msg_container b ms)) = Some (ret, s')"
  shows "ret = 1"
  using assms by (auto split: Option.bind_splits)

theorem container_answer_reports_mismatch_witness:
  "\<exists>s'. tg_parse_answer 3 sample_env sample_lib (Some (\<lambda>p t. Some (Suc p, 0))) 9 sample_answer
          (Some (Msg_container (mkbuf []) [\<lparr>msg_id = 1, msg_seqno = 1, msg_bytes = 4, msg_body = mkbuf [7, 0, 0, 0]\<rparr>])) = Some (1, s') \<and>
        a_ptr s' = 1"
proof -
  have d: "tl_deserialize (l_table sample_lib) (mkbuf [7, 0, 0, 0]) = Some (Some (Rpc_result (mkbuf [7, 0, 0, 0]) 9 None), mkbuf [7, 0, 0, 0])"
    by (simp add: tl_deserialize_def sample_lib_def load_rest [of "mkbuf _", simplified] rest_mkbuf BUFSIZ_def)
  obtain ret s' where r: "tg_parse_answer (Suc 2) sample_env sample_lib (Some (\<lambda>p t. Some (Suc p, 0))) 9 sample_answer
          (Some (Msg_container (mkbuf []) [\<lparr>msg_id = 1, msg_seqno = 1, msg_bytes = 4, msg_body = mkbuf [7, 0, 0, 0]\<rparr>])) = Some (ret, s')"
      "a_ptr s' = 1"
    by (simp add: d call_cb_def Let_def numeral_2_eq_2 sample_answer_def)
  from container_answer_reports_mismatch [OF r(1)] r show ?thesis by (simp add: numeral_3_eq_3 numeral_2_eq_2)
qed

text \<open>
  A packed object is never parsed: the branch reads an uninitialised pointer, for every
  client, callback and contents.
\<close>

theorem packed_answer_undefined:
  "tg_parse_answer n env lib cb mid s (Some (Gzip_packed b p)) = None"
  by (cases n) simp_all

end
