(* ===== verification/Send_Query.thy ===== *)
theory Send_Query
  imports Thread_Props Answer
begin

text \<open>
  The blocking calls of \<^verbatim>\<open>libtg/tg/send_query.c\<close> and the sockets of \<^verbatim>\<open>libtg/tg/net.c\<close>: a query
  gets a connection of its own, is sent, and the packets that come back are read until one
  is taken for the answer.
\<close>

section \<open>Opening a connection\<close>

text \<open>
  What the system answers to one \<^verbatim>\<open>tg_net_open\<close>: the descriptor of \<^verbatim>\<open>socket\<close>, the address that
  \<^verbatim>\<open>gethostbyname\<close> finds, the result of \<^verbatim>\<open>connect\<close> to an address and a port.
\<close>

record net =
  n_socket :: int
  n_host :: "string \<Rightarrow> u32 option"
  n_connect :: "u32 \<Rightarrow> 16 word \<Rightarrow> int"

definition tg_net_open :: "net \<Rightarrow> string \<Rightarrow> int \<Rightarrow> int \<times> event list" where
  "tg_net_open net ip port =
     (if n_socket net < 0 then (- 1, [])
      else case n_host net ip of
             None \<Rightarrow> (- 1, [])
           | Some addr \<Rightarrow>
               (if n_connect net addr (of_int port) < 0 then (- 1, [])
                else (n_socket net, [Send (n_socket net) [0xee, 0xee, 0xee, 0xee]])))"

definition tg_net_close :: "int \<Rightarrow> event" where
  "tg_net_close sockfd = Close sockfd"

section \<open>The call\<close>

text \<open>
  The client, what happened so far, the answers of the system to the next \<^verbatim>\<open>tg_net_open\<close> and
  \<^verbatim>\<open>recv\<close>, and the updates handed on.
\<close>

record via =
  v_tg :: tg
  v_trace :: "event list"
  v_nets :: "net list"
  v_inp :: "rcv list"
  v_updates :: "tl list"

definition vemit :: "event list \<Rightarrow> via \<Rightarrow> via" where
  "vemit es v = v\<lparr>v_trace := v_trace v @ es\<rparr>"

text \<open>A new key, session and salt where the client has none; the port of the key exchange is always 80.\<close>

definition via_prepare :: "world \<Rightarrow> via \<Rightarrow> int \<Rightarrow> (int \<times> via) option" where
  "via_prepare w v sock = do {
     (sock, v) \<leftarrow> (if bsize (tg_key (v_tg v)) = 0 then do {
             let v = vemit [tg_net_close sock] v;
             let rc = w_app w (tg_ip (v_tg v)) 80;
             key \<leftarrow> buf_add (rc_key rc) 0 (of_nat (length (rc_key rc)));
             salt \<leftarrow> buf_add (rc_salt rc) 0 (of_nat (length (rc_salt rc)));
             Some (rc_sockfd rc, v\<lparr>v_tg := (v_tg v)\<lparr>tg_key := key, tg_salt := salt, tg_seqn := rc_seqnh rc + 1\<rparr>\<rparr>)
           } else Some (sock, v));
     v \<leftarrow> (if bsize (tg_ssid (v_tg v)) = 0 then do {
             let (now, tg) = now_seconds (w_env w) (v_tg v);
             r \<leftarrow> buf_rand (e_rnd (w_env w)) now 8;
             Some (v\<lparr>v_tg := tg\<lparr>tg_ssid := r\<rparr>\<rparr>)
           } else Some v);
     v \<leftarrow> (if bsize (tg_salt (v_tg v)) = 0 then do {
             let (now, tg) = now_seconds (w_env w) (v_tg v);
             r \<leftarrow> buf_rand (e_rnd (w_env w)) now 8;
             Some (v\<lparr>v_tg := tg\<lparr>tg_salt := r\<rparr>\<rparr>)
           } else Some v);
     Some (sock, v)
   }"

text \<open>The static \<^verbatim>\<open>tg_send\<close>: the message identifier or 0, and the socket in use afterwards.\<close>

definition via_send :: "world \<Rightarrow> via \<Rightarrow> buf \<Rightarrow> int \<Rightarrow> (u64 \<times> int \<times> via) option" where
  "via_send w v query sock = do {
     _ \<leftarrow> buf_get_ui32 query;
     (sock, v) \<leftarrow> via_prepare w v sock;
     (b, mid, tg) \<leftarrow> tg_prepare_query (w_env w) (v_tg v) query True 0;
     let v = v\<lparr>v_tg := tg\<rparr>;
     if bsize b = 0 then Some (0, sock, vemit [tg_net_close sock] v)
     else do {
       out \<leftarrow> mem_read (bblk b) (bdata b) (unat (bsize b));
       if w_send w out < 0 then Some (0, sock, v)
       else Some (mid, sock, vemit [Send sock out] v)
     }
   }"

text \<open>
  The static \<^verbatim>\<open>tg_receive\<close>: a message, or \<^term>\<open>None\<close> where it returns 1.  The progress callback
  is only told how far it is, and is left out.
\<close>

definition via_receive :: "world \<Rightarrow> via \<Rightarrow> int \<Rightarrow> int set \<Rightarrow> (buf option \<times> via) option" where
  "via_receive w v sock fdset =
     (if sock \<notin> fdset then Some (None, v)
      else case v_inp v of
        [] \<Rightarrow> None
      | R_error # inp \<Rightarrow> Some (None, v\<lparr>v_inp := inp\<rparr>)
      | R_data h4 # inp \<Rightarrow>
          (if length h4 \<noteq> 4 then None
           else do {
             let len = (le_val h4 :: u32);
             (e, r) \<leftarrow> buf_realloc malloc_ok buf_new len;
             if e \<noteq> 0 then Some (None, v\<lparr>v_inp := inp\<rparr>)
             else (case recv_loop None len (bblk r) 0 inp of
                 Rl_error \<Rightarrow> Some (None, v\<lparr>v_inp := []\<rparr>)
               | Rl_cancel \<Rightarrow> None
               | Rl_overrun \<Rightarrow> None
               | Rl_wait \<Rightarrow> None
               | Rl_done blk inp \<Rightarrow> do {
                   let v = v\<lparr>v_inp := inp\<rparr>;
                   let r = r\<lparr>bblk := blk, bsize := len\<rparr>;
                   is404 \<leftarrow> (if bsize r = 4 then map_option (\<lambda>v. v = 0xfffffe6c) (buf_get_ui32 r) else Some False);
                   if is404 then Some (None, v)
                   else do {
                     d \<leftarrow> tg_decrypt (w_env w) (v_tg v) r True;
                     if bsize d = 0 then Some (None, v)
                     else do {
                       (msg, tg) \<leftarrow> tg_deheader (w_env w) (v_tg v) d True;
                       Some (Some msg, v\<lparr>v_tg := tg\<rparr>)
                     }
                   }
                 })
           }))"

text \<open>The answer is deserialised again from its own buffer; a null object is dereferenced.\<close>

definition tg_parse_answer_callback :: "lib \<Rightarrow> tl option cb" where
  "tg_parse_answer_callback lib d t =
     (case t of None \<Rightarrow> None
      | Some t \<Rightarrow> do { (x, _) \<leftarrow> tl_deserialize (l_table lib) (tl_buf t); Some (x, 0) })"

datatype via_end = Via_end "tl option" | Via_resend

text \<open>From the label \<^verbatim>\<open>recevive_data\<close> on; fuel for its \<^verbatim>\<open>goto\<close>.\<close>

fun via_loop :: "nat \<Rightarrow> nat \<Rightarrow> world \<Rightarrow> via \<Rightarrow> u64 \<Rightarrow> int \<Rightarrow> int set \<Rightarrow> (via_end \<times> via) option" where
  "via_loop 0 fuel w v mid sock fdset = None"
| "via_loop (Suc n) fuel w v mid sock fdset = do {
     (r, v) \<leftarrow> via_receive w v sock fdset;
     (case r of
        None \<Rightarrow> Some (Via_end None, v)
      | Some m \<Rightarrow> do {
          (t, _) \<leftarrow> tl_deserialize (l_table (w_lib w)) m;
          (_, a) \<leftarrow> tg_parse_answer fuel (w_env w) (w_lib w) (Some (tg_parse_answer_callback (w_lib w))) mid
                     \<lparr>a_tg = v_tg v, a_ptr = None, a_updates = v_updates v\<rparr> t;
          let v = v\<lparr>v_tg := a_tg a, v_updates := a_updates a\<rparr>;
          (case (case a_ptr a of Some x \<Rightarrow> Some x | None \<Rightarrow> t) of
             None \<Rightarrow> Some (Via_end None, v)
           | Some t \<Rightarrow> do {
               r \<leftarrow> (if tl_id t = 0x3072cfa1 then tg_tl_from_gzip (w_lib w) (Some t) else Some (Some t));
               t \<leftarrow> r;
               if tl_id t = 0xedab447b then Some (Via_resend, v)
               else if tl_id t = 0x62d6b459 then via_loop n fuel w v mid sock fdset
               else Some (Via_end (Some t), v)
             })
        })
   }"

text \<open>
  The whole call.  \<open>n\<close> bounds the resends and \<open>k\<close> the packets read per connection; the
  port given is ignored in favour of 80.
\<close>

fun tg_send_query_via_with_progress :: "nat \<Rightarrow> nat \<Rightarrow> nat \<Rightarrow> world \<Rightarrow> via \<Rightarrow> buf \<Rightarrow> string \<Rightarrow> int \<Rightarrow> (tl option \<times> via) option" where
  "tg_send_query_via_with_progress 0 k fuel w v query ip port = None"
| "tg_send_query_via_with_progress (Suc n) k fuel w v query ip port =
     (case v_nets v of
        [] \<Rightarrow> None
      | net # nets \<Rightarrow> do {
          let (sock, es) = tg_net_open net ip 80;
          let v = vemit es (v\<lparr>v_nets := nets\<rparr>);
          if sock < 0 then Some (None, v)
          else if \<not> e_lock (w_env w) Send_query then Some (None, vemit [tg_net_close sock] v)
          else do {
            let fdset = {sock};
            (mid, sock, v) \<leftarrow> via_send w v query sock;
            if mid = 0 then Some (None, vemit [tg_net_close sock] v)
            else do {
              (e, v) \<leftarrow> via_loop k fuel w v mid sock fdset;
              (case e of
                 Via_resend \<Rightarrow> tg_send_query_via_with_progress n k fuel w (vemit [tg_net_close sock] v) query ip port
               | Via_end t \<Rightarrow> Some (t, vemit [tg_net_close sock] v))
            }
          }
        })"

definition tg_send_query_via :: "nat \<Rightarrow> nat \<Rightarrow> nat \<Rightarrow> world \<Rightarrow> via \<Rightarrow> buf \<Rightarrow> string \<Rightarrow> int \<Rightarrow> (tl option \<times> via) option" where
  "tg_send_query_via n k fuel w v query ip port = tg_send_query_via_with_progress n k fuel w v query ip port"

definition tg_send_query_with_progress :: "nat \<Rightarrow> nat \<Rightarrow> nat \<Rightarrow> world \<Rightarrow> via \<Rightarrow> buf \<Rightarrow> (tl option \<times> via) option" where
  "tg_send_query_with_progress n k fuel w v query =
     tg_send_query_via_with_progress n k fuel w v query (tg_ip (v_tg v)) (tg_port (v_tg v))"


section \<open>A packet that comes in\<close>

definition after_receive :: "world \<Rightarrow> via \<Rightarrow> byte list \<Rightarrow> u64 \<Rightarrow> rcv list \<Rightarrow> via" where
  "after_receive w v salt mid inp =
     v\<lparr>v_inp := inp, v_tg := tg_add_msgid (w_env w) ((v_tg v)\<lparr>tg_salt := mkbuf salt\<rparr>) mid\<rparr>"

text \<open>The next packet on the connection: the server's message, in pieces, behind its length.\<close>

definition next_packet :: "world \<Rightarrow> via \<Rightarrow> byte list \<Rightarrow> u64 \<Rightarrow> byte list \<Rightarrow> rcv list \<Rightarrow> bool" where
  "next_packet w v salt mid body inp \<longleftrightarrow>
     (\<exists>ssid sq pad css.
        length salt = 8 \<and> length ssid = 8 \<and> 16 dvd length (plain_wire salt ssid mid sq body pad) \<and>
        length (plain_wire salt ssid mid sq body pad) < 2 ^ 30 \<and>
        concat css = server_packet (w_env w) (bytes (tg_key (v_tg v))) salt ssid mid sq body pad \<and> [] \<notin> set css \<and>
        v_inp v = R_data (le_bytes 4 (of_nat (length (concat css)) :: u32)) # map R_data css @ inp)"

definition client_ok :: "world \<Rightarrow> tg \<Rightarrow> bool" where
  "client_ok w tg \<longleftrightarrow> crypto_ok (w_env w) \<and> key_ok tg \<and> session_ok tg"

lemma via_receive_packet:
  assumes "client_ok w (v_tg v)" and "next_packet w v salt mid body inp" and "sock \<in> fdset"
  shows "via_receive w v sock fdset = Some (Some (mkbuf body), after_receive w v salt mid inp)"
proof -
  note ok = assms(1) [unfolded client_ok_def]
  obtain ssid sq pad css where p: "length salt = 8" "length ssid = 8"
      "16 dvd length (plain_wire salt ssid mid sq body pad)" "length (plain_wire salt ssid mid sq body pad) < 2 ^ 30"
      "concat css = server_packet (w_env w) (bytes (tg_key (v_tg v))) salt ssid mid sq body pad" "[] \<notin> set css"
      "v_inp v = R_data (le_bytes 4 (of_nat (length (concat css)) :: u32)) # map R_data css @ inp"
    using assms(2) unfolding next_packet_def by blast
  obtain r blk where r: "buf_realloc malloc_ok (mkbuf []) (of_nat (length (concat css))) = Some (0, r)"
      "recv_loop None (of_nat (length (concat css))) (bblk r) 0 (map R_data css @ inp) = Rl_done blk inp"
      "(of_nat (length (concat css)) :: u32) \<noteq> 4"
      "rest (r\<lparr>bblk := blk, bsize := of_nat (length (concat css))\<rparr>) =
         server_packet (w_env w) (bytes (tg_key (v_tg v))) salt ssid mid sq body pad @ drop (length (concat css)) blk"
    using assembled_packet [OF ok [THEN conjunct1] p(1-6), of inp] by blast
  let ?b = "r\<lparr>bblk := blk, bsize := of_nat (length (concat css))\<rparr>"
  have "bsize ?b = of_nat (length (server_packet (w_env w) (bytes (tg_key (v_tg v))) salt ssid mid sq body pad))"
    using p(5) by simp
  from decrypt_deheader_packet [OF _ _ _ p(1-4) r(4) this] ok obtain d where
    d: "tg_decrypt (w_env w) (v_tg v) ?b True = Some d" "bsize d \<noteq> 0"
       "tg_deheader (w_env w) (v_tg v) d True = Some (mkbuf body, tg_add_msgid (w_env w) ((v_tg v)\<lparr>tg_salt := mkbuf salt\<rparr>) mid)"
    by blast
  show ?thesis
    using assms(3) p(7) r(1-3) d by (simp add: via_receive_def after_receive_def Let_def)
qed

section \<open>What the call returns\<close>

text \<open>A client that has its key and session and nothing to acknowledge; a query; a system that takes it.\<close>

definition call_ok :: "world \<Rightarrow> via \<Rightarrow> buf \<Rightarrow> bool" where
  "call_ok w v query \<longleftrightarrow>
     locks_ok (w_env w) \<and> client_ok w (v_tg v) \<and> tg_msgids (v_tg v) = [] \<and> id_at (w_env w) (v_tg v) 0 \<noteq> 0 \<and>
     readable query \<and> 4 \<le> unat (bsize query) \<and> unat (bsize query) < 2 ^ 29 \<and> (\<forall>out. 0 \<le> w_send w out)"

definition opens :: "net \<Rightarrow> string \<Rightarrow> int \<Rightarrow> bool" where
  "opens net ip sock \<longleftrightarrow> tg_net_open net ip 80 = (sock, [Send sock [0xee, 0xee, 0xee, 0xee]]) \<and> 0 \<le> sock"

definition sent_tg :: "tg \<Rightarrow> tg" where
  "sent_tg tg = tick (snd (next_seqno (tick tg) True))"

lemma sent_tg_simps [simp]:
  "tg_key (sent_tg tg) = tg_key tg" "tg_salt (sent_tg tg) = tg_salt tg" "tg_ssid (sent_tg tg) = tg_ssid tg"
  "key_ok (sent_tg tg) = key_ok tg" "session_ok (sent_tg tg) = session_ok tg"
  by (simp_all add: sent_tg_def next_seqno_def key_ok_def session_ok_def)

lemma vemit_simps [simp]:
  "v_tg (vemit es v) = v_tg v" "v_inp (vemit es v) = v_inp v" "v_nets (vemit es v) = v_nets v"
  "v_updates (vemit es v) = v_updates v" "v_trace (vemit es v) = v_trace v @ es"
  by (simp_all add: vemit_def)

lemma session_nonempty: "session_ok tg \<Longrightarrow> bsize (tg_ssid tg) \<noteq> 0 \<and> bsize (tg_salt tg) \<noteq> 0"
  by (auto simp: session_ok_def)

lemma via_prepare_ready:
  assumes "key_ok (v_tg v)" and "session_ok (v_tg v)"
  shows "via_prepare w v sock = Some (sock, v)"
  using assms session_nonempty [OF assms(2)] by (auto simp: via_prepare_def key_ok_def)

lemma via_send_prepared:
  assumes "via_prepare w v0 sock0 = Some (sock, v)" and "call_ok w v query"
  shows "\<exists>out. via_send w v0 query sock0 =
     Some (id_at (w_env w) (v_tg v) 0, sock, vemit [Send sock out] (v\<lparr>v_tg := sent_tg (v_tg v)\<rparr>))"
proof -
  note ok = assms(2) [unfolded call_ok_def client_ok_def]
  obtain pad p where p: "tg_prepare_query (w_env w) (v_tg v) query True 0 =
      Some (mkbuf p, id_at (w_env w) (v_tg v) 0, sent_tg (v_tg v))" "fits (length p)"
    and pe: "p = len_frame (mt_seal (w_env w) 0 (bytes (tg_key (v_tg v)))
           (plain_wire (bytes (tg_salt (v_tg v))) (bytes (tg_ssid (v_tg v))) (id_at (w_env w) (v_tg v) 0)
              (tg_seqn (v_tg v) * 2 + 1) (bytes query) pad))"
    unfolding sent_tg_def using prepare_query_state [of "w_env w" "v_tg v" query 0] ok by blast
  have "length p \<noteq> 0" by (simp add: pe len_frame_def)
  with p(2) have nz: "bsize (mkbuf p) \<noteq> 0" by (metis bsize_mkbuf unat_0 unat_of_nat_fits)
  have rd: "mem_read (bblk (mkbuf p)) (bdata (mkbuf p)) (unat (bsize (mkbuf p))) = Some p"
    using p(2) mem_read_bytes [of "mkbuf p"] by simp
  have "4 \<le> length (rest query)" using ok readable_rest_length [of query] by linarith
  then obtain q where q: "buf_get_ui32 query = Some q" by (simp add: buf_get_ui32_def load_rest)
  show ?thesis
    using p(1) nz rd q ok assms(1) by (auto simp: via_send_def Let_def not_less)
qed

lemma via_send_ok:
  assumes "call_ok w v query"
  shows "\<exists>out. via_send w v query sock =
     Some (id_at (w_env w) (v_tg v) 0, sock, vemit [Send sock out] (v\<lparr>v_tg := sent_tg (v_tg v)\<rparr>))"
proof -
  have "via_prepare w v sock = Some (sock, v)"
    using assms by (intro via_prepare_ready) (auto simp: call_ok_def client_ok_def)
  then show ?thesis using assms by (rule via_send_prepared)
qed

text \<open>A client without a key gets one, and with it another salt, sequence number and socket.\<close>

definition rekeyed :: "world \<Rightarrow> via \<Rightarrow> via" where
  "rekeyed w v = (let rc = w_app w (tg_ip (v_tg v)) 80 in
     v\<lparr>v_tg := (v_tg v)\<lparr>tg_key := mkbuf (rc_key rc), tg_salt := mkbuf (rc_salt rc), tg_seqn := rc_seqnh rc + 1\<rparr>\<rparr>)"

lemma via_prepare_rekeyed:
  assumes "bsize (tg_key (v_tg v)) = 0" and "fits (length (rc_key rc))" and "fits (length (rc_salt rc))"
    and "rc = w_app w (tg_ip (v_tg v)) 80" and "session_ok (v_tg (rekeyed w v))"
  shows "via_prepare w v sock = Some (rc_sockfd rc, vemit [tg_net_close sock] (rekeyed w v))"
  using assms session_nonempty [OF assms(5)]
  by (simp add: via_prepare_def rekeyed_def Let_def vemit_def)

text \<open>One packet read inside the call.\<close>

lemma via_loop_packet:
  assumes "client_ok w (v_tg v)" and "next_packet w v salt smid body inp" and "sock \<in> fdset"
    and "tl_deserialize (l_table (w_lib w)) (mkbuf body) = Some (Some t, b')"
    and "tg_parse_answer fuel (w_env w) (w_lib w) (Some (tg_parse_answer_callback (w_lib w))) mid
           \<lparr>a_tg = v_tg (after_receive w v salt smid inp), a_ptr = None, a_updates = v_updates v\<rparr> (Some t) = Some (e, a)"
    and "(case a_ptr a of Some x \<Rightarrow> x | None \<Rightarrow> t) = y"
    and "tl_id y \<notin> {0x3072cfa1, 0xedab447b, 0x62d6b459}"
  shows "via_loop (Suc k) fuel w v mid sock fdset =
     Some (Via_end (Some y), (after_receive w v salt smid inp)\<lparr>v_tg := a_tg a, v_updates := a_updates a\<rparr>)"
proof -
  have "v_updates (after_receive w v salt smid inp) = v_updates v" by (simp add: after_receive_def)
  with via_receive_packet [OF assms(1-3)] assms(4-7) show ?thesis
    by (auto simp: Let_def split: option.splits)
qed

text \<open>The call up to the first packet.\<close>

definition started :: "via \<Rightarrow> net list \<Rightarrow> int \<Rightarrow> byte list \<Rightarrow> via" where
  "started v nets sock out =
     vemit [Send sock [0xee, 0xee, 0xee, 0xee], Send sock out] (v\<lparr>v_nets := nets, v_tg := sent_tg (v_tg v)\<rparr>)"

lemma via_call:
  assumes "call_ok w v query" and "v_nets v = net # nets" and "opens net ip sock"
  shows "\<exists>out. tg_send_query_via_with_progress (Suc n) k fuel w v query ip port = do {
        (e, v') \<leftarrow> via_loop k fuel w (started v nets sock out) (id_at (w_env w) (v_tg v) 0) sock {sock};
        (case e of
           Via_resend \<Rightarrow> tg_send_query_via_with_progress n k fuel w (vemit [tg_net_close sock] v') query ip port
         | Via_end t \<Rightarrow> Some (t, vemit [tg_net_close sock] v')) }"
proof -
  let ?v = "vemit [Send sock [0xee, 0xee, 0xee, 0xee]] (v\<lparr>v_nets := nets\<rparr>)"
  have "call_ok w ?v query" using assms(1) by (simp add: call_ok_def)
  from via_send_ok [OF this, of sock] obtain out where
    o: "via_send w ?v query sock = Some (id_at (w_env w) (v_tg v) 0, sock, started v nets sock out)"
    by (auto simp: started_def vemit_def)
  have "id_at (w_env w) (v_tg v) 0 \<noteq> 0" "e_lock (w_env w) Send_query" "0 \<le> sock"
    using assms(1,3) by (auto simp: call_ok_def opens_def)
  then show ?thesis
    using o assms(2,3) by (auto simp: opens_def Let_def)
qed

lemma next_packet_started [simp]:
  "next_packet w (started v nets sock out) salt smid body inp = next_packet w v salt smid body inp"
  by (simp add: next_packet_def started_def)

lemma call_client: "call_ok w v query \<Longrightarrow> client_ok w (v_tg (started v nets sock out))"
  by (simp add: call_ok_def client_ok_def started_def)


definition sample_world2 :: world where
  "sample_world2 = sample_world\<lparr>w_lib := (w_lib sample_world)\<lparr>l_table :=
     [(1, \<lambda>b. Some (Some (Rpc_result b 4294967296 (Some (Other (mkbuf [2, 0, 0, 0]) 2))), b)),
      (2, \<lambda>b. Some (Some (Other b 2), b)), (3, \<lambda>b. Some (Some (Updates b 3), b))]\<rparr>\<rparr>"

definition sample_net :: net where
  "sample_net = \<lparr>n_socket = 5, n_host = (\<lambda>ip. Some 1), n_connect = (\<lambda>a p. 0)\<rparr>"

definition sample_packet :: "byte list \<Rightarrow> byte list" where
  "sample_packet body = server_packet sample_env (bytes (tg_key sample_tg)) (replicate 8 1) (replicate 8 2) 5 6 body (replicate 12 0)"

definition sample_via :: "byte list \<Rightarrow> via" where
  "sample_via body = \<lparr>v_tg = sample_tg, v_trace = [], v_nets = [sample_net],
     v_inp = [R_data (le_bytes 4 (72 :: u32)), R_data (take 10 (sample_packet body)), R_data (drop 10 (sample_packet body))],
     v_updates = []\<rparr>"

lemma sample_packet_length: "length body = 4 \<Longrightarrow> length (sample_packet body) = 72"
  by (simp add: sample_packet_def server_packet_def mt_seal_def Let_def mt_auth_key_id_def mt_msg_key_def sample_env_def length_plain_wire)

lemma sample_next:
  assumes "length body = 4"
  shows "next_packet sample_world2 (sample_via body) (replicate 8 1) 5 body []"
proof -
  let ?p = "sample_packet body"
  have l: "length ?p = 72" using sample_packet_length [OF assms] .
  have "concat [take 10 ?p, drop 10 ?p] = ?p" "[] \<notin> set [take 10 ?p, drop 10 ?p]" using l by auto
  with assms l show ?thesis
    unfolding next_packet_def
    by (intro exI [of _ "replicate 8 2"] exI [of _ 6] exI [of _ "replicate 12 0"] exI [of _ "[take 10 ?p, drop 10 ?p]"])
       (simp add: sample_via_def sample_world2_def length_plain_wire sample_packet_def)
qed

lemma sample_id: "id_at sample_env sample_tg 0 = 4294967296"
  by (simp add: id_at_def sample_env_def sample_tg_def)

lemma sample_call: "call_ok sample_world2 (sample_via body) (mkbuf [1, 2, 3, 4])"
proof -
  have "tg_msgids sample_tg = []" by (simp add: sample_tg_def)
  then show ?thesis
    by (simp add: call_ok_def client_ok_def sample_world2_def sample_via_def sample_id fits_def)
       (simp add: sample_world_def)
qed

lemma sample_opens: "opens sample_net ip 5"
  by (simp add: opens_def tg_net_open_def sample_net_def)

lemma sample_tables:
  "tl_deserialize (l_table (w_lib sample_world2)) (mkbuf [1, 0, 0, 0]) =
     Some (Some (Rpc_result (mkbuf [1, 0, 0, 0]) 4294967296 (Some (Other (mkbuf [2, 0, 0, 0]) 2))), mkbuf [1, 0, 0, 0])"
  "tl_deserialize (l_table (w_lib sample_world2)) (mkbuf [2, 0, 0, 0]) =
     Some (Some (Other (mkbuf [2, 0, 0, 0]) 2), mkbuf [2, 0, 0, 0])"
  "tl_deserialize (l_table (w_lib sample_world2)) (mkbuf [3, 0, 0, 0]) =
     Some (Some (Updates (mkbuf [3, 0, 0, 0]) 3), mkbuf [3, 0, 0, 0])"
  by (simp_all add: tl_deserialize_def sample_world2_def load_rest [of "mkbuf _", simplified] rest_mkbuf BUFSIZ_def)


text \<open>
  Whatever comes first is taken for the answer: an update that the server pushes while
  the call waits is not only handed to the updates but also returned as the result of the
  query, and the connection is closed before the real answer is read.
\<close>

theorem via_returns_update:
  assumes "call_ok w v query" and "v_nets v = net # nets" and "opens net ip sock"
    and "next_packet w v salt smid body inp"
    and "tl_deserialize (l_table (w_lib w)) (mkbuf body) = Some (Some (Updates b u), b1)"
    and "u \<notin> {0x3072cfa1, 0xedab447b, 0x62d6b459}"
  shows "\<exists>v'. tg_send_query_via_with_progress (Suc n) (Suc k) (Suc fuel) w v query ip port = Some (Some (Updates b u), v') \<and>
     v_updates v' = v_updates v @ [Updates b u] \<and> last (v_trace v') = Close sock \<and> v_inp v' = inp"
proof -
  obtain out where c: "tg_send_query_via_with_progress (Suc n) (Suc k) (Suc fuel) w v query ip port = do {
        (e, v') \<leftarrow> via_loop (Suc k) (Suc fuel) w (started v nets sock out) (id_at (w_env w) (v_tg v) 0) sock {sock};
        (case e of
           Via_resend \<Rightarrow> tg_send_query_via_with_progress n (Suc k) (Suc fuel) w (vemit [tg_net_close sock] v') query ip port
         | Via_end t \<Rightarrow> Some (t, vemit [tg_net_close sock] v')) }"
    using via_call [OF assms(1-3)] by blast
  let ?v = "started v nets sock out" and ?mid = "id_at (w_env w) (v_tg v) 0"
  let ?a = "\<lparr>a_tg = v_tg (after_receive w ?v salt smid inp), a_ptr = None, a_updates = v_updates ?v\<rparr> :: tl option answer"
  have "tg_parse_answer (Suc fuel) (w_env w) (w_lib w) (Some (tg_parse_answer_callback (w_lib w))) ?mid ?a
      (Some (Updates b u)) = Some (1, ?a\<lparr>a_updates := v_updates ?v @ [Updates b u]\<rparr>)"
    by simp
  from via_loop_packet [OF call_client [OF assms(1)] _ _ assms(5) this refl] assms(4,6)
  have l: "via_loop (Suc k) (Suc fuel) w ?v ?mid sock {sock} =
      Some (Via_end (Some (Updates b u)), (after_receive w ?v salt smid inp)
        \<lparr>v_updates := v_updates ?v @ [Updates b u]\<rparr>)"
    by (simp add: after_receive_def)
  show ?thesis
    unfolding c l by (simp add: after_receive_def started_def tg_net_close_def)
qed

theorem via_returns_update_witness:
  "\<exists>v'. tg_send_query_via_with_progress (Suc 0) (Suc 0) (Suc 0) sample_world2 (sample_via [3, 0, 0, 0])
          (mkbuf [1, 2, 3, 4]) ''1.2.3.4'' 443 = Some (Some (Updates (mkbuf [3, 0, 0, 0]) 3), v') \<and>
     v_updates v' = v_updates (sample_via [3, 0, 0, 0]) @ [Updates (mkbuf [3, 0, 0, 0]) 3] \<and>
     last (v_trace v') = Close 5 \<and> v_inp v' = []"
  by (rule via_returns_update [OF sample_call _ sample_opens sample_next sample_tables(3), of "[]"])
     (simp_all add: sample_via_def)

text \<open>
  The first query of a client without a key is sent but its answer is not read, unless
  the key exchange happens to leave the descriptor of the socket it replaced: the set of
  descriptors that the receiver consults still holds the closed one.  The call returns
  nothing, whatever the server sends.
\<close>

theorem via_new_key_unread:
  assumes "bsize (tg_key (v_tg v)) = 0" and "rc = w_app w (tg_ip (v_tg v)) 80"
    and "fits (length (rc_key rc))" and "fits (length (rc_salt rc))"
    and "call_ok w (rekeyed w v) query" and "v_nets v = net # nets" and "opens net ip sock" and "rc_sockfd rc \<noteq> sock"
  shows "\<exists>out v'. tg_send_query_via_with_progress (Suc n) (Suc k) fuel w v query ip port = Some (None, v') \<and>
     v_trace v' = v_trace v @ [Send sock [0xee, 0xee, 0xee, 0xee], Close sock, Send (rc_sockfd rc) out, Close (rc_sockfd rc)] \<and>
     v_inp v' = v_inp v"
proof -
  let ?v = "vemit [Send sock [0xee, 0xee, 0xee, 0xee]] (v\<lparr>v_nets := nets\<rparr>)"
  have r: "v_tg (rekeyed w ?v) = v_tg (rekeyed w v)" "v_trace (rekeyed w ?v) = v_trace ?v" "v_inp (rekeyed w ?v) = v_inp v"
    by (simp_all add: rekeyed_def Let_def)
  have ok: "call_ok w (vemit [tg_net_close sock] (rekeyed w ?v)) query" "e_lock (w_env w) Send_query" "0 \<le> sock"
    using assms(5,7) r by (auto simp: call_ok_def opens_def)
  have "via_prepare w ?v sock = Some (rc_sockfd rc, vemit [tg_net_close sock] (rekeyed w ?v))"
    using assms(1-5) r by (intro via_prepare_rekeyed) (auto simp: call_ok_def client_ok_def)
  from via_send_prepared [OF this ok(1)] obtain out where
    o: "via_send w ?v query sock = Some (id_at (w_env w) (v_tg (rekeyed w v)) 0, rc_sockfd rc,
          vemit [Send (rc_sockfd rc) out] ((vemit [tg_net_close sock] (rekeyed w ?v))\<lparr>v_tg := sent_tg (v_tg (rekeyed w v))\<rparr>))"
    using r by auto
  have "id_at (w_env w) (v_tg (rekeyed w v)) 0 \<noteq> 0" using assms(5) by (simp add: call_ok_def)
  with o ok(2,3) assms(6-8) r show ?thesis
    by (auto simp: opens_def Let_def via_receive_def tg_net_close_def)
qed

theorem via_new_key_unread_witness:
  "let w = sample_world2\<lparr>w_app := \<lambda>ip port. \<lparr>rc_key = replicate 256 1, rc_salt = replicate 8 2, rc_sockfd = 6, rc_seqnh = 0\<rparr>\<rparr>;
       v = (sample_via [1, 0, 0, 0])\<lparr>v_tg := sample_tg\<lparr>tg_key := mkbuf []\<rparr>\<rparr> in
   \<exists>out v'. tg_send_query_via_with_progress (Suc 0) (Suc 0) 1 w v (mkbuf [1, 2, 3, 4]) ''1.2.3.4'' 443 = Some (None, v') \<and>
     v_trace v' = v_trace v @ [Send 5 [0xee, 0xee, 0xee, 0xee], Close 5, Send 6 out, Close 6] \<and> v_inp v' = v_inp v"
proof -
  let ?rc = "\<lparr>rc_key = replicate 256 1, rc_salt = replicate 8 2, rc_sockfd = 6, rc_seqnh = 0\<rparr> :: shared_rc"
  let ?w = "sample_world2\<lparr>w_app := \<lambda>ip port. ?rc\<rparr>"
  let ?v = "(sample_via [1, 0, 0, 0])\<lparr>v_tg := sample_tg\<lparr>tg_key := mkbuf []\<rparr>\<rparr>"
  have t: "v_tg (rekeyed ?w ?v) = sample_tg\<lparr>tg_seqn := 1\<rparr>" by (simp add: rekeyed_def sample_tg_def)
  have "id_at e (sample_tg\<lparr>tg_seqn := 1\<rparr>) 0 = id_at e sample_tg 0" "tg_msgids sample_tg = []"
    "key_ok (sample_tg\<lparr>tg_seqn := 1\<rparr>) = key_ok sample_tg" "session_ok (sample_tg\<lparr>tg_seqn := 1\<rparr>) = session_ok sample_tg" for e
    by (simp_all add: id_at_def sample_tg_def key_ok_def session_ok_def)
  then have ok: "call_ok ?w (rekeyed ?w ?v) (mkbuf [1, 2, 3, 4])"
    using sample_call [of "[]"] t by (simp add: call_ok_def client_ok_def sample_via_def)
  show ?thesis
    unfolding Let_def
    using via_new_key_unread [OF _ refl _ _ ok _ sample_opens, where ip = "''1.2.3.4''" and n = 0 and k = 0 and fuel = 1 and port = 443]
    by (simp add: sample_via_def fits_def)
qed

text \<open>
  Opening a connection gives a descriptor only for a socket that is connected, and the
  four bytes that announce the intermediate protocol are the first thing sent on it; every
  failure after the socket was made leaves it open.
\<close>

theorem net_open_outcomes:
  "tg_net_open net ip port =
     (if 0 \<le> n_socket net \<and> (\<exists>addr. n_host net ip = Some addr \<and> 0 \<le> n_connect net addr (of_int port))
      then (n_socket net, [Send (n_socket net) (replicate 4 0xee)]) else (- 1, [])) \<and>
   Close fd \<notin> set (snd (tg_net_open net ip port))"
  by (auto simp: tg_net_open_def numeral_eq_Suc split: option.splits)

end
