(* ===== verification/Sync_Query.thy ===== *)
theory Sync_Query
  imports Send_Query
begin

text \<open>
  The synchronous query of \<^verbatim>\<open>libtg/tg/queue.c\<close>, on which the login and everything above it
  stands: it starts the threads of a query and joins the one whose handle it gets.  The
  theorem follows one query through all components: the new thread, the packet that goes
  out, the packet that comes in, the handler, the callback and the join.
\<close>

section \<open>The call\<close>

text \<open>
  What the surroundings give the thread of a query: the address of its struct, the socket
  that \<^verbatim>\<open>tg_net_open\<close> returns, what \<^verbatim>\<open>recv\<close> yields, the results of \<^verbatim>\<open>pthread_mutex_trylock\<close>.
\<close>

type_synonym turn = "nat \<times> int \<times> rcv list \<times> int list"

text \<open>The threads of the query and of its restarts, which write to the same variable, in turn.\<close>

fun run_turns :: "nat \<Rightarrow> nat \<Rightarrow> world \<Rightarrow> turn list \<Rightarrow> sys \<Rightarrow> sys option" where
  "run_turns n fuel w [] s = Some s"
| "run_turns n fuel w ((a, sock, inp, locks) # ts) s = do {
     s \<leftarrow> tg_run_queue n fuel w a sock s inp locks;
     run_turns n fuel w ts s
   }"

text \<open>
  \<^verbatim>\<open>pthread_join\<close> on a thread: the threads that end before it have done their work, and where it
  is a timer it has slept, stopped the loop and freed the struct.
\<close>

definition join :: "nat \<Rightarrow> nat \<Rightarrow> world \<Rightarrow> tid option \<Rightarrow> turn list \<Rightarrow> sys \<Rightarrow> sys option" where
  "join n fuel w p ts s = do {
     s \<leftarrow> run_turns n fuel w ts s;
     (case p of None \<Rightarrow> None
      | Some (T_run _) \<Rightarrow> Some s
      | Some (T_timer a) \<Rightarrow> tg_run_timer a True s)
   }"

text \<open>The variable \<^verbatim>\<open>tl\<close> of the caller after the events: the last value the callback stored there.\<close>

fun stored :: "nat set \<Rightarrow> event list \<Rightarrow> tl option \<Rightarrow> tl option" where
  "stored own [] t = t"
| "stored own (e # es) t = stored own es (case e of Done a t' \<Rightarrow> if a \<in> own then t' else t | _ \<Rightarrow> t)"

definition tg_send_query_sync :: "nat \<Rightarrow> nat \<Rightarrow> world \<Rightarrow> turn list \<Rightarrow> sys \<Rightarrow> buf \<Rightarrow> (tl option \<times> sys) option" where
  "tg_send_query_sync n fuel w ts s query = do {
     (p, s') \<leftarrow> tg_send_query_async w s query False Sync_cb None;
     s' \<leftarrow> join n fuel w p ts s';
     Some (stored (set (map fst ts)) (drop (length (s_trace s)) (s_trace s')) None, s')
   }"

text \<open>The variant that reports how much of the answer has arrived.\<close>

definition tg_send_query_sync_with_progress ::
  "nat \<Rightarrow> nat \<Rightarrow> world \<Rightarrow> turn list \<Rightarrow> sys \<Rightarrow> buf \<Rightarrow> (u32 \<Rightarrow> u32 \<Rightarrow> int) option \<Rightarrow> (tl option \<times> sys) option"
where
  "tg_send_query_sync_with_progress n fuel w ts s query progress = do {
     (p, s') \<leftarrow> tg_send_query_async w s query False Sync_cb progress;
     s' \<leftarrow> join n fuel w p ts s';
     Some (stored (set (map fst ts)) (drop (length (s_trace s)) (s_trace s')) None, s')
   }"

lemma sync_without_progress: "tg_send_query_sync_with_progress n fuel w ts s query None = tg_send_query_sync n fuel w ts s query"
  by (simp add: tg_send_query_sync_with_progress_def tg_send_query_sync_def)

text \<open>\<^verbatim>\<open>tg_send_query\<close> is another name for it.\<close>

definition tg_send_query :: "nat \<Rightarrow> nat \<Rightarrow> world \<Rightarrow> turn list \<Rightarrow> sys \<Rightarrow> buf \<Rightarrow> (tl option \<times> sys) option" where
  "tg_send_query n fuel w ts s query = tg_send_query_sync n fuel w ts s query"

section \<open>Steps of the thread\<close>

definition new_queue :: "sys \<Rightarrow> buf \<Rightarrow> queue" where
  "new_queue s query = \<lparr>q_ip = take 15 (tg_ip (s_tg s)), q_port = tg_port (s_tg s), q_p = Some (T_timer (s_next s)),
     q_socket = 0, q_loop = True, q_multithread = False, q_query = mkbuf (bytes query), q_msgid = 0,
     q_on_done = Sync_cb, q_progress = None\<rparr>"

definition threads_ok :: "world \<Rightarrow> bool" where
  "threads_ok w \<longleftrightarrow> w_malloc w \<and> (\<forall>i. w_mutex w i = 0) \<and> w_thread w = 0 \<and> (\<forall>a. w_lock w a) \<and> (\<forall>out. 0 \<le> w_send w out)"

lemma async_new:
  assumes "threads_ok w" and "readable query" and "fits (unat (bsize query))"
  shows "tg_send_query_async w s query False Sync_cb None =
     Some (Some (T_timer (s_next s)),
       s\<lparr>s_heap := (s_heap s)(s_next s \<mapsto> new_queue s query), s_next := Suc (s_next s),
         s_trace := s_trace s @ [Spawn (T_run (s_next s)), Spawn (T_timer (s_next s))]\<rparr>)"
proof -
  have "buf_add_buf query = Some (mkbuf (bytes query))"
    using assms(2,3) buf_add_part [of query 0 "bsize query"] by (simp add: buf_add_buf_def substr_def)
  then show ?thesis
    using assms(1)
    by (simp add: tg_send_query_async_def tg_queue_new_def Let_def emit_def set_queue_def strncpy_def new_queue_def threads_ok_def)
qed

text \<open>
  A client that can send a query of \<open>n\<close> bytes: key, session, and whatever waits to be
  acknowledged or dropped has room in the packet.
\<close>

definition sender_ok :: "world \<Rightarrow> tg \<Rightarrow> nat \<Rightarrow> bool" where
  "sender_ok w tg n \<longleftrightarrow> locks_ok (w_env w) \<and> crypto_ok (w_env w) \<and> key_ok tg \<and> session_ok tg \<and>
     (if tg_msgids tg = [] then n < 2 ^ 29
      else pending_ok (w_env w) tg n \<and> id_at (w_env w) tg 0 \<noteq> 0 \<and>
           unat (bsize (e_msgs_ack (w_env w) (tg_msgids tg))) + drops_size (w_env w) tg + n < 2 ^ 29)"

text \<open>The client afterwards.\<close>

definition after_send :: "tg \<Rightarrow> tg" where
  "after_send tg = (if tg_msgids tg = [] then sent_tg tg else tick (tick (after_container tg)))"

lemma after_send_simps [simp]:
  "tg_key (after_send tg) = tg_key tg" "tg_salt (after_send tg) = tg_salt tg" "tg_ssid (after_send tg) = tg_ssid tg"
  "tg_ip (after_send tg) = tg_ip tg" "tg_config (after_send tg) = tg_config tg" "tg_msgids (after_send tg) = []"
  "key_ok (after_send tg) = key_ok tg" "session_ok (after_send tg) = session_ok tg"
  by (simp_all add: after_send_def sent_tg_def after_container_def next_seqno_def tick_def key_ok_def session_ok_def)

text \<open>The packet of a query: the layers of MTProto around it, or around a container with it.\<close>

definition query_packet :: "env \<Rightarrow> tg \<Rightarrow> byte list \<Rightarrow> byte list \<Rightarrow> byte list" where
  "query_packet env tg query pad = len_frame (mt_seal env 0 (bytes (tg_key tg))
     (if tg_msgids tg = []
      then plain_wire (bytes (tg_salt tg)) (bytes (tg_ssid tg)) (id_at env tg 0) (tg_seqn tg * 2 + 1) query pad
      else plain_wire (bytes (tg_salt tg)) (bytes (tg_ssid tg)) (id_at env tg (2 + length (tg_todrop tg)))
             (tg_seqn (after_container tg) * 2) (container_wire (container_msgs env tg query)) pad))"

lemma prepare_packet:
  assumes "sender_ok w tg (unat (bsize q))" and "readable q"
  shows "\<exists>pad p. tg_prepare_query (w_env w) tg q True msgid = Some (mkbuf p, id_at (w_env w) tg 0, after_send tg) \<and>
     fits (length p) \<and> p = query_packet (w_env w) tg (bytes q) pad"
proof (cases "tg_msgids tg = []")
  case True
  have ok: "locks_ok (w_env w)" "crypto_ok (w_env w)" "session_ok tg" "key_ok tg" "unat (bsize q) < 2 ^ 29"
    using assms(1) True by (simp_all add: sender_ok_def)
  from prepare_query_state [OF ok(1-4) True assms(2) ok(5), of msgid] True show ?thesis
    by (simp add: query_packet_def after_send_def sent_tg_def)
next
  case False
  have ok: "locks_ok (w_env w)" "crypto_ok (w_env w)" "session_ok tg" "key_ok tg"
    "pending_ok (w_env w) tg (unat (bsize q))" "id_at (w_env w) tg 0 \<noteq> 0"
    "unat (bsize (e_msgs_ack (w_env w) (tg_msgids tg))) + drops_size (w_env w) tg + unat (bsize q) < 2 ^ 29"
    using assms(1) False by (simp_all add: sender_ok_def)
  from prepare_query_pending [OF ok(1-4) False assms(2) ok(5-7), of msgid] False show ?thesis
    by (simp add: query_packet_def after_send_def)
qed

lemma send_ok:
  assumes "sender_ok w (s_tg s) (unat (bsize (q_query q)))" and "threads_ok w" and "s_heap s a = Some q"
    and "readable (q_query q)"
  shows "\<exists>pad. tg_send w a s = Some (0, emit (Send (q_socket q)
       (query_packet (w_env w) (s_tg s) (bytes (q_query q)) pad))
       (set_queue a (\<lambda>q. q\<lparr>q_msgid := id_at (w_env w) (s_tg s) 0\<rparr>) (s\<lparr>s_tg := after_send (s_tg s)\<rparr>)))"
proof -
  note ok = assms(1) [unfolded sender_ok_def]
  obtain pad p where p: "tg_prepare_query (w_env w) (s_tg s) (q_query q) True (q_msgid q) =
      Some (mkbuf p, id_at (w_env w) (s_tg s) 0, after_send (s_tg s))" "fits (length p)"
    and pe: "p = query_packet (w_env w) (s_tg s) (bytes (q_query q)) pad"
    using prepare_packet [OF assms(1,4), of "q_msgid q"] by blast
  have "length p \<noteq> 0" by (simp add: pe query_packet_def len_frame_def)
  with p(2) have nz: "bsize (mkbuf p) \<noteq> 0" by (metis bsize_mkbuf unat_0 unat_of_nat_fits)
  have rd: "mem_read (bblk (mkbuf p)) (bdata (mkbuf p)) (unat (bsize (mkbuf p))) = Some p"
    using p(2) mem_read_bytes [of "mkbuf p"] by simp
  have rdy: "tg_prepare_mtproto w a s = Some s" using ok by (intro prepare_mtproto_ready) blast+
  have "e_lock (w_env w) Queue_lock" using ok [THEN conjunct1] by (rule locks_okD)
  moreover have "\<not> w_send w p < 0" using assms(2) by (simp add: threads_ok_def not_less)
  ultimately have "tg_send w a s = Some (0, emit (Send (q_socket q) p)
       (set_queue a (\<lambda>q. q\<lparr>q_msgid := id_at (w_env w) (s_tg s) 0\<rparr>) (s\<lparr>s_tg := after_send (s_tg s)\<rparr>)))"
    using p(1) nz rd rdy assms(3) by (simp add: tg_send_def Let_def)
  then show ?thesis unfolding pe by blast
qed

section \<open>The answer\<close>

text \<open>
  What the server sends: a packet, in pieces, whose body is the result for the message \<open>mid\<close>;
  \<open>t\<close> is the object in it, \<open>salt\<close> and \<open>smid\<close> the salt and the identifier of the packet.
\<close>

definition answers :: "world \<Rightarrow> tg \<Rightarrow> u64 \<Rightarrow> tl \<Rightarrow> byte list \<Rightarrow> u64 \<Rightarrow> rcv list \<Rightarrow> bool" where
  "answers w tg mid t salt smid inp \<longleftrightarrow>
     (\<exists>ssid sq body pad css b b'.
        length salt = 8 \<and> length ssid = 8 \<and> 16 dvd length (plain_wire salt ssid smid sq body pad) \<and>
        length (plain_wire salt ssid smid sq body pad) < 2 ^ 30 \<and>
        concat css = server_packet (w_env w) (bytes (tg_key tg)) salt ssid smid sq body pad \<and> [] \<notin> set css \<and>
        inp = R_data (le_bytes 4 (of_nat (length (concat css)) :: u32)) # map R_data css \<and>
        tl_deserialize (l_table (w_lib w)) (mkbuf body) = Some (Some (Rpc_result b mid (Some t)), b'))"

text \<open>The client after the answer, and the query at the end of its loop.\<close>

definition answered :: "world \<Rightarrow> tg \<Rightarrow> byte list \<Rightarrow> u64 \<Rightarrow> tg" where
  "answered w tg salt smid = tg_add_msgid (w_env w) (tg\<lparr>tg_salt := mkbuf salt\<rparr>) smid"

lemma receive_sync_answer:
  assumes "crypto_ok (w_env w)" "key_ok (s_tg s)" "session_ok (s_tg s)" "locks_ok (w_env w)" "w_lock w a"
    and "answers w (s_tg s) mid t salt smid inp" and "waiting s mid a q [] bs"
    and "q_progress q = None" "q_on_done q = Sync_cb" "plain_answer t"
    and "tl_deserialize (l_table (w_lib w)) (tl_buf t) = Some (t', b2)"
  shows "tg_receive (Suc fuel) w a s inp =
     Some (RTL_REREAD, stop_loop a (emit (Done a t') (s\<lparr>s_tg := answered w (s_tg s) salt smid, s_list := bs\<rparr>)), [])"
proof -
  obtain ssid sq body pad css b b' where p: "length salt = 8" "length ssid = 8"
      "16 dvd length (plain_wire salt ssid smid sq body pad)" "length (plain_wire salt ssid smid sq body pad) < 2 ^ 30"
      "concat css = server_packet (w_env w) (bytes (tg_key (s_tg s))) salt ssid smid sq body pad" "[] \<notin> set css"
      "inp = R_data (le_bytes 4 (of_nat (length (concat css)) :: u32)) # map R_data css"
      "tl_deserialize (l_table (w_lib w)) (mkbuf body) = Some (Some (Rpc_result b mid (Some t)), b')"
    using assms(6) unfolding answers_def by blast
  let ?s = "after_packet w s salt smid"
  have ap: "?s = s\<lparr>s_tg := answered w (s_tg s) salt smid\<rparr>" by (simp add: after_packet_def answered_def)
  have wt: "waiting ?s mid a q [] bs" using assms(7) by (simp add: waiting_def ap)
  have hq: "s_heap s a = Some q" using assms(7) by (simp add: waiting_def)
  have lk: "e_lock (w_env w) Queue_lock" using assms(4) by (rule locks_okD)
  have "handle_tl (Suc fuel) w a ?s (Some (Rpc_result b mid (Some t))) =
      Some (stop_loop a (emit (Done a t') (s\<lparr>s_tg := answered w (s_tg s) salt smid, s_list := bs\<rparr>)))"
    using catched_waiting [OF wt lk assms(5)] assms(9-11) by (simp add: catched_obj_plain run_on_done_def ap)
  then show ?thesis
    using receive_layers [OF assms(1-3) p(1-6) hq assms(8), of "Suc fuel" "[]"] p(7,8) by simp
qed

text \<open>
  The loop passes as long as it gets the mutex; one pass gets the answer, the next one sees
  that it may end.
\<close>

lemma run_loop_passes:
  "s_heap s a = Some q \<Longrightarrow> q_loop q \<Longrightarrow> \<not> q_multithread q \<Longrightarrow>
   run_loop (k + n) fuel w a s inp (replicate k 0 @ ls) = run_loop n fuel w a s inp ls"
  by (induction k) simp_all

lemma run_loop_answer:
  assumes "crypto_ok (w_env w)" "key_ok (s_tg s)" "session_ok (s_tg s)" "locks_ok (w_env w)" "w_lock w a"
    and "answers w (s_tg s) mid t salt smid inp" and "waiting s mid a q [] bs"
    and "q_progress q = None" "q_on_done q = Sync_cb" "plain_answer t"
    and "tl_deserialize (l_table (w_lib w)) (tl_buf t) = Some (t', b2)" and "\<not> q_multithread q"
  shows "run_loop (k + Suc (Suc n)) (Suc fuel) w a s inp (replicate k 0 @ [1]) =
     Some (stop_loop a (emit (Done a t') (s\<lparr>s_tg := answered w (s_tg s) salt smid, s_list := bs\<rparr>)))"
proof -
  have q: "s_heap s a = Some q" "q_loop q" using assms(7) by (simp_all add: waiting_def)
  let ?u = "stop_loop a (emit (Done a t') (s\<lparr>s_tg := answered w (s_tg s) salt smid, s_list := bs\<rparr>))"
  have "s_heap ?u a = Some (q\<lparr>q_loop := False\<rparr>)" using q by (simp add: stop_loop_def set_queue_def emit_def)
  then have "run_loop (Suc n) (Suc fuel) w a ?u [] [] = Some ?u" by simp
  then show ?thesis
    unfolding run_loop_passes [OF q assms(12)]
    using q assms(12) receive_sync_answer [OF assms(1-11), of fuel] by simp
qed

text \<open>The whole thread of a fresh query \<open>q\<close> at \<open>a\<close>, which is not yet in the list.\<close>

lemma run_queue_answer:
  assumes "sender_ok w (s_tg s) (unat (bsize (q_query q)))" "threads_ok w" and "s_heap s a = Some q" "a \<notin> set (s_list s)"
    and "readable (q_query q)" and "0 \<le> sock"
    and "q_loop q" "q_progress q = None" "q_on_done q = Sync_cb" "\<not> q_multithread q"
    and "\<forall>b \<in> set (s_list s). \<exists>q'. s_heap s b = Some q' \<and> q_msgid q' \<noteq> id_at (w_env w) (s_tg s) 0"
    and "answers w (s_tg s) (id_at (w_env w) (s_tg s) 0) t salt smid inp" and "plain_answer t"
    and "tl_deserialize (l_table (w_lib w)) (tl_buf t) = Some (t', b2)"
  shows "\<exists>pad s'. tg_run_queue (k + Suc (Suc n)) (Suc fuel) w a sock s inp (replicate k 0 @ [1]) = Some s' \<and>
     s_tg s' = answered w (after_send (s_tg s)) salt smid \<and> s_list s' = s_list s \<and> s_next s' = s_next s \<and>
     s_heap s' = (s_heap s)(a \<mapsto> q\<lparr>q_socket := sock, q_msgid := id_at (w_env w) (s_tg s) 0, q_loop := False\<rparr>) \<and>
     s_trace s' = s_trace s @ [Send sock (query_packet (w_env w) (s_tg s) (bytes (q_query q)) pad), Done a t', Close sock]"
proof -
  note ok = assms(1) [unfolded sender_ok_def]
  have lk: "e_lock (w_env w) Queue_lock" using ok [THEN conjunct1] by (rule locks_okD)
  let ?m = "id_at (w_env w) (s_tg s) 0"
  let ?u1 = "s\<lparr>s_heap := (s_heap s)(a \<mapsto> q\<lparr>q_socket := sock\<rparr>), s_list := a # s_list s\<rparr>"
  have u1: "tg_queue_add w (set_queue a (\<lambda>q. q\<lparr>q_socket := sock\<rparr>) s) a = ?u1"
    using assms(3) lk by (simp add: tg_queue_add_def set_queue_def qlist_add_def)
  obtain pad where sd: "tg_send w a ?u1 = Some (0, emit (Send sock (query_packet (w_env w) (s_tg s) (bytes (q_query q)) pad))
       (set_queue a (\<lambda>q. q\<lparr>q_msgid := ?m\<rparr>) (?u1\<lparr>s_tg := after_send (s_tg s)\<rparr>)))"
    using send_ok [of w ?u1 "q\<lparr>q_socket := sock\<rparr>" a] assms(1,2,5) by auto
  let ?q = "q\<lparr>q_socket := sock, q_msgid := ?m\<rparr>"
  define u2 where "u2 = emit (Send sock (query_packet (w_env w) (s_tg s) (bytes (q_query q)) pad))
       (set_queue a (\<lambda>q. q\<lparr>q_msgid := ?m\<rparr>) (?u1\<lparr>s_tg := after_send (s_tg s)\<rparr>))"
  have f: "s_tg u2 = after_send (s_tg s)" "s_list u2 = a # s_list s" "s_heap u2 = (s_heap s)(a \<mapsto> ?q)" "s_next u2 = s_next s"
    by (simp_all add: u2_def emit_def set_queue_def)
  have wt: "waiting u2 ?m a ?q [] (s_list s)" using assms(7) f by (simp add: waiting_def)
  have aw: "answers w (s_tg u2) ?m t salt smid inp" using assms(12) by (simp add: f answers_def)
  let ?u3 = "stop_loop a (emit (Done a t') (u2\<lparr>s_tg := answered w (s_tg u2) salt smid, s_list := s_list s\<rparr>))"
  have rl: "run_loop (k + Suc (Suc n)) (Suc fuel) w a u2 inp (replicate k 0 @ [1]) = Some ?u3"
    by (rule run_loop_answer [OF _ _ _ _ _ aw wt _ _ assms(13,14)])
       (use ok assms(2,8-10) in \<open>simp_all add: f threads_ok_def\<close>)
  have h3: "s_heap ?u3 = (s_heap s)(a \<mapsto> ?q\<lparr>q_loop := False\<rparr>)" "s_list ?u3 = s_list s"
    by (simp_all add: stop_loop_def set_queue_def emit_def f)
  have ab: "tg_queue_cut w (emit (Close sock) ?u3) ?m = Some (None, emit (Close sock) ?u3)"
  proof (rule cut_absent, rule ballI)
    fix b assume "b \<in> set (s_list (emit (Close sock) ?u3))"
    then have "b \<in> set (s_list s)" using h3(2) by (simp add: emit_def)
    with assms(4,11) show "\<exists>q'. s_heap (emit (Close sock) ?u3) b = Some q' \<and> q_msgid q' \<noteq> ?m"
      using h3(1) by (auto simp: emit_def)
  qed
  have "tg_run_queue (k + Suc (Suc n)) (Suc fuel) w a sock s inp (replicate k 0 @ [1]) = Some (emit (Close sock) ?u3)"
    using sd [folded u2_def] rl h3(1) ab assms(6) u1 by (simp add: tg_run_queue_def Let_def del: run_loop.simps)
  moreover have "s_trace (emit (Close sock) ?u3) = s_trace u2 @ [Done a t', Close sock]"
    by (simp add: emit_def stop_loop_def set_queue_def)
  moreover have "s_trace u2 = s_trace s @ [Send sock (query_packet (w_env w) (s_tg s) (bytes (q_query q)) pad)]"
    by (simp add: u2_def emit_def set_queue_def)
  moreover have "s_tg (emit (Close sock) ?u3) = answered w (after_send (s_tg s)) salt smid" "s_next (emit (Close sock) ?u3) = s_next s"
    by (simp_all add: emit_def stop_loop_def set_queue_def f)
  ultimately show ?thesis using h3 by (intro exI [of _ pad] exI [of _ "emit (Close sock) ?u3"]) (simp add: emit_def)
qed

text \<open>From the call to the join.\<close>

lemma sync_answer:
  assumes "sender_ok w (s_tg s) (unat (bsize query))" "threads_ok w" "readable query" and "0 \<le> sock"
    and "s_heap s (s_next s) = None"
    and "\<forall>b \<in> set (s_list s). \<exists>q'. s_heap s b = Some q' \<and> q_msgid q' \<noteq> id_at (w_env w) (s_tg s) 0"
    and "answers w (s_tg s) (id_at (w_env w) (s_tg s) 0) t salt smid inp" and "plain_answer t"
    and "tl_deserialize (l_table (w_lib w)) (tl_buf t) = Some (t', b2)"
  shows "\<exists>pad s'. tg_send_query_sync (k + Suc (Suc n)) (Suc fuel) w [(s_next s, sock, inp, replicate k 0 @ [1])] s query = Some (t', s') \<and>
     s_tg s' = answered w (after_send (s_tg s)) salt smid \<and> s_list s' = s_list s \<and> s_heap s' = s_heap s \<and>
     s_next s' = Suc (s_next s) \<and> s_trace s' = s_trace s @ [Spawn (T_run (s_next s)), Spawn (T_timer (s_next s)),
       Send sock (query_packet (w_env w) (s_tg s) (bytes query) pad), Done (s_next s) t', Close sock, Sleep 60]"
proof -
  let ?a = "s_next s"
  let ?s1 = "s\<lparr>s_heap := (s_heap s)(?a \<mapsto> new_queue s query), s_next := Suc ?a,
       s_trace := s_trace s @ [Spawn (T_run ?a), Spawn (T_timer ?a)]\<rparr>"
  have "unat (bsize query) < 2 ^ 29" using assms(1) by (auto simp: sender_ok_def split: if_splits)
  then have fq: "fits (unat (bsize query))" by (simp add: fits_def)
  have q: "readable (q_query (new_queue s query))" "unat (bsize (q_query (new_queue s query))) = unat (bsize query)"
    "bytes (q_query (new_queue s query)) = bytes query"
    using assms(3) fq by (simp_all add: new_queue_def)
  have na: "?a \<notin> set (s_list s)" using assms(5,6) by auto
  have ls: "\<forall>b \<in> set (s_list ?s1). \<exists>q'. s_heap ?s1 b = Some q' \<and> q_msgid q' \<noteq> id_at (w_env w) (s_tg ?s1) 0"
    using assms(6) na by auto
  obtain pad s2 where r: "tg_run_queue (k + Suc (Suc n)) (Suc fuel) w ?a sock ?s1 inp (replicate k 0 @ [1]) = Some s2"
      "s_tg s2 = answered w (after_send (s_tg s)) salt smid" "s_list s2 = s_list s" "s_next s2 = Suc ?a"
      "s_heap s2 = (s_heap s)(?a \<mapsto> (new_queue s query)\<lparr>q_socket := sock, q_msgid := id_at (w_env w) (s_tg s) 0, q_loop := False\<rparr>)"
      "s_trace s2 = s_trace s @ [Spawn (T_run ?a), Spawn (T_timer ?a), Send sock (query_packet (w_env w) (s_tg s) (bytes query) pad), Done ?a t', Close sock]"
    using run_queue_answer [of w ?s1 "new_queue s query" ?a sock t salt smid inp t' b2 k n fuel] assms na q ls
    by (auto simp: new_queue_def)
  let ?s3 = "tg_queue_free ?a (stop_loop ?a (emit (Sleep 60) s2))"
  have tm: "tg_run_timer ?a True s2 = Some ?s3" using r(5) by (simp add: tg_run_timer_def Let_def)
  have tr: "s_trace ?s3 = s_trace s2 @ [Sleep 60]" by (simp add: tg_queue_free_def stop_loop_def set_queue_def emit_def)
  have "tg_send_query_sync (k + Suc (Suc n)) (Suc fuel) w [(?a, sock, inp, replicate k 0 @ [1])] s query = Some (t', ?s3)"
    using async_new [OF assms(2,3) fq, of s] r(1,6) tm tr
    by (simp add: tg_send_query_sync_def join_def)
  moreover have "s_tg ?s3 = s_tg s2" "s_list ?s3 = s_list s2" "s_next ?s3 = s_next s2"
    by (simp_all add: tg_queue_free_def stop_loop_def set_queue_def emit_def)
  moreover have "s_heap ?s3 = s_heap s"
    using r(5) assms(5) by (auto simp: tg_queue_free_def stop_loop_def set_queue_def emit_def)
  ultimately show ?thesis using r(2-4,6) tr by (intro exI [of _ pad] exI [of _ ?s3]) simp
qed

section \<open>What the call promises\<close>

text \<open>
  C3: A synchronous query gets its answer: the caller's query leaves in one packet with the layers
  of MTProto around it, the answer to it, in any pieces, is handed to the caller as a
  fresh object read from the answer's own bytes, the socket is closed, and the list of
  queries is as before.  The call returns only when the timer it joins has slept its
  minute, and by then the struct of the query is freed.
\<close>

theorem sync_query_returns_answer:
  assumes "sender_ok w (s_tg s) (unat (bsize query))" "threads_ok w" "readable query" and "0 \<le> sock"
    and "s_heap s (s_next s) = None"
    and "\<forall>b \<in> set (s_list s). \<exists>q'. s_heap s b = Some q' \<and> q_msgid q' \<noteq> id_at (w_env w) (s_tg s) 0"
    and "answers w (s_tg s) (id_at (w_env w) (s_tg s) 0) t salt smid inp" and "plain_answer t"
    and "tl_deserialize (l_table (w_lib w)) (tl_buf t) = Some (t', b2)"
  shows "\<exists>pad s'. tg_send_query_sync (k + Suc (Suc n)) (Suc fuel) w [(s_next s, sock, inp, replicate k 0 @ [1])] s query = Some (t', s') \<and>
     s_tg s' = answered w (after_send (s_tg s)) salt smid \<and> s_list s' = s_list s \<and> s_heap s' = s_heap s \<and>
     s_next s' = Suc (s_next s) \<and> s_trace s' = s_trace s @ [Spawn (T_run (s_next s)), Spawn (T_timer (s_next s)),
       Send sock (query_packet (w_env w) (s_tg s) (bytes query) pad), Done (s_next s) t', Close sock, Sleep 60]"
  by (rule sync_answer [OF assms])

lemma sample_answers:
  "answers sample_world2 sample_tg 4294967296 (Other (mkbuf [2, 0, 0, 0]) 2) (replicate 8 1) 5
     [R_data (le_bytes 4 (72 :: u32)), R_data (take 10 (sample_packet [1, 0, 0, 0])), R_data (drop 10 (sample_packet [1, 0, 0, 0]))]"
proof -
  let ?p = "sample_packet [1, 0, 0, 0]"
  have l: "length ?p = 72" by (rule sample_packet_length) simp
  have "concat [take 10 ?p, drop 10 ?p] = ?p" "[] \<notin> set [take 10 ?p, drop 10 ?p]" using l by auto
  with l sample_tables(1) show ?thesis
    unfolding answers_def
    by (intro exI [of _ "replicate 8 2"] exI [of _ 6] exI [of _ "[1, 0, 0, 0]"] exI [of _ "replicate 12 0"]
         exI [of _ "[take 10 ?p, drop 10 ?p]"] exI [of _ "mkbuf [1, 0, 0, 0]"])
       (simp add: length_plain_wire sample_packet_def sample_world2_def)
qed

lemma sample_sender: "n < 2 ^ 29 \<Longrightarrow> sender_ok sample_world2 sample_tg n" "threads_ok sample_world2"
  by (simp add: sender_ok_def sample_world2_def) (simp_all add: sample_tg_def threads_ok_def sample_world2_def sample_world_def)

theorem sync_query_returns_answer_witness:
  "\<exists>pad s'. tg_send_query_sync (1 + Suc (Suc 0)) (Suc 0) sample_world2
        [(1, 5, [R_data (le_bytes 4 (72 :: u32)), R_data (take 10 (sample_packet [1, 0, 0, 0])),
           R_data (drop 10 (sample_packet [1, 0, 0, 0]))], replicate 1 0 @ [1])] sample_sys (mkbuf [1, 2, 3, 4]) =
       Some (Some (Other (mkbuf [2, 0, 0, 0]) 2), s') \<and>
     s_tg s' = answered sample_world2 (after_send (s_tg sample_sys)) (replicate 8 1) 5 \<and> s_list s' = s_list sample_sys \<and>
     s_heap s' = s_heap sample_sys \<and> s_next s' = Suc 1 \<and>
     s_trace s' = s_trace sample_sys @ [Spawn (T_run 1), Spawn (T_timer 1),
       Send 5 (query_packet (w_env sample_world2) (s_tg sample_sys) (bytes (mkbuf [1, 2, 3, 4])) pad),
       Done 1 (Some (Other (mkbuf [2, 0, 0, 0]) 2)), Close 5, Sleep 60]"
proof -
  have n: "s_next sample_sys = 1" "s_heap sample_sys (Suc 0) = None" by (simp_all add: sample_sys_def)
  have i: "id_at (w_env sample_world2) (s_tg sample_sys) 0 = 4294967296" by (simp add: sample_world2_def sample_id)
  show ?thesis
    unfolding n(1) [symmetric]
    by (rule sync_query_returns_answer [where t = "Other (mkbuf [2, 0, 0, 0]) 2"])
       (simp_all only: i, simp_all add: n fits_def sample_sender sample_answers sample_tables plain_answer_def)
qed

end
