(* ===== verification/Big_Num.thy ===== *)
theory Big_Num
  imports Prelude
begin

text \<open>
  Natural numbers as big-endian byte strings, the form in which the key exchange hands
  numbers to OpenSSL.
\<close>

fun be_nat :: "byte list \<Rightarrow> nat" where
  "be_nat [] = 0"
| "be_nat (b # bs) = unat b * 256 ^ length bs + be_nat bs"

lemma be_nat_append: "be_nat (xs @ ys) = be_nat xs * 256 ^ length ys + be_nat ys"
  by (induction xs) (simp_all add: power_add algebra_simps)

lemma be_nat_zeros [simp]: "be_nat (replicate n 0) = 0"
  by (induction n) simp_all

lemma be_nat_bound: "be_nat bs < 256 ^ length bs"
proof (induction bs)
  case (Cons b bs)
  have "unat b \<le> 255" using unsigned_less [of b, where 'a = nat] by simp
  then have "unat b * 256 ^ length bs \<le> 255 * 256 ^ length bs" by (rule mult_le_mono1)
  then have "unat b * 256 ^ length bs + be_nat bs < 255 * 256 ^ length bs + 256 ^ length bs"
    using Cons by (rule add_le_less_mono)
  then show ?case by simp
qed simp

lemma be_nat_inj: "length xs = length ys \<Longrightarrow> be_nat xs = be_nat ys \<Longrightarrow> xs = ys"
proof (induction xs ys rule: list_induct2)
  case (Cons x xs y ys)
  let ?m = "256 ^ length ys :: nat"
  have bd: "be_nat xs < ?m" "be_nat ys < ?m"
    using be_nat_bound [of xs] be_nat_bound [of ys] Cons.hyps by simp_all
  have e: "unat x * ?m + be_nat xs = unat y * ?m + be_nat ys" using Cons.prems Cons.hyps by simp
  have "(unat z * ?m + k) div ?m = unat z" if "k < ?m" for z :: byte and k using that by simp
  then have "unat x = unat y" using e bd by metis
  moreover from this e have "be_nat xs = be_nat ys" by simp
  ultimately show ?case using Cons.IH by (simp add: word_unat_eq_iff)
qed simp

text \<open>A leading byte that is not zero fixes the length.\<close>

lemma be_nat_lower:
  assumes "b \<noteq> 0"
  shows "256 ^ length bs \<le> be_nat (b # bs)"
proof -
  have "1 \<le> unat b" using assms by (metis One_nat_def Suc_leI neq0_conv unsigned_eq_0_iff)
  then have "1 * 256 ^ length bs \<le> unat b * 256 ^ length bs" by (rule mult_le_mono1)
  then show ?thesis by (simp only: be_nat.simps mult_1 trans_le_add1)
qed

lemma be_nat_length:
  assumes "bs = [] \<or> hd bs \<noteq> 0" and "be_nat bs < 256 ^ k"
  shows "length bs \<le> k"
proof (cases bs)
  case (Cons c cs)
  with assms have "c \<noteq> 0" "be_nat (c # cs) < 256 ^ k" by simp_all
  then have "(256 :: nat) ^ length cs < 256 ^ k" using be_nat_lower [of c cs] by (metis le_less_trans)
  then have "length cs < k" by (rule power_less_imp_less_exp [rotated]) simp
  with Cons show ?thesis by simp
qed simp

lemma be_nat_unique:
  assumes "xs = [] \<or> hd xs \<noteq> 0" and "ys = [] \<or> hd ys \<noteq> 0" and "be_nat xs = be_nat ys"
  shows "xs = ys"
proof (rule be_nat_inj)
  show "length xs = length ys"
    using be_nat_length [OF assms(1), of "length ys"] be_nat_length [OF assms(2), of "length xs"]
      be_nat_bound [of xs] be_nat_bound [of ys] assms(3) by simp
qed (rule assms(3))

text \<open>The shortest byte string of a number.\<close>

fun nat_be :: "nat \<Rightarrow> byte list" where
  "nat_be n = (if n = 0 then [] else nat_be (n div 256) @ [of_nat n])"

declare nat_be.simps [simp del]

lemma nat_be_val: "be_nat (nat_be n) = n"
proof (induction n rule: nat_be.induct)
  case (1 n)
  have "unat (of_nat n :: byte) = n mod 256" by (simp add: unat_of_nat)
  with 1 show ?case by (subst nat_be.simps) (simp add: be_nat_append)
qed

lemma nat_be_hd: "nat_be n \<noteq> [] \<Longrightarrow> hd (nat_be n) \<noteq> 0"
proof (induction n rule: nat_be.induct)
  case (1 n)
  show ?case
  proof (cases "n < 256")
    case True
    have "0 < n" using "1.prems" by (rule contrapos_np) (simp add: nat_be.simps)
    moreover have "nat_be (n div 256) = []" using True by (simp add: nat_be.simps)
    moreover have "unat (of_nat n :: byte) = n" using True by (simp add: unat_of_nat)
    ultimately show ?thesis by (subst nat_be.simps) (auto simp: unat_eq_zero)
  next
    case False
    then have "nat_be (n div 256) \<noteq> []" by (subst nat_be.simps) simp
    with "1.IH" False show ?thesis by (subst nat_be.simps) simp
  qed
qed

end
