(* ===== verification/Password.thy ===== *)
theory Password
  imports Encrypt Big_Num
begin

text \<open>
  The password check of \<^verbatim>\<open>libtg/tg/2fa.c\<close> (the Secure Remote Password protocol) with the key
  derivation of \<^verbatim>\<open>libtg/crypto/pbkdf2.c\<close>.  The derivation is compared with RFC 2898, the proof
  that the client sends with the one that a server computes from its own secret.
\<close>

section \<open>OpenSSL and the generated constructor\<close>

text \<open>
  HMAC with SHA-512 over the pieces given to a context and in one call (which may fail), the
  operations on big numbers (\<^term>\<open>None\<close> where the function returns 0), and the generated
  constructor \<^verbatim>\<open>tl_inputCheckPasswordSRP\<close>.
\<close>

record ssl =
  x_hmac_ctx :: "byte list \<Rightarrow> byte list list \<Rightarrow> byte list"
  x_hmac :: "byte list \<Rightarrow> byte list \<Rightarrow> byte list option"
  x_bin2bn :: "byte list \<Rightarrow> int"
  x_bn2bin :: "int \<Rightarrow> byte list"
  x_cmp :: "int \<Rightarrow> int \<Rightarrow> int"
  x_add :: "int \<Rightarrow> int \<Rightarrow> int option"
  x_sub :: "int \<Rightarrow> int \<Rightarrow> int option"
  x_mul :: "int \<Rightarrow> int \<Rightarrow> int option"
  x_mod_mul :: "int \<Rightarrow> int \<Rightarrow> int \<Rightarrow> int option"
  x_mod_exp :: "int \<Rightarrow> int \<Rightarrow> int \<Rightarrow> int option"
  x_srp :: "u64 \<Rightarrow> buf \<Rightarrow> buf \<Rightarrow> buf"

section \<open>Key derivation\<close>

text \<open>\<^verbatim>\<open>for (i = 0; i < n; i++) d[i] = d[i] ^ b[i]\<close>, from the index \<open>i\<close> on.\<close>

fun xor_into :: "nat \<Rightarrow> byte list \<Rightarrow> byte list \<Rightarrow> nat \<Rightarrow> byte list option" where
  "xor_into 0 d b i = Some d"
| "xor_into (Suc n) d b i =
     (if i < length d \<and> i < length b then xor_into n (d[i := d ! i XOR b ! i]) b (Suc i) else None)"

text \<open>
  The loop over the iterations, \<open>k\<close> of them to go, with the array \<open>b\<close> and the data of \<^verbatim>\<open>dest\<close>;
  a failing HMAC ends it.
\<close>

fun pbkdf2_loop :: "ssl \<Rightarrow> nat \<Rightarrow> byte list \<Rightarrow> byte list \<Rightarrow> byte list \<Rightarrow> byte list option" where
  "pbkdf2_loop ssl 0 pw b d = Some d"
| "pbkdf2_loop ssl (Suc k) pw b d =
     (case x_hmac ssl pw b of
        None \<Rightarrow> Some d
      | Some h \<Rightarrow> do {
          b \<leftarrow> copy_loop 64 b 0 h 0;
          d \<leftarrow> xor_into 64 d b 0;
          pbkdf2_loop ssl k pw b d
        })"

definition tg_pbkdf2_sha512 :: "ssl \<Rightarrow> buf \<Rightarrow> buf \<Rightarrow> int \<Rightarrow> buf option" where
  "tg_pbkdf2_sha512 ssl password salt iteration_count =
     (if \<not> 0 < iteration_count then None
      else do {
        let dest = buf_new\<lparr>bsize := 64\<rparr>;
        pw \<leftarrow> mem_read (bblk password) (bdata password) (unat (bsize password));
        st \<leftarrow> mem_read (bblk salt) (bdata salt) (unat (bsize salt));
        blk \<leftarrow> copy_loop 64 (bblk dest) (bdata dest) (x_hmac_ctx ssl pw [st, [0, 0, 0, 1]]) 0;
        if iteration_count > 1 then do {
          b \<leftarrow> mem_read blk 0 64;
          blk \<leftarrow> pbkdf2_loop ssl (nat (iteration_count - 1)) pw b blk;
          Some (dest\<lparr>bblk := blk, bsize := 64\<rparr>)
        } else Some (dest\<lparr>bblk := blk, bsize := 64\<rparr>)
      })"

section \<open>The password hash\<close>

definition SH :: "env \<Rightarrow> buf \<Rightarrow> buf \<Rightarrow> buf option" where
  "SH env data salt = do {
     let b = buf_new;
     b \<leftarrow> buf_cat b salt;
     b \<leftarrow> buf_cat b data;
     b \<leftarrow> buf_cat b salt;
     tg_hsh_sha256 env b
   }"

definition buf_new_bufs :: "buf \<Rightarrow> buf \<Rightarrow> buf option" where
  "buf_new_bufs a b = do { c \<leftarrow> buf_add_buf a; buf_cat c b }"

definition buf_concat_sha256 :: "env \<Rightarrow> buf \<Rightarrow> buf \<Rightarrow> buf option" where
  "buf_concat_sha256 env b1 b2 = do { b \<leftarrow> buf_new_bufs b1 b2; tg_hsh_sha256 env b }"

text \<open>A number in exactly that many bytes, or in as few as it needs for \<open>- 1\<close>; the assertions stop the program.\<close>

definition BN_bn2bin_size :: "ssl \<Rightarrow> int \<Rightarrow> int \<Rightarrow> buf option" where
  "BN_bn2bin_size ssl a exact_size =
     (if \<not> exact_size \<le> int BUFSIZ then None
      else let num_size = length (x_bn2bin ssl a);
               size = (if exact_size = - 1 then int num_size else exact_size) in
        if \<not> int num_size \<le> size then None
        else do {
          let res = buf_new;
          blk \<leftarrow> copy_loop num_size (bblk res) (bdata res + nat (size - int num_size)) (x_bn2bin ssl a) 0;
          Some (res\<lparr>bblk := blk, bsize := of_int size\<rparr>)
        })"

text \<open>\<open>password\<close> is the memory behind the pointer, with the terminating zero.\<close>

definition tg_calc_password_hash :: "env \<Rightarrow> ssl \<Rightarrow> byte list \<Rightarrow> buf \<Rightarrow> buf \<Rightarrow> buf option" where
  "tg_calc_password_hash env ssl password salt1 salt2 = do {
     _ \<leftarrow> (if 0 \<in> set password then Some () else None);
     pas \<leftarrow> buf_add password 0 (of_nat (strlen password));
     buf1 \<leftarrow> SH env pas salt1;
     buf2 \<leftarrow> SH env buf1 salt2;
     buf3 \<leftarrow> tg_pbkdf2_sha512 ssl buf2 salt1 100000;
     SH env buf3 salt2
   }"

section \<open>The proof of knowledge\<close>

definition bn_of :: "ssl \<Rightarrow> buf \<Rightarrow> int option" where
  "bn_of ssl b = map_option (x_bin2bn ssl) (mem_read (bblk b) (bdata b) (unat (bsize b)))"

definition tg_get_inputCheckPasswordSRP ::
  "env \<Rightarrow> ssl \<Rightarrow> tg \<Rightarrow> byte list \<Rightarrow> buf \<Rightarrow> buf \<Rightarrow> u32 \<Rightarrow> buf \<Rightarrow> buf \<Rightarrow> u64 \<Rightarrow> (buf \<times> tg) option"
where
  "tg_get_inputCheckPasswordSRP env ssl tg password salt1 salt2 g p B ident = do {
     let srp = buf_new;
     p_bn \<leftarrow> bn_of ssl p;
     B_bn \<leftarrow> bn_of ssl B;
     let zero = 0;
     if x_cmp ssl zero B_bn \<noteq> - 1 \<or> x_cmp ssl B_bn p_bn \<noteq> - 1 \<or> bsize B \<noteq> 256 then Some (srp, tg)
     else do {
       let g_bn = uint g;
       g_padded \<leftarrow> BN_bn2bin_size ssl g_bn 256;
       x \<leftarrow> tg_calc_password_hash env ssl password salt1 salt2;
       x_bn \<leftarrow> bn_of ssl x;
       let (now, tg) = now_seconds env tg;
       a \<leftarrow> buf_rand (e_rnd env) now 256;
       a_bn \<leftarrow> bn_of ssl a;
       A_bn \<leftarrow> x_mod_exp ssl g_bn a_bn p_bn;
       A \<leftarrow> BN_bn2bin_size ssl A_bn 256;
       u \<leftarrow> buf_concat_sha256 env A B;
       u_bn \<leftarrow> bn_of ssl u;
       k \<leftarrow> buf_concat_sha256 env p g_padded;
       k_bn \<leftarrow> bn_of ssl k;
       v_bn \<leftarrow> x_mod_exp ssl g_bn x_bn p_bn;
       kv_bn \<leftarrow> x_mod_mul ssl k_bn v_bn p_bn;
       t_bn \<leftarrow> x_sub ssl B_bn kv_bn;
       t_bn \<leftarrow> (if x_cmp ssl t_bn zero = - 1 then x_add ssl t_bn p_bn else Some t_bn);
       exp_bn \<leftarrow> x_mul ssl u_bn x_bn;
       exp_bn \<leftarrow> x_add ssl exp_bn a_bn;
       S_bn \<leftarrow> x_mod_exp ssl t_bn exp_bn p_bn;
       S \<leftarrow> BN_bn2bin_size ssl S_bn 256;
       K \<leftarrow> tg_hsh_sha256 env S;
       h1 \<leftarrow> tg_hsh_sha256 env p;
       h2 \<leftarrow> tg_hsh_sha256 env g_padded;
       xr \<leftarrow> buf_xor h1 h2;
       salt1_hash \<leftarrow> tg_hsh_sha256 env salt1;
       salt2_hash \<leftarrow> tg_hsh_sha256 env salt2;
       let M1' = buf_new;
       M1' \<leftarrow> buf_cat M1' xr;
       M1' \<leftarrow> buf_cat M1' salt1_hash;
       M1' \<leftarrow> buf_cat M1' salt2_hash;
       M1' \<leftarrow> buf_cat M1' A;
       M1' \<leftarrow> buf_cat M1' B;
       M1' \<leftarrow> buf_cat M1' K;
       M1 \<leftarrow> tg_hsh_sha256 env M1';
       Some (x_srp ssl ident A M1, tg)
     }
   }"

section \<open>The derivation is RFC 2898\<close>

text \<open>The first block of PBKDF2 with the pseudorandom function \<open>H\<close>: \<open>U\<^sub>1 \<oplus> \<dots> \<oplus> U\<^sub>c\<close>, counted from 0.\<close>

primrec rfc_U :: "(byte list \<Rightarrow> byte list \<Rightarrow> byte list) \<Rightarrow> byte list \<Rightarrow> byte list \<Rightarrow> nat \<Rightarrow> byte list" where
  "rfc_U H pw salt 0 = H pw (salt @ [0, 0, 0, 1])"
| "rfc_U H pw salt (Suc i) = H pw (rfc_U H pw salt i)"

definition rfc_block :: "(byte list \<Rightarrow> byte list \<Rightarrow> byte list) \<Rightarrow> byte list \<Rightarrow> byte list \<Rightarrow> nat \<Rightarrow> byte list" where
  "rfc_block H pw salt c = foldl (map2 (XOR)) (rfc_U H pw salt 0) (map (rfc_U H pw salt) [1..<c])"

text \<open>What is assumed of HMAC: both calls compute the same function, with 64 bytes.\<close>

definition hmac_ok :: "ssl \<Rightarrow> (byte list \<Rightarrow> byte list \<Rightarrow> byte list) \<Rightarrow> bool" where
  "hmac_ok ssl H \<longleftrightarrow> (\<forall>k ps. x_hmac_ctx ssl k ps = H k (concat ps)) \<and> (\<forall>k m. x_hmac ssl k m = Some (H k m)) \<and>
     (\<forall>k m. length (H k m) = 64)"

lemma xor_into_eq:
  "length d = length b \<Longrightarrow> length d = n \<Longrightarrow>
   xor_into n (pre @ d @ post) (qre @ b) (length pre) = Some (pre @ map2 (XOR) d b @ post)"
  if "length qre = length pre" for qre :: "byte list"
  using that
proof (induction n arbitrary: pre d b qre)
  case (Suc n)
  obtain x d' y b' where d: "d = x # d'" "b = y # b'" using Suc.prems by (cases d; cases b) auto
  have "xor_into (Suc n) (pre @ d @ post) (qre @ b) (length pre) =
        xor_into n ((pre @ [x XOR y]) @ d' @ post) ((qre @ [y]) @ b') (length (pre @ [x XOR y]))"
    using Suc.prems by (simp add: d nth_append)
  also have "\<dots> = Some ((pre @ [x XOR y]) @ map2 (XOR) d' b' @ post)"
    by (rule Suc.IH) (use Suc.prems d in simp_all)
  finally show ?case by (simp add: d)
qed simp

lemma length_rfc_U: "hmac_ok ssl H \<Longrightarrow> length (rfc_U H pw salt i) = 64"
  by (cases i) (simp_all add: hmac_ok_def)

lemma rfc_block_Suc: "0 < c \<Longrightarrow>
  rfc_block H pw salt (Suc c) = map2 (XOR) (rfc_block H pw salt c) (rfc_U H pw salt c)"
  by (simp add: rfc_block_def)

lemma length_rfc_block: "hmac_ok ssl H \<Longrightarrow> 0 < c \<Longrightarrow> length (rfc_block H pw salt c) = 64"
proof (induction c)
  case (Suc c)
  have U: "length (rfc_U H pw salt i) = 64" for i using Suc.prems(1) by (rule length_rfc_U)
  show ?case
  proof (cases "c = 0")
    case True
    then show ?thesis using U [of 0] by (simp add: rfc_block_def)
  next
    case False
    then show ?thesis using Suc U [of c] by (simp add: rfc_block_Suc)
  qed
qed simp

text \<open>After \<open>j\<close> iterations the array holds \<open>U\<^sub>j\<close> and the destination what has been added up.\<close>

lemma pbkdf2_loop_eq:
  assumes "hmac_ok ssl H"
  shows "pbkdf2_loop ssl k pw (rfc_U H pw salt j) (rfc_block H pw salt (Suc j) @ r) =
         Some (rfc_block H pw salt (Suc (j + k)) @ r)"
proof (induction k arbitrary: j)
  case (Suc k)
  let ?U = "rfc_U H pw salt (Suc j)"
  have l: "length ?U = 64" "length (rfc_U H pw salt j) = 64" "length (rfc_block H pw salt (Suc j)) = 64"
    using assms length_rfc_U length_rfc_block by blast+
  have h: "x_hmac ssl pw (rfc_U H pw salt j) = Some ?U" using assms by (simp add: hmac_ok_def)
  have c: "copy_loop 64 (rfc_U H pw salt j) 0 ?U 0 = Some ?U" using l by (subst copy_loop_eq) simp_all
  have x: "xor_into 64 (rfc_block H pw salt (Suc j) @ r) ?U 0 = Some (rfc_block H pw salt (Suc (Suc j)) @ r)"
    using xor_into_eq [of "[]" "[]" "rfc_block H pw salt (Suc j)" ?U 64 r] l by (simp add: rfc_block_Suc)
  show ?case using h c x Suc.IH [of "Suc j"] by (simp del: rfc_U.simps)
qed simp

lemma hmac_copy:
  assumes "length h = 64"
  shows "copy_loop 64 (bblk (mkbuf [])) 0 h 0 = Some (h @ replicate (BUFSIZ + 1 - 64) 0)"
  using digest_eq [OF assms] assms by (simp add: BUFSIZ_def mkbuf_def Let_def)

lemma pbkdf2_eq:
  assumes "hmac_ok ssl H" and "readable password" and "readable salt" and "0 < c"
  shows "tg_pbkdf2_sha512 ssl password salt c = Some (mkbuf (rfc_block H (bytes password) (bytes salt) (nat c)))"
proof -
  let ?B = "rfc_block H (bytes password) (bytes salt)" and ?z = "replicate (BUFSIZ + 1 - 64) 0"
  have lb: "length (?B n) = 64" if "0 < n" for n using assms(1) that by (rule length_rfc_block)
  have one: "x_hmac_ctx ssl (bytes password) [bytes salt, [0, 0, 0, 1]] = ?B 1"
    using assms(1) by (simp add: hmac_ok_def rfc_block_def)
  have fin: "(mkbuf [])\<lparr>bblk := ?B n @ ?z, bsize := 64\<rparr> = mkbuf (?B n)" if "0 < n" for n
    using lb [OF that] by (simp add: mkbuf_def Let_def BUFSIZ_def)
  have cp: "copy_loop 64 (bblk (mkbuf [])) 0 (?B 1) 0 = Some (?B 1 @ ?z)" using hmac_copy [OF lb] by simp
  show ?thesis
  proof (cases "c = 1")
    case True
    with fin [of 1] cp one assms show ?thesis
      by (simp add: tg_pbkdf2_sha512_def mem_read_bytes)
  next
    case False
    have u: "?B 1 = rfc_U H (bytes password) (bytes salt) 0" by (simp add: rfc_block_def)
    have rd: "mem_read (?B 1 @ ?z) 0 64 = Some (?B 1)" using lb [of 1] by (simp add: mem_read_def)
    have lp: "pbkdf2_loop ssl (nat (c - 1)) (bytes password) (?B 1) (?B 1 @ ?z) = Some (?B (nat c) @ ?z)"
      using pbkdf2_loop_eq [OF assms(1), of "nat (c - 1)" "bytes password" "bytes salt" 0 ?z] assms(4) u
      by (simp add: Suc_nat_eq_nat_zadd1)
    from False have "1 < c" using assms(4) by simp
    then show ?thesis
      using cp one rd lp assms fin [of "nat c"]
      by (simp add: tg_pbkdf2_sha512_def mem_read_bytes)
  qed
qed

section \<open>Numbers\<close>

text \<open>What is assumed of the big numbers, as OpenSSL documents them.\<close>

definition numbers_ok :: "ssl \<Rightarrow> bool" where
  "numbers_ok ssl \<longleftrightarrow>
     (\<forall>bs. x_bin2bn ssl bs = int (be_nat bs)) \<and>
     (\<forall>n. be_nat (x_bn2bin ssl (int n)) = n \<and> (x_bn2bin ssl (int n) \<noteq> [] \<longrightarrow> hd (x_bn2bin ssl (int n)) \<noteq> 0)) \<and>
     (\<forall>a b. x_cmp ssl a b = sgn (a - b)) \<and>
     (\<forall>a b. x_add ssl a b = Some (a + b) \<and> x_sub ssl a b = Some (a - b) \<and> x_mul ssl a b = Some (a * b)) \<and>
     (\<forall>a b m. 0 < m \<longrightarrow> x_mod_mul ssl a b m = Some (a * b mod m)) \<and>
     (\<forall>a e m. 0 < m \<longrightarrow> x_mod_exp ssl a (int e) m = Some (a ^ e mod m))"

text \<open>A number in \<open>k\<close> bytes, with zeros in front.\<close>

definition be_pad :: "nat \<Rightarrow> nat \<Rightarrow> byte list" where
  "be_pad k n = replicate (k - length (nat_be n)) 0 @ nat_be n"

lemma nat_be_length: "n < 256 ^ k \<Longrightarrow> length (nat_be n) \<le> k"
  by (rule be_nat_length) (use nat_be_hd nat_be_val in auto)

lemma be_pad_val [simp]: "be_nat (be_pad k n) = n"
  by (simp add: be_pad_def be_nat_append nat_be_val)

lemma length_be_pad [simp]: "n < 256 ^ k \<Longrightarrow> length (be_pad k n) = k"
  using nat_be_length [of n k] by (simp add: be_pad_def)

lemma be_pad_be_nat: "length bs = k \<Longrightarrow> be_pad k (be_nat bs) = bs"
  by (rule be_nat_inj) (use be_nat_bound [of bs] in simp_all)

lemma bn2bin_eq: "numbers_ok ssl \<Longrightarrow> x_bn2bin ssl (int n) = nat_be n"
  by (rule be_nat_unique) (use nat_be_hd nat_be_val in \<open>auto simp: numbers_ok_def\<close>)

lemma bn2bin_size_eq:
  assumes "numbers_ok ssl" and "n < 256 ^ 256"
  shows "BN_bn2bin_size ssl (int n) 256 = Some (mkbuf (be_pad 256 n))"
proof -
  let ?l = "length (nat_be n)"
  have l: "?l \<le> 256" using assms(2) by (rule nat_be_length)
  have z: "replicate (Suc BUFSIZ) 0 = replicate (256 - ?l) 0 @ replicate (Suc BUFSIZ - (256 - ?l)) (0 :: byte)"
    using l by (simp add: BUFSIZ_def flip: replicate_add)
  have "copy_loop ?l (replicate (Suc BUFSIZ) 0) (256 - ?l) (nat_be n) 0 = Some (be_pad 256 n @ replicate (BUFSIZ - 255) 0)"
    using l by (subst copy_loop_eq) (simp_all add: BUFSIZ_def be_pad_def)
  moreover have "(mkbuf [])\<lparr>bblk := be_pad 256 n @ replicate (BUFSIZ - 255) 0, bsize := 256\<rparr> = mkbuf (be_pad 256 n)"
    using assms(2) by (simp add: mkbuf_def Let_def BUFSIZ_def)
  moreover have "nat (256 - int ?l) = 256 - ?l" by simp
  moreover have "bblk (mkbuf []) = replicate (Suc BUFSIZ) 0" by (simp add: mkbuf_def)
  ultimately show ?thesis
    using l by (simp add: BN_bn2bin_size_def bn2bin_eq [OF assms(1)] Let_def) (simp add: BUFSIZ_def)
qed

lemma bn_of_eq: "numbers_ok ssl \<Longrightarrow> readable b \<Longrightarrow> bn_of ssl b = Some (int (be_nat (bytes b)))"
  by (simp add: bn_of_def mem_read_bytes numbers_ok_def)

section \<open>The protocol on bytes\<close>

definition srp_SH :: "env \<Rightarrow> byte list \<Rightarrow> byte list \<Rightarrow> byte list" where
  "srp_SH env data salt = e_sha256 env (salt @ data @ salt)"

text \<open>The secret exponent that the password stands for.\<close>

definition srp_x :: "env \<Rightarrow> (byte list \<Rightarrow> byte list \<Rightarrow> byte list) \<Rightarrow> byte list \<Rightarrow> byte list \<Rightarrow> byte list \<Rightarrow> nat" where
  "srp_x env H pw salt1 salt2 =
     be_nat (srp_SH env (rfc_block H (srp_SH env (srp_SH env pw salt1) salt2) salt1 100000) salt2)"

definition srp_k :: "env \<Rightarrow> byte list \<Rightarrow> nat \<Rightarrow> nat" where
  "srp_k env p g = be_nat (e_sha256 env (p @ be_pad 256 g))"

definition srp_u :: "env \<Rightarrow> byte list \<Rightarrow> byte list \<Rightarrow> nat" where
  "srp_u env A B = be_nat (e_sha256 env (A @ B))"

definition srp_M1 :: "env \<Rightarrow> byte list \<Rightarrow> nat \<Rightarrow> byte list \<Rightarrow> byte list \<Rightarrow> byte list \<Rightarrow> byte list \<Rightarrow> nat \<Rightarrow> byte list" where
  "srp_M1 env p g salt1 salt2 A B S =
     e_sha256 env (map2 (XOR) (e_sha256 env p) (e_sha256 env (be_pad 256 g)) @ e_sha256 env salt1 @ e_sha256 env salt2 @
       A @ B @ e_sha256 env (be_pad 256 S))"

text \<open>
  The server knows the verifier \<open>v\<close> and its own exponent \<open>b\<close>: what it sends, and the number it
  computes from what the client sends.
\<close>

definition srp_server_B :: "nat \<Rightarrow> nat \<Rightarrow> nat \<Rightarrow> nat \<Rightarrow> nat \<Rightarrow> nat" where
  "srp_server_B p g k v b = (k * v + g ^ b) mod p"

definition srp_server_S :: "nat \<Rightarrow> nat \<Rightarrow> nat \<Rightarrow> nat \<Rightarrow> nat \<Rightarrow> nat" where
  "srp_server_S p A v u b = (A * v ^ u) ^ b mod p"

text \<open>The client's number.\<close>

definition srp_client_t :: "nat \<Rightarrow> nat \<Rightarrow> nat \<Rightarrow> nat \<Rightarrow> int" where
  "srp_client_t p B k v = (let t = int B - int k * int v mod int p in if t < 0 then t + int p else t)"

lemma client_t_eq:
  assumes "0 < p"
  shows "srp_client_t p (srp_server_B p g k v b) k v = int (g ^ b mod p)"
proof -
  let ?B = "srp_server_B p g k v b"
  let ?t = "int ?B - int k * int v mod int p"
  have "?t mod int p = (int (k * v + g ^ b) - int k * int v) mod int p"
    by (simp add: srp_server_B_def zmod_int mod_diff_eq)
  then have m: "?t mod int p = int (g ^ b mod p)" by (simp add: zmod_int)
  have "?B < p" using assms by (simp add: srp_server_B_def)
  moreover have "0 \<le> int k * int v mod int p" "int k * int v mod int p < int p" using assms by simp_all
  ultimately have r: "- int p < ?t" "?t < int p" by linarith+
  show ?thesis
  proof (cases "?t < 0")
    case True
    have "(?t + int p) mod int p = ?t + int p" using True r by (intro mod_pos_pos_trivial) linarith+
    then have "?t + int p = ?t mod int p" by simp
    then show ?thesis using True m by (simp add: srp_client_t_def Let_def)
  next
    case False
    then have "?t = ?t mod int p" using r by (intro mod_pos_pos_trivial [symmetric]) linarith+
    then show ?thesis using False m by (simp add: srp_client_t_def Let_def)
  qed
qed

lemma secret_agreement:
  "(g ^ b mod p) ^ (u * x + a) mod p = srp_server_S p (g ^ a mod p) (g ^ x mod p) u b"
  for p :: nat
proof -
  have "((g ^ a mod p) * (g ^ x mod p) ^ u) mod p = (g ^ a * (g ^ x) ^ u) mod p"
    by (subst (1 2) mod_mult_eq [symmetric]) (simp add: power_mod)
  then have "srp_server_S p (g ^ a mod p) (g ^ x mod p) u b = (g ^ a * (g ^ x) ^ u) ^ b mod p"
    unfolding srp_server_S_def by (subst (1 2) power_mod [symmetric]) simp
  also have "(g ^ a * (g ^ x) ^ u) ^ b = (g ^ b) ^ (u * x + a)"
    by (simp add: power_add power_mult_distrib power_mult [symmetric] mult.commute mult.left_commute)
  finally show ?thesis by (simp add: power_mod)
qed

section \<open>Closed forms\<close>

lemma SH_eq:
  assumes "crypto_ok env" and "readable d" "readable s" and "fits (2 * unat (bsize s) + unat (bsize d))"
  shows "SH env d s = Some (mkbuf (srp_SH env (bytes d) (bytes s)))"
proof -
  have f: "fits (unat (bsize s))" "fits (unat (bsize s) + unat (bsize d))"
    using assms(4) by (auto intro: fits_mono)
  have "buf_cat (mkbuf []) s = Some (mkbuf (bytes s))" using assms(3) f by simp
  moreover have "buf_cat (mkbuf (bytes s)) d = Some (mkbuf (bytes s @ bytes d))" using assms(2,3) f by simp
  moreover have "buf_cat (mkbuf (bytes s @ bytes d)) s = Some (mkbuf (bytes s @ bytes d @ bytes s))"
    using assms(2-4) by (simp add: mult_2 add.assoc add.commute add.left_commute)
  moreover have "fits (length (bytes s @ bytes d @ bytes s))"
    using assms(2-4) by (simp add: mult_2 add.assoc add.commute add.left_commute)
  ultimately show ?thesis using assms(1) by (simp add: SH_def srp_SH_def sha256_eq)
qed

lemma length_srp_SH: "crypto_ok env \<Longrightarrow> length (srp_SH env d s) = 32"
  by (simp add: srp_SH_def crypto_ok_def)

text \<open>The salts are short, as the server sends them.\<close>

definition salt_ok :: "buf \<Rightarrow> bool" where
  "salt_ok s \<longleftrightarrow> readable s \<and> unat (bsize s) < 2 ^ 24"

definition c_string :: "byte list \<Rightarrow> byte list" where
  "c_string m = takeWhile (\<lambda>c. c \<noteq> 0) m"

lemma password_hash_eq:
  assumes "crypto_ok env" "hmac_ok ssl H" and "0 \<in> set password" "strlen password < 2 ^ 24"
    and "salt_ok salt1" "salt_ok salt2"
  shows "\<exists>h. tg_calc_password_hash env ssl password salt1 salt2 = Some (mkbuf h) \<and> length h = 32 \<and>
     be_nat h = srp_x env H (c_string password) (bytes salt1) (bytes salt2)"
proof -
  let ?s1 = "bytes salt1" and ?s2 = "bytes salt2" and ?p = "c_string password"
  have r: "readable salt1" "readable salt2" "unat (bsize salt1) < 2 ^ 24" "unat (bsize salt2) < 2 ^ 24"
    using assms(5,6) by (simp_all add: salt_ok_def)
  have lp: "length ?p = strlen password" "strlen password \<le> length password" "take (strlen password) password = ?p"
    using length_takeWhile_le [of "\<lambda>c. c \<noteq> 0" password]
    by (simp_all add: c_string_def strlen_def takeWhile_eq_take [symmetric])
  have l32: "length (srp_SH env d s) = 32" for d s using assms(1) by (rule length_srp_SH)
  have l64: "length (rfc_block H d s 100000) = 64" for d s using assms(2) by (rule length_rfc_block) simp
  have fp: "fits (strlen password)" using assms(4) by (simp add: fits_def)
  have a: "buf_add password 0 (of_nat (strlen password)) = Some (mkbuf ?p)"
    using lp fp by simp
  have b: "SH env (mkbuf ?p) salt1 = Some (mkbuf (srp_SH env ?p ?s1))"
    using SH_eq [OF assms(1) _ r(1), of "mkbuf ?p"] fp lp(1) assms(4) r(3) by (simp add: fits_def)
  have c: "SH env (mkbuf (srp_SH env ?p ?s1)) salt2 = Some (mkbuf (srp_SH env (srp_SH env ?p ?s1) ?s2))"
    using SH_eq [OF assms(1) _ r(2), of "mkbuf (srp_SH env ?p ?s1)"] l32 r(4) by (simp add: fits_def)
  let ?d = "rfc_block H (srp_SH env (srp_SH env ?p ?s1) ?s2) ?s1 100000"
  have d: "tg_pbkdf2_sha512 ssl (mkbuf (srp_SH env (srp_SH env ?p ?s1) ?s2)) salt1 100000 = Some (mkbuf ?d)"
    using pbkdf2_eq [OF assms(2) _ r(1), of "mkbuf (srp_SH env (srp_SH env ?p ?s1) ?s2)" 100000] l32 by (simp add: fits_def)
  have e: "SH env (mkbuf ?d) salt2 = Some (mkbuf (srp_SH env ?d ?s2))"
    using SH_eq [OF assms(1) _ r(2), of "mkbuf ?d"] l64 r(4) by (simp add: fits_def)
  have "tg_calc_password_hash env ssl password salt1 salt2 = Some (mkbuf (srp_SH env ?d ?s2))"
    using a b c d e assms(3) by (simp add: tg_calc_password_hash_def)
  then show ?thesis using l32 by (intro exI [of _ "srp_SH env ?d ?s2"]) (simp add: srp_x_def)
qed

lemma concat_sha256_eq:
  assumes "crypto_ok env" and "readable a" "readable b" and "fits (unat (bsize a) + unat (bsize b))"
  shows "buf_concat_sha256 env a b = Some (mkbuf (e_sha256 env (bytes a @ bytes b)))"
proof -
  have f: "fits (unat (bsize a))" using assms(4) by (rule fits_mono) simp
  have "buf_add_buf a = Some (mkbuf (bytes a))"
    using assms(2) f buf_add_part [of a 0 "bsize a"] by (simp add: buf_add_buf_def substr_def)
  then show ?thesis using assms f by (simp add: buf_concat_sha256_def buf_new_bufs_def sha256_eq)
qed

lemma mod_exp_nat: "numbers_ok ssl \<Longrightarrow> 0 < m \<Longrightarrow> x_mod_exp ssl (int a) (int e) (int m) = Some (int (a ^ e mod m))"
  by (simp add: numbers_ok_def zmod_int)

lemma reduce_eq: "numbers_ok ssl \<Longrightarrow>
   (if x_cmp ssl c 0 = - 1 then x_add ssl c m else Some c) = Some (if c < 0 then c + m else c)"
  by (simp add: numbers_ok_def sgn_if)

text \<open>A prime of 2048 bits from the server, and its number.\<close>

definition group_ok :: "buf \<Rightarrow> buf \<Rightarrow> bool" where
  "group_ok p B \<longleftrightarrow> readable p \<and> bsize p = 256 \<and> readable B \<and> bsize B = 256 \<and>
     0 < be_nat (bytes B) \<and> be_nat (bytes B) < be_nat (bytes p)"

text \<open>The last step: the hash over everything both sides know.\<close>

lemma cat_M1:
  assumes "crypto_ok env" "readable B" "bsize B = 256" "length A = 256" "length xr = 32"
  shows "do {
       M1' \<leftarrow> buf_cat (mkbuf []) (mkbuf xr);
       M1' \<leftarrow> buf_cat M1' (mkbuf (e_sha256 env s1));
       M1' \<leftarrow> buf_cat M1' (mkbuf (e_sha256 env s2));
       M1' \<leftarrow> buf_cat M1' (mkbuf A);
       M1' \<leftarrow> buf_cat M1' B;
       M1' \<leftarrow> buf_cat M1' (mkbuf (e_sha256 env K));
       M1 \<leftarrow> tg_hsh_sha256 env M1';
       f M1 } =
     f (mkbuf (e_sha256 env (xr @ e_sha256 env s1 @ e_sha256 env s2 @ A @ bytes B @ e_sha256 env K)))"
proof -
  have "length (e_sha256 env y) = 32" for y using assms(1) by (simp add: crypto_ok_def)
  with assms show ?thesis by (simp add: sha256_eq)
qed

lemma srp_run:
  assumes "crypto_ok env" "hmac_ok ssl H" "numbers_ok ssl" and "0 \<in> set password" "strlen password < 2 ^ 24"
    and "salt_ok salt1" "salt_ok salt2" and "group_ok p B"
    and P: "P = be_nat (bytes p)" and x: "x = srp_x env H (c_string password) (bytes salt1) (bytes salt2)"
    and a: "a = be_nat (rand_bytes env tg 256)" and A: "A = be_pad 256 (unat g ^ a mod P)"
    and t: "srp_client_t P (be_nat (bytes B)) (srp_k env (bytes p) (unat g)) (unat g ^ x mod P) = int t"
  shows "tg_get_inputCheckPasswordSRP env ssl tg password salt1 salt2 g p B ident =
     Some (x_srp ssl ident (mkbuf A) (mkbuf (srp_M1 env (bytes p) (unat g) (bytes salt1) (bytes salt2) A (bytes B)
       (t ^ (srp_u env A (bytes B) * x + a) mod P))), tick tg)"
proof -
  note num = assms(3) [unfolded numbers_ok_def]
  have gr: "readable p" "bsize p = 256" "readable B" "bsize B = 256" "0 < be_nat (bytes B)" "be_nat (bytes B) < P" "0 < P"
    using assms(8) P by (simp_all add: group_ok_def)
  have rs: "readable salt1" "readable salt2" using assms(6,7) by (simp_all add: salt_ok_def)
  have sh: "length (e_sha256 env y) = 32" for y using assms(1) by (simp add: crypto_ok_def)
  have "length (bytes p) = 256" using gr by simp
  then have P256: "n mod P < 256 ^ 256" for n using be_nat_bound [of "bytes p"] P gr(7) by (metis less_trans mod_less_divisor)
  have "unat g < 2 ^ 32" using unsigned_less [of g] by simp
  also have "(2 ^ 32 :: nat) \<le> 256 ^ 256" by simp
  finally have gp: "BN_bn2bin_size ssl (uint g) 256 = Some (mkbuf (be_pad 256 (unat g)))" "length (be_pad 256 (unat g)) = 256"
    using bn2bin_size_eq [OF assms(3), of "unat g"] by simp_all
  obtain h where h: "tg_calc_password_hash env ssl password salt1 salt2 = Some (mkbuf h)" "length h = 32" "be_nat h = x"
    using password_hash_eq [OF assms(1,2,4-7)] x by auto
  have lA: "length A = 256" and eA: "BN_bn2bin_size ssl (int (unat g ^ a mod P)) 256 = Some (mkbuf A)"
    using P256 A bn2bin_size_eq [OF assms(3)] by simp_all
  have rnd: "buf_rand (e_rnd env) (drop_bit 32 (e_clock env (tg_ticks tg))) 256 = Some (mkbuf (rand_bytes env tg 256))"
    by (simp add: buf_rand_eq rand_bytes_def BUFSIZ_def)
  let ?u = "srp_u env A (bytes B)" and ?k = "srp_k env (bytes p) (unat g)"
  let ?S = "t ^ (?u * x + a) mod P"
  have eS: "BN_bn2bin_size ssl (int ?S) 256 = Some (mkbuf (be_pad 256 ?S))" "length (be_pad 256 ?S) = 256"
    using bn2bin_size_eq [OF assms(3) P256] P256 by simp_all
  have eu: "buf_concat_sha256 env (mkbuf A) B = Some (mkbuf (e_sha256 env (A @ bytes B)))"
    "buf_concat_sha256 env p (mkbuf (be_pad 256 (unat g))) = Some (mkbuf (e_sha256 env (bytes p @ be_pad 256 (unat g))))"
    using concat_sha256_eq [OF assms(1), of "mkbuf A" B] concat_sha256_eq [OF assms(1) gr(1), of "mkbuf (be_pad 256 (unat g))"]
      gr lA gp(2) by (simp_all add: fits_def)
  have bn: "bn_of ssl p = Some (int P)" "bn_of ssl B = Some (int (be_nat (bytes B)))" "bn_of ssl (mkbuf h) = Some (int x)"
    "bn_of ssl (mkbuf (rand_bytes env tg 256)) = Some (int a)" "bn_of ssl (mkbuf (e_sha256 env (A @ bytes B))) = Some (int ?u)"
    "bn_of ssl (mkbuf (e_sha256 env (bytes p @ be_pad 256 (unat g)))) = Some (int ?k)"
    using bn_of_eq [OF assms(3)] gr P h a sh by (simp_all add: fits_def srp_u_def srp_k_def)
  have ex: "x_mod_exp ssl (uint g) (int a) (int P) = Some (int (unat g ^ a mod P))"
    "x_mod_exp ssl (uint g) (int x) (int P) = Some (int (unat g ^ x mod P))"
    "x_mod_exp ssl (int t) (int (?u * x + a)) (int P) = Some (int ?S)"
    using mod_exp_nat [OF assms(3) gr(7)] by (metis uint_nat)+
  let ?v = "unat g ^ x mod P" and ?t0 = "int (be_nat (bytes B)) - int ?k * int (unat g ^ x mod P) mod int P"
  have kv: "x_mod_mul ssl (int ?k) (int ?v) (int P) = Some (int ?k * int ?v mod int P)" using num gr(7) by simp
  have ts: "(if x_cmp ssl ?t0 0 = - 1 then x_add ssl ?t0 (int P) else Some ?t0) = Some (int t)"
    unfolding reduce_eq [OF assms(3)] using t by (simp only: srp_client_t_def Let_def split: if_splits)
  have op: "x_sub ssl c d = Some (c - d)" "x_mul ssl (int ?u) (int x) = Some (int (?u * x))"
    "x_add ssl (int (?u * x)) (int a) = Some (int (?u * x + a))" for c d
    using num by simp_all
  have cm: "x_cmp ssl 0 (int (be_nat (bytes B))) = - 1" "x_cmp ssl (int (be_nat (bytes B))) (int P) = - 1"
    using num gr by (simp_all add: sgn_if)
  have hs: "tg_hsh_sha256 env (mkbuf (be_pad 256 ?S)) = Some (mkbuf (e_sha256 env (be_pad 256 ?S)))"
    "tg_hsh_sha256 env p = Some (mkbuf (e_sha256 env (bytes p)))"
    "tg_hsh_sha256 env (mkbuf (be_pad 256 (unat g))) = Some (mkbuf (e_sha256 env (be_pad 256 (unat g))))"
    "tg_hsh_sha256 env salt1 = Some (mkbuf (e_sha256 env (bytes salt1)))" "tg_hsh_sha256 env salt2 = Some (mkbuf (e_sha256 env (bytes salt2)))"
    using sha256_eq [OF assms(1)] gr(1) rs eS(2) gp(2) by (simp_all add: fits_def)
  let ?xr = "map2 (XOR) (e_sha256 env (bytes p)) (e_sha256 env (be_pad 256 (unat g)))"
  have xr: "buf_xor (mkbuf (e_sha256 env (bytes p))) (mkbuf (e_sha256 env (be_pad 256 (unat g)))) = Some (mkbuf ?xr)" "length ?xr = 32"
    using buf_xor_eq [of "mkbuf (e_sha256 env (bytes p))" "mkbuf (e_sha256 env (be_pad 256 (unat g)))"] sh by (simp_all add: fits_def)
  show ?thesis
    unfolding tg_get_inputCheckPasswordSRP_def Let_def buf_new_eq now_seconds_def prod.case
    by (simp add: cat_M1 [OF assms(1) gr(3,4) lA xr(2)] bn cm gr(4) gp(1) h(1) rnd ex(1) eA eu ex(2) kv op ts ex(3) eS(1) hs xr(1) srp_M1_def
        del: of_nat_add of_nat_mult of_nat_power)
qed

text \<open>Put together.\<close>

lemma srp_accepted:
  assumes "crypto_ok env" "hmac_ok ssl H" "numbers_ok ssl" and "0 \<in> set password" "strlen password < 2 ^ 24"
    and "salt_ok salt1" "salt_ok salt2" and "group_ok p B"
    and "P = be_nat (bytes p)" and "v = unat g ^ srp_x env H (c_string password) (bytes salt1) (bytes salt2) mod P"
    and "be_nat (bytes B) = srp_server_B P (unat g) (srp_k env (bytes p) (unat g)) v b"
  shows "\<exists>A. A = be_pad 256 (unat g ^ be_nat (rand_bytes env tg 256) mod P) \<and>
     tg_get_inputCheckPasswordSRP env ssl tg password salt1 salt2 g p B ident =
       Some (x_srp ssl ident (mkbuf A) (mkbuf (srp_M1 env (bytes p) (unat g) (bytes salt1) (bytes salt2) A (bytes B)
         (srp_server_S P (be_nat A) v (srp_u env A (bytes B)) b))), tick tg)"
proof -
  have "0 < P" using assms(8,9) by (simp add: group_ok_def)
  then have t: "srp_client_t P (be_nat (bytes B)) (srp_k env (bytes p) (unat g))
      (unat g ^ srp_x env H (c_string password) (bytes salt1) (bytes salt2) mod P) = int (unat g ^ b mod P)"
    unfolding assms(11) assms(10) [symmetric] by (rule client_t_eq)
  show ?thesis
    using srp_run [OF assms(1-9) refl refl refl t, of tg ident] assms(10) by (simp add: secret_agreement)
qed

section \<open>What the component promises\<close>

text \<open>
  C27: The key derivation is the first block of PBKDF2 (RFC 2898) for every positive number of
  iterations, with HMAC-SHA512 as the pseudorandom function; a count that is not positive
  stops the program.
\<close>

theorem pbkdf2_is_rfc2898:
  assumes "hmac_ok ssl H" and "readable password" and "readable salt"
  shows "tg_pbkdf2_sha512 ssl password salt c =
     (if 0 < c then Some (mkbuf (rfc_block H (bytes password) (bytes salt) (nat c))) else None)"
  using pbkdf2_eq [OF assms] by (simp add: tg_pbkdf2_sha512_def)

definition sample_ssl :: ssl where
  "sample_ssl = \<lparr>x_hmac_ctx = (\<lambda>k ps. replicate 64 (of_nat (length (concat ps)))), x_hmac = (\<lambda>k m. Some (replicate 64 (of_nat (length m)))),
     x_bin2bn = (\<lambda>bs. int (be_nat bs)), x_bn2bin = (\<lambda>n. nat_be (nat n)), x_cmp = (\<lambda>a b. sgn (a - b)),
     x_add = (\<lambda>a b. Some (a + b)), x_sub = (\<lambda>a b. Some (a - b)), x_mul = (\<lambda>a b. Some (a * b)),
     x_mod_mul = (\<lambda>a b m. if m = 0 then None else Some (a * b mod m)),
     x_mod_exp = (\<lambda>a e m. if m = 0 then None else Some (a ^ nat e mod m)),
     x_srp = (\<lambda>i A M. mkbuf (le_bytes 8 i @ bytes A @ bytes M))\<rparr>"

lemma sample_ssl_ok:
  "hmac_ok sample_ssl (\<lambda>k m. replicate 64 (of_nat (length m)))" "numbers_ok sample_ssl"
  using nat_be_hd nat_be_val by (auto simp: hmac_ok_def numbers_ok_def sample_ssl_def)

theorem pbkdf2_is_rfc2898_witness:
  "tg_pbkdf2_sha512 sample_ssl (mkbuf [1, 2]) (mkbuf [3]) 4 =
     (if (0 :: int) < 4 then Some (mkbuf (rfc_block (\<lambda>k m. replicate 64 (of_nat (length m))) (bytes (mkbuf [1, 2])) (bytes (mkbuf [3])) (nat 4)))
      else None)"
  by (rule pbkdf2_is_rfc2898 [OF sample_ssl_ok(1)]) (simp_all add: fits_def)

text \<open>
  C9: The proof of the password is the one the server expects: when the server holds the verifier
  of the same password and sends its number for some exponent \<open>b\<close>, the client answers with
  its own number \<open>A\<close> and with the hash that the server computes from \<open>A\<close>, the verifier and \<open>b\<close>,
  which it gets without knowing \<open>b\<close>.  The client's exponent is all that is random, and it is
  what \<^verbatim>\<open>rand\<close> gives for the current second.
\<close>

theorem srp_proof_accepted:
  assumes "crypto_ok env" "hmac_ok ssl H" "numbers_ok ssl" and "0 \<in> set password" "strlen password < 2 ^ 24"
    and "salt_ok salt1" "salt_ok salt2" and "group_ok p B"
    and "P = be_nat (bytes p)" and "v = unat g ^ srp_x env H (c_string password) (bytes salt1) (bytes salt2) mod P"
    and "be_nat (bytes B) = srp_server_B P (unat g) (srp_k env (bytes p) (unat g)) v b"
  shows "\<exists>A. A = be_pad 256 (unat g ^ be_nat (rand_bytes env tg 256) mod P) \<and>
     tg_get_inputCheckPasswordSRP env ssl tg password salt1 salt2 g p B ident =
       Some (x_srp ssl ident (mkbuf A) (mkbuf (srp_M1 env (bytes p) (unat g) (bytes salt1) (bytes salt2) A (bytes B)
         (srp_server_S P (be_nat A) v (srp_u env A (bytes B)) b))), tick tg)"
  by (rule srp_accepted [OF assms])

text \<open>A small group in numbers of 256 bytes.\<close>

lemma sample_group:
  "bytes (mkbuf (be_pad 256 7)) = be_pad 256 7" "bytes (mkbuf (be_pad 256 2)) = be_pad 256 2"
  "group_ok (mkbuf (be_pad 256 7)) (mkbuf (be_pad 256 2))" "srp_k sample_env (be_pad 256 7) 3 = 0"
proof -
  have l: "length (be_pad 256 7) = 256" "length (be_pad 256 2) = 256" by simp_all
  then show "bytes (mkbuf (be_pad 256 7)) = be_pad 256 7" "bytes (mkbuf (be_pad 256 2)) = be_pad 256 2"
    "group_ok (mkbuf (be_pad 256 7)) (mkbuf (be_pad 256 2))"
    by (simp_all add: fits_def group_ok_def)
  have "srp_k sample_env (be_pad 256 7) 3 = be_nat (replicate 32 (of_nat 512))"
    using l by (simp add: srp_k_def sample_env_def)
  also have "(of_nat 512 :: byte) = 0" by simp
  also have "be_nat (replicate 32 0) = 0" by simp
  finally show "srp_k sample_env (be_pad 256 7) 3 = 0" .
qed

theorem srp_proof_accepted_witness:
  "let p = mkbuf (be_pad 256 7); B = mkbuf (be_pad 256 2); H = (\<lambda>k m. replicate 64 (of_nat (length m)));
       v = unat (3 :: u32) ^ srp_x sample_env H (c_string [104, 105, 0]) (bytes (mkbuf [1])) (bytes (mkbuf [2])) mod 7 in
   \<exists>A. A = be_pad 256 (unat (3 :: u32) ^ be_nat (rand_bytes sample_env sample_tg 256) mod 7) \<and>
     tg_get_inputCheckPasswordSRP sample_env sample_ssl sample_tg [104, 105, 0] (mkbuf [1]) (mkbuf [2]) 3 p B 9 =
       Some (x_srp sample_ssl 9 (mkbuf A) (mkbuf (srp_M1 sample_env (bytes p) (unat (3 :: u32)) (bytes (mkbuf [1])) (bytes (mkbuf [2])) A (bytes B)
         (srp_server_S 7 (be_nat A) v (srp_u sample_env A (bytes B)) 2))), tick sample_tg)"
proof -
  show ?thesis
    unfolding Let_def
    by (rule srp_proof_accepted [OF _ sample_ssl_ok, where p = "mkbuf (be_pad 256 7)"])
       (simp_all only: sample_group be_pad_val srp_server_B_def, simp_all add: sample_group strlen_def salt_ok_def fits_def)
qed

text \<open>
  A number from the server that is out of range, zero or not of 256 bytes is refused: the
  result is empty, no random number is drawn.
\<close>

theorem srp_bad_number_refused:
  assumes "numbers_ok ssl" and "readable p" and "readable B"
    and "be_nat (bytes B) = 0 \<or> be_nat (bytes p) \<le> be_nat (bytes B) \<or> bsize B \<noteq> 256"
  shows "tg_get_inputCheckPasswordSRP env ssl tg password salt1 salt2 g p B ident = Some (mkbuf [], tg)"
proof -
  have "x_cmp ssl a b \<noteq> - 1 \<longleftrightarrow> b \<le> a" for a b using assms(1) by (auto simp: numbers_ok_def sgn_if)
  then show ?thesis
    using assms bn_of_eq [OF assms(1)] by (auto simp: tg_get_inputCheckPasswordSRP_def)
qed

theorem srp_bad_number_refused_witness:
  "tg_get_inputCheckPasswordSRP sample_env sample_ssl sample_tg [0] (mkbuf [1]) (mkbuf [2]) 3 (mkbuf [7]) (mkbuf [9]) 9 =
     Some (mkbuf [], sample_tg)"
  by (rule srp_bad_number_refused [OF sample_ssl_ok(2)]) (simp_all add: fits_def)

end
