(* ===== verification/Login.thy ===== *)
theory Login
  imports Sync_Query Password
begin

text \<open>
  Logging in: \<^verbatim>\<open>libtg/tg/auth.c\<close>, the calls around the password of \<^verbatim>\<open>libtg/tg/2fa.c\<close>, and the flow
  of \<^verbatim>\<open>libtg/tg/connect.c\<close> that asks the application for what is missing.  Every query is a
  synchronous one (\<open>Sync_Query\<close>); the generated constructors and fields, the reads of the
  database and the application's callback are parameters, writes to the database and
  calls of the callback are recorded.  The callback also hears what the library logs, which is left out
  except for the array that holds the last line.
\<close>

section \<open>The generated code\<close>

text \<open>The fields of \<^verbatim>\<open>auth.authorization\<close>, \<^verbatim>\<open>account.password\<close> and its algorithm that the code reads.\<close>

record authorization =
  au_setup_password_required :: bool
  au_future_auth_token :: buf
  au_user :: tl

record kdf_algo =
  al_id :: u32
  al_salt1 :: buf
  al_salt2 :: buf
  al_g :: u32
  al_p :: buf

record account_password =
  ap_current_algo :: "kdf_algo option"    \<comment> \<open>\<^verbatim>\<open>NULL\<close> when the account has no password\<close>
  ap_srp_B :: buf
  ap_srp_id :: u64

text \<open>Constructor numbers, fields of objects, methods.\<close>

record schema =
  i_config :: u32
  i_vector :: u32
  i_user :: u32
  i_sentCode :: u32
  i_authorization :: u32
  i_password :: u32
  i_algo :: u32
  o_dc_options :: "tl \<Rightarrow> dc_option list"
  o_vector_data :: "tl \<Rightarrow> buf"
  o_phone_code_hash :: "tl \<Rightarrow> buf"
  o_authorization :: "tl \<Rightarrow> authorization"
  o_password :: "tl \<Rightarrow> account_password"
  g_getConfig :: buf
  g_initConnection :: "int \<Rightarrow> string \<Rightarrow> string \<Rightarrow> string \<Rightarrow> string \<Rightarrow> string \<Rightarrow> string \<Rightarrow> buf \<Rightarrow> buf"
  g_invokeWithLayer :: "int \<Rightarrow> buf \<Rightarrow> buf"
  g_inputUserSelf :: buf
  g_getUsers :: "buf list \<Rightarrow> buf"
  g_codeSettings :: "buf list option \<Rightarrow> buf"
  g_sendCode :: "string \<Rightarrow> int \<Rightarrow> string \<Rightarrow> buf \<Rightarrow> buf"
  g_signIn :: "string \<Rightarrow> string \<Rightarrow> string \<Rightarrow> buf"
  g_getPassword :: buf
  g_checkPassword :: "buf \<Rightarrow> buf"

section \<open>State\<close>

datatype tg_auth = TG_AUTH_ERROR | TG_AUTH_INFO | TG_AUTH_PHONE_NUMBER_NEEDED | TG_AUTH_PHONE_CODE_NEEDED |
  TG_AUTH_PASSWORD_NEEDED | TG_AUTH_SUCCESS

datatype db_write = Db_auth_key buf | Db_auth_token string | Db_ip_address string

text \<open>
  \<open>lg_turns\<close> are the threads' turns of the coming queries, one list for each; \<open>lg_db\<close> what was
  written to the database, \<open>lg_calls\<close> the calls of the callback.
\<close>

record login =
  lg_sys :: sys
  lg_turns :: "turn list list"
  lg_db :: "db_write list"
  lg_calls :: "(tg_auth \<times> tl option \<times> string) list"

text \<open>
  \<open>ap_n\<close> and \<open>ap_fuel\<close> are the fuel of a query's thread, \<open>ap_tokens\<close> and \<open>ap_phone\<close> what the database holds,
  \<open>ap_rc_net\<close> the socket of the last key exchange.
\<close>

record app =
  ap_world :: world
  ap_ssl :: ssl
  ap_schema :: schema
  ap_n :: nat
  ap_fuel :: nat
  ap_tokens :: "string option"
  ap_phone :: "string option"
  ap_rc_net :: int
  ap_callback :: "(tg_auth \<Rightarrow> tl option \<Rightarrow> string \<Rightarrow> string option) option"

abbreviation lg_tg :: "login \<Rightarrow> tg" where
  "lg_tg l \<equiv> s_tg (lg_sys l)"

definition set_client :: "(tg \<Rightarrow> tg) \<Rightarrow> login \<Rightarrow> login" where
  "set_client f l = l\<lparr>lg_sys := set_tg f (lg_sys l)\<rparr>"

text \<open>The functions that write to the database give up when they cannot lock it.\<close>

definition write_db :: "app \<Rightarrow> db_write list \<Rightarrow> login \<Rightarrow> login" where
  "write_db app ws l = (if e_lock (w_env (ap_world app)) Databasem then l\<lparr>lg_db := lg_db l @ ws\<rparr> else l)"

text \<open>One query and its answer.\<close>

definition ask :: "app \<Rightarrow> login \<Rightarrow> buf \<Rightarrow> (tl option \<times> login) option" where
  "ask app l query =
     (case lg_turns l of
        [] \<Rightarrow> None
      | ts # tss \<Rightarrow> do {
          (t, s) \<leftarrow> tg_send_query (ap_n app) (ap_fuel app) (ap_world app) ts (lg_sys l) query;
          Some (t, l\<lparr>lg_sys := s, lg_turns := tss\<rparr>)
        })"

section \<open>Authorisation\<close>

definition initConnection :: "app \<Rightarrow> tg \<Rightarrow> buf \<Rightarrow> buf" where
  "initConnection app tg query =
     (let g = ap_schema app;
          init = g_initConnection g (tg_apiId tg) ''iTgLegacy'' ''1.16.32'' ''1.16.32'' ''ru'' ''LibTg'' ''ru'' query
      in g_invokeWithLayer g 185 init)"

text \<open>The common beginning of \<^verbatim>\<open>tg_is_authorized\<close> and \<^verbatim>\<open>tg_auth_sendCode\<close>: whether the configuration came.\<close>

definition get_config :: "app \<Rightarrow> login \<Rightarrow> (bool \<times> login) option" where
  "get_config app l = do {
     let init = initConnection app (lg_tg l) (g_getConfig (ap_schema app));
     (t, l) \<leftarrow> ask app l init;
     (case t of
        None \<Rightarrow> Some (False, l)
      | Some t \<Rightarrow>
          (if tl_id t \<noteq> i_config (ap_schema app) then Some (False, l)
           else Some (True, set_client (\<lambda>tg. tg\<lparr>tg_config := Some (o_dc_options (ap_schema app) t)\<rparr>) l)))
   }"

definition tg_is_authorized :: "app \<Rightarrow> login \<Rightarrow> (tl option \<times> login) option" where
  "tg_is_authorized app l =
     (if bsize (tg_key (lg_tg l)) = 0 then Some (None, l)
      else do {
        (ok, l) \<leftarrow> get_config app l;
        if \<not> ok then Some (None, l)
        else do {
          let g = ap_schema app;
          (t, l) \<leftarrow> ask app l (g_getUsers g [g_inputUserSelf g]);
          (case t of
             None \<Rightarrow> Some (None, l)
           | Some t \<Rightarrow>
               (if tl_id t = i_vector g then do {
                  (user, _) \<leftarrow> tl_deserialize (l_table (w_lib (ap_world app))) (o_vector_data g t);
                  (case user of
                     None \<Rightarrow> Some (None, l)
                   | Some u \<Rightarrow> Some (if tl_id u = i_user g then Some u else None, l))
                } else Some (None, l)))
        }
      })"

text \<open>The pieces that \<^verbatim>\<open>strtok_foreach\<close> finds between the delimiters; \<open>cur\<close> is the one being read.\<close>

fun strtok :: "char \<Rightarrow> string \<Rightarrow> string \<Rightarrow> string list" where
  "strtok d cur [] = (if cur = [] then [] else [cur])"
| "strtok d cur (c # s) = (if c = d then (if cur = [] then [] else [cur]) @ strtok d [] s else strtok d (cur @ [c]) s)"

fun add_tokens :: "string list \<Rightarrow> buf list option" where
  "add_tokens [] = Some []"
| "add_tokens (x # xs) = do {
     b \<leftarrow> buf_add (str_bytes x) 0 (of_nat (length x));
     bs \<leftarrow> add_tokens xs;
     Some (b # bs)
   }"

text \<open>The array \<^verbatim>\<open>t\<close> has room for 20 tokens.\<close>

definition read_tokens :: "string option \<Rightarrow> buf list option option" where
  "read_tokens s =
     (case s of None \<Rightarrow> Some None
      | Some s \<Rightarrow> (let xs = strtok (CHR '';'') [] s in
          if length xs > 20 then None else map_option Some (add_tokens xs)))"

text \<open>The request for a code; fuel for the recursion after a redirection.\<close>

fun tg_auth_sendCode :: "nat \<Rightarrow> app \<Rightarrow> login \<Rightarrow> string \<Rightarrow> (tl option \<times> login) option" where
  "tg_auth_sendCode 0 app l phone_number = None"
| "tg_auth_sendCode (Suc k) app l phone_number = do {
     (ok, l) \<leftarrow> get_config app l;
     if \<not> ok then Some (None, l)
     else do {
       let g = ap_schema app;
       t \<leftarrow> read_tokens (ap_tokens app);
       let codeSettings = g_codeSettings g t;
       (t, l) \<leftarrow> ask app l (g_sendCode g phone_number (tg_apiId (lg_tg l)) (tg_apiHash (lg_tg l)) codeSettings);
       (case t of
          None \<Rightarrow> Some (None, l)
        | Some t \<Rightarrow> do {
            err \<leftarrow> (case t of Rpc_error _ _ m \<Rightarrow> map_option Some (RPC_ERROR m) | _ \<Rightarrow> Some None);
            (case (case err of None \<Rightarrow> None | Some e \<Rightarrow> strstr e ''PHONE_MIGRATE_'') of
               Some str \<Rightarrow> do {
                 dc \<leftarrow> atoi (drop (length ''PHONE_MIGRATE_'') str);
                 (case tg_ip_address_for_dc (lg_tg l) dc of
                    None \<Rightarrow> Some (None, l)
                  | Some ip \<Rightarrow> do {
                      let l = set_client (\<lambda>tg. tg_set_server_address (w_env (ap_world app)) tg ip 443) l;
                      let l = l\<lparr>lg_sys := emit (Close (ap_rc_net app)) (lg_sys l)\<rparr>;
                      let l = set_client (\<lambda>tg. tg\<lparr>tg_key := (tg_key tg)\<lparr>bsize := 0\<rparr>\<rparr>) l;
                      tg_auth_sendCode k app l phone_number
                    })
               }
             | None \<Rightarrow> Some (if tl_id t = i_sentCode g then Some t else None, l))
          })
     }
   }"

text \<open>
  \<^verbatim>\<open>strncpy\<close> into an array of \<^verbatim>\<open>BUFSIZ\<close> characters that is not initialised: what it holds as a
  C string is defined only when the source ends within the count.
\<close>

definition copy_token :: "buf \<Rightarrow> string option" where
  "copy_token b =
     (if unat (bsize b) \<le> BUFSIZ \<and> 0 \<in> set (bytes b) \<and> readable b then Some (cstr (bytes b)) else None)"

definition tg_auth_signIn :: "app \<Rightarrow> login \<Rightarrow> tl \<Rightarrow> string \<Rightarrow> string \<Rightarrow> (tl option \<times> login) option" where
  "tg_auth_signIn app l sentCode phone_number phone_code = do {
     let g = ap_schema app;
     hash \<leftarrow> RPC_ERROR (o_phone_code_hash g sentCode);
     (t, l) \<leftarrow> ask app l (g_signIn g phone_number hash phone_code);
     (case t of
        None \<Rightarrow> Some (None, l)
      | Some t \<Rightarrow>
          (if tl_id t = i_authorization g then
             (let auth = o_authorization g t in
              if au_setup_password_required auth then Some (None, l)
              else do {
                ws \<leftarrow> (if bsize (au_future_auth_token auth) > 0
                      then map_option (\<lambda>s. [Db_auth_token s]) (copy_token (au_future_auth_token auth))
                      else Some []);
                Some (Some (au_user auth), write_db app (ws @ [Db_auth_key (tg_key (lg_tg l)), Db_ip_address (tg_ip (lg_tg l))]) l)
              })
           else Some (None, l)))
   }"

section \<open>The password\<close>

definition tg_account_getPassword :: "app \<Rightarrow> login \<Rightarrow> (account_password option \<times> login) option" where
  "tg_account_getPassword app l = do {
     let g = ap_schema app;
     (t, l) \<leftarrow> ask app l (g_getPassword g);
     (case t of
        None \<Rightarrow> Some (None, l)
      | Some t \<Rightarrow> do {
          _ \<leftarrow> (case t of Rpc_error _ _ m \<Rightarrow> map_option Some (RPC_ERROR m) | _ \<Rightarrow> Some None);
          Some (if tl_id t = i_password g then Some (o_password g t) else None, l)
        })
   }"

definition tg_auth_check_password :: "app \<Rightarrow> login \<Rightarrow> string \<Rightarrow> (tl option \<times> login) option" where
  "tg_auth_check_password app l password = do {
     let g = ap_schema app;
     (ap, l) \<leftarrow> tg_account_getPassword app l;
     (case ap of
        None \<Rightarrow> Some (None, l)
      | Some ap \<Rightarrow> do {
          algo \<leftarrow> ap_current_algo ap;
          if al_id algo \<noteq> i_algo g then Some (None, l)
          else do {
            (srp, tg) \<leftarrow> tg_get_inputCheckPasswordSRP (w_env (ap_world app)) (ap_ssl app) (lg_tg l)
                           (str_bytes password @ [0]) (al_salt1 algo) (al_salt2 algo) (al_g algo) (al_p algo)
                           (ap_srp_B ap) (ap_srp_id ap);
            let l = set_client (\<lambda>_. tg) l;
            if bsize srp = 0 then Some (None, l)
            else do {
              (t, l) \<leftarrow> ask app l (g_checkPassword g srp);
              (case t of
                 None \<Rightarrow> Some (None, l)
               | Some t \<Rightarrow> do {
                   _ \<leftarrow> (case t of Rpc_error _ _ m \<Rightarrow> map_option Some (RPC_ERROR m) | _ \<Rightarrow> Some None);
                   if tl_id t \<noteq> i_authorization g then Some (None, l)
                   else Some (Some (au_user (o_authorization g t)),
                              write_db app [Db_auth_key (tg_key (lg_tg l)), Db_ip_address (tg_ip (lg_tg l))] l)
                 })
            }
          }
        })
   }"

section \<open>Connecting\<close>

text \<open>\<^verbatim>\<open>_TG_CB\<close>: the text is formatted into an array of 256 characters, whose end is not checked.\<close>

definition TG_CB :: "app \<Rightarrow> login \<Rightarrow> tg_auth \<Rightarrow> tl option \<Rightarrow> string \<Rightarrow> (string option \<times> login) option" where
  "TG_CB app l auth t err =
     (if \<not> length err < 256 then None
      else case ap_callback app of
             None \<Rightarrow> Some (None, l)
           | Some callback \<Rightarrow> Some (callback auth t err, l\<lparr>lg_calls := lg_calls l @ [(auth, t, err)]\<rparr>))"

text \<open>The end of the flow, where a password is asked for whatever the reason was that the code failed.\<close>

definition connect_password :: "app \<Rightarrow> login \<Rightarrow> tl \<Rightarrow> (int \<times> login) option" where
  "connect_password app l sentCode = do {
     (password, l) \<leftarrow> TG_CB app l TG_AUTH_PASSWORD_NEEDED (Some sentCode) ''enter password'';
     (case password of
        None \<Rightarrow> do {
          (_, l) \<leftarrow> TG_CB app l TG_AUTH_ERROR (Some sentCode) ''password is NULL'';
          Some (1, l)
        }
      | Some password \<Rightarrow> do {
          (_, l) \<leftarrow> TG_CB app l TG_AUTH_INFO (Some sentCode) (''password: '' @ password);
          (user, l) \<leftarrow> tg_auth_check_password app l password;
          (case user of
             Some u \<Rightarrow> do { (_, l) \<leftarrow> TG_CB app l TG_AUTH_SUCCESS (Some u) ''authorized!''; Some (0, l) }
           | None \<Rightarrow> do { (_, l) \<leftarrow> TG_CB app l TG_AUTH_ERROR (Some sentCode) ''password is incorrect!''; Some (1, l) })
        })
   }"

definition connect_code :: "app \<Rightarrow> login \<Rightarrow> tl \<Rightarrow> string \<Rightarrow> (int \<times> login) option" where
  "connect_code app l sentCode phone_number = do {
     (phone_code, l) \<leftarrow> TG_CB app l TG_AUTH_PHONE_CODE_NEEDED (Some sentCode) ''enter code'';
     (case phone_code of
        None \<Rightarrow> do {
          (_, l) \<leftarrow> TG_CB app l TG_AUTH_ERROR (Some sentCode) ''phone code is NULL'';
          Some (1, l)
        }
      | Some phone_code \<Rightarrow> do {
          (_, l) \<leftarrow> TG_CB app l TG_AUTH_INFO (Some sentCode) (''phone code: '' @ phone_code);
          (user, l) \<leftarrow> tg_auth_signIn app l sentCode phone_number phone_code;
          (case user of
             Some u \<Rightarrow> do { (_, l) \<leftarrow> TG_CB app l TG_AUTH_SUCCESS (Some u) ''authorized!''; Some (0, l) }
           | None \<Rightarrow> connect_password app l sentCode)
        })
   }"

definition tg_connect :: "nat \<Rightarrow> app \<Rightarrow> login \<Rightarrow> (int \<times> login) option" where
  "tg_connect k app l = do {
     (user, l) \<leftarrow> tg_is_authorized app l;
     (case user of
        Some u \<Rightarrow> do { (_, l) \<leftarrow> TG_CB app l TG_AUTH_SUCCESS (Some u) ''authorized!''; Some (0, l) }
      | None \<Rightarrow> do {
          (phone_number, l) \<leftarrow> (case ap_phone app of
             Some p \<Rightarrow> Some (Some p, l)
           | None \<Rightarrow> TG_CB app l TG_AUTH_PHONE_NUMBER_NEEDED None ''enter phone number (+7XXXXXXXXXX)'');
          (case phone_number of
             None \<Rightarrow> do {
               (_, l) \<leftarrow> TG_CB app l TG_AUTH_ERROR None ''phone number is NULL'';
               Some (1, l)
             }
           | Some phone_number \<Rightarrow> do {
               (_, l) \<leftarrow> TG_CB app l TG_AUTH_INFO None (''phone number: '' @ phone_number);
               (sentCode, l) \<leftarrow> tg_auth_sendCode k app l phone_number;
               (case sentCode of
                  None \<Rightarrow> Some (1, l)
                | Some sc \<Rightarrow> connect_code app l sc phone_number)
             })
        })
   }"

section \<open>What a step leaves alone\<close>

text \<open>
  \<open>quiet l l'\<close>: from \<open>l\<close> to \<open>l'\<close> nothing was written to the database, and the calls of the
  callback that were made did not announce success.
\<close>

definition quiet_login :: "login \<Rightarrow> login \<Rightarrow> bool" where
  "quiet_login l l' \<longleftrightarrow> lg_db l' = lg_db l \<and> (\<exists>cs. lg_calls l' = lg_calls l @ cs \<and> TG_AUTH_SUCCESS \<notin> fst ` set cs)"

lemma quiet_login_refl [simp]: "quiet_login l l"
  by (simp add: quiet_login_def)

lemma quiet_login_trans [trans]: "quiet_login l l' \<Longrightarrow> quiet_login l' l'' \<Longrightarrow> quiet_login l l''"
  by (auto simp: quiet_login_def)

lemma quiet_set_client [simp]: "quiet_login l (set_client f l)"
  by (simp add: quiet_login_def set_client_def)

lemma ask_quiet: "ask app l q = Some (t, l') \<Longrightarrow> quiet_login l l'"
  by (auto simp: ask_def quiet_login_def split: list.splits Option.bind_splits)

lemma TG_CB_quiet: "TG_CB app l a t e = Some (r, l') \<Longrightarrow> a \<noteq> TG_AUTH_SUCCESS \<Longrightarrow> quiet_login l l'"
  by (auto simp: TG_CB_def quiet_login_def split: if_splits option.splits)

lemma get_config_quiet: "get_config app l = Some (ok, l') \<Longrightarrow> quiet_login l l'"
  by (auto simp: get_config_def Let_def split: Option.bind_splits option.splits if_splits
      dest!: ask_quiet intro: quiet_login_trans [OF _ quiet_set_client])

lemma is_authorized_quiet: "tg_is_authorized app l = Some (u, l') \<Longrightarrow> quiet_login l l'"
  by (auto simp: tg_is_authorized_def Let_def split: Option.bind_splits option.splits if_splits
      dest!: ask_quiet get_config_quiet) (blast intro: quiet_login_trans)+

lemma quiet_sys [simp]: "quiet_login l (l\<lparr>lg_sys := s\<rparr>)"
  by (simp add: quiet_login_def)

lemma sendCode_quiet: "tg_auth_sendCode k app l p = Some (u, l') \<Longrightarrow> quiet_login l l'"
proof (induction k arbitrary: l)
  case (Suc k)
  have moved: "quiet_login l2 (set_client f (l3\<lparr>lg_sys := s\<rparr>))" if "l3 = set_client h l2" for l2 l3 f h s
    using that by (simp add: quiet_login_def set_client_def)
  show ?case
    using Suc.prems
    by (auto simp: Let_def split: Option.bind_splits option.splits if_splits
        dest!: ask_quiet get_config_quiet Suc.IH)
       (blast intro: quiet_login_trans moved)+
qed simp

lemma getPassword_quiet: "tg_account_getPassword app l = Some (u, l') \<Longrightarrow> quiet_login l l'"
  by (auto simp: tg_account_getPassword_def Let_def split: Option.bind_splits option.splits if_splits dest!: ask_quiet)

text \<open>The two ways to be logged in end with the key and the address in the database.\<close>

definition saved :: "app \<Rightarrow> login \<Rightarrow> login \<Rightarrow> bool" where
  "saved app l l' \<longleftrightarrow> (\<exists>l1 ws. quiet_login l l1 \<and>
     l' = write_db app (ws @ [Db_auth_key (tg_key (lg_tg l1)), Db_ip_address (tg_ip (lg_tg l1))]) l1)"

lemma savedI:
  assumes "quiet_login l l1"
  shows "saved app l (write_db app [Db_auth_key (tg_key (lg_tg l1)), Db_ip_address (tg_ip (lg_tg l1))] l1)"
    and "saved app l (write_db app [d, Db_auth_key (tg_key (lg_tg l1)), Db_ip_address (tg_ip (lg_tg l1))] l1)"
  using assms unfolding saved_def by (metis append_Nil, metis append_Cons append_Nil)

lemma signIn_outcome:
  "tg_auth_signIn app l sc p c = Some (u, l') \<Longrightarrow> if u = None then quiet_login l l' else saved app l l'"
  by (auto simp: tg_auth_signIn_def Let_def split: Option.bind_splits option.splits if_splits
      dest!: ask_quiet) (blast intro: savedI)+

lemma check_password_outcome:
  "tg_auth_check_password app l p = Some (u, l') \<Longrightarrow> if u = None then quiet_login l l' else saved app l l'"
  by (auto simp: tg_auth_check_password_def Let_def split: Option.bind_splits option.splits if_splits
      dest!: ask_quiet getPassword_quiet)
     (blast intro: quiet_login_trans quiet_set_client savedI)+

text \<open>How the flow can end.\<close>

definition ends :: "app \<Rightarrow> login \<Rightarrow> int \<Rightarrow> login \<Rightarrow> bool" where
  "ends app l rc l' \<longleftrightarrow> rc = 1 \<and> quiet_login l l' \<or>
     rc = 0 \<and> (\<exists>u r l1. saved app l l1 \<and> TG_CB app l1 TG_AUTH_SUCCESS (Some u) ''authorized!'' = Some (r, l'))"

lemma saved_after: "quiet_login l l1 \<Longrightarrow> saved app l1 l2 \<Longrightarrow> saved app l l2"
  unfolding saved_def by (blast intro: quiet_login_trans)

lemma ends_after: "quiet_login l l1 \<Longrightarrow> ends app l1 rc l2 \<Longrightarrow> ends app l rc l2"
  unfolding ends_def by (blast intro: quiet_login_trans saved_after)

lemmas call_quiet = TG_CB_quiet [where a = TG_AUTH_ERROR, simplified] TG_CB_quiet [where a = TG_AUTH_INFO, simplified]
  TG_CB_quiet [where a = TG_AUTH_PASSWORD_NEEDED, simplified] TG_CB_quiet [where a = TG_AUTH_PHONE_CODE_NEEDED, simplified]
  TG_CB_quiet [where a = TG_AUTH_PHONE_NUMBER_NEEDED, simplified]

lemma ends_quiet: "quiet_login l l' \<Longrightarrow> ends app l 1 l'"
  by (simp add: ends_def)

lemma ends_saved: "saved app l l1 \<Longrightarrow> TG_CB app l1 TG_AUTH_SUCCESS (Some u) ''authorized!'' = Some (r, l') \<Longrightarrow> ends app l 0 l'"
  by (auto simp: ends_def)

lemma connect_password_ends: "connect_password app l sc = Some (rc, l') \<Longrightarrow> ends app l rc l'"
  by (auto simp: connect_password_def split: Option.bind_splits option.splits
      dest!: call_quiet check_password_outcome intro: ends_quiet)
     (blast intro: ends_quiet quiet_login_trans ends_saved saved_after)+

lemma connect_code_ends: "connect_code app l sc p = Some (rc, l') \<Longrightarrow> ends app l rc l'"
  by (auto simp: connect_code_def split: Option.bind_splits option.splits
      dest!: call_quiet signIn_outcome connect_password_ends intro: ends_quiet)
     (blast intro: ends_quiet quiet_login_trans ends_saved saved_after ends_after)+

lemma connect_cases:
  assumes "tg_connect k app l = Some (rc, l')"
  shows "ends app l rc l' \<or>
     rc = 0 \<and> bsize (tg_key (lg_tg l)) \<noteq> 0 \<and>
     (\<exists>u r l1. quiet_login l l1 \<and> TG_CB app l1 TG_AUTH_SUCCESS (Some u) ''authorized!'' = Some (r, l'))"
proof -
  obtain user l1 where a: "tg_is_authorized app l = Some (user, l1)"
    using assms by (auto simp: tg_connect_def split: Option.bind_splits)
  have q: "quiet_login l l1" using a by (rule is_authorized_quiet)
  show ?thesis
  proof (cases user)
    case (Some u)
    then have "bsize (tg_key (lg_tg l)) \<noteq> 0" using a by (auto simp: tg_is_authorized_def)
    with Some q a assms show ?thesis by (auto simp: tg_connect_def split: Option.bind_splits)
  next
    case None
    have "ends app l1 rc l'"
      using assms a None
      by (auto simp: tg_connect_def split: Option.bind_splits option.splits
          dest!: call_quiet sendCode_quiet connect_code_ends intro: ends_quiet)
         (blast intro: ends_quiet quiet_login_trans ends_after)+
    then show ?thesis using ends_after [OF q] by blast
  qed
qed

section \<open>What the login promises\<close>


text \<open>
  A text that does not fit brings the flow down: a phone number of 242 characters or more
  overruns the array in which the message for the callback is formatted.
\<close>

theorem long_phone_number_undefined:
  assumes "bsize (tg_key (lg_tg l)) = 0" and "ap_phone app = Some p" and "242 \<le> length p"
  shows "tg_connect k app l = None"
  using assms by (simp add: tg_connect_def tg_is_authorized_def TG_CB_def)

lemma answered_simps [simp]:
  "tg_key (answered w tg salt smid) = tg_key tg" "tg_ip (answered w tg salt smid) = tg_ip tg"
  by (simp_all add: answered_def tg_add_msgid_def)

text \<open>A query of the login is a synchronous query whose answer came.\<close>

lemma ask_answer:
  assumes "sender_ok w (lg_tg l) (unat (bsize query))" "threads_ok w" "readable query" and "0 \<le> sock"
    and "s_heap (lg_sys l) (s_next (lg_sys l)) = None" and "s_list (lg_sys l) = []"
    and "answers w (lg_tg l) (id_at (w_env w) (lg_tg l) 0) t salt smid inp" and "plain_answer t"
    and "tl_deserialize (l_table (w_lib w)) (tl_buf t) = Some (t', b2)"
    and "ap_world app = w" "ap_n app = k + Suc (Suc n)" "ap_fuel app = Suc fuel"
    and "lg_turns l = [(s_next (lg_sys l), sock, inp, replicate k 0 @ [1])] # tss"
  shows "\<exists>s'. ask app l query = Some (t', l\<lparr>lg_sys := s', lg_turns := tss\<rparr>) \<and>
     s_tg s' = answered w (after_send (lg_tg l)) salt smid \<and> s_list s' = [] \<and> s_heap s' = s_heap (lg_sys l) \<and>
     s_next s' = Suc (s_next (lg_sys l))"
proof -
  obtain s' where "tg_send_query_sync (k + Suc (Suc n)) (Suc fuel) w [(s_next (lg_sys l), sock, inp, replicate k 0 @ [1])] (lg_sys l) query =
      Some (t', s')" "s_tg s' = answered w (after_send (lg_tg l)) salt smid" "s_list s' = []" "s_heap s' = s_heap (lg_sys l)"
      "s_next s' = Suc (s_next (lg_sys l))"
    using sync_answer [OF assms(1-5) _ assms(7-9), of k n fuel] assms(6) by auto
  then show ?thesis using assms(10-13) by (auto simp: ask_def tg_send_query_def)
qed

text \<open>An answer with the parameters of the password.\<close>

definition password_answer :: "app \<Rightarrow> tl \<Rightarrow> account_password \<Rightarrow> kdf_algo \<Rightarrow> bool" where
  "password_answer app t ap algo \<longleftrightarrow> (\<forall>b c m. t \<noteq> Rpc_error b c m) \<and> tl_id t = i_password (ap_schema app) \<and>
     o_password (ap_schema app) t = ap \<and> ap_current_algo ap = Some algo \<and> al_id algo = i_algo (ap_schema app)"

lemma strlen_str_bytes: "strlen (str_bytes p @ [0]) \<le> length p"
proof -
  have "length (takeWhile (\<lambda>c. c \<noteq> 0) (str_bytes p @ [0])) \<le> length (str_bytes p)"
    by (induction p) (auto simp: str_bytes_def)
  then show ?thesis by (simp add: strlen_def str_bytes_def)
qed

text \<open>
  C10: Logging in with the password: from the parameters that the server sends, the client computes
  the proof that this server expects (its own number and the hash over the common secret),
  sends it, and when the server authorises it, hands out the user and stores key and
  address.
\<close>

theorem password_login:
  fixes app :: app
  defines "g \<equiv> ap_schema app" and "env \<equiv> w_env (ap_world app)"
  assumes "ask app l (g_getPassword g) = Some (Some t, l1)" and "password_answer app t ap algo"
    and "crypto_ok env" "hmac_ok (ap_ssl app) H" "numbers_ok (ap_ssl app)" and "length password < 2 ^ 24"
    and "salt_ok (al_salt1 algo)" "salt_ok (al_salt2 algo)" and "group_ok (al_p algo) (ap_srp_B ap)"
    and "P = be_nat (bytes (al_p algo))"
    and "v = unat (al_g algo) ^ srp_x env H (c_string (str_bytes password @ [0])) (bytes (al_salt1 algo)) (bytes (al_salt2 algo)) mod P"
    and "be_nat (bytes (ap_srp_B ap)) = srp_server_B P (unat (al_g algo)) (srp_k env (bytes (al_p algo)) (unat (al_g algo))) v b"
    and "A = be_pad 256 (unat (al_g algo) ^ be_nat (rand_bytes env (lg_tg l1) 256) mod P)"
    and "srp = x_srp (ap_ssl app) (ap_srp_id ap) (mkbuf A) (mkbuf (srp_M1 env (bytes (al_p algo)) (unat (al_g algo))
           (bytes (al_salt1 algo)) (bytes (al_salt2 algo)) A (bytes (ap_srp_B ap))
           (srp_server_S P (be_nat A) v (srp_u env A (bytes (ap_srp_B ap))) b)))" and "bsize srp \<noteq> 0"
    and "ask app (set_client tick l1) (g_checkPassword g srp) = Some (Some t2, l2)"
    and "tl_id t2 = i_authorization g" and "\<forall>b c m. t2 \<noteq> Rpc_error b c m"
  shows "tg_auth_check_password app l password = Some (Some (au_user (o_authorization g t2)),
     write_db app [Db_auth_key (tg_key (lg_tg l2)), Db_ip_address (tg_ip (lg_tg l2))] l2)"
proof -
  have e: "(case x of Rpc_error _ _ m \<Rightarrow> map_option Some (RPC_ERROR m) | _ \<Rightarrow> Some None) = Some None"
    if "\<forall>b c m. x \<noteq> Rpc_error b c m" for x using that by (cases x) simp_all
  note pa = assms(4) [unfolded password_answer_def, folded g_def]
  have gp: "tg_account_getPassword app l = Some (Some ap, l1)"
    using assms(3) pa e [of t] by (simp add: tg_account_getPassword_def g_def Let_def)
  have pw: "0 \<in> set (str_bytes password @ [0])" "strlen (str_bytes password @ [0]) < 2 ^ 24"
    using strlen_str_bytes [of password] assms(8) by simp_all
  have s: "tg_get_inputCheckPasswordSRP env (ap_ssl app) (lg_tg l1) (str_bytes password @ [0])
      (al_salt1 algo) (al_salt2 algo) (al_g algo) (al_p algo) (ap_srp_B ap) (ap_srp_id ap) = Some (srp, tick (lg_tg l1))"
    using srp_accepted [OF assms(5-7) pw assms(9-14), of "lg_tg l1" "ap_srp_id ap"] assms(15,16) by auto
  have c: "set_client (\<lambda>_. tick (lg_tg l1)) l1 = set_client tick l1" by (simp add: set_client_def set_tg_def)
  show ?thesis
    using gp pa s assms(17-19) c e [OF assms(20)]
    by (simp add: tg_auth_check_password_def g_def [symmetric] env_def [symmetric] Let_def)
qed

section \<open>A sample login\<close>

text \<open>Answers in which the bytes say which message is answered and with which object.\<close>

definition sample_world3 :: world where
  "sample_world3 = sample_world\<lparr>w_lib := (w_lib sample_world)\<lparr>l_table :=
     [(1, \<lambda>b. do { mid \<leftarrow> load64 (bblk b) (bdata b + 4); k \<leftarrow> load32 (bblk b) (bdata b + 12);
            Some (Some (Rpc_result b mid (Some (Other (mkbuf (le_bytes 4 k)) k))), b) }),
      (2, \<lambda>b. Some (Some (Other b 2), b)), (3, \<lambda>b. Some (Some (Other b 3), b))]\<rparr>\<rparr>"

definition sample_body :: "u64 \<Rightarrow> u32 \<Rightarrow> byte list" where
  "sample_body mid k = le_bytes 4 (1 :: u32) @ le_bytes 8 mid @ le_bytes 4 k"

definition sample_reply :: "u64 \<Rightarrow> u32 \<Rightarrow> byte list" where
  "sample_reply mid k = server_packet sample_env (bytes (tg_key sample_tg)) (replicate 8 1) (replicate 8 2) 5 6 (sample_body mid k) (replicate 16 0)"

lemma sample_reply_length: "length (sample_reply mid k) = 88"
  by (simp add: sample_reply_def sample_body_def server_packet_def mt_seal_def Let_def mt_auth_key_id_def mt_msg_key_def
      sample_env_def length_plain_wire)

lemma sample_body_read:
  "tl_deserialize (l_table (w_lib sample_world3)) (mkbuf (sample_body mid k)) =
     Some (Some (Rpc_result (mkbuf (sample_body mid k)) mid (Some (Other (mkbuf (le_bytes 4 k)) k))), mkbuf (sample_body mid k))"
proof -
  let ?r = "le_bytes 8 mid @ le_bytes 4 k @ replicate (BUFSIZ + 1 - 16) 0"
  have blk: "bblk (mkbuf (sample_body mid k)) = le_bytes 4 (1 :: u32) @ ?r" "bdata (mkbuf (sample_body mid k)) = 0"
    by (simp_all add: mkbuf_def Let_def sample_body_def BUFSIZ_def)
  have "load32 (le_bytes 4 (1 :: u32) @ ?r) 0 = Some 1" using load32_append [of "[]" 0 1 ?r] by simp
  moreover have "load64 (le_bytes 4 (1 :: u32) @ ?r) 4 = Some mid" by (rule load64_append) simp
  moreover have "load32 (le_bytes 4 (1 :: u32) @ ?r) 12 = Some k"
    using load32_append [of "le_bytes 4 (1 :: u32) @ le_bytes 8 mid" 12 k "replicate (BUFSIZ + 1 - 16) 0"] by simp
  ultimately show ?thesis
    unfolding tl_deserialize_def by (simp add: blk sample_world3_def del: le_bytes.simps)
qed

definition sample_input :: "u64 \<Rightarrow> u32 \<Rightarrow> rcv list" where
  "sample_input mid k = [R_data (le_bytes 4 (88 :: u32)), R_data (sample_reply mid k)]"

lemma sample_input_answers:
  assumes "bytes (tg_key tg) = bytes (tg_key sample_tg)"
  shows "answers sample_world3 tg mid (Other (mkbuf (le_bytes 4 k)) k) (replicate 8 1) 5 (sample_input mid k)"
proof -
  have ne: "[] \<notin> set [sample_reply mid k]" using sample_reply_length [of mid k] by auto
  show ?thesis
    unfolding answers_def
    by (intro exI [of _ "replicate 8 2"] exI [of _ 6] exI [of _ "sample_body mid k"] exI [of _ "replicate 16 0"]
         exI [of _ "[sample_reply mid k]"] exI [of _ "mkbuf (sample_body mid k)"])
       (use ne sample_body_read assms in \<open>simp add: length_plain_wire sample_body_def sample_input_def sample_reply_length\<close>,
        simp add: sample_reply_def sample_body_def sample_world3_def)
qed

lemma sample_object_read: "k \<in> {2, 3} \<Longrightarrow>
   tl_deserialize (l_table (w_lib sample_world3)) (mkbuf (le_bytes 4 k)) = Some (Some (Other (mkbuf (le_bytes 4 k)) k), mkbuf (le_bytes 4 k))"
proof -
  assume k: "k \<in> {2, 3}"
  have "load32 (bblk (mkbuf (le_bytes 4 k))) 0 = Some k"
    using load32_append [of "[]" 0 k "replicate (BUFSIZ + 1 - 4) 0"] by (simp add: mkbuf_def Let_def BUFSIZ_def del: le_bytes.simps)
  with k show ?thesis unfolding tl_deserialize_def by (auto simp: sample_world3_def simp del: le_bytes.simps)
qed

definition sample_algo :: kdf_algo where
  "sample_algo = \<lparr>al_id = 7, al_salt1 = mkbuf [1], al_salt2 = mkbuf [2], al_g = 3, al_p = mkbuf (be_pad 256 7)\<rparr>"

definition sample_schema :: "kdf_algo option \<Rightarrow> schema" where
  "sample_schema algo = \<lparr>i_config = 2, i_vector = 9, i_user = 10, i_sentCode = 11, i_authorization = 3, i_password = 2, i_algo = 7,
     o_dc_options = (\<lambda>_. []), o_vector_data = tl_buf, o_phone_code_hash = tl_buf,
     o_authorization = (\<lambda>t. \<lparr>au_setup_password_required = False, au_future_auth_token = mkbuf [5], au_user = Other (tl_buf t) 10\<rparr>),
     o_password = (\<lambda>_. \<lparr>ap_current_algo = algo, ap_srp_B = mkbuf (be_pad 256 2), ap_srp_id = 9\<rparr>),
     g_getConfig = mkbuf [1, 0, 0, 1], g_initConnection = (\<lambda>_ _ _ _ _ _ _ q. q), g_invokeWithLayer = (\<lambda>_ q. q),
     g_inputUserSelf = mkbuf [2, 0, 0, 1], g_getUsers = hd, g_codeSettings = (\<lambda>_. mkbuf [3, 0, 0, 1]), g_sendCode = (\<lambda>_ _ _ b. b),
     g_signIn = (\<lambda>_ _ _. mkbuf [4, 0, 0, 1]), g_getPassword = mkbuf [5, 0, 0, 1], g_checkPassword = (\<lambda>_. mkbuf [6, 0, 0, 1])\<rparr>"

definition sample_app :: "kdf_algo option \<Rightarrow> app" where
  "sample_app algo = \<lparr>ap_world = sample_world3, ap_ssl = sample_ssl, ap_schema = sample_schema algo, ap_n = 2, ap_fuel = 1,
     ap_tokens = None, ap_phone = None, ap_rc_net = 4, ap_callback = Some (\<lambda>a t e. if a = TG_AUTH_PASSWORD_NEEDED then Some ''hi'' else None)\<rparr>"

definition sample_login :: "turn list list \<Rightarrow> login" where
  "sample_login tss = \<lparr>lg_sys = \<lparr>s_tg = sample_tg, s_heap = Map.empty, s_next = 0, s_list = [], s_trace = []\<rparr>,
     lg_turns = tss, lg_db = [], lg_calls = []\<rparr>"

lemma sample_app_simps [simp]:
  "ap_schema (sample_app a) = sample_schema a" "ap_world (sample_app a) = sample_world3" "ap_ssl (sample_app a) = sample_ssl"
  "al_id sample_algo = 7" "al_salt1 sample_algo = mkbuf [1]" "al_salt2 sample_algo = mkbuf [2]" "al_g sample_algo = 3"
  "al_p sample_algo = mkbuf (be_pad 256 7)"
  by (simp_all add: sample_app_def sample_algo_def)

lemma sample_world3_ok: "threads_ok sample_world3" "w_env sample_world3 = sample_env"
  by (simp_all add: threads_ok_def sample_world3_def sample_world_def)

text \<open>A query of four bytes that gets the object \<open>k\<close> for an answer.\<close>

lemma sample_ask:
  assumes "k \<in> {2, 3}" and "length q = 4" and "sender_ok sample_world3 (lg_tg l) 4" and "tg_key (lg_tg l) = tg_key sample_tg"
    and "s_heap (lg_sys l) = Map.empty" "s_list (lg_sys l) = []" "id_at sample_env (lg_tg l) 0 = mid"
    and "lg_turns l = [(s_next (lg_sys l), 5, sample_input mid k, [1])] # tss"
  shows "\<exists>s'. ask (sample_app algo) l (mkbuf q) = Some (Some (Other (mkbuf (le_bytes 4 k)) k), l\<lparr>lg_sys := s', lg_turns := tss\<rparr>) \<and>
     s_tg s' = answered sample_world3 (after_send (lg_tg l)) (replicate 8 1) 5 \<and> s_list s' = [] \<and> s_heap s' = Map.empty \<and>
     s_next s' = Suc (s_next (lg_sys l))"
proof -
  have "sample_input mid k = sample_input (id_at (w_env sample_world3) (lg_tg l) 0) k"
    using assms(7) sample_world3_ok by simp
  then have a: "answers sample_world3 (lg_tg l) (id_at (w_env sample_world3) (lg_tg l) 0) (Other (mkbuf (le_bytes 4 k)) k) (replicate 8 1) 5
      (sample_input mid k)"
    using sample_input_answers assms(4) by simp
  have d: "tl_deserialize (l_table (w_lib sample_world3)) (tl_buf (Other (mkbuf (le_bytes 4 k)) k)) =
      Some (Some (Other (mkbuf (le_bytes 4 k)) k), mkbuf (le_bytes 4 k))"
    using sample_object_read [OF assms(1)] by simp
  show ?thesis
    using ask_answer [OF _ sample_world3_ok(1) _ _ _ assms(6) a _ d,
        where query = "mkbuf q" and app = "sample_app algo" and k = 0 and n = 0 and fuel = 0 and sock = 5 and tss = tss]
      assms by (simp add: plain_answer_def sample_app_def fits_def)
qed

text \<open>The client between the two queries of the password check.\<close>

definition sample_tg2 :: tg where
  "sample_tg2 = tick (answered sample_world3 (after_send sample_tg) (replicate 8 1) 5)"

lemma sample_tg2_ok: "sender_ok sample_world3 sample_tg2 4" "id_at sample_env sample_tg2 0 = 4294970296"
  "tg_key sample_tg2 = tg_key sample_tg" "tg_ip sample_tg2 = tg_ip sample_tg"
proof -
  have f: "tg_msgids sample_tg2 = [5]" "tg_ticks sample_tg2 = 3" "tg_timediff sample_tg2 = 0" "tg_todrop sample_tg2 = []"
    "tg_key sample_tg2 = tg_key sample_tg" "tg_salt sample_tg2 = mkbuf (replicate 8 1)" "tg_ssid sample_tg2 = tg_ssid sample_tg"
    "tg_ip sample_tg2 = tg_ip sample_tg"
    by (simp_all add: sample_tg2_def answered_def after_send_def sent_tg_def next_seqno_def tg_add_msgid_def sample_world3_ok
        tick_def sample_tg_def)
  then show k: "tg_key sample_tg2 = tg_key sample_tg" "tg_ip sample_tg2 = tg_ip sample_tg"
    and i: "id_at sample_env sample_tg2 0 = 4294970296"
    by (simp_all add: id_at_def sample_env_def)
  have "key_ok sample_tg2" using sample_key f by (simp add: key_ok_def)
  moreover have "session_ok sample_tg2" using sample_session f by (simp add: session_ok_def fits_def)
  ultimately show "sender_ok sample_world3 sample_tg2 4"
    using i f by (simp add: sender_ok_def sample_world3_ok pending_ok_def drops_size_def)
      (simp add: sample_env_def fits_def)
qed

lemma sample_tg_ok: "sender_ok sample_world3 sample_tg 4" "id_at sample_env sample_tg 0 = 4294967296"
  using sample_id by (simp_all add: sender_ok_def sample_world3_ok) (simp add: sample_tg_def)

lemma sample_srp_size:
  assumes "length A = 256"
  shows "bsize (x_srp sample_ssl i (mkbuf A) (mkbuf (srp_M1 sample_env p g s1 s2 A' B S))) = 296"
proof -
  have "length (srp_M1 sample_env p g s1 s2 A' B S) = 32" by (simp add: srp_M1_def sample_env_def)
  with assms show ?thesis by (simp add: sample_ssl_def fits_def)
qed

theorem password_login_witness:
  "\<exists>l2. tg_auth_check_password (sample_app (Some sample_algo))
       (sample_login [[(0, 5, sample_input 4294967296 2, [1])], [(1, 5, sample_input 4294970296 3, [1])]]) ''hi'' =
       Some (Some (Other (mkbuf (le_bytes 4 (3 :: u32))) 10), write_db (sample_app (Some sample_algo))
         [Db_auth_key (tg_key sample_tg), Db_ip_address (tg_ip sample_tg)] l2)"
proof -
  let ?app = "sample_app (Some sample_algo)"
  let ?l = "sample_login [[(0, 5, sample_input 4294967296 2, [1])], [(1, 5, sample_input 4294970296 3, [1])]]"
  let ?ap = "\<lparr>ap_current_algo = Some sample_algo, ap_srp_B = mkbuf (be_pad 256 2), ap_srp_id = 9\<rparr>"
  obtain s1 where s1: "ask ?app ?l (mkbuf [5, 0, 0, 1]) = Some (Some (Other (mkbuf (le_bytes 4 (2 :: u32))) 2),
        ?l\<lparr>lg_sys := s1, lg_turns := [[(1, 5, sample_input 4294970296 3, [1])]]\<rparr>)"
      "s_tg s1 = answered sample_world3 (after_send sample_tg) (replicate 8 1) 5" "s_list s1 = []" "s_heap s1 = Map.empty" "s_next s1 = 1"
    using sample_ask [of 2 "[5, 0, 0, 1]" ?l 4294967296 "[[(1, 5, sample_input 4294970296 3, [1])]]" "Some sample_algo"] sample_tg_ok
    by (auto simp: sample_login_def)
  let ?l1 = "?l\<lparr>lg_sys := s1, lg_turns := [[(1, 5, sample_input 4294970296 3, [1])]]\<rparr>"
  have t2: "lg_tg (set_client tick ?l1) = sample_tg2" by (simp add: set_client_def set_tg_def s1(2) sample_tg2_def)
  obtain s2 where s2: "ask ?app (set_client tick ?l1) (mkbuf [6, 0, 0, 1]) = Some (Some (Other (mkbuf (le_bytes 4 (3 :: u32))) 3),
        (set_client tick ?l1)\<lparr>lg_sys := s2, lg_turns := []\<rparr>)" "s_tg s2 = answered sample_world3 (after_send sample_tg2) (replicate 8 1) 5"
    using sample_ask [of 3 "[6, 0, 0, 1]" "set_client tick ?l1" 4294970296 "[]" "Some sample_algo"] sample_tg2_ok t2 s1
    by (auto simp: set_client_def set_tg_def)
  let ?l2 = "(set_client tick ?l1)\<lparr>lg_sys := s2, lg_turns := []\<rparr>"
  have k2: "tg_key (lg_tg ?l2) = tg_key sample_tg" "tg_ip (lg_tg ?l2) = tg_ip sample_tg"
    using s2(2) sample_tg2_ok(3,4) by simp_all
  have pw: "password_answer ?app (Other (mkbuf (le_bytes 4 (2 :: u32))) 2) ?ap sample_algo"
    by (simp add: password_answer_def sample_schema_def)
  have "tg_auth_check_password ?app ?l ''hi'' = Some (Some (au_user (o_authorization (ap_schema ?app) (Other (mkbuf (le_bytes 4 (3 :: u32))) 3))),
      write_db ?app [Db_auth_key (tg_key (lg_tg ?l2)), Db_ip_address (tg_ip (lg_tg ?l2))] ?l2)"
    by (rule password_login [OF _ pw _ _ _ _ _ _ _ _ refl _ refl refl, where ?l1.0 = ?l1 and ?l2.0 = ?l2 and P = 7 and b = 2
          and H = "\<lambda>k m. replicate 64 (of_nat (length m))"])
       (use s1(1) s2(1) sample_ssl_ok sample_group in
         \<open>simp_all add: sample_schema_def sample_world3_ok salt_ok_def fits_def srp_server_B_def sample_srp_size\<close>)
  then have "tg_auth_check_password ?app ?l ''hi'' = Some (Some (Other (mkbuf (le_bytes 4 (3 :: u32))) 10),
      write_db ?app [Db_auth_key (tg_key (lg_tg ?l2)), Db_ip_address (tg_ip (lg_tg ?l2))] ?l2)"
    by (simp add: sample_schema_def del: le_bytes.simps)
  then show ?thesis unfolding k2 by blast
qed

text \<open>A client without a key whose application has no phone number to give.\<close>

definition sample_keyless :: login where
  "sample_keyless = set_client (\<lambda>tg. tg\<lparr>tg_key := mkbuf []\<rparr>) (sample_login [])"

lemma sample_keyless_connect:
  "tg_connect k (sample_app None) sample_keyless = Some (1, sample_keyless\<lparr>lg_calls :=
     [(TG_AUTH_PHONE_NUMBER_NEEDED, None, ''enter phone number (+7XXXXXXXXXX)''), (TG_AUTH_ERROR, None, ''phone number is NULL'')]\<rparr>)"
  by (simp add: tg_connect_def tg_is_authorized_def TG_CB_def sample_app_def sample_keyless_def set_client_def set_tg_def
      sample_login_def)


theorem long_phone_number_undefined_witness:
  "tg_connect 1 ((sample_app None)\<lparr>ap_phone := Some (replicate 300 (CHR ''7''))\<rparr>) sample_keyless = None"
  by (rule long_phone_number_undefined [where p = "replicate 300 (CHR ''7'')"])
    (simp_all add: sample_keyless_def set_client_def set_tg_def)

end
