(* ===== verification/Peer.thy ===== *)
theory Peer
  imports Login
begin

text \<open>
  Peers, \<^verbatim>\<open>libtg/tg/peer.c\<close>: how a user, a chat or a channel is named in a query, the search by phone
  number, and the palettes of colours.  Generated constructors and fields are
  parameters.
\<close>

section \<open>The code\<close>

datatype TG_PEER_TYPE = TG_PEER_TYPE_NULL | TG_PEER_TYPE_USER | TG_PEER_TYPE_CHANNEL | TG_PEER_TYPE_CHAT

record tg_peer_t =
  pe_type :: TG_PEER_TYPE
  pe_id :: u64
  pe_access_hash :: u64

record tg_colors =
  rgb0 :: u32
  rgb1 :: u32
  rgb2 :: u32

text \<open>A set of colours: the array may be missing, the object may be of another kind.\<close>

datatype color_set = PeerColorSet "u32 list option" | PeerColorProfileSet "u32 list option" | Other_color_set

datatype color_option = PeerColorOption u32 "color_set option" "color_set option" | Other_color_option

text \<open>
  \<open>o_resolved\<close>: the kind and number of the peer of a \<^verbatim>\<open>contacts.resolvedPeer\<close> and the access hashes of its users;
  \<open>o_colors\<close>: the entries of \<^verbatim>\<open>help.peerColors\<close> and its hash.
\<close>

record peer_schema =
  g_inputPeerChannel :: "u64 \<Rightarrow> u64 \<Rightarrow> buf"
  g_inputPeerChat :: "u64 \<Rightarrow> buf"
  g_inputPeerUser :: "u64 \<Rightarrow> u64 \<Rightarrow> buf"
  g_peerChannel :: "u64 \<Rightarrow> buf"
  g_peerChat :: "u64 \<Rightarrow> buf"
  g_peerUser :: "u64 \<Rightarrow> buf"
  g_resolvePhone :: "string \<Rightarrow> buf"
  i_resolvedPeer :: u32
  o_resolved :: "tl \<Rightarrow> (TG_PEER_TYPE \<times> u64) option \<times> u64 option list"
  g_getPeerColors :: "u32 \<Rightarrow> buf"
  g_getPeerProfileColors :: "u32 \<Rightarrow> buf"
  i_peerColors :: u32
  o_colors :: "tl \<Rightarrow> color_option option list option \<times> u32"

definition tg_inputPeer :: "peer_schema \<Rightarrow> tg_peer_t \<Rightarrow> buf" where
  "tg_inputPeer g peer =
     (case pe_type peer of
        TG_PEER_TYPE_CHANNEL \<Rightarrow> g_inputPeerChannel g (pe_id peer) (pe_access_hash peer)
      | TG_PEER_TYPE_CHAT \<Rightarrow> g_inputPeerChat g (pe_id peer)
      | TG_PEER_TYPE_USER \<Rightarrow> g_inputPeerUser g (pe_id peer) (pe_access_hash peer)
      | TG_PEER_TYPE_NULL \<Rightarrow> buf_new)"

definition tg_peer :: "peer_schema \<Rightarrow> tg_peer_t \<Rightarrow> buf" where
  "tg_peer g peer =
     (case pe_type peer of
        TG_PEER_TYPE_CHANNEL \<Rightarrow> g_peerChannel g (pe_id peer)
      | TG_PEER_TYPE_CHAT \<Rightarrow> g_peerChat g (pe_id peer)
      | TG_PEER_TYPE_USER \<Rightarrow> g_peerUser g (pe_id peer)
      | TG_PEER_TYPE_NULL \<Rightarrow> buf_new)"

definition tg_peer_by_phone :: "app \<Rightarrow> peer_schema \<Rightarrow> login \<Rightarrow> string \<Rightarrow> (tg_peer_t \<times> login) option" where
  "tg_peer_by_phone app g l phone = do {
     let peer = \<lparr>pe_type = TG_PEER_TYPE_NULL, pe_id = 0, pe_access_hash = 0\<rparr>;
     (t, l) \<leftarrow> ask app l (g_resolvePhone g phone);
     Some (case t of
        None \<Rightarrow> peer
      | Some t \<Rightarrow>
          (if tl_id t \<noteq> i_resolvedPeer g then peer
           else case o_resolved g t of
                  (None, _) \<Rightarrow> peer
                | (Some (k, i), users) \<Rightarrow>
                    (let peer = peer\<lparr>pe_type := k, pe_id := i\<rparr> in
                     case users of Some h # _ \<Rightarrow> peer\<lparr>pe_access_hash := h\<rparr> | _ \<Rightarrow> peer)), l)
   }"

text \<open>The loop over a palette; the third colour is stored where the second one was.\<close>

fun colors_loop :: "nat \<Rightarrow> u32 list \<Rightarrow> tg_colors \<Rightarrow> tg_colors" where
  "colors_loop i [] c = c"
| "colors_loop i (x # xs) c = colors_loop (Suc i) xs
     (if i = 0 then c\<lparr>rgb0 := x\<rparr> else if i = 1 then c\<lparr>rgb1 := x\<rparr> else if i = 2 then c\<lparr>rgb1 := x\<rparr> else c)"

definition tg_peer_color_set_to_colors :: "tg_colors \<Rightarrow> color_set \<Rightarrow> tg_colors" where
  "tg_peer_color_set_to_colors c s =
     (case s of
        PeerColorSet (Some xs) \<Rightarrow> colors_loop 0 xs c
      | PeerColorProfileSet (Some xs) \<Rightarrow> colors_loop 0 xs c
      | _ \<Rightarrow> c)"

definition no_colors :: tg_colors where
  "no_colors = \<lparr>rgb0 = 0, rgb1 = 0, rgb2 = 0\<rparr>"

type_synonym palette = "u32 \<times> tg_colors \<times> tg_colors"

text \<open>
  The entries in turn, with the palettes handed out so far; the callback sees them all and
  stops with a number other than zero.  \<^term>\<open>Inl\<close> is the return from the middle of the loop.
\<close>

fun palettes_loop :: "(palette list \<Rightarrow> int) option \<Rightarrow> color_option option list \<Rightarrow> palette list \<Rightarrow> (palette list + palette list) option" where
  "palettes_loop cb [] ps = Some (Inr ps)"
| "palettes_loop cb (None # os) ps = None"
| "palettes_loop cb (Some Other_color_option # os) ps = palettes_loop cb os ps"
| "palettes_loop cb (Some (PeerColorOption i light dark) # os) ps =
     (let c = (case light of None \<Rightarrow> no_colors | Some s \<Rightarrow> tg_peer_color_set_to_colors no_colors s);
          d = (case dark of None \<Rightarrow> no_colors | Some s \<Rightarrow> tg_peer_color_set_to_colors no_colors s)
      in case cb of
           None \<Rightarrow> palettes_loop cb os ps
         | Some f \<Rightarrow> (if f (ps @ [(i, c, d)]) \<noteq> 0 then Some (Inl (ps @ [(i, c, d)])) else palettes_loop cb os (ps @ [(i, c, d)])))"

text \<open>
  Both functions, which differ in the query.  At the end the object is freed, and
  then its hash is read.
\<close>

definition get_colors :: "app \<Rightarrow> peer_schema \<Rightarrow> buf \<Rightarrow> (palette list \<Rightarrow> int) option \<Rightarrow> login \<Rightarrow> (int \<times> palette list \<times> login) option" where
  "get_colors app g query cb l = do {
     (t, l) \<leftarrow> ask app l query;
     (case t of
        None \<Rightarrow> Some (0, [], l)
      | Some t \<Rightarrow>
          (if tl_id t = i_peerColors g then
             (case fst (o_colors g t) of
                None \<Rightarrow> Some (0, [], l)
              | Some os \<Rightarrow> do {
                  r \<leftarrow> palettes_loop cb os [];
                  (case r of Inl ps \<Rightarrow> Some (0, ps, l) | Inr ps \<Rightarrow> None)
                })
           else Some (0, [], l)))
   }"

definition tg_get_peer_profile_colors :: "app \<Rightarrow> peer_schema \<Rightarrow> u32 \<Rightarrow> (palette list \<Rightarrow> int) option \<Rightarrow> login \<Rightarrow> (int \<times> palette list \<times> login) option" where
  "tg_get_peer_profile_colors app g hash cb l = get_colors app g (g_getPeerProfileColors g 0) cb l"

definition tg_get_peer_colors :: "app \<Rightarrow> peer_schema \<Rightarrow> u32 \<Rightarrow> (palette list \<Rightarrow> int) option \<Rightarrow> login \<Rightarrow> (int \<times> palette list \<times> login) option" where
  "tg_get_peer_colors app g hash cb l = get_colors app g (g_getPeerColors g 0) cb l"

section \<open>Properties\<close>

text \<open>A palette of three colours loses its second one, and the field of the third is never set.\<close>

theorem third_color_misplaced:
  "tg_peer_color_set_to_colors no_colors (PeerColorSet (Some [a, b, c])) = \<lparr>rgb0 = a, rgb1 = c, rgb2 = 0\<rparr>"
  by (simp add: tg_peer_color_set_to_colors_def no_colors_def)

lemma palettes_loop_through:
  "None \<notin> set os \<Longrightarrow> (case cb of None \<Rightarrow> True | Some f \<Rightarrow> \<forall>ps. f ps = 0) \<Longrightarrow> \<exists>ps'. palettes_loop cb os ps = Some (Inr ps')"
  by (induction cb os ps rule: palettes_loop.induct) (auto simp: Let_def split: option.splits)

text \<open>
  The call can only end well when the application stops it: once all palettes have been handed
  out, the hash is read from the object that was freed in the line before.
\<close>

theorem peer_colors_read_after_free:
  assumes "ask app l (g_getPeerColors g 0) = Some (Some t, l')" and "tl_id t = i_peerColors g"
    and "fst (o_colors g t) = Some os" "None \<notin> set os" and "\<forall>ps. f ps = 0"
  shows "tg_get_peer_colors app g hash (Some f) l = None"
  using assms palettes_loop_through [of os "Some f" "[]"] by (auto simp: tg_get_peer_colors_def get_colors_def)

section \<open>Samples\<close>

text \<open>A client whose next query, of four bytes, is answered with an object of the constructor 2.\<close>

definition sample_asking :: login where
  "sample_asking = sample_login [[(0, 5, sample_input 4294967296 2, [1])]]"

lemma sample_answer:
  "length q = 4 \<Longrightarrow> \<exists>l'. ask (sample_app a) sample_asking (mkbuf q) = Some (Some (Other (mkbuf (le_bytes 4 (2 :: u32))) 2), l')"
  using sample_ask [of 2 q sample_asking 4294967296 "[]" a] sample_tg_ok by (auto simp: sample_asking_def sample_login_def)

definition sample_peer_schema :: peer_schema where
  "sample_peer_schema = \<lparr>g_inputPeerChannel = (\<lambda>i h. mkbuf (le_bytes 8 i)), g_inputPeerChat = (\<lambda>i. mkbuf (le_bytes 8 i)),
     g_inputPeerUser = (\<lambda>i h. mkbuf (le_bytes 8 i)), g_peerChannel = (\<lambda>i. mkbuf (le_bytes 8 i)), g_peerChat = (\<lambda>i. mkbuf (le_bytes 8 i)),
     g_peerUser = (\<lambda>i. mkbuf (le_bytes 8 i)), g_resolvePhone = (\<lambda>s. mkbuf (str_bytes s)), i_resolvedPeer = 2,
     o_resolved = (\<lambda>_. (Some (TG_PEER_TYPE_USER, 7), [Some 8])), g_getPeerColors = (\<lambda>h. mkbuf [7, 0, 0, 1]),
     g_getPeerProfileColors = (\<lambda>h. mkbuf [8, 0, 0, 1]), i_peerColors = 2,
     o_colors = (\<lambda>_. (Some [Some (PeerColorOption 5 (Some (PeerColorSet (Some [1, 2, 3]))) None)], 9))\<rparr>"

theorem peer_colors_read_after_free_witness: "tg_get_peer_colors (sample_app None) sample_peer_schema 0 (Some (\<lambda>_. 0)) sample_asking = None"
proof -
  obtain l' where "ask (sample_app None) sample_asking (g_getPeerColors sample_peer_schema 0) = Some (Some (Other (mkbuf (le_bytes 4 (2 :: u32))) 2), l')"
    using sample_answer [of "[7, 0, 0, 1]" None] by (auto simp: sample_peer_schema_def)
  then show ?thesis
    by (rule peer_colors_read_after_free [where os = "[Some (PeerColorOption 5 (Some (PeerColorSet (Some [1, 2, 3]))) None)]"]) (simp_all add: sample_peer_schema_def)
qed

end
