(* ===== verification/Message_Queries.thy ===== *)
theory Message_Queries
  imports Messages Peer
begin

text \<open>
  The queries of \<^verbatim>\<open>libtg/tg/messages.c\<close>.  The generated functions are parameters; \<open>send\<close> is \<^verbatim>\<open>tg_send_query\<close>,
  which returns the answer, or \<^term>\<open>None\<close> for a null pointer.  What a function executes on the database is part of its
  result.
\<close>

section \<open>The code\<close>

record msg_gen =
  g_getHistory :: "buf \<Rightarrow> int \<Rightarrow> int \<Rightarrow> int \<Rightarrow> int \<Rightarrow> int \<Rightarrow> int \<Rightarrow> u64 \<Rightarrow> buf"
  g_getMessages :: "buf list \<Rightarrow> buf"
  g_channels_getMessages :: "buf \<Rightarrow> buf list \<Rightarrow> buf"
  g_inputMessageID :: "u32 \<Rightarrow> buf"
  g_inputChannel :: "u64 \<Rightarrow> u64 \<Rightarrow> buf"
  g_sendMessage :: "buf \<Rightarrow> string \<Rightarrow> u64 \<Rightarrow> buf"
  g_setTyping :: "buf \<Rightarrow> buf \<Rightarrow> buf"
  g_typingAction :: buf
  g_cancelAction :: buf
  g_readHistory :: "buf \<Rightarrow> u32 \<Rightarrow> buf"
  g_getOutboxReadDate :: "buf \<Rightarrow> u32 \<Rightarrow> buf"
  g_deleteMessages :: "bool \<Rightarrow> u32 list \<Rightarrow> buf"

type_synonym 's sender = "buf \<Rightarrow> 's \<Rightarrow> tobj option \<times> 's"
type_synonym 's on_message = "('s \<Rightarrow> msg_struct \<Rightarrow> int \<times> 's) option"

definition history_query :: "msg_gen \<Rightarrow> peer_schema \<Rightarrow> tg_peer_t \<Rightarrow> int \<Rightarrow> int \<Rightarrow> int \<Rightarrow> int \<Rightarrow> int \<Rightarrow> int \<Rightarrow> u64 option \<Rightarrow> buf" where
  "history_query g pg peer offset_id offset_date add_offset limit max_id min_id hash =
     g_getHistory g (tg_inputPeer pg peer) offset_id offset_date add_offset limit max_id min_id (case hash of None \<Rightarrow> 0 | Some h \<Rightarrow> h)"

definition tg_messages_get_history ::
  "msg_env \<Rightarrow> msg_gen \<Rightarrow> peer_schema \<Rightarrow> 's sender \<Rightarrow> int \<Rightarrow> tg_peer_t \<Rightarrow> int \<Rightarrow> int \<Rightarrow> int \<Rightarrow> int \<Rightarrow> int \<Rightarrow> int \<Rightarrow> u64 option \<Rightarrow> 's on_message \<Rightarrow>
    's \<Rightarrow> (int \<times> sqlop list \<times> 's) option" where
  "tg_messages_get_history env g pg send tgid peer offset_id offset_date add_offset limit max_id min_id hash cb s =
     (let (r, s) = send (history_query g pg peer offset_id offset_date add_offset limit max_id min_id hash) s in parse_tl env tgid cb r s)"

text \<open>The handler of the asynchronous variant.\<close>

definition tg_messages_get_history_async_cb ::
  "msg_env \<Rightarrow> int \<Rightarrow> 's on_message \<Rightarrow> ('s \<Rightarrow> 's) option \<Rightarrow> tobj option \<Rightarrow> 's \<Rightarrow> (sqlop list \<times> 's) option" where
  "tg_messages_get_history_async_cb env tgid cb on_done r s = do {
     (_, ops, s) \<leftarrow> parse_tl env tgid cb r s;
     Some (ops, case on_done of None \<Rightarrow> s | Some f \<Rightarrow> f s)
   }"

text \<open>\<open>send_async\<close> starts a thread that sends the query and calls the handler with the answer.\<close>

definition tg_messages_get_history_async ::
  "msg_env \<Rightarrow> msg_gen \<Rightarrow> peer_schema \<Rightarrow> (buf \<Rightarrow> (tobj option \<Rightarrow> 's \<Rightarrow> (sqlop list \<times> 's) option) \<Rightarrow> 'r) \<Rightarrow> int \<Rightarrow> tg_peer_t \<Rightarrow>
    int \<Rightarrow> int \<Rightarrow> int \<Rightarrow> int \<Rightarrow> int \<Rightarrow> int \<Rightarrow> u64 option \<Rightarrow> 's on_message \<Rightarrow> ('s \<Rightarrow> 's) option \<Rightarrow> 'r" where
  "tg_messages_get_history_async env g pg send_async tgid peer offset_id offset_date add_offset limit max_id min_id hash cb on_done =
     send_async (history_query g pg peer offset_id offset_date add_offset limit max_id min_id hash)
       (tg_messages_get_history_async_cb env tgid cb on_done)"

definition tg_get_messages ::
  "msg_env \<Rightarrow> msg_gen \<Rightarrow> 's sender \<Rightarrow> int \<Rightarrow> u32 list \<Rightarrow> 's on_message \<Rightarrow> 's \<Rightarrow> (int \<times> sqlop list \<times> 's) option" where
  "tg_get_messages env g send tgid msgids cb s =
     (let (r, s) = send (g_getMessages g (map (g_inputMessageID g) msgids)) s in parse_tl env tgid cb r s)"

definition tg_get_channel_messages ::
  "msg_env \<Rightarrow> msg_gen \<Rightarrow> 's sender \<Rightarrow> int \<Rightarrow> tg_peer_t \<Rightarrow> u32 list \<Rightarrow> 's on_message \<Rightarrow> 's \<Rightarrow> (int \<times> sqlop list \<times> 's) option" where
  "tg_get_channel_messages env g send tgid channel msgids cb s =
     (let (r, s) = send (g_channels_getMessages g (g_inputChannel g (pe_id channel) (pe_access_hash channel))
        (map (g_inputMessageID g) msgids)) s in parse_tl env tgid cb r s)"

text \<open>
  \<open>random\<close> is what \<^verbatim>\<open>buf_rand(8)\<close> gives.  The answer, whatever it is, goes to \<^verbatim>\<open>tg_do_updates\<close>, here the
  second part of the result.
\<close>

definition tg_message_send :: "msg_gen \<Rightarrow> peer_schema \<Rightarrow> 's sender \<Rightarrow> u64 \<Rightarrow> tg_peer_t \<Rightarrow> string \<Rightarrow> 's \<Rightarrow> int \<times> tobj option \<times> 's" where
  "tg_message_send g pg send random peer message s =
     (let (r, s) = send (g_sendMessage g (tg_inputPeer pg peer) message random) s in
      (case r of None \<Rightarrow> (1, None, s) | Some p \<Rightarrow> (0, Some p, s)))"

definition tg_messages_set_typing :: "msg_gen \<Rightarrow> peer_schema \<Rightarrow> 's sender \<Rightarrow> tg_peer_t \<Rightarrow> bool \<Rightarrow> 's \<Rightarrow> int \<times> 's" where
  "tg_messages_set_typing g pg send peer typing s =
     (0, snd (send (g_setTyping g (tg_inputPeer pg peer) (if typing then g_typingAction g else g_cancelAction g)) s))"

text \<open>The statement that is meant to clear the counter begins with words that are not SQL.\<close>

definition tg_messages_set_read :: "msg_gen \<Rightarrow> peer_schema \<Rightarrow> 's sender \<Rightarrow> int \<Rightarrow> tg_peer_t \<Rightarrow> u32 \<Rightarrow> 's \<Rightarrow> int \<times> sqlop list \<times> 's" where
  "tg_messages_set_read g pg send tgid peer max_id s =
     (0, [Exec (str_bytes (''UPDATE TABLE dialogs SET unread_count = 0 WHERE peer_id = '' @ ld (pe_id peer) @ '' AND id = '' @ sdec tgid @ '';''))],
      snd (send (g_readHistory g (tg_inputPeer pg peer) max_id) s))"

definition tg_messages_get_read_date :: "msg_gen \<Rightarrow> peer_schema \<Rightarrow> 's sender \<Rightarrow> tg_peer_t \<Rightarrow> u32 \<Rightarrow> 's \<Rightarrow> (int \<times> 's) option" where
  "tg_messages_get_read_date g pg send peer k s =
     (let (r, s) = send (g_getOutboxReadDate g (tg_inputPeer pg peer) k) s in
      (case r of
         None \<Rightarrow> Some (- 1, s)
       | Some p \<Rightarrow>
           if o_id p = id_rpc_error_obj then do {
             b \<leftarrow> tl_bytes p ''error_message_'';
             Some (if fmt_s b = ''MESSAGE_NOT_READ_YET'' then 0 else - 1, s)
           }
           else if o_id p = id_outboxReadDate then do { d \<leftarrow> tl_u32 p ''date_''; Some (sint d, s) }
           else Some (- 1, s)))"

definition tg_messages_delete_message_ask :: "msg_gen \<Rightarrow> 's sender \<Rightarrow> u32 \<Rightarrow> 's \<Rightarrow> int \<times> 's" where
  "tg_messages_delete_message_ask g send k s =
     (let (r, s) = send (g_deleteMessages g True [k]) s in
      (case r of None \<Rightarrow> (- 1, s) | Some p \<Rightarrow> (if o_id p = id_messages_affectedMessages then 0 else - 1, s)))"

definition tg_messages_delete_message :: "msg_gen \<Rightarrow> 's sender \<Rightarrow> int \<Rightarrow> u64 \<Rightarrow> u32 \<Rightarrow> 's \<Rightarrow> int \<times> sqlop list \<times> 's" where
  "tg_messages_delete_message g send tgid peer_id k s =
     (let (r, s) = tg_messages_delete_message_ask g send k s in
      if r \<noteq> 0 then (- 1, [], s)
      else (0, [Exec (str_bytes (''DELETE from messages WHERE id = '' @ sdec tgid @ '' AND peer_id = '' @ ld peer_id @
        '' AND msg_id_ = '' @ fmt_d k @ '';''))], s))"

definition tg_messages_remove_all_from_database :: "sqlop list" where
  "tg_messages_remove_all_from_database = [Exec (str_bytes ''DELETE from messages;'')]"

end
