(* ===== verification/Dialogs.thy ===== *)
theory Dialogs
  imports Messages Tg_Core
begin

text \<open>
  \<^verbatim>\<open>libtg/tg/dialogs.c\<close>: the list of conversations.  An answer is taken apart into structs, which are stored and
  handed to the callback; \<open>tg_get_dialogs\<close> asks until it has as many as the server announced.
\<close>

section \<open>The struct\<close>

definition TG_DIALOG_ARGS :: "xrow list" where
  "TG_DIALOG_ARGS =
     [TG_STR T_str ''name'' ''TEXT'' ''name'' 0,
      TG_ARG T_bool ''pinned'' ''INT'' ''pinned'' 0,
      TG_ARG T_bool ''unread_mark'' ''INT'' ''unread_mark'' 0,
      TG_ARG T_u32 ''top_message_id'' ''INT'' ''top_message_id'' 0,
      TG_ARG T_u32 ''top_message_from_peer_type'' ''INT'' ''top_message_from_peer_type'' 0,
      TG_ARG T_u64 ''top_message_from_peer_id'' ''INT'' ''top_message_from_peer_id'' 0,
      TG_ARG T_u32 ''top_message_date'' ''INT'' ''top_message_date'' 0,
      TG_STR T_str ''top_message_text'' ''TEXT'' ''top_message_text'' 0,
      TG_ARG T_u32 ''read_inbox_max_id'' ''INT'' ''read_inbox_max_id'' 0,
      TG_ARG T_u32 ''read_outbox_max_id'' ''INT'' ''read_outbox_max_id'' 0,
      TG_ARG T_u32 ''unread_count'' ''INT'' ''unread_count'' 0,
      TG_ARG T_u32 ''unread_mentions_count'' ''INT'' ''unread_mentions_count'' 0,
      TG_ARG T_u32 ''unread_reactions_count'' ''INT'' ''unread_reactions_count'' 0,
      TG_ARG T_u32 ''folder_id'' ''INT'' ''folder_id'' 0,
      TG_ARG T_bool ''silent'' ''INT'' ''silent'' 0,
      TG_ARG T_u32 ''mute_until'' ''INT'' ''mute_until'' 0,
      TG_ARG T_u32 ''peer_type'' ''INT'' ''peer_type'' 0,
      TG_ARG T_u64 ''peer_id'' ''INT'' ''peer_id'' 0,
      TG_ARG T_u64 ''photo_id'' ''INT'' ''photo_id'' 0,
      TG_STR T_str ''thumb'' ''TEXT'' ''thumb'' 0,
      TG_ARG T_u64 ''access_hash'' ''INT'' ''access_hash'' 0,
      TG_ARG T_bool ''broadcast'' ''INT'' ''broadcat'' 0]"

definition id_dialog :: u32 where "id_dialog = 0xd58a08c6"
definition id_dialogFolder :: u32 where "id_dialogFolder = 0x71bd134c"
definition id_messages_dialogs :: u32 where "id_messages_dialogs = 0x15ba6c40"
definition id_messages_dialogsSlice :: u32 where "id_messages_dialogsSlice = 0x71e094f3"
definition id_messages_dialogsNotModified :: u32 where "id_messages_dialogsNotModified = 0xf0e3e596"

section \<open>One dialog\<close>

text \<open>A switch of the settings is an object, so that its pointer is there for both of its values.\<close>

definition put_notify :: "tobj \<Rightarrow> cstruct \<Rightarrow> cstruct option" where
  "put_notify pns st = do {
     silent \<leftarrow> tl_pointer pns ''silent_'';
     put_num pns ''mute_until_'' T_u32 ''mute_until'' (st(''silent'' := N (of_bool (silent \<noteq> None))))
   }"

text \<open>The members of the dialog, or of the folder that stands for one.\<close>

definition dialog_members :: "tobj \<Rightarrow> (cstruct \<times> tobj option) option" where
  "dialog_members o' = do {
     peer \<leftarrow> tl_pointer o' ''peer_'';
     (st, pns) \<leftarrow>
       (if o_id o' = id_dialogFolder then do {
          folder \<leftarrow> tl_pointer o' ''folder_'';
          f \<leftarrow> folder;
          st \<leftarrow> put_nums o' [(''top_message_'', T_u32, ''top_message_id''), (''pinned_'', T_bool, ''pinned''),
            (''unread_unmuted_messages_count_'', T_u32, ''unread_count'')] (zeroed TG_DIALOG_ARGS);
          st \<leftarrow> put_num f ''id_'' T_u32 ''folder_id'' st;
          Some (st, None)
        }
        else do {
          st \<leftarrow> put_nums o' [(''top_message_'', T_u32, ''top_message_id''), (''pinned_'', T_bool, ''pinned''),
            (''unread_mark_'', T_bool, ''unread_mark''), (''read_inbox_max_id_'', T_u32, ''read_inbox_max_id''),
            (''read_outbox_max_id_'', T_u32, ''read_outbox_max_id''), (''unread_count_'', T_u32, ''unread_count''),
            (''unread_mentions_count_'', T_u32, ''unread_mentions_count''),
            (''unread_reactions_count_'', T_u32, ''unread_reactions_count''), (''folder_id_'', T_u32, ''folder_id'')] (zeroed TG_DIALOG_ARGS);
          pns \<leftarrow> tl_pointer o' ''notify_settings_'';
          Some (st, pns)
        });
     st \<leftarrow> (case peer of None \<Rightarrow> Some st | Some p \<Rightarrow> do { n \<leftarrow> peer_number p; Some (st(''peer_id'' := N n)) });
     st \<leftarrow> (case pns of None \<Rightarrow> Some st | Some p \<Rightarrow> put_notify p st);
     Some (st, peer)
   }"

definition put_dialog_photo :: "tobj \<Rightarrow> cstruct \<Rightarrow> cstruct option" where
  "put_dialog_photo photo st = do {
     st \<leftarrow> put_num photo ''photo_id_'' T_u64 ''photo_id'' st;
     put_thumb photo ''thumb'' st
   }"

text \<open>Whoever has the number of the peer gives the dialog its name; the kind of the peer is not compared.\<close>

definition match_user :: "tobj \<Rightarrow> cstruct \<Rightarrow> cstruct option" where
  "match_user u st = do {
     k \<leftarrow> tl_u64 u ''id_'';
     if num_val (st ''peer_id'') \<noteq> k then Some st
     else do {
       st \<leftarrow> put_num u ''access_hash_'' T_u64 ''access_hash'' st;
       let st = st(''peer_type'' := N (ucast id_peerUser));
       b \<leftarrow> tl_bytes u ''username_'';
       st \<leftarrow> (if bsize b \<noteq> 0 then put_text u ''username_'' ''name'' st else put_text u ''first_name_'' ''name'' st);
       when_obj u ''photo_'' id_userProfilePhoto put_dialog_photo st
     }
   }"

fun match_users :: "tobj option list \<Rightarrow> cstruct \<Rightarrow> cstruct option" where
  "match_users [] st = Some st"
| "match_users (None # us) st = match_users us st"
| "match_users (Some u # us) st =
     (if o_id u = id_user then do { st \<leftarrow> match_user u st; match_users us st } else match_users us st)"

definition match_channel :: "tobj \<Rightarrow> cstruct \<Rightarrow> cstruct option" where
  "match_channel c st = do {
     k \<leftarrow> tl_u64 c ''id_'';
     if num_val (st ''peer_id'') \<noteq> k then Some st
     else do {
       st \<leftarrow> put_num c ''access_hash_'' T_u64 ''access_hash'' st;
       let st = st(''peer_type'' := N (ucast id_peerChannel));
       st \<leftarrow> put_text c ''title_'' ''name'' st;
       st \<leftarrow> put_num c ''broadcast_'' T_bool ''broadcast'' st;
       when_obj c ''photo_'' id_chatPhoto put_dialog_photo st
     }
   }"

definition match_chat :: "tobj \<Rightarrow> cstruct \<Rightarrow> cstruct option" where
  "match_chat c st = do {
     k \<leftarrow> tl_u64 c ''id_'';
     if num_val (st ''peer_id'') \<noteq> k then Some st
     else do {
       st \<leftarrow> put_text c ''title_'' ''name'' (st(''peer_type'' := N (ucast id_peerChat)));
       when_obj c ''photo_'' id_chatPhoto put_dialog_photo st
     }
   }"

fun match_chats :: "tobj option list \<Rightarrow> cstruct \<Rightarrow> cstruct option" where
  "match_chats [] st = Some st"
| "match_chats (None # cs) st = match_chats cs st"
| "match_chats (Some c # cs) st =
     (if o_id c = id_channel then do { st \<leftarrow> match_channel c st; match_chats cs st }
      else if o_id c = id_chat then do { st \<leftarrow> match_chat c st; match_chats cs st }
      else match_chats cs st)"

section \<open>Its last message\<close>

definition put_top_text :: "tobj \<Rightarrow> cstruct \<Rightarrow> cstruct \<Rightarrow> cstruct option" where
  "put_top_text m tgm st = do {
     let put = (\<lambda>t. Some (st(''top_message_text'' := S (Some (str_bytes t)))));
     let media = num_val (tgm ''media_type'');
     b \<leftarrow> tl_bytes m ''message_'';
     if bsize b \<noteq> 0 then put_text m ''message_'' ''top_message_text'' st
     else if num_val (tgm ''doc_isVideo'') \<noteq> 0 then put ''*video*''
     else if num_val (tgm ''doc_isRound'') \<noteq> 0 then put ''*round*''
     else if num_val (tgm ''doc_isVoice'') \<noteq> 0 then put ''*voice message*''
     else if str_of (tgm ''doc_title'') \<noteq> None then Some (st(''top_message_text'' := S (str_of (tgm ''doc_title''))))
     else if num_val (tgm ''doc_id'') \<noteq> 0 then put ''*document*''
     else if media = ucast id_messageMediaDocument then put ''*document*''
     else if media = ucast id_messageMediaContact then put ''*contact*''
     else if media = ucast id_messageMediaPhoto then put ''*photo*''
     else if media = ucast id_messageMediaGeo then put ''*geopoint*''
     else Some st
   }"

definition put_from :: "tobj \<Rightarrow> cstruct \<Rightarrow> cstruct option" where
  "put_from m st = do {
     from \<leftarrow> tl_pointer m ''from_id_'';
     case from of
       None \<Rightarrow> Some st
     | Some p \<Rightarrow>
         if o_id p \<in> {id_peerUser, id_peerChannel, id_peerChat} then do {
           n \<leftarrow> peer_number p;
           Some (st(''top_message_from_peer_type'' := N (ucast (o_id p)), ''top_message_from_peer_id'' := N n))
         }
         else Some (st(''top_message_from_peer_type'' := N 0))
   }"

text \<open>Every message with the number of the last one is taken, and stored.\<close>

fun match_messages :: "msg_env \<Rightarrow> int \<Rightarrow> tobj option list \<Rightarrow> cstruct \<Rightarrow> (cstruct \<times> sqlop list) option" where
  "match_messages env tgid [] st = Some (st, [])"
| "match_messages env tgid (None # ms) st = match_messages env tgid ms st"
| "match_messages env tgid (Some m # ms) st =
     (if o_id m \<noteq> id_message then match_messages env tgid ms st
      else do {
        k \<leftarrow> tl_u32 m ''id_'';
        if ucast k \<noteq> num_val (st ''top_message_id'') then match_messages env tgid ms st
        else do {
          tgm \<leftarrow> tg_message_from_tl env m;
          st \<leftarrow> put_num m ''date_'' T_u32 ''top_message_date'' st;
          st \<leftarrow> put_top_text m (mg_st tgm) st;
          st \<leftarrow> put_from m st;
          (st, ops) \<leftarrow> match_messages env tgid ms st;
          Some (st, tg_message_to_database tgid tgm @ ops)
        }
      })"

section \<open>The database\<close>

definition tg_dialogs_create_table :: "string list" where
  "tg_dialogs_create_table =
     ''CREATE TABLE IF NOT EXISTS dialogs (id INT, peer_id INT UNIQUE);'' #
     map (\<lambda>r. ''ALTER TABLE '' @ quote @ ''dialogs'' @ quote @ '' ADD COLUMN '' @ quote @ x_col r @ quote @ '' '' @ x_sql r @ '';'' @ nl) TG_DIALOG_ARGS"

definition tg_dialog_to_database :: "int \<Rightarrow> cstruct \<Rightarrow> sqlop list option" where
  "tg_dialog_to_database tgid d = do {
     t \<leftarrow> sql_text (save_pieces ''dialogs'' ''peer_id'' False False TG_DIALOG_ARGS tgid (num_val (d ''peer_id'')) d);
     Some [Exec t]
   }"

text \<open>A text column is copied whatever it holds: a missing one becomes an empty string.\<close>

fun read_dialog :: "xrow list \<Rightarrow> sqlval list \<Rightarrow> cstruct \<Rightarrow> cstruct option" where
  "read_dialog [] vs st = Some st"
| "read_dialog (r # rows) [] st = None"
| "read_dialog (r # rows) (v # vs) st =
     (if is_text r then read_dialog rows vs (st(x_field r := S (Some (takeWhile (\<lambda>c. c \<noteq> 0) (column_text v)))))
      else do {
        n \<leftarrow> column_int64 v;
        read_dialog rows vs (st(x_field r := N (narrow (x_type r) n)))
      })"

definition select_dialogs :: "int \<Rightarrow> byte list option" where
  "select_dialogs tgid = sql_text (select_pieces ''dialogs'' TG_DIALOG_ARGS (sdec tgid @ '' ORDER BY '' @ quote @ ''top_message_date'' @ quote @ '' DESC;''))"

fun read_dialogs :: "('s \<Rightarrow> cstruct \<Rightarrow> int \<times> 's) option \<Rightarrow> sqlval list list \<Rightarrow> 's \<Rightarrow> 's option" where
  "read_dialogs cb [] s = Some s"
| "read_dialogs cb (v # vs) s = do {
     d \<leftarrow> read_dialog TG_DIALOG_ARGS v (zeroed TG_DIALOG_ARGS);
     let (stop, s) = (case cb of None \<Rightarrow> (0, s) | Some f \<Rightarrow> f s d);
     if stop \<noteq> 0 then Some s else read_dialogs cb vs s
   }"

definition tg_get_dialogs_from_database ::
  "(byte list \<Rightarrow> sqlval list list) \<Rightarrow> int \<Rightarrow> ('s \<Rightarrow> cstruct \<Rightarrow> int \<times> 's) option \<Rightarrow> 's \<Rightarrow> 's option" where
  "tg_get_dialogs_from_database query tgid cb s = do { sql \<leftarrow> select_dialogs tgid; read_dialogs cb (query sql) s }"

text \<open>The text of the message stands without quotes in a statement that is not SQL.\<close>

definition tg_dialog_set_top_message :: "int \<Rightarrow> u64 \<Rightarrow> u32 \<Rightarrow> byte list \<Rightarrow> sqlop list option" where
  "tg_dialog_set_top_message tgid peer_id k msg = do {
     t \<leftarrow> sql_text [Fmt (''UPDATE TABLE '' @ quote @ ''dialogs'' @ quote @ '' SET top_message_id = '' @ fmt_d k @ '', '' @
       quote @ ''top_message_text'' @ quote @ '' = ''), Raw msg,
       Fmt (''WHERE '' @ quote @ ''peer_id'' @ quote @ '' = '' @ ld peer_id @ '' AND id = '' @ sdec tgid @ '';'')];
     Some [Exec t]
   }"

definition tg_dialogs_remove_all_from_database :: "sqlop list" where
  "tg_dialogs_remove_all_from_database = [Exec (str_bytes (''DELETE from '' @ quote @ ''dialogs'' @ quote @ '';''))]"

section \<open>An answer\<close>

record dialogs_t =
  gd_count :: int
  gd_total :: int
  gd_hash :: "u64 option"
  gd_stop :: bool

text \<open>One element of the list: nothing when it is passed over.  \<open>logs\<close>: a log handler is set, so the text about a missing peer is formatted.\<close>

definition dialog_of ::
  "msg_env \<Rightarrow> bool \<Rightarrow> int \<Rightarrow> tobj option list \<Rightarrow> tobj option list \<Rightarrow> tobj option list \<Rightarrow> tobj \<Rightarrow> (cstruct \<times> sqlop list) option option" where
  "dialog_of env logs tgid users chats ms o' =
     (if o_id o' \<noteq> id_dialogFolder \<and> o_id o' \<noteq> id_dialog then Some None
      else do {
        (st, peer) \<leftarrow> dialog_members o';
        st \<leftarrow> match_users users st;
        st \<leftarrow> match_chats chats st;
        if num_val (st ''peer_type'') = 0 then (if logs \<and> peer = None then None else Some None)
        else do {
          (st, ops) \<leftarrow> match_messages env tgid ms st;
          ops' \<leftarrow> tg_dialog_to_database tgid st;
          Some (Some (st, ops @ ops'))
        }
      })"

text \<open>The result is the number of dialogs, or -1 when the callback stopped the loop.\<close>

fun dialogs_loop ::
  "(tobj \<Rightarrow> (cstruct \<times> sqlop list) option option) \<Rightarrow> ('s \<Rightarrow> cstruct \<Rightarrow> int \<times> 's) option \<Rightarrow> tobj option list \<Rightarrow> int \<Rightarrow> u64 option \<Rightarrow> 's \<Rightarrow>
    (int \<times> u64 option \<times> sqlop list \<times> 's) option" where
  "dialogs_loop dlg cb [] n hash s = Some (n, hash, [], s)"
| "dialogs_loop dlg cb (None # ds) n hash s = dialogs_loop dlg cb ds n hash s"
| "dialogs_loop dlg cb (Some o' # ds) n hash s = do {
     d \<leftarrow> dlg o';
     case d of
       None \<Rightarrow> dialogs_loop dlg cb ds n hash s
     | Some (st, ops) \<Rightarrow>
         (let hash = update_hash hash (ucast (num_val (st ''top_message_id'')));
              (stop, s) = (case cb of None \<Rightarrow> (0, s) | Some f \<Rightarrow> f s st) in
          if stop \<noteq> 0 then Some (- 1, hash, ops, s)
          else do {
            (n, hash, ops', s) \<leftarrow> dialogs_loop dlg cb ds (n + 1) hash s;
            Some (n, hash, ops @ ops', s)
          })
   }"

definition tg_dialogs_from_tl ::
  "msg_env \<Rightarrow> bool \<Rightarrow> int \<Rightarrow> ('s \<Rightarrow> cstruct \<Rightarrow> int \<times> 's) option \<Rightarrow> tobj \<Rightarrow> dialogs_t \<Rightarrow> 's \<Rightarrow> (int \<times> dialogs_t \<times> sqlop list \<times> 's) option" where
  "tg_dialogs_from_tl env logs tgid cb p t s =
     (if o_id p = id_messages_dialogsSlice \<or> o_id p = id_messages_dialogs then do {
        t \<leftarrow> (if o_id p = id_messages_dialogsSlice then do { c \<leftarrow> tl_u32 p ''count_''; Some (t\<lparr>gd_total := sint c\<rparr>) } else Some t);
        ds \<leftarrow> tl_array p ''dialogs_'';
        users \<leftarrow> tl_array p ''users_'';
        chats \<leftarrow> tl_array p ''chats_'';
        ms \<leftarrow> tl_array p ''messages_'';
        len \<leftarrow> (case tl_member p ''dialogs_'' of Some (F_arr k xs) \<Rightarrow> Some (sint k) | _ \<Rightarrow> None);
        let t = t\<lparr>gd_count := gd_count t + len\<rparr>;
        (n, hash, ops, s) \<leftarrow> dialogs_loop (dialog_of env logs tgid users chats ms) cb ds 0 (gd_hash t) s;
        Some (n, t\<lparr>gd_hash := hash\<rparr>, ops, s)
      }
      else Some (0, t, [], s))"

section \<open>Asking\<close>

text \<open>
  \<open>g_getDialogs folder date offset_id peer limit hash\<close> is the generated function, \<open>self\<close> the input peer; \<open>ask\<close>
  sends a query through the queue and waits for its thread: \<^term>\<open>None\<close> when the thread ends without an answer.
\<close>

record dialogs_env =
  g_getDialogs :: "u32 option \<Rightarrow> u32 \<Rightarrow> u32 \<Rightarrow> buf \<Rightarrow> int \<Rightarrow> u64 \<Rightarrow> buf"
  g_self :: buf

definition dialogs_query :: "dialogs_env \<Rightarrow> u32 option \<Rightarrow> u32 \<Rightarrow> int \<Rightarrow> u64 option \<Rightarrow> buf" where
  "dialogs_query g folder_id offset_date limit hash =
     g_getDialogs g folder_id offset_date (- 1) (g_self g) (if limit > 0 then limit else 20) (case hash of None \<Rightarrow> 0 | Some h \<Rightarrow> h)"

text \<open>The handler of an answer; the pause after a flood wait is left out.\<close>

definition tg_get_dialogs_callback ::
  "msg_env \<Rightarrow> bool \<Rightarrow> int \<Rightarrow> ('s \<Rightarrow> cstruct \<Rightarrow> int \<times> 's) option \<Rightarrow> tobj option \<Rightarrow> dialogs_t \<Rightarrow> 's \<Rightarrow> (dialogs_t \<times> sqlop list \<times> 's) option" where
  "tg_get_dialogs_callback env logs tgid cb r t s =
     (case r of
        None \<Rightarrow> Some (t, [], s)
      | Some p \<Rightarrow> do {
          (n, t, ops, s) \<leftarrow> tg_dialogs_from_tl env logs tgid cb p t s;
          Some (if n < 0 then t\<lparr>gd_stop := True\<rparr> else t, ops, s)
        })"

text \<open>
  The loop, with fuel for its rounds.  The result says whether it has ended, and lists the queries that were sent.
\<close>

fun get_dialogs_loop ::
  "nat \<Rightarrow> msg_env \<Rightarrow> dialogs_env \<Rightarrow> bool \<Rightarrow> int \<Rightarrow> (buf \<Rightarrow> 's \<Rightarrow> tobj option \<times> 's) \<Rightarrow> ('s \<Rightarrow> cstruct \<Rightarrow> int \<times> 's) option \<Rightarrow>
    u32 option \<Rightarrow> u32 \<Rightarrow> int \<Rightarrow> dialogs_t \<Rightarrow> 's \<Rightarrow> (bool \<times> dialogs_t \<times> buf list \<times> sqlop list \<times> 's) option" where
  "get_dialogs_loop 0 env g logs tgid ask cb folder_id offset_date limit t s = Some (False, t, [], [], s)"
| "get_dialogs_loop (Suc n) env g logs tgid ask cb folder_id offset_date limit t s =
     (if \<not> gd_count t < gd_total t then Some (True, t, [], [], s)
      else do {
        let qy = dialogs_query g folder_id offset_date limit (gd_hash t);
        let (r, s) = ask qy s;
        (t, ops, s) \<leftarrow> tg_get_dialogs_callback env logs tgid cb r t s;
        if limit > 0 \<or> gd_stop t then Some (True, t, [qy], ops, s)
        else do {
          (e, t, qs, ops', s) \<leftarrow> get_dialogs_loop n env g logs tgid ask cb folder_id offset_date limit t s;
          Some (e, t, qy # qs, ops @ ops', s)
        }
      })"

definition tg_get_dialogs ::
  "nat \<Rightarrow> msg_env \<Rightarrow> dialogs_env \<Rightarrow> bool \<Rightarrow> int \<Rightarrow> (buf \<Rightarrow> 's \<Rightarrow> tobj option \<times> 's) \<Rightarrow> ('s \<Rightarrow> cstruct \<Rightarrow> int \<times> 's) option \<Rightarrow>
    u32 option \<Rightarrow> u32 \<Rightarrow> int \<Rightarrow> u64 option \<Rightarrow> 's \<Rightarrow> (bool \<times> dialogs_t \<times> buf list \<times> sqlop list \<times> 's) option" where
  "tg_get_dialogs n env g logs tgid ask cb folder_id offset_date limit hash s =
     get_dialogs_loop n env g logs tgid ask cb folder_id offset_date limit
       \<lparr>gd_count = 0, gd_total = 1, gd_hash = hash, gd_stop = False\<rparr> s"

end
