(* ===== verification/Tl_Local.thy ===== *)
theory Tl_Local
  imports Tl_Roundtrip
begin

text \<open>
  What a generated reader returns does not depend on the memory behind the bytes it reads: a buffer whose block
  goes on for longer gives the same object.  An object can therefore be read again from a copy of its bytes.
\<close>

section \<open>Longer blocks\<close>

definition extends :: "buf \<Rightarrow> buf \<Rightarrow> bool" where
  "extends b' b \<longleftrightarrow> bsize b' = bsize b \<and> (\<exists>zs. rest b' = rest b @ zs)"

definition local_reader :: "(buf \<Rightarrow> ('a \<times> buf) option) \<Rightarrow> bool" where
  "local_reader f \<longleftrightarrow> (\<forall>b b' x r. extends b' b \<and> f b = Some (x, r) \<longrightarrow> (\<exists>r'. f b' = Some (x, r') \<and> extends r' r))"

definition local_value :: "(buf \<Rightarrow> 'a option) \<Rightarrow> bool" where
  "local_value f \<longleftrightarrow> (\<forall>b b' x. extends b' b \<and> f b = Some x \<longrightarrow> f b' = Some x)"

named_theorems local_intros

lemma local_readerI:
  "(\<And>b b' x r. extends b' b \<Longrightarrow> f b = Some (x, r) \<Longrightarrow> \<exists>r'. f b' = Some (x, r') \<and> extends r' r) \<Longrightarrow> local_reader f"
  unfolding local_reader_def by blast

lemma local_readerD: "local_reader f \<Longrightarrow> extends b' b \<Longrightarrow> f b = Some (x, r) \<Longrightarrow> \<exists>r'. f b' = Some (x, r') \<and> extends r' r"
  unfolding local_reader_def by blast

lemma local_valueD: "local_value f \<Longrightarrow> extends b' b \<Longrightarrow> f b = Some x \<Longrightarrow> f b' = Some x"
  unfolding local_value_def by blast

lemma extends_advance: "extends b' b \<Longrightarrow> extends (advance b' n) (advance b n)"
proof -
  assume "extends b' b"
  then obtain zs where "rest b' = rest b @ zs" "bsize b' = bsize b" by (auto simp: extends_def)
  then have "rest (advance b' n) = rest (advance b n) @ drop (unat n - length (rest b)) zs" "bsize (advance b' n) = bsize (advance b n)"
    by (simp_all only: rest_advance drop_append) (simp add: advance_def)
  then show ?thesis by (auto simp: extends_def)
qed

lemma local_return [local_intros]: "local_reader (\<lambda>b. Some (x, b))"
  by (simp add: local_reader_def)

lemma local_return_advance [local_intros]: "local_reader (\<lambda>b. Some (x, advance b n))"
  using extends_advance by (auto simp: local_reader_def)

lemma local_bind [local_intros]:
  assumes "local_reader f" and "\<And>x. local_reader (g x)"
  shows "local_reader (\<lambda>b. f b \<bind> (\<lambda>(x, b). g x b))"
proof (rule local_readerI)
  fix b b' y r assume e: "extends b' b" and *: "f b \<bind> (\<lambda>(x, b). g x b) = Some (y, r)"
  then obtain x b1 where 1: "f b = Some (x, b1)" "g x b1 = Some (y, r)" by (auto split: bind_splits)
  obtain b1' where 2: "f b' = Some (x, b1')" "extends b1' b1" using local_readerD [OF assms(1) e 1(1)] by blast
  with local_readerD [OF assms(2) 2(2) 1(2)] show "\<exists>r'. f b' \<bind> (\<lambda>(x, b). g x b) = Some (y, r') \<and> extends r' r" by simp
qed

lemma local_look [local_intros]:
  assumes "local_value f" and "\<And>x. local_reader (g x)"
  shows "local_reader (\<lambda>b. f b \<bind> (\<lambda>x. g x b))"
proof (rule local_readerI)
  fix b b' y r assume e: "extends b' b" and *: "f b \<bind> (\<lambda>x. g x b) = Some (y, r)"
  then obtain x where 1: "f b = Some x" "g x b = Some (y, r)" by (auto split: bind_splits)
  with local_readerD [OF assms(2) e 1(2)] local_valueD [OF assms(1) e 1(1)]
  show "\<exists>r'. f b' \<bind> (\<lambda>x. g x b') = Some (y, r') \<and> extends r' r" by simp
qed

lemma local_const_bind [local_intros]:
  assumes "\<And>x. local_reader (g x)"
  shows "local_reader (\<lambda>b. c \<bind> (\<lambda>x. g x b))"
  using assms by (cases c) (simp_all add: local_reader_def)

lemma local_if [local_intros]: "local_reader f \<Longrightarrow> local_reader g \<Longrightarrow> local_reader (\<lambda>b. if c then f b else g b)"
  by (cases c) simp_all

section \<open>Primitives\<close>

lemma copy_loop_longer:
  assumes "copy_loop n d di s si = Some d'" and "drop si' s' = drop si s @ zs"
  shows "copy_loop n d di s' si' = Some d'"
proof (cases "n = 0 \<or> (di + n \<le> length d \<and> si + n \<le> length s)")
  case True
  have "n = 0 \<or> (di + n \<le> length d \<and> si' + n \<le> length s')"
  proof (cases "n = 0")
    case False
    with True have "n \<le> length (drop si s)" by auto
    then have "n \<le> length (drop si' s')" using assms(2) by simp
    with True False show ?thesis by auto
  qed simp
  moreover have "take n (drop si' s') = take n (drop si s)" using True assms(2) by auto
  ultimately show ?thesis using assms(1) copy_loop_eq [OF True] by (simp add: copy_loop_eq)
next
  case False
  then show ?thesis using assms(1) copy_loop_None [of n di d si s] by simp
qed

lemma buf_add_longer:
  assumes "buf_add m p n = Some c" and "drop p' m' = drop p m @ zs"
  shows "buf_add m' p' n = Some c"
  using assms copy_loop_longer [OF _ assms(2)] by (auto simp: buf_add_def Let_def split: bind_splits)

lemma extends_drop:
  assumes "extends b' b"
  shows "\<exists>zs. drop (bdata b' + k) (bblk b') = drop (bdata b + k) (bblk b) @ zs"
proof -
  obtain zs where "rest b' = rest b @ zs" using assms by (auto simp: extends_def)
  then have "drop k (rest b') = drop k (rest b) @ drop (k - length (rest b)) zs" by simp
  then show ?thesis by (auto simp: rest_def add.commute)
qed

lemma local_add [local_intros]: "local_value (\<lambda>b. buf_add (bblk b) (bdata b + k) n)"
  unfolding local_value_def using extends_drop buf_add_longer by blast

lemma local_add0 [local_intros]: "local_value (\<lambda>b. buf_add (bblk b) (bdata b) n)"
  using local_add [of 0] by simp

lemma local_copy [local_intros]: "local_value buf_add_buf"
  unfolding local_value_def buf_add_buf_def
proof (intro allI impI, elim conjE)
  fix b b' x assume "extends b' b" "buf_add (bblk b) (bdata b) (bsize b) = Some x"
  then show "buf_add (bblk b') (bdata b') (bsize b') = Some x"
    using local_valueD [OF local_add0] by (simp add: extends_def)
qed

lemma mem_read_longer:
  assumes "extends b' b" and "mem_read (bblk b) (bdata b) n = Some xs" and "0 < n"
  shows "mem_read (bblk b') (bdata b') n = Some xs"
proof -
  obtain zs where z: "drop (bdata b') (bblk b') = drop (bdata b) (bblk b) @ zs" using extends_drop [OF assms(1), of 0] by auto
  have x: "xs = take n (drop (bdata b) (bblk b))" "n \<le> length (drop (bdata b) (bblk b))"
    using assms(2) by (auto simp: mem_read_def split: if_splits)
  then have "n \<le> length (drop (bdata b') (bblk b'))" by (simp only: z length_append)
  with assms(3) have "bdata b' + n \<le> length (bblk b')" by simp
  with x show ?thesis by (simp add: mem_read_def z)
qed

lemma local_load [local_intros]:
  "local_value (\<lambda>b. load32 (bblk b) (bdata b))" "local_value (\<lambda>b. load64 (bblk b) (bdata b))"
  using mem_read_longer by (auto simp: local_value_def load32_def load64_def)

lemma local_ints [local_intros]:
  "local_reader deserialize_ui32" "local_reader deserialize_ui64" "local_reader deserialize_double"
  unfolding deserialize_ui32_def [abs_def] deserialize_ui64_def [abs_def] deserialize_double_def [abs_def]
    buf_get_ui32_def buf_get_ui64_def buf_get_double_def
  by (intro local_intros)+

lemma local_buf [local_intros]: "local_reader (\<lambda>b. deserialize_buf b n)"
  unfolding deserialize_buf_def by (intro local_intros)

lemma local_bytes [local_intros]: "local_reader deserialize_bytes"
proof (rule local_readerI)
  fix b b' s r assume e: "extends b' b" and d: "deserialize_bytes b = Some (s, r)"
  note l = local_valueD [OF local_add0 e] local_valueD [OF local_add e] local_valueD [OF local_add0 extends_advance [OF e]]
  obtain byte where 1: "buf_add (bblk b) (bdata b) 4 = Some byte"
    using d by (cases "buf_add (bblk b) (bdata b) 4") (simp_all add: deserialize_bytes_def)
  show "\<exists>r'. deserialize_bytes b' = Some (s, r') \<and> extends r' r"
  proof (cases "bblk byte ! bdata byte \<le> 253")
    case True
    let ?n = "ucast (bblk byte ! bdata byte) :: u32"
    obtain c where 2: "buf_add (bblk (advance b 1)) (bdata (advance b 1)) ?n = Some c"
      using d True 1 by (cases "buf_add (bblk (advance b 1)) (bdata (advance b 1)) ?n") (simp_all add: deserialize_bytes_def)
    from d e show ?thesis
      by (auto simp: deserialize_bytes_def 1 l(1) [OF 1] True 2 l(3) [OF 2] Let_def intro!: extends_advance split: if_splits)
  next
    case False
    obtain s2 where 2: "buf_add (bblk b) (bdata b) 1 = Some s2"
      using d False 1 by (cases "buf_add (bblk b) (bdata b) 1") (simp_all add: deserialize_bytes_def)
    obtain u where 3: "buf_cmp (mkbuf [0xfe]) s2 = Some u"
      using d False 1 2 by (cases "buf_cmp (mkbuf [0xfe]) s2") (simp_all add: deserialize_bytes_def)
    obtain m where 4: "buf_add (bblk b) (bdata b + 1) 3 = Some m"
      using d False 1 2 3 by (cases "buf_add (bblk b) (bdata b + 1) 3") (simp_all add: deserialize_bytes_def)
    obtain n where 5: "buf_get_ui32 (m\<lparr>bsize := 4\<rparr>) = Some n"
      using d False 1 2 3 4 by (cases "buf_get_ui32 (m\<lparr>bsize := 4\<rparr>)") (simp_all add: deserialize_bytes_def)
    obtain c where 6: "buf_add (bblk (advance b 4)) (bdata (advance b 4)) n = Some c"
      using d False 1 2 3 4 5 by (cases "buf_add (bblk (advance b 4)) (bdata (advance b 4)) n") (simp_all add: deserialize_bytes_def)
    from d e show ?thesis
      by (auto simp: deserialize_bytes_def 1 l(1) [OF 1] False 2 l(1) [OF 2] 3 4 [simplified] l(2) [OF 4, simplified] 5 6 l(3) [OF 6] Let_def
        intro!: extends_advance split: if_splits)
  qed
qed

section \<open>Readers\<close>

lemma local_message [local_intros]: "local_reader (deserialize_mtp_message cm)"
  unfolding deserialize_mtp_message_def [abs_def] by (intro local_intros)

lemma local_elem: "local_reader D \<Longrightarrow> local_reader (read_elem D e)"
  by (cases e; simp only: read_elem.simps [abs_def]; (rule local_intros | assumption)+)

lemma local_elems: "local_reader D \<Longrightarrow> local_reader (read_elems D e n)"
proof (induction n)
  case 0
  show ?case by (simp only: read_elems.simps [abs_def]) (rule local_intros)
next
  case (Suc n)
  from local_elem [OF Suc.prems] Suc.IH [OF Suc.prems] show ?case
    by (simp only: read_elems.simps [abs_def]) (rule local_bind | assumption | rule local_return)+
qed

lemma local_tag:
  assumes "local_reader f" and e: "extends b' b" and "f b \<bind> (\<lambda>(v, b). Some (False, g v, b)) = Some (ret, v, r)"
  shows "\<exists>r'. f b' \<bind> (\<lambda>(v, b). Some (False, g v, b)) = Some (ret, v, r') \<and> extends r' r"
proof -
  obtain x where x: "f b = Some (x, r)" "ret = False" "v = g x" using assms(3) by (auto split: bind_splits)
  with local_readerD [OF assms(1) e x(1)] show ?thesis by auto
qed

lemma local_act:
  assumes D: "local_reader D" and e: "extends b' b" and r: "read_act D a b = Some (ret, v, r)"
  shows "\<exists>r'. read_act D a b' = Some (ret, v, r') \<and> extends r' r"
proof (cases a)
  case (Rd_vector el)
  obtain n b1 where 1: "deserialize_ui32 b = Some (n, b1)" using r Rd_vector by (cases "deserialize_ui32 b") auto
  obtain b1' where j1: "deserialize_ui32 b' = Some (n, b1')" "extends b1' b1" using local_readerD [OF local_ints(1) e 1] by blast
  obtain k b2 where 2: "(if n = ID_VECTOR then deserialize_ui32 b1 else Some (n, b1)) = Some (k, b2)"
    using r Rd_vector 1 by (cases "if n = ID_VECTOR then deserialize_ui32 b1 else Some (n, b1)") auto
  obtain b2' where j2: "(if n = ID_VECTOR then deserialize_ui32 b1' else Some (n, b1')) = Some (k, b2')" "extends b2' b2"
    using local_readerD [OF local_if [OF local_ints(1) local_return] j1(2) 2] by blast
  show ?thesis
  proof (cases "sint k < 0 \<or> 10000 < sint k")
    case True
    with r Rd_vector 1 j1 2 j2 show ?thesis by simp
  next
    case False
    then obtain vs b3 where 3: "read_elems D el (unat k) b2 = Some (vs, b3)" "ret = False" "v = F_arr k vs" "r = b3"
      using r Rd_vector 1 2 by (cases "read_elems D el (unat k) b2") auto
    with local_readerD [OF local_elems [OF D] j2(2) 3(1)] Rd_vector 1 j1 j2 False show ?thesis by auto
  qed
next
  case Rd_true
  with r e show ?thesis by simp
next
  case Rd_ui32
  with r show ?thesis using local_tag [OF local_ints(1) e, of "F_ui32"] by simp
next
  case Rd_bool
  with r show ?thesis using local_tag [OF local_ints(1) e, of "\<lambda>v. F_bool (v \<noteq> 0)"] by simp
next
  case Rd_ui64
  with r show ?thesis using local_tag [OF local_ints(2) e, of "F_ui64"] by simp
next
  case Rd_double
  with r show ?thesis using local_tag [OF local_ints(3) e, of "F_double"] by simp
next
  case Rd_bytes
  with r show ?thesis using local_tag [OF local_bytes e, of "F_buf"] by simp
next
  case (Rd_buf n)
  with r show ?thesis using local_tag [OF local_buf e, where g = F_buf] by simp
next
  case Rd_obj
  with r show ?thesis using local_tag [OF D e, of "F_obj"] by simp
qed

definition extends_rst :: "rst \<Rightarrow> rst \<Rightarrow> bool" where
  "extends_rst s' s \<longleftrightarrow> r_fields s' = r_fields s \<and> r_flags s' = r_flags s \<and> extends (r_buf s') (r_buf s)"

lemma local_stmt:
  assumes D: "local_reader D" and e: "extends_rst s' s" and r: "exec_rstmt D c s = Some (ret, t)"
  shows "\<exists>t'. exec_rstmt D c s' = Some (ret, t') \<and> extends_rst t' t"
proof (cases c)
  case (R_flags k)
  obtain v b where "deserialize_ui32 (r_buf s) = Some (v, b)" using r R_flags by (cases "deserialize_ui32 (r_buf s)") auto
  with local_readerD [OF local_ints(1), of "r_buf s'" "r_buf s"] R_flags r e show ?thesis by (auto simp: extends_rst_def)
next
  case (R_arg g n a)
  obtain go where go: "(case g of None \<Rightarrow> Some True | Some (f, b) \<Rightarrow> flag_set (r_flags s) f b) = Some go"
    using r R_arg by (cases "case g of None \<Rightarrow> Some True | Some (f, b) \<Rightarrow> flag_set (r_flags s) f b") auto
  have f: "(case g of None \<Rightarrow> Some True | Some (f, b) \<Rightarrow> flag_set (r_flags s') f b) = Some go"
    using go e by (cases g) (auto simp: extends_rst_def)
  show ?thesis
  proof (cases go)
    case False
    with r e R_arg go f show ?thesis by auto
  next
    case True
    then obtain v b where 1: "read_act D a (r_buf s) = Some (ret, v, b)" "t = s\<lparr>r_fields := (n, v) # r_fields s, r_buf := b\<rparr>"
      using r R_arg go by (cases "read_act D a (r_buf s)") auto
    obtain b' where "read_act D a (r_buf s') = Some (ret, v, b')" "extends b' b"
      using local_act [OF D _ 1(1)] e by (auto simp: extends_rst_def)
    with 1(2) go f True R_arg e show ?thesis by (auto simp: extends_rst_def)
  qed
qed (use r e in auto)

lemma local_stmts:
  assumes D: "local_reader D"
  shows "extends_rst s' s \<Longrightarrow> exec_rstmts D cs s = Some t \<Longrightarrow> \<exists>t'. exec_rstmts D cs s' = Some t' \<and> extends_rst t' t"
proof (induction cs arbitrary: s s')
  case Nil
  then show ?case by simp
next
  case (Cons c cs)
  obtain ret u where 1: "exec_rstmt D c s = Some (ret, u)" using Cons.prems(2) by (cases "exec_rstmt D c s") auto
  obtain u' where 2: "exec_rstmt D c s' = Some (ret, u')" "extends_rst u' u" using local_stmt [OF D Cons.prems(1) 1] by blast
  show ?case
  proof (cases ret)
    case True
    with Cons.prems(2) 1 2 show ?thesis by simp
  next
    case False
    with Cons.prems(2) 1 have "exec_rstmts D cs u = Some t" by simp
    with Cons.IH [OF 2(2)] 2(1) False show ?thesis by simp
  qed
qed

lemma local_run [local_intros]:
  assumes D: "local_reader D"
  shows "local_reader (run_reader D m)"
proof (rule local_readerI)
  fix b b' x r assume e: "extends b' b" and *: "run_reader D m b = Some (x, r)"
  obtain c where 1: "buf_add_buf b = Some c" using * by (cases "buf_add_buf b") (simp_all add: run_reader_def)
  obtain k b1 where 2: "deserialize_ui32 b = Some (k, b1)"
    using * 1 by (cases "deserialize_ui32 b") (auto simp: run_reader_def)
  let ?own = "\<lambda>b. if m_name m = Some ''vector'' then do {
         (len, b) \<leftarrow> deserialize_ui32 b;
         rst \<leftarrow> buf_add_buf b;
         Some ([(''len'', F_ui32 len), (''data'', F_buf rst)], b)
       } else Some ([], b)"
  have "?own b1 \<noteq> None" using * 1 2 by (intro notI) (simp add: run_reader_def)
  then obtain z where z: "?own b1 = Some z" by (rule not_None_eq [THEN iffD1, THEN exE])
  obtain own b2 where "z = (own, b2)" by (cases z)
  with z have 3: "?own b1 = Some (own, b2)" by (simp only:)
  let ?st = "\<lambda>b. \<lparr>r_fields = own @ new_struct m, r_flags = [], r_buf = b\<rparr>"
  obtain t where 4: "exec_rstmts D (deserialize_body 0 (m_args m)) (?st b2) = Some t" "x = Some (TObj k c (r_fields t))" "r = r_buf t"
    using * 1 2 3 by (cases "exec_rstmts D (deserialize_body 0 (m_args m)) (?st b2)") (simp_all add: run_reader_def)
  obtain b1' where j2: "deserialize_ui32 b' = Some (k, b1')" "extends b1' b1" using local_readerD [OF local_ints(1) e 2] by blast
  have o: "local_reader ?own" by (rule local_intros)+
  obtain b2' where j3: "?own b1' = Some (own, b2')" "extends b2' b2" using local_readerD [OF o j2(2) 3] by blast
  have "extends_rst (?st b2') (?st b2)" using j3 by (simp add: extends_rst_def)
  then obtain t' where j4: "exec_rstmts D (deserialize_body 0 (m_args m)) (?st b2') = Some t'" "extends_rst t' t"
    using local_stmts [OF D _ 4(1)] by blast
  from 4 j4 j3 j2 local_valueD [OF local_copy e 1]
  show "\<exists>r'. run_reader D m b' = Some (x, r') \<and> extends r' r" by (simp add: run_reader_def extends_rst_def)
qed

lemma get_fun_in: "get_fun tab k = Some f \<Longrightarrow> (k, f) \<in> set tab"
  by (simp add: get_fun_iff map_of_SomeD)

theorem deserialize_obj_local: "local_reader (deserialize_obj n S)"
proof (induction n)
  case 0
  show ?case by (simp add: local_reader_def)
next
  case (Suc n)
  show ?case
  proof (rule local_readerI)
    fix b b' x r assume e: "extends b' b" and *: "deserialize_obj (Suc n) S b = Some (x, r)"
    let ?tab = "map (\<lambda>(mt, m). (m_id m, run_reader (deserialize_obj n S) m)) S"
    obtain k where k: "load32 (bblk b) (bdata b) = Some k"
      using * by (cases "load32 (bblk b) (bdata b)") (simp_all add: tl_deserialize_def)
    note jk = local_valueD [OF local_load(1) e k]
    show "\<exists>r'. deserialize_obj (Suc n) S b' = Some (x, r') \<and> extends r' r"
    proof (cases "k = 0 \<or> get_fun ?tab k = None")
      case True
      with * k jk e show ?thesis by (auto simp: tl_deserialize_def)
    next
      case False
      then obtain f where f: "get_fun ?tab k = Some f" by auto
      then obtain m where "f = run_reader (deserialize_obj n S) m" using get_fun_in [OF f] by auto
      then have "local_reader f" using local_run [OF Suc.IH] by simp
      with local_readerD [OF this e, of x r] * k jk f False show ?thesis by (simp add: tl_deserialize_def)
    qed
  qed
qed

section \<open>Reading again\<close>

text \<open>The bytes with nothing behind them: every buffer that has them to read, extends this one.\<close>

definition tight :: "byte list \<Rightarrow> buf" where
  "tight xs = \<lparr>bblk = xs, bdata = 0, bsize = of_nat (length xs), basize = 0\<rparr>"

lemma reads_tight: "fits (length xs) \<Longrightarrow> reads (tight xs) xs"
  by (simp add: reads_def tight_def readable_def bytes_def)

lemma extends_tight: "reads b xs \<Longrightarrow> extends b (tight xs)"
  using reads_rest [of b xs] reads_length [of b xs] by (auto simp: extends_def tight_def rest_def)

text \<open>The object of a value is the same wherever its encoding stands, as long as the same bytes follow.\<close>

theorem deserialize_obj_again:
  assumes S: "schema_ok S" and t: "typed S mt ty (VObj k vs)" and n: "length (enc S (VObj k vs)) \<le> n"
    and f: "fits (length (enc S (VObj k vs) @ ys))"
  shows "\<exists>p. o_id p = k \<and> o_buf p = mkbuf (enc S (VObj k vs) @ ys) \<and> repr S (VObj k vs) (F_obj (Some p)) \<and>
    (\<forall>b. reads b (enc S (VObj k vs) @ ys) \<longrightarrow> (\<exists>r. deserialize_obj n S b = Some (Some p, r)))"
proof -
  let ?xs = "enc S (VObj k vs) @ ys"
  obtain p r where p: "deserialize_obj n S (tight ?xs) = Some (Some p, r)" "repr S (VObj k vs) (F_obj (Some p))"
    using reads_objectsD [OF deserialize_obj_reads [OF S] t n reads_tight [OF f]] by blast
  have c: "buf_add_buf (tight ?xs) = Some (mkbuf ?xs)" by (rule reads_copy [OF reads_tight [OF f]])
  obtain i bf fl where po: "p = TObj i bf fl" by (cases p)
  have "o_buf p = mkbuf ?xs" using p(1) c
    by (cases n) (auto simp: tl_deserialize_def get_fun_table run_reader_def split: if_splits option.splits bind_splits)
  moreover have "o_id p = k" using p(2) po by (auto simp: repr_obj)
  moreover have "\<exists>r. deserialize_obj n S b = Some (Some p, r)" if "reads b ?xs" for b
    using local_readerD [OF deserialize_obj_local extends_tight [OF that] p(1)] by blast
  ultimately show ?thesis using p(2) by blast
qed

end
