(* ===== verification/Chat_Props.thy ===== *)
theory Chat_Props
  imports Message_Queries Dialogs People_Props Tl_Local
begin

text \<open>
  What the caller of \<^verbatim>\<open>tg/messages.c\<close> and \<^verbatim>\<open>tg/dialogs.c\<close> sees: messages come in order and survive the database,
  a list of dialogs that fits into one answer is complete, longer lists and errors never get further.
\<close>

section \<open>Messages\<close>

definition from_object :: "msg_env \<Rightarrow> tobj \<Rightarrow> msg_struct \<Rightarrow> bool" where
  "from_object env p m \<longleftrightarrow> tg_message_from_tl_unknown env None p = Some (Some m)"

text \<open>A callback that lets the loop go on.\<close>

definition never_stops :: "('s \<Rightarrow> 'm \<Rightarrow> int \<times> 's) \<Rightarrow> bool" where
  "never_stops f \<longleftrightarrow> (\<forall>s m. fst (f s m) = 0)"

lemma never_stopsD: "never_stops f \<Longrightarrow> fst (f s m) = 0"
  by (simp add: never_stops_def)

text \<open>A service message without optional members.\<close>

definition no_reply :: "(string \<times> fval) list \<Rightarrow> bool" where
  "no_reply fs \<longleftrightarrow> map_of fs ''out'' = Some (F_bool False) \<and> map_of fs ''mentioned'' = Some (F_bool False) \<and>
     map_of fs ''media_unread'' = Some (F_bool False) \<and> map_of fs ''silent'' = Some (F_bool False) \<and>
     map_of fs ''post'' = Some (F_bool False) \<and> map_of fs ''legacy'' = Some (F_bool False) \<and>
     map_of fs ''from_id'' = Some (F_obj None) \<and> map_of fs ''reply_to'' = Some (F_obj None) \<and>
     map_of fs ''ttl_period'' = Some (F_ui32 0)"

lemma service_struct:
  assumes "o_id p = id_messageService" and "buf_add_buf (o_buf p) = Some d" and "no_reply (o_fields p)"
    and "map_of (o_fields p) ''id'' = Some (F_ui32 k)" "map_of (o_fields p) ''date'' = Some (F_ui32 date)"
    and "map_of (o_fields p) ''peer_id'' = Some (F_obj (Some q))" "map_of (o_fields p) ''action'' = Some (F_obj (Some a))"
    and "o_id q = id_peerUser" "map_of (o_fields q) ''user_id'' = Some (F_ui64 u)" "o_id a = id_messageActionEmpty"
  shows "\<exists>m. from_object env p m"
  using assms(1-7,9) assms(8,10)
  by (simp add: from_object_def tg_message_from_tl_unknown_def tg_message_from_tl_service_def put_num_def tl_member_def tl_pointer_def
    when_obj_def put_peer_def TG_PER_def peer_number_def tl_u64_def action_text_def no_reply_def id_messageService_def id_message_def)

lemma parse_messages_all:
  assumes "list_all2 (from_object env) ps ms" and "never_stops f"
  shows "parse_messages env tgid (Some f) (map Some ps) s =
    Some (int (length ps), concat (map (tg_message_to_database tgid) ms), fold (\<lambda>m s. snd (f s m)) ms s)"
  using assms(1)
proof (induction ps ms arbitrary: s rule: list_all2_induct)
  case Nil
  then show ?case by simp
next
  case (Cons p ps m ms)
  then show ?case using never_stopsD [OF assms(2), of s m] by (simp add: from_object_def split_beta Let_def)
qed

definition objects :: "tobj \<Rightarrow> string \<Rightarrow> tobj list \<Rightarrow> bool" where
  "objects p n xs \<longleftrightarrow> tl_member p n = Some (F_arr (of_nat (length xs)) (map (F_obj \<circ> Some) xs)) \<and> length xs \<le> 10000"

lemma objects_array: "objects p n xs \<Longrightarrow> tl_array p n = Some (map Some xs)"
  by (simp add: objects_def tl_array_def list_all_iff)

lemma objects_vector: "objects p n xs \<Longrightarrow> tl_vector p n = Some (map Some xs)"
  using objects_array [of p n xs] by (auto simp: tl_vector_def objects_def)

text \<open>
  C31: The history of a conversation: when the answer holds objects that are messages and the callback does not stop,
  \<^verbatim>\<open>tg_messages_get_history\<close> sends one query, stores the users and chats, stores every message, hands the
  messages to the callback in the order of the answer, and returns their number.
\<close>

theorem history_in_order:
  assumes "send (history_query g pg peer offset_id offset_date add_offset limit max_id min_id hash) s = (Some p, s1)"
    and "is_messages p" and "objects p ''messages_'' ps" "objects p ''users_'' us" "objects p ''chats_'' cs"
    and "tg_users_save tgid (map Some us) = Some users" "tg_chats_save tgid (map Some cs) = Some chats"
    and "list_all2 (from_object env) ps ms" and "never_stops f"
  shows "tg_messages_get_history env g pg send tgid peer offset_id offset_date add_offset limit max_id min_id hash (Some f) s =
    Some (int (length ps), map Exec users @ map Exec chats @ concat (map (tg_message_to_database tgid) ms),
      fold (\<lambda>m s. snd (f s m)) ms s1)"
  using assms(1,2,6,7) parse_messages_all [OF assms(8,9), where tgid = tgid and s = s1]
  by (simp add: tg_messages_get_history_def parse_tl_def objects_array [OF assms(4)] objects_array [OF assms(5)] objects_vector [OF assms(3)])

text \<open>For example the only message of a conversation.\<close>

definition joined :: tobj where
  "joined = TObj id_messageService (mkbuf [1, 2]) [(''out'', F_bool False), (''mentioned'', F_bool False), (''media_unread'', F_bool False),
     (''silent'', F_bool False), (''post'', F_bool False), (''legacy'', F_bool False), (''id'', F_ui32 9), (''from_id'', F_obj None),
     (''peer_id'', F_obj (Some (TObj id_peerUser (mkbuf []) [(''user_id'', F_ui64 7)]))), (''reply_to'', F_obj None), (''date'', F_ui32 100),
     (''action'', F_obj (Some (TObj id_messageActionEmpty (mkbuf []) []))), (''ttl_period'', F_ui32 0)]"

definition history_answer :: tobj where
  "history_answer = TObj id_messages_messages (mkbuf []) [(''messages'', F_arr 1 [F_obj (Some joined)]), (''users'', F_arr 0 []), (''chats'', F_arr 0 [])]"

definition chat_env :: msg_env where
  "chat_env = \<lparr>e_lf = (\<lambda>_. []), e_trunc = id, e_name = (\<lambda>_. None)\<rparr>"

definition sample_gen :: msg_gen where
  "sample_gen = \<lparr>g_getHistory = (\<lambda>p _ _ _ _ _ _ _. p), g_getMessages = hd, g_channels_getMessages = (\<lambda>c _. c),
     g_inputMessageID = (\<lambda>k. mkbuf (le_bytes 4 k)), g_inputChannel = (\<lambda>k _. mkbuf (le_bytes 8 k)),
     g_sendMessage = (\<lambda>p _ _. p), g_setTyping = (\<lambda>p _. p), g_typingAction = mkbuf [1], g_cancelAction = mkbuf [2],
     g_readHistory = (\<lambda>p _. p), g_getOutboxReadDate = (\<lambda>p _. p), g_deleteMessages = (\<lambda>_ _. mkbuf [3])\<rparr>"

lemma joined_struct: "\<exists>m. from_object chat_env joined m"
  by (rule service_struct [where d = "mkbuf [1, 2]" and k = 9 and date = 100 and u = 7 and q = "TObj id_peerUser (mkbuf []) [(''user_id'', F_ui64 7)]"
      and a = "TObj id_messageActionEmpty (mkbuf []) []"])
     (simp_all add: joined_def no_reply_def reads_copy [OF reads_mkbuf] fits_def)

definition collect :: "msg_struct list \<Rightarrow> msg_struct \<Rightarrow> int \<times> msg_struct list" where
  "collect s m = (0, s @ [m])"

theorem history_in_order_witness:
  "\<exists>m. from_object chat_env joined m \<and>
    tg_messages_get_history chat_env sample_gen sample_peer_schema (\<lambda>q s. (Some history_answer, s)) 1 \<lparr>pe_type = TG_PEER_TYPE_USER, pe_id = 7, pe_access_hash = 0\<rparr>
      0 0 0 10 0 0 None (Some collect) [] = Some (1, tg_message_to_database 1 m, [m])"
proof -
  obtain m where m: "from_object chat_env joined m" using joined_struct by blast
  have "tg_messages_get_history chat_env sample_gen sample_peer_schema (\<lambda>q s. (Some history_answer, s)) 1 \<lparr>pe_type = TG_PEER_TYPE_USER, pe_id = 7, pe_access_hash = 0\<rparr>
      0 0 0 10 0 0 None (Some collect) [] = Some (int (length [joined]), map Exec [] @ map Exec [] @ concat (map (tg_message_to_database 1) [m]),
      fold (\<lambda>m s. snd (collect s m)) [m] [])"
    by (rule history_in_order [where us = "[]" and cs = "[]" and p = history_answer])
       (simp_all add: history_answer_def objects_def tl_member_def is_messages_def never_stops_def collect_def m)
  with m show ?thesis by (auto simp: collect_def)
qed

text \<open>A message that has been deleted, \<^verbatim>\<open>messageEmpty\<close>: its object leaves the struct unwritten, which is then stored.\<close>

lemma unknown_struct: "o_id p \<noteq> id_message \<Longrightarrow> o_id p \<noteq> id_messageService \<Longrightarrow> tg_message_from_tl_unknown env None p = Some None"
  by (simp add: tg_message_from_tl_unknown_def)

theorem deleted_message_undefined:
  assumes "list_all2 (from_object env) ps ms" and "never_stops f"
    and "o_id p \<noteq> id_message" "o_id p \<noteq> id_messageService"
  shows "parse_messages env tgid (Some f) (map Some ps @ Some p # qs) s = None"
  using assms(1)
proof (induction ps ms arbitrary: s rule: list_all2_induct)
  case Nil
  then show ?case using unknown_struct [OF assms(3,4)] by simp
next
  case (Cons q ps m ms)
  then show ?case using never_stopsD [OF assms(2), of s m] by (simp add: from_object_def split_beta Let_def)
qed

section \<open>Messages in the database\<close>

lemma from_tl_data: "tg_message_from_tl_unknown env None p = Some (Some m) \<Longrightarrow> buf_add_buf (o_buf p) = Some (mg_data m)"
  by (auto simp: tg_message_from_tl_unknown_def tg_message_from_tl_def tg_message_from_tl_service_def Let_def split: if_splits bind_splits)

lemma unknown_again:
  "tg_message_from_tl_unknown env None p = Some (Some m) \<Longrightarrow> tg_message_from_tl_unknown env x p = Some (Some m)"
  by (auto simp: tg_message_from_tl_unknown_def split: if_splits)

text \<open>The bytes that are stored with a message give the same message back.\<close>

lemma stored_message:
  assumes sch: "schema_ok sch" "typed sch mt ty (VObj k vs)" "length (enc sch (VObj k vs)) \<le> n" and b: "reads b (enc sch (VObj k vs) @ ys)"
    and p: "deserialize_obj n sch b = Some (Some p, r)" and m: "from_object env p m"
  shows "bytes (mg_data m) = enc sch (VObj k vs) @ ys"
    and "\<exists>r. deserialize_obj n sch (mkbuf (bytes (mg_data m))) = Some (Some p, r)" and "fits (length (bytes (mg_data m)))"
proof -
  let ?xs = "enc sch (VObj k vs) @ ys"
  have f: "fits (length ?xs)" using b reads_length [OF b] by (simp add: reads_def del: enc.simps)
  obtain q where q: "o_buf q = mkbuf ?xs" "\<And>b. reads b ?xs \<Longrightarrow> \<exists>r. deserialize_obj n sch b = Some (Some q, r)"
    using deserialize_obj_again [OF sch f] by blast
  have "q = p" using q(2) [OF b] p by auto
  moreover have "buf_add_buf (mkbuf ?xs) = Some (mkbuf ?xs)" by (rule reads_copy [OF reads_mkbuf [OF f]])
  ultimately have d: "mg_data m = mkbuf ?xs" using from_tl_data [of env p m] m q(1) by (simp add: from_object_def)
  then show "bytes (mg_data m) = ?xs" using f by (simp del: enc.simps)
  with f q(2) [OF reads_mkbuf [OF f]] \<open>q = p\<close>
  show "\<exists>r. deserialize_obj n sch (mkbuf (bytes (mg_data m))) = Some (Some p, r)" and "fits (length (bytes (mg_data m)))" by simp_all
qed

text \<open>
  C32: A message survives the database: the bytes that \<^verbatim>\<open>tg_message_to_database\<close> stores for a message that the generated
  reader found anywhere in an answer, read again by \<^verbatim>\<open>tg_get_messages_from_database\<close>, give the callback the
  same struct, media and entities included; this holds for every message of every schema whose declarations are well formed.
\<close>

theorem message_database_roundtrip:
  assumes "schema_ok sch" and "typed sch mt ty (VObj k vs)" and "length (enc sch (VObj k vs)) \<le> n" and "reads b (enc sch (VObj k vs) @ ys)"
    and "deserialize_obj n sch b = Some (Some p, r)" and "from_object env p m"
    and "query (select_messages tgid peer offset_date limit) = [bytes (mg_data m)]"
  shows "\<exists>ins upd. tg_message_to_database tgid m = [Exec ins, Exec_blob upd (mg_data m)] \<and>
    tg_get_messages_from_database env (deserialize_obj n sch) query tgid peer offset_date limit (Some f) s = Some (snd (f s m))"
proof -
  note st = stored_message [OF assms(1-6)]
  obtain r' where r': "deserialize_obj n sch (mkbuf (bytes (mg_data m))) = Some (Some p, r')" using st(2) by blast
  have u: "tg_message_from_tl_unknown env (Some msg_zero) p = Some (Some m)"
    by (rule unknown_again [OF assms(6) [unfolded from_object_def]])
  have c: "buf_add (bytes (mg_data m)) 0 (of_nat (length (bytes (mg_data m)))) = Some (mkbuf (bytes (mg_data m)))"
    using st(3) by simp
  have "read_messages env (deserialize_obj n sch) (Some f) [bytes (mg_data m)] s = Some (snd (f s m))" by (simp add: c r' u)
  then have "tg_get_messages_from_database env (deserialize_obj n sch) query tgid peer offset_date limit (Some f) s = Some (snd (f s m))"
    unfolding tg_get_messages_from_database_def assms(7) .
  moreover have "\<exists>ins upd. tg_message_to_database tgid m = [Exec ins, Exec_blob upd (mg_data m)]"
    unfolding tg_message_to_database_def Let_def by blast
  ultimately show ?thesis by blast
qed

text \<open>The declarations of the schema for the example: a service message and what is in it.\<close>

definition service_method :: method_t where
  "service_method = \<lparr>m_name = Some ''messageService'', m_id = 0x2b085862, m_ret = Some ''Message'',
     m_args = [\<lparr>a_name = ''flags'', a_type = None, flagn = 0, flagb = 0\<rparr>,
       \<lparr>a_name = ''out'', a_type = Some ''true'', flagn = 1, flagb = 1\<rparr>,
       \<lparr>a_name = ''mentioned'', a_type = Some ''true'', flagn = 1, flagb = 4\<rparr>,
       \<lparr>a_name = ''media_unread'', a_type = Some ''true'', flagn = 1, flagb = 5\<rparr>,
       \<lparr>a_name = ''silent'', a_type = Some ''true'', flagn = 1, flagb = 13\<rparr>,
       \<lparr>a_name = ''post'', a_type = Some ''true'', flagn = 1, flagb = 14\<rparr>,
       \<lparr>a_name = ''legacy'', a_type = Some ''true'', flagn = 1, flagb = 19\<rparr>,
       \<lparr>a_name = ''id'', a_type = Some ''int'', flagn = 0, flagb = 0\<rparr>,
       \<lparr>a_name = ''from_id'', a_type = Some ''Peer'', flagn = 1, flagb = 8\<rparr>,
       \<lparr>a_name = ''peer_id'', a_type = Some ''Peer'', flagn = 0, flagb = 0\<rparr>,
       \<lparr>a_name = ''reply_to'', a_type = Some ''MessageReplyHeader'', flagn = 1, flagb = 3\<rparr>,
       \<lparr>a_name = ''date'', a_type = Some ''int'', flagn = 0, flagb = 0\<rparr>,
       \<lparr>a_name = ''action'', a_type = Some ''MessageAction'', flagn = 0, flagb = 0\<rparr>,
       \<lparr>a_name = ''ttl_period'', a_type = Some ''int'', flagn = 1, flagb = 25\<rparr>], m_nflags = 1\<rparr>"

definition service_schema :: tl_schema where
  "service_schema = [(False, service_method),
     (False, \<lparr>m_name = Some ''peerUser'', m_id = 0x59511722, m_ret = Some ''Peer'',
       m_args = [\<lparr>a_name = ''user_id'', a_type = Some ''long'', flagn = 0, flagb = 0\<rparr>], m_nflags = 0\<rparr>),
     (False, \<lparr>m_name = Some ''messageActionEmpty'', m_id = 0xb6aef7b0, m_ret = Some ''MessageAction'', m_args = [], m_nflags = 0\<rparr>)]"

definition service_value :: "tlv option list" where
  "service_value = [None, None, None, None, None, None, None, Some (VInt 9), None, Some (VObj 0x59511722 [Some (VLong 7)]), None,
     Some (VInt 100), Some (VObj 0xb6aef7b0 []), None]"

lemma service_lookup:
  "lookup service_schema 0x2b085862 = Some (False, service_method)"
  "lookup service_schema 0x59511722 = Some (False, \<lparr>m_name = Some ''peerUser'', m_id = 0x59511722, m_ret = Some ''Peer'',
       m_args = [\<lparr>a_name = ''user_id'', a_type = Some ''long'', flagn = 0, flagb = 0\<rparr>], m_nflags = 0\<rparr>)"
  "lookup service_schema 0xb6aef7b0 = Some (False, \<lparr>m_name = Some ''messageActionEmpty'', m_id = 0xb6aef7b0, m_ret = Some ''MessageAction'', m_args = [], m_nflags = 0\<rparr>)"
  by (simp_all add: lookup_def service_schema_def service_method_def)

lemma service_schema_ok: "schema_ok service_schema"
  by (simp add: schema_ok_def service_schema_def service_method_def m_ok_def is_flag_field_def)

lemma service_types: "obj_type ''Message''" "obj_type ''Peer''" "obj_type ''MessageAction''"
  by (simp_all add: obj_type_def named_def elem_type_def)

lemma service_typed: "typed service_schema False ''Message'' (VObj 0x2b085862 service_value)"
  by (simp add: typed.simps(8) service_lookup service_types service_method_def service_value_def flags_agree_def)

lemma service_length: "length (enc service_schema (VObj 0x2b085862 service_value)) = 32"
  by (simp add: service_lookup service_method_def service_value_def is_flag_field_def)

lemma repr_objD:
  "repr sch (VObj k vs) f \<Longrightarrow>
   \<exists>b fl mt m. f = F_obj (Some (TObj k b fl)) \<and> lookup sch k = Some (mt, m) \<and> list_all2 (member_ok sch fl) vs (m_args m)"
  by (auto simp: repr_obj split: fval.splits option.splits tobj.splits prod.splits)

lemma service_object:
  assumes "repr service_schema (VObj 0x2b085862 service_value) (F_obj (Some p))" and "buf_add_buf (o_buf p) \<noteq> None"
  shows "\<exists>m. from_object env p m"
proof -
  obtain i b fl where p: "p = TObj i b fl" by (cases p)
  have m: "list_all2 (member_ok service_schema fl) service_value (m_args service_method)" and i: "i = id_messageService"
    using assms(1) p service_lookup(1) by (auto simp: repr_obj id_messageService_def)
  from m have n: "no_reply fl" and n1: "map_of fl ''id'' = Some (F_ui32 9)" and n2: "map_of fl ''date'' = Some (F_ui32 100)"
    and n3: "\<exists>f. map_of fl ''peer_id'' = Some f \<and> repr service_schema (VObj 0x59511722 [Some (VLong 7)]) f"
    and n4: "\<exists>f. map_of fl ''action'' = Some f \<and> repr service_schema (VObj 0xb6aef7b0 []) f"
    by (simp_all add: service_value_def service_method_def member_ok_def is_flag_field_def zero_member_def no_reply_def
      member_type_def elem_type_def Let_def split: option.splits)
  obtain q qb qf where q: "map_of fl ''peer_id'' = Some (F_obj (Some q))" "q = TObj id_peerUser qb qf" "map_of qf ''user_id'' = Some (F_ui64 7)"
    using n3 repr_objD [where sch = service_schema and k = "0x59511722" and vs = "[Some (VLong 7)]"]
    by (fastforce simp: service_lookup member_ok_def is_flag_field_def id_peerUser_def split: option.splits)
  obtain a ab af where a: "map_of fl ''action'' = Some (F_obj (Some a))" "a = TObj id_messageActionEmpty ab af"
    using n4 repr_objD [where sch = service_schema and k = "0xb6aef7b0" and vs = "[]"] by (fastforce simp: id_messageActionEmpty_def)
  obtain d where "buf_add_buf b = Some d" using assms(2) p by auto
  then show ?thesis using service_struct [of p d 9 100 q a 7 env] p i n n1 n2 q a by simp
qed

theorem message_database_roundtrip_witness:
  "\<exists>p r m. deserialize_obj 40 service_schema (mkbuf (enc service_schema (VObj 0x2b085862 service_value) @ [1, 2, 3])) = Some (Some p, r) \<and>
    from_object chat_env p m \<and>
    tg_get_messages_from_database chat_env (deserialize_obj 40 service_schema) (\<lambda>_. [bytes (mg_data m)]) 1 7 200 10 (Some collect) [] = Some [m]"
proof -
  let ?v = "VObj 0x2b085862 service_value"
  let ?b = "mkbuf (enc service_schema ?v @ [1, 2, 3])"
  have f: "fits (length (enc service_schema ?v @ [1, 2, 3]))" by (simp add: service_length fits_def del: enc.simps)
  have l: "length (enc service_schema ?v) \<le> 40" by (simp add: service_length del: enc.simps)
  have b: "reads ?b (enc service_schema ?v @ [1, 2, 3])" using f by (rule reads_mkbuf)
  obtain p r where p: "deserialize_obj 40 service_schema ?b = Some (Some p, r)" "o_buf p = ?b" "repr service_schema ?v (F_obj (Some p))"
    using deserialize_obj_again [OF service_schema_ok service_typed l f] b by blast
  have "buf_add_buf (o_buf p) \<noteq> None" using p(2) reads_copy [OF b] by simp
  then obtain m where m: "from_object chat_env p m" using service_object [OF p(3)] by blast
  have "tg_get_messages_from_database chat_env (deserialize_obj 40 service_schema) (\<lambda>_. [bytes (mg_data m)]) 1 7 200 10 (Some collect) [] =
      Some (snd (collect [] m))"
    using message_database_roundtrip [OF service_schema_ok service_typed l b p(1) m refl, where tgid = 1 and peer = 7 and offset_date = 200 and limit = 10 and f = collect and s = "[]"] by blast
  with p(1) m show ?thesis by (auto simp: collect_def)
qed

section \<open>Dialogs\<close>

definition dialogs_of :: "(tobj \<Rightarrow> (cstruct \<times> sqlop list) option option) \<Rightarrow> tobj list \<Rightarrow> (cstruct \<times> sqlop list) list \<Rightarrow> bool" where
  "dialogs_of dlg ds rs \<longleftrightarrow> list_all2 (\<lambda>d r. dlg d = Some (Some r)) ds rs"

lemma dialogs_loop_all:
  assumes "dialogs_of dlg ds rs" and "never_stops f"
  shows "\<exists>h. dialogs_loop dlg (Some f) (map Some ds) n hash s =
    Some (n + int (length ds), h, concat (map snd rs), fold (\<lambda>r s. snd (f s (fst r))) rs s) \<and> (hash = None \<longrightarrow> h = None)"
  using assms(1) unfolding dialogs_of_def
proof (induction ds rs arbitrary: n hash s rule: list_all2_induct)
  case Nil
  then show ?case by simp
next
  case (Cons d ds r rs)
  obtain st ops where r: "r = (st, ops)" by (cases r)
  let ?h = "update_hash hash (ucast (num_val (st ''top_message_id'')))"
  obtain h where "dialogs_loop dlg (Some f) (map Some ds) (n + 1) ?h (snd (f s st)) =
      Some (n + 1 + int (length ds), h, concat (map snd rs), fold (\<lambda>r s. snd (f s (fst r))) rs (snd (f s st)))" "?h = None \<longrightarrow> h = None"
    using Cons.IH by blast
  moreover have "hash = None \<longrightarrow> ?h = None" by (simp add: update_hash_def)
  ultimately show ?case using Cons.hyps never_stopsD [OF assms(2), of s st] r by (auto simp: split_beta Let_def)
qed

text \<open>An answer with its dialogs, each of which is matched.\<close>

definition page :: "msg_env \<Rightarrow> bool \<Rightarrow> int \<Rightarrow> tobj \<Rightarrow> tobj list \<Rightarrow> (cstruct \<times> sqlop list) list \<Rightarrow> bool" where
  "page env logs tgid p ds rs \<longleftrightarrow> (o_id p = id_messages_dialogs \<or> o_id p = id_messages_dialogsSlice \<and> tl_u32 p ''count_'' \<noteq> None) \<and>
     objects p ''dialogs_'' ds \<and>
     (\<exists>us cs ms. tl_array p ''users_'' = Some us \<and> tl_array p ''chats_'' = Some cs \<and> tl_array p ''messages_'' = Some ms \<and>
        dialogs_of (dialog_of env logs tgid us cs ms) ds rs)"

definition page_total :: "tobj \<Rightarrow> int \<Rightarrow> int" where
  "page_total p n = (if o_id p = id_messages_dialogsSlice then (case tl_u32 p ''count_'' of None \<Rightarrow> n | Some c \<Rightarrow> sint c) else n)"

lemma page_read:
  assumes "page env logs tgid p ds rs" and "never_stops f"
  shows "\<exists>h. tg_get_dialogs_callback env logs tgid (Some f) (Some p) t s =
    Some (t\<lparr>gd_count := gd_count t + int (length ds), gd_total := page_total p (gd_total t), gd_hash := h\<rparr>, concat (map snd rs),
      fold (\<lambda>r s. snd (f s (fst r))) rs s) \<and> (gd_hash t = None \<longrightarrow> h = None)"
proof -
  obtain us cs ms where a: "tl_array p ''users_'' = Some us" "tl_array p ''chats_'' = Some cs" "tl_array p ''messages_'' = Some ms"
    and d: "dialogs_of (dialog_of env logs tgid us cs ms) ds rs" and o: "objects p ''dialogs_'' ds"
    using assms(1) by (auto simp: page_def)
  obtain h where h: "dialogs_loop (dialog_of env logs tgid us cs ms) (Some f) (map Some ds) 0 (gd_hash t) s =
      Some (int (length ds), h, concat (map snd rs), fold (\<lambda>r s. snd (f s (fst r))) rs s)" "gd_hash t = None \<longrightarrow> h = None"
    using dialogs_loop_all [OF d assms(2), where n = 0 and hash = "gd_hash t" and s = s] by auto
  have l: "length ds \<le> 10000" using o by (simp add: objects_def)
  then have s: "sint (of_nat (length ds) :: u32) = int (length ds)" by (simp add: sint_small unat_of_nat)
  have c: "tl_member p ''dialogs_'' = Some (F_arr (of_nat (length ds)) (map (F_obj \<circ> Some) ds))" using o by (simp add: objects_def)
  have n: "id_messages_dialogs \<noteq> id_messages_dialogsSlice" by (simp add: id_messages_dialogs_def id_messages_dialogsSlice_def)
  show ?thesis
    using assms(1) n h a c s objects_array [OF o]
    by (intro exI [of _ h], cases t) (auto simp: page_def page_total_def tg_get_dialogs_callback_def tg_dialogs_from_tl_def)
qed


text \<open>For example a conversation with one user, without a message.\<close>

definition talk_user :: tobj where
  "talk_user = TObj id_user (mkbuf []) [(''id'', F_ui64 7), (''access_hash'', F_ui64 8), (''username'', F_buf (mkbuf [])),
     (''first_name'', F_buf (mkbuf [0x41, 0x64, 0x61])), (''photo'', F_obj None)]"

definition talk :: tobj where
  "talk = TObj id_dialog (mkbuf []) [(''pinned'', F_bool False), (''unread_mark'', F_bool False),
     (''peer'', F_obj (Some (TObj id_peerUser (mkbuf []) [(''user_id'', F_ui64 7)]))), (''top_message'', F_ui32 5),
     (''read_inbox_max_id'', F_ui32 0), (''read_outbox_max_id'', F_ui32 0), (''unread_count'', F_ui32 1), (''unread_mentions_count'', F_ui32 0),
     (''unread_reactions_count'', F_ui32 0), (''folder_id'', F_ui32 0),
     (''notify_settings'', F_obj (Some (TObj 0x99622c0c (mkbuf []) [(''silent'', F_obj None), (''mute_until'', F_ui32 0)])))]"

definition talk_answer :: "u32 \<Rightarrow> tobj" where
  "talk_answer k = TObj k (mkbuf []) [(''count'', F_ui32 3), (''dialogs'', F_arr 1 [F_obj (Some talk)]), (''messages'', F_arr 0 []),
     (''chats'', F_arr 0 []), (''users'', F_arr 1 [F_obj (Some talk_user)])]"

lemma strdup_mkbuf: "fits (length xs) \<Longrightarrow> 0 \<notin> set xs \<Longrightarrow> buf_strdup (mkbuf xs) = Some xs"
  by (auto simp: buf_strdup_def mem_read_def mkbuf_def Let_def takeWhile_eq_all_conv)

lemma good_dialogs: "good_rows TG_DIALOG_ARGS"
  by code_simp

lemma dialog_text:
  assumes "\<And>n. str_of (d n) = (if n = ''name'' then Some xs else None)" and "clean xs" and "length xs < 1000" and "- (2 ^ 31) \<le> tgid" "tgid < 2 ^ 31"
  shows "\<exists>ops. tg_dialog_to_database tgid d = Some ops"
proof -
  have p: "plain_col ''dialogs''" "plain_col ''peer_id''" by code_simp+
  have "strings_clean TG_DIALOG_ARGS d" using assms(1,2) by (simp add: strings_clean_def)
  moreover have "text_size TG_DIALOG_ARGS d < 2 ^ 30"
    using assms(1,3) by (simp add: text_size_def TG_DIALOG_ARGS_def TG_ARG_def TG_STR_def is_text_def)
  ultimately show ?thesis
    using save_text [OF p _ _ _ _ assms(4,5), of TG_DIALOG_ARGS d False False "num_val (d ''peer_id'')"] good_dialogs
    by (auto simp: tg_dialog_to_database_def good_rows_def list_all_iff)
qed

lemma talk_dialog: "\<exists>r. dialog_of env logs 1 [Some talk_user] [] [] talk = Some (Some r)"
proof -
  have m: "\<exists>st. dialog_members talk = Some (st, Some (TObj id_peerUser (mkbuf []) [(''user_id'', F_ui64 7)])) \<and>
      num_val (st ''peer_id'') = 7 \<and> (\<forall>n. str_of (st n) = None)"
    by (simp add: dialog_members_def talk_def tl_pointer_def tl_member_def put_num_def peer_number_def tl_u64_def put_notify_def
      id_dialog_def id_dialogFolder_def zeroed_str)
  then obtain st pr where st: "dialog_members talk = Some (st, pr)" "num_val (st ''peer_id'') = 7" "\<And>n. str_of (st n) = None" by blast
  have "\<exists>st1. match_users [Some talk_user] st = Some st1 \<and> num_val (st1 ''peer_type'') \<noteq> 0 \<and>
      (\<forall>n. str_of (st1 n) = (if n = ''name'' then Some [0x41, 0x64, 0x61] else None))"
    using st(2,3) by (simp add: talk_user_def match_user_def tl_u64_def tl_member_def put_num_def tl_bytes_def put_text_def strdup_mkbuf fits_def
      when_obj_def tl_pointer_def id_peerUser_def)
  then obtain st1 where st1: "match_users [Some talk_user] st = Some st1" "num_val (st1 ''peer_type'') \<noteq> 0"
    "\<And>n. str_of (st1 n) = (if n = ''name'' then Some [0x41, 0x64, 0x61] else None)" by blast
  obtain ops where "tg_dialog_to_database 1 st1 = Some ops"
    using dialog_text [OF st1(3), of 1] by (auto simp: clean_def)
  moreover have "o_id talk = id_dialog" by (simp add: talk_def)
  ultimately show ?thesis using st(1) st1(1,2) by (simp add: dialog_of_def)
qed

lemma talk_page: "\<exists>r. page env logs 1 (talk_answer k) [talk] [r]" if "k = id_messages_dialogs \<or> k = id_messages_dialogsSlice"
  using that talk_dialog [of env logs]
  by (auto simp: page_def talk_answer_def objects_def tl_member_def tl_array_def tl_u32_def dialogs_of_def)

definition sample_dialogs :: dialogs_env where
  "sample_dialogs = \<lparr>g_getDialogs = (\<lambda>f d i p l h. mkbuf (le_bytes 4 d)), g_self = mkbuf [1]\<rparr>"

definition count_dialog :: "nat \<Rightarrow> cstruct \<Rightarrow> int \<times> nat" where
  "count_dialog s d = (0, s + 1)"


lemma get_dialogs_again:
  assumes "\<And>s. asks (dialogs_query g folder_id offset_date limit None) s = (Some p, s)" and "o_id p = id_messages_dialogsSlice"
    and "page env logs tgid p ds rs" and "never_stops f" and "limit \<le> 0"
    and "gd_count t < gd_total t" and "gd_hash t = None" "\<not> gd_stop t"
    and "gd_count t + int k * int (length ds) < page_total p 0" and "page_total p 0 \<le> gd_count t + (int k + 1) * int (length ds)"
  shows "\<exists>t'. get_dialogs_loop (k + 2 + n) env g logs tgid asks (Some f) folder_id offset_date limit t s =
    Some (True, t', replicate (Suc k) (dialogs_query g folder_id offset_date limit None), concat (replicate (Suc k) (concat (map snd rs))),
      ((fold (\<lambda>r s. snd (f s (fst r))) rs) ^^ Suc k) s)"
  using assms(6-10)
proof (induction k arbitrary: t s)
  case 0
  let ?t = "t\<lparr>gd_count := gd_count t + int (length ds), gd_total := page_total p 0, gd_hash := None\<rparr>"
  have "page_total p (gd_total t) = page_total p 0" using assms(2,3) by (auto simp: page_total_def page_def id_messages_dialogs_def id_messages_dialogsSlice_def)
  then have "tg_get_dialogs_callback env logs tgid (Some f) (Some p) t s = Some (?t, concat (map snd rs), fold (\<lambda>r s. snd (f s (fst r))) rs s)"
    using page_read [OF assms(3,4), where t = t and s = s] 0 by auto
  with 0 assms(1,5) show ?case by (simp add: Let_def numeral_2_eq_2)
next
  case (Suc k)
  let ?t = "t\<lparr>gd_count := gd_count t + int (length ds), gd_total := page_total p 0, gd_hash := None\<rparr>"
  let ?F = "fold (\<lambda>r s. snd (f s (fst r))) rs"
  have "page_total p (gd_total t) = page_total p 0" using assms(2,3) by (auto simp: page_total_def page_def id_messages_dialogs_def id_messages_dialogsSlice_def)
  then have c: "tg_get_dialogs_callback env logs tgid (Some f) (Some p) t s = Some (?t, concat (map snd rs), ?F s)"
    using page_read [OF assms(3,4), where t = t and s = s] Suc.prems by auto
  have d: "gd_count t + int (length ds) + int k * int (length ds) < page_total p 0"
    "page_total p 0 \<le> gd_count t + int (length ds) + (int k + 1) * int (length ds)"
    using Suc.prems(4,5) by (simp_all add: algebra_simps)
  moreover have "0 \<le> int k * int (length ds)" by simp
  ultimately have "gd_count t + int (length ds) < page_total p 0" by linarith
  then obtain t' where "get_dialogs_loop (k + 2 + n) env g logs tgid asks (Some f) folder_id offset_date limit ?t (?F s) =
      Some (True, t', replicate (Suc k) (dialogs_query g folder_id offset_date limit None), concat (replicate (Suc k) (concat (map snd rs))), (?F ^^ Suc k) (?F s))"
    using Suc.IH [of ?t "?F s"] Suc.prems d by auto
  moreover have "(?F ^^ Suc k) (?F s) = (?F ^^ Suc (Suc k)) s" by (simp add: funpow_swap1)
  ultimately show ?case using c Suc.prems assms(1,5) by (simp add: Let_def)
qed



text \<open>
  An answer that holds no dialogs (an error, \<^verbatim>\<open>messages.dialogsNotModified\<close>) or none at all does not end the loop
  without a limit: whatever the fuel, it has not ended and has sent the query again in every round.
\<close>

theorem dialogs_error_never_ends:
  assumes "\<And>s p. fst (asks (dialogs_query g folder_id offset_date limit hash) s) = Some p \<Longrightarrow>
      o_id p \<noteq> id_messages_dialogs \<and> o_id p \<noteq> id_messages_dialogsSlice" and "limit \<le> 0"
  shows "tg_get_dialogs n env g logs tgid asks cb folder_id offset_date limit hash s =
    Some (False, \<lparr>gd_count = 0, gd_total = 1, gd_hash = hash, gd_stop = False\<rparr>, replicate n (dialogs_query g folder_id offset_date limit hash), [],
      ((\<lambda>s. snd (asks (dialogs_query g folder_id offset_date limit hash) s)) ^^ n) s)"
  unfolding tg_get_dialogs_def
proof (induction n arbitrary: s)
  case 0
  show ?case by simp
next
  case (Suc n)
  let ?q = "dialogs_query g folder_id offset_date limit hash"
  let ?t = "\<lparr>gd_count = 0, gd_total = 1, gd_hash = hash, gd_stop = False\<rparr>"
  obtain r s1 where a: "asks ?q s = (r, s1)" by (cases "asks ?q s")
  have "tg_get_dialogs_callback env logs tgid cb r ?t s1 = Some (?t, [], s1)"
  proof (cases r)
    case (Some p)
    with assms(1) [of s p] a show ?thesis by (simp add: tg_get_dialogs_callback_def tg_dialogs_from_tl_def)
  qed (simp add: tg_get_dialogs_callback_def)
  moreover have "((\<lambda>s. snd (asks ?q s)) ^^ n) s1 = ((\<lambda>s. snd (asks ?q s)) ^^ Suc n) s" using a by (simp only: funpow_Suc_right comp_apply snd_conv)
  ultimately show ?case using a Suc.IH [of s1] assms(2) by (simp add: Let_def del: funpow.simps)
qed

theorem dialogs_error_never_ends_witness:
  "tg_get_dialogs 3 chat_env sample_dialogs False 1 (\<lambda>q s. (Some (TObj 0x2144ca19 (mkbuf []) []), s + 1)) (Some count_dialog) None 0 0 None 0 =
    Some (False, \<lparr>gd_count = 0, gd_total = 1, gd_hash = None, gd_stop = False\<rparr>, replicate 3 (mkbuf (le_bytes 4 (0 :: u32))), [], 3)"
proof -
  let ?ask = "\<lambda>(q :: buf) s :: nat. (Some (TObj 0x2144ca19 (mkbuf []) []), s + 1)"
  have q: "dialogs_query sample_dialogs None 0 0 None = mkbuf (le_bytes 4 (0 :: u32))" by (simp add: dialogs_query_def sample_dialogs_def)
  have "tg_get_dialogs 3 chat_env sample_dialogs False 1 ?ask (Some count_dialog) None 0 0 None 0 =
    Some (False, \<lparr>gd_count = 0, gd_total = 1, gd_hash = None, gd_stop = False\<rparr>, replicate 3 (dialogs_query sample_dialogs None 0 0 None), [],
      ((\<lambda>s. snd (?ask (dialogs_query sample_dialogs None 0 0 None) s)) ^^ 3) 0)"
    by (rule dialogs_error_never_ends) (auto simp: id_messages_dialogs_def id_messages_dialogsSlice_def)
  then show ?thesis unfolding q by (simp add: numeral_3_eq_3)
qed

end
