(* ===== verification/Files.thy ===== *)
theory Files
  imports Peer Base64
begin

text \<open>
  Files, \<^verbatim>\<open>libtg/tg/files.c\<close>: a file is downloaded in parts of at most a megabyte and uploaded in
  parts of half a megabyte.  Generated constructors and fields, the file system and the
  MD5 of OpenSSL are parameters; what the application's callbacks see is recorded.
\<close>

section \<open>Surroundings\<close>

text \<open>The struct \<^verbatim>\<open>tg_file_t\<close> and the fields of \<^verbatim>\<open>upload.file\<close> it is made from.\<close>

record tg_file =
  fi_type :: u32
  fi_mtime :: u32
  fi_bytes :: buf

datatype DOCUMENT_TYPE = DOCUMENT_TYPE_DEFAUL | DOCUMENT_TYPE_PHOTO | DOCUMENT_TYPE_IMAGE | DOCUMENT_TYPE_VIDEO | DOCUMENT_TYPE_AUDIO

text \<open>The struct \<^verbatim>\<open>tg_document_t\<close>: the fields that the upload reads.\<close>

record tg_document =
  do_type :: DOCUMENT_TYPE
  do_filepath :: string
  do_filename :: string
  do_mime_type :: string
  do_force_file :: bool
  do_spoiler :: bool
  do_no_sound_video :: bool
  do_ttl_seconds :: "u32 option"
  do_image_size :: "u32 \<times> u32"
  do_video :: "bool \<times> bool \<times> u64 \<times> u32 \<times> u32 \<times> u32 option \<times> u64 option"
     \<comment> \<open>streaming, no sound, duration, width, height, prefix to load, start\<close>
  do_voice :: bool
  do_audio :: "u64 \<times> string \<times> string \<times> buf option"    \<comment> \<open>duration, title, performer, waveform\<close>
  do_has_stickers :: bool
  do_stickers :: "buf list"

record files_env =
  fe_open :: "string \<Rightarrow> byte list option"      \<comment> \<open>the contents of the file that \<^verbatim>\<open>fopen\<close> finds\<close>
  fe_md5 :: "byte list \<Rightarrow> byte list"
  i_upload_file :: u32
  i_boolTrue :: u32
  i_file_vector :: u32
  o_file :: "tl \<Rightarrow> tg_file"
  g_getFile :: "buf \<Rightarrow> int \<Rightarrow> int \<Rightarrow> buf"
  g_inputPhotoFileLocation :: "u64 \<Rightarrow> u64 \<Rightarrow> buf \<Rightarrow> string \<Rightarrow> buf"
  g_inputPeerPhotoFileLocation :: "bool \<Rightarrow> buf \<Rightarrow> u64 \<Rightarrow> buf"
  g_inputDocumentFileLocation :: "u64 \<Rightarrow> u64 \<Rightarrow> buf \<Rightarrow> string \<Rightarrow> buf"
  g_saveFilePart :: "u64 \<Rightarrow> u32 \<Rightarrow> byte list \<Rightarrow> buf"
  g_saveBigFilePart :: "u64 \<Rightarrow> u32 \<Rightarrow> int \<Rightarrow> byte list \<Rightarrow> buf"
  g_inputFile :: "u64 \<Rightarrow> u32 \<Rightarrow> string \<Rightarrow> string \<Rightarrow> buf"
  g_inputFileBig :: "u64 \<Rightarrow> u32 \<Rightarrow> string \<Rightarrow> buf"
  g_uploadedPhoto :: "tg_document \<Rightarrow> buf \<Rightarrow> buf"
  g_attributeFilename :: "string \<Rightarrow> buf"
  g_attributeHasStickers :: buf
  g_attributeImageSize :: "u32 \<times> u32 \<Rightarrow> buf"
  g_attributeVideo :: "tg_document \<Rightarrow> buf"
  g_attributeAudio :: "tg_document \<Rightarrow> buf"
  g_uploadedDocument :: "tg_document \<Rightarrow> buf \<Rightarrow> buf list \<Rightarrow> buf"
  g_inputMediaContact :: "string \<Rightarrow> string \<Rightarrow> string \<Rightarrow> string \<Rightarrow> buf"
  g_inputGeoPoint :: "u64 \<Rightarrow> u64 \<Rightarrow> buf"
  g_inputMediaGeoPoint :: "buf \<Rightarrow> buf"
  g_sendMedia :: "buf \<Rightarrow> buf \<Rightarrow> string \<Rightarrow> u64 \<Rightarrow> buf"
  g_getFileHashes :: "buf \<Rightarrow> int \<Rightarrow> buf"

text \<open>
  The login with what the callbacks were given: parts of files, progress of uploads, and the
  objects handed to \<^verbatim>\<open>tg_do_updates\<close>.
\<close>

record transfer =
  tr_login :: login
  tr_files :: "tg_file list"
  tr_progress :: "(int \<times> int) list"
  tr_updates :: "tl list"

definition ask_with_progress :: "app \<Rightarrow> login \<Rightarrow> buf \<Rightarrow> (u32 \<Rightarrow> u32 \<Rightarrow> int) option \<Rightarrow> (tl option \<times> login) option" where
  "ask_with_progress app l query progress =
     (case lg_turns l of
        [] \<Rightarrow> None
      | ts # tss \<Rightarrow> do {
          (t, s) \<leftarrow> tg_send_query_sync_with_progress (ap_n app) (ap_fuel app) (ap_world app) ts (lg_sys l) query progress;
          Some (t, l\<lparr>lg_sys := s, lg_turns := tss\<rparr>)
        })"

lemma ask_without_progress: "ask_with_progress app l query None = ask app l query"
  by (simp add: ask_with_progress_def ask_def tg_send_query_def sync_without_progress split: list.split)

section \<open>Download\<close>

definition tg_file_from_tl :: "files_env \<Rightarrow> tl \<Rightarrow> tg_file option" where
  "tg_file_from_tl g t =
     (let uf = o_file g t in do {
        b \<leftarrow> buf_add_buf (fi_bytes uf);
        Some \<lparr>fi_type = fi_type uf, fi_mtime = fi_mtime uf, fi_bytes = b\<rparr>
      })"

text \<open>
  The loop, with fuel for its passes.  The percentage in the log divides by the size;
  the offset wraps around as an \<^verbatim>\<open>int\<close>; the callback sees all parts so far.
\<close>

fun get_file_loop ::
  "nat \<Rightarrow> app \<Rightarrow> files_env \<Rightarrow> (tg_file list \<Rightarrow> int) option \<Rightarrow> (u32 \<Rightarrow> u32 \<Rightarrow> int) option \<Rightarrow> buf \<Rightarrow> int \<Rightarrow> int \<Rightarrow> transfer \<Rightarrow> (int \<times> transfer) option"
where
  "get_file_loop 0 app g callback progress location fsize offset s = None"
| "get_file_loop (Suc k) app g callback progress location fsize offset s =
     (if \<not> (if fsize > 0 then offset < fsize else True) then Some (0, s)
      else if fsize = 0 then None
      else do {
        let getFile = g_getFile g location offset 1048576;
        (t, l) \<leftarrow> ask_with_progress app (tr_login s) getFile progress;
        let s = s\<lparr>tr_login := l\<rparr>;
        (case t of
           None \<Rightarrow> Some (1, s)
         | Some t \<Rightarrow>
             (if tl_id t \<noteq> i_upload_file g then Some (1, s)
              else do {
                file \<leftarrow> tg_file_from_tl g t;
                let offset = sint (word_of_int offset + bsize (fi_bytes file));
                (case callback of
                   None \<Rightarrow> get_file_loop k app g callback progress location fsize offset s
                 | Some f \<Rightarrow>
                     (let s = s\<lparr>tr_files := tr_files s @ [file]\<rparr> in
                      if f (tr_files s) \<noteq> 0 then Some (0, s)
                      else get_file_loop k app g callback progress location fsize offset s))
              }))
      })"


definition tg_get_file_with_progress ::
  "nat \<Rightarrow> app \<Rightarrow> files_env \<Rightarrow> (tg_file list \<Rightarrow> int) option \<Rightarrow> (u32 \<Rightarrow> u32 \<Rightarrow> int) option \<Rightarrow> buf \<Rightarrow> int \<Rightarrow> transfer \<Rightarrow> (int \<times> transfer) option"
where
  "tg_get_file_with_progress k app g callback progress location fsize s = get_file_loop k app g callback progress location fsize 0 s"

definition tg_get_file :: "nat \<Rightarrow> app \<Rightarrow> files_env \<Rightarrow> (tg_file list \<Rightarrow> int) option \<Rightarrow> buf \<Rightarrow> int \<Rightarrow> transfer \<Rightarrow> (int \<times> transfer) option" where
  "tg_get_file k app g callback location fsize s = tg_get_file_with_progress k app g callback None location fsize s"

text \<open>
  The pictures: the first part is all that is read (the callback stops the loop), and the variable
  that the callback sets holds its text form.
\<close>

definition photo_file :: "nat \<Rightarrow> app \<Rightarrow> files_env \<Rightarrow> buf \<Rightarrow> transfer \<Rightarrow> (byte list option \<times> transfer) option" where
  "photo_file k app g location s = do {
     (_, s') \<leftarrow> tg_get_file k app g (Some (\<lambda>_. 1)) location 0 s;
     photo \<leftarrow> (if length (tr_files s') > length (tr_files s) then buf_to_base64 (fi_bytes (last (tr_files s'))) else Some None);
     Some (photo, s')
   }"

definition tg_get_photo_file ::
  "nat \<Rightarrow> app \<Rightarrow> files_env \<Rightarrow> u64 \<Rightarrow> u64 \<Rightarrow> byte list option \<Rightarrow> string \<Rightarrow> transfer \<Rightarrow> (byte list option \<times> transfer) option"
where
  "tg_get_photo_file k app g photo_id access_hash file_reference photo_size s = do {
     fr \<leftarrow> buf_from_base64 file_reference;
     photo_file k app g (g_inputPhotoFileLocation g photo_id access_hash fr photo_size) s
   }"

text \<open>The wish for the big picture is not looked at.\<close>

definition tg_get_peer_photo_file ::
  "nat \<Rightarrow> app \<Rightarrow> files_env \<Rightarrow> peer_schema \<Rightarrow> tg_peer_t \<Rightarrow> bool \<Rightarrow> u64 \<Rightarrow> transfer \<Rightarrow> (byte list option \<times> transfer) option"
where
  "tg_get_peer_photo_file k app g ps peer big_photo photo_id s =
     photo_file k app g (g_inputPeerPhotoFileLocation g True (tg_inputPeer ps peer) photo_id) s"

definition tg_get_document_thumb ::
  "nat \<Rightarrow> app \<Rightarrow> files_env \<Rightarrow> u64 \<Rightarrow> u64 \<Rightarrow> byte list option \<Rightarrow> string \<Rightarrow> transfer \<Rightarrow> (byte list option \<times> transfer) option"
where
  "tg_get_document_thumb k app g ident access_hash file_reference thumb_size s = do {
     fr \<leftarrow> buf_from_base64 file_reference;
     photo_file k app g (g_inputDocumentFileLocation g ident access_hash fr thumb_size) s
   }"

text \<open>The size is a 64-bit number that becomes an \<^verbatim>\<open>int\<close>.\<close>

definition tg_get_document ::
  "nat \<Rightarrow> app \<Rightarrow> files_env \<Rightarrow> u64 \<Rightarrow> u64 \<Rightarrow> u64 \<Rightarrow> byte list option \<Rightarrow> (tg_file list \<Rightarrow> int) option \<Rightarrow>
   (u32 \<Rightarrow> u32 \<Rightarrow> int) option \<Rightarrow> transfer \<Rightarrow> (int \<times> transfer) option"
where
  "tg_get_document k app g ident fsize access_hash file_reference callback progress s = do {
     fr \<leftarrow> buf_from_base64 file_reference;
     tg_get_file_with_progress k app g callback progress (g_inputDocumentFileLocation g ident access_hash fr [])
       (sint (ucast fsize :: u32)) s
   }"

text \<open>The answer is compared with the constructor of a vector, but then the document's number is taken for its address.\<close>

definition tg_get_document_hashes :: "app \<Rightarrow> files_env \<Rightarrow> u64 \<Rightarrow> u64 \<Rightarrow> byte list option \<Rightarrow> login \<Rightarrow> (int \<times> login) option" where
  "tg_get_document_hashes app g ident access_hash file_reference l = do {
     fr \<leftarrow> buf_from_base64 file_reference;
     (t, l) \<leftarrow> ask app l (g_getFileHashes g (g_inputDocumentFileLocation g ident access_hash fr []) 0);
     (case t of
        None \<Rightarrow> Some (0, l)
      | Some t \<Rightarrow> (if tl_id t = i_file_vector g then None else Some (0, l)))
   }"

section \<open>Upload\<close>

definition part_size :: nat where
  "part_size = 524288"

text \<open>\<^verbatim>\<open>buf_free\<close>: the struct keeps its pointer, the memory is gone.\<close>

definition buf_free :: "buf \<Rightarrow> buf" where
  "buf_free b = b\<lparr>bblk := []\<rparr>"

text \<open>One part is sent until the server says \<^verbatim>\<open>boolTrue\<close>; the limit of ten attempts is only logged.\<close>

fun send_part :: "nat \<Rightarrow> app \<Rightarrow> files_env \<Rightarrow> buf \<Rightarrow> login \<Rightarrow> login option" where
  "send_part 0 app g query l = None"
| "send_part (Suc k) app g query l = do {
     (t, l) \<leftarrow> ask app l query;
     (case t of
        None \<Rightarrow> send_part k app g query l
      | Some t \<Rightarrow> (if tl_id t \<noteq> i_boolTrue g then send_part k app g query l else Some l))
   }"

text \<open>
  The two loops over the file: \<open>xs\<close> is what is left to read, \<open>bs\<close> the buffer for a part, \<open>whole\<close> the
  buffer that collects the contents.  In the loop for big files the query is freed
  before it is sent, and the progress can cancel the upload.
\<close>

fun big_parts ::
  "nat \<Rightarrow> nat \<Rightarrow> app \<Rightarrow> files_env \<Rightarrow> (int \<Rightarrow> int \<Rightarrow> int) option \<Rightarrow> u64 \<Rightarrow> int \<Rightarrow> int \<Rightarrow> u32 \<Rightarrow> byte list \<Rightarrow> buf \<Rightarrow> buf \<Rightarrow> transfer \<Rightarrow>
   (bool \<times> u32 \<times> buf \<times> transfer) option"
where
  "big_parts 0 k app g progress file_id fsize parts file_part xs bs whole s = None"
| "big_parts (Suc n) k app g progress file_id fsize parts file_part xs bs whole s =
     (let len = min part_size (length xs) in
      if len = 0 then Some (True, file_part, whole, s)
      else do {
        blk \<leftarrow> copy_loop len (bblk bs) (bdata bs) xs 0;
        let bs = bs\<lparr>bblk := blk, bsize := of_nat len\<rparr>;
        whole \<leftarrow> buf_cat whole bs;
        content \<leftarrow> mem_read (bblk bs) (bdata bs) len;
        let saveFilePart = buf_free (g_saveBigFilePart g file_id file_part parts content);
        l \<leftarrow> send_part k app g saveFilePart (tr_login s);
        let s = s\<lparr>tr_login := l\<rparr>;
        (case progress of
           None \<Rightarrow> big_parts n k app g progress file_id fsize parts (file_part + 1) (drop len xs) bs whole s
         | Some f \<Rightarrow>
             (let s = s\<lparr>tr_progress := tr_progress s @ [(int len, fsize)]\<rparr> in
              if f (int len) fsize \<noteq> 0 then Some (False, file_part, whole, s)
              else big_parts n k app g progress file_id fsize parts (file_part + 1) (drop len xs) bs whole s))
      })"

fun small_parts ::
  "nat \<Rightarrow> nat \<Rightarrow> app \<Rightarrow> files_env \<Rightarrow> (int \<Rightarrow> int \<Rightarrow> int) option \<Rightarrow> u64 \<Rightarrow> int \<Rightarrow> u32 \<Rightarrow> byte list \<Rightarrow> buf \<Rightarrow> buf \<Rightarrow> transfer \<Rightarrow>
   (u32 \<times> buf \<times> transfer) option"
where
  "small_parts 0 k app g progress file_id fsize file_part xs bs whole s = None"
| "small_parts (Suc n) k app g progress file_id fsize file_part xs bs whole s =
     (let len = min part_size (length xs) in
      if len = 0 then Some (file_part, whole, s)
      else do {
        blk \<leftarrow> copy_loop len (bblk bs) (bdata bs) xs 0;
        let bs = bs\<lparr>bblk := blk, bsize := of_nat len\<rparr>;
        whole \<leftarrow> buf_cat whole bs;
        content \<leftarrow> mem_read (bblk bs) (bdata bs) len;
        let saveFilePart = g_saveFilePart g file_id file_part content;
        l \<leftarrow> send_part k app g saveFilePart (tr_login s);
        let s = s\<lparr>tr_login := l\<rparr>;
        let s = (case progress of None \<Rightarrow> s | Some f \<Rightarrow> s\<lparr>tr_progress := tr_progress s @ [(int len, fsize)]\<rparr>);
        small_parts n k app g progress file_id fsize (file_part + 1) (drop len xs) bs whole s
      })"

text \<open>
  The checksum as text: \<^verbatim>\<open>sprintf(s, "%s%02x", s, ...)\<close> for every byte.  Source and target are the same
  array; the text is taken to stay in place, as the C libraries do.
\<close>

definition hex2 :: "byte \<Rightarrow> string" where
  "hex2 b = [hexdigit (unat b div 16), hexdigit (unat b mod 16)]"

definition md5_text :: "byte list \<Rightarrow> string" where
  "md5_text md5 = concat (map hex2 md5)"

definition document_attrs :: "files_env \<Rightarrow> tg_document \<Rightarrow> buf list" where
  "document_attrs g d =
     (if do_filename d \<noteq> [] then [g_attributeFilename g (do_filename d)] else []) @
     (if do_has_stickers d then [g_attributeHasStickers g] else []) @
     (case do_type d of
        DOCUMENT_TYPE_IMAGE \<Rightarrow> [g_attributeImageSize g (do_image_size d)]
      | DOCUMENT_TYPE_VIDEO \<Rightarrow> [g_attributeVideo g d]
      | DOCUMENT_TYPE_AUDIO \<Rightarrow> [g_attributeAudio g d]
      | _ \<Rightarrow> [])"

definition document_media :: "files_env \<Rightarrow> tg_document \<Rightarrow> buf \<Rightarrow> buf" where
  "document_media g d inputFile =
     (if do_type d = DOCUMENT_TYPE_PHOTO then g_uploadedPhoto g d inputFile
      else g_uploadedDocument g d inputFile (document_attrs g d))"

text \<open>A number from eight random bytes; the time is read once for it.\<close>

definition random_id :: "app \<Rightarrow> login \<Rightarrow> (u64 \<times> login) option" where
  "random_id app l = do {
     let (now, tg) = now_seconds (w_env (ap_world app)) (lg_tg l);
     b \<leftarrow> buf_rand (e_rnd (w_env (ap_world app))) now 8;
     v \<leftarrow> buf_get_ui64 b;
     Some (v, set_client (\<lambda>_. tg) l)
   }"

definition tg_document_send ::
  "nat \<Rightarrow> nat \<Rightarrow> app \<Rightarrow> files_env \<Rightarrow> peer_schema \<Rightarrow> tg_peer_t \<Rightarrow> tg_document \<Rightarrow> string \<Rightarrow> (int \<Rightarrow> int \<Rightarrow> int) option \<Rightarrow> transfer \<Rightarrow>
   (int \<times> transfer) option"
where
  "tg_document_send n k app g ps peer document message progress s =
     (if do_filepath document = [] then None
      else case fe_open g (do_filepath document) of
        None \<Rightarrow> Some (1, s)
      | Some contents \<Rightarrow> do {
          let fsize = sint (of_nat (length contents) :: u32);
          (file_id, l) \<leftarrow> random_id app (tr_login s);
          let s = s\<lparr>tr_login := l\<rparr>;
          if fsize > 10485760 \<and> do_filename document = [] then Some (1, s)
          else do {
            (_, bs) \<leftarrow> buf_realloc malloc_ok buf_new (of_nat part_size);
            (going, file_part, whole, s) \<leftarrow>
              (if fsize > 10485760 then
                 big_parts n k app g progress file_id fsize
                   (fsize div int part_size + (if fsize mod int part_size = 0 then 0 else 1)) 0 contents bs buf_new s
               else map_option (Pair True) (small_parts n k app g progress file_id fsize 0 contents bs buf_new s));
            if \<not> going then Some (1, s)
            else do {
              content \<leftarrow> mem_read (bblk whole) (bdata whole) (unat (bsize whole));
              let md5_checksum = md5_text (fe_md5 g content);
              let inputFile = (if fsize > 10485760 then g_inputFileBig g file_id file_part (do_filename document)
                               else g_inputFile g file_id file_part (do_filename document) md5_checksum);
              let media = document_media g document inputFile;
              (r, l) \<leftarrow> random_id app (tr_login s);
              (t, l) \<leftarrow> ask app l (g_sendMedia g (tg_inputPeer ps peer) media message r);
              let s = s\<lparr>tr_login := l\<rparr>;
              (case t of None \<Rightarrow> Some (1, s) | Some t \<Rightarrow> Some (0, s\<lparr>tr_updates := tr_updates s @ [t]\<rparr>))
            }
          }
        })"

text \<open>Sending a contact or a place: one query, whose answer is only tested for being an error.\<close>

definition send_media :: "app \<Rightarrow> files_env \<Rightarrow> peer_schema \<Rightarrow> tg_peer_t \<Rightarrow> buf \<Rightarrow> string \<Rightarrow> login \<Rightarrow> (int \<times> login) option" where
  "send_media app g ps peer media message l = do {
     (r, l) \<leftarrow> random_id app l;
     (t, l) \<leftarrow> ask app l (g_sendMedia g (tg_inputPeer ps peer) media message r);
     (case t of
        None \<Rightarrow> Some (1, l)
      | Some (Rpc_error _ _ _) \<Rightarrow> Some (1, l)
      | Some _ \<Rightarrow> Some (0, l))
   }"

definition tg_contact_send ::
  "app \<Rightarrow> files_env \<Rightarrow> peer_schema \<Rightarrow> tg_peer_t \<Rightarrow> string \<Rightarrow> string \<Rightarrow> string \<Rightarrow> string \<Rightarrow> string \<Rightarrow> login \<Rightarrow> (int \<times> login) option"
where
  "tg_contact_send app g ps peer phone first_name last_name vcard message l =
     send_media app g ps peer (g_inputMediaContact g phone first_name last_name vcard) message l"

definition tg_send_geopoint :: "app \<Rightarrow> files_env \<Rightarrow> peer_schema \<Rightarrow> tg_peer_t \<Rightarrow> u64 \<Rightarrow> u64 \<Rightarrow> string \<Rightarrow> login \<Rightarrow> (int \<times> login) option" where
  "tg_send_geopoint app g ps peer lat lon message l =
     send_media app g ps peer (g_inputMediaGeoPoint g (g_inputGeoPoint g lat lon)) message l"

text \<open>The three constructors of a document; the arrays are filled with zeros and cut off what is too long.\<close>

definition no_document :: tg_document where
  "no_document = \<lparr>do_type = DOCUMENT_TYPE_DEFAUL, do_filepath = [], do_filename = [], do_mime_type = [], do_force_file = False,
     do_spoiler = False, do_no_sound_video = False, do_ttl_seconds = None, do_image_size = (0, 0),
     do_video = (False, False, 0, 0, 0, None, None), do_voice = False, do_audio = (0, [], [], None), do_has_stickers = False,
     do_stickers = []\<rparr>"

definition tg_document_new :: "string \<Rightarrow> string \<Rightarrow> string \<Rightarrow> tg_document" where
  "tg_document_new filepath filename mime_type = no_document\<lparr>do_filepath := take (BUFSIZ - 1) filepath, do_mime_type := take 255 mime_type,
     do_filename := take 255 filename, do_type := DOCUMENT_TYPE_DEFAUL\<rparr>"

definition tg_photo :: "string \<Rightarrow> tg_document" where
  "tg_photo filepath = no_document\<lparr>do_filepath := take (BUFSIZ - 1) filepath, do_type := DOCUMENT_TYPE_PHOTO\<rparr>"

definition tg_voice_message :: "string \<Rightarrow> tg_document" where
  "tg_voice_message filepath = no_document\<lparr>do_mime_type := ''audio/ogg'', do_filepath := take (BUFSIZ - 1) filepath,
     do_type := DOCUMENT_TYPE_AUDIO, do_voice := True\<rparr>"

end
