(* ===== verification/File_Props.thy ===== *)
theory File_Props
  imports Files
begin

text \<open>
  What downloads and uploads do: a download hands out the whole file, a small file is uploaded in
  the parts that the server expects; and where the code fails.
\<close>

section \<open>Download\<close>

text \<open>A server that answers every request for a part of \<open>c\<close> with some bytes of it, from the offset on.\<close>

inductive serves ::
  "app \<Rightarrow> files_env \<Rightarrow> (u32 \<Rightarrow> u32 \<Rightarrow> int) option \<Rightarrow> buf \<Rightarrow> byte list \<Rightarrow> nat \<Rightarrow> login \<Rightarrow> login \<Rightarrow> bool"
  for app g progress loc c
where
  serves_end: "serves app g progress loc c (length c) l l"
| serves_part: "ask_with_progress app l (g_getFile g loc (int off) 1048576) progress = Some (Some t, l1) \<Longrightarrow>
     tl_id t = i_upload_file g \<Longrightarrow> readable (fi_bytes (o_file g t)) \<Longrightarrow> bytes (fi_bytes (o_file g t)) = take n (drop off c) \<Longrightarrow>
     0 < n \<Longrightarrow> off + n \<le> length c \<Longrightarrow> serves app g progress loc c (off + n) l1 l2 \<Longrightarrow> serves app g progress loc c off l l2"

lemma serves_bound: "serves app g progress loc c off l l2 \<Longrightarrow> off \<le> length c"
  by (induction rule: serves.induct) auto

lemma offset_step:
  assumes "off + n < 2 ^ 31" and "unat b = n"
  shows "sint (word_of_int (int off) + b :: u32) = int (off + n)"
proof -
  have b: "b = of_nat n" using assms(2) by auto
  have "word_of_int (int off) + b = (of_nat (off + n) :: u32)" by (simp add: b)
  moreover have "sint (of_nat (off + n) :: u32) = int (off + n)"
  proof -
    have "unat (of_nat (off + n) :: u32) = off + n" using assms(1) by (simp only: unat_of_nat) simp
    then show ?thesis using sint_small [of "of_nat (off + n)"] assms(1) by (simp only:)
  qed
  ultimately show ?thesis by simp
qed

lemma file_of_part:
  assumes "readable (fi_bytes (o_file g t))" and "unat (bsize (fi_bytes (o_file g t))) < 2 ^ 31"
  shows "tg_file_from_tl g t = Some ((o_file g t)\<lparr>fi_bytes := mkbuf (bytes (fi_bytes (o_file g t)))\<rparr>)"
proof -
  let ?b = "fi_bytes (o_file g t)"
  have "buf_add_buf ?b = Some (mkbuf (bytes ?b))"
    using buf_add_part [OF assms(1), of 0 "bsize ?b"] assms by (simp add: buf_add_buf_def substr_def fits_def)
  then show ?thesis by (cases "o_file g t") (simp add: tg_file_from_tl_def)
qed

lemma get_file_serves:
  assumes "serves app g progress loc c off l l2" and "length c < 2 ^ 31" "0 < length c" and "\<forall>fs. f fs = 0"
    and "length c - off < k" and "tr_login s = l"
  shows "\<exists>fs. get_file_loop k app g (Some f) progress loc (int (length c)) (int off) s =
       Some (0, s\<lparr>tr_login := l2, tr_files := tr_files s @ fs\<rparr>) \<and> concat (map (\<lambda>f. bytes (fi_bytes f)) fs) = drop off c"
  using assms(1,5,6)
proof (induction arbitrary: k s rule: serves.induct)
  case (serves_end l)
  then obtain k' where "k = Suc k'" by (cases k) auto
  with serves_end assms(3) show ?case by (intro exI [of _ "[]"]) auto
next
  case (serves_part l off t l1 n l2)
  obtain k' where k: "k = Suc k'" using serves_part.prems by (cases k) auto
  let ?b = "fi_bytes (o_file g t)"
  have n: "unat (bsize ?b) = n" "length (bytes ?b) = n"
    using length_bytes [OF serves_part.hyps(3)] serves_part.hyps(4,6) by (simp_all add: min_absorb2)
  let ?f = "(o_file g t)\<lparr>fi_bytes := mkbuf (bytes ?b)\<rparr>"
  let ?s = "s\<lparr>tr_login := l1, tr_files := tr_files s @ [?f]\<rparr>"
  have fl: "tg_file_from_tl g t = Some ?f" using file_of_part [OF serves_part.hyps(3)] n serves_part.hyps(6) assms(2) by simp
  have fb: "bytes (mkbuf (bytes ?b)) = take n (drop off c)"
    using n serves_part.hyps(4,6) assms(2) by (simp add: fits_def)
  have o: "sint (word_of_int (int off) + (of_nat n :: u32)) = int (off + n)"
    using offset_step [of off n "of_nat n"] serves_part.hyps(6) assms(2) by (simp add: unat_of_nat)
  have "get_file_loop k app g (Some f) progress loc (int (length c)) (int off) s =
      get_file_loop k' app g (Some f) progress loc (int (length c)) (int (off + n)) ?s"
    using k fl o n serves_part.hyps serves_part.prems(2) assms(3,4) by simp
  moreover have b: "length c - (off + n) < k'" using serves_part.prems(1) serves_part.hyps(5,6) k by linarith
  moreover obtain fs where "get_file_loop k' app g (Some f) progress loc (int (length c)) (int (off + n)) ?s =
       Some (0, ?s\<lparr>tr_login := l2, tr_files := tr_files ?s @ fs\<rparr>)" "concat (map (\<lambda>f. bytes (fi_bytes f)) fs) = drop (off + n) c"
    using serves_part.IH [OF b, of ?s] by auto
  moreover have "take n (drop off c) @ drop (off + n) c = drop off c"
    by (metis add.commute append_take_drop_id drop_drop)
  ultimately show ?case using fb by (intro exI [of _ "?f # fs"]) simp
qed

text \<open>
  C12: A download ends and is complete: when the server answers every request with at least one byte of
  the file from the requested offset on, the loop makes no more passes than the file has bytes, returns
  success, and the parts that the callback was given make up the file.
\<close>

theorem download_complete:
  assumes "serves app g progress loc c 0 (tr_login s) l" and "length c < 2 ^ 31" "0 < length c" and "\<forall>fs. f fs = 0"
    and "length c < k"
  shows "\<exists>fs. tg_get_file_with_progress k app g (Some f) progress loc (int (length c)) s =
       Some (0, s\<lparr>tr_login := l, tr_files := tr_files s @ fs\<rparr>) \<and> concat (map (\<lambda>f. bytes (fi_bytes f)) fs) = c"
  using get_file_serves [OF assms(1-4), of k s] assms(5) by (simp add: tg_get_file_with_progress_def)

text \<open>A server that keeps answering with empty parts.\<close>

fun stalls :: "nat \<Rightarrow> app \<Rightarrow> files_env \<Rightarrow> (u32 \<Rightarrow> u32 \<Rightarrow> int) option \<Rightarrow> buf \<Rightarrow> int \<Rightarrow> login \<Rightarrow> bool" where
  "stalls 0 app g progress loc off l \<longleftrightarrow> True"
| "stalls (Suc k) app g progress loc off l \<longleftrightarrow>
     (\<exists>t l1. ask_with_progress app l (g_getFile g loc off 1048576) progress = Some (Some t, l1) \<and> tl_id t = i_upload_file g \<and>
        readable (fi_bytes (o_file g t)) \<and> bsize (fi_bytes (o_file g t)) = 0 \<and> stalls k app g progress loc off l1)"

lemma stalls_loop:
  "stalls k app g progress loc (int off) (tr_login s) \<Longrightarrow> int off < fsize \<Longrightarrow> off < 2 ^ 31 \<Longrightarrow> \<forall>fs. f fs = 0 \<Longrightarrow>
   get_file_loop k app g (Some f) progress loc fsize (int off) s = None"
proof (induction k arbitrary: s)
  case (Suc k)
  then obtain t l1 where t: "ask_with_progress app (tr_login s) (g_getFile g loc (int off) 1048576) progress = Some (Some t, l1)"
      "tl_id t = i_upload_file g" "readable (fi_bytes (o_file g t))" "bsize (fi_bytes (o_file g t)) = 0" "stalls k app g progress loc (int off) l1"
    by auto
  have "length (bytes (fi_bytes (o_file g t))) = 0" using length_bytes [OF t(3)] t(4) by simp
  moreover have "sint (word_of_int (int off) + 0 :: u32) = int off" using offset_step [of off 0 0] Suc.prems(3) by simp
  ultimately show ?case using t file_of_part [OF t(3)] Suc by auto
qed simp

text \<open>
  A download does not end when parts come back empty (a file that is shorter than announced): after
  any number of such answers the loop is still asking for the same offset.
\<close>

theorem empty_parts_never_end:
  assumes "stalls k app g progress loc 0 (tr_login s)" and "0 < fsize" and "\<forall>fs. f fs = 0"
  shows "tg_get_file_with_progress k app g (Some f) progress loc fsize s = None"
  using stalls_loop [of k app g progress loc 0 s fsize f] assms by (simp add: tg_get_file_with_progress_def)

text \<open>
  A picture is requested with the size 0, and the message that the loop prints first divides by the
  size: whatever the server does, the call is undefined.
\<close>

theorem photo_download_undefined:
  "tg_get_photo_file k app g photo_id access_hash file_reference photo_size s = None"
  "tg_get_peer_photo_file k app g ps peer big_photo photo_id s = None"
  "tg_get_document_thumb k app g ident access_hash file_reference thumb_size s = None"
proof -
  have "photo_file k app g loc s = None" for loc
    by (cases k) (simp_all add: photo_file_def tg_get_file_def tg_get_file_with_progress_def)
  then show "tg_get_photo_file k app g photo_id access_hash file_reference photo_size s = None"
    "tg_get_peer_photo_file k app g ps peer big_photo photo_id s = None"
    "tg_get_document_thumb k app g ident access_hash file_reference thumb_size s = None"
    by (simp_all add: tg_get_photo_file_def tg_get_peer_photo_file_def tg_get_document_thumb_def)
qed

section \<open>Upload\<close>

text \<open>The parts of a file: all of the same size, except for the last.\<close>

function file_parts :: "byte list \<Rightarrow> byte list list" where
  "file_parts xs = (if xs = [] then [] else take part_size xs # file_parts (drop part_size xs))"
  by pat_completeness auto
termination
  by (relation "measure length") (auto simp: part_size_def)

declare file_parts.simps [simp del]

lemma concat_file_parts: "concat (file_parts xs) = xs"
  by (induction xs rule: file_parts.induct) (subst file_parts.simps, auto)

lemma butlast_file_parts: "p \<in> set (butlast (file_parts xs)) \<Longrightarrow> length p = part_size"
proof (induction xs rule: file_parts.induct)
  case (1 xs)
  show ?case
  proof (cases "xs = [] \<or> drop part_size xs = []")
    case True
    with 1 show ?thesis by (subst (asm) (2) file_parts.simps) (auto simp: file_parts.simps [of "[]"] split: if_splits)
  next
    case False
    then have "file_parts (drop part_size xs) \<noteq> []" by (subst file_parts.simps) simp
    with 1 False show ?thesis by (subst (asm) (2) file_parts.simps) (auto split: if_splits)
  qed
qed

lemma length_file_parts: "length (file_parts xs) = (length xs + (part_size - 1)) div part_size"
proof (induction xs rule: file_parts.induct)
  case (1 xs)
  show ?case
  proof (cases "xs = []")
    case False
    then have "length (file_parts xs) = Suc ((length xs - part_size + (part_size - 1)) div part_size)"
      using 1 by (subst file_parts.simps) simp
    also have "\<dots> = (length xs + (part_size - 1)) div part_size"
      using False by (cases "part_size \<le> length xs") (simp_all add: part_size_def div_if)
    finally show ?thesis .
  qed (simp add: file_parts.simps part_size_def)
qed

definition part_queries :: "files_env \<Rightarrow> u64 \<Rightarrow> u32 \<Rightarrow> byte list \<Rightarrow> buf list" where
  "part_queries g file_id i xs = map (\<lambda>(j, p). g_saveFilePart g file_id (i + of_nat j) p) (enumerate 0 (file_parts xs))"

text \<open>A server that accepts these queries, one after the other.\<close>

fun accepts :: "app \<Rightarrow> files_env \<Rightarrow> buf list \<Rightarrow> login \<Rightarrow> login \<Rightarrow> bool" where
  "accepts app g [] l l' \<longleftrightarrow> l' = l"
| "accepts app g (q # qs) l l' \<longleftrightarrow> (\<exists>t l1. ask app l q = Some (Some t, l1) \<and> tl_id t = i_boolTrue g \<and> accepts app g qs l1 l')"

lemma part_queries_step:
  "xs \<noteq> [] \<Longrightarrow> part_queries g file_id i xs = g_saveFilePart g file_id i (take part_size xs) # part_queries g file_id (i + 1) (drop part_size xs)"
  unfolding part_queries_def
  by (subst file_parts.simps) (simp add: enumerate_Suc_eq o_def case_prod_beta ac_simps)

lemma part_queries_Nil [simp]: "part_queries g file_id i [] = []"
  by (simp add: part_queries_def file_parts.simps)

text \<open>Between two parts the buffer keeps its room, and what it held.\<close>

definition part_buffer :: "buf \<Rightarrow> bool" where
  "part_buffer bs \<longleftrightarrow> bdata bs = 0 \<and> part_size \<le> length (bblk bs)"

lemma small_parts_accepted:
  assumes "accepts app g (part_queries g file_id i xs) (tr_login s) l" and "length ys + length xs < 2 ^ 31" and "part_buffer bs"
    and "length (file_parts xs) < n"
  shows "\<exists>ps. small_parts n (Suc k) app g progress file_id fsize i xs bs (mkbuf ys) s =
     Some (i + of_nat (length (file_parts xs)), mkbuf (ys @ xs), s\<lparr>tr_login := l, tr_progress := tr_progress s @ ps\<rparr>) \<and>
     (if progress = None then ps = [] else map fst ps = map (\<lambda>p. int (length p)) (file_parts xs))"
  using assms
proof (induction xs arbitrary: i s ys bs n rule: file_parts.induct)
  case (1 xs)
  obtain n' where n: "n = Suc n'" using 1(5) by (cases n) auto
  show ?case
  proof (cases "xs = []")
    case True
    with 1 n show ?thesis by (intro exI [of _ "[]"]) (simp add: file_parts.simps)
  next
    case False
    define p where "p = take part_size xs"
    let ?r = "drop part_size xs"
    have len: "min part_size (length xs) = length p" "length p \<noteq> 0" "length p \<le> part_size" using False by (auto simp: part_size_def p_def)
    obtain t l1 where a: "ask app (tr_login s) (g_saveFilePart g file_id i p) = Some (Some t, l1)" "tl_id t = i_boolTrue g"
        "accepts app g (part_queries g file_id (i + 1) ?r) l1 l"
      using 1(2) False by (auto simp: part_queries_step p_def)
    let ?blk = "p @ drop (length p) (bblk bs)"
    let ?bs = "bs\<lparr>bblk := ?blk, bsize := of_nat (length p)\<rparr>"
    have td: "take (length p) xs = p" "drop (length p) xs = ?r" by (simp_all add: min_def p_def)
    have cp: "copy_loop (length p) (bblk bs) (bdata bs) xs 0 = Some ?blk"
      using 1(4) len td(1) by (subst copy_loop_eq) (auto simp: part_buffer_def)
    have lb: "length ?blk = length (bblk bs)" using 1(4) len(3) by (simp add: part_buffer_def)
    have fp: "unat (of_nat (length p) :: u32) = length p" using len(3) by (intro unat_of_nat_fits) (simp add: fits_def part_size_def)
    have rd: "readable ?bs" "bytes ?bs = p" "bdata ?bs = 0" "unat (bsize ?bs) = length p"
      using 1(4) fp by (simp_all add: readable_def bytes_def part_buffer_def)
    have ca: "buf_cat (mkbuf ys) ?bs = Some (mkbuf (ys @ p))"
      using buf_cat_mkbuf [OF rd(1), of ys] rd 1(3) len(1) by (simp add: fits_def)
    have mr: "mem_read ?blk 0 (length p) = Some p" by (simp add: mem_read_def)
    have pb: "part_buffer ?bs" using 1(4) lb by (simp add: part_buffer_def)
    let ?s = "(case progress of None \<Rightarrow> s\<lparr>tr_login := l1\<rparr> | Some f \<Rightarrow> s\<lparr>tr_login := l1, tr_progress := tr_progress s @ [(int (length p), fsize)]\<rparr>)"
    have lf: "length (file_parts xs) = Suc (length (file_parts ?r))" using False by (subst file_parts.simps) simp
    have st: "small_parts n (Suc k) app g progress file_id fsize i xs bs (mkbuf ys) s =
        small_parts n' (Suc k) app g progress file_id fsize (i + 1) ?r ?bs (mkbuf (ys @ p)) ?s"
      using n len(2) cp ca mr a(1,2) td rd(3) 1(4) unfolding n small_parts.simps Let_def len(1)
      by (cases progress) (simp_all add: part_buffer_def)
    obtain ps where ps: "small_parts n' (Suc k) app g progress file_id fsize (i + 1) ?r ?bs (mkbuf (ys @ p)) ?s =
        Some (i + 1 + of_nat (length (file_parts ?r)), mkbuf ((ys @ p) @ ?r), ?s\<lparr>tr_login := l, tr_progress := tr_progress ?s @ ps\<rparr>)"
        "if progress = None then ps = [] else map fst ps = map (\<lambda>p. int (length p)) (file_parts ?r)"
    proof -
      have "tr_login ?s = l1" by (simp split: option.split)
      moreover have "length (ys @ p) + length ?r < 2 ^ 31" using 1(3) by (simp add: p_def)
      ultimately show ?thesis using 1(1) [OF False, of "i + 1" ?s "ys @ p" ?bs n'] a(3) pb lf 1(5) n that by auto
    qed
    have fq: "file_parts xs = p # file_parts ?r" "p @ ?r = xs" using False by (subst file_parts.simps) (simp_all add: p_def)
    show ?thesis
    proof (cases progress)
      case None
      with ps lf show ?thesis using st fq by (intro exI [of _ "[]"]) (simp add: ac_simps)
    next
      case (Some f)
      with ps lf show ?thesis using st fq by (intro exI [of _ "(int (length p), fsize) # ps"]) (simp add: ac_simps)
    qed
  qed
qed

lemma part_buffer_new: "\<exists>bs. buf_realloc malloc_ok buf_new (of_nat part_size) = Some (0, bs) \<and> part_buffer bs"
  by (simp add: buf_realloc_def malloc_ok_def mkbuf_def Let_def part_size_def BUFSIZ_def part_buffer_def)

text \<open>
  C13: A file of up to ten megabytes is uploaded as the protocol wants it: the queries that the server has to
  accept carry the parts of the file in order, numbered from 0, all of 512 kilobytes except for
  the last; then the message with the media names the file by its identifier, the number
  of parts and the checksum of the contents, and the answer goes to the updates.
\<close>

theorem upload_small_file:
  assumes "do_filepath d \<noteq> []" and "fe_open g (do_filepath d) = Some c" "length c \<le> 10485760"
    and "random_id app (tr_login s) = Some (file_id, l1)" and "accepts app g (part_queries g file_id 0 c) l1 l2"
    and "random_id app l2 = Some (r, l3)"
    and "ask app l3 (g_sendMedia g (tg_inputPeer ps peer)
       (document_media g d (g_inputFile g file_id (of_nat (length (file_parts c))) (do_filename d) (md5_text (fe_md5 g c)))) message r) = Some (Some t, l4)"
    and "length (file_parts c) < n"
  shows "\<exists>qs. tg_document_send n (Suc k) app g ps peer d message progress s =
       Some (0, s\<lparr>tr_login := l4, tr_progress := tr_progress s @ qs, tr_updates := tr_updates s @ [t]\<rparr>) \<and>
     concat (file_parts c) = c \<and> (\<forall>p \<in> set (butlast (file_parts c)). length p = 524288) \<and>
     length (file_parts c) = (length c + 524287) div 524288"
proof -
  obtain bs where bs: "buf_realloc malloc_ok buf_new (of_nat part_size) = Some (0, bs)" "part_buffer bs" using part_buffer_new by blast
  have fs: "sint (of_nat (length c) :: u32) = int (length c)"
  proof -
    have "unat (of_nat (length c) :: u32) = length c" using assms(3) by (intro unat_of_nat_fits) (simp add: fits_def)
    then show ?thesis using sint_small [of "of_nat (length c)"] assms(3) by simp
  qed
  have "accepts app g (part_queries g file_id 0 c) (tr_login (s\<lparr>tr_login := l1\<rparr>)) l2" using assms(5) by simp
  from small_parts_accepted [OF this, of "[]" bs n k progress "int (length c)"] bs(2) assms(3,8)
  obtain qs where q: "small_parts n (Suc k) app g progress file_id (int (length c)) 0 c bs (mkbuf []) (s\<lparr>tr_login := l1\<rparr>) =
      Some (of_nat (length (file_parts c)), mkbuf c, s\<lparr>tr_login := l2, tr_progress := tr_progress s @ qs\<rparr>)"
    by auto
  have m: "mem_read (bblk (mkbuf c)) 0 (length c) = Some c" "unat (bsize (mkbuf c)) = length c"
    using assms(3) by (simp_all add: mem_read_mkbuf fits_def)
  have "tg_document_send n (Suc k) app g ps peer d message progress s =
       Some (0, s\<lparr>tr_login := l4, tr_progress := tr_progress s @ qs, tr_updates := tr_updates s @ [t]\<rparr>)"
    using assms(1,2,3,4,6,7) bs(1) q m by (simp add: tg_document_send_def fs Let_def)
  then show ?thesis
    using concat_file_parts butlast_file_parts length_file_parts by (intro exI [of _ qs]) (simp add: part_size_def)
qed

text \<open>
  A file of more than ten megabytes cannot be uploaded: the query with its first part is freed before
  it is sent.
\<close>

lemma freed_query_undefined: "bsize q \<noteq> 0 \<Longrightarrow> ask app l (buf_free q) = None"
proof -
  assume "bsize q \<noteq> 0"
  then have "buf_add_buf (buf_free q) = None"
    by (simp add: buf_add_buf_def buf_add_def buf_free_def copy_loop_None unat_gt_0 split: Option.bind_split)
  then have "tg_send_query_async w s (buf_free q) m cb p = None" for w s m cb p
    by (simp add: tg_send_query_async_def tg_queue_new_def)
  then show ?thesis by (simp add: ask_def tg_send_query_def tg_send_query_sync_def split: list.split)
qed

theorem upload_big_file_undefined:
  assumes "do_filepath d \<noteq> []" and "do_filename d \<noteq> []" and "fe_open g (do_filepath d) = Some c"
    and "10485760 < length c" "length c < 2 ^ 31" and "\<forall>i j p q. bsize (g_saveBigFilePart g i j p q) \<noteq> 0"
  shows "tg_document_send n k app g ps peer d message progress s = None"
proof -
  have u: "unat (of_nat (length c) :: u32) = length c" using assms(5) by (intro unat_of_nat_fits) (simp add: fits_def)
  then have fs: "sint (of_nat (length c) :: u32) = int (length c)" using sint_small [of "of_nat (length c)"] assms(5) by simp
  have sp: "send_part k app g (buf_free (g_saveBigFilePart g i j p q)) l = None" for i j p q l
    using assms(6) freed_query_undefined by (cases k) simp_all
  have "min part_size (length c) \<noteq> 0" using assms(4) by (simp add: part_size_def)
  then have "big_parts n k app g progress i z p j c bs whole s' = None" for i z p j bs whole s'
    by (cases n) (simp_all add: sp Let_def split: Option.bind_split)
  then show ?thesis using assms(1,2,3,4) by (auto simp: tg_document_send_def fs Let_def split: Option.bind_split)
qed

section \<open>Sample transfers\<close>

definition sample_files :: "byte list \<Rightarrow> byte list \<Rightarrow> files_env" where
  "sample_files contents part = \<lparr>fe_open = (\<lambda>_. Some contents), fe_md5 = (\<lambda>xs. replicate 16 (of_nat (length xs))),
     i_upload_file = 2, i_boolTrue = 2, i_file_vector = 4, o_file = (\<lambda>_. \<lparr>fi_type = 1, fi_mtime = 2, fi_bytes = mkbuf part\<rparr>),
     g_getFile = (\<lambda>loc off lim. mkbuf [9, 0, 0, 1]), g_inputPhotoFileLocation = (\<lambda>i h r t. r), g_inputPeerPhotoFileLocation = (\<lambda>b p i. p),
     g_inputDocumentFileLocation = (\<lambda>i h r t. r), g_saveFilePart = (\<lambda>i j xs. mkbuf [10, 0, 0, 1]),
     g_saveBigFilePart = (\<lambda>i j n xs. mkbuf [11, 0, 0, 1]), g_inputFile = (\<lambda>i n name sum. mkbuf (le_bytes 4 n)),
     g_inputFileBig = (\<lambda>i n name. mkbuf (le_bytes 4 n)), g_uploadedPhoto = (\<lambda>d f. f), g_attributeFilename = (\<lambda>n. mkbuf (str_bytes n)),
     g_attributeHasStickers = mkbuf [], g_attributeImageSize = (\<lambda>_. mkbuf []), g_attributeVideo = (\<lambda>_. mkbuf []),
     g_attributeAudio = (\<lambda>_. mkbuf []), g_uploadedDocument = (\<lambda>d f as. f), g_inputMediaContact = (\<lambda>p f l v. mkbuf (str_bytes p)),
     g_inputGeoPoint = (\<lambda>x y. mkbuf (le_bytes 8 x)), g_inputMediaGeoPoint = (\<lambda>p. p), g_sendMedia = (\<lambda>p m t r. mkbuf [12, 0, 0, 1]),
     g_getFileHashes = (\<lambda>l o'. l)\<rparr>"

definition sample_transfer :: "login \<Rightarrow> transfer" where
  "sample_transfer l = \<lparr>tr_login = l, tr_files = [], tr_progress = [], tr_updates = []\<rparr>"

theorem download_complete_witness:
  "\<exists>l fs. tg_get_file_with_progress 4 (sample_app None) (sample_files [] [7, 8, 9]) (Some (\<lambda>_. 0)) None (mkbuf []) 3 (sample_transfer sample_asking) =
     Some (0, (sample_transfer sample_asking)\<lparr>tr_login := l, tr_files := fs\<rparr>) \<and> concat (map (\<lambda>f. bytes (fi_bytes f)) fs) = [7, 8, 9]"
proof -
  let ?g = "sample_files [] [7, 8, 9]"
  obtain l where l: "ask (sample_app None) sample_asking (mkbuf [9, 0, 0, 1]) = Some (Some (Other (mkbuf (le_bytes 4 (2 :: u32))) 2), l)"
    using sample_answer [of "[9, 0, 0, 1]" None] by auto
  have e: "serves (sample_app None) ?g None (mkbuf []) [7, 8, 9] (0 + 3) l l"
    using serves_end [of _ _ _ _ "[7, 8, 9]"] by (simp add: numeral_3_eq_3)
  have "serves (sample_app None) ?g None (mkbuf []) [7, 8, 9] 0 sample_asking l"
    by (rule serves_part [OF _ _ _ _ _ _ e, where t = "Other (mkbuf (le_bytes 4 (2 :: u32))) 2"])
       (use l in \<open>simp_all add: ask_without_progress sample_files_def fits_def del: le_bytes.simps\<close>)
  then show ?thesis
    using download_complete [of "sample_app None" ?g None "mkbuf []" "[7, 8, 9]" "sample_transfer sample_asking" l "\<lambda>_. 0" 4]
    by (auto simp: sample_transfer_def)
qed

theorem empty_parts_never_end_witness:
  "tg_get_file_with_progress 1 (sample_app None) (sample_files [] []) (Some (\<lambda>_. 0)) None (mkbuf []) 3 (sample_transfer sample_asking) = None"
proof (rule empty_parts_never_end)
  obtain l where l: "ask (sample_app None) sample_asking (mkbuf [9, 0, 0, 1]) = Some (Some (Other (mkbuf (le_bytes 4 (2 :: u32))) 2), l)"
    using sample_answer [of "[9, 0, 0, 1]" None] by auto
  then show "stalls 1 (sample_app None) (sample_files [] []) None (mkbuf []) 0 (tr_login (sample_transfer sample_asking))"
    by (simp add: ask_without_progress sample_files_def sample_transfer_def fits_def del: le_bytes.simps)
qed simp_all

definition sample_document :: tg_document where
  "sample_document = tg_document_new ''a/b'' ''b'' ''text/plain''"

theorem upload_big_file_undefined_witness:
  "tg_document_send 30 5 (sample_app None) (sample_files (replicate 10485761 0) []) sample_peer_schema
     \<lparr>pe_type = TG_PEER_TYPE_USER, pe_id = 1, pe_access_hash = 2\<rparr> sample_document ''hi'' None (sample_transfer sample_asking) = None"
  by (rule upload_big_file_undefined [where c = "replicate 10485761 0"])
     (simp_all add: sample_files_def sample_document_def tg_document_new_def BUFSIZ_def)

text \<open>The client before the part and before the message of an upload.\<close>

lemma random_id_eq: "random_id app l = Some (le_val (rand_bytes (w_env (ap_world app)) (lg_tg l) 8), set_client tick l)"
proof -
  have "buf_get_ui64 (mkbuf xs) = Some (le_val xs)" if "length xs = 8" for xs :: "byte list"
    using that by (simp add: buf_get_ui64_def load64_def mem_read_def mkbuf_def Let_def)
  then show ?thesis
    by (simp add: random_id_def now_seconds_def buf_rand_eq BUFSIZ_def rand_bytes_def set_client_def set_tg_def)
qed

definition sample_tg3 :: tg where
  "sample_tg3 = tick sample_tg"

definition sample_tg4 :: tg where
  "sample_tg4 = tick (answered sample_world3 (after_send sample_tg3) (replicate 8 1) 5)"

lemma sample_tg3_ok: "sender_ok sample_world3 sample_tg3 4" "id_at sample_env sample_tg3 0 = 4294968296" "tg_key sample_tg3 = tg_key sample_tg"
proof -
  show "id_at sample_env sample_tg3 0 = 4294968296" by (simp add: id_at_def sample_env_def sample_tg3_def tick_def sample_tg_def)
  show "tg_key sample_tg3 = tg_key sample_tg" by (simp add: sample_tg3_def)
  have "key_ok sample_tg3" "session_ok sample_tg3" using sample_key sample_session by (simp_all add: sample_tg3_def key_ok_def session_ok_def)
  then show "sender_ok sample_world3 sample_tg3 4"
    by (simp add: sender_ok_def sample_world3_ok) (simp add: sample_tg3_def sample_tg_def)
qed

lemma sample_tg4_ok: "sender_ok sample_world3 sample_tg4 4" "id_at sample_env sample_tg4 0 = 4294971296" "tg_key sample_tg4 = tg_key sample_tg"
proof -
  have f: "tg_msgids sample_tg4 = [5]" "tg_ticks sample_tg4 = 4" "tg_timediff sample_tg4 = 0" "tg_todrop sample_tg4 = []"
    "tg_key sample_tg4 = tg_key sample_tg" "tg_salt sample_tg4 = mkbuf (replicate 8 1)" "tg_ssid sample_tg4 = tg_ssid sample_tg"
    by (simp_all add: sample_tg4_def sample_tg3_def answered_def after_send_def sent_tg_def next_seqno_def tg_add_msgid_def sample_world3_ok
        tick_def sample_tg_def)
  then show i: "id_at sample_env sample_tg4 0 = 4294971296" and "tg_key sample_tg4 = tg_key sample_tg"
    by (simp_all add: id_at_def sample_env_def)
  have "key_ok sample_tg4" using sample_key f by (simp add: key_ok_def)
  moreover have "session_ok sample_tg4" using sample_session f by (simp add: session_ok_def fits_def)
  ultimately show "sender_ok sample_world3 sample_tg4 4"
    using i f by (simp add: sender_ok_def sample_world3_ok pending_ok_def drops_size_def)
      (simp add: sample_env_def fits_def)
qed

theorem upload_small_file_witness:
  "\<exists>l qs. tg_document_send 2 1 (sample_app None) (sample_files [1, 2, 3] []) sample_peer_schema
     \<lparr>pe_type = TG_PEER_TYPE_USER, pe_id = 1, pe_access_hash = 2\<rparr> sample_document ''hi'' None
     (sample_transfer (sample_login [[(0, 5, sample_input 4294968296 2, [1])], [(1, 5, sample_input 4294971296 3, [1])]])) =
     Some (0, \<lparr>tr_login = l, tr_files = [], tr_progress = qs, tr_updates = [Other (mkbuf (le_bytes 4 (3 :: u32))) 3]\<rparr>)"
proof -
  let ?g = "sample_files [1, 2, 3] []" and ?p = "\<lparr>pe_type = TG_PEER_TYPE_USER, pe_id = 1, pe_access_hash = 2\<rparr>"
  let ?l = "sample_login [[(0, 5, sample_input 4294968296 2, [1])], [(1, 5, sample_input 4294971296 3, [1])]]"
  let ?l1 = "set_client tick ?l"
  have t1: "lg_tg ?l1 = sample_tg3" by (simp add: set_client_def set_tg_def sample_login_def sample_tg3_def)
  obtain s1 where s1: "ask (sample_app None) ?l1 (mkbuf [10, 0, 0, 1]) = Some (Some (Other (mkbuf (le_bytes 4 (2 :: u32))) 2),
        ?l1\<lparr>lg_sys := s1, lg_turns := [[(1, 5, sample_input 4294971296 3, [1])]]\<rparr>)"
      "s_tg s1 = answered sample_world3 (after_send sample_tg3) (replicate 8 1) 5" "s_list s1 = []" "s_heap s1 = Map.empty" "s_next s1 = 1"
    using sample_ask [of 2 "[10, 0, 0, 1]" ?l1 4294968296 "[[(1, 5, sample_input 4294971296 3, [1])]]" None] sample_tg3_ok t1
    by (auto simp: sample_login_def set_client_def set_tg_def)
  let ?l2 = "?l1\<lparr>lg_sys := s1, lg_turns := [[(1, 5, sample_input 4294971296 3, [1])]]\<rparr>"
  let ?l3 = "set_client tick ?l2"
  have t3: "lg_tg ?l3 = sample_tg4" by (simp add: set_client_def set_tg_def s1(2) sample_tg4_def)
  obtain s3 where s3: "ask (sample_app None) ?l3 (mkbuf [12, 0, 0, 1]) = Some (Some (Other (mkbuf (le_bytes 4 (3 :: u32))) 3),
        ?l3\<lparr>lg_sys := s3, lg_turns := []\<rparr>)"
    using sample_ask [of 3 "[12, 0, 0, 1]" ?l3 4294971296 "[]" None] sample_tg3_ok(3) sample_tg4_ok t3 s1
    by (auto simp: set_client_def set_tg_def)
  have p: "file_parts [1, 2, 3] = [[1, 2, 3]]" by (simp add: file_parts.simps part_size_def)
  have a: "accepts (sample_app None) ?g (part_queries ?g i 0 [1, 2, 3]) ?l1 ?l2" for i
    using s1(1) by (simp add: part_queries_def p sample_files_def del: le_bytes.simps)
  have "\<exists>qs. tg_document_send 2 (Suc 0) (sample_app None) ?g sample_peer_schema ?p sample_document ''hi'' None (sample_transfer ?l) =
       Some (0, (sample_transfer ?l)\<lparr>tr_login := ?l3\<lparr>lg_sys := s3, lg_turns := []\<rparr>, tr_progress := tr_progress (sample_transfer ?l) @ qs,
         tr_updates := tr_updates (sample_transfer ?l) @ [Other (mkbuf (le_bytes 4 (3 :: u32))) 3]\<rparr>) \<and>
     concat (file_parts [1, 2, 3]) = [1, 2, 3] \<and> (\<forall>p \<in> set (butlast (file_parts [1, 2, 3])). length p = 524288) \<and>
     length (file_parts [1, 2, 3]) = (length [1, 2, 3 :: byte] + 524287) div 524288"
    by (rule upload_small_file [where ?l1.0 = ?l1 and ?l2.0 = ?l2 and ?l3.0 = ?l3, OF _ _ _ _ a])
       (use s3 in \<open>simp_all add: sample_transfer_def random_id_eq p sample_document_def tg_document_new_def BUFSIZ_def sample_files_def del: le_bytes.simps\<close>)
  then show ?thesis by (auto simp: sample_transfer_def)
qed

end
