(* ===== verification/Updates.thy ===== *)
theory Updates
  imports Tl_Object
begin

text \<open>
  What the library does with the updates that the server sends, \<^verbatim>\<open>libtg/tg/updates.c\<close>: it turns them
  into calls of the application's handler.  The objects are the fields that the code
  reads; a pointer that may be null is an option.  The conversion of a full message object belongs
  to \<^verbatim>\<open>libtg/tg/messages.c\<close>: the object itself stands for its result.
\<close>

section \<open>Objects\<close>

text \<open>The actions and states with a case of their own, and any other.\<close>

datatype send_action = SendMessageTypingAction | SendMessageCancelAction | SendMessageUploadVideoAction |
  SendMessageUploadAudioAction | SendMessageUploadPhotoAction | SendMessageUploadDocumentAction |
  SendMessageRecordAudioAction | SendMessageRecordRoundAction | Other_action

datatype user_status = UserStatusEmpty | UserStatusOnline | UserStatusOffline | UserStatusRecently |
  UserStatusLastWeek | UserStatusLastMonth | Other_status

datatype update =
    UpdateNewMessage tl
  | UpdateDeleteMessages "u32 list"
  | UpdateUserTyping u64 "send_action option"
  | UpdateChatUserTyping u64 "u64 option" "send_action option"
  | UpdateChannelUserTyping u64 "u64 option" "send_action option"
  | UpdateUserStatus u64 "user_status option"
  | Other_update

record short_message =
  sm_out :: bool
  sm_mentioned :: bool
  sm_media_unread :: bool
  sm_silent :: bool
  sm_id :: u32
  sm_user :: u64            \<comment> \<open>\<^verbatim>\<open>user_id_\<close>, or \<^verbatim>\<open>from_id_\<close> of a message in a chat\<close>
  sm_message :: buf
  sm_date :: u32
  sm_ttl_period :: u32

datatype updates =
    UpdatesTooLong
  | UpdateShortMessage short_message
  | UpdateShortChatMessage short_message u64      \<comment> \<open>with \<^verbatim>\<open>chat_id_\<close>\<close>
  | UpdateShort "update option"
  | UpdatesCombined "update option list option"
  | Updates_obj "update option list option"
  | UpdateShortSentMessage
  | Not_updates

text \<open>The constructor number of \<^verbatim>\<open>updateShortChatMessage\<close> in the schema.\<close>

definition id_updateShortChatMessage :: u32 where
  "id_updateShortChatMessage = 0x4d6deea5"

section \<open>Calls of the handler\<close>

datatype TG_UPDATE = TG_UPDATE_MESSAGE | TG_UPDATE_MESSAGE_DELETE |
  TG_UPDATE_USER_TYPING | TG_UPDATE_USER_CANCEL | TG_UPDATE_USER_UPLOAD_VIDEO | TG_UPDATE_USER_UPLOAD_AUDIO |
  TG_UPDATE_USER_UPLOAD_PHOTO | TG_UPDATE_USER_UPLOAD_DOCUMENT | TG_UPDATE_USER_RECORD_AUDIO | TG_UPDATE_USER_RECORD_ROUND |
  TG_UPDATE_CHAT_MESSAGE |
  TG_UPDATE_CHAT_USER_TYPING | TG_UPDATE_CHAT_USER_CANCEL | TG_UPDATE_CHAT_USER_UPLOAD_VIDEO | TG_UPDATE_CHAT_USER_UPLOAD_AUDIO |
  TG_UPDATE_CHAT_USER_UPLOAD_PHOTO | TG_UPDATE_CHAT_USER_UPLOAD_DOCUMENT | TG_UPDATE_CHAT_USER_RECORD_AUDIO |
  TG_UPDATE_CHAT_USER_RECORD_ROUND | TG_UPDATE_USER_STATUS

datatype TG_USER_STATUS = TG_USER_STATUS_NULL | TG_USER_STATUS_EMPTY | TG_USER_STATUS_ONLINE | TG_USER_STATUS_OFFLINE |
  TG_USER_STATUS_RECENTLY | TG_USER_STATUS_LASTWEEK | TG_USER_STATUS_LASTMONTH

record tg_message =
  ms_out :: bool
  ms_mentioned :: bool
  ms_media_unread :: bool
  ms_silent :: bool
  ms_id :: u32
  ms_from_id :: u64
  ms_message :: string
  ms_date :: u32
  ms_ttl_period :: u32

datatype update_data =
    D_object tl
  | D_message tg_message
  | D_chat_message u64 tg_message
  | D_msg_id u32
  | D_user u64
  | D_chat_user u64 u64
  | D_status u64 TG_USER_STATUS

type_synonym handler_call = "TG_UPDATE \<times> update_data"

text \<open>\<^verbatim>\<open>ON_UPDATE\<close>; \<open>on\<close> tells whether a handler is set.\<close>

definition ON_UPDATE :: "bool \<Rightarrow> TG_UPDATE \<Rightarrow> update_data \<Rightarrow> handler_call list" where
  "ON_UPDATE on k d = (if on then [(k, d)] else [])"

section \<open>One update\<close>

definition user_action :: "bool \<Rightarrow> send_action \<Rightarrow> u64 \<Rightarrow> handler_call list" where
  "user_action on a user =
     (case a of
        SendMessageTypingAction \<Rightarrow> ON_UPDATE on TG_UPDATE_USER_TYPING (D_user user)
      | SendMessageCancelAction \<Rightarrow> ON_UPDATE on TG_UPDATE_USER_CANCEL (D_user user)
      | SendMessageUploadVideoAction \<Rightarrow> ON_UPDATE on TG_UPDATE_USER_UPLOAD_VIDEO (D_user user)
      | SendMessageUploadAudioAction \<Rightarrow> ON_UPDATE on TG_UPDATE_USER_UPLOAD_AUDIO (D_user user)
      | SendMessageUploadPhotoAction \<Rightarrow> ON_UPDATE on TG_UPDATE_USER_UPLOAD_PHOTO (D_user user)
      | SendMessageUploadDocumentAction \<Rightarrow> ON_UPDATE on TG_UPDATE_USER_UPLOAD_DOCUMENT (D_user user)
      | SendMessageRecordAudioAction \<Rightarrow> ON_UPDATE on TG_UPDATE_USER_RECORD_AUDIO (D_user user)
      | SendMessageRecordRoundAction \<Rightarrow> ON_UPDATE on TG_UPDATE_USER_RECORD_ROUND (D_user user)
      | Other_action \<Rightarrow> [])"

definition chat_action :: "bool \<Rightarrow> send_action \<Rightarrow> u64 \<Rightarrow> u64 \<Rightarrow> handler_call list" where
  "chat_action on a chat user =
     (case a of
        SendMessageTypingAction \<Rightarrow> ON_UPDATE on TG_UPDATE_CHAT_USER_TYPING (D_chat_user chat user)
      | SendMessageCancelAction \<Rightarrow> ON_UPDATE on TG_UPDATE_CHAT_USER_CANCEL (D_chat_user chat user)
      | SendMessageUploadVideoAction \<Rightarrow> ON_UPDATE on TG_UPDATE_CHAT_USER_UPLOAD_VIDEO (D_chat_user chat user)
      | SendMessageUploadAudioAction \<Rightarrow> ON_UPDATE on TG_UPDATE_CHAT_USER_UPLOAD_AUDIO (D_chat_user chat user)
      | SendMessageUploadPhotoAction \<Rightarrow> ON_UPDATE on TG_UPDATE_CHAT_USER_UPLOAD_PHOTO (D_chat_user chat user)
      | SendMessageUploadDocumentAction \<Rightarrow> ON_UPDATE on TG_UPDATE_CHAT_USER_UPLOAD_DOCUMENT (D_chat_user chat user)
      | SendMessageRecordAudioAction \<Rightarrow> ON_UPDATE on TG_UPDATE_CHAT_USER_RECORD_AUDIO (D_chat_user chat user)
      | SendMessageRecordRoundAction \<Rightarrow> ON_UPDATE on TG_UPDATE_CHAT_USER_RECORD_ROUND (D_chat_user chat user)
      | Other_action \<Rightarrow> [])"

text \<open>A state that no case names leaves the field as the initialiser set it.\<close>

fun status_of :: "user_status \<Rightarrow> TG_USER_STATUS" where
  "status_of UserStatusEmpty = TG_USER_STATUS_EMPTY"
| "status_of UserStatusOnline = TG_USER_STATUS_ONLINE"
| "status_of UserStatusOffline = TG_USER_STATUS_OFFLINE"
| "status_of UserStatusRecently = TG_USER_STATUS_RECENTLY"
| "status_of UserStatusLastWeek = TG_USER_STATUS_LASTWEEK"
| "status_of UserStatusLastMonth = TG_USER_STATUS_LASTMONTH"
| "status_of Other_status = TG_USER_STATUS_NULL"

text \<open>The constructor number is logged before the pointer is compared with null.\<close>

definition tg_do_update :: "bool \<Rightarrow> update option \<Rightarrow> handler_call list option" where
  "tg_do_update on update =
     (case update of
        None \<Rightarrow> None
      | Some (UpdateNewMessage m) \<Rightarrow> Some (ON_UPDATE on TG_UPDATE_MESSAGE (D_object m))
      | Some (UpdateDeleteMessages ids) \<Rightarrow> Some (concat (map (\<lambda>i. ON_UPDATE on TG_UPDATE_MESSAGE_DELETE (D_msg_id i)) ids))
      | Some (UpdateUserTyping user act) \<Rightarrow> map_option (\<lambda>a. user_action on a user) act
      | Some (UpdateChatUserTyping chat from act) \<Rightarrow>
          (case from of None \<Rightarrow> Some [] | Some user \<Rightarrow> map_option (\<lambda>a. chat_action on a chat user) act)
      | Some (UpdateChannelUserTyping channel from act) \<Rightarrow>
          (case from of None \<Rightarrow> Some [] | Some user \<Rightarrow> map_option (\<lambda>a. chat_action on a channel user) act)
      | Some (UpdateUserStatus user st) \<Rightarrow> map_option (\<lambda>s. ON_UPDATE on TG_UPDATE_USER_STATUS (D_status user (status_of s))) st
      | Some Other_update \<Rightarrow> Some [])"

section \<open>Messages and lists of updates\<close>

text \<open>
  \<^verbatim>\<open>message_update\<close>; \<open>chat\<close> is the chat of a message in a chat.  Such a message gets the constructor
  number of its object for an identifier, and a message without a chat keeps the zero
  that \<^verbatim>\<open>memset\<close> wrote for its sender.
\<close>

definition message_update :: "short_message \<Rightarrow> u64 option \<Rightarrow> (tg_message \<times> u64) option" where
  "message_update m chat = do {
     text \<leftarrow> mem_read (bblk (sm_message m)) (bdata (sm_message m)) (unat (bsize (sm_message m)));
     Some (\<lparr>ms_out = sm_out m, ms_mentioned = sm_mentioned m, ms_media_unread = sm_media_unread m, ms_silent = sm_silent m,
            ms_id = (case chat of None \<Rightarrow> sm_id m | Some _ \<Rightarrow> id_updateShortChatMessage),
            ms_from_id = (case chat of None \<Rightarrow> 0 | Some _ \<Rightarrow> sm_user m),
            ms_message = cstr text, ms_date = sm_date m, ms_ttl_period = sm_ttl_period m\<rparr>,
           case chat of None \<Rightarrow> 0 | Some c \<Rightarrow> c)
   }"

fun do_all :: "bool \<Rightarrow> update option list \<Rightarrow> handler_call list option" where
  "do_all on [] = Some []"
| "do_all on (None # us) = do_all on us"
| "do_all on (Some u # us) = do {
     cs \<leftarrow> tg_do_update on (Some u);
     ds \<leftarrow> do_all on us;
     Some (cs @ ds)
   }"

definition tg_do_updates :: "bool \<Rightarrow> updates option \<Rightarrow> (int \<times> handler_call list) option" where
  "tg_do_updates on obj =
     (case obj of
        None \<Rightarrow> Some (1, [])
      | Some UpdatesTooLong \<Rightarrow> Some (0, [])
      | Some (UpdateShortMessage m) \<Rightarrow> do {
          (msg, _) \<leftarrow> message_update m None;
          Some (0, ON_UPDATE on TG_UPDATE_MESSAGE (D_message msg))
        }
      | Some (UpdateShortChatMessage m chat) \<Rightarrow> do {
          (msg, chat_id) \<leftarrow> message_update m (Some chat);
          Some (0, ON_UPDATE on TG_UPDATE_CHAT_MESSAGE (D_chat_message chat_id msg))
        }
      | Some (UpdateShort u) \<Rightarrow> map_option (Pair 0) (tg_do_update on u)
      | Some (UpdatesCombined us) \<Rightarrow> (case us of None \<Rightarrow> Some (0, []) | Some us \<Rightarrow> map_option (Pair 0) (do_all on us))
      | Some (Updates_obj us) \<Rightarrow> (case us of None \<Rightarrow> Some (0, []) | Some us \<Rightarrow> map_option (Pair 0) (do_all on us))
      | Some UpdateShortSentMessage \<Rightarrow> Some (0, [])
      | Some Not_updates \<Rightarrow> Some (1, []))"

section \<open>Properties\<close>

text \<open>The object behind every pointer that the code follows is there.\<close>

fun update_ok :: "update \<Rightarrow> bool" where
  "update_ok (UpdateUserTyping _ a) \<longleftrightarrow> a \<noteq> None"
| "update_ok (UpdateChatUserTyping _ _ a) \<longleftrightarrow> a \<noteq> None"
| "update_ok (UpdateChannelUserTyping _ _ a) \<longleftrightarrow> a \<noteq> None"
| "update_ok (UpdateUserStatus _ s) \<longleftrightarrow> s \<noteq> None"
| "update_ok _ \<longleftrightarrow> True"

lemma update_ok_defined: "update_ok u \<Longrightarrow> \<exists>cs. tg_do_update on (Some u) = Some cs"
  by (cases u) (auto simp: tg_do_update_def split: option.split)

definition calls_of :: "bool \<Rightarrow> update \<Rightarrow> handler_call list" where
  "calls_of on u = the (tg_do_update on (Some u))"

lemma do_all_eq:
  "\<forall>u. Some u \<in> set us \<longrightarrow> update_ok u \<Longrightarrow> do_all on us = Some (concat (map (calls_of on) (List.map_filter (\<lambda>u. u) us)))"
proof (induction on us rule: do_all.induct)
  case (3 on u us)
  then obtain cs where "tg_do_update on (Some u) = Some cs" using update_ok_defined [of u on] by auto
  with 3 show ?case by (simp add: calls_of_def List.map_filter_simps)
qed (simp_all add: List.map_filter_simps)



text \<open>
  Short messages lose who and which they are: two private messages that differ only in their
  sender reach the handler as the same message, and so do two messages of a chat that
  differ only in their identifier.
\<close>

theorem short_messages_conflated:
  "tg_do_updates on (Some (UpdateShortMessage (m\<lparr>sm_user := u\<rparr>))) = tg_do_updates on (Some (UpdateShortMessage m))"
  "tg_do_updates on (Some (UpdateShortChatMessage (m\<lparr>sm_id := i\<rparr>) c)) = tg_do_updates on (Some (UpdateShortChatMessage m c))"
  by (simp_all add: tg_do_updates_def message_update_def)

text \<open>What happens in a channel is announced as if it happened in the chat with the same number.\<close>

theorem channel_typing_conflated:
  "tg_do_update on (Some (UpdateChannelUserTyping c f a)) = tg_do_update on (Some (UpdateChatUserTyping c f a))"
  by (simp add: tg_do_update_def)

end
