(* ===== verification/Buf_Type.thy ===== *)
theory Buf_Type
  imports Buf
begin

text \<open>
  The discipline of the buffers of \<^verbatim>\<open>libtg/tl/buf.c\<close>: what the operations build never leaves its block, as
  long as the start of a buffer is not moved and its size stays below four gigabytes.
\<close>

section \<open>Buffers that the operations build\<close>

inductive built :: "buf \<Rightarrow> bool" where
  built_new: "built buf_new"
| built_add: "fits (unat n) \<Longrightarrow> p + unat n \<le> length m \<Longrightarrow> buf_add m p n = Some b \<Longrightarrow> built b"
| built_cat: "built d \<Longrightarrow> readable s \<Longrightarrow> fits (unat (bsize d) + unat (bsize s)) \<Longrightarrow> buf_cat d s = Some b \<Longrightarrow> built b"
| built_swap: "built d \<Longrightarrow> buf_swap d = Some b \<Longrightarrow> built b"
| built_xor: "readable a \<Longrightarrow> readable c \<Longrightarrow> bsize a = bsize c \<Longrightarrow> fits (unat (bsize a)) \<Longrightarrow> buf_xor a c = Some b \<Longrightarrow> built b"
| built_rand: "unat n \<le> BUFSIZ \<Longrightarrow> buf_rand rnd now n = Some b \<Longrightarrow> built b"
| built_realloc: "built d \<Longrightarrow> buf_realloc malloc d n = Some (r, b) \<Longrightarrow> built b"

lemma swap_defined:
  assumes "readable b"
  shows "\<exists>r. buf_swap b = Some r \<and> bdata r = bdata b \<and> bsize r = bsize b \<and> basize r = basize b \<and> length (bblk r) = length (bblk b) \<and>
     bytes r = rev (bytes b)"
proof -
  obtain pre post where a: "bblk b = pre @ bytes b @ post" "length pre = bdata b" using readable_blk [OF assms] by metis
  have "swap_loop (bblk b) (bdata b) (bdata b + unat (bsize b)) = Some (pre @ rev (bytes b) @ post)"
    using swap_loop_rev [of pre "bytes b" post] a length_bytes [OF assms] by simp
  moreover have "length (pre @ rev (bytes b) @ post) = length (bblk b)" using arg_cong [OF a(1), of length] by simp
  ultimately show ?thesis using a(2) length_bytes [OF assms] by (auto simp: buf_swap_def bytes_def [of "b\<lparr>bblk := _\<rparr>"])
qed

lemma built_wf: "built b \<Longrightarrow> wf_buf b \<and> bdata b = 0"
proof (induction rule: built.induct)
  case (built_cat d s b)
  then show ?case using buf_cat_wf [of d s] by auto
next
  case (built_swap d b)
  then have "readable d" by (simp add: wf_buf_readable)
  from swap_defined [OF this] built_swap show ?case by (auto simp: wf_buf_def)
next
  case (built_realloc d malloc n r b)
  have "length (take (unat (basize d)) (bblk d)) = unat (basize d)" using built_realloc.IH by (simp add: wf_buf_def)
  then show ?case
    using built_realloc unat_grow [of "basize d" n]
    by (auto simp: buf_realloc_def wf_buf_def word_less_nat_alt split: if_splits)
qed (auto simp: buf_xor_eq buf_rand_eq fits_mono [OF fits_BUFSIZ])

lemma built_readable: "built b \<Longrightarrow> readable b"
  using built_wf wf_buf_readable by blast

section \<open>Type safety\<close>

text \<open>
  C38: Buffers that were built by the operations are well formed, and the operations are defined on
  them and build such buffers again: appending, copying, reversing, combining and enlarging stay
  inside the block for as long as the sizes fit.
\<close>

theorem buffers_type_safe:
  assumes "built d" "built s" and "fits (unat (bsize d) + unat (bsize s))"
  shows "wf_buf d \<and>
     (\<exists>r. buf_cat d s = Some r \<and> built r \<and> bytes r = bytes d @ bytes s) \<and>
     (\<exists>r. buf_add_buf d = Some r \<and> built r \<and> bytes r = bytes d) \<and>
     (\<exists>r. buf_swap d = Some r \<and> built r \<and> bytes r = rev (bytes d)) \<and>
     (bsize d = bsize s \<longrightarrow> (\<exists>r. buf_xor d s = Some r \<and> built r \<and> bytes r = map2 (XOR) (bytes d) (bytes s))) \<and>
     (fits (unat n) \<longrightarrow> (\<exists>r rc. buf_realloc malloc d n = Some (rc, r) \<and> built r))"
proof (intro conjI impI)
  have rd: "readable d" "readable s" using assms(1,2) by (auto intro: built_readable)
  have f: "fits (unat (bsize d))" using assms(3) by (rule fits_mono) simp
  show "wf_buf d" using assms(1) built_wf by blast
  show "\<exists>r. buf_cat d s = Some r \<and> built r \<and> bytes r = bytes d @ bytes s"
    using buf_cat_wf [of d s] built_wf [OF assms(1)] rd(2) assms(3) built_cat [OF assms(1) rd(2) assms(3)] by auto
  have a: "buf_add_buf d = Some (mkbuf (bytes d))"
    using f rd(1) by (simp add: buf_add_buf_def readable_def bytes_def)
  then have "built (mkbuf (bytes d))"
    using f rd(1) unfolding buf_add_buf_def by (intro built_add) (auto simp: readable_def)
  then show "\<exists>r. buf_add_buf d = Some r \<and> built r \<and> bytes r = bytes d" using a f rd(1) by simp
  show "\<exists>r. buf_swap d = Some r \<and> built r \<and> bytes r = rev (bytes d)" using swap_defined [OF rd(1)] assms(1) built_swap by blast
  show "\<exists>r. buf_xor d s = Some r \<and> built r \<and> bytes r = map2 (XOR) (bytes d) (bytes s)" if "bsize d = bsize s"
    using built_xor [OF rd that f] buf_xor_eq [OF rd that f] f rd that by simp
  show "\<exists>r rc. buf_realloc malloc d n = Some (rc, r) \<and> built r" if "fits (unat n)"
  proof -
    have "n + 1 \<noteq> 0" using that by (simp add: fits_unat)
    then have "buf_realloc malloc d n \<noteq> None" by (simp add: buf_realloc_def)
    then obtain rc r where "buf_realloc malloc d n = Some (rc, r)" by auto
    with built_realloc [OF assms(1)] show ?thesis by blast
  qed
qed

theorem buffers_type_safe_witness:
  "\<exists>r. buf_cat (mkbuf [1, 2]) (mkbuf [3, 4]) = Some r \<and> built r \<and> bytes r = [1, 2, 3, 4]"
proof -
  have "built (mkbuf [a, b])" for a b by (rule built_add [of 2 0 "[a, b]"]) (simp_all add: fits_def)
  from buffers_type_safe [OF this this, of 1 2 3 4] show ?thesis by (simp add: fits_def)
qed

end
