(* ===== verification/Mtx_Buf.thy ===== *)
theory Mtx_Buf
  imports Buf
begin

text \<open>
  The buffers of the key exchange, \<^verbatim>\<open>libtg/mtx/src/buf.c\<close>: a fixed array of 800 bytes and a size,
  passed by value.  Every check of these functions only logs: \<^verbatim>\<open>log_error\<close> returns.  An
  access outside an array is \<^term>\<open>None\<close>.  Bytes of a buffer declared without initialiser that
  no statement sets are written as zeros; they lie behind the buffer's size.
\<close>

section \<open>The code\<close>

definition max_buf_size :: nat where
  "max_buf_size = 800"

record mbuf =
  m_data :: "byte list"
  m_size :: u32

definition mbuf_zero :: mbuf where
  "mbuf_zero = \<lparr>m_data = replicate max_buf_size 0, m_size = 0\<rparr>"

text \<open>\<open>mbuf_add src p n\<close> is \<^verbatim>\<open>buf_add_(src + p, n)\<close>.\<close>

definition mbuf_add :: "byte list \<Rightarrow> nat \<Rightarrow> u32 \<Rightarrow> mbuf option" where
  "mbuf_add src p n = do {
     let b = mbuf_zero;
     d \<leftarrow> copy_loop (unat n) (m_data b) 0 src p;
     Some \<lparr>m_data = d, m_size = n\<rparr>
   }"

definition mbuf_cat :: "mbuf \<Rightarrow> mbuf \<Rightarrow> mbuf option" where
  "mbuf_cat dest src = do {
     let s = m_size dest + m_size src;
     d \<leftarrow> copy_loop (unat (m_size src)) (m_data dest) (unat (m_size dest)) (m_data src) 0;
     Some \<lparr>m_data = d, m_size = s\<rparr>
   }"

definition mbuf_cmp :: "mbuf \<Rightarrow> mbuf \<Rightarrow> byte option" where
  "mbuf_cmp a b = cmp_loop (unat (m_size a)) (m_data a) 0 (m_data b) 0"

definition mbuf_swap :: "mbuf \<Rightarrow> mbuf option" where
  "mbuf_swap b = do { d \<leftarrow> swap_loop (m_data b) 0 (unat (m_size b)); Some (b\<lparr>m_data := d\<rparr>) }"

definition mbuf_add_ui32 :: "u32 \<Rightarrow> mbuf option" where
  "mbuf_add_ui32 v = mbuf_add (le_bytes 4 v) 0 4"

definition mbuf_add_ui64 :: "u64 \<Rightarrow> mbuf option" where
  "mbuf_add_ui64 v = mbuf_add (le_bytes 8 v) 0 8"

definition mbuf_get_ui32 :: "mbuf \<Rightarrow> u32 option" where
  "mbuf_get_ui32 b = load32 (m_data b) 0"

definition mbuf_get_ui64 :: "mbuf \<Rightarrow> u64 option" where
  "mbuf_get_ui64 b = load64 (m_data b) 0"

text \<open>\<open>rnd seed i\<close> is the \<open>i\<close>-th \<^verbatim>\<open>rand()\<close> after \<^verbatim>\<open>srand(seed)\<close>, \<open>now\<close> the time in seconds.\<close>

definition mbuf_rand :: "(u32 \<Rightarrow> nat \<Rightarrow> nat) \<Rightarrow> u32 \<Rightarrow> u32 \<Rightarrow> mbuf option" where
  "mbuf_rand rnd now s = do {
     let b = mbuf_zero;
     d \<leftarrow> copy_loop (unat s) (m_data b) 0 (map (\<lambda>i. of_nat (rnd now i mod 256)) [0..<unat s]) 0;
     Some \<lparr>m_data = d, m_size = s\<rparr>
   }"

definition mbuf_xor :: "mbuf \<Rightarrow> mbuf \<Rightarrow> mbuf option" where
  "mbuf_xor a b = do {
     let r = mbuf_zero;
     d \<leftarrow> xor_loop (unat (m_size a)) (m_data r) 0 (m_data a) 0 (m_data b) 0;
     Some \<lparr>m_data = d, m_size = m_size a\<rparr>
   }"

text \<open>The recurring \<^verbatim>\<open>b = buf_add(b.data + k, b.size - k)\<close> and \<^verbatim>\<open>buf_add(b.data + p, n)\<close>.\<close>

definition mbuf_skip :: "nat \<Rightarrow> mbuf \<Rightarrow> mbuf option" where
  "mbuf_skip k b = mbuf_add (m_data b) k (m_size b - of_nat k)"

definition mbuf_part :: "mbuf \<Rightarrow> nat \<Rightarrow> nat \<Rightarrow> mbuf option" where
  "mbuf_part b p n = mbuf_add (m_data b) p (of_nat n)"

section \<open>Canonical buffers\<close>

text \<open>The buffer that holds \<open>xs\<close> and zeros behind it.\<close>

definition mk :: "byte list \<Rightarrow> mbuf" where
  "mk xs = \<lparr>m_data = xs @ replicate (max_buf_size - length xs) 0, m_size = of_nat (length xs)\<rparr>"

definition mbytes :: "mbuf \<Rightarrow> byte list" where
  "mbytes b = take (unat (m_size b)) (m_data b)"

lemma mbuf_zero_mk: "mbuf_zero = mk []"
  by (simp add: mbuf_zero_def mk_def)

lemma small_unat [simp]: "n \<le> max_buf_size \<Longrightarrow> unat (of_nat n :: u32) = n"
  by (simp add: max_buf_size_def unat_of_nat)

lemma mk_simps [simp]: "m_size (mk xs) = of_nat (length xs)" "m_data (mk xs) = xs @ replicate (max_buf_size - length xs) 0"
  by (simp_all add: mk_def)

lemma mbytes_mk [simp]: "length xs \<le> max_buf_size \<Longrightarrow> mbytes (mk xs) = xs"
  by (simp add: mbytes_def)

lemma mk_zeros: "n \<le> max_buf_size \<Longrightarrow> (mbuf_zero\<lparr>m_size := of_nat n\<rparr>) = mk (replicate n 0)"
  by (simp add: mbuf_zero_def mk_def replicate_add [symmetric])

lemma mbuf_add_eq:
  assumes "n \<le> max_buf_size" and "p + n \<le> length src"
  shows "mbuf_add src p (of_nat n) = Some (mk (take n (drop p src)))"
proof -
  have "copy_loop n (replicate max_buf_size 0) 0 src p = Some (take n (drop p src) @ replicate (max_buf_size - n) 0)"
    using assms by (subst copy_loop_eq) auto
  moreover have "length (take n (drop p src)) = n" using assms by simp
  ultimately show ?thesis using assms(1) by (simp add: mbuf_add_def mbuf_zero_def mk_def)
qed

lemma mbuf_part_eq [simp]:
  assumes "p + n \<le> length xs" and "length xs \<le> max_buf_size"
  shows "mbuf_part (mk xs) p n = Some (mk (take n (drop p xs)))"
  unfolding mbuf_part_def using assms by (subst mbuf_add_eq) auto

lemma mbuf_part_over:
  assumes "p + n \<le> max_buf_size" and "length xs \<le> max_buf_size"
  shows "mbuf_part (mk xs) p n = Some (mk (take n (drop p (xs @ replicate (max_buf_size - length xs) 0))))"
  unfolding mbuf_part_def using assms by (subst mbuf_add_eq) auto

lemma of_nat_diff32: "k \<le> n \<Longrightarrow> (of_nat n - of_nat k :: u32) = of_nat (n - k)"
  by (simp add: of_nat_diff)

lemma mbuf_skip_eq [simp]:
  assumes "k \<le> length xs" and "length xs \<le> max_buf_size"
  shows "mbuf_skip k (mk xs) = Some (mk (drop k xs))"
  unfolding mbuf_skip_def mk_simps of_nat_diff32 [OF assms(1)] using assms by (subst mbuf_add_eq) auto

text \<open>Skipping more than there is makes the size wrap and the copy run away.\<close>

lemma mbuf_skip_overrun:
  assumes "length xs < k" and "k \<le> max_buf_size"
  shows "mbuf_skip k (mk xs) = None"
proof -
  have "unat (of_nat (length xs) - of_nat k :: u32) = 2 ^ 32 + length xs - k"
    using assms by (simp add: unat_sub_if' max_buf_size_def unat_of_nat)
  then have "max_buf_size < unat (of_nat (length xs) - of_nat k :: u32)" using assms by (simp add: max_buf_size_def)
  then show ?thesis
    unfolding mbuf_skip_def mbuf_add_def mk_simps by (simp add: copy_loop_None mbuf_zero_def Let_def)
qed

lemma mbuf_cat_eq [simp]:
  assumes "length xs + length ys \<le> max_buf_size"
  shows "mbuf_cat (mk xs) (mk ys) = Some (mk (xs @ ys))"
proof -
  have "copy_loop (length ys) (xs @ replicate (max_buf_size - length xs) 0) (length xs)
          (ys @ replicate (max_buf_size - length ys) 0) 0 =
        Some (xs @ ys @ replicate (max_buf_size - length xs - length ys) 0)"
    using assms by (subst copy_loop_eq) (auto simp: min_def)
  then show ?thesis using assms by (simp add: mbuf_cat_def mk_def Let_def)
qed

lemma mbuf_cmp_eq [simp]:
  assumes "length xs = length ys" and "length xs \<le> max_buf_size"
  shows "mbuf_cmp (mk xs) (mk ys) = Some (if xs = ys then 1 else 0)"
proof -
  have "cmp_loop (length xs) (m_data (mk xs)) 0 (m_data (mk ys)) 0 = Some (if xs = ys then 1 else 0)"
    using cmp_loop_eq [OF refl assms(1) [symmetric], of "[]" "replicate (max_buf_size - length xs) 0" "[]" "replicate (max_buf_size - length ys) 0"]
    by (simp only: mk_simps append_Nil list.size)
  then show ?thesis unfolding mbuf_cmp_def using assms(2) by (simp only: mk_simps small_unat)
qed

lemma mbuf_swap_eq [simp]:
  assumes "length xs \<le> max_buf_size"
  shows "mbuf_swap (mk xs) = Some (mk (rev xs))"
  using swap_loop_rev [of "[]" xs "replicate (max_buf_size - length xs) 0"] assms
  by (simp add: mbuf_swap_def mk_def)

lemma mbuf_ui32_eq [simp]: "mbuf_add_ui32 v = Some (mk (le_bytes 4 v))"
  using mbuf_add_eq [of 4 0 "le_bytes 4 v"] by (simp add: mbuf_add_ui32_def max_buf_size_def)

lemma mbuf_ui64_eq [simp]: "mbuf_add_ui64 v = Some (mk (le_bytes 8 v))"
  using mbuf_add_eq [of 8 0 "le_bytes 8 v"] by (simp add: mbuf_add_ui64_def max_buf_size_def)

lemma mbuf_get_ui32_eq: "4 \<le> length xs \<Longrightarrow> mbuf_get_ui32 (mk xs) = Some (le_val (take 4 xs))"
  by (simp add: mbuf_get_ui32_def load32_def mem_read_def)

lemma mbuf_get_ui64_eq: "8 \<le> length xs \<Longrightarrow> mbuf_get_ui64 (mk xs) = Some (le_val (take 8 xs))"
  by (simp add: mbuf_get_ui64_def load64_def mem_read_def)

lemma mbuf_rand_eq [simp]:
  assumes "n \<le> max_buf_size"
  shows "mbuf_rand rnd now (of_nat n) = Some (mk (map (\<lambda>i. of_nat (rnd now i mod 256)) [0..<n]))"
proof -
  let ?r = "map (\<lambda>i. of_nat (rnd now i mod 256)) [0..<n] :: byte list"
  have "copy_loop n (replicate max_buf_size 0) 0 ?r 0 = Some (?r @ replicate (max_buf_size - n) 0)"
    using assms by (subst copy_loop_eq) auto
  then show ?thesis using assms by (simp add: mbuf_rand_def mbuf_zero_def mk_def Let_def)
qed

lemma mbuf_xor_eq [simp]:
  assumes "length xs = length ys" and "length xs \<le> max_buf_size"
  shows "mbuf_xor (mk xs) (mk ys) = Some (mk (map2 (XOR) xs ys))"
proof -
  let ?z = "replicate (max_buf_size - length xs) 0 :: byte list"
  have z: "replicate max_buf_size 0 = replicate (length xs) 0 @ ?z"
    using assms(2) by (simp only: replicate_add [symmetric] le_add_diff_inverse)
  have "xor_loop (length xs) (replicate max_buf_size 0) 0 (m_data (mk xs)) 0 (m_data (mk ys)) 0 =
      Some (map2 (XOR) xs ys @ ?z)"
    using xor_loop_eq [OF refl assms(1) [symmetric] length_replicate, of "[]" 0 ?z "[]" ?z "[]" "replicate (max_buf_size - length ys) 0"]
    unfolding z by (simp only: mk_simps append_Nil list.size)
  moreover have "length (map2 (XOR) xs ys) = length xs" using assms(1) by simp
  ultimately show ?thesis
    unfolding mbuf_xor_def mbuf_zero_def using assms(2) by (simp add: mk_def)
qed

end
