(* ===== verification/Crc.thy ===== *)
theory Crc
  imports Mtx_Buf
begin

text \<open>
  The checksum of \<^verbatim>\<open>libtg/mtx/src/crc.c\<close>: CRC-32 with a table, byte by byte.  The reference
  is the division by the polynomial, bit by bit.
\<close>

section \<open>The code\<close>

definition crc32_tab :: "u32 list" where
  "crc32_tab = [
     0x00000000, 0x77073096, 0xee0e612c, 0x990951ba, 0x076dc419, 0x706af48f, 0xe963a535, 0x9e6495a3,
     0x0edb8832, 0x79dcb8a4, 0xe0d5e91e, 0x97d2d988, 0x09b64c2b, 0x7eb17cbd, 0xe7b82d07, 0x90bf1d91,
     0x1db71064, 0x6ab020f2, 0xf3b97148, 0x84be41de, 0x1adad47d, 0x6ddde4eb, 0xf4d4b551, 0x83d385c7,
     0x136c9856, 0x646ba8c0, 0xfd62f97a, 0x8a65c9ec, 0x14015c4f, 0x63066cd9, 0xfa0f3d63, 0x8d080df5,
     0x3b6e20c8, 0x4c69105e, 0xd56041e4, 0xa2677172, 0x3c03e4d1, 0x4b04d447, 0xd20d85fd, 0xa50ab56b,
     0x35b5a8fa, 0x42b2986c, 0xdbbbc9d6, 0xacbcf940, 0x32d86ce3, 0x45df5c75, 0xdcd60dcf, 0xabd13d59,
     0x26d930ac, 0x51de003a, 0xc8d75180, 0xbfd06116, 0x21b4f4b5, 0x56b3c423, 0xcfba9599, 0xb8bda50f,
     0x2802b89e, 0x5f058808, 0xc60cd9b2, 0xb10be924, 0x2f6f7c87, 0x58684c11, 0xc1611dab, 0xb6662d3d,
     0x76dc4190, 0x01db7106, 0x98d220bc, 0xefd5102a, 0x71b18589, 0x06b6b51f, 0x9fbfe4a5, 0xe8b8d433,
     0x7807c9a2, 0x0f00f934, 0x9609a88e, 0xe10e9818, 0x7f6a0dbb, 0x086d3d2d, 0x91646c97, 0xe6635c01,
     0x6b6b51f4, 0x1c6c6162, 0x856530d8, 0xf262004e, 0x6c0695ed, 0x1b01a57b, 0x8208f4c1, 0xf50fc457,
     0x65b0d9c6, 0x12b7e950, 0x8bbeb8ea, 0xfcb9887c, 0x62dd1ddf, 0x15da2d49, 0x8cd37cf3, 0xfbd44c65,
     0x4db26158, 0x3ab551ce, 0xa3bc0074, 0xd4bb30e2, 0x4adfa541, 0x3dd895d7, 0xa4d1c46d, 0xd3d6f4fb,
     0x4369e96a, 0x346ed9fc, 0xad678846, 0xda60b8d0, 0x44042d73, 0x33031de5, 0xaa0a4c5f, 0xdd0d7cc9,
     0x5005713c, 0x270241aa, 0xbe0b1010, 0xc90c2086, 0x5768b525, 0x206f85b3, 0xb966d409, 0xce61e49f,
     0x5edef90e, 0x29d9c998, 0xb0d09822, 0xc7d7a8b4, 0x59b33d17, 0x2eb40d81, 0xb7bd5c3b, 0xc0ba6cad,
     0xedb88320, 0x9abfb3b6, 0x03b6e20c, 0x74b1d29a, 0xead54739, 0x9dd277af, 0x04db2615, 0x73dc1683,
     0xe3630b12, 0x94643b84, 0x0d6d6a3e, 0x7a6a5aa8, 0xe40ecf0b, 0x9309ff9d, 0x0a00ae27, 0x7d079eb1,
     0xf00f9344, 0x8708a3d2, 0x1e01f268, 0x6906c2fe, 0xf762575d, 0x806567cb, 0x196c3671, 0x6e6b06e7,
     0xfed41b76, 0x89d32be0, 0x10da7a5a, 0x67dd4acc, 0xf9b9df6f, 0x8ebeeff9, 0x17b7be43, 0x60b08ed5,
     0xd6d6a3e8, 0xa1d1937e, 0x38d8c2c4, 0x4fdff252, 0xd1bb67f1, 0xa6bc5767, 0x3fb506dd, 0x48b2364b,
     0xd80d2bda, 0xaf0a1b4c, 0x36034af6, 0x41047a60, 0xdf60efc3, 0xa867df55, 0x316e8eef, 0x4669be79,
     0xcb61b38c, 0xbc66831a, 0x256fd2a0, 0x5268e236, 0xcc0c7795, 0xbb0b4703, 0x220216b9, 0x5505262f,
     0xc5ba3bbe, 0xb2bd0b28, 0x2bb45a92, 0x5cb36a04, 0xc2d7ffa7, 0xb5d0cf31, 0x2cd99e8b, 0x5bdeae1d,
     0x9b64c2b0, 0xec63f226, 0x756aa39c, 0x026d930a, 0x9c0906a9, 0xeb0e363f, 0x72076785, 0x05005713,
     0x95bf4a82, 0xe2b87a14, 0x7bb12bae, 0x0cb61b38, 0x92d28e9b, 0xe5d5be0d, 0x7cdcefb7, 0x0bdbdf21,
     0x86d3d2d4, 0xf1d4e242, 0x68ddb3f8, 0x1fda836e, 0x81be16cd, 0xf6b9265b, 0x6fb077e1, 0x18b74777,
     0x88085ae6, 0xff0f6a70, 0x66063bca, 0x11010b5c, 0x8f659eff, 0xf862ae69, 0x616bffd3, 0x166ccf45,
     0xa00ae278, 0xd70dd2ee, 0x4e048354, 0x3903b3c2, 0xa7672661, 0xd06016f7, 0x4969474d, 0x3e6e77db,
     0xaed16a4a, 0xd9d65adc, 0x40df0b66, 0x37d83bf0, 0xa9bcae53, 0xdebb9ec5, 0x47b2cf7f, 0x30b5ffe9,
     0xbdbdf21c, 0xcabac28a, 0x53b39330, 0x24b4a3a6, 0xbad03605, 0xcdd70693, 0x54de5729, 0x23d967bf,
     0xb3667a2e, 0xc4614ab8, 0x5d681b02, 0x2a6f2b94, 0xb40bbe37, 0xc30c8ea1, 0x5a05df1b, 0x2d02ef8d]"

text \<open>\<^verbatim>\<open>while (size--)\<close> over the bytes at \<open>p\<close>.\<close>

fun crc32_loop :: "nat \<Rightarrow> u32 \<Rightarrow> byte list \<Rightarrow> nat \<Rightarrow> u32 option" where
  "crc32_loop 0 crc m p = Some crc"
| "crc32_loop (Suc n) crc m p =
     (if p < length m
      then crc32_loop n (crc32_tab ! unat ((crc XOR ucast (m ! p)) AND 0xFF) XOR drop_bit 8 crc) m (Suc p)
      else None)"

definition crc32 :: "u32 \<Rightarrow> byte list \<Rightarrow> nat \<Rightarrow> u32 option" where
  "crc32 crc m n = do {
     let crc = crc XOR NOT 0;
     crc \<leftarrow> crc32_loop n crc m 0;
     Some (crc XOR NOT 0)
   }"

definition crc_crc32 :: "mbuf \<Rightarrow> mbuf option" where
  "crc_crc32 buf = do {
     crc \<leftarrow> crc32 0 (m_data buf) (unat (m_size buf));
     mbuf_add (le_bytes 4 crc) 0 4
   }"

section \<open>Division by the polynomial\<close>

text \<open>One bit of the remainder (reflected, as in the standard): shift, and subtract when a one leaves.\<close>

definition crc_bit :: "u32 \<Rightarrow> u32" where
  "crc_bit c = (if bit c 0 then drop_bit 1 c XOR 0xEDB88320 else drop_bit 1 c)"

definition crc_byte :: "u32 \<Rightarrow> byte \<Rightarrow> u32" where
  "crc_byte c b = (crc_bit ^^ 8) (c XOR ucast b)"

definition crc32_ref :: "byte list \<Rightarrow> u32" where
  "crc32_ref bs = NOT (fold (\<lambda>b c. crc_byte c b) bs (NOT 0))"

lemma crc_bit_xor: "crc_bit (x XOR y) = crc_bit x XOR crc_bit y"
  by (auto simp: crc_bit_def bit_simps ac_simps)

lemma crc_bits_xor: "(crc_bit ^^ n) (x XOR y) = (crc_bit ^^ n) x XOR (crc_bit ^^ n) y"
  by (induction n arbitrary: x y) (simp_all add: crc_bit_xor)

lemma crc_bit_double: "\<not> bit y 31 \<Longrightarrow> crc_bit (push_bit 1 y) = y"
proof -
  assume y: "\<not> bit y 31"
  have "drop_bit 1 (push_bit 1 y) = y"
  proof (rule bit_word_eqI)
    fix n assume "n < LENGTH(32)"
    then show "bit (drop_bit 1 (push_bit 1 y)) n = bit y n"
      using y by (cases "n = 31") (auto simp only: bit_drop_bit_eq bit_push_bit_iff o_apply, auto dest: bit_imp_le_length)
  qed
  moreover have "\<not> bit (push_bit 1 y) 0" by (simp only: bit_push_bit_iff) simp
  ultimately show ?thesis by (simp only: crc_bit_def if_False)
qed

lemma crc_bits_shift: "(crc_bit ^^ n) (push_bit n (drop_bit n x)) = drop_bit n x"
proof (induction n arbitrary: x)
  case (Suc n)
  let ?y = "push_bit n (drop_bit n (drop_bit 1 x))"
  have "push_bit (Suc n) (drop_bit (Suc n) x) = push_bit 1 ?y"
    by (simp only: push_bit_push_bit drop_bit_drop_bit) simp
  moreover have "\<not> bit ?y 31"
    using bit_imp_le_length [of x "Suc (n + (31 - n))"] by (auto simp only: bit_simps) auto
  then have "crc_bit (push_bit 1 ?y) = ?y" by (rule crc_bit_double)
  ultimately show ?case
    by (simp only: funpow_Suc_right o_apply Suc.IH) (simp add: drop_bit_drop_bit)
qed simp

text \<open>The entries of the table: eight of them by division, the others as sums of these.\<close>

lemma crc32_tab_double:
  "take 1 (drop 1 crc32_tab) = map (\<lambda>x. x XOR 0x77073096) (take 1 crc32_tab)"
  "take 2 (drop 2 crc32_tab) = map (\<lambda>x. x XOR 0xee0e612c) (take 2 crc32_tab)"
  "take 4 (drop 4 crc32_tab) = map (\<lambda>x. x XOR 0x076dc419) (take 4 crc32_tab)"
  "take 8 (drop 8 crc32_tab) = map (\<lambda>x. x XOR 0x0edb8832) (take 8 crc32_tab)"
  "take 16 (drop 16 crc32_tab) = map (\<lambda>x. x XOR 0x1db71064) (take 16 crc32_tab)"
  "take 32 (drop 32 crc32_tab) = map (\<lambda>x. x XOR 0x3b6e20c8) (take 32 crc32_tab)"
  "take 64 (drop 64 crc32_tab) = map (\<lambda>x. x XOR 0x76dc4190) (take 64 crc32_tab)"
  "take 128 (drop 128 crc32_tab) = map (\<lambda>x. x XOR 0xedb88320) (take 128 crc32_tab)"
  by (simp_all add: crc32_tab_def)

lemma crc32_powers:
  "(crc_bit ^^ 8) 1 = 0x77073096" "(crc_bit ^^ 8) 2 = 0xee0e612c" "(crc_bit ^^ 8) 4 = 0x076dc419" "(crc_bit ^^ 8) 8 = 0x0edb8832"
  "(crc_bit ^^ 8) 16 = 0x1db71064" "(crc_bit ^^ 8) 32 = 0x3b6e20c8" "(crc_bit ^^ 8) 64 = 0x76dc4190" "(crc_bit ^^ 8) 128 = 0xedb88320"
  by code_simp+

definition table_upto :: "nat \<Rightarrow> bool" where
  "table_upto n \<longleftrightarrow> (\<forall>i < n. crc32_tab ! i = (crc_bit ^^ 8) (of_nat i))"

lemma table_double:
  assumes "table_upto (2 ^ k)" and "k < 8" and "take (2 ^ k) (drop (2 ^ k) crc32_tab) = map (\<lambda>x. x XOR (crc_bit ^^ 8) (2 ^ k)) (take (2 ^ k) crc32_tab)"
  shows "table_upto (2 ^ Suc k)"
  unfolding table_upto_def
proof (intro allI impI)
  have l: "length crc32_tab = 2 ^ 8" by (simp add: crc32_tab_def)
  have k: "(2 :: nat) ^ Suc k \<le> 2 ^ 8" using assms(2) by (intro power_increasing) simp_all
  fix i assume i: "i < (2 :: nat) ^ Suc k"
  show "crc32_tab ! i = (crc_bit ^^ 8) (of_nat i)"
  proof (cases "i < 2 ^ k")
    case True
    with assms(1) show ?thesis by (simp add: table_upto_def)
  next
    case False
    define j where "j = i - 2 ^ k"
    have j: "i = 2 ^ k + j" "j < 2 ^ k" using False i by (simp_all add: j_def)
    have "(take (2 ^ k) (drop (2 ^ k) crc32_tab)) ! j = crc32_tab ! i" using j l k by simp
    then have t: "crc32_tab ! i = crc32_tab ! j XOR (crc_bit ^^ 8) (2 ^ k)" using assms(3) j l k by simp
    have "of_nat j AND (2 ^ k :: u32) = 0"
    proof (rule bit_word_eqI)
      fix n assume "n < LENGTH(32)"
      have "\<not> bit j k" using j(2) by (simp add: bit_iff_odd)
      then show "bit (of_nat j AND (2 ^ k :: u32)) n = bit (0 :: u32) n" by (auto simp: bit_simps)
    qed
    then have "of_nat i = of_nat j XOR (2 ^ k :: u32)"
      using disjunctive_add_eq_xor [of "of_nat j" "2 ^ k :: u32"] j(1) by (simp add: add.commute)
    then show ?thesis using t assms(1) j by (simp add: table_upto_def crc_bits_xor)
  qed
qed

lemma crc32_tab_bits: "i < 256 \<Longrightarrow> crc32_tab ! i = (crc_bit ^^ 8) (of_nat i)"
proof -
  have "table_upto (2 ^ 0)" by (simp add: table_upto_def crc32_tab_def) (simp add: crc_bit_def numeral_eq_Suc)
  then have "table_upto (2 ^ 1)"
    using table_double [of 0] crc32_tab_double(1) crc32_powers(1) by simp
  then have "table_upto (2 ^ 2)"
    using table_double [of 1] crc32_tab_double(2) crc32_powers(2) by simp
  then have "table_upto (2 ^ 3)"
    using table_double [of 2] crc32_tab_double(3) crc32_powers(3) by simp
  then have "table_upto (2 ^ 4)"
    using table_double [of 3] crc32_tab_double(4) crc32_powers(4) by simp
  then have "table_upto (2 ^ 5)"
    using table_double [of 4] crc32_tab_double(5) crc32_powers(5) by simp
  then have "table_upto (2 ^ 6)"
    using table_double [of 5] crc32_tab_double(6) crc32_powers(6) by simp
  then have "table_upto (2 ^ 7)"
    using table_double [of 6] crc32_tab_double(7) crc32_powers(7) by simp
  then have "table_upto 256"
    using table_double [of 7] crc32_tab_double(8) crc32_powers(8) by simp
  then show "i < 256 \<Longrightarrow> ?thesis" by (simp add: table_upto_def)
qed

lemma crc_step: "crc32_tab ! unat ((c XOR ucast b) AND 0xFF) XOR drop_bit 8 c = crc_byte c b"
proof -
  let ?x = "c XOR ucast b"
  have m: "?x AND 0xFF = take_bit 8 ?x" by (simp add: take_bit_eq_mask mask_eq_exp_minus_1)
  have x: "?x = take_bit 8 ?x XOR push_bit 8 (drop_bit 8 ?x)"
  proof (rule bit_word_eqI)
    fix n
    show "bit ?x n = bit (take_bit 8 ?x XOR push_bit 8 (drop_bit 8 ?x)) n" if "n < LENGTH(32)"
      using that by (cases "n < 8") (auto simp: bit_simps not_less dest: bit_imp_le_length)
  qed
  have d: "drop_bit 8 ?x = drop_bit 8 c" by (intro bit_word_eqI) (auto simp: bit_simps dest: bit_imp_le_length)
  have "unat (take_bit 8 ?x) < 256" by (simp only: unsigned_take_bit_eq) (simp add: take_bit_eq_mod)
  then have "crc32_tab ! unat (?x AND 0xFF) = (crc_bit ^^ 8) (take_bit 8 ?x)" unfolding m by (simp add: crc32_tab_bits)
  then show ?thesis
    unfolding crc_byte_def by (subst x) (simp only: crc_bits_xor crc_bits_shift d)
qed

lemma crc32_loop_eq:
  "p + n \<le> length m \<Longrightarrow> crc32_loop n c m p = Some (fold (\<lambda>b c. crc_byte c b) (take n (drop p m)) c)"
proof (induction n arbitrary: c p)
  case (Suc n)
  then have "take (Suc n) (drop p m) = m ! p # take n (drop (Suc p) m)" by (simp add: Cons_nth_drop_Suc [symmetric])
  with Suc show ?case by (simp add: crc_step)
qed simp

section \<open>Property\<close>

text \<open>
  C28: The checksum of a buffer of the key exchange is the CRC-32 of its contents, with
  every entry of the table equal to the eight steps of division it stands for.
\<close>

theorem crc32_is_polynomial_division:
  assumes "unat (m_size b) \<le> length (m_data b)"
  shows "crc_crc32 b = Some (mk (le_bytes 4 (crc32_ref (mbytes b))))"
proof -
  have "crc32 0 (m_data b) (unat (m_size b)) = Some (crc32_ref (mbytes b))"
    using assms crc32_loop_eq [of 0 "unat (m_size b)" "m_data b"] by (simp add: crc32_def crc32_ref_def mbytes_def)
  then show ?thesis using mbuf_add_eq [of 4 0 "le_bytes 4 (crc32_ref (mbytes b))"] by (simp add: crc_crc32_def max_buf_size_def)
qed

theorem crc32_is_polynomial_division_witness: "crc_crc32 (mk [0x61]) = Some (mk (le_bytes 4 (0xE8B7BE43 :: u32)))"
proof -
  have "crc32_ref [0x61] = 0xE8B7BE43" by code_simp
  then show ?thesis
    using crc32_is_polynomial_division [of "mk [0x61]"] by (simp add: max_buf_size_def)
qed

end
