(* ===== verification/Socket_Mutex.thy ===== *)
theory Socket_Mutex
  imports Main
begin

text \<open>
  The lock around receiving in \<^verbatim>\<open>tg_run_queue\<close> (\<^verbatim>\<open>libtg/tg/queue.c\<close>), as a transition system of
  any number of query threads that are not multithreaded: each loops over
  \<^verbatim>\<open>if (pthread_mutex_trylock(&tg->socket_mutex)) { receive; unlock } else continue\<close>.
  \<^verbatim>\<open>pthread_mutex_trylock\<close> returns 0 when it has taken the mutex.
\<close>

datatype pc = At_try | In_receive

record lstate =
  l_pc :: "nat \<Rightarrow> pc"
  l_held :: bool

inductive lstep :: "lstate \<Rightarrow> nat \<Rightarrow> lstate \<Rightarrow> bool" where
  taken: "l_pc s t = At_try \<Longrightarrow> \<not> l_held s \<Longrightarrow> lstep s t (s\<lparr>l_held := True\<rparr>)"
| busy: "l_pc s t = At_try \<Longrightarrow> l_held s \<Longrightarrow> lstep s t (s\<lparr>l_pc := (l_pc s)(t := In_receive)\<rparr>)"
| unlock: "l_pc s t = In_receive \<Longrightarrow> lstep s t (s\<lparr>l_pc := (l_pc s)(t := At_try), l_held := False\<rparr>)"

definition lstart :: lstate where
  "lstart = \<lparr>l_pc = (\<lambda>t. At_try), l_held = False\<rparr>"

inductive lreach :: "lstate \<Rightarrow> bool" where
  start: "lreach lstart"
| step: "lreach s \<Longrightarrow> lstep s t s' \<Longrightarrow> lreach s'"

code_pred lstep .

lemma lreach_two:
  assumes "i \<noteq> j"
  shows "lreach \<lparr>l_pc = (\<lambda>t. At_try)(i := In_receive, j := In_receive), l_held = True\<rparr>"
proof -
  have 1: "lreach \<lparr>l_pc = (\<lambda>t. At_try), l_held = True\<rparr>"
    using lreach.step [OF lreach.start lstep.taken [of lstart i]] by (simp add: lstart_def)
  have 2: "lreach \<lparr>l_pc = (\<lambda>t. At_try)(i := In_receive), l_held = True\<rparr>"
    using lreach.step [OF 1 lstep.busy [of _ i]] by simp
  show ?thesis
    using lreach.step [OF 2 lstep.busy [of _ j]] assms by (simp add: fun_upd_twist)
qed

text \<open>
  C40: The mutex does not exclude: any two query threads can be inside the receive section at
  the same time, because the section is entered exactly when the mutex could not be taken.
\<close>

theorem receive_not_exclusive:
  assumes "i \<noteq> j"
  shows "\<exists>s. lreach s \<and> l_pc s i = In_receive \<and> l_pc s j = In_receive"
  using lreach_two [OF assms] assms by (intro exI conjI) (assumption | simp)+

theorem receive_not_exclusive_witness:
  "\<exists>s. lreach s \<and> l_pc s 0 = In_receive \<and> l_pc s 1 = In_receive"
  by (rule receive_not_exclusive) simp

text \<open>
  A thread that finds the mutex free takes it and goes round without receiving: in every
  state in which the mutex is free, no next step starts a receive.
\<close>

theorem free_mutex_delays_receive:
  assumes "\<not> l_held s" and "lstep s t s'" and "l_pc s u = At_try"
  shows "l_pc s' u = At_try"
  using assms(2,1,3) by (cases rule: lstep.cases) auto

theorem free_mutex_delays_receive_witness:
  "l_pc (lstart\<lparr>l_held := True\<rparr>) 5 = At_try"
  by (rule free_mutex_delays_receive [OF _ lstep.taken [of lstart 3], of 5]) (simp_all add: lstart_def)

end
