(* ===== verification/Hash_Stream.thy ===== *)
theory Hash_Stream
  imports Prelude
begin

text \<open>
  What the streaming hash functions of \<^verbatim>\<open>libtg/mtx/src\<close> have in common: bytes are put one by
  one into a block of 64, a full block is compressed into the state, and at the end the
  message is padded to whole blocks.  The interface is a locale; SHA-1 and SHA-256 are its
  interpretations.
\<close>

section \<open>Blocks and padding, as the standard has them\<close>

fun chunks :: "byte list \<Rightarrow> byte list list" where
  "chunks xs = (if length xs < 64 then [] else take 64 xs # chunks (drop 64 xs))"

declare chunks.simps [simp del]

fun leftover :: "byte list \<Rightarrow> byte list" where
  "leftover xs = (if length xs < 64 then xs else leftover (drop 64 xs))"

declare leftover.simps [simp del]

text \<open>Big-endian words.\<close>

definition be_bytes :: "nat \<Rightarrow> 'a::len word \<Rightarrow> byte list" where
  "be_bytes n w = rev (le_bytes n w)"

definition be_val :: "byte list \<Rightarrow> 'a::len word" where
  "be_val bs = le_val (rev bs)"

definition zero_count :: "nat \<Rightarrow> nat" where
  "zero_count n = (119 - n mod 64) mod 64"

text \<open>FIPS 180: a bit 1, zeros, and the length in bits as 64 bits.\<close>

definition md_pad :: "byte list \<Rightarrow> byte list" where
  "md_pad msg = msg @ 0x80 # replicate (zero_count (length msg)) 0 @ be_bytes 8 (of_nat (8 * length msg) :: u64)"

definition md_hash :: "('h \<Rightarrow> byte list \<Rightarrow> 'h) \<Rightarrow> 'h \<Rightarrow> byte list \<Rightarrow> 'h" where
  "md_hash cmp iv msg = foldl cmp iv (chunks (md_pad msg))"

lemma length_be_bytes [simp]: "length (be_bytes n w) = n"
  by (simp add: be_bytes_def)

lemma chunks_block: "length xs = 64 \<Longrightarrow> chunks (xs @ ys) = xs # chunks ys"
  by (subst chunks.simps) simp

lemma leftover_block: "length xs = 64 \<Longrightarrow> leftover (xs @ ys) = leftover ys"
  by (subst leftover.simps) simp

lemma chunks_short [simp]: "length xs < 64 \<Longrightarrow> chunks xs = []"
  by (subst chunks.simps) simp

lemma leftover_short [simp]: "length xs < 64 \<Longrightarrow> leftover xs = xs"
  by (subst leftover.simps) simp

lemma length_leftover: "length (leftover xs) = length xs mod 64"
proof (induction xs rule: leftover.induct)
  case (1 xs)
  then show ?case by (subst leftover.simps) (auto simp: le_mod_geq)
qed

lemma chunks_full: "64 dvd length xs \<Longrightarrow> concat (chunks xs) = xs \<and> (\<forall>c \<in> set (chunks xs). length c = 64)"
proof (induction xs rule: chunks.induct)
  case (1 xs)
  show ?case
  proof (cases "length xs < 64")
    case True
    with 1 have "length xs = 0" using nat_dvd_not_less by blast
    then show ?thesis by simp
  next
    case False
    then have d: "64 dvd length (drop 64 xs)" using 1(2) dvd_diff_nat [of 64 "length xs" 64] by simp
    note ih = 1(1) [OF False d]
    have "chunks xs = take 64 xs # chunks (drop 64 xs)" using False by (subst chunks.simps) simp
    moreover have "length (take 64 xs) = 64" using False by simp
    ultimately show ?thesis using ih by (metis append_take_drop_id concat.simps(2) set_ConsD)
  qed
qed

lemma zero_count_aligns: "(length msg + Suc (zero_count (length msg))) mod 64 = 56"
proof -
  let ?n = "length msg" and ?r = "length msg mod 64"
  have "(?n + Suc (zero_count ?n)) mod 64 = (?r + Suc (119 - ?r)) mod 64"
    unfolding zero_count_def by (metis add_Suc_right mod_Suc_eq mod_add_eq mod_mod_trivial)
  also have "?r + Suc (119 - ?r) = 120"
  proof -
    have "?r < 64" by simp
    then show ?thesis by linarith
  qed
  finally show ?thesis by simp
qed

lemma md_pad_aligned: "64 dvd length (md_pad msg)"
proof -
  have "length (md_pad msg) = (length msg + Suc (zero_count (length msg))) + 8" by (simp add: md_pad_def)
  also have "\<dots> mod 64 = (56 + 8) mod 64" by (subst zero_count_aligns [of msg, symmetric]) (rule mod_add_left_eq [symmetric])
  finally have "length (md_pad msg) mod 64 = 0" by simp
  then show ?thesis by (rule dvd_eq_mod_eq_0 [THEN iffD2])
qed

section \<open>The interface\<close>

text \<open>
  \<open>put\<close> adds one byte (and fails outside the buffer), \<open>hst\<close> is the chaining state, \<open>held\<close> the
  bytes of the unfinished block, \<open>pos\<close> their number.
\<close>

locale block_stream =
  fixes put :: "'s \<Rightarrow> byte \<Rightarrow> 's option"
    and hst :: "'s \<Rightarrow> 'h"
    and held :: "'s \<Rightarrow> byte list"
    and pos :: "'s \<Rightarrow> nat"
    and good :: "'s \<Rightarrow> bool"
    and cmp :: "'h \<Rightarrow> byte list \<Rightarrow> 'h"
  assumes pos_held: "good s \<Longrightarrow> pos s = length (held s)"
    and held_short: "good s \<Longrightarrow> length (held s) < 64"
    and put_open: "good s \<Longrightarrow> length (held s) < 63 \<Longrightarrow>
          \<exists>s'. put s b = Some s' \<and> good s' \<and> hst s' = hst s \<and> held s' = held s @ [b]"
    and put_full: "good s \<Longrightarrow> length (held s) = 63 \<Longrightarrow>
          \<exists>s'. put s b = Some s' \<and> good s' \<and> hst s' = cmp (hst s) (held s @ [b]) \<and> held s' = []"
begin

fun puts :: "'s \<Rightarrow> byte list \<Rightarrow> 's option" where
  "puts s [] = Some s"
| "puts s (b # bs) = put s b \<bind> (\<lambda>s. puts s bs)"

lemma puts_append: "puts s (xs @ ys) = puts s xs \<bind> (\<lambda>s. puts s ys)"
  by (induction xs arbitrary: s) (auto split: Option.bind_splits)

lemma puts_absorb:
  assumes "good s"
  shows "\<exists>s'. puts s bs = Some s' \<and> good s' \<and> hst s' = foldl cmp (hst s) (chunks (held s @ bs)) \<and>
              held s' = leftover (held s @ bs)"
  using assms
proof (induction bs arbitrary: s)
  case Nil
  then show ?case using held_short [OF Nil] by simp
next
  case (Cons b bs)
  show ?case
  proof (cases "length (held s) = 63")
    case True
    with put_full [OF Cons.prems] obtain s1 where
      s1: "put s b = Some s1" "good s1" "hst s1 = cmp (hst s) (held s @ [b])" "held s1 = []" by blast
    have l: "length (held s @ [b]) = 64" using True by simp
    from Cons.IH [OF s1(2)] s1 chunks_block [OF l, of bs] leftover_block [OF l, of bs] show ?thesis by auto
  next
    case False
    with held_short [OF Cons.prems] have "length (held s) < 63" by linarith
    with put_open [OF Cons.prems] obtain s1 where
      s1: "put s b = Some s1" "good s1" "hst s1 = hst s" "held s1 = held s @ [b]" by blast
    from Cons.IH [OF s1(2)] s1 show ?thesis by auto
  qed
qed

text \<open>The loop \<^verbatim>\<open>while (pos != 56) put(0)\<close> ends and puts exactly the zeros the standard asks for.\<close>

lemma pad_loop:
  assumes "\<And>s. loop s = (if pos s \<noteq> 56 then put s 0 \<bind> loop else Some s)"
    and "good s" and "(length (held s) + n) mod 64 = 56" and "n < 64"
  shows "loop s = puts s (replicate n 0)"
  using assms(2-)
proof (induction n arbitrary: s)
  case 0
  then have "pos s = 56" using pos_held held_short by fastforce
  then show ?case by (subst assms(1)) simp
next
  case (Suc n)
  have h: "length (held s) < 64" using held_short [OF Suc.prems(1)] .
  have "length (held s) \<noteq> 56"
  proof
    assume "length (held s) = 56"
    with Suc.prems(2) have "(56 + Suc n) mod 64 = 56" by simp
    moreover have "(56 + Suc n) mod 64 = (if Suc n < 8 then 56 + Suc n else Suc n - 8)"
      using Suc.prems(3) by (auto simp: mod_if)
    ultimately show False using Suc.prems(3) by (auto split: if_splits)
  qed
  then have ne: "pos s \<noteq> 56" using pos_held [OF Suc.prems(1)] by simp
  obtain s1 where s1: "put s 0 = Some s1" "good s1" and l: "length (held s1) = Suc (length (held s)) mod 64"
  proof (cases "length (held s) = 63")
    case True
    with put_full [OF Suc.prems(1)] that show ?thesis by fastforce
  next
    case False
    with h have "length (held s) < 63" by linarith
    with put_open [OF Suc.prems(1)] that show ?thesis by fastforce
  qed
  have "(length (held s1) + n) mod 64 = 56" using l Suc.prems(2) by (simp add: mod_add_left_eq)
  with Suc.IH [OF s1(2)] Suc.prems(3) s1(1) ne show ?case by (subst assms(1)) simp
qed

text \<open>A whole message: the bytes, the padding, the length.\<close>

lemma stream_hash:
  assumes "\<And>s. loop s = (if pos s \<noteq> 56 then put s 0 \<bind> loop else Some s)"
    and "good s" and "held s = []"
  shows "\<exists>s'. puts s msg \<bind> (\<lambda>s. put s 0x80 \<bind> loop \<bind> (\<lambda>s. puts s (be_bytes 8 (of_nat (8 * length msg) :: u64)))) = Some s' \<and>
              good s' \<and> hst s' = md_hash cmp (hst s) msg"
proof -
  obtain s1 where s1: "puts s msg = Some s1" "good s1" "held s1 = leftover msg"
    using puts_absorb [OF assms(2), of msg] assms(3) by auto
  obtain s2 where s2: "put s1 0x80 = Some s2" "good s2" "length (held s2) = Suc (length msg) mod 64"
  proof (cases "length (held s1) = 63")
    case True
    with put_full [OF s1(2)] that s1(3) show ?thesis by (fastforce simp: length_leftover mod_Suc)
  next
    case False
    with held_short [OF s1(2)] have "length (held s1) < 63" by linarith
    with put_open [OF s1(2)] that s1(3) show ?thesis by (fastforce simp: length_leftover mod_Suc)
  qed
  have "(length (held s2) + zero_count (length msg)) mod 64 = 56"
    using s2(3) zero_count_aligns [of msg] by (simp add: mod_add_left_eq)
  then have l: "loop s2 = puts s2 (replicate (zero_count (length msg)) 0)"
    by (intro pad_loop [OF assms(1) s2(2)]) (simp_all add: zero_count_def)
  have "puts s msg \<bind> (\<lambda>s. put s 0x80 \<bind> loop \<bind> (\<lambda>s. puts s (be_bytes 8 (of_nat (8 * length msg) :: u64)))) =
        puts s (md_pad msg)"
    using s1(1) s2(1) l by (simp add: md_pad_def puts_append)
  moreover obtain s' where "puts s (md_pad msg) = Some s'" "good s'" "hst s' = md_hash cmp (hst s) msg"
    using puts_absorb [OF assms(2), of "md_pad msg"] assms(3) by (auto simp: md_hash_def)
  ultimately show ?thesis by simp
qed

end

end
