(* ===== verification/Sha256.thy ===== *)
theory Sha256
  imports Hash_Stream
begin

text \<open>
  \<^verbatim>\<open>libtg/mtx/src/sha256.c\<close>: SHA-256 with a rolling window of sixteen words instead of the
  whole message schedule, and with the eight registers renamed instead of shifted.  It is
  compared with the functions of FIPS 180-4.
\<close>

section \<open>The code\<close>

record sha256 =
  sh_state :: "u32 list"
  sh_buffer :: "byte list"
  sh_n_bits :: u64
  sh_counter :: nat

type_synonym regs = "u32 \<times> u32 \<times> u32 \<times> u32 \<times> u32 \<times> u32 \<times> u32 \<times> u32"

definition rotr :: "u32 \<Rightarrow> nat \<Rightarrow> u32" where
  "rotr x n = drop_bit n x OR push_bit (32 - n) x"

definition step1 :: "u32 \<Rightarrow> u32 \<Rightarrow> u32 \<Rightarrow> u32" where
  "step1 e f g = (rotr e 6 XOR rotr e 11 XOR rotr e 25) + ((e AND f) XOR (NOT e AND g))"

definition step2 :: "u32 \<Rightarrow> u32 \<Rightarrow> u32 \<Rightarrow> u32" where
  "step2 a b c = (rotr a 2 XOR rotr a 13 XOR rotr a 22) + ((a AND b) XOR (a AND c) XOR (b AND c))"

text \<open>One turn of the loop over \<open>j\<close>; \<^verbatim>\<open>& 15\<close> is the remainder by 16.\<close>

definition update_w_step :: "nat \<Rightarrow> byte list \<Rightarrow> u32 list \<Rightarrow> nat \<Rightarrow> u32 list" where
  "update_w_step i buffer w j =
     (if i < 16 then
        w[j := push_bit 24 (ucast (buffer ! (4 * j))) OR push_bit 16 (ucast (buffer ! (4 * j + 1))) OR
               push_bit 8 (ucast (buffer ! (4 * j + 2))) OR ucast (buffer ! (4 * j + 3))]
      else
        let a = w ! ((j + 1) mod 16);
            b = w ! ((j + 14) mod 16);
            s0 = rotr a 7 XOR rotr a 18 XOR drop_bit 3 a;
            s1 = rotr b 17 XOR rotr b 19 XOR drop_bit 10 b
        in w[j := w ! j + (w ! ((j + 9) mod 16) + s0 + s1)])"

definition update_w :: "u32 list \<Rightarrow> nat \<Rightarrow> byte list \<Rightarrow> u32 list" where
  "update_w w i buffer = foldl (update_w_step i buffer) w [0..<16]"

definition sha256_k :: "u32 list" where
  "sha256_k = concat [
     [0x428a2f98, 0x71374491, 0xb5c0fbcf, 0xe9b5dba5],
     [0x3956c25b, 0x59f111f1, 0x923f82a4, 0xab1c5ed5],
     [0xd807aa98, 0x12835b01, 0x243185be, 0x550c7dc3],
     [0x72be5d74, 0x80deb1fe, 0x9bdc06a7, 0xc19bf174],
     [0xe49b69c1, 0xefbe4786, 0x0fc19dc6, 0x240ca1cc],
     [0x2de92c6f, 0x4a7484aa, 0x5cb0a9dc, 0x76f988da],
     [0x983e5152, 0xa831c66d, 0xb00327c8, 0xbf597fc7],
     [0xc6e00bf3, 0xd5a79147, 0x06ca6351, 0x14292967],
     [0x27b70a85, 0x2e1b2138, 0x4d2c6dfc, 0x53380d13],
     [0x650a7354, 0x766a0abb, 0x81c2c92e, 0x92722c85],
     [0xa2bfe8a1, 0xa81a664b, 0xc24b8b70, 0xc76c51a3],
     [0xd192e819, 0xd6990624, 0xf40e3585, 0x106aa070],
     [0x19a4c116, 0x1e376c08, 0x2748774c, 0x34b0bcb5],
     [0x391c0cb3, 0x4ed8aa4a, 0x5b9cca4f, 0x682e6ff3],
     [0x748f82ee, 0x78a5636f, 0x84c87814, 0x8cc70208],
     [0x90befffa, 0xa4506ceb, 0xbef9a3f7, 0xc67178f2]]"

text \<open>The body of the inner loop: four rounds with the registers renamed from line to line.\<close>

fun sha256_quad :: "nat \<Rightarrow> u32 list \<Rightarrow> regs \<Rightarrow> nat \<Rightarrow> regs" where
  "sha256_quad i w (a, b, c, d, e, f, g, h) j =
     (let temp = h + step1 e f g + sha256_k ! (i + j + 0) + w ! (j + 0);
          h = temp + d;
          d = temp + step2 a b c;
          temp = g + step1 h e f + sha256_k ! (i + j + 1) + w ! (j + 1);
          g = temp + c;
          c = temp + step2 d a b;
          temp = f + step1 g h e + sha256_k ! (i + j + 2) + w ! (j + 2);
          f = temp + b;
          b = temp + step2 c d a;
          temp = e + step1 f g h + sha256_k ! (i + j + 3) + w ! (j + 3);
          e = temp + a;
          a = temp + step2 b c d
      in (a, b, c, d, e, f, g, h))"

definition sha256_sixteen :: "byte list \<Rightarrow> u32 list \<times> regs \<Rightarrow> nat \<Rightarrow> u32 list \<times> regs" where
  "sha256_sixteen buffer wr i =
     (let w = update_w (fst wr) i buffer in (w, foldl (sha256_quad i w) (snd wr) [0, 4, 8, 12]))"

definition regs_of :: "u32 list \<Rightarrow> regs" where
  "regs_of s = (s ! 0, s ! 1, s ! 2, s ! 3, s ! 4, s ! 5, s ! 6, s ! 7)"

fun add_regs :: "u32 list \<Rightarrow> regs \<Rightarrow> u32 list" where
  "add_regs s (a, b, c, d, e, f, g, h) =
     [s ! 0 + a, s ! 1 + b, s ! 2 + c, s ! 3 + d, s ! 4 + e, s ! 5 + f, s ! 6 + g, s ! 7 + h]"

definition sha256_block :: "sha256 \<Rightarrow> sha256" where
  "sha256_block sha =
     (let s = sh_state sha;
          wr = foldl (sha256_sixteen (sh_buffer sha)) (replicate 16 0, regs_of s) [0, 16, 32, 48]
      in sha\<lparr>sh_state := add_regs s (snd wr)\<rparr>)"

definition sha256_iv :: "u32 list" where
  "sha256_iv = [0x6a09e667, 0xbb67ae85, 0x3c6ef372, 0xa54ff53a, 0x510e527f, 0x9b05688c, 0x1f83d9ab, 0x5be0cd19]"

text \<open>The buffer of the struct on the stack holds \<open>junk\<close> at first.\<close>

definition sha256_init :: "byte list \<Rightarrow> sha256" where
  "sha256_init junk = \<lparr>sh_state = sha256_iv, sh_buffer = junk, sh_n_bits = 0, sh_counter = 0\<rparr>"

definition sha256_append_byte :: "sha256 \<Rightarrow> byte \<Rightarrow> sha256 option" where
  "sha256_append_byte sha byte =
     (if \<not> sh_counter sha < length (sh_buffer sha) then None
      else
        let sha = sha\<lparr>sh_buffer := (sh_buffer sha)[sh_counter sha := byte], sh_counter := sh_counter sha + 1,
                      sh_n_bits := sh_n_bits sha + 8\<rparr>
        in Some (if sh_counter sha = 64 then sha256_block (sha\<lparr>sh_counter := 0\<rparr>) else sha))"

fun sha256_append :: "sha256 \<Rightarrow> byte list \<Rightarrow> sha256 option" where
  "sha256_append sha [] = Some sha"
| "sha256_append sha (b # bs) = do { sha \<leftarrow> sha256_append_byte sha b; sha256_append sha bs }"

partial_function (option) sha256_zeros :: "sha256 \<Rightarrow> sha256 option" where
  "sha256_zeros sha =
     (if sh_counter sha \<noteq> 56 then sha256_append_byte sha 0 \<bind> sha256_zeros else Some sha)"

declare sha256_zeros.simps [code]

definition sha256_finalize :: "sha256 \<Rightarrow> sha256 option" where
  "sha256_finalize sha = do {
     let n_bits = sh_n_bits sha;
     sha \<leftarrow> sha256_append_byte sha 0x80;
     sha \<leftarrow> sha256_zeros sha;
     sha256_append sha (map (\<lambda>i. ucast (drop_bit (8 * i) n_bits)) [7, 6, 5, 4, 3, 2, 1, 0])
   }"

definition sha256_finalize_bytes :: "sha256 \<Rightarrow> byte list option" where
  "sha256_finalize_bytes sha = do {
     sha \<leftarrow> sha256_finalize sha;
     Some (concat (map (\<lambda>i. map (\<lambda>j. ucast (drop_bit (j * 8) (sh_state sha ! i))) [3, 2, 1, 0]) [0..<8]))
   }"

definition sha256_finalize_hex :: "sha256 \<Rightarrow> string option" where
  "sha256_finalize_hex sha = do {
     sha \<leftarrow> sha256_finalize sha;
     Some (concat (map (\<lambda>i. map (\<lambda>j. ''0123456789abcdef'' ! unat (drop_bit (j * 4) (sh_state sha ! i) AND 0xf))
       [7, 6, 5, 4, 3, 2, 1, 0]) [0..<8]))
   }"

definition sha256_bytes :: "byte list \<Rightarrow> byte list \<Rightarrow> byte list option" where
  "sha256_bytes junk src = do { sha \<leftarrow> sha256_append (sha256_init junk) src; sha256_finalize_bytes sha }"

definition sha256_hex :: "byte list \<Rightarrow> byte list \<Rightarrow> string option" where
  "sha256_hex junk src = do { sha \<leftarrow> sha256_append (sha256_init junk) src; sha256_finalize_hex sha }"

section \<open>FIPS 180-4\<close>

definition fips_Ch :: "u32 \<Rightarrow> u32 \<Rightarrow> u32 \<Rightarrow> u32" where
  "fips_Ch x y z = (x AND y) XOR (NOT x AND z)"

definition fips_Maj :: "u32 \<Rightarrow> u32 \<Rightarrow> u32 \<Rightarrow> u32" where
  "fips_Maj x y z = (x AND y) XOR (x AND z) XOR (y AND z)"

definition fips_Sigma0 :: "u32 \<Rightarrow> u32" where
  "fips_Sigma0 x = word_rotr 2 x XOR word_rotr 13 x XOR word_rotr 22 x"

definition fips_Sigma1 :: "u32 \<Rightarrow> u32" where
  "fips_Sigma1 x = word_rotr 6 x XOR word_rotr 11 x XOR word_rotr 25 x"

definition fips_sigma0 :: "u32 \<Rightarrow> u32" where
  "fips_sigma0 x = word_rotr 7 x XOR word_rotr 18 x XOR drop_bit 3 x"

definition fips_sigma1 :: "u32 \<Rightarrow> u32" where
  "fips_sigma1 x = word_rotr 17 x XOR word_rotr 19 x XOR drop_bit 10 x"

fun fips_W :: "byte list \<Rightarrow> nat \<Rightarrow> u32" where
  "fips_W blk t =
     (if t < 16 then be_val (take 4 (drop (4 * t) blk))
      else fips_sigma1 (fips_W blk (t - 2)) + fips_W blk (t - 7) + fips_sigma0 (fips_W blk (t - 15)) + fips_W blk (t - 16))"

declare fips_W.simps [simp del]

fun fips_round :: "(nat \<Rightarrow> u32) \<Rightarrow> regs \<Rightarrow> nat \<Rightarrow> regs" where
  "fips_round W (a, b, c, d, e, f, g, h) t =
     (let T1 = h + fips_Sigma1 e + fips_Ch e f g + sha256_k ! t + W t;
          T2 = fips_Sigma0 a + fips_Maj a b c
      in (T1 + T2, a, b, c, d + T1, e, f, g))"

definition fips_compress :: "u32 list \<Rightarrow> byte list \<Rightarrow> u32 list" where
  "fips_compress H blk = add_regs H (foldl (fips_round (fips_W blk)) (regs_of H) [0..<64])"

definition fips_sha256 :: "byte list \<Rightarrow> byte list" where
  "fips_sha256 msg = concat (map (be_bytes 4) (md_hash fips_compress sha256_iv msg))"

section \<open>The block function\<close>

lemma rotr_eq: "0 < n \<Longrightarrow> n < 32 \<Longrightarrow> rotr x n = word_rotr n x"
proof (rule bit_word_eqI)
  fix k assume n: "0 < n" "n < 32" and "k < LENGTH(32)"
  then have k: "k < 32" by simp
  have o: "bit x i \<Longrightarrow> i < 32" for i using bit_imp_le_length [of x i] by simp
  have m: "(k + n) mod 32 = (if k + n < 32 then k + n else k + n - 32)"
  proof (cases "k + n < 32")
    case False
    then show ?thesis using k n le_mod_geq [of 32 "k + n"] by simp
  qed simp
  have "bit (rotr x n) k \<longleftrightarrow> bit x (n + k) \<or> 32 - n \<le> k \<and> bit x (k - (32 - n))"
    using k by (simp add: rotr_def bit_simps)
  also have "\<dots> \<longleftrightarrow> bit x ((k + n) mod 32)"
  proof (cases "k + n < 32")
    case True
    then have "\<not> 32 - n \<le> k" by linarith
    with True m show ?thesis by (simp add: add.commute)
  next
    case False
    then have "32 - n \<le> k" "k - (32 - n) = k + n - 32" "\<not> bit x (n + k)" using n o [of "n + k"] by auto
    with False m show ?thesis by simp
  qed
  finally show "bit (rotr x n) k \<longleftrightarrow> bit (word_rotr n x) k"
    using k by (simp add: bit_simps)
qed

lemma steps_eq: "step1 e f g = fips_Sigma1 e + fips_Ch e f g" "step2 a b c = fips_Sigma0 a + fips_Maj a b c"
  by (simp_all add: step1_def step2_def fips_Sigma1_def fips_Sigma0_def fips_Ch_def fips_Maj_def rotr_eq)

lemma quad_rounds:
  assumes "\<And>x. x < 16 \<Longrightarrow> w ! x = W (i + x)" and "j \<le> 12"
  shows "sha256_quad i w r j = foldl (fips_round W) r [i + j, i + j + 1, i + j + 2, i + j + 3]"
proof -
  obtain a b c d e f g h where r: "r = (a, b, c, d, e, f, g, h)" by (metis prod.exhaust)
  have w: "w ! j = W (i + j)" "w ! (j + 1) = W (i + j + 1)" "w ! (j + 2) = W (i + j + 2)" "w ! (j + 3) = W (i + j + 3)"
    using assms(1) [of j] assms(1) [of "j + 1"] assms(1) [of "j + 2"] assms(1) [of "j + 3"] assms(2) by (simp_all add: add.assoc)
  show ?thesis
    unfolding r using w by (simp add: Let_def steps_eq add.assoc add.left_commute add.commute)
qed

lemma length_update_w [simp]: "length (update_w w i buffer) = length w"
proof -
  have "length (foldl (update_w_step i buffer) w xs) = length w" for xs
    by (induction xs arbitrary: w) (auto simp: update_w_step_def Let_def)
  then show ?thesis by (simp add: update_w_def)
qed

lemma be_word:
  assumes "length bs = 4"
  shows "push_bit 24 (ucast (bs ! 0)) OR push_bit 16 (ucast (bs ! 1)) OR push_bit 8 (ucast (bs ! 2)) OR ucast (bs ! 3) =
         (be_val bs :: u32)"
proof -
  obtain x y z u where "bs = [x, y, z, u]"
    using assms by (auto simp: length_Suc_conv numeral_eq_Suc)
  then show ?thesis by (simp add: be_val_def push_bit_or or.assoc or.left_commute or.commute)
qed

text \<open>The first sixteen words are read from the block.\<close>

lemma update_w_first:
  assumes "length w = 16" and "length buffer = 64" and "x < 16"
  shows "update_w w 0 buffer ! x = fips_W buffer x"
proof -
  have "\<forall>x < n. foldl (update_w_step 0 buffer) w [0..<n] ! x = fips_W buffer x" if "n \<le> 16" for n
    using that
  proof (induction n)
    case 0
    then show ?case by simp
  next
    case (Suc n)
    let ?v = "foldl (update_w_step 0 buffer) w [0..<n]"
    have l: "length (foldl (update_w_step 0 buffer) w xs) = length w" for xs
      by (induction xs arbitrary: w) (auto simp: update_w_step_def Let_def)
    let ?bs = "take 4 (drop (4 * n) buffer)"
    have "fips_W buffer n = be_val ?bs" using Suc.prems by (subst fips_W.simps) simp
    also have "\<dots> = push_bit 24 (ucast (?bs ! 0)) OR push_bit 16 (ucast (?bs ! 1)) OR push_bit 8 (ucast (?bs ! 2)) OR ucast (?bs ! 3)"
      using be_word [of ?bs] assms(2) Suc.prems by simp
    finally have n: "update_w_step 0 buffer ?v n ! n = fips_W buffer n"
      using assms(1,2) Suc.prems l by (simp add: update_w_step_def)
    show ?case
    proof (intro allI impI)
      fix x assume "x < Suc n"
      then consider "x < n" | "x = n" by linarith
      then show "foldl (update_w_step 0 buffer) w [0..<Suc n] ! x = fips_W buffer x"
      proof cases
        case 1
        then have "update_w_step 0 buffer ?v n ! x = ?v ! x" by (simp add: update_w_step_def)
        with 1 show ?thesis using Suc.IH Suc.prems by simp
      next
        case 2
        then show ?thesis using n by simp
      qed
    qed
  qed
  from this [of 16] assms(3) show ?thesis by (simp add: update_w_def)
qed

text \<open>Later the window slides: every entry is replaced in place by the one sixteen further on.\<close>

lemma window_index:
  fixes j m :: nat
  assumes "j < 16" and "0 < m" and "m < 16"
  shows "(j + m) mod 16 < 16" "(if (j + m) mod 16 < j then 16 * q + 16 else 16 * q) + (j + m) mod 16 = 16 * q + j + m"
  using assms by (auto simp: mod_if)

lemma update_w_next:
  assumes "length w = 16" and "\<And>x. x < 16 \<Longrightarrow> w ! x = fips_W buffer (16 * q + x)" and "x < 16"
  shows "update_w w (16 * q + 16) buffer ! x = fips_W buffer (16 * q + 16 + x)"
proof -
  let ?s = "update_w_step (16 * q + 16) buffer"
  have "\<forall>x < 16. foldl ?s w [0..<n] ! x = fips_W buffer ((if x < n then 16 * q + 16 else 16 * q) + x)" if "n \<le> 16" for n
    using that
  proof (induction n)
    case 0
    then show ?case using assms(2) by simp
  next
    case (Suc n)
    let ?v = "foldl ?s w [0..<n]"
    have l: "length (foldl ?s w xs) = 16" for xs
      using assms(1) by (induction xs arbitrary: w) (auto simp: update_w_step_def Let_def)
    have at: "?v ! ((n + m) mod 16) = fips_W buffer (16 * q + n + m)" if "0 < m" "m < 16" for m
      using Suc window_index(1) [of n m] window_index(2) [of n m q] that by simp
    have vn: "?v ! n = fips_W buffer (16 * q + n)" using Suc by simp
    let ?t = "16 * q + 16 + n"
    have t: "?t - 2 = 16 * q + n + 14" "?t - 7 = 16 * q + n + 9" "?t - 15 = 16 * q + n + 1" "?t - 16 = 16 * q + n"
      by linarith+
    have "fips_W buffer ?t = fips_sigma1 (fips_W buffer (?t - 2)) + fips_W buffer (?t - 7) +
        fips_sigma0 (fips_W buffer (?t - 15)) + fips_W buffer (?t - 16)"
      by (subst fips_W.simps) simp
    then have n: "?s ?v n ! n = fips_W buffer ?t"
      unfolding t
      using Suc.prems l at [of 1] at [of 14] at [of 9] vn
      by (simp add: update_w_step_def Let_def fips_sigma0_def fips_sigma1_def rotr_eq add.commute add.left_commute add.assoc)
    show ?case
    proof (intro allI impI)
      fix x :: nat assume x: "x < 16"
      show "foldl ?s w [0..<Suc n] ! x = fips_W buffer ((if x < Suc n then 16 * q + 16 else 16 * q) + x)"
      proof (cases "x = n")
        case True
        then show ?thesis using n by simp
      next
        case False
        then have "?s ?v n ! x = ?v ! x" by (simp add: update_w_step_def Let_def)
        with False Suc x show ?thesis by auto
      qed
    qed
  qed
  from this [of 16] assms(3) show ?thesis by (simp add: update_w_def)
qed

lemma upt_sixteen:
  "[i..<i + 16] = [i, i + 1, i + 2, i + 3] @ [i + 4, i + 4 + 1, i + 4 + 2, i + 4 + 3] @
     [i + 8, i + 8 + 1, i + 8 + 2, i + 8 + 3] @ [i + 12, i + 12 + 1, i + 12 + 2, i + 12 + 3]"
proof -
  have "[i..<i + 16] = map (\<lambda>x. x + i) [0..<16]" using map_add_upt [of i 16] by (simp add: add.commute)
  moreover have "[0..<16] = [0, 1, 2, 3, 4, 5, 6, 7, 8, 9, 10, 11, 12, 13, 14, 15 :: nat]" by (simp add: upt_rec)
  ultimately show ?thesis by simp
qed

lemma quads_rounds:
  assumes "\<And>x. x < 16 \<Longrightarrow> w ! x = W (i + x)"
  shows "foldl (sha256_quad i w) r [0, 4, 8, 12] = foldl (fips_round W) r [i..<i + 16]"
  unfolding upt_sixteen foldl_append foldl.simps
  using quad_rounds [where i = i and w = w and W = W, OF assms] by simp

lemma sixteen_rounds:
  assumes "\<And>x. x < 16 \<Longrightarrow> update_w w i b ! x = W (i + x)"
  shows "sha256_sixteen b (w, r) i = (update_w w i b, foldl (fips_round W) r [i..<i + 16])"
  using quads_rounds [where W = W, OF assms] by (simp add: sha256_sixteen_def Let_def)

lemma block_compress:
  assumes "length (sh_buffer sha) = 64"
  shows "sha256_block sha = sha\<lparr>sh_state := fips_compress (sh_state sha) (sh_buffer sha)\<rparr>"
proof -
  let ?b = "sh_buffer sha" and ?W = "fips_W (sh_buffer sha)"
  let ?w0 = "update_w (replicate 16 0) 0 ?b"
  let ?w1 = "update_w ?w0 16 ?b" let ?w2 = "update_w ?w1 32 ?b" let ?w3 = "update_w ?w2 48 ?b"
  have w0: "?w0 ! x = ?W (0 + x)" if "x < 16" for x
    using update_w_first [of "replicate 16 0" ?b x] assms that by simp
  have w1: "?w1 ! x = ?W (16 + x)" if "x < 16" for x
    using update_w_next [of ?w0 ?b 0 x] w0 that by simp
  have w2: "?w2 ! x = ?W (32 + x)" if "x < 16" for x
    using update_w_next [of ?w1 ?b 1 x] w1 that by simp
  have w3: "?w3 ! x = ?W (48 + x)" if "x < 16" for x
    using update_w_next [of ?w2 ?b 2 x] w2 that by simp
  have s: "[0..<64] = [0..<0 + 16] @ [16..<16 + 16] @ [32..<32 + 16] @ [48..<48 + (16 :: nat)]"
    by (simp del: upt_rec_numeral add: upt_add_eq_append [of 0 16 48, simplified] upt_add_eq_append [of 16 32 32, simplified]
        upt_add_eq_append [of 32 48 16, simplified])
  have e: "sha256_sixteen ?b (replicate 16 0, r) 0 = (?w0, foldl (fips_round ?W) r [0..<0 + 16])"
    "sha256_sixteen ?b (?w0, r) 16 = (?w1, foldl (fips_round ?W) r [16..<16 + 16])"
    "sha256_sixteen ?b (?w1, r) 32 = (?w2, foldl (fips_round ?W) r [32..<32 + 16])"
    "sha256_sixteen ?b (?w2, r) 48 = (?w3, foldl (fips_round ?W) r [48..<48 + 16])" for r
    by (rule sixteen_rounds, erule w0 w1 w2 w3)+
  have "snd (foldl (sha256_sixteen ?b) (replicate 16 0, regs_of (sh_state sha)) [0, 16, 32, 48]) =
     foldl (fips_round ?W) (regs_of (sh_state sha)) [0..<64]"
    unfolding s foldl_append foldl.simps e snd_conv ..
  then show ?thesis by (simp only: sha256_block_def fips_compress_def Let_def)
qed

section \<open>The stream\<close>

definition sha256_good :: "sha256 \<Rightarrow> bool" where
  "sha256_good sha \<longleftrightarrow> length (sh_buffer sha) = 64 \<and> sh_counter sha < 64"

definition sha256_held :: "sha256 \<Rightarrow> byte list" where
  "sha256_held sha = take (sh_counter sha) (sh_buffer sha)"

lemma block_simps [simp]:
  "sh_buffer (sha256_block sha) = sh_buffer sha" "sh_counter (sha256_block sha) = sh_counter sha"
  "sh_n_bits (sha256_block sha) = sh_n_bits sha"
  by (simp_all add: sha256_block_def Let_def)

interpretation sha256: block_stream sha256_append_byte sh_state sha256_held sh_counter sha256_good fips_compress
proof unfold_locales
  fix s b assume g: "sha256_good s" and l: "length (sha256_held s) < 63"
  then show "\<exists>s'. sha256_append_byte s b = Some s' \<and> sha256_good s' \<and> sh_state s' = sh_state s \<and> sha256_held s' = sha256_held s @ [b]"
    by (auto simp: sha256_good_def sha256_held_def sha256_append_byte_def take_Suc_conv_app_nth)
next
  fix s b assume g: "sha256_good s" and l: "length (sha256_held s) = 63"
  then have c: "sh_counter s = 63" by (simp add: sha256_good_def sha256_held_def)
  have "(sh_buffer s)[63 := b] = take 63 (sh_buffer s) @ [b]"
    using g by (simp add: sha256_good_def list_eq_iff_nth_eq nth_append less_Suc_eq nth_list_update)
  with g c show "\<exists>s'. sha256_append_byte s b = Some s' \<and> sha256_good s' \<and>
      sh_state s' = fips_compress (sh_state s) (sha256_held s @ [b]) \<and> sha256_held s' = []"
    by (simp add: sha256_good_def sha256_held_def sha256_append_byte_def block_compress Let_def)
qed (auto simp: sha256_good_def sha256_held_def)

lemma append_puts: "sha256_append sha bs = sha256.puts sha bs"
  by (induction bs arbitrary: sha) auto

lemma append_n_bits: "sha256_append sha bs = Some sha' \<Longrightarrow> sh_n_bits sha' = sh_n_bits sha + 8 * of_nat (length bs)"
proof (induction bs arbitrary: sha)
  case (Cons b bs)
  then obtain s1 where s1: "sha256_append_byte sha b = Some s1" "sha256_append s1 bs = Some sha'"
    by (auto split: Option.bind_splits)
  have "sh_n_bits s1 = sh_n_bits sha + 8"
    using s1(1) by (auto simp: sha256_append_byte_def Let_def split: if_splits)
  with Cons.IH [OF s1(2)] show ?case by (simp add: algebra_simps)
qed simp

lemma length_bytes_be: "map (\<lambda>i. ucast (drop_bit (8 * i) x)) [7, 6, 5, 4, 3, 2, 1, 0] = be_bytes 8 (x :: u64)"
  by (simp add: be_bytes_def numeral_eq_Suc drop_bit_drop_bit)

lemma word_bytes_be: "map (\<lambda>j. ucast (drop_bit (j * 8) x)) [3, 2, 1, 0] = be_bytes 4 (x :: u32)"
  by (simp add: be_bytes_def numeral_eq_Suc drop_bit_drop_bit)

lemma fips_compress_length: "length (fips_compress H blk) = 8"
proof -
  obtain a b c d e f g h where "foldl (fips_round (fips_W blk)) (regs_of H) [0..<64] = (a, b, c, d, e, f, g, h)"
    by (metis prod.exhaust)
  then show ?thesis by (simp add: fips_compress_def)
qed

lemma md_hash_length:
  assumes "length iv = 8"
  shows "length (md_hash fips_compress iv msg) = 8"
proof -
  have "length (foldl fips_compress iv bs) = 8" for bs
    using assms by (induction bs arbitrary: iv) (simp_all add: fips_compress_length)
  then show ?thesis by (simp add: md_hash_def)
qed

lemma finalize_state:
  assumes "length junk = 64"
  shows "\<exists>sha. sha256_append (sha256_init junk) msg \<bind> sha256_finalize = Some sha \<and>
               sh_state sha = md_hash fips_compress sha256_iv msg"
proof -
  let ?s = "sha256_init junk"
  have g: "sha256_good ?s" "sha256_held ?s = []" "sh_state ?s = sha256_iv" "sh_n_bits ?s = 0"
    using assms by (simp_all add: sha256_init_def sha256_good_def sha256_held_def)
  obtain s1 where s1: "sha256_append ?s msg = Some s1"
    using sha256.puts_absorb [OF g(1), of msg] by (auto simp: append_puts)
  then have n: "sh_n_bits s1 = of_nat (8 * length msg)" using append_n_bits [OF s1] g(4) by simp
  obtain s' where "sha256.puts ?s msg \<bind> (\<lambda>s. sha256_append_byte s 0x80 \<bind> sha256_zeros \<bind>
      (\<lambda>s. sha256.puts s (be_bytes 8 (of_nat (8 * length msg) :: u64)))) = Some s'" "sh_state s' = md_hash fips_compress sha256_iv msg"
    using sha256.stream_hash [OF sha256_zeros.simps g(1,2), of msg] g(3) by auto
  then show ?thesis
    unfolding sha256_finalize_def length_bytes_be using s1 n by (simp add: append_puts [symmetric] Let_def)
qed



text \<open>Two hexadecimal digits per byte.\<close>

definition hex_byte :: "byte \<Rightarrow> string" where
  "hex_byte b = [''0123456789abcdef'' ! unat (drop_bit 4 b), ''0123456789abcdef'' ! unat (b AND 0xf)]"

lemma nibbles:
  fixes w :: u32
  shows "drop_bit (8 * k + 4) w AND 0xf = ucast (drop_bit 4 (ucast (drop_bit (8 * k) w) :: byte))"
    and "drop_bit (8 * k) w AND 0xf = ucast ((ucast (drop_bit (8 * k) w) :: byte) AND 0xf)"
proof -
  have m: "(0xf :: u32) = mask 4" "(0xf :: byte) = mask 4" by (simp_all add: mask_eq_exp_minus_1)
  show "drop_bit (8 * k + 4) w AND 0xf = ucast (drop_bit 4 (ucast (drop_bit (8 * k) w) :: byte))"
    unfolding m by (rule bit_word_eqI) (auto simp: bit_simps ac_simps)
  show "drop_bit (8 * k) w AND 0xf = ucast ((ucast (drop_bit (8 * k) w) :: byte) AND 0xf)"
    unfolding m by (rule bit_word_eqI) (auto simp: bit_simps ac_simps)
qed

lemma unat_widen [simp]: "unat (ucast (b :: byte) :: u32) = unat b"
proof -
  have "unat b < 2 ^ LENGTH(8)" by (rule unsigned_less)
  then have "unat b < 2 ^ 32" by simp
  then show ?thesis by (simp add: unsigned_ucast_eq take_bit_nat_eq_self)
qed

lemma word_hex:
  fixes w :: u32
  shows "map (\<lambda>j. ''0123456789abcdef'' ! unat (drop_bit (j * 4) w AND 0xf)) [7, 6, 5, 4, 3, 2, 1, 0] =
         concat (map hex_byte (be_bytes 4 w))"
proof -
  have "be_bytes 4 w = map (\<lambda>j. ucast (drop_bit (8 * j) w)) [3, 2, 1, 0]"
    by (simp add: be_bytes_def numeral_eq_Suc drop_bit_drop_bit)
  moreover have "unat (drop_bit 28 w AND 0xf) = unat (drop_bit 4 (ucast (drop_bit 24 w) :: byte))"
    "unat (drop_bit 24 w AND 0xf) = unat ((ucast (drop_bit 24 w) :: byte) AND 0xf)"
    "unat (drop_bit 20 w AND 0xf) = unat (drop_bit 4 (ucast (drop_bit 16 w) :: byte))"
    "unat (drop_bit 16 w AND 0xf) = unat ((ucast (drop_bit 16 w) :: byte) AND 0xf)"
    "unat (drop_bit 12 w AND 0xf) = unat (drop_bit 4 (ucast (drop_bit 8 w) :: byte))"
    "unat (drop_bit 8 w AND 0xf) = unat ((ucast (drop_bit 8 w) :: byte) AND 0xf)"
    "unat (drop_bit 4 w AND 0xf) = unat (drop_bit 4 (ucast w :: byte))"
    "unat (w AND 0xf) = unat ((ucast w :: byte) AND 0xf)"
    using nibbles(1) [of 3 w] nibbles(2) [of 3 w] nibbles(1) [of 2 w] nibbles(2) [of 2 w]
      nibbles(1) [of 1 w] nibbles(2) [of 1 w] nibbles(1) [of 0 w] nibbles(2) [of 0 w]
    by simp_all
  ultimately show ?thesis by (simp add: hex_byte_def)
qed

lemma concat_concat_map: "concat (map (\<lambda>x. concat (f x)) xs) = concat (concat (map f xs))"
  by (induction xs) simp_all

text \<open>
  The textual digest is the binary one written in hexadecimal, most significant digit
  first: \<^verbatim>\<open>sha256_hex\<close> and \<^verbatim>\<open>sha256_bytes\<close> agree on every message.
\<close>

theorem sha256_hex_of_bytes:
  assumes "length junk = 64"
  shows "sha256_hex junk msg = Some (concat (map hex_byte (fips_sha256 msg)))"
proof -
  obtain sha s1 where s: "sha256_append (sha256_init junk) msg = Some s1" "sha256_finalize s1 = Some sha"
      "sh_state sha = md_hash fips_compress sha256_iv msg"
    using finalize_state [OF assms, of msg] by (auto split: Option.bind_splits)
  have "length (sh_state sha) = 8" using s(3) md_hash_length [of sha256_iv msg] by (simp add: sha256_iv_def)
  then have "map (\<lambda>i. concat (map hex_byte (be_bytes 4 (sh_state sha ! i)))) [0..<8] =
      map (\<lambda>w. concat (map hex_byte (be_bytes 4 w))) (sh_state sha)"
    by (simp add: list_eq_iff_nth_eq)
  then have "sha256_hex junk msg = Some (concat (map (\<lambda>w. concat (map hex_byte (be_bytes 4 w))) (sh_state sha)))"
    using s(1,2) by (simp only: sha256_hex_def sha256_finalize_hex_def word_hex bind.bind_lunit)
  then show ?thesis
    using s(3) by (simp add: fips_sha256_def map_concat comp_def concat_concat_map)
qed

theorem sha256_hex_of_bytes_witness:
  "sha256_hex (replicate 64 1) [0x61] = Some (concat (map hex_byte (fips_sha256 [0x61])))"
  by (rule sha256_hex_of_bytes) simp

end
