(* ===== verification/Sha1.thy ===== *)
theory Sha1
  imports Hash_Stream
begin

text \<open>
  \<^verbatim>\<open>libtg/mtx/src/sha1.c\<close>: SHA-1 and HMAC-SHA-1.  The block is a union of bytes and words: each
  byte is stored at its index XOR 3, so that on a little-endian machine the words read are
  big-endian.  The message schedule overwrites the block.  The union is represented by its
  bytes, the words being a view of them.
\<close>

section \<open>The code\<close>

record sha1nfo =
  s1_buffer :: "byte list"
  s1_offset :: nat
  s1_state :: "u32 list"
  s1_count :: u32
  s1_key :: "byte list"
  s1_inner :: "byte list"

type_synonym regs5 = "u32 \<times> u32 \<times> u32 \<times> u32 \<times> u32"

definition words_of :: "nat \<Rightarrow> byte list \<Rightarrow> u32 list" where
  "words_of n b = map (\<lambda>i. le_val (take 4 (drop (4 * i) b))) [0..<n]"

definition bytes_of :: "u32 list \<Rightarrow> byte list" where
  "bytes_of w = concat (map (le_bytes 4) w)"

definition sha1InitState :: "byte list" where
  "sha1InitState = [0x01, 0x23, 0x45, 0x67, 0x89, 0xab, 0xcd, 0xef, 0xfe, 0xdc, 0xba, 0x98,
     0x76, 0x54, 0x32, 0x10, 0xf0, 0xe1, 0xd2, 0xc3]"

definition sha1_init :: "sha1nfo \<Rightarrow> sha1nfo" where
  "sha1_init s = s\<lparr>s1_state := words_of 5 sha1InitState, s1_count := 0, s1_offset := 0\<rparr>"

definition sha1_rol32 :: "u32 \<Rightarrow> nat \<Rightarrow> u32" where
  "sha1_rol32 number bits = push_bit bits number OR drop_bit (32 - bits) number"

text \<open>One turn of the loop of \<^verbatim>\<open>sha1_hashBlock\<close> on the words of the buffer and the registers.\<close>

fun sha1_step :: "u32 list \<times> regs5 \<Rightarrow> nat \<Rightarrow> u32 list \<times> regs5" where
  "sha1_step (w, (a, b, c, d, e)) i =
     (let w = (if 16 \<le> i
               then w[i mod 16 := sha1_rol32 (w ! ((i + 13) mod 16) XOR w ! ((i + 8) mod 16) XOR
                                              w ! ((i + 2) mod 16) XOR w ! (i mod 16)) 1]
               else w);
          t = (if i < 20 then (d XOR (b AND (c XOR d))) + 0x5a827999
               else if i < 40 then (b XOR c XOR d) + 0x6ed9eba1
               else if i < 60 then ((b AND c) OR (d AND (b OR c))) + 0x8f1bbcdc
               else (b XOR c XOR d) + 0xca62c1d6);
          t = t + (sha1_rol32 a 5 + e + w ! (i mod 16))
      in (w, (t, a, sha1_rol32 b 30, c, d)))"

fun add_regs5 :: "u32 list \<Rightarrow> regs5 \<Rightarrow> u32 list" where
  "add_regs5 s (a, b, c, d, e) = [s ! 0 + a, s ! 1 + b, s ! 2 + c, s ! 3 + d, s ! 4 + e]"

definition regs5_of :: "u32 list \<Rightarrow> regs5" where
  "regs5_of s = (s ! 0, s ! 1, s ! 2, s ! 3, s ! 4)"

definition sha1_hashBlock :: "sha1nfo \<Rightarrow> sha1nfo" where
  "sha1_hashBlock s =
     (let (w, r) = foldl sha1_step (words_of 16 (s1_buffer s), regs5_of (s1_state s)) [0..<80]
      in s\<lparr>s1_buffer := bytes_of w, s1_state := add_regs5 (s1_state s) r\<rparr>)"

definition sha1_addUncounted :: "sha1nfo \<Rightarrow> byte \<Rightarrow> sha1nfo option" where
  "sha1_addUncounted s data =
     (if \<not> (s1_offset s XOR 3) < length (s1_buffer s) then None
      else
        let s = s\<lparr>s1_buffer := (s1_buffer s)[s1_offset s XOR 3 := data], s1_offset := s1_offset s + 1\<rparr>
        in Some (if s1_offset s = 64 then (sha1_hashBlock s)\<lparr>s1_offset := 0\<rparr> else s))"

definition sha1_writebyte :: "sha1nfo \<Rightarrow> byte \<Rightarrow> sha1nfo option" where
  "sha1_writebyte s data = sha1_addUncounted (s\<lparr>s1_count := s1_count s + 1\<rparr>) data"

fun sha1_write :: "sha1nfo \<Rightarrow> byte list \<Rightarrow> sha1nfo option" where
  "sha1_write s [] = Some s"
| "sha1_write s (b # bs) = do { s \<leftarrow> sha1_writebyte s b; sha1_write s bs }"

partial_function (option) sha1_zeros :: "sha1nfo \<Rightarrow> sha1nfo option" where
  "sha1_zeros s = (if s1_offset s \<noteq> 56 then sha1_addUncounted s 0 \<bind> sha1_zeros else Some s)"

declare sha1_zeros.simps [code]

definition sha1_pad :: "sha1nfo \<Rightarrow> sha1nfo option" where
  "sha1_pad s = do {
     s \<leftarrow> sha1_addUncounted s 0x80;
     s \<leftarrow> sha1_zeros s;
     s \<leftarrow> sha1_addUncounted s 0;
     s \<leftarrow> sha1_addUncounted s 0;
     s \<leftarrow> sha1_addUncounted s 0;
     s \<leftarrow> sha1_addUncounted s (ucast (drop_bit 29 (s1_count s)));
     s \<leftarrow> sha1_addUncounted s (ucast (drop_bit 21 (s1_count s)));
     s \<leftarrow> sha1_addUncounted s (ucast (drop_bit 13 (s1_count s)));
     s \<leftarrow> sha1_addUncounted s (ucast (drop_bit 5 (s1_count s)));
     sha1_addUncounted s (ucast (push_bit 3 (s1_count s)))
   }"

definition swap32 :: "u32 \<Rightarrow> u32" where
  "swap32 a = push_bit 24 a OR (push_bit 8 a AND 0x00ff0000) OR (drop_bit 8 a AND 0x0000ff00) OR drop_bit 24 a"

text \<open>The result is the state's bytes, which stay where they are until the next \<^verbatim>\<open>sha1_init\<close>.\<close>

definition sha1_result :: "sha1nfo \<Rightarrow> (byte list \<times> sha1nfo) option" where
  "sha1_result s = do {
     s \<leftarrow> sha1_pad s;
     let s = s\<lparr>s1_state := map swap32 (s1_state s)\<rparr>;
     Some (bytes_of (s1_state s), s)
   }"

definition sha1_initHmac :: "sha1nfo \<Rightarrow> byte list \<Rightarrow> sha1nfo option" where
  "sha1_initHmac s key = do {
     let s = s\<lparr>s1_key := replicate 64 0\<rparr>;
     s \<leftarrow> (if length key > 64 then do {
             s \<leftarrow> sha1_write (sha1_init s) key;
             (r, s) \<leftarrow> sha1_result s;
             Some (s\<lparr>s1_key := take 20 r @ drop 20 (s1_key s)\<rparr>)
           } else Some (s\<lparr>s1_key := key @ drop (length key) (s1_key s)\<rparr>));
     sha1_write (sha1_init s) (map (\<lambda>i. s1_key s ! i XOR 0x36) [0..<64])
   }"

definition sha1_resultHmac :: "sha1nfo \<Rightarrow> (byte list \<times> sha1nfo) option" where
  "sha1_resultHmac s = do {
     (r, s) \<leftarrow> sha1_result s;
     let s = s\<lparr>s1_inner := take 20 r\<rparr>;
     s \<leftarrow> sha1_write (sha1_init s) (map (\<lambda>i. s1_key s ! i XOR 0x5c) [0..<64]);
     s \<leftarrow> sha1_write s (map (\<lambda>i. s1_inner s ! i) [0..<20]);
     sha1_result s
   }"

text \<open>The struct is on the stack; \<open>junk\<close> is what it holds before.\<close>

definition sha1 :: "sha1nfo \<Rightarrow> byte list \<Rightarrow> byte list option" where
  "sha1 junk d = do {
     s \<leftarrow> sha1_write (sha1_init junk) d;
     (r, s) \<leftarrow> sha1_result s;
     Some (take 20 r)
   }"

section \<open>FIPS 180-4 and RFC 2104\<close>

fun f1_W :: "byte list \<Rightarrow> nat \<Rightarrow> u32" where
  "f1_W blk t =
     (if t < 16 then be_val (take 4 (drop (4 * t) blk))
      else word_rotl 1 (f1_W blk (t - 3) XOR f1_W blk (t - 8) XOR f1_W blk (t - 14) XOR f1_W blk (t - 16)))"

declare f1_W.simps [simp del]

definition f1_f :: "nat \<Rightarrow> u32 \<Rightarrow> u32 \<Rightarrow> u32 \<Rightarrow> u32" where
  "f1_f t x y z =
     (if t < 20 then (x AND y) XOR (NOT x AND z)
      else if t < 40 then x XOR y XOR z
      else if t < 60 then (x AND y) XOR (x AND z) XOR (y AND z)
      else x XOR y XOR z)"

definition f1_K :: "nat \<Rightarrow> u32" where
  "f1_K t = (if t < 20 then 0x5a827999 else if t < 40 then 0x6ed9eba1 else if t < 60 then 0x8f1bbcdc else 0xca62c1d6)"

fun f1_round :: "(nat \<Rightarrow> u32) \<Rightarrow> regs5 \<Rightarrow> nat \<Rightarrow> regs5" where
  "f1_round W (a, b, c, d, e) t =
     (word_rotl 5 a + f1_f t b c d + e + f1_K t + W t, a, word_rotl 30 b, c, d)"

definition f1_compress :: "u32 list \<Rightarrow> byte list \<Rightarrow> u32 list" where
  "f1_compress H blk = add_regs5 H (foldl (f1_round (f1_W blk)) (regs5_of H) [0..<80])"

definition f1_iv :: "u32 list" where
  "f1_iv = [0x67452301, 0xefcdab89, 0x98badcfe, 0x10325476, 0xc3d2e1f0]"

definition f1_sha1 :: "byte list \<Rightarrow> byte list" where
  "f1_sha1 msg = concat (map (be_bytes 4) (md_hash f1_compress f1_iv msg))"

definition hmac_sha1 :: "byte list \<Rightarrow> byte list \<Rightarrow> byte list" where
  "hmac_sha1 key msg =
     (let k = (if length key > 64 then f1_sha1 key else key);
          k0 = k @ replicate (64 - length k) 0
      in f1_sha1 (map (\<lambda>b. b XOR 0x5c) k0 @ f1_sha1 (map (\<lambda>b. b XOR 0x36) k0 @ msg)))"

section \<open>The block function\<close>

lemma rol_eq: "0 < n \<Longrightarrow> n < 32 \<Longrightarrow> sha1_rol32 x n = word_rotl n x"
proof (rule bit_word_eqI)
  fix k assume n: "0 < n" "n < 32" and "k < LENGTH(32)"
  then have k: "k < 32" by simp
  have o: "bit x i \<Longrightarrow> i < 32" for i using bit_imp_le_length [of x i] by simp
  have "bit (word_rotl n x) k \<longleftrightarrow> bit x ((k + (32 - n)) mod 32)"
    using k n by (simp add: bit_simps)
  also have "(k + (32 - n)) mod 32 = (if k < n then k + (32 - n) else k - n)"
  proof (cases "k < n")
    case False
    then have "k + (32 - n) = 32 + (k - n)" using n by linarith
    moreover have "k - n < 32" using k by linarith
    ultimately have "(k + (32 - n)) mod 32 = k - n" by (metis mod_add_self1 mod_less)
    then show ?thesis using False by simp
  qed (use n in simp)
  finally show "bit (sha1_rol32 x n) k \<longleftrightarrow> bit (word_rotl n x) k"
    using k n o [of "32 - n + k"] by (auto simp: sha1_rol32_def bit_simps add.commute not_less)
qed

lemma mix_eq:
  fixes x y z :: u32
  shows "z XOR (x AND (y XOR z)) = (x AND y) XOR (NOT x AND z)"
    and "(x AND y) OR (z AND (x OR y)) = (x AND y) XOR (x AND z) XOR (y AND z)"
  by (rule bit_word_eqI, auto simp: bit_simps)+

lemma step_regs:
  assumes "fst (sha1_step (w, r) i) ! (i mod 16) = W i"
  shows "snd (sha1_step (w, r) i) = f1_round W r i"
proof -
  obtain a b c d e where r: "r = (a, b, c, d, e)" by (metis prod.exhaust)
  show ?thesis
    using assms unfolding r
    by (auto simp: Let_def f1_f_def f1_K_def rol_eq mix_eq add.assoc add.commute add.left_commute)
qed

text \<open>The window holds the last sixteen words of the schedule.\<close>

definition window :: "(nat \<Rightarrow> u32) \<Rightarrow> nat \<Rightarrow> u32 list \<Rightarrow> bool" where
  "window W n w \<longleftrightarrow> length w = 16 \<and>
     (if n \<le> 16 then \<forall>x < 16. w ! x = W x else \<forall>m < 16. w ! ((n + m) mod 16) = W (n - 16 + m))"

lemma window_at: "window W n w \<Longrightarrow> 16 \<le> n \<Longrightarrow> m < 16 \<Longrightarrow> w ! ((n + m) mod 16) = W (n - 16 + m)"
  by (auto simp: window_def split: if_splits)

lemma window_step:
  assumes "window (f1_W blk) n w"
  shows "window (f1_W blk) (Suc n) (fst (sha1_step (w, r) n))"
    and "fst (sha1_step (w, r) n) ! (n mod 16) = f1_W blk n"
proof -
  obtain a b c d e where r: "r = (a, b, c, d, e)" by (metis prod.exhaust)
  have l: "length w = 16" using assms by (simp add: window_def)
  let ?v = "fst (sha1_step (w, r) n)"
  have "window (f1_W blk) (Suc n) ?v \<and> ?v ! (n mod 16) = f1_W blk n"
  proof (cases "16 \<le> n")
    case False
    then have "?v = w" unfolding r by (simp add: Let_def)
    with False assms show ?thesis by (auto simp: window_def)
  next
    case True
    note at = window_at [OF assms True]
    have t: "n - 16 + 13 = n - 3" "n - 16 + 8 = n - 8" "n - 16 + 2 = n - 14" using True by linarith+
    have "?v = w[n mod 16 := word_rotl 1 (f1_W blk (n - 3) XOR f1_W blk (n - 8) XOR f1_W blk (n - 14) XOR f1_W blk (n - 16))]"
      unfolding r using True at [of 13] at [of 8] at [of 2] at [of 0] t by (simp add: Let_def rol_eq)
    moreover have "f1_W blk n = word_rotl 1 (f1_W blk (n - 3) XOR f1_W blk (n - 8) XOR f1_W blk (n - 14) XOR f1_W blk (n - 16))"
      using True by (subst f1_W.simps) simp
    ultimately have v: "?v = w[n mod 16 := f1_W blk n]" by simp
    have "?v ! ((Suc n + m) mod 16) = f1_W blk (Suc n - 16 + m)" if m: "m < 16" for m
    proof (cases "m = 15")
      case True
      then have "(Suc n + m) mod 16 = n mod 16" by (simp add: mod_add_self2)
      moreover have "Suc n - 16 + m = n" using True \<open>16 \<le> n\<close> by linarith
      ultimately show ?thesis using v l by simp
    next
      case False
      with m have "Suc m < 16" by linarith
      have "(Suc n + m) mod 16 \<noteq> n mod 16"
      proof
        assume "(Suc n + m) mod 16 = n mod 16"
        then have "16 dvd Suc n + m - n" by (subst mod_eq_dvd_iff_nat [symmetric]) simp_all
        with \<open>Suc m < 16\<close> show False using nat_dvd_not_less [of "Suc m" 16] by simp
      qed
      then have "?v ! ((Suc n + m) mod 16) = w ! ((n + Suc m) mod 16)" using v by simp
      also have "\<dots> = f1_W blk (n - 16 + Suc m)" by (rule at [OF \<open>Suc m < 16\<close>])
      also have "n - 16 + Suc m = Suc n - 16 + m" using True by linarith
      finally show ?thesis .
    qed
    with l v True show ?thesis by (simp add: window_def)
  qed
  then show "window (f1_W blk) (Suc n) ?v" "?v ! (n mod 16) = f1_W blk n" by auto
qed

lemma steps_rounds:
  assumes "window (f1_W blk) 0 w"
  shows "snd (foldl sha1_step (w, r) [0..<n]) = foldl (f1_round (f1_W blk)) r [0..<n] \<and>
         window (f1_W blk) n (fst (foldl sha1_step (w, r) [0..<n]))"
proof (induction n)
  case 0
  then show ?case using assms by simp
next
  case (Suc n)
  obtain v q where v: "foldl sha1_step (w, r) [0..<n] = (v, q)" using surj_pair by metis
  with Suc have "window (f1_W blk) n v" "q = foldl (f1_round (f1_W blk)) r [0..<n]" by simp_all
  with v window_step [of blk n v q] step_regs [of v q n "f1_W blk"] show ?case by simp
qed

section \<open>The byte order of the block\<close>

lemma xor3: "i < 64 \<Longrightarrow> (i XOR 3 :: nat) = 4 * (i div 4) + (3 - i mod 4)"
proof -
  have "\<forall>i \<in> set [0..<64]. (i XOR 3 :: nat) = 4 * (i div 4) + (3 - i mod 4)" by code_simp
  then show "i < 64 \<Longrightarrow> ?thesis" by simp
qed

lemma xor3_bound: "i < 64 \<Longrightarrow> (i XOR 3 :: nat) < 64"
proof -
  have "\<forall>i \<in> set [0..<64]. (i XOR 3 :: nat) < 64" by code_simp
  then show "i < 64 \<Longrightarrow> ?thesis" by simp
qed

lemma xor3_inj: "(i XOR 3) = (j XOR 3) \<longleftrightarrow> i = (j :: nat)"
proof
  assume "(i XOR 3) = (j XOR 3)"
  then have "(i XOR 3) XOR 3 = (j XOR 3) XOR 3" by simp
  then show "i = j" by (simp add: xor.assoc)
qed simp

text \<open>The bytes of the block in the order in which they were put.\<close>

definition unswapped :: "byte list \<Rightarrow> nat \<Rightarrow> byte list" where
  "unswapped b n = map (\<lambda>i. b ! (i XOR 3)) [0..<n]"

lemma length_unswapped [simp]: "length (unswapped b n) = n"
  by (simp add: unswapped_def)

lemma unswapped_word:
  assumes "length b = 64" and "t < 16"
  shows "rev (take 4 (drop (4 * t) (unswapped b 64))) = take 4 (drop (4 * t) b)"
proof (rule nth_equalityI)
  fix i assume "i < length (rev (take 4 (drop (4 * t) (unswapped b 64))))"
  then have i: "i < 4" by simp
  have j: "4 * t + (3 - i) < 64" using i assms(2) by linarith
  have d: "(4 * t + (3 - i)) div 4 = t" "(4 * t + (3 - i)) mod 4 = 3 - i"
    using div_mult_self4 [of 4 t "3 - i"] mod_mult_self4 [of 4 t "3 - i"] i by auto
  have "rev (take 4 (drop (4 * t) (unswapped b 64))) ! i = unswapped b 64 ! (4 * t + (3 - i))"
    using i assms(2) by (simp add: rev_nth)
  also have "\<dots> = b ! (4 * t + (3 - i) XOR 3)" using j by (simp add: unswapped_def)
  also have "(4 * t + (3 - i) XOR 3) = 4 * t + i" unfolding xor3 [OF j] d using i by linarith
  finally show "rev (take 4 (drop (4 * t) (unswapped b 64))) ! i = take 4 (drop (4 * t) b) ! i"
    using i assms by simp
qed (use assms in simp)

lemma window_start:
  assumes "length b = 64"
  shows "window (f1_W (unswapped b 64)) 0 (words_of 16 b)"
proof -
  have "words_of 16 b ! x = f1_W (unswapped b 64) x" if "x < 16" for x
    using that unswapped_word [OF assms that]
    by (subst f1_W.simps) (simp add: words_of_def be_val_def)
  then show ?thesis by (simp add: window_def words_of_def)
qed

lemma length_bytes_of [simp]: "length (bytes_of w) = 4 * length w"
  by (induction w) (simp_all add: bytes_of_def)

lemma hashBlock_compress:
  assumes "length (s1_buffer s) = 64"
  shows "\<exists>b. length b = 64 \<and> sha1_hashBlock s =
           s\<lparr>s1_buffer := b, s1_state := f1_compress (s1_state s) (unswapped (s1_buffer s) 64)\<rparr>"
proof -
  obtain w r where w: "foldl sha1_step (words_of 16 (s1_buffer s), regs5_of (s1_state s)) [0..<80] = (w, r)"
    using surj_pair by metis
  from steps_rounds [OF window_start [OF assms], of "regs5_of (s1_state s)" 80] w
  have "length w = 16" "r = foldl (f1_round (f1_W (unswapped (s1_buffer s) 64))) (regs5_of (s1_state s)) [0..<80]"
    by (simp_all add: window_def)
  then show ?thesis
    unfolding sha1_hashBlock_def w by (intro exI [of _ "bytes_of w"]) (simp add: f1_compress_def Let_def)
qed

section \<open>The stream\<close>

definition sha1_good :: "sha1nfo \<Rightarrow> bool" where
  "sha1_good s \<longleftrightarrow> length (s1_buffer s) = 64 \<and> s1_offset s < 64"

definition sha1_held :: "sha1nfo \<Rightarrow> byte list" where
  "sha1_held s = unswapped (s1_buffer s) (s1_offset s)"

lemma unswapped_put:
  assumes "length b = 64" and "n < 64"
  shows "unswapped (b[n XOR 3 := x]) (Suc n) = unswapped b n @ [x]"
  using assms xor3_bound [OF assms(2)] by (auto simp: unswapped_def nth_list_update xor3_inj)

interpretation sha1: block_stream sha1_addUncounted s1_state sha1_held s1_offset sha1_good f1_compress
proof unfold_locales
  fix s b assume g: "sha1_good s" and l: "length (sha1_held s) < 63"
  then have n: "s1_offset s < 63" "length (s1_buffer s) = 64" by (simp_all add: sha1_good_def sha1_held_def)
  with unswapped_put [of "s1_buffer s" "s1_offset s" b] xor3_bound [of "s1_offset s"]
  show "\<exists>s'. sha1_addUncounted s b = Some s' \<and> sha1_good s' \<and> s1_state s' = s1_state s \<and> sha1_held s' = sha1_held s @ [b]"
    by (simp add: sha1_good_def sha1_held_def sha1_addUncounted_def)
next
  fix s b assume g: "sha1_good s" and l: "length (sha1_held s) = 63"
  then have n: "s1_offset s = 63" "length (s1_buffer s) = 64" by (simp_all add: sha1_good_def sha1_held_def)
  let ?s = "s\<lparr>s1_buffer := (s1_buffer s)[s1_offset s XOR 3 := b], s1_offset := s1_offset s + 1\<rparr>"
  obtain c where c: "length c = 64" "sha1_hashBlock ?s =
      ?s\<lparr>s1_buffer := c, s1_state := f1_compress (s1_state s) (unswapped (s1_buffer ?s) 64)\<rparr>"
    using hashBlock_compress [of ?s] n by auto
  have "unswapped (s1_buffer ?s) 64 = sha1_held s @ [b]"
    using unswapped_put [of "s1_buffer s" 63 b] n by (simp add: sha1_held_def)
  with c n xor3_bound [of 63] show "\<exists>s'. sha1_addUncounted s b = Some s' \<and> sha1_good s' \<and>
      s1_state s' = f1_compress (s1_state s) (sha1_held s @ [b]) \<and> sha1_held s' = []"
    by (simp add: sha1_good_def sha1_held_def sha1_addUncounted_def Let_def unswapped_def)
qed (auto simp: sha1_good_def sha1_held_def)

lemma hashBlock_simps [simp]:
  "s1_count (sha1_hashBlock s) = s1_count s" "s1_key (sha1_hashBlock s) = s1_key s"
  "sha1_hashBlock (s\<lparr>s1_count := n\<rparr>) = (sha1_hashBlock s)\<lparr>s1_count := n\<rparr>"
proof -
  obtain w r where w: "foldl sha1_step (words_of 16 (s1_buffer s), regs5_of (s1_state s)) [0..<80] = (w, r)"
    using surj_pair by metis
  then have "foldl sha1_step (words_of 16 (s1_buffer (s\<lparr>s1_count := n\<rparr>)), regs5_of (s1_state (s\<lparr>s1_count := n\<rparr>))) [0..<80] = (w, r)"
    by simp
  with w show "s1_count (sha1_hashBlock s) = s1_count s" "s1_key (sha1_hashBlock s) = s1_key s"
    "sha1_hashBlock (s\<lparr>s1_count := n\<rparr>) = (sha1_hashBlock s)\<lparr>s1_count := n\<rparr>"
    unfolding sha1_hashBlock_def by simp_all
qed

lemma count_addUncounted: "sha1_addUncounted s b = Some s' \<Longrightarrow> s1_count s' = s1_count s"
  by (auto simp: sha1_addUncounted_def Let_def split: if_splits)

lemma keys_addUncounted: "sha1_addUncounted s b = Some s' \<Longrightarrow> s1_key s' = s1_key s"
  by (auto simp: sha1_addUncounted_def Let_def split: if_splits)

lemma hashBlock_put_count:
  "sha1_hashBlock (s\<lparr>s1_count := n, s1_buffer := b, s1_offset := k\<rparr>) =
   (sha1_hashBlock (s\<lparr>s1_buffer := b, s1_offset := k\<rparr>))\<lparr>s1_count := n\<rparr>"
proof -
  have "s\<lparr>s1_count := n, s1_buffer := b, s1_offset := k\<rparr> = (s\<lparr>s1_buffer := b, s1_offset := k\<rparr>)\<lparr>s1_count := n\<rparr>" by simp
  then show ?thesis by (simp only: hashBlock_simps(3))
qed

lemma addUncounted_count:
  "sha1_addUncounted (s\<lparr>s1_count := n\<rparr>) b = map_option (\<lambda>s. s\<lparr>s1_count := n\<rparr>) (sha1_addUncounted s b)"
  by (simp add: sha1_addUncounted_def Let_def hashBlock_put_count del: hashBlock_simps(3))

lemma good_count [simp]: "sha1_good (s\<lparr>s1_count := n\<rparr>) = sha1_good s" "sha1_held (s\<lparr>s1_count := n\<rparr>) = sha1_held s"
  by (simp_all add: sha1_good_def sha1_held_def)

lemma puts_count: "sha1.puts (s\<lparr>s1_count := n\<rparr>) xs = map_option (\<lambda>s. s\<lparr>s1_count := n\<rparr>) (sha1.puts s xs)"
proof (induction xs arbitrary: s)
  case (Cons x xs)
  then show ?case by (cases "sha1_addUncounted s x") (simp_all add: addUncounted_count)
qed simp

text \<open>Counting does not disturb the stream: a write is the bytes put, and the count advanced.\<close>

lemma write_puts:
  "sha1_write s bs = map_option (\<lambda>s'. s'\<lparr>s1_count := s1_count s + of_nat (length bs)\<rparr>) (sha1.puts s bs)"
proof (induction bs arbitrary: s)
  case Nil
  then show ?case by simp
next
  case (Cons b bs)
  show ?case
  proof (cases "sha1_addUncounted s b")
    case None
    then show ?thesis by (simp add: sha1_writebyte_def addUncounted_count)
  next
    case (Some s1)
    have "sha1_write s (b # bs) = sha1_write (s1\<lparr>s1_count := s1_count s + 1\<rparr>) bs"
      by (simp add: sha1_writebyte_def addUncounted_count Some)
    also have "\<dots> = map_option (\<lambda>s'. s'\<lparr>s1_count := s1_count s + 1 + of_nat (length bs)\<rparr>) (sha1.puts s1 bs)"
      by (simp add: Cons puts_count option.map_comp comp_def)
    finally show ?thesis by (simp add: Some add.assoc)
  qed
qed

lemma puts_keeps: "sha1.puts s bs = Some s' \<Longrightarrow> s1_count s' = s1_count s \<and> s1_key s' = s1_key s"
proof (induction bs arbitrary: s)
  case (Cons b bs)
  then obtain s1 where "sha1_addUncounted s b = Some s1" "sha1.puts s1 bs = Some s'" by (auto split: Option.bind_splits)
  with Cons.IH [of s1] count_addUncounted keys_addUncounted show ?case by auto
qed simp

section \<open>Digest and HMAC\<close>

lemma init_iv: "words_of 5 sha1InitState = f1_iv"
  by code_simp

lemma length_words_be:
  "[0, 0, 0, ucast (drop_bit 29 c), ucast (drop_bit 21 c), ucast (drop_bit 13 c), ucast (drop_bit 5 c), ucast (push_bit 3 c)] =
   be_bytes 8 (push_bit 3 (ucast (c :: u32)) :: u64)"
proof -
  have "be_bytes 8 x = map (\<lambda>i. ucast (drop_bit (8 * i) x)) [7, 6, 5, 4, 3, 2, 1, 0]" for x :: u64
    by (simp add: be_bytes_def numeral_eq_Suc drop_bit_drop_bit)
  moreover have "ucast (drop_bit 56 (push_bit 3 (ucast c :: u64))) = (0 :: byte)"
    "ucast (drop_bit 48 (push_bit 3 (ucast c :: u64))) = (0 :: byte)"
    "ucast (drop_bit 40 (push_bit 3 (ucast c :: u64))) = (0 :: byte)"
    "ucast (drop_bit 32 (push_bit 3 (ucast c :: u64))) = (ucast (drop_bit 29 c) :: byte)"
    "ucast (drop_bit 24 (push_bit 3 (ucast c :: u64))) = (ucast (drop_bit 21 c) :: byte)"
    "ucast (drop_bit 16 (push_bit 3 (ucast c :: u64))) = (ucast (drop_bit 13 c) :: byte)"
    "ucast (drop_bit 8 (push_bit 3 (ucast c :: u64))) = (ucast (drop_bit 5 c) :: byte)"
    "ucast (push_bit 3 (ucast c :: u64)) = (ucast (push_bit 3 c) :: byte)"
    by (rule bit_word_eqI, auto simp: bit_simps dest: bit_imp_le_length)+
  ultimately show ?thesis by simp
qed

lemma length_word:
  assumes "n < 2 ^ 32"
  shows "push_bit 3 (ucast (of_nat n :: u32)) = (of_nat (8 * n) :: u64)"
  using assms by (simp add: push_bit_eq_mult unsigned_of_nat take_bit_nat_eq_self)

lemma f1_compress_length: "length (f1_compress H blk) = 5"
proof -
  obtain a b c d e where "foldl (f1_round (f1_W blk)) (regs5_of H) [0..<80] = (a, b, c, d, e)" by (metis prod.exhaust)
  then show ?thesis by (simp add: f1_compress_def)
qed

lemma md_hash_length1: "length (md_hash f1_compress f1_iv msg) = 5"
proof -
  have "length iv = 5 \<Longrightarrow> length (foldl f1_compress iv bs) = 5" for iv bs
    by (induction bs arbitrary: iv) (simp_all add: f1_compress_length)
  then show ?thesis by (simp add: md_hash_def f1_iv_def)
qed

lemma swap_bytes: "le_bytes 4 (swap32 w) = be_bytes 4 w"
proof -
  have "be_bytes 4 w = map (\<lambda>i. ucast (drop_bit (8 * i) w)) [3, 2, 1, 0]"
    "le_bytes 4 v = map (\<lambda>i. ucast (drop_bit (8 * i) v)) [0, 1, 2, 3]" for v :: u32
    by (simp_all add: be_bytes_def numeral_eq_Suc drop_bit_drop_bit)
  moreover have m: "(0x00ff0000 :: u32) = push_bit 16 (mask 8)" "(0x0000ff00 :: u32) = push_bit 8 (mask 8)"
    by (simp_all add: mask_eq_exp_minus_1)
  have "ucast (swap32 w) = (ucast (drop_bit 24 w) :: byte)"
    "ucast (drop_bit 8 (swap32 w)) = (ucast (drop_bit 16 w) :: byte)"
    "ucast (drop_bit 16 (swap32 w)) = (ucast (drop_bit 8 w) :: byte)"
    "ucast (drop_bit 24 (swap32 w)) = (ucast w :: byte)"
    unfolding swap32_def m by (rule bit_word_eqI, auto simp: bit_simps dest: bit_imp_le_length)+
  ultimately show ?thesis by simp
qed

lemma bytes_of_swap: "bytes_of (map swap32 ws) = concat (map (be_bytes 4) ws)"
  by (induction ws) (simp_all add: bytes_of_def swap_bytes)

text \<open>
  A hash in progress: the struct is fit, the bytes \<open>msg\<close> have been written since the last
  \<^verbatim>\<open>sha1_init\<close>, and the count agrees with them.
\<close>

definition hashing :: "sha1nfo \<Rightarrow> byte list \<Rightarrow> bool" where
  "hashing s msg \<longleftrightarrow>
     (\<exists>s0. sha1_good s0 \<and> sha1_held s0 = [] \<and> s1_state s0 = f1_iv \<and> s1_key s0 = s1_key s \<and>
           sha1.puts s0 msg = Some (s\<lparr>s1_count := s1_count s0\<rparr>) \<and> s1_count s = of_nat (length msg))"

lemma write_inner:
  assumes "sha1_write s bs = Some s'"
  shows "s1_inner s' = s1_inner s"
proof -
  have h: "s1_inner (sha1_hashBlock u) = s1_inner u" for u
  proof -
    obtain w r where "foldl sha1_step (words_of 16 (s1_buffer u), regs5_of (s1_state u)) [0..<80] = (w, r)"
      using surj_pair by metis
    then show ?thesis unfolding sha1_hashBlock_def by simp
  qed
  have "sha1_writebyte u b = Some u' \<Longrightarrow> s1_inner u' = s1_inner u" for u u' b
    by (auto simp: sha1_writebyte_def sha1_addUncounted_def Let_def h split: if_splits)
  with assms show ?thesis
    by (induction bs arbitrary: s) (fastforce split: Option.bind_splits)+
qed

lemma hashing_init:
  assumes "length (s1_buffer s) = 64"
  shows "hashing (sha1_init s) []"
  using assms by (auto simp: hashing_def sha1_init_def sha1_good_def sha1_held_def init_iv unswapped_def intro!: exI [of _ "sha1_init s"])

lemma hashing_write:
  assumes "hashing s msg"
  shows "\<exists>s'. sha1_write s bs = Some s' \<and> hashing s' (msg @ bs) \<and> s1_key s' = s1_key s"
proof -
  obtain s0 where s0: "sha1_good s0" "sha1_held s0 = []" "s1_state s0 = f1_iv" "s1_key s0 = s1_key s"
      "sha1.puts s0 msg = Some (s\<lparr>s1_count := s1_count s0\<rparr>)" "s1_count s = of_nat (length msg)"
    using assms unfolding hashing_def by blast
  obtain t where t: "sha1.puts s0 (msg @ bs) = Some t"
    using sha1.puts_absorb [OF s0(1), of "msg @ bs"] by auto
  then have "sha1.puts (s\<lparr>s1_count := s1_count s0\<rparr>) bs = Some t" using s0(5) by (simp add: sha1.puts_append)
  then obtain u where u: "sha1.puts s bs = Some u" "t = u\<lparr>s1_count := s1_count s0\<rparr>" by (auto simp: puts_count)
  then have k: "s1_key u = s1_key s" using puts_keeps by blast
  let ?s = "u\<lparr>s1_count := s1_count s + of_nat (length bs)\<rparr>"
  have "sha1_write s bs = Some ?s" using u(1) by (simp add: write_puts)
  moreover have "hashing ?s (msg @ bs)"
    using s0 t u(2) k by (auto simp: hashing_def intro!: exI [of _ s0])
  ultimately show ?thesis using k by auto
qed

lemma puts_eight:
  "sha1.puts s [a, b, c, d, e, f, g, h] = do {
     s \<leftarrow> sha1_addUncounted s a; s \<leftarrow> sha1_addUncounted s b; s \<leftarrow> sha1_addUncounted s c; s \<leftarrow> sha1_addUncounted s d;
     s \<leftarrow> sha1_addUncounted s e; s \<leftarrow> sha1_addUncounted s f; s \<leftarrow> sha1_addUncounted s g; sha1_addUncounted s h }"
  by simp

text \<open>The eight length bytes are taken from the count, which the padding leaves alone.\<close>

lemma pad_puts:
  "sha1_pad s = do {
     s \<leftarrow> sha1_addUncounted s 0x80;
     s \<leftarrow> sha1_zeros s;
     sha1.puts s [0, 0, 0, ucast (drop_bit 29 (s1_count s)), ucast (drop_bit 21 (s1_count s)),
       ucast (drop_bit 13 (s1_count s)), ucast (drop_bit 5 (s1_count s)), ucast (push_bit 3 (s1_count s))]
   }"
  unfolding sha1_pad_def puts_eight
  by (auto simp: count_addUncounted split: Option.bind_splits)

lemma zeros_keeps:
  assumes "sha1_good s" and "sha1_zeros s = Some s'"
  shows "s1_count s' = s1_count s \<and> s1_key s' = s1_key s"
proof -
  let ?l = "length (sha1_held s)"
  have "?l < 64" using assms(1) by (rule sha1.held_short)
  then have "?l + (120 - ?l) = 120" by linarith
  then have "(?l + (120 - ?l) mod 64) mod 64 = 120 mod 64" by (metis mod_add_right_eq)
  then have "sha1_zeros s = sha1.puts s (replicate ((120 - ?l) mod 64) 0)"
    by (intro sha1.pad_loop [OF sha1_zeros.simps assms(1)]) simp_all
  with assms(2) puts_keeps show ?thesis by metis
qed

lemma put_good: "sha1_good s \<Longrightarrow> sha1_addUncounted s b = Some s' \<Longrightarrow> sha1_good s'"
  using sha1.puts_absorb [of s "[b]"] by (auto split: Option.bind_splits)

lemma hashing_result:
  assumes "hashing s msg" and "length msg < 2 ^ 32"
  shows "\<exists>s'. sha1_result s = Some (f1_sha1 msg, s') \<and> length (s1_buffer s') = 64 \<and> s1_key s' = s1_key s"
proof -
  obtain s0 where s0: "sha1_good s0" "sha1_held s0 = []" "s1_state s0 = f1_iv"
      "sha1.puts s0 msg = Some (s\<lparr>s1_count := s1_count s0\<rparr>)" "s1_count s = of_nat (length msg)"
    using assms(1) unfolding hashing_def by blast
  let ?z = "s0\<lparr>s1_count := s1_count s\<rparr>"
  have p: "sha1.puts ?z msg = Some s" using s0(4) by (simp add: puts_count)
  have g: "sha1_good ?z" "sha1_held ?z = []" "s1_state ?z = f1_iv" using s0(1-3) by simp_all
  have gs: "sha1_good s" using sha1.puts_absorb [OF g(1), of msg] p by auto
  let ?len = "be_bytes 8 (of_nat (8 * length msg) :: u64)"
  obtain t where t: "sha1_addUncounted s 0x80 \<bind> sha1_zeros \<bind> (\<lambda>s. sha1.puts s ?len) = Some t"
      "sha1_good t" "s1_state t = md_hash f1_compress f1_iv msg"
    using sha1.stream_hash [OF sha1_zeros.simps g(1,2), of msg] p g(3) by auto
  then obtain s2 s3 where s23: "sha1_addUncounted s 0x80 = Some s2" "sha1_zeros s2 = Some s3" "sha1.puts s3 ?len = Some t"
    by (auto split: Option.bind_splits)
  have k: "s1_count s3 = s1_count s" "s1_key s3 = s1_key s"
    using zeros_keeps [OF put_good [OF gs s23(1)] s23(2)] count_addUncounted [OF s23(1)] keys_addUncounted [OF s23(1)] by simp_all
  then have "sha1_pad s = Some t"
    using s23 s0(5) by (simp add: pad_puts length_words_be length_word [OF assms(2)])
  moreover have "s1_key t = s1_key s" using puts_keeps [OF s23(3)] k by simp
  ultimately show ?thesis
    using t(2,3) by (auto simp: sha1_result_def bytes_of_swap f1_sha1_def sha1_good_def Let_def)
qed

lemma length_f1_sha1 [simp]: "length (f1_sha1 msg) = 20"
proof -
  have "length (concat (map (be_bytes 4) ws)) = 4 * length ws" for ws :: "u32 list" by (induction ws) simp_all
  then show ?thesis by (simp add: f1_sha1_def md_hash_length1)
qed

lemma sha1_eq_f1:
  assumes "length (s1_buffer junk) = 64" and "length msg < 2 ^ 32"
  shows "sha1 junk msg = Some (f1_sha1 msg)"
proof -
  obtain s where s: "sha1_write (sha1_init junk) msg = Some s" "hashing s msg"
    using hashing_write [OF hashing_init [OF assms(1)], of msg] by auto
  with hashing_result [OF s(2) assms(2)] show ?thesis by (auto simp: sha1_def)
qed


definition sample_sha1 :: sha1nfo where
  "sample_sha1 = \<lparr>s1_buffer = replicate 64 0xaa, s1_offset = 7, s1_state = [], s1_count = 99, s1_key = [], s1_inner = []\<rparr>"


lemma map_index: "length xs = n \<Longrightarrow> map (\<lambda>i. f (xs ! i)) [0..<n] = map f xs"
  by (simp add: list_eq_iff_nth_eq)

lemma initHmac_key:
  assumes "length (s1_buffer s) = 64" and "length key < 2 ^ 32" and "k = (if length key > 64 then f1_sha1 key else key)"
  shows "\<exists>s'. sha1_initHmac s key = Some s' \<and> s1_key s' = k @ replicate (64 - length k) 0 \<and>
              hashing s' (map (\<lambda>b. b XOR 0x36) (k @ replicate (64 - length k) 0))"
proof -
  let ?k0 = "k @ replicate (64 - length k) 0"
  let ?s = "s\<lparr>s1_key := replicate 64 0\<rparr>"
  have len: "length ?k0 = 64" using assms(3) by (simp split: if_splits)
  have b: "length (s1_buffer ?s) = 64" using assms(1) by simp
  obtain s1 where s1: "sha1_initHmac s key = sha1_write (sha1_init s1) (map (\<lambda>i. s1_key s1 ! i XOR 0x36) [0..<64])"
      "s1_key s1 = ?k0" "length (s1_buffer s1) = 64"
  proof (cases "length key > 64")
    case True
    obtain u where u: "sha1_write (sha1_init ?s) key = Some u" "hashing u key" "s1_key u = s1_key (sha1_init ?s)"
      using hashing_write [OF hashing_init [OF b], of key] by auto
    obtain v where v: "sha1_result u = Some (f1_sha1 key, v)" "length (s1_buffer v) = 64" "s1_key v = s1_key u"
      using hashing_result [OF u(2) assms(2)] by auto
    let ?s1 = "v\<lparr>s1_key := f1_sha1 key @ drop 20 (s1_key v)\<rparr>"
    have "s1_key v = replicate 64 0" using u(3) v(3) by (simp add: sha1_init_def)
    then have "drop 20 (s1_key v) = replicate 44 0" by simp
    with True u(1) v assms(3) show ?thesis
      by (intro that [of ?s1]) (simp_all add: sha1_initHmac_def Let_def)
  next
    case False
    with assms(1,3) show ?thesis
      by (intro that [of "?s\<lparr>s1_key := key @ drop (length key) (replicate 64 0)\<rparr>"]) (simp_all add: sha1_initHmac_def Let_def)
  qed
  have "map (\<lambda>i. s1_key s1 ! i XOR 0x36) [0..<64] = map (\<lambda>b. b XOR 0x36) ?k0"
    unfolding s1(2) by (rule map_index [OF len])
  moreover have "s1_key (sha1_init s1) = ?k0" using s1(2) by (simp add: sha1_init_def)
  ultimately show ?thesis
    using s1(1) hashing_write [OF hashing_init [OF s1(3)], of "map (\<lambda>b. b XOR 0x36) ?k0"] by auto
qed

text \<open>
  C26: The keyed hash is HMAC of RFC 2104: starting with a key of any length, writing a message
  in any number of pieces and asking for the result gives HMAC-SHA-1 of the whole message
  under that key.
\<close>

theorem hmac_is_rfc2104:
  assumes "length (s1_buffer s) = 64" and "length key < 2 ^ 32" and "length (concat pieces) < 2 ^ 31"
  shows "\<exists>s'. sha1_initHmac s key \<bind> (\<lambda>s. foldl (\<lambda>r p. r \<bind> (\<lambda>s. sha1_write s p)) (Some s) pieces) \<bind> sha1_resultHmac =
         Some (hmac_sha1 key (concat pieces), s')"
proof -
  define k where "k = (if length key > 64 then f1_sha1 key else key)"
  define k0 where "k0 = k @ replicate (64 - length k) 0"
  have len: "length k0 = 64" by (simp add: k0_def k_def)
  obtain s1 where s1: "sha1_initHmac s key = Some s1" "s1_key s1 = k0" "hashing s1 (map (\<lambda>b. b XOR 0x36) k0)"
    using initHmac_key [OF assms(1,2) k_def] by (auto simp: k0_def)
  have "\<exists>u. foldl (\<lambda>r p. r \<bind> (\<lambda>s. sha1_write s p)) (Some t) pieces = Some u \<and> hashing u (msg @ concat pieces) \<and> s1_key u = s1_key t"
    if "hashing t msg" for t msg
    using that
  proof (induction pieces arbitrary: t msg)
    case (Cons p ps)
    from hashing_write [OF Cons.prems, of p] obtain v where
      v: "sha1_write t p = Some v" "hashing v (msg @ p)" "s1_key v = s1_key t" by blast
    from Cons.IH [OF v(2)] v show ?case by simp
  qed simp
  from this [OF s1(3)] obtain u where u: "foldl (\<lambda>r p. r \<bind> (\<lambda>s. sha1_write s p)) (Some s1) pieces = Some u"
      "hashing u (map (\<lambda>b. b XOR 0x36) k0 @ concat pieces)" "s1_key u = k0" using s1(2) by auto
  let ?inner = "f1_sha1 (map (\<lambda>b. b XOR 0x36) k0 @ concat pieces)"
  obtain v where v: "sha1_result u = Some (?inner, v)" "length (s1_buffer v) = 64" "s1_key v = k0"
    using hashing_result [OF u(2)] assms(3) len u(3) by auto
  let ?v = "v\<lparr>s1_inner := ?inner\<rparr>"
  have pads: "map (\<lambda>i. s1_key ?v ! i XOR 0x5c) [0..<64] = map (\<lambda>b. b XOR 0x5c) k0"
    using map_index [OF len] v(3) by simp
  have hv: "hashing (sha1_init ?v) []" using v(2) by (intro hashing_init) simp
  obtain x where x: "sha1_write (sha1_init ?v) (map (\<lambda>b. b XOR 0x5c) k0) = Some x" "hashing x (map (\<lambda>b. b XOR 0x5c) k0)"
    using hashing_write [OF hv, of "map (\<lambda>b. b XOR 0x5c) k0"] by auto
  have inner: "s1_inner x = ?inner" using write_inner [OF x(1)] by (simp add: sha1_init_def)
  have "map (\<lambda>i. s1_inner x ! i) [0..<20] = ?inner" using inner by (simp add: list_eq_iff_nth_eq)
  then obtain y where y: "sha1_write x (map (\<lambda>i. s1_inner x ! i) [0..<20]) = Some y"
      "hashing y (map (\<lambda>b. b XOR 0x5c) k0 @ ?inner)"
    using hashing_write [OF x(2), of ?inner] by auto
  obtain z where "sha1_result y = Some (f1_sha1 (map (\<lambda>b. b XOR 0x5c) k0 @ ?inner), z)"
    using hashing_result [OF y(2)] len by auto
  moreover have "hmac_sha1 key (concat pieces) = f1_sha1 (map (\<lambda>b. b XOR 0x5c) k0 @ ?inner)"
    unfolding hmac_sha1_def Let_def k0_def k_def ..
  ultimately show ?thesis
    using s1(1) u(1) v(1) pads x(1) y(1) by (simp add: sha1_resultHmac_def Let_def)
qed

theorem hmac_is_rfc2104_witness:
  "\<exists>s'. sha1_initHmac sample_sha1 [1, 2, 3] \<bind> (\<lambda>s. foldl (\<lambda>r p. r \<bind> (\<lambda>s. sha1_write s p)) (Some s) [[4, 5], [6]]) \<bind> sha1_resultHmac =
        Some (hmac_sha1 [1, 2, 3] (concat [[4, 5], [6]]), s')"
  by (rule hmac_is_rfc2104) (simp_all add: sample_sha1_def)

end
