(* ===== verification/Mtx_Types.thy ===== *)
theory Mtx_Types
  imports Mtx_Buf Sha1
begin

text \<open>
  The data of the key exchange: the TL structs of \<^verbatim>\<open>libtg/mtx/include/tgt.h\<close> with the initial
  values \<^verbatim>\<open>libtg/mtx/src/tgt.c\<close> gives them, the shared state of \<^verbatim>\<open>libtg/mtx/src/types.c\<close>, and
  the surroundings: the clock, \<^verbatim>\<open>rand\<close>, OpenSSL's AES-IGE and big numbers, the public key
  file, the factorisation of \<^verbatim>\<open>fact.cpp\<close> and the socket.  A struct \<^verbatim>\<open>X x = {}\<close> is the value
  \<open>zero_X\<close>.
\<close>

section \<open>Parameters\<close>

text \<open>The enumerators the code names; \<open>TYPE_OTHER\<close> stands for the remaining ones.\<close>

datatype tl_type_t = TYPE_QX | TYPE_BOOL | TYPE_MESSAGE | TYPE_VECTOR_MESSAGE | TYPE_VECTOR_LONG
  | TYPE_INT | TYPE_INT128 | TYPE_INT256 | TYPE_LONG | TYPE_STRING | TYPE_ID | TYPE_OTHER nat

datatype msg_t = API | RFC | CTER

datatype stk_mode_t = SEND | SEND_RECEIVE

record param_t =
  p_id :: u32
  p_value :: mbuf
  p_type :: tl_type_t

text \<open>
  \<^verbatim>\<open>abstract_t\<close>: \<open>a_params\<close> are the elements of the array that have been set, a prefix of it.
\<close>

record abstract_t =
  a_params :: "param_t list"
  a_size :: u32
  a_type :: msg_t
  a_stk_mode :: stk_mode_t

definition zero_param :: param_t where
  "zero_param = \<lparr>p_id = 0, p_value = mbuf_zero, p_type = TYPE_QX\<rparr>"

text \<open>The initialiser \<^verbatim>\<open>{ .value = {}, .type = T }\<close>.\<close>

definition of_type :: "tl_type_t \<Rightarrow> param_t" where
  "of_type T = \<lparr>p_id = 0, p_value = mbuf_zero, p_type = T\<rparr>"

section \<open>Structs\<close>

record ctor_ResPQ_t =
  rp_type :: msg_t
  rp_id :: u32
  rp_nonce :: param_t
  rp_server_nonce :: param_t
  rp_pq :: param_t
  rp_fingerprints :: param_t

record method_req_pq_t =
  mp_type :: msg_t
  mp_id :: u32
  mp_nonce :: param_t
  mp_ResPQ :: ctor_ResPQ_t

record ctor_Server_DH_Params_ok_t =
  dk_type :: msg_t
  dk_id :: u32
  dk_nonce :: param_t
  dk_server_nonce :: param_t
  dk_encrypted_answer :: param_t

record ctor_P_Q_inner_data_t =
  pi_type :: msg_t
  pi_id :: u32
  pi_pq :: param_t
  pi_p :: param_t
  pi_q :: param_t
  pi_nonce :: param_t
  pi_server_nonce :: param_t
  pi_new_nonce :: param_t

record method_req_DH_params_t =
  md_type :: msg_t
  md_id :: u32
  md_nonce :: param_t
  md_server_nonce :: param_t
  md_p :: param_t
  md_q :: param_t
  md_fingerprint :: param_t
  md_encrypted_data :: param_t
  md_Server_DH_Params_ok :: ctor_Server_DH_Params_ok_t
  md_P_Q_inner_data :: ctor_P_Q_inner_data_t

record ctor_Server_DH_inner_data_t =
  si_type :: msg_t
  si_id :: u32
  si_nonce :: param_t
  si_server_nonce :: param_t
  si_g :: param_t
  si_dh_prime :: param_t
  si_g_a :: param_t
  si_server_time :: param_t
  si_answer :: mbuf
  si_tmp_aes_key :: mbuf
  si_tmp_aes_iv :: mbuf

record ctor_Client_DH_Inner_Data_t =
  ci_type :: msg_t
  ci_id :: u32
  ci_nonce :: param_t
  ci_server_nonce :: param_t
  ci_retry_id :: param_t
  ci_g_b :: param_t
  ci_b :: mbuf

record ctor_DH_answer_ok_t =
  sa_type :: msg_t
  sa_id :: u32
  sa_nonce :: param_t
  sa_server_nonce :: param_t
  sa_new_nonce_hash1 :: param_t

record method_set_client_DH_params_t =
  ms_type :: msg_t
  ms_id :: u32
  ms_nonce :: param_t
  ms_server_nonce :: param_t
  ms_encrypted_data :: param_t
  ms_answer_ok :: ctor_DH_answer_ok_t
  ms_Server_DH_inner_data :: ctor_Server_DH_inner_data_t
  ms_Client_DH_Inner_Data :: ctor_Client_DH_Inner_Data_t
  ms_salt :: mbuf

record ctor_Pong_t =
  po_type :: msg_t
  po_id :: u32
  po_msg_id :: param_t
  po_ping_id :: param_t

record method_ping_t =
  pg_type :: msg_t
  pg_id :: u32
  pg_ping_id :: param_t
  pg_Pong :: ctor_Pong_t

record ctor_auth_SentCode_t =
  sk_type :: msg_t
  sk_id :: u32
  sk_phone_registered :: param_t
  sk_phone_code_hash :: param_t

record method_auth_sendCode_t =
  sc_type :: msg_t
  sc_id :: u32
  sc_phone_number :: param_t
  sc_sms_type :: param_t
  sc_api_id :: param_t
  sc_api_hash :: param_t
  sc_lang_code :: param_t
  sc_SentCode :: ctor_auth_SentCode_t

record ctor_NewSession_t =
  ns_type :: msg_t
  ns_id :: u32
  ns_first_msg_id :: param_t
  ns_unique_id :: param_t
  ns_server_salt :: param_t

record method_msgs_ack_t =
  ma_type :: msg_t
  ma_id :: u32
  ma_msg_ids :: param_t

section \<open>Zeroed and initial structs\<close>

definition zero_ResPQ :: ctor_ResPQ_t where
  "zero_ResPQ = \<lparr>rp_type = API, rp_id = 0, rp_nonce = zero_param, rp_server_nonce = zero_param,
     rp_pq = zero_param, rp_fingerprints = zero_param\<rparr>"

definition zero_req_pq :: method_req_pq_t where
  "zero_req_pq = \<lparr>mp_type = API, mp_id = 0, mp_nonce = zero_param, mp_ResPQ = zero_ResPQ\<rparr>"

definition req_pq :: method_req_pq_t where
  "req_pq = \<lparr>mp_type = RFC, mp_id = 0x60469778, mp_nonce = of_type TYPE_INT128, mp_ResPQ = zero_ResPQ\<rparr>"

definition zero_DH_Params_ok :: ctor_Server_DH_Params_ok_t where
  "zero_DH_Params_ok = \<lparr>dk_type = API, dk_id = 0, dk_nonce = zero_param, dk_server_nonce = zero_param,
     dk_encrypted_answer = zero_param\<rparr>"

definition zero_P_Q_inner_data :: ctor_P_Q_inner_data_t where
  "zero_P_Q_inner_data = \<lparr>pi_type = API, pi_id = 0, pi_pq = zero_param, pi_p = zero_param, pi_q = zero_param,
     pi_nonce = zero_param, pi_server_nonce = zero_param, pi_new_nonce = zero_param\<rparr>"

definition ctor_P_Q_inner_data :: ctor_P_Q_inner_data_t where
  "ctor_P_Q_inner_data = \<lparr>pi_type = RFC, pi_id = 0x83c95aec, pi_pq = of_type TYPE_STRING,
     pi_p = of_type TYPE_STRING, pi_q = of_type TYPE_STRING, pi_nonce = of_type TYPE_INT128,
     pi_server_nonce = of_type TYPE_INT128, pi_new_nonce = of_type TYPE_INT256\<rparr>"

definition zero_req_DH_params :: method_req_DH_params_t where
  "zero_req_DH_params = \<lparr>md_type = API, md_id = 0, md_nonce = zero_param, md_server_nonce = zero_param,
     md_p = zero_param, md_q = zero_param, md_fingerprint = zero_param, md_encrypted_data = zero_param,
     md_Server_DH_Params_ok = zero_DH_Params_ok, md_P_Q_inner_data = zero_P_Q_inner_data\<rparr>"

definition method_req_DH_params :: method_req_DH_params_t where
  "method_req_DH_params = \<lparr>md_type = RFC, md_id = 0xd712e4be, md_nonce = of_type TYPE_INT128,
     md_server_nonce = of_type TYPE_INT128, md_p = of_type TYPE_STRING, md_q = of_type TYPE_STRING,
     md_fingerprint = of_type TYPE_LONG, md_encrypted_data = of_type TYPE_STRING,
     md_Server_DH_Params_ok = zero_DH_Params_ok, md_P_Q_inner_data = zero_P_Q_inner_data\<rparr>"

definition zero_Server_DH_inner_data :: ctor_Server_DH_inner_data_t where
  "zero_Server_DH_inner_data = \<lparr>si_type = API, si_id = 0, si_nonce = zero_param, si_server_nonce = zero_param,
     si_g = zero_param, si_dh_prime = zero_param, si_g_a = zero_param, si_server_time = zero_param,
     si_answer = mbuf_zero, si_tmp_aes_key = mbuf_zero, si_tmp_aes_iv = mbuf_zero\<rparr>"

definition zero_Client_DH_Inner_Data :: ctor_Client_DH_Inner_Data_t where
  "zero_Client_DH_Inner_Data = \<lparr>ci_type = API, ci_id = 0, ci_nonce = zero_param, ci_server_nonce = zero_param,
     ci_retry_id = zero_param, ci_g_b = zero_param, ci_b = mbuf_zero\<rparr>"

definition ctor_Client_DH_Inner_Data :: ctor_Client_DH_Inner_Data_t where
  "ctor_Client_DH_Inner_Data = \<lparr>ci_type = RFC, ci_id = 0x6643b654, ci_nonce = of_type TYPE_INT128,
     ci_server_nonce = of_type TYPE_INT128, ci_retry_id = of_type TYPE_LONG, ci_g_b = of_type TYPE_STRING,
     ci_b = mbuf_zero\<rparr>"

definition zero_DH_answer_ok :: ctor_DH_answer_ok_t where
  "zero_DH_answer_ok = \<lparr>sa_type = API, sa_id = 0, sa_nonce = zero_param, sa_server_nonce = zero_param,
     sa_new_nonce_hash1 = zero_param\<rparr>"

definition zero_set_client_DH_params :: method_set_client_DH_params_t where
  "zero_set_client_DH_params = \<lparr>ms_type = API, ms_id = 0, ms_nonce = zero_param, ms_server_nonce = zero_param,
     ms_encrypted_data = zero_param, ms_answer_ok = zero_DH_answer_ok,
     ms_Server_DH_inner_data = zero_Server_DH_inner_data, ms_Client_DH_Inner_Data = zero_Client_DH_Inner_Data,
     ms_salt = mbuf_zero\<rparr>"

definition method_set_client_DH_params :: method_set_client_DH_params_t where
  "method_set_client_DH_params = \<lparr>ms_type = RFC, ms_id = 0xf5045f1f, ms_nonce = of_type TYPE_INT128,
     ms_server_nonce = of_type TYPE_INT128, ms_encrypted_data = of_type TYPE_STRING,
     ms_answer_ok = zero_DH_answer_ok, ms_Server_DH_inner_data = zero_Server_DH_inner_data,
     ms_Client_DH_Inner_Data = zero_Client_DH_Inner_Data, ms_salt = mbuf_zero\<rparr>"

definition zero_Pong :: ctor_Pong_t where
  "zero_Pong = \<lparr>po_type = API, po_id = 0, po_msg_id = zero_param, po_ping_id = zero_param\<rparr>"

definition zero_ping :: method_ping_t where
  "zero_ping = \<lparr>pg_type = API, pg_id = 0, pg_ping_id = zero_param, pg_Pong = zero_Pong\<rparr>"

text \<open>The methods that are sent under a key are initialised with the type \<^verbatim>\<open>RFC\<close>, too.\<close>

definition method_ping :: method_ping_t where
  "method_ping = \<lparr>pg_type = RFC, pg_id = 0x7abe77ec, pg_ping_id = of_type TYPE_LONG, pg_Pong = zero_Pong\<rparr>"

definition zero_SentCode :: ctor_auth_SentCode_t where
  "zero_SentCode = \<lparr>sk_type = API, sk_id = 0, sk_phone_registered = zero_param, sk_phone_code_hash = zero_param\<rparr>"

definition zero_sendCode :: method_auth_sendCode_t where
  "zero_sendCode = \<lparr>sc_type = API, sc_id = 0, sc_phone_number = zero_param, sc_sms_type = zero_param, sc_api_id = zero_param,
     sc_api_hash = zero_param, sc_lang_code = zero_param, sc_SentCode = zero_SentCode\<rparr>"

definition method_auth_sendCode :: method_auth_sendCode_t where
  "method_auth_sendCode = \<lparr>sc_type = RFC, sc_id = 0x768d5f4d, sc_phone_number = of_type TYPE_STRING,
     sc_sms_type = of_type TYPE_INT, sc_api_id = of_type TYPE_INT, sc_api_hash = of_type TYPE_STRING,
     sc_lang_code = of_type TYPE_STRING, sc_SentCode = zero_SentCode\<rparr>"

definition zero_NewSession :: ctor_NewSession_t where
  "zero_NewSession = \<lparr>ns_type = API, ns_id = 0, ns_first_msg_id = zero_param, ns_unique_id = zero_param,
     ns_server_salt = zero_param\<rparr>"

definition zero_msgs_ack :: method_msgs_ack_t where
  "zero_msgs_ack = \<lparr>ma_type = API, ma_id = 0, ma_msg_ids = zero_param\<rparr>"

definition method_msgs_ack :: method_msgs_ack_t where
  "method_msgs_ack = \<lparr>ma_type = RFC, ma_id = 0x62d6b459, ma_msg_ids = of_type TYPE_VECTOR_LONG\<rparr>"

text \<open>
  \<^verbatim>\<open>tg_api_type_system_t\<close>: one member per method and constructor.  Members that no function
  reads or writes (the container, the failed answers) are left out.
\<close>

record type_system =
  ts_req_pq :: method_req_pq_t
  ts_req_DH_params :: method_req_DH_params_t
  ts_set_client_DH_params :: method_set_client_DH_params_t
  ts_ping :: method_ping_t
  ts_auth_sendCode :: method_auth_sendCode_t
  ts_msgs_ack :: method_msgs_ack_t
  ts_ResPQ :: ctor_ResPQ_t
  ts_Server_DH_Params_ok :: ctor_Server_DH_Params_ok_t
  ts_P_Q_inner_data :: ctor_P_Q_inner_data_t
  ts_Server_DH_inner_data :: ctor_Server_DH_inner_data_t
  ts_Client_DH_Inner_Data :: ctor_Client_DH_Inner_Data_t
  ts_answer_ok :: ctor_DH_answer_ok_t
  ts_Pong :: ctor_Pong_t
  ts_auth_SentCode :: ctor_auth_SentCode_t
  ts_NewSession :: ctor_NewSession_t

definition zero_ts :: type_system where
  "zero_ts = \<lparr>ts_req_pq = zero_req_pq, ts_req_DH_params = zero_req_DH_params,
     ts_set_client_DH_params = zero_set_client_DH_params, ts_ping = zero_ping, ts_auth_sendCode = zero_sendCode, ts_msgs_ack = zero_msgs_ack,
     ts_ResPQ = zero_ResPQ, ts_Server_DH_Params_ok = zero_DH_Params_ok, ts_P_Q_inner_data = zero_P_Q_inner_data,
     ts_Server_DH_inner_data = zero_Server_DH_inner_data, ts_Client_DH_Inner_Data = zero_Client_DH_Inner_Data,
     ts_answer_ok = zero_DH_answer_ok, ts_Pong = zero_Pong, ts_auth_SentCode = zero_SentCode, ts_NewSession = zero_NewSession\<rparr>"

section \<open>Surroundings and state\<close>

text \<open>
  The clock is read in units of \<open>2\<^sup>-\<^sup>3\<^sup>2\<close> seconds.  \<open>me_dwh\<close> and \<open>me_sha\<close> are what the stack holds
  where the code declares a variable without initialising it.  \<open>me_pub\<close> is the key in the
  file \<^verbatim>\<open>pub.pkcs\<close> (modulus and exponent), \<^term>\<open>None\<close> when it cannot be read.
\<close>

record menv =
  me_clock :: "nat \<Rightarrow> u64"
  me_rnd :: "u32 \<Rightarrow> nat \<Rightarrow> nat"
  me_ige_e :: "byte list \<Rightarrow> byte list \<Rightarrow> byte list \<Rightarrow> byte list"
  me_ige_d :: "byte list \<Rightarrow> byte list \<Rightarrow> byte list \<Rightarrow> byte list"
  me_bin2bn :: "byte list \<Rightarrow> nat"
  me_bn2bin :: "nat \<Rightarrow> byte list"
  me_mod_exp :: "nat \<Rightarrow> nat \<Rightarrow> nat \<Rightarrow> nat"
  me_pub :: "(nat \<times> nat) option"
  me_factor :: "u64 \<Rightarrow> u32 \<times> u32"
  me_dwh :: mbuf
  me_sha :: sha1nfo
  me_socket :: int
  me_host :: bool
  me_connect :: bool

datatype received = Got "byte list" | Failed

text \<open>
  \<open>mx_out\<close> are the packets given to \<^verbatim>\<open>send\<close>, \<open>mx_in\<close> what the coming calls of \<^verbatim>\<open>recv\<close> return;
  \<open>mx_ts\<close> and \<open>mx_flag\<close> are the two globals of \<^verbatim>\<open>sil.c\<close>, the others the members of \<^verbatim>\<open>shared_rc\<close>.
\<close>

record mtx =
  mx_key :: mbuf
  mx_salt :: mbuf
  mx_ssid :: mbuf
  mx_seqn :: int
  mx_seqnh :: u32
  mx_sockfd :: int
  mx_last_msg_id :: mbuf
  mx_ts :: type_system
  mx_flag :: u32
  mx_ticks :: nat
  mx_out :: "byte list list"
  mx_in :: "received list"

definition reset_shared_rc :: "mtx \<Rightarrow> mtx" where
  "reset_shared_rc s = s\<lparr>mx_key := (mx_key s)\<lparr>m_size := 0\<rparr>, mx_salt := (mx_salt s)\<lparr>m_size := 0\<rparr>,
     mx_ssid := (mx_ssid s)\<lparr>m_size := 0\<rparr>, mx_seqn := - 1, mx_seqnh := 0, mx_sockfd := 0\<rparr>"

definition shared_rc_get_seqnh :: "mtx \<Rightarrow> u32 \<times> mtx" where
  "shared_rc_get_seqnh s = (let n = mx_seqnh s + 1 in (n, s\<lparr>mx_seqnh := n\<rparr>))"

definition get_current_time :: "menv \<Rightarrow> mtx \<Rightarrow> u64 \<times> mtx" where
  "get_current_time env s = (me_clock env (mx_ticks s) AND (- 4), s\<lparr>mx_ticks := Suc (mx_ticks s)\<rparr>)"

text \<open>\<^verbatim>\<open>api.buf.rand\<close>, which reads the clock for its seed.\<close>

definition seconds :: "menv \<Rightarrow> nat \<Rightarrow> u32" where
  "seconds env i = ucast (drop_bit 32 (me_clock env i))"

definition draw :: "menv \<Rightarrow> mtx \<Rightarrow> nat \<Rightarrow> (mbuf \<times> mtx) option" where
  "draw env s n = do {
     b \<leftarrow> mbuf_rand (me_rnd env) (seconds env (mx_ticks s)) (of_nat n);
     Some (b, s\<lparr>mx_ticks := Suc (mx_ticks s)\<rparr>)
   }"

end
