(* ===== verification/Mtx_Layers.thy ===== *)
theory Mtx_Layers
  imports Mtx_Types
begin

text \<open>
  The layers of the key exchange, each a function on buffers: serialisation
  (\<^verbatim>\<open>libtg/mtx/src/sel.c\<close>), message header (\<^verbatim>\<open>hdl.c\<close>), encryption (\<^verbatim>\<open>enl.c\<close>), transport (\<^verbatim>\<open>trl.c\<close>),
  network (\<^verbatim>\<open>net.c\<close>) and the stack that drives them (\<^verbatim>\<open>stk.c\<close>), with the wrappers of
  \<^verbatim>\<open>hsh.c\<close>, \<^verbatim>\<open>cry.c\<close>, \<^verbatim>\<open>cmn.c\<close>, \<^verbatim>\<open>rsa.c\<close> and \<^verbatim>\<open>aes.c\<close>.  A local buffer that is declared but never
  set on the path taken makes the result \<^term>\<open>None\<close>.  The lemmas say what each layer does to
  buffers that hold a byte string (\<open>mk xs\<close>).
\<close>

section \<open>Digests, ciphers, powers\<close>

definition hsh_sha1 :: "menv \<Rightarrow> mbuf \<Rightarrow> mbuf option" where
  "hsh_sha1 env b = do {
     d \<leftarrow> mem_read (m_data b) 0 (unat (m_size b));
     h \<leftarrow> sha1 (me_sha env) d;
     data \<leftarrow> copy_loop 20 (m_data mbuf_zero) 0 h 0;
     Some \<lparr>m_data = data, m_size = 20\<rparr>
   }"

text \<open>\<^verbatim>\<open>aes_e\<close> and \<^verbatim>\<open>aes_d\<close> are \<^verbatim>\<open>AES_ige_encrypt\<close> in its two modes; it asserts full blocks.\<close>

definition cry_ige :: "(byte list \<Rightarrow> byte list \<Rightarrow> byte list \<Rightarrow> byte list) \<Rightarrow> mbuf \<Rightarrow> mbuf \<Rightarrow> mbuf \<Rightarrow> mbuf option" where
  "cry_ige ige b key iv = do {
     k \<leftarrow> mem_read (m_data key) 0 32;
     v \<leftarrow> mem_read (m_data iv) 0 32;
     src \<leftarrow> mem_read (m_data b) 0 (unat (m_size b));
     if unat (m_size b) mod 16 \<noteq> 0 then None
     else do {
       data \<leftarrow> copy_loop (unat (m_size b)) (m_data mbuf_zero) 0 (ige k v src) 0;
       Some \<lparr>m_data = data, m_size = m_size b\<rparr>
     }
   }"

definition cry_aes_e :: "menv \<Rightarrow> mbuf \<Rightarrow> mbuf \<Rightarrow> mbuf \<Rightarrow> mbuf option" where
  "cry_aes_e env b key iv = cry_ige (me_ige_e env) b key iv"

definition cry_aes_d :: "menv \<Rightarrow> mbuf \<Rightarrow> mbuf \<Rightarrow> mbuf \<Rightarrow> mbuf option" where
  "cry_aes_d env b key iv = cry_ige (me_ige_d env) b key iv"

text \<open>
  \<open>rsax\<close> works on the whole target array: the number is written to its front, without leading
  zeros, and the rest of the \<open>to_len\<close> bytes is zero.
\<close>

definition rsax :: "menv \<Rightarrow> byte list \<Rightarrow> byte list \<Rightarrow> nat \<Rightarrow> nat \<Rightarrow> nat \<Rightarrow> byte list option" where
  "rsax env from to to_len N E = do {
     let x = me_bin2bn env from;
     let y = me_mod_exp env x E N;
     to \<leftarrow> mem_set to 0 0 to_len;
     copy_loop (length (me_bn2bin env y)) to 0 (me_bn2bin env y) 0
   }"

definition rsa :: "menv \<Rightarrow> byte list \<Rightarrow> byte list \<Rightarrow> nat \<Rightarrow> byte list option" where
  "rsa env from to to_size =
     (if \<not> (length from = 255 \<or> to_size = 256) then None
      else case me_pub env of None \<Rightarrow> None | Some (n, e) \<Rightarrow> rsax env from to to_size n e)"

definition cry_rsa_e :: "menv \<Rightarrow> mbuf \<Rightarrow> mbuf option" where
  "cry_rsa_e env b = do {
     from \<leftarrow> mem_read (m_data b) 0 (unat (m_size b));
     data \<leftarrow> rsa env from (m_data mbuf_zero) 256;
     Some \<lparr>m_data = data, m_size = 256\<rparr>
   }"

text \<open>\<open>pow_mod\<close> returns the target array and the number of bytes of the power.\<close>

definition pow_mod :: "menv \<Rightarrow> byte list \<Rightarrow> byte list \<Rightarrow> byte list \<Rightarrow> byte list \<Rightarrow> (byte list \<times> nat) option" where
  "pow_mod env y g e m = do {
     let p = me_bn2bin env (me_mod_exp env (me_bin2bn env g) (me_bin2bn env e) (me_bin2bn env m));
     y \<leftarrow> mem_set y 0 0 (length m);
     y \<leftarrow> copy_loop (length p) y 0 p 0;
     Some (y, length p)
   }"

definition cmn_pow_mod :: "menv \<Rightarrow> mbuf \<Rightarrow> mbuf \<Rightarrow> mbuf \<Rightarrow> mbuf option" where
  "cmn_pow_mod env g e m = do {
     g \<leftarrow> mem_read (m_data g) 0 (unat (m_size g));
     e \<leftarrow> mem_read (m_data e) 0 (unat (m_size e));
     m \<leftarrow> mem_read (m_data m) 0 (unat (m_size m));
     (y, l) \<leftarrow> pow_mod env (m_data mbuf_zero) g e m;
     Some \<lparr>m_data = y, m_size = of_nat l\<rparr>
   }"

section \<open>Serialisation\<close>

definition sel_serialize_string :: "mbuf \<Rightarrow> mbuf option" where
  "sel_serialize_string b = (let size = m_size b in
     if size \<le> 253 then do {
       s \<leftarrow> mbuf_add (le_bytes 4 size) 0 1;
       s \<leftarrow> mbuf_cat s b;
       let pad = (4 - (m_size s mod 4)) mod 4;
       mbuf_cat s (mbuf_zero\<lparr>m_size := pad\<rparr>)
     } else do {
       s \<leftarrow> mbuf_add [0xfe] 0 1;
       len \<leftarrow> mbuf_add (le_bytes 4 size) 0 3;
       s \<leftarrow> mbuf_cat s len;
       s \<leftarrow> mbuf_cat s b;
       let pad = (4 - (m_size s mod 4)) mod 4;
       if pad \<noteq> 0 then mbuf_cat s (mbuf_zero\<lparr>m_size := pad\<rparr>) else Some s
     })"

definition sel_deserialize_string :: "mbuf \<Rightarrow> mbuf option" where
  "sel_deserialize_string b = do {
     byte \<leftarrow> mbuf_part b 0 4;
     let first = m_data byte ! 0;
     if first \<le> 253 then mbuf_part b 1 (unat first)
     else do {
       s1 \<leftarrow> mbuf_add [0xfe] 0 1;
       s2 \<leftarrow> mbuf_part b 0 1;
       _ \<leftarrow> mbuf_cmp s1 s2;
       len \<leftarrow> mbuf_part b 1 3;
       let len = len\<lparr>m_size := 4\<rparr>;
       len \<leftarrow> mbuf_get_ui32 len;
       b \<leftarrow> mbuf_skip 4 b;
       mbuf_add (m_data b) 0 len
     }
   }"

definition sel_serialize_param :: "param_t \<Rightarrow> mbuf option" where
  "sel_serialize_param p =
     (case p_type p of
        TYPE_INT \<Rightarrow> mbuf_part (p_value p) 0 4
      | TYPE_INT128 \<Rightarrow> mbuf_part (p_value p) 0 16
      | TYPE_INT256 \<Rightarrow> mbuf_part (p_value p) 0 32
      | TYPE_LONG \<Rightarrow> mbuf_part (p_value p) 0 8
      | TYPE_VECTOR_LONG \<Rightarrow> mbuf_add (m_data (p_value p)) 0 (m_size (p_value p))
      | TYPE_STRING \<Rightarrow> sel_serialize_string (p_value p)
      | TYPE_ID \<Rightarrow> mbuf_part (p_value p) 0 4
      | TYPE_QX \<Rightarrow> mbuf_add (m_data (p_value p)) 0 (m_size (p_value p))
      | _ \<Rightarrow> None)"

fun serialize_loop :: "param_t list \<Rightarrow> nat \<Rightarrow> mbuf \<Rightarrow> mbuf option" where
  "serialize_loop ps 0 s = Some s"
| "serialize_loop [] (Suc n) s = None"
| "serialize_loop (p # ps) (Suc n) s = do {
     b \<leftarrow> sel_serialize_param p;
     s \<leftarrow> mbuf_cat s b;
     serialize_loop ps n s
   }"

definition sel_serialize :: "abstract_t \<Rightarrow> mbuf option" where
  "sel_serialize a = serialize_loop (a_params a) (unat (a_size a)) mbuf_zero"

text \<open>
  \<^verbatim>\<open>sel_deserialize_param\<close>: \<open>deserialize_scalar\<close> is the switch without the vectors, which is
  all that \<^verbatim>\<open>sel_deserialize_vector\<close> needs of it for the elements.
\<close>

definition deserialize_scalar :: "param_t \<Rightarrow> mbuf option" where
  "deserialize_scalar p =
     (case p_type p of
        TYPE_INT \<Rightarrow> mbuf_part (p_value p) 0 4
      | TYPE_INT128 \<Rightarrow> mbuf_part (p_value p) 0 16
      | TYPE_INT256 \<Rightarrow> mbuf_part (p_value p) 0 32
      | TYPE_LONG \<Rightarrow> mbuf_part (p_value p) 0 8
      | TYPE_STRING \<Rightarrow> sel_deserialize_string (p_value p)
      | TYPE_ID \<Rightarrow> mbuf_part (p_value p) 0 4
      | TYPE_MESSAGE \<Rightarrow> mbuf_add (m_data (p_value p)) 0 (m_size (p_value p))
      | _ \<Rightarrow> None)"

definition mtx_id_Vector :: u32 where "mtx_id_Vector = 0x1cb5c415"
definition mtx_id_resPQ :: u32 where "mtx_id_resPQ = 0x05162463"
definition mtx_id_msg_container :: u32 where "mtx_id_msg_container = 0x73f1f8dc"
definition max_param_size :: nat where "max_param_size = 12"

text \<open>
  The loop over the elements never moves on: every element is read from the same place.
  \<open>d\<close> is \<^term>\<open>None\<close> while the result is not set.
\<close>

fun vector_loop :: "u32 \<Rightarrow> mbuf \<Rightarrow> nat \<Rightarrow> nat \<Rightarrow> mbuf option \<Rightarrow> mbuf option option" where
  "vector_loop pid b i 0 d = Some d"
| "vector_loop pid b i (Suc n) d =
     (if pid = mtx_id_resPQ \<or> pid = mtx_id_msg_container then
        (if max_param_size \<le> i then None
         else do {
           v \<leftarrow> deserialize_scalar \<lparr>p_id = 0, p_value = b,
                  p_type = (if pid = mtx_id_resPQ then TYPE_LONG else TYPE_MESSAGE)\<rparr>;
           vector_loop pid b (Suc i) n (Some v)
         })
      else vector_loop pid b (Suc i) n d)"

definition sel_deserialize_vector :: "param_t \<Rightarrow> mbuf option" where
  "sel_deserialize_vector p = do {
     let b = p_value p;
     id \<leftarrow> mbuf_get_ui32 b;
     b \<leftarrow> mbuf_skip 4 b;
     q \<leftarrow> mbuf_get_ui32 b;
     if q = 0 then Some mbuf_zero
     else do {
       b \<leftarrow> mbuf_skip 4 b;
       d \<leftarrow> vector_loop (p_id p) b 0 (unat q) None;
       d
     }
   }"

definition sel_deserialize_param :: "param_t \<Rightarrow> param_t option" where
  "sel_deserialize_param p = do {
     s \<leftarrow> (if p_type p = TYPE_VECTOR_LONG \<or> p_type p = TYPE_VECTOR_MESSAGE
           then sel_deserialize_vector p else deserialize_scalar p);
     Some \<lparr>p_id = 0, p_value = s, p_type = p_type p\<rparr>
   }"

definition sel_deserialize :: "mbuf \<Rightarrow> abstract_t option" where
  "sel_deserialize b = do {
     id \<leftarrow> mbuf_get_ui32 b;
     v \<leftarrow> mbuf_add_ui32 id;
     b \<leftarrow> mbuf_skip 4 b;
     Some \<lparr>a_params = [\<lparr>p_id = 0, p_value = v, p_type = TYPE_ID\<rparr>, \<lparr>p_id = 0, p_value = b, p_type = TYPE_QX\<rparr>],
           a_size = 0, a_type = API, a_stk_mode = SEND\<rparr>
   }"

section \<open>Header\<close>

definition hdl_header :: "menv \<Rightarrow> mtx \<Rightarrow> mbuf \<Rightarrow> msg_t \<Rightarrow> (mbuf \<times> mtx) option" where
  "hdl_header env s b t =
     (case t of
        RFC \<Rightarrow> do {
          let r = mbuf_zero;
          let (mid, s) = get_current_time env s;
          msg_id \<leftarrow> mbuf_add_ui64 mid;
          r \<leftarrow> mbuf_cat r msg_id;
          len \<leftarrow> mbuf_add_ui32 (m_size b);
          r \<leftarrow> mbuf_cat r len;
          r \<leftarrow> mbuf_cat r b;
          Some (r, s)
        }
      | API \<Rightarrow> do {
          let r = mbuf_zero;
          r \<leftarrow> mbuf_cat r (mx_salt s);
          r \<leftarrow> mbuf_cat r (mx_ssid s);
          let (mid, s) = get_current_time env s;
          msg_id \<leftarrow> mbuf_add_ui64 mid;
          r \<leftarrow> mbuf_cat r msg_id;
          let (seqnh, s) = shared_rc_get_seqnh s;
          seq_no \<leftarrow> mbuf_add_ui32 seqnh;
          r \<leftarrow> mbuf_cat r seq_no;
          len \<leftarrow> mbuf_add_ui32 (m_size b);
          r \<leftarrow> mbuf_cat r len;
          r \<leftarrow> mbuf_cat r b;
          Some (r, s)
        }
      | CTER \<Rightarrow> Some (mbuf_zero, s))"

text \<open>The end that the two message kinds share: the length is read, compared and logged.\<close>

definition drop_len :: "mbuf \<Rightarrow> mbuf option" where
  "drop_len d = do {
     msg_data_len \<leftarrow> mbuf_get_ui32 d;
     let d = d\<lparr>m_size := m_size d - 4\<rparr>;
     mbuf_add (m_data d) 4 (m_size d)
   }"

definition hdl_deheader :: "mtx \<Rightarrow> mbuf \<Rightarrow> msg_t \<Rightarrow> (mbuf \<times> mtx) option" where
  "hdl_deheader s b t =
     (case t of
        RFC \<Rightarrow> do {
          d \<leftarrow> mbuf_skip 8 b;
          d \<leftarrow> drop_len d;
          Some (d, s)
        }
      | API \<Rightarrow> do {
          d \<leftarrow> mbuf_skip 8 b;
          d \<leftarrow> mbuf_skip 8 d;
          last \<leftarrow> mbuf_part d 0 8;
          let s = s\<lparr>mx_last_msg_id := last\<rparr>;
          d \<leftarrow> mbuf_skip 8 d;
          d \<leftarrow> mbuf_skip 4 d;
          d \<leftarrow> drop_len d;
          Some (d, s)
        }
      | CTER \<Rightarrow> do {
          d \<leftarrow> mbuf_skip 8 b;
          d \<leftarrow> mbuf_skip 4 d;
          msg_data_len \<leftarrow> mbuf_get_ui32 d;
          d \<leftarrow> mbuf_add (m_data d) 4 msg_data_len;
          Some (d, s)
        })"

section \<open>Encryption\<close>

datatype get_params_mode_t = MODE_C2S | MODE_S2C

definition enl_get_params :: "menv \<Rightarrow> mbuf \<Rightarrow> mbuf \<Rightarrow> get_params_mode_t \<Rightarrow> (mbuf \<times> mbuf) option" where
  "enl_get_params env auth_key msg_key m = do {
     let x = (case m of MODE_C2S \<Rightarrow> 0 | MODE_S2C \<Rightarrow> 8);
     let aes_key = mbuf_zero;
     let aes_iv = mbuf_zero;
     tmp \<leftarrow> mbuf_part msg_key 0 16;
     c \<leftarrow> mbuf_part auth_key x 32;
     tmp \<leftarrow> mbuf_cat tmp c;
     hash \<leftarrow> hsh_sha1 env tmp;
     c \<leftarrow> mbuf_part hash 0 8;
     aes_key \<leftarrow> mbuf_cat aes_key c;
     c \<leftarrow> mbuf_part hash 8 12;
     aes_iv \<leftarrow> mbuf_cat aes_iv c;
     tmp \<leftarrow> mbuf_part auth_key (32 + x) 16;
     c \<leftarrow> mbuf_part msg_key 0 16;
     tmp \<leftarrow> mbuf_cat tmp c;
     c \<leftarrow> mbuf_part auth_key (48 + x) 16;
     tmp \<leftarrow> mbuf_cat tmp c;
     hash \<leftarrow> hsh_sha1 env tmp;
     c \<leftarrow> mbuf_part hash 8 12;
     aes_key \<leftarrow> mbuf_cat aes_key c;
     c \<leftarrow> mbuf_part hash 0 8;
     aes_iv \<leftarrow> mbuf_cat aes_iv c;
     tmp \<leftarrow> mbuf_part auth_key (64 + x) 32;
     c \<leftarrow> mbuf_part msg_key 0 16;
     tmp \<leftarrow> mbuf_cat tmp c;
     hash \<leftarrow> hsh_sha1 env tmp;
     c \<leftarrow> mbuf_part hash 4 12;
     aes_key \<leftarrow> mbuf_cat aes_key c;
     c \<leftarrow> mbuf_part hash 16 4;
     aes_iv \<leftarrow> mbuf_cat aes_iv c;
     tmp \<leftarrow> mbuf_part msg_key 0 16;
     c \<leftarrow> mbuf_part auth_key (96 + x) 32;
     tmp \<leftarrow> mbuf_cat tmp c;
     hash \<leftarrow> hsh_sha1 env tmp;
     c \<leftarrow> mbuf_part hash 0 8;
     aes_iv \<leftarrow> mbuf_cat aes_iv c;
     Some (aes_key, aes_iv)
   }"

definition enl_encrypt :: "menv \<Rightarrow> mtx \<Rightarrow> mbuf \<Rightarrow> msg_t \<Rightarrow> mbuf option" where
  "enl_encrypt env s b t =
     (case t of
        API \<Rightarrow> do {
          let e = mbuf_zero;
          let key = mx_key s;
          key_hash \<leftarrow> hsh_sha1 env key;
          auth_key_id \<leftarrow> mbuf_part key_hash 12 8;
          e \<leftarrow> mbuf_cat e auth_key_id;
          data_hash \<leftarrow> hsh_sha1 env b;
          msg_key \<leftarrow> mbuf_part data_hash 4 16;
          e \<leftarrow> mbuf_cat e msg_key;
          let pad = (16 - (m_size b mod 16)) mod 16;
          b \<leftarrow> (if pad \<noteq> 0 then mbuf_cat b (mbuf_zero\<lparr>m_size := pad\<rparr>) else Some b);
          (aes_key, aes_iv) \<leftarrow> enl_get_params env key msg_key MODE_C2S;
          enc \<leftarrow> cry_aes_e env b aes_key aes_iv;
          mbuf_cat e enc
        }
      | RFC \<Rightarrow> do {
          let key = mbuf_zero;
          e \<leftarrow> mbuf_part key 0 8;
          mbuf_cat e b
        }
      | CTER \<Rightarrow> Some mbuf_zero)"

definition enl_decrypt :: "menv \<Rightarrow> mtx \<Rightarrow> mbuf \<Rightarrow> msg_t \<Rightarrow> mbuf option" where
  "enl_decrypt env s m t =
     (case t of
        API \<Rightarrow> do {
          let key = mx_key s;
          key_hash \<leftarrow> hsh_sha1 env key;
          auth_key_id \<leftarrow> mbuf_part key_hash 12 8;
          auth_key_id' \<leftarrow> mbuf_part m 0 8;
          _ \<leftarrow> mbuf_cmp auth_key_id auth_key_id';
          m \<leftarrow> mbuf_skip 8 m;
          msg_key \<leftarrow> mbuf_part m 0 16;
          m \<leftarrow> mbuf_skip 16 m;
          (aes_key, aes_iv) \<leftarrow> enl_get_params env key msg_key MODE_S2C;
          d \<leftarrow> cry_aes_d env m aes_key aes_iv;
          l \<leftarrow> mbuf_part d 28 4;
          l \<leftarrow> mbuf_get_ui32 l;
          let pad = (16 - (l mod 16)) mod 16;
          d \<leftarrow> (if pad \<noteq> 0 then mbuf_add (m_data d) 0 (m_size d - pad) else Some d);
          data_hash \<leftarrow> hsh_sha1 env d;
          msg_key' \<leftarrow> mbuf_part data_hash 4 16;
          _ \<leftarrow> mbuf_cmp msg_key' msg_key;
          Some d
        }
      | RFC \<Rightarrow> do {
          let key = mbuf_zero\<lparr>m_size := 8\<rparr>;
          d_key \<leftarrow> mbuf_part m 0 8;
          _ \<leftarrow> mbuf_cmp key d_key;
          mbuf_skip 8 m
        }
      | CTER \<Rightarrow> None)"

section \<open>Transport, network, stack\<close>

definition trl_transport :: "mbuf \<Rightarrow> mbuf option" where
  "trl_transport buf = do { b \<leftarrow> mbuf_add_ui32 (m_size buf); mbuf_cat b buf }"

definition trl_detransport :: "mbuf \<Rightarrow> mbuf option" where
  "trl_detransport a = do {
     a_len \<leftarrow> mbuf_part a 0 4;
     a_len' \<leftarrow> mbuf_add_ui32 (m_size a);
     _ \<leftarrow> mbuf_cmp a_len a_len';
     mbuf_skip 4 a
   }"

definition net_open :: "menv \<Rightarrow> mtx \<Rightarrow> mtx" where
  "net_open env s = s\<lparr>mx_sockfd := me_socket env,
     mx_out := mx_out s @ (if 0 \<le> me_socket env \<and> me_host env \<and> me_connect env then [[0xee, 0xee, 0xee, 0xee]] else [])\<rparr>"

definition net_send :: "mtx \<Rightarrow> mbuf \<Rightarrow> mtx option" where
  "net_send s b = do {
     bs \<leftarrow> mem_read (m_data b) 0 (unat (m_size b));
     Some (s\<lparr>mx_out := mx_out s @ [bs]\<rparr>)
   }"

text \<open>One call of \<^verbatim>\<open>recv\<close>, whatever it brings; a failure makes the size \<^verbatim>\<open>0xffffffff\<close>.\<close>

definition net_receive :: "mtx \<Rightarrow> (mbuf \<times> mtx) option" where
  "net_receive s =
     (case mx_in s of
        [] \<Rightarrow> None
      | Failed # rest \<Rightarrow> Some (mbuf_zero\<lparr>m_size := - 1\<rparr>, s\<lparr>mx_in := rest\<rparr>)
      | Got bs # rest \<Rightarrow> do {
          d \<leftarrow> copy_loop (min (length bs) max_buf_size) (m_data mbuf_zero) 0 bs 0;
          Some (\<lparr>m_data = d, m_size = of_nat (min (length bs) max_buf_size)\<rparr>,
                s\<lparr>mx_in := (if length bs \<le> max_buf_size then rest else Got (drop max_buf_size bs) # rest)\<rparr>)
        })"

definition net_drive :: "mtx \<Rightarrow> mbuf \<Rightarrow> stk_mode_t \<Rightarrow> (mbuf \<times> mtx) option" where
  "net_drive s buf m = do {
     s \<leftarrow> net_send s buf;
     (case m of SEND_RECEIVE \<Rightarrow> net_receive s | SEND \<Rightarrow> Some (mbuf_zero, s))
   }"

definition zero_abstract :: abstract_t where
  "zero_abstract = \<lparr>a_params = replicate 24 zero_param, a_size = 0, a_type = API, a_stk_mode = SEND\<rparr>"

definition stk_drive :: "menv \<Rightarrow> mtx \<Rightarrow> abstract_t \<Rightarrow> (abstract_t \<times> mtx) option" where
  "stk_drive env s a = do {
     b \<leftarrow> sel_serialize a;
     (s1, s) \<leftarrow> hdl_header env s b (a_type a);
     e \<leftarrow> enl_encrypt env s s1 (a_type a);
     t \<leftarrow> trl_transport e;
     (nr, s) \<leftarrow> net_drive s t (a_stk_mode a);
     (case a_stk_mode a of
        SEND_RECEIVE \<Rightarrow> do {
          tr \<leftarrow> trl_detransport nr;
          d \<leftarrow> enl_decrypt env s tr (a_type a);
          (s1r, s) \<leftarrow> hdl_deheader s d (a_type a);
          ar \<leftarrow> sel_deserialize s1r;
          Some (ar, s)
        }
      | SEND \<Rightarrow> Some (zero_abstract, s))
   }"

end
