(* ===== verification/Mtx_Layer_Props.thy ===== *)
theory Mtx_Layer_Props
  imports Mtx_Layers Transport Big_Num
begin

text \<open>
  What the layers of the key exchange do to byte strings: every lemma rewrites a layer applied
  to buffers \<open>mk xs\<close> to the buffer it returns.  On top of them: strings survive being
  written and read, the clear layers are framings (\<open>Framing\<close>), the keys of MTProto 1.0, and
  what one exchange of the stack sends and returns.
\<close>

section \<open>What the surroundings promise\<close>

text \<open>
  OpenSSL's big numbers: \<^verbatim>\<open>BN_bin2bn\<close> reads big-endian bytes, \<^verbatim>\<open>BN_bn2bin\<close> writes them without
  leading zeros, \<^verbatim>\<open>BN_mod_exp\<close> is the power modulo a positive number.
\<close>

definition bn_ok :: "menv \<Rightarrow> bool" where
  "bn_ok env \<longleftrightarrow>
     (\<forall>bs. me_bin2bn env bs = be_nat bs) \<and>
     (\<forall>n. be_nat (me_bn2bin env n) = n \<and> (me_bn2bin env n \<noteq> [] \<longrightarrow> hd (me_bn2bin env n) \<noteq> 0)) \<and>
     (\<forall>a e m. 0 < m \<longrightarrow> me_mod_exp env a e m = a ^ e mod m)"

text \<open>AES-IGE keeps the length of full blocks and decryption inverts encryption.\<close>

definition ige_ok :: "menv \<Rightarrow> bool" where
  "ige_ok env \<longleftrightarrow> (\<forall>k v xs. length xs mod 16 = 0 \<longrightarrow>
     length (me_ige_e env k v xs) = length xs \<and> length (me_ige_d env k v xs) = length xs \<and>
     me_ige_d env k v (me_ige_e env k v xs) = xs)"

text \<open>The block of the SHA-1 struct on the stack is an array of 64 bytes.\<close>

definition sha_ok :: "menv \<Rightarrow> bool" where
  "sha_ok env \<longleftrightarrow> length (s1_buffer (me_sha env)) = 64"

text \<open>The shortest bytes of a number: as many as it needs, and none to spare.\<close>

lemma bn2bin_hd: "bn_ok env \<Longrightarrow> me_bn2bin env n = [] \<or> hd (me_bn2bin env n) \<noteq> 0"
  by (auto simp: bn_ok_def)

lemma bn2bin_val: "bn_ok env \<Longrightarrow> be_nat (me_bn2bin env n) = n"
  by (simp add: bn_ok_def)

lemma bn2bin_length: "bn_ok env \<Longrightarrow> n < 256 ^ k \<Longrightarrow> length (me_bn2bin env n) \<le> k"
  by (metis be_nat_length bn2bin_hd bn2bin_val)

lemma mod_exp_eq: "bn_ok env \<Longrightarrow> 0 < m \<Longrightarrow> me_mod_exp env a e m = a ^ e mod m"
  by (simp add: bn_ok_def)

section \<open>Digests, ciphers, powers\<close>

lemma max_buf [simp]: "max_buf_size = 800"
  by (simp add: max_buf_size_def)

lemma copy_fresh: "length xs \<le> 800 \<Longrightarrow>
   copy_loop (length xs) (m_data mbuf_zero) 0 xs 0 = Some (xs @ replicate (800 - length xs) 0)"
  by (subst copy_loop_eq) (simp_all add: mbuf_zero_def)

lemma read_mk: "length xs \<le> 800 \<Longrightarrow> n \<le> length xs \<Longrightarrow> mem_read (m_data (mk xs)) 0 n = Some (take n xs)"
  by (simp add: mem_read_def)

lemma hsh_sha1_eq [simp]:
  assumes "sha_ok env" and "length xs \<le> 800"
  shows "hsh_sha1 env (mk xs) = Some (mk (f1_sha1 xs))"
proof -
  have "sha1 (me_sha env) xs = Some (f1_sha1 xs)"
    using assms by (intro sha1_eq_f1) (simp_all add: sha_ok_def)
  moreover have "mem_read (m_data (mk xs)) 0 (length xs) = Some xs" using read_mk assms(2) by simp
  moreover have "copy_loop 20 (m_data mbuf_zero) 0 (f1_sha1 xs) 0 = Some (m_data (mk (f1_sha1 xs)))"
    using copy_fresh [of "f1_sha1 xs"] by simp
  ultimately show ?thesis using assms(2) by (simp add: hsh_sha1_def mk_def)
qed

lemma cry_ige_eq:
  assumes "length k = 32" and "length v = 32" and "length xs mod 16 = 0" and "length xs \<le> 800"
    and "length (ige k v xs) = length xs"
  shows "cry_ige ige (mk xs) (mk k) (mk v) = Some (mk (ige k v xs))"
proof -
  have "mem_read (m_data (mk k)) 0 32 = Some k" "mem_read (m_data (mk v)) 0 32 = Some v"
    "mem_read (m_data (mk xs)) 0 (length xs) = Some xs"
    using assms by (simp_all add: mem_read_def)
  moreover have "copy_loop (length xs) (m_data mbuf_zero) 0 (ige k v xs) 0 = Some (m_data (mk (ige k v xs)))"
    using copy_fresh [of "ige k v xs"] assms by simp
  ultimately show ?thesis using assms by (simp add: cry_ige_def mk_def)
qed

lemma cry_aes_e_eq [simp]:
  assumes "ige_ok env" "length k = 32" "length v = 32" "length xs mod 16 = 0" "length xs \<le> 800"
  shows "cry_aes_e env (mk xs) (mk k) (mk v) = Some (mk (me_ige_e env k v xs))"
  unfolding cry_aes_e_def using assms by (intro cry_ige_eq) (simp_all add: ige_ok_def)

lemma cry_aes_d_eq [simp]:
  assumes "ige_ok env" "length k = 32" "length v = 32" "length xs mod 16 = 0" "length xs \<le> 800"
  shows "cry_aes_d env (mk xs) (mk k) (mk v) = Some (mk (me_ige_d env k v xs))"
  unfolding cry_aes_d_def using assms by (intro cry_ige_eq) (simp_all add: ige_ok_def)

lemma power_to_front:
  assumes "length p \<le> l" and "l \<le> 800"
  shows "mem_set (m_data mbuf_zero) 0 0 l \<bind> (\<lambda>y. copy_loop (length p) y 0 p 0) = Some (m_data (mk p))"
proof -
  have "replicate l (0 :: byte) @ replicate (800 - l) 0 = replicate 800 0"
    using assms(2) by (simp add: replicate_add [symmetric])
  then have "mem_set (m_data mbuf_zero) 0 0 l = Some (m_data mbuf_zero)"
    using assms(2) by (simp add: mem_set_def mbuf_zero_def)
  then show ?thesis using copy_fresh [of p] assms by simp
qed

text \<open>
  A power of a number has no more bytes than the modulus; RSA, too, puts it to the front.
\<close>

definition dh_power :: "byte list \<Rightarrow> byte list \<Rightarrow> byte list \<Rightarrow> nat" where
  "dh_power g e m = be_nat g ^ be_nat e mod be_nat m"

lemma cmn_pow_mod_eq [simp]:
  assumes "bn_ok env" and "length g \<le> 800" "length e \<le> 800" "length m \<le> 800" and "0 < be_nat m"
  shows "cmn_pow_mod env (mk g) (mk e) (mk m) = Some (mk (me_bn2bin env (dh_power g e m)))"
proof -
  let ?p = "me_bn2bin env (dh_power g e m)"
  have "dh_power g e m < 256 ^ length m"
    using be_nat_bound [of m] assms(5) by (metis dh_power_def less_trans mod_less_divisor)
  then have l: "length ?p \<le> length m" by (rule bn2bin_length [OF assms(1)])
  have p: "me_bn2bin env (me_mod_exp env (me_bin2bn env g) (me_bin2bn env e) (me_bin2bn env m)) = ?p"
    using assms(1,5) by (simp add: bn_ok_def dh_power_def)
  have "mem_read (m_data (mk g)) 0 (length g) = Some g" "mem_read (m_data (mk e)) 0 (length e) = Some e"
    "mem_read (m_data (mk m)) 0 (length m) = Some m"
    using read_mk assms by simp_all
  moreover have "pow_mod env (m_data mbuf_zero) g e m = Some (m_data (mk ?p), length ?p)"
    using power_to_front [OF l assms(4)] p by (auto simp: pow_mod_def Let_def bind_eq_Some_conv)
  ultimately show ?thesis using assms by (simp add: cmn_pow_mod_def mk_def)
qed

section \<open>Strings and parameters\<close>

lemma small_word_le: "n \<le> 800 \<Longrightarrow> ((of_nat n :: u32) \<le> 253) = (n \<le> 253)"
  by (simp add: word_le_nat_alt unat_of_nat)

lemma pad_eq: "n \<le> 800 \<Longrightarrow> (4 - (of_nat n :: u32) mod 4) mod 4 = of_nat (pad_len n)"
  using unat_pad4 [of "of_nat n"] by (simp add: pad4_def word_unat_eq_iff unat_of_nat pad_len_def)

lemma mk_first [simp]: "m_data (mk (x # xs)) ! 0 = x"
  by simp

lemma small_zero: "n \<le> 800 \<Longrightarrow> ((of_nat n :: u32) = 0) = (n = 0)"
  by (simp add: word_unat_eq_iff unat_of_nat)

lemma mk_pad: "n \<le> 800 \<Longrightarrow> mbuf_zero\<lparr>m_size := of_nat n\<rparr> = mk (replicate n 0)"
  using mk_zeros by simp

lemma length_tl: "length (tl_string xs) = length xs + (if length xs \<le> 253 then 1 + pad_len (length xs + 1) else 4 + pad_len (length xs))"
  by (simp add: tl_string_def)

lemma serialize_string_eq [simp]:
  assumes "length xs \<le> 792"
  shows "sel_serialize_string (mk xs) = Some (mk (tl_string xs))"
proof (cases "length xs \<le> 253")
  case True
  have "mbuf_add (le_bytes 4 (of_nat (length xs) :: u32)) 0 1 = Some (mk [of_nat (length xs)])"
    using mbuf_add_eq [of 1 0 "le_bytes 4 (of_nat (length xs) :: u32)"] assms le_bytes_1 [of "length xs", where 'a = 32]
    by (simp add: take_le_bytes)
  moreover have "mbuf_cat (mk (of_nat (length xs) # xs)) (mbuf_zero\<lparr>m_size := of_nat (pad_len (Suc (length xs)))\<rparr>) =
      Some (mk (tl_string xs))"
    using True pad_len_less [of "Suc (length xs)"] by (simp add: mk_pad tl_string_def)
  ultimately show ?thesis
    using True assms pad_eq [of "Suc (length xs)"]
    by (simp add: sel_serialize_string_def Let_def small_word_le)
next
  case False
  have "mbuf_add (le_bytes 4 (of_nat (length xs) :: u32)) 0 3 = Some (mk (len3 (length xs)))"
    using mbuf_add_eq [of 3 0 "le_bytes 4 (of_nat (length xs) :: u32)"] assms le_bytes_3 [of "length xs", where 'a = 32]
    by (simp add: take_le_bytes)
  moreover have "mbuf_add [0xfe] 0 1 = Some (mk [0xfe])" using mbuf_add_eq [of 1 0 "[0xfe]"] by simp
  moreover have "pad_len (4 + length xs) = pad_len (length xs)" by (simp add: pad_len_def)
  moreover have "pad_len (length xs) \<le> 800" using pad_len_less [of "length xs"] by simp
  moreover have "pad_len (length xs) < 4" by (rule pad_len_less)
  ultimately show ?thesis
    using False assms pad_eq [of "4 + length xs"]
    by (auto simp: sel_serialize_string_def Let_def small_word_le small_zero mk_pad tl_string_def)
qed

lemma deserialize_string_eq:
  assumes "length (tl_string xs @ ys) \<le> 800"
  shows "sel_deserialize_string (mk (tl_string xs @ ys)) = Some (mk xs)"
proof (cases "length xs \<le> 253")
  case True
  let ?b = "of_nat (length xs) :: byte" and ?z = "replicate (pad_len (length xs + 1)) (0 :: byte)"
  have t: "tl_string xs @ ys = ?b # xs @ ?z @ ys" using True by (simp add: tl_string_def)
  have l4: "4 \<le> length (?b # xs @ ?z @ ys)" using length_tl_string_ge [of xs] t by (metis length_append trans_le_add1)
  have "unat ?b = length xs" using True by (simp add: unat_of_nat)
  moreover have "?b \<le> 253" using True by (simp add: word_le_nat_alt unat_of_nat)
  moreover have "take 4 (?b # xs @ ?z @ ys) = ?b # take 3 (xs @ ?z @ ys)" by (simp add: numeral_eq_Suc)
  ultimately show ?thesis
    using assms l4 unfolding t by (simp add: sel_deserialize_string_def Let_def)
next
  case False
  let ?r = "len3 (length xs) @ xs @ replicate (pad_len (length xs)) (0 :: byte) @ ys"
  have t: "tl_string xs @ ys = 0xfe # ?r" using False by (simp add: tl_string_def)
  have l: "length ?r = 3 + length xs + pad_len (length xs) + length ys" by simp
  have lx: "length xs < 2 ^ 24" using assms t by simp
  have g: "mbuf_get_ui32 ((mk (len3 (length xs)))\<lparr>m_size := 4\<rparr>) = Some (of_nat (length xs))"
    using le_val_len3 [OF lx] by (simp add: mbuf_get_ui32_def load32_def mem_read_def take_Cons numeral_eq_Suc)
  have a: "mbuf_add [0xfe] 0 1 = Some (mk [0xfe])" using mbuf_add_eq [of 1 0 "[0xfe]"] by simp
  have h: "take 4 (0xfe # ?r) = 0xfe # take 3 ?r" "take (Suc 0) (0xfe # ?r) = [0xfe]"
    "drop 4 (0xfe # ?r) = xs @ replicate (pad_len (length xs)) 0 @ ys" "take 3 ?r = len3 (length xs)"
    by (simp_all add: numeral_eq_Suc)
  have c: "mbuf_add (m_data (mk (xs @ replicate (pad_len (length xs)) 0 @ ys))) 0 (of_nat (length xs)) = Some (mk xs)"
    using assms t by (subst mbuf_add_eq) simp_all
  show ?thesis
    using assms l g a h c unfolding t by (simp add: sel_deserialize_string_def Let_def del: mk_simps nth_Cons_0)
qed

declare mk_simps(2) [simp del]

definition prm :: "tl_type_t \<Rightarrow> byte list \<Rightarrow> param_t" where
  "prm T xs = \<lparr>p_id = 0, p_value = mk xs, p_type = T\<rparr>"

lemma prm_simps [simp]: "p_value (prm T xs) = mk xs" "p_type (prm T xs) = T"
  by (simp_all add: prm_def)

lemma of_type_prm [simp]: "of_type T = prm T []" "(prm T xs)\<lparr>p_value := mk ys\<rparr> = prm T ys" "(prm T xs)\<lparr>p_type := U\<rparr> = prm U xs"
  by (simp_all add: of_type_def prm_def mbuf_zero_mk)

lemma mbuf_add_mk [simp]: "length xs \<le> 800 \<Longrightarrow> mbuf_add (m_data (mk xs)) 0 (of_nat (length xs)) = Some (mk xs)"
  by (subst mbuf_add_eq) (simp_all add: mk_simps)

lemma mbuf_part_front [simp]: "length xs = n \<Longrightarrow> length xs + length ys \<le> 800 \<Longrightarrow> mbuf_part (mk (xs @ ys)) 0 n = Some (mk xs)"
  by simp

lemma mbuf_part_whole: "length xs = n \<Longrightarrow> n \<le> 800 \<Longrightarrow> mbuf_part (mk xs) 0 n = Some (mk xs)"
  by simp

lemma serialize_param_eq [simp]:
  "length xs = 4 \<Longrightarrow> sel_serialize_param (prm TYPE_INT xs) = Some (mk xs)"
  "length xs = 4 \<Longrightarrow> sel_serialize_param (prm TYPE_ID xs) = Some (mk xs)"
  "length xs = 16 \<Longrightarrow> sel_serialize_param (prm TYPE_INT128 xs) = Some (mk xs)"
  "length xs = 32 \<Longrightarrow> sel_serialize_param (prm TYPE_INT256 xs) = Some (mk xs)"
  "length xs = 8 \<Longrightarrow> sel_serialize_param (prm TYPE_LONG xs) = Some (mk xs)"
  "length xs \<le> 800 \<Longrightarrow> sel_serialize_param (prm TYPE_VECTOR_LONG xs) = Some (mk xs)"
  "length xs \<le> 792 \<Longrightarrow> sel_serialize_param (prm TYPE_STRING xs) = Some (mk (tl_string xs))"
  by (simp_all add: sel_serialize_param_def)

text \<open>A short value of a long type is filled up with the zeros behind it.\<close>

lemma serialize_param_short:
  "sel_serialize_param (prm TYPE_LONG (le_bytes 4 (0 :: u32))) = Some (mk (replicate 8 0))"
  by (simp add: sel_serialize_param_def mbuf_part_over numeral_eq_Suc del: mbuf_part_eq)

lemma serialize_loop_eq:
  assumes "list_all2 (\<lambda>p w. sel_serialize_param p = Some (mk w)) ps ws" and "length acc + length (concat ws) \<le> 800"
  shows "serialize_loop ps (length ps) (mk acc) = Some (mk (acc @ concat ws))"
  using assms by (induction ps ws arbitrary: acc rule: list_all2_induct) simp_all

lemma serialize_eq:
  assumes "list_all2 (\<lambda>p w. sel_serialize_param p = Some (mk w)) (a_params a) ws"
    and "length (concat ws) \<le> 800" and "unat (a_size a) = length (a_params a)"
  shows "sel_serialize a = Some (mk (concat ws))"
  using serialize_loop_eq [OF assms(1), of "[]"] assms(2,3) by (simp add: sel_serialize_def mbuf_zero_mk)

lemma deserialize_param_eq:
  "length xs = 4 \<Longrightarrow> length xs + length ys \<le> 800 \<Longrightarrow>
     sel_deserialize_param \<lparr>p_id = i, p_value = mk (xs @ ys), p_type = TYPE_INT\<rparr> = Some (prm TYPE_INT xs)"
  "length xs = 16 \<Longrightarrow> length xs + length ys \<le> 800 \<Longrightarrow>
     sel_deserialize_param \<lparr>p_id = i, p_value = mk (xs @ ys), p_type = TYPE_INT128\<rparr> = Some (prm TYPE_INT128 xs)"
  "length xs = 8 \<Longrightarrow> length xs + length ys \<le> 800 \<Longrightarrow>
     sel_deserialize_param \<lparr>p_id = i, p_value = mk (xs @ ys), p_type = TYPE_LONG\<rparr> = Some (prm TYPE_LONG xs)"
  "length (tl_string xs @ ys) \<le> 800 \<Longrightarrow>
     sel_deserialize_param \<lparr>p_id = i, p_value = mk (tl_string xs @ ys), p_type = TYPE_STRING\<rparr> = Some (prm TYPE_STRING xs)"
  using deserialize_string_eq [of xs ys]
  by (simp_all add: sel_deserialize_param_def deserialize_scalar_def prm_def)

text \<open>A vector of numbers yields its first element; the element count is not the caller's.\<close>

lemma vector_loop_resPQ:
  assumes "length xs = 8" and "length xs + length ys \<le> 800" and "i + n \<le> 12"
  shows "vector_loop mtx_id_resPQ (mk (xs @ ys)) i n d = Some (if n = 0 then d else Some (mk xs))"
  using assms(3)
proof (induction n arbitrary: i d)
  case (Suc n)
  have "deserialize_scalar \<lparr>p_id = 0, p_value = mk (xs @ ys), p_type = TYPE_LONG\<rparr> = Some (mk xs)"
    using assms(1,2) by (simp add: deserialize_scalar_def)
  with Suc show ?case by (simp add: max_param_size_def)
qed simp

lemma deserialize_vector_eq:
  assumes "length xs = 8" and "length xs + length ys \<le> 792" and "0 < n" "n \<le> 12" and "length vid = 4"
  shows "sel_deserialize_param \<lparr>p_id = mtx_id_resPQ, p_value = mk (vid @ le_bytes 4 (of_nat n :: u32) @ xs @ ys),
           p_type = TYPE_VECTOR_LONG\<rparr> = Some (prm TYPE_VECTOR_LONG xs)"
proof -
  have "(of_nat n :: u32) \<noteq> 0" "unat (of_nat n :: u32) = n" using assms(3,4) by (simp_all add: small_zero unat_of_nat)
  then show ?thesis
    using assms vector_loop_resPQ [OF assms(1), of ys 0 n None]
    by (simp add: sel_deserialize_param_def sel_deserialize_vector_def mbuf_get_ui32_eq Let_def prm_def)
qed

lemma deserialize_eq:
  assumes "length xs \<le> 796"
  shows "sel_deserialize (mk (le_bytes 4 i @ xs)) =
     Some \<lparr>a_params = [prm TYPE_ID (le_bytes 4 (i :: u32)), prm TYPE_QX xs], a_size = 0, a_type = API, a_stk_mode = SEND\<rparr>"
  using assms by (simp add: sel_deserialize_def mbuf_get_ui32_eq prm_def)

section \<open>The clear layers\<close>

lemma header_RFC_eq:
  assumes "length xs \<le> 788"
  shows "hdl_header env s (mk xs) RFC =
     Some (mk (le_bytes 8 (me_clock env (mx_ticks s) AND (- 4)) @ le_bytes 4 (of_nat (length xs) :: u32) @ xs),
           s\<lparr>mx_ticks := Suc (mx_ticks s)\<rparr>)"
  using assms by (simp add: hdl_header_def get_current_time_def Let_def mbuf_zero_mk)

lemma drop_len_eq:
  assumes "length ls = 4" and "length xs \<le> 796"
  shows "drop_len (mk (ls @ xs)) = Some (mk xs)"
proof -
  have "of_nat (4 + length xs) - 4 = (of_nat (length xs) :: u32)" by simp
  moreover have "mbuf_add (m_data (mk (ls @ xs))) 4 (of_nat (length xs)) = Some (mk xs)"
    using assms by (subst mbuf_add_eq) (simp_all add: mk_simps)
  ultimately show ?thesis using assms by (simp add: drop_len_def mbuf_get_ui32_eq Let_def mk_simps)
qed

lemma skip_front [simp]:
  "length hs = n \<Longrightarrow> n + length xs \<le> 800 \<Longrightarrow> mbuf_skip n (mk (hs @ xs)) = Some (mk xs)"
  by simp

text \<open>Receiving takes off the headers, whatever is in them.\<close>

lemma deheader_RFC_eq:
  assumes "length ms = 8" "length ls = 4" "length xs \<le> 788"
  shows "hdl_deheader s (mk (ms @ ls @ xs)) RFC = Some (mk xs, s)"
  using assms by (simp add: hdl_deheader_def drop_len_eq)

lemma decrypt_RFC_eq:
  assumes "length ks = 8" "length xs \<le> 792"
  shows "enl_decrypt env s (mk (ks @ xs)) RFC = Some (mk xs)"
proof -
  have "mbuf_zero\<lparr>m_size := 8\<rparr> = mk (replicate 8 0)" using mk_zeros [of 8] by simp
  then show ?thesis using assms by (simp add: enl_decrypt_def Let_def)
qed

lemma encrypt_RFC_eq:
  assumes "length xs \<le> 792"
  shows "enl_encrypt env s (mk xs) RFC = Some (mk (le_bytes 8 (0 :: u64) @ xs))"
proof -
  have "mbuf_part mbuf_zero 0 8 = Some (mk (le_bytes 8 (0 :: u64)))"
    using mbuf_part_over [of 0 8 "[]"] by (simp add: mbuf_zero_mk numeral_eq_Suc del: mbuf_part_eq)
  then show ?thesis using assms by (simp add: enl_encrypt_def Let_def)
qed

lemma transport_mk: "length xs \<le> 796 \<Longrightarrow> trl_transport (mk xs) = Some (mk (len_frame xs))"
  by (simp add: trl_transport_def len_frame_def)

lemma detransport_mk: "length ls = 4 \<Longrightarrow> length xs \<le> 796 \<Longrightarrow> trl_detransport (mk (ls @ xs)) = Some (mk xs)"
  by (simp add: trl_detransport_def)

text \<open>Both clear layers keep the contract of a framing layer.\<close>

definition mgood :: "mbuf \<Rightarrow> bool" where
  "mgood b \<longleftrightarrow> (\<exists>xs. length xs \<le> 800 \<and> b = mk xs)"

lemma mgood_mk [simp]: "length xs \<le> 800 \<Longrightarrow> mgood (mk xs)"
  by (auto simp: mgood_def)

lemma mgoodE: "mgood b \<Longrightarrow> (\<And>xs. length xs \<le> 800 \<Longrightarrow> b = mk xs \<Longrightarrow> mbytes b = xs \<Longrightarrow> P) \<Longrightarrow> P"
  by (auto simp: mgood_def)

interpretation mtx_transport: framing mgood mbytes trl_transport trl_detransport len_frame "\<lambda>xs. length xs \<le> 796"
proof
  fix b assume "mgood b" "length (mbytes b) \<le> 796"
  then show "\<exists>w. trl_transport b = Some w \<and> mgood w \<and> mbytes w = len_frame (mbytes b)"
    by (elim mgoodE) (simp add: transport_mk len_frame_def)
next
  fix w xs assume "mgood w" "length xs \<le> 796" "mbytes w = len_frame xs"
  then show "\<exists>b. trl_detransport w = Some b \<and> mgood b \<and> mbytes b = xs"
    by (elim mgoodE) (simp add: len_frame_def detransport_mk)
qed

interpretation mtx_clear: framing mgood mbytes "\<lambda>b. enl_encrypt env s b RFC" "\<lambda>b. enl_decrypt env s b RFC"
  "\<lambda>xs. le_bytes 8 (0 :: u64) @ xs" "\<lambda>xs. length xs \<le> 788" for env s
proof
  fix b assume "mgood b" "length (mbytes b) \<le> 788"
  then show "\<exists>w. enl_encrypt env s b RFC = Some w \<and> mgood w \<and> mbytes w = le_bytes 8 (0 :: u64) @ mbytes b"
    by (elim mgoodE) (simp add: encrypt_RFC_eq)
next
  fix w xs assume "mgood w" "length xs \<le> 788" "mbytes w = le_bytes 8 (0 :: u64) @ xs"
  then show "\<exists>b. enl_decrypt env s w RFC = Some b \<and> mgood b \<and> mbytes b = xs"
    by (elim mgoodE) (simp add: decrypt_RFC_eq)
qed

interpretation mtx_channel: framing_pair mgood mbytes
  "\<lambda>b. enl_encrypt env s b RFC" "\<lambda>b. enl_decrypt env s b RFC" "\<lambda>xs. le_bytes 8 (0 :: u64) @ xs" "\<lambda>xs. length xs \<le> 788"
  trl_transport trl_detransport len_frame "\<lambda>xs. length xs \<le> 796" "\<lambda>xs. length xs \<le> 788" for env s
  by unfold_locales simp_all

lemma net_drive_eq:
  assumes "length xs \<le> 800" and "mx_in s = Got bs # ins" and "length bs \<le> 800"
  shows "net_drive s (mk xs) SEND_RECEIVE = Some (mk bs, s\<lparr>mx_out := mx_out s @ [xs], mx_in := ins\<rparr>)"
proof -
  have "mem_read (m_data (mk xs)) 0 (length xs) = Some xs" using assms(1) by (simp add: mem_read_def mk_simps)
  moreover have "\<lparr>m_data = bs @ replicate (800 - length bs) 0, m_size = of_nat (length bs)\<rparr> = mk bs" by (simp add: mk_def)
  ultimately show ?thesis
    using assms copy_fresh [OF assms(3)] by (simp add: net_drive_def net_send_def net_receive_def)
qed

text \<open>One exchange in the clear: what goes out, and what the answer is taken for.\<close>

lemma stk_drive_RFC:
  assumes "sel_serialize a = Some (mk body)" and "length body \<le> 776" and "a_type a = RFC" and "a_stk_mode a = SEND_RECEIVE"
    and "mx_in s = Got (hs @ le_bytes 4 i @ xs) # ins" and "length hs = 24" and "length xs \<le> 772"
  shows "stk_drive env s a =
     Some (\<lparr>a_params = [prm TYPE_ID (le_bytes 4 (i :: u32)), prm TYPE_QX xs], a_size = 0, a_type = API, a_stk_mode = SEND\<rparr>,
           s\<lparr>mx_ticks := Suc (mx_ticks s),
             mx_out := mx_out s @ [len_frame (open_wire (me_clock env (mx_ticks s) AND (- 4)) body)],
             mx_in := ins\<rparr>)"
proof -
  let ?s = "s\<lparr>mx_ticks := Suc (mx_ticks s)\<rparr>"
  let ?w = "open_wire (me_clock env (mx_ticks s) AND (- 4)) body"
  obtain ls ks ms ns where h: "hs = ls @ ks @ ms @ ns" "length ls = 4" "length ks = 8" "length ms = 8" "length ns = 4"
  proof
    show "hs = take 4 hs @ take 8 (drop 4 hs) @ take 8 (drop 12 hs) @ drop 20 hs"
      using append_take_drop_id [of 8 "drop 4 hs"] append_take_drop_id [of 8 "drop 12 hs"] by simp
  qed (use assms(6) in simp_all)
  have n: "net_drive ?s (mk (len_frame ?w)) SEND_RECEIVE =
      Some (mk (hs @ le_bytes 4 i @ xs), ?s\<lparr>mx_out := mx_out s @ [len_frame ?w], mx_in := ins\<rparr>)"
    using net_drive_eq [of "len_frame ?w" ?s] assms by (simp add: len_frame_def open_wire_def)
  have o: "enl_encrypt env ?s (mk (le_bytes 8 (me_clock env (mx_ticks s) AND (- 4)) @ le_bytes 4 (of_nat (length body) :: u32) @ body)) RFC
      = Some (mk ?w)"
    using assms(2) by (subst encrypt_RFC_eq) (simp_all add: open_wire_def)
  have t: "trl_transport (mk ?w) = Some (mk (len_frame ?w))"
    using assms(2) by (intro transport_mk) (simp add: open_wire_def)
  show ?thesis
    using assms n o t h(2-5) unfolding h(1)
    by (simp add: stk_drive_def header_RFC_eq detransport_mk decrypt_RFC_eq deheader_RFC_eq deserialize_eq)
qed

section \<open>MTProto 1.0\<close>

text \<open>
  The published derivation of keys from the authorisation key and the message key; \<open>x\<close> is 0 for
  messages of the client and 8 for those of the server.
\<close>

definition v1_sha_a :: "nat \<Rightarrow> byte list \<Rightarrow> byte list \<Rightarrow> byte list" where
  "v1_sha_a x key mkey = f1_sha1 (mkey @ substr key x 32)"

definition v1_sha_b :: "nat \<Rightarrow> byte list \<Rightarrow> byte list \<Rightarrow> byte list" where
  "v1_sha_b x key mkey = f1_sha1 (substr key (32 + x) 16 @ mkey @ substr key (48 + x) 16)"

definition v1_sha_c :: "nat \<Rightarrow> byte list \<Rightarrow> byte list \<Rightarrow> byte list" where
  "v1_sha_c x key mkey = f1_sha1 (substr key (64 + x) 32 @ mkey)"

definition v1_sha_d :: "nat \<Rightarrow> byte list \<Rightarrow> byte list \<Rightarrow> byte list" where
  "v1_sha_d x key mkey = f1_sha1 (mkey @ substr key (96 + x) 32)"

definition v1_aes_key :: "nat \<Rightarrow> byte list \<Rightarrow> byte list \<Rightarrow> byte list" where
  "v1_aes_key x key mkey =
     substr (v1_sha_a x key mkey) 0 8 @ substr (v1_sha_b x key mkey) 8 12 @ substr (v1_sha_c x key mkey) 4 12"

definition v1_aes_iv :: "nat \<Rightarrow> byte list \<Rightarrow> byte list \<Rightarrow> byte list" where
  "v1_aes_iv x key mkey =
     substr (v1_sha_a x key mkey) 8 12 @ substr (v1_sha_b x key mkey) 0 8 @
     substr (v1_sha_c x key mkey) 16 4 @ substr (v1_sha_d x key mkey) 0 8"

definition v1_msg_key :: "byte list \<Rightarrow> byte list" where
  "v1_msg_key plain = substr (f1_sha1 plain) 4 16"

definition fill16 :: "nat \<Rightarrow> nat" where
  "fill16 n = (16 - n mod 16) mod 16"

definition v1_seal :: "menv \<Rightarrow> nat \<Rightarrow> byte list \<Rightarrow> byte list \<Rightarrow> byte list" where
  "v1_seal env x key plain =
     (let mkey = v1_msg_key plain in
      substr (f1_sha1 key) 12 8 @ mkey @
      me_ige_e env (v1_aes_key x key mkey) (v1_aes_iv x key mkey) (plain @ replicate (fill16 (length plain)) 0))"

definition dir_offset :: "get_params_mode_t \<Rightarrow> nat" where
  "dir_offset m = (case m of MODE_C2S \<Rightarrow> 0 | MODE_S2C \<Rightarrow> 8)"

lemma part_substr [simp]: "p + n \<le> length xs \<Longrightarrow> length xs \<le> 800 \<Longrightarrow> mbuf_part (mk xs) p n = Some (mk (substr xs p n))"
  by (simp add: substr_def)

lemma substr_whole [simp]: "length xs = n \<Longrightarrow> substr xs 0 n = xs"
  by (simp add: substr_def)

lemma substr_front [simp]: "length xs = n \<Longrightarrow> substr (xs @ ys) 0 n = xs"
  by (simp add: substr_def)

declare mbuf_part_eq [simp del]

lemma get_params_eq:
  assumes "sha_ok env" and "length key = 256" and "length mkey = 16"
  shows "enl_get_params env (mk key) (mk mkey) m =
     Some (mk (v1_aes_key (dir_offset m) key mkey), mk (v1_aes_iv (dir_offset m) key mkey))"
proof -
  have x: "dir_offset m \<le> 8" by (cases m) (simp_all add: dir_offset_def)
  have "enl_get_params env (mk key) (mk mkey) m = Some
     (mk (substr (v1_sha_a (dir_offset m) key mkey) 0 8 @ substr (v1_sha_b (dir_offset m) key mkey) 8 12 @
          substr (v1_sha_c (dir_offset m) key mkey) 4 12), mk (v1_aes_iv (dir_offset m) key mkey))"
    using assms x
    by (simp add: enl_get_params_def dir_offset_def [symmetric] mbuf_zero_mk Let_def v1_aes_iv_def
          v1_sha_a_def v1_sha_b_def v1_sha_c_def v1_sha_d_def)
  then show ?thesis by (simp add: v1_aes_key_def)
qed

lemma length_v1 [simp]:
  "length (v1_aes_key x key mkey) = 32" "length (v1_aes_iv x key mkey) = 32" "length (v1_msg_key plain) = 16"
  by (simp_all add: v1_aes_key_def v1_aes_iv_def v1_sha_a_def v1_sha_b_def v1_sha_c_def v1_sha_d_def v1_msg_key_def)

lemma fill16_aligns: "(n + fill16 n) mod 16 = 0"
proof -
  have "n mod 16 + fill16 n = 0 \<or> n mod 16 + fill16 n = 16"
  proof (cases "n mod 16 = 0")
    case False
    then have "fill16 n = 16 - n mod 16" by (simp add: fill16_def)
    with mod_less_divisor [of 16 n] show ?thesis by linarith
  qed (simp add: fill16_def)
  then have "(n mod 16 + fill16 n) mod 16 = 0" by auto
  then show ?thesis by (simp only: mod_add_left_eq)
qed

lemma fill16_less: "fill16 n < 16"
  by (simp add: fill16_def)

lemma fill16_word: "(16 - (w :: u32) mod 16) mod 16 = of_nat (fill16 (unat w))"
proof -
  have m: "unat (w mod 16) = unat w mod 16" by (simp add: unat_mod)
  then have "w mod 16 \<le> 16" by (simp add: word_le_nat_alt)
  then have "unat (16 - w mod 16) = 16 - unat w mod 16" by (simp add: unat_sub m)
  then show ?thesis by (simp add: word_unat_eq_iff unat_mod fill16_def unat_of_nat)
qed

lemma encrypt_API_eq:
  assumes "sha_ok env" "ige_ok env" and "mx_key s = mk key" "length key = 256" and "length xs \<le> 760"
  shows "enl_encrypt env s (mk xs) API = Some (mk (v1_seal env 0 key xs))"
proof -
  let ?f = "fill16 (length xs)" and ?k = "v1_msg_key xs"
  let ?p = "xs @ replicate ?f 0"
  have f: "?f < 16" "length ?p mod 16 = 0" using fill16_less fill16_aligns by simp_all
  have z: "mbuf_zero\<lparr>m_size := of_nat ?f\<rparr> = mk (replicate ?f 0)" using f(1) by (intro mk_pad) simp
  have pad: "(if (of_nat ?f :: u32) \<noteq> 0 then mbuf_cat (mk xs) (mbuf_zero\<lparr>m_size := of_nat ?f\<rparr>) else Some (mk xs)) = Some (mk ?p)"
    using f(1) assms(5) small_zero [of ?f] by (simp add: z)
  have l: "length (me_ige_e env (v1_aes_key 0 key ?k) (v1_aes_iv 0 key ?k) ?p) = length xs + ?f"
    using assms(2) f(2) by (simp add: ige_ok_def)
  have p: "enl_get_params env (mk key) (mk ?k) MODE_C2S = Some (mk (v1_aes_key 0 key ?k), mk (v1_aes_iv 0 key ?k))"
    using get_params_eq [OF assms(1,4), of ?k MODE_C2S] by (simp add: dir_offset_def)
  have a: "cry_aes_e env (mk ?p) (mk (v1_aes_key 0 key ?k)) (mk (v1_aes_iv 0 key ?k)) =
      Some (mk (me_ige_e env (v1_aes_key 0 key ?k) (v1_aes_iv 0 key ?k) ?p))"
    using assms(2,5) f by (intro cry_aes_e_eq) simp_all
  have k: "mbuf_part (mk (f1_sha1 xs)) 4 16 = Some (mk ?k)" by (simp add: v1_msg_key_def)
  show ?thesis
    using assms f(1) l pad p a k
    by (simp add: enl_encrypt_def Let_def mbuf_zero_mk fill16_word v1_seal_def)
qed

text \<open>What the client makes of a message sealed by the server.\<close>

lemma decrypt_API_eq:
  assumes "sha_ok env" "ige_ok env" and "mx_key s = mk key" "length key = 256"
    and "32 \<le> length xs" "length xs \<le> 760" and "le_val (substr xs 28 4) = (of_nat (length xs - 32) :: u32)"
  shows "enl_decrypt env s (mk (v1_seal env 8 key xs)) API = Some (mk xs)"
proof -
  let ?f = "fill16 (length xs)" and ?k = "v1_msg_key xs"
  let ?p = "xs @ replicate ?f 0" and ?ak = "v1_aes_key 8 key ?k" and ?iv = "v1_aes_iv 8 key ?k"
  have f: "?f < 16" "length ?p mod 16 = 0" using fill16_less fill16_aligns by simp_all
  have e: "length (me_ige_e env ?ak ?iv ?p) = length xs + ?f" "me_ige_d env ?ak ?iv (me_ige_e env ?ak ?iv ?p) = ?p"
    using assms(2) f(2) by (simp_all add: ige_ok_def)
  have p: "enl_get_params env (mk key) (mk ?k) MODE_S2C = Some (mk ?ak, mk ?iv)"
    using get_params_eq [OF assms(1,4), of ?k MODE_S2C] by (simp add: dir_offset_def)
  have d: "cry_aes_d env (mk (me_ige_e env ?ak ?iv ?p)) (mk ?ak) (mk ?iv) = Some (mk ?p)"
    using assms(2,6) f e by (subst cry_aes_d_eq) simp_all
  have l: "mbuf_part (mk ?p) 28 4 = Some (mk (substr xs 28 4))"
    using assms(5,6) f(1) by (simp add: substr_def)
  have lv: "mbuf_get_ui32 (mk (substr xs 28 4)) = Some (of_nat (length xs - 32))"
    using assms(5,7) by (simp add: mbuf_get_ui32_eq)
  have "fill16 (length xs - 32) = ?f"
  proof -
    obtain k where "length xs = 32 + k" using assms(5) by (auto simp: le_iff_add)
    moreover have "(32 + k) mod 16 = k mod 16" using mod_mult_self3 [of 2 16 k] by simp
    ultimately show ?thesis by (simp add: fill16_def)
  qed
  then have pad: "(16 - of_nat (length xs - 32) mod 16) mod 16 = (of_nat ?f :: u32)"
    using assms(6) by (simp add: fill16_word unat_of_nat)
  have c: "mbuf_add (m_data (mk ?p)) 0 (of_nat (length xs)) = Some (mk xs)"
    using assms(6) f(1) mbuf_add_eq [of "length xs" 0 "m_data (mk ?p)"] by (simp add: mk_simps)
  have z: "(of_nat ?f :: u32) = 0 \<longleftrightarrow> ?f = 0" using f(1) by (intro small_zero) simp
  have k: "mbuf_part (mk (f1_sha1 xs)) 4 16 = Some (mk ?k)" by (simp add: v1_msg_key_def)
  show ?thesis
    using assms(1-6) f(1) e p d l lv pad c k z
    by (simp add: enl_decrypt_def v1_seal_def Let_def)
qed

end
