(* ===== verification/Mtx_Auth.thy ===== *)
theory Mtx_Auth
  imports Mtx_Layer_Props
begin

text \<open>
  The key exchange itself: the conversion between structs and parameter lists
  (\<^verbatim>\<open>libtg/mtx/src/sil.c\<close>), the methods and constructors (\<^verbatim>\<open>tgt.c\<close>), and their order in
  \<^verbatim>\<open>srl.c\<close>, \<^verbatim>\<open>scl.c\<close> and \<^verbatim>\<open>app.c\<close>.  The members of a struct that the code leaves without a
  value are those of its zeroed struct.
\<close>

section \<open>Structs to parameters\<close>

definition id_param :: "u32 \<Rightarrow> param_t option" where
  "id_param i = do { v \<leftarrow> mbuf_add_ui32 i; Some \<lparr>p_id = 0, p_value = v, p_type = TYPE_ID\<rparr> }"

definition abstract_of :: "msg_t \<Rightarrow> u32 \<Rightarrow> param_t list \<Rightarrow> u32 \<Rightarrow> abstract_t option" where
  "abstract_of ty i ps n = do {
     p \<leftarrow> id_param i;
     Some \<lparr>a_params = p # ps, a_size = n, a_type = ty, a_stk_mode = SEND\<rparr>
   }"

definition sil_abstract :: "type_system \<Rightarrow> abstract_t option" where
  "sil_abstract t =
     (if mp_id (ts_req_pq t) \<noteq> 0 then
        let m = ts_req_pq t in abstract_of RFC (mp_id m) [mp_nonce m] 2
      else if pi_id (ts_P_Q_inner_data t) \<noteq> 0 then
        let c = ts_P_Q_inner_data t in
        abstract_of RFC (pi_id c) [pi_pq c, pi_p c, pi_q c, pi_nonce c, pi_server_nonce c, pi_new_nonce c] 7
      else if md_id (ts_req_DH_params t) \<noteq> 0 then
        let m = ts_req_DH_params t in
        abstract_of RFC (md_id m) [md_nonce m, md_server_nonce m, md_p m, md_q m, md_fingerprint m, md_encrypted_data m] 7
      else if ci_id (ts_Client_DH_Inner_Data t) \<noteq> 0 then
        let c = ts_Client_DH_Inner_Data t in
        abstract_of RFC (ci_id c) [ci_nonce c, ci_server_nonce c, ci_retry_id c, ci_g_b c] 5
      else if ms_id (ts_set_client_DH_params t) \<noteq> 0 then
        let m = ts_set_client_DH_params t in
        abstract_of RFC (ms_id m) [ms_nonce m, ms_server_nonce m, ms_encrypted_data m] 4
      else if pg_id (ts_ping t) \<noteq> 0 then
        let m = ts_ping t in abstract_of API (pg_id m) [pg_ping_id m] 2
      else if sc_id (ts_auth_sendCode t) \<noteq> 0 then
        let m = ts_auth_sendCode t in
        abstract_of API (sc_id m) [sc_phone_number m, sc_sms_type m, sc_api_id m, sc_api_hash m, sc_lang_code m] 6
      else if ma_id (ts_msgs_ack t) \<noteq> 0 then
        let m = ts_msgs_ack t in abstract_of API (ma_id m) [ma_msg_ids m] 2
      else None)"

section \<open>Parameters to structs\<close>

definition deser :: "u32 \<Rightarrow> tl_type_t \<Rightarrow> mbuf \<Rightarrow> param_t option" where
  "deser i T v = sel_deserialize_param \<lparr>p_id = i, p_value = v, p_type = T\<rparr>"

text \<open>
  A string is taken to occupy \<^verbatim>\<open>size + 4\<close> bytes, which is right (one byte of length and
  three of padding, or four bytes of length) when the size is a multiple of four.
\<close>

definition skip_string :: "param_t \<Rightarrow> mbuf \<Rightarrow> mbuf option" where
  "skip_string p s = (let l = m_size (p_value p) + 4 in mbuf_add (m_data s) (unat l) (m_size s - l))"

definition concrete_ResPQ :: "u32 \<Rightarrow> mbuf \<Rightarrow> type_system \<Rightarrow> type_system option" where
  "concrete_ResPQ i s t = do {
     nonce \<leftarrow> deser i TYPE_INT128 s;
     s \<leftarrow> mbuf_skip 16 s;
     server_nonce \<leftarrow> deser i TYPE_INT128 s;
     s \<leftarrow> mbuf_skip 16 s;
     pq \<leftarrow> deser i TYPE_STRING s;
     s \<leftarrow> skip_string pq s;
     fps \<leftarrow> deser i TYPE_VECTOR_LONG s;
     Some (t\<lparr>ts_ResPQ := (ts_ResPQ t)\<lparr>rp_type := RFC, rp_id := i, rp_nonce := nonce, rp_server_nonce := server_nonce,
            rp_pq := pq, rp_fingerprints := fps\<rparr>\<rparr>)
   }"

definition concrete_DH_Params_ok :: "u32 \<Rightarrow> mbuf \<Rightarrow> type_system \<Rightarrow> type_system option" where
  "concrete_DH_Params_ok i s t = do {
     nonce \<leftarrow> deser i TYPE_INT128 s;
     s \<leftarrow> mbuf_skip 16 s;
     server_nonce \<leftarrow> deser i TYPE_INT128 s;
     s \<leftarrow> mbuf_skip 16 s;
     answer \<leftarrow> deser i TYPE_STRING s;
     Some (t\<lparr>ts_Server_DH_Params_ok := \<lparr>dk_type = RFC, dk_id = i, dk_nonce = nonce, dk_server_nonce = server_nonce,
            dk_encrypted_answer = answer\<rparr>\<rparr>)
   }"

definition concrete_DH_inner_data :: "u32 \<Rightarrow> mbuf \<Rightarrow> type_system \<Rightarrow> type_system option" where
  "concrete_DH_inner_data i s t = do {
     nonce \<leftarrow> deser i TYPE_INT128 s;
     s \<leftarrow> mbuf_skip 16 s;
     server_nonce \<leftarrow> deser i TYPE_INT128 s;
     s \<leftarrow> mbuf_skip 16 s;
     g \<leftarrow> deser i TYPE_INT s;
     s \<leftarrow> mbuf_skip 4 s;
     dh_prime \<leftarrow> deser i TYPE_STRING s;
     s \<leftarrow> skip_string dh_prime s;
     g_a \<leftarrow> deser i TYPE_STRING s;
     s \<leftarrow> skip_string g_a s;
     server_time \<leftarrow> deser i TYPE_INT s;
     Some (t\<lparr>ts_Server_DH_inner_data := zero_Server_DH_inner_data\<lparr>si_type := RFC, si_id := i, si_nonce := nonce,
            si_server_nonce := server_nonce, si_g := g, si_dh_prime := dh_prime, si_g_a := g_a,
            si_server_time := server_time\<rparr>\<rparr>)
   }"

definition concrete_dh_gen_ok :: "u32 \<Rightarrow> mbuf \<Rightarrow> type_system \<Rightarrow> type_system option" where
  "concrete_dh_gen_ok i s t = do {
     nonce \<leftarrow> deser i TYPE_INT128 s;
     s \<leftarrow> mbuf_skip 16 s;
     server_nonce \<leftarrow> deser i TYPE_INT128 s;
     s \<leftarrow> mbuf_skip 16 s;
     hash \<leftarrow> deser i TYPE_INT128 s;
     Some (t\<lparr>ts_answer_ok := \<lparr>sa_type = RFC, sa_id = i, sa_nonce = nonce, sa_server_nonce = server_nonce,
            sa_new_nonce_hash1 = hash\<rparr>\<rparr>)
   }"

definition concrete_NewSession :: "u32 \<Rightarrow> mbuf \<Rightarrow> type_system \<Rightarrow> type_system option" where
  "concrete_NewSession i s t = do {
     first \<leftarrow> deser i TYPE_LONG s;
     s \<leftarrow> mbuf_skip 8 s;
     unique \<leftarrow> deser i TYPE_LONG s;
     s \<leftarrow> mbuf_skip 8 s;
     salt \<leftarrow> deser i TYPE_LONG s;
     Some (t\<lparr>ts_NewSession := \<lparr>ns_type = API, ns_id = i, ns_first_msg_id = first, ns_unique_id = unique,
            ns_server_salt = salt\<rparr>\<rparr>)
   }"

definition concrete_Pong :: "u32 \<Rightarrow> mbuf \<Rightarrow> type_system \<Rightarrow> type_system option" where
  "concrete_Pong i s t = do {
     msg_id \<leftarrow> deser i TYPE_LONG s;
     s \<leftarrow> mbuf_skip 8 s;
     ping_id \<leftarrow> deser i TYPE_LONG s;
     Some (t\<lparr>ts_Pong := \<lparr>po_type = API, po_id = i, po_msg_id = msg_id, po_ping_id = ping_id\<rparr>\<rparr>)
   }"

text \<open>One pass of the loop over a container; \<open>rec\<close> is \<^verbatim>\<open>sil_concrete\<close> for its messages.\<close>

definition container_step ::
  "(mtx \<Rightarrow> abstract_t \<Rightarrow> mtx option) \<Rightarrow> mtx \<Rightarrow> mbuf \<Rightarrow> (mbuf \<times> mtx) option" where
  "container_step rec s pv = do {
     (b, s) \<leftarrow> hdl_deheader s pv CTER;
     a \<leftarrow> sel_deserialize b;
     s \<leftarrow> rec s a;
     let l = m_size b + 16;
     pv \<leftarrow> mbuf_add (m_data pv) (unat l) (m_size pv - l);
     Some (pv, s)
   }"

text \<open>
  \<^verbatim>\<open>sil_concrete\<close> works on the global struct, which it resets once after each time the flag was
  cleared.  The fuel bounds the nesting of containers.
\<close>

fun sil_concrete :: "nat \<Rightarrow> mtx \<Rightarrow> abstract_t \<Rightarrow> mtx option" where
  "sil_concrete 0 s a = None"
| "sil_concrete (Suc n) s a = do {
     let s = (if mx_flag s = 0 then s\<lparr>mx_ts := zero_ts, mx_flag := mx_flag s + 1\<rparr> else s);
     (case a_params a of
        p0 # p1 # _ \<Rightarrow> do {
          id \<leftarrow> mbuf_get_ui32 (p_value p0);
          let v = p_value p1;
          let t = mx_ts s;
          if id = mtx_id_resPQ then do { t \<leftarrow> concrete_ResPQ id v t; Some (s\<lparr>mx_ts := t\<rparr>) }
          else if id = 0xd0e8075c then do { t \<leftarrow> concrete_DH_Params_ok id v t; Some (s\<lparr>mx_ts := t\<rparr>) }
          else if id = 0xb5890dba then do { t \<leftarrow> concrete_DH_inner_data id v t; Some (s\<lparr>mx_ts := t\<rparr>) }
          else if id = 0x3bcbf734 then do { t \<leftarrow> concrete_dh_gen_ok id v t; Some (s\<lparr>mx_ts := t\<rparr>) }
          else if id = mtx_id_msg_container then do {
            content \<leftarrow> mbuf_add (m_data v) 0 (m_size v);
            pv \<leftarrow> mbuf_add_ui32 mtx_id_Vector;
            pv \<leftarrow> mbuf_cat pv content;
            p \<leftarrow> deser id TYPE_VECTOR_MESSAGE pv;
            (pv, s) \<leftarrow> container_step (sil_concrete n) s (p_value p);
            (pv, s) \<leftarrow> container_step (sil_concrete n) s pv;
            Some s
          }
          else if id = 0x9ec20908 then do { t \<leftarrow> concrete_NewSession id v t; Some (s\<lparr>mx_ts := t\<rparr>) }
          else if id = 0x347773c5 then do { t \<leftarrow> concrete_Pong id v t; Some (s\<lparr>mx_ts := t\<rparr>) }
          else Some s
        }
      | _ \<Rightarrow> None)
   }"

text \<open>What every method does with its message: send, receive, take apart.\<close>

definition drive :: "nat \<Rightarrow> menv \<Rightarrow> mtx \<Rightarrow> type_system \<Rightarrow> mtx option" where
  "drive fuel env s t = do {
     a \<leftarrow> sil_abstract t;
     let a = a\<lparr>a_stk_mode := SEND_RECEIVE\<rparr>;
     (a, s) \<leftarrow> stk_drive env s a;
     sil_concrete fuel s a
   }"

section \<open>Methods and constructors\<close>

definition method_req_pq_init :: "menv \<Rightarrow> mtx \<Rightarrow> (method_req_pq_t \<times> mtx) option" where
  "method_req_pq_init env s = do {
     (r, s) \<leftarrow> draw env s 16;
     Some (req_pq\<lparr>mp_nonce := (mp_nonce req_pq)\<lparr>p_value := r\<rparr>\<rparr>, s)
   }"

definition method_req_pq_drive :: "nat \<Rightarrow> menv \<Rightarrow> mtx \<Rightarrow> method_req_pq_t \<Rightarrow> (method_req_pq_t \<times> mtx) option" where
  "method_req_pq_drive fuel env s m = do {
     s \<leftarrow> drive fuel env s (zero_ts\<lparr>ts_req_pq := m\<rparr>);
     Some (m\<lparr>mp_ResPQ := ts_ResPQ (mx_ts s)\<rparr>, s)
   }"

definition ctor_P_Q_inner_data_init :: "method_req_pq_t \<Rightarrow> method_req_DH_params_t \<Rightarrow> ctor_P_Q_inner_data_t" where
  "ctor_P_Q_inner_data_init m1 m2 =
     ctor_P_Q_inner_data\<lparr>pi_pq := rp_pq (mp_ResPQ m1), pi_p := md_p m2, pi_q := md_q m2, pi_nonce := mp_nonce m1,
       pi_server_nonce := rp_server_nonce (mp_ResPQ m1),
       pi_new_nonce := (pi_new_nonce ctor_P_Q_inner_data)\<lparr>p_value := mbuf_zero\<lparr>m_size := 32\<rparr>, p_type := TYPE_INT256\<rparr>\<rparr>"

definition ctor_P_Q_inner_data_drive :: "ctor_P_Q_inner_data_t \<Rightarrow> mbuf option" where
  "ctor_P_Q_inner_data_drive c = do { a \<leftarrow> sil_abstract (zero_ts\<lparr>ts_P_Q_inner_data := c\<rparr>); sel_serialize a }"

text \<open>The macro \<^verbatim>\<open>SWAP\<close>.\<close>

definition xor_swap :: "u32 \<Rightarrow> u32 \<Rightarrow> u32 \<times> u32" where
  "xor_swap a b = (let a = a XOR b; b = b XOR a; a = a XOR b in (a, b))"

definition method_req_DH_params_init :: "menv \<Rightarrow> method_req_pq_t \<Rightarrow> method_req_DH_params_t option" where
  "method_req_DH_params_init env m1 = do {
     let m = method_req_DH_params\<lparr>md_nonce := mp_nonce m1, md_server_nonce := rp_server_nonce (mp_ResPQ m1)\<rparr>;
     b \<leftarrow> mbuf_swap (p_value (rp_pq (mp_ResPQ m1)));
     pq \<leftarrow> mbuf_get_ui64 b;
     let (p, q) = me_factor env pq;
     let (p, q) = (if \<not> p < q then xor_swap p q else (p, q));
     b \<leftarrow> mbuf_add_ui32 p;
     pb \<leftarrow> mbuf_swap b;
     b \<leftarrow> mbuf_add_ui32 q;
     qb \<leftarrow> mbuf_swap b;
     let m = m\<lparr>md_p := (md_p m)\<lparr>p_value := pb\<rparr>, md_q := (md_q m)\<lparr>p_value := qb\<rparr>,
               md_fingerprint := rp_fingerprints (mp_ResPQ m1)\<rparr>;
     let c = ctor_P_Q_inner_data_init m1 m;
     d \<leftarrow> ctor_P_Q_inner_data_drive c;
     h \<leftarrow> hsh_sha1 env d;
     let dwh = me_dwh env;
     dwh \<leftarrow> mbuf_cat dwh h;
     dwh \<leftarrow> mbuf_cat dwh d;
     let pad = mbuf_zero\<lparr>m_size := 255 - m_size dwh\<rparr>;
     dwh \<leftarrow> mbuf_cat dwh pad;
     e \<leftarrow> cry_rsa_e env dwh;
     Some (m\<lparr>md_encrypted_data := (md_encrypted_data m)\<lparr>p_value := e, p_type := TYPE_STRING\<rparr>, md_P_Q_inner_data := c\<rparr>)
   }"

definition method_req_DH_params_drive ::
  "nat \<Rightarrow> menv \<Rightarrow> mtx \<Rightarrow> method_req_DH_params_t \<Rightarrow> (method_req_DH_params_t \<times> mtx) option" where
  "method_req_DH_params_drive fuel env s m = do {
     s \<leftarrow> drive fuel env s (zero_ts\<lparr>ts_req_DH_params := m\<rparr>);
     Some (m\<lparr>md_Server_DH_Params_ok := ts_Server_DH_Params_ok (mx_ts s)\<rparr>, s)
   }"

definition ctor_Server_DH_inner_data_init ::
  "menv \<Rightarrow> method_req_pq_t \<Rightarrow> method_req_DH_params_t \<Rightarrow> ctor_Server_DH_inner_data_t option" where
  "ctor_Server_DH_inner_data_init env m1 m2 = do {
     let nn = ctor_P_Q_inner_data_init m1 m2;
     let new_nonce = p_value (pi_new_nonce nn);
     let server_nonce = p_value (rp_server_nonce (mp_ResPQ m1));
     ns \<leftarrow> mbuf_cat mbuf_zero new_nonce;
     ns \<leftarrow> mbuf_cat ns server_nonce;
     ns_hash \<leftarrow> hsh_sha1 env ns;
     sn \<leftarrow> mbuf_cat mbuf_zero server_nonce;
     sn \<leftarrow> mbuf_cat sn new_nonce;
     sn_hash \<leftarrow> hsh_sha1 env sn;
     sub012 \<leftarrow> mbuf_part sn_hash 0 12;
     tmp_aes_key \<leftarrow> mbuf_cat mbuf_zero ns_hash;
     tmp_aes_key \<leftarrow> mbuf_cat tmp_aes_key sub012;
     sub128 \<leftarrow> mbuf_part sn_hash 12 8;
     nn2 \<leftarrow> mbuf_cat mbuf_zero new_nonce;
     nn2 \<leftarrow> mbuf_cat nn2 new_nonce;
     nn_hash \<leftarrow> hsh_sha1 env nn2;
     sub04 \<leftarrow> mbuf_part new_nonce 0 4;
     tmp_aes_iv \<leftarrow> mbuf_cat mbuf_zero sub128;
     tmp_aes_iv \<leftarrow> mbuf_cat tmp_aes_iv nn_hash;
     tmp_aes_iv \<leftarrow> mbuf_cat tmp_aes_iv sub04;
     let e = p_value (dk_encrypted_answer (md_Server_DH_Params_ok m2));
     answer \<leftarrow> cry_aes_d env e tmp_aes_key tmp_aes_iv;
     answer \<leftarrow> mbuf_skip 20 answer;
     let answer = answer\<lparr>m_size := m_size answer - 8\<rparr>;
     Some (zero_Server_DH_inner_data\<lparr>si_answer := answer, si_tmp_aes_key := tmp_aes_key, si_tmp_aes_iv := tmp_aes_iv\<rparr>)
   }"

definition ctor_Server_DH_inner_data_drive :: "nat \<Rightarrow> mtx \<Rightarrow> mbuf \<Rightarrow> (ctor_Server_DH_inner_data_t \<times> mtx) option" where
  "ctor_Server_DH_inner_data_drive fuel s b = do {
     a \<leftarrow> sel_deserialize b;
     s \<leftarrow> sil_concrete fuel s a;
     Some (ts_Server_DH_inner_data (mx_ts s), s)
   }"

definition ctor_Client_DH_Inner_Data_init ::
  "menv \<Rightarrow> mtx \<Rightarrow> ctor_Server_DH_inner_data_t \<Rightarrow> (ctor_Client_DH_Inner_Data_t \<times> mtx) option" where
  "ctor_Client_DH_Inner_Data_init env s c1 = do {
     let c = ctor_Client_DH_Inner_Data\<lparr>ci_nonce := si_nonce c1, ci_server_nonce := si_server_nonce c1\<rparr>;
     r \<leftarrow> mbuf_add_ui32 0;
     let c = c\<lparr>ci_retry_id := (ci_retry_id c)\<lparr>p_value := r, p_type := TYPE_LONG\<rparr>\<rparr>;
     g \<leftarrow> mbuf_swap (p_value (si_g c1));
     (b, s) \<leftarrow> draw env s 256;
     let m = p_value (si_dh_prime c1);
     g_b \<leftarrow> cmn_pow_mod env g b m;
     Some (c\<lparr>ci_g_b := (ci_g_b c)\<lparr>p_value := g_b, p_type := TYPE_STRING\<rparr>, ci_b := b\<rparr>, s)
   }"

definition ctor_Client_DH_Inner_Data_drive :: "ctor_Client_DH_Inner_Data_t \<Rightarrow> mbuf option" where
  "ctor_Client_DH_Inner_Data_drive c = do { a \<leftarrow> sil_abstract (zero_ts\<lparr>ts_Client_DH_Inner_Data := c\<rparr>); sel_serialize a }"

definition method_set_client_DH_params_init ::
  "nat \<Rightarrow> menv \<Rightarrow> mtx \<Rightarrow> method_req_pq_t \<Rightarrow> method_req_DH_params_t \<Rightarrow> (method_set_client_DH_params_t \<times> mtx) option" where
  "method_set_client_DH_params_init fuel env s m1 m2 = do {
     c \<leftarrow> ctor_Server_DH_inner_data_init env m1 m2;
     (c1, s) \<leftarrow> ctor_Server_DH_inner_data_drive fuel s (si_answer c);
     (c2, s) \<leftarrow> ctor_Client_DH_Inner_Data_init env s c1;
     data \<leftarrow> ctor_Client_DH_Inner_Data_drive c2;
     hash \<leftarrow> hsh_sha1 env data;
     let pad = m_size hash + m_size data;
     let pad = (16 - (pad mod 16)) mod 16;
     (rand, s) \<leftarrow> draw env s (unat pad);
     d \<leftarrow> mbuf_cat mbuf_zero hash;
     d \<leftarrow> mbuf_cat d data;
     d \<leftarrow> mbuf_cat d rand;
     encrypted_data \<leftarrow> cry_aes_e env d (si_tmp_aes_key c) (si_tmp_aes_iv c);
     let m = method_set_client_DH_params\<lparr>ms_nonce := mp_nonce m1, ms_server_nonce := rp_server_nonce (mp_ResPQ m1)\<rparr>;
     let m = m\<lparr>ms_encrypted_data := (ms_encrypted_data m)\<lparr>p_value := encrypted_data, p_type := TYPE_STRING\<rparr>,
               ms_Server_DH_inner_data := c1, ms_Client_DH_Inner_Data := c2\<rparr>;
     new_nonce_s \<leftarrow> mbuf_part (p_value (pi_new_nonce (md_P_Q_inner_data m2))) 0 8;
     server_nonce_s \<leftarrow> mbuf_part (p_value (ms_server_nonce m)) 0 8;
     salt \<leftarrow> mbuf_xor new_nonce_s server_nonce_s;
     Some (m\<lparr>ms_salt := salt\<rparr>, s)
   }"

definition method_set_client_DH_params_drive ::
  "nat \<Rightarrow> menv \<Rightarrow> mtx \<Rightarrow> method_set_client_DH_params_t \<Rightarrow> (method_set_client_DH_params_t \<times> mtx) option" where
  "method_set_client_DH_params_drive fuel env s m = do {
     s \<leftarrow> drive fuel env s (zero_ts\<lparr>ts_set_client_DH_params := m\<rparr>);
     let m = m\<lparr>ms_answer_ok := ts_answer_ok (mx_ts s)\<rparr>;
     _ \<leftarrow> mbuf_cmp (p_value (sa_nonce (ms_answer_ok m))) (p_value (si_nonce (ms_Server_DH_inner_data m)));
     _ \<leftarrow> mbuf_cmp (p_value (sa_server_nonce (ms_answer_ok m))) (p_value (si_server_nonce (ms_Server_DH_inner_data m)));
     Some (m, s)
   }"

definition method_ping_init :: "method_ping_t option" where
  "method_ping_init = do {
     v \<leftarrow> mbuf_add_ui64 0;
     Some (method_ping\<lparr>pg_ping_id := (pg_ping_id method_ping)\<lparr>p_value := v, p_type := TYPE_LONG\<rparr>\<rparr>)
   }"

definition method_ping_drive :: "nat \<Rightarrow> menv \<Rightarrow> mtx \<Rightarrow> method_ping_t \<Rightarrow> (method_ping_t \<times> mtx) option" where
  "method_ping_drive fuel env s m = do {
     s \<leftarrow> drive fuel env s (zero_ts\<lparr>ts_ping := m\<rparr>);
     let m = m\<lparr>pg_Pong := ts_Pong (mx_ts s)\<rparr>;
     _ \<leftarrow> mbuf_cmp (p_value (pg_ping_id m)) (p_value (po_ping_id (pg_Pong m)));
     Some (m, s\<lparr>mx_flag := 0\<rparr>)
   }"

text \<open>
  A string literal is the array of its characters and a zero; \<^verbatim>\<open>_api_hash\<close> is the empty literal,
  \<^verbatim>\<open>_api_id\<close> is 0.
\<close>

definition literal :: "string \<Rightarrow> byte list" where
  "literal cs = map of_char cs @ [0]"

definition method_auth_sendCode_init :: "method_auth_sendCode_t option" where
  "method_auth_sendCode_init = do {
     let m = method_auth_sendCode;
     phone \<leftarrow> mbuf_add (literal ''+7XXXXXXXXXX'') 0 12;
     sms \<leftarrow> mbuf_add_ui32 0;
     i \<leftarrow> mbuf_add_ui32 0;
     h \<leftarrow> mbuf_add (literal []) 0 32;
     l \<leftarrow> mbuf_add (literal ''ru'') 0 2;
     Some (m\<lparr>sc_phone_number := (sc_phone_number m)\<lparr>p_value := phone\<rparr>, sc_sms_type := (sc_sms_type m)\<lparr>p_value := sms\<rparr>,
             sc_api_id := (sc_api_id m)\<lparr>p_value := i\<rparr>, sc_api_hash := (sc_api_hash m)\<lparr>p_value := h\<rparr>,
             sc_lang_code := (sc_lang_code m)\<lparr>p_value := l\<rparr>\<rparr>)
   }"

text \<open>The mode is not set here: \<open>mode\<close> is what the stack holds.\<close>

definition method_auth_sendCode_drive ::
  "nat \<Rightarrow> menv \<Rightarrow> stk_mode_t \<Rightarrow> mtx \<Rightarrow> method_auth_sendCode_t \<Rightarrow> (method_auth_sendCode_t \<times> mtx) option" where
  "method_auth_sendCode_drive fuel env mode s m = do {
     a \<leftarrow> sil_abstract (zero_ts\<lparr>ts_auth_sendCode := m\<rparr>);
     (a, s) \<leftarrow> stk_drive env s (a\<lparr>a_stk_mode := mode\<rparr>);
     s \<leftarrow> sil_concrete fuel s a;
     Some (m\<lparr>sc_SentCode := ts_auth_SentCode (mx_ts s)\<rparr>, s)
   }"

definition method_msgs_ack_init :: "mbuf \<Rightarrow> method_msgs_ack_t" where
  "method_msgs_ack_init b = method_msgs_ack\<lparr>ma_msg_ids := (ma_msg_ids method_msgs_ack)\<lparr>p_value := b\<rparr>\<rparr>"

definition method_msgs_ack_drive :: "menv \<Rightarrow> mtx \<Rightarrow> method_msgs_ack_t \<Rightarrow> mtx option" where
  "method_msgs_ack_drive env s m = do {
     a \<leftarrow> sil_abstract (zero_ts\<lparr>ts_msgs_ack := m\<rparr>);
     (_, s) \<leftarrow> stk_drive env s (a\<lparr>a_stk_mode := SEND\<rparr>);
     Some s
   }"

section \<open>The exchange\<close>

definition srl_auth :: "nat \<Rightarrow> menv \<Rightarrow> mtx \<Rightarrow> mtx option" where
  "srl_auth fuel env s = do {
     (m, s) \<leftarrow> method_req_pq_init env s;
     (m, s) \<leftarrow> method_req_pq_drive fuel env s m;
     m1 \<leftarrow> method_req_DH_params_init env m;
     (m1, s) \<leftarrow> method_req_DH_params_drive fuel env s m1;
     (m2, s) \<leftarrow> method_set_client_DH_params_init fuel env s m m1;
     (m2, s) \<leftarrow> method_set_client_DH_params_drive fuel env s m2;
     let g_a = p_value (si_g_a (ms_Server_DH_inner_data m2));
     let b = ci_b (ms_Client_DH_Inner_Data m2);
     let dh_prime = p_value (si_dh_prime (ms_Server_DH_inner_data m2));
     key \<leftarrow> cmn_pow_mod env g_a b dh_prime;
     Some (s\<lparr>mx_key := key, mx_salt := ms_salt m2\<rparr>)
   }"

definition srl_ping :: "nat \<Rightarrow> menv \<Rightarrow> mtx \<Rightarrow> mtx option" where
  "srl_ping fuel env s = do {
     m \<leftarrow> method_ping_init;
     (m, s) \<leftarrow> method_ping_drive fuel env s m;
     Some s
   }"

definition scl_open :: "nat \<Rightarrow> menv \<Rightarrow> mtx \<Rightarrow> mtx option" where
  "scl_open fuel env s = srl_auth fuel env (net_open env s)"

definition app_open :: "nat \<Rightarrow> menv \<Rightarrow> mtx \<Rightarrow> mtx option" where
  "app_open fuel env s = scl_open fuel env (reset_shared_rc s)"

text \<open>The pings of a session; \<open>q\<close> is the number the user types.\<close>

fun ping_loop :: "nat \<Rightarrow> nat \<Rightarrow> menv \<Rightarrow> mtx \<Rightarrow> mtx option" where
  "ping_loop 0 fuel env s = Some s"
| "ping_loop (Suc q) fuel env s = do { s \<leftarrow> srl_ping fuel env s; ping_loop q fuel env s }"

definition scl_run :: "nat \<Rightarrow> nat \<Rightarrow> menv \<Rightarrow> mtx \<Rightarrow> mtx option" where
  "scl_run q fuel env s = do {
     (r, s) \<leftarrow> draw env s 8;
     ping_loop q fuel env (s\<lparr>mx_ssid := r\<rparr>)
   }"

definition app_run :: "nat \<Rightarrow> nat \<Rightarrow> menv \<Rightarrow> mtx \<Rightarrow> (byte \<times> mtx) option" where
  "app_run q fuel env s = do { s \<leftarrow> scl_run q fuel env s; Some (0, s) }"

end
