(* ===== verification/Mtx_Theorems.thy ===== *)
theory Mtx_Theorems
  imports Mtx_Auth_Props
begin

text \<open>
  The properties of the key exchange: layers, messages, agreement on the key, and the
  weaknesses of its random numbers and checks.
\<close>

section \<open>Sample surroundings\<close>

definition sample_menv :: menv where
  "sample_menv = \<lparr>me_clock = (\<lambda>i. of_nat (i * 2 ^ 31)), me_rnd = (\<lambda>seed i. if i = 255 then 1 else 0),
     me_ige_e = (\<lambda>k v xs. xs), me_ige_d = (\<lambda>k v xs. xs), me_bin2bn = be_nat, me_bn2bin = nat_be,
     me_mod_exp = (\<lambda>a e m. a ^ e mod m), me_pub = Some (3233, 17), me_factor = (\<lambda>pq. (3, 5)),
     me_dwh = mbuf_zero, me_sha = sample_sha1, me_socket = 4, me_host = True, me_connect = True\<rparr>"

lemma sample_menv_ok [simp]: "mtx_env_ok sample_menv" "bn_ok sample_menv" "ige_ok sample_menv" "sha_ok sample_menv"
  "me_pub sample_menv = Some (3233, 17)"
  by (auto simp: mtx_env_ok_def bn_ok_def ige_ok_def sha_ok_def stack_ok_def holds_def sample_menv_def nat_be_val
        nat_be_hd mbuf_zero_def sample_sha1_def)

definition sample_mtx :: "received list \<Rightarrow> mtx" where
  "sample_mtx ins = \<lparr>mx_key = mk [], mx_salt = mk [], mx_ssid = mk [], mx_seqn = 0, mx_seqnh = 0, mx_sockfd = 0,
     mx_last_msg_id = mk [], mx_ts = zero_ts, mx_flag = 0, mx_ticks = 0, mx_out = [], mx_in = ins\<rparr>"

lemma sample_mtx_simps [simp]: "mx_in (sample_mtx ins) = ins" "mx_ticks (sample_mtx ins) = 0" "mx_out (sample_mtx ins) = []"
  by (simp_all add: sample_mtx_def)

section \<open>Layers\<close>

text \<open>
  A string written by the key exchange and read back from the middle of a message is the
  same; its encoding is the one the client library itself uses.
\<close>

theorem mtx_string_roundtrip:
  assumes "length xs \<le> 780" and "length (tl_string xs @ ys) \<le> 800"
  shows "sel_serialize_string (mk xs) = Some (mk (tl_string xs)) \<and>
         sel_deserialize_string (mk (tl_string xs @ ys)) = Some (mk xs)"
  using assms deserialize_string_eq [of xs ys] by simp

theorem mtx_string_roundtrip_witness:
  "sel_serialize_string (mk [1, 2, 3]) = Some (mk (tl_string [1, 2, 3])) \<and>
   sel_deserialize_string (mk (tl_string [1, 2, 3] @ [9])) = Some (mk [1, 2, 3])"
  by (rule mtx_string_roundtrip) (simp_all add: length_tl pad_len_def)

text \<open>
  C29: Under a key of 256 bytes the encryption layer is MTProto 1.0: what it sends is the published
  sealing for the client's direction (key identifier, message key, AES-IGE under the keys
  derived from both), and a message that the server sealed for the other direction,
  with the length of its data in the header, is opened to exactly its bytes.
\<close>

theorem mtx_encryption_is_mtproto1:
  assumes "sha_ok env" and "ige_ok env" and "mx_key s = mk key" and "length key = 256"
    and "32 \<le> length xs" and "length xs \<le> 760" and "le_val (substr xs 28 4) = (of_nat (length xs - 32) :: u32)"
  shows "enl_encrypt env s (mk xs) API = Some (mk (v1_seal env 0 key xs)) \<and>
         enl_decrypt env s (mk (v1_seal env 8 key xs)) API = Some (mk xs)"
  using assms encrypt_API_eq [of env s key xs] decrypt_API_eq [of env s key xs] by blast

theorem mtx_encryption_is_mtproto1_witness:
  "enl_encrypt sample_menv (sample_mtx []\<lparr>mx_key := mk (replicate 256 7)\<rparr>) (mk (replicate 28 1 @ [4, 0, 0, 0] @ [5, 6, 7, 8])) API =
     Some (mk (v1_seal sample_menv 0 (replicate 256 7) (replicate 28 1 @ [4, 0, 0, 0] @ [5, 6, 7, 8]))) \<and>
   enl_decrypt sample_menv (sample_mtx []\<lparr>mx_key := mk (replicate 256 7)\<rparr>)
     (mk (v1_seal sample_menv 8 (replicate 256 7) (replicate 28 1 @ [4, 0, 0, 0] @ [5, 6, 7, 8]))) API =
     Some (mk (replicate 28 1 @ [4, 0, 0, 0] @ [5, 6, 7, 8]))"
  by (rule mtx_encryption_is_mtproto1) (simp_all add: substr_def)

text \<open>
  The clear layers of the key exchange, encryption without a key over the length transport,
  give back what was put in.
\<close>

theorem mtx_clear_roundtrip:
  assumes "mgood b" and "length (mbytes b) \<le> 788"
  shows "\<exists>w b'. enl_encrypt env s b RFC \<bind> trl_transport = Some w \<and>
           (trl_detransport w \<bind> (\<lambda>m. enl_decrypt env s m RFC)) = Some b' \<and> mgood b' \<and> mbytes b' = mbytes b"
  using mtx_channel.pair.roundtrip [OF assms] by blast

theorem mtx_clear_roundtrip_witness:
  "\<exists>w b'. enl_encrypt sample_menv (sample_mtx []) (mk [1, 2]) RFC \<bind> trl_transport = Some w \<and>
     (trl_detransport w \<bind> (\<lambda>m. enl_decrypt sample_menv (sample_mtx []) m RFC)) = Some b' \<and> mgood b' \<and> mbytes b' = mbytes (mk [1, 2])"
  by (rule mtx_clear_roundtrip) simp_all

section \<open>The exchange\<close>

definition sample_answers :: "byte list \<Rightarrow> received list" where
  "sample_answers g_a = server_packets sample_menv 1 5 9 (replicate 16 1) (replicate 16 1) (replicate 16 2) (replicate 16 1) (replicate 16 2)
     (replicate 16 1) (replicate 16 2) (replicate 16 2) (replicate 8 3) [77] (replicate 20 4) [3, 0, 0, 0] (5 # replicate 255 0)
     g_a (replicate 4 9) (replicate 8 8) (replicate 16 7)"

lemma sample_run:
  "mx_in (sample_mtx (sample_answers g_a)) = server_packets sample_menv 1 5 9 (replicate 16 1) (replicate 16 1) (replicate 16 2)
     (replicate 16 1) (replicate 16 2) (replicate 16 1) (replicate 16 2) (replicate 16 2) (replicate 8 3) [77] (replicate 20 4)
     [3, 0, 0, 0] (5 # replicate 255 0) g_a (replicate 4 9) (replicate 8 8) (replicate 16 7) @ []"
  unfolding sample_mtx_simps sample_answers_def by (rule append_Nil2 [symmetric])

definition sample_g_a :: "byte list" where
  "sample_g_a = replicate 255 0 @ [9]"

lemma sample_g_a_simps: "length sample_g_a = 256"
  "be_nat sample_g_a = be_nat (rev [3, 0, 0, 0]) ^ 2 mod be_nat (5 # replicate 255 0)"
  by (simp_all add: sample_g_a_def be_nat_append)



lemma power_power_mod: "(x ^ a mod m) ^ b mod m = (x ^ b mod m) ^ a mod (m :: nat)"
  by (metis mult.commute power_mod power_mult)

lemma opened_reply:
  assumes "bn_ok env" "ige_ok env" "length n2 = 16" "length s2 = 16" "length p = 256" "0 < be_nat p"
  shows "me_ige_d env (tmp_key no_nonce snonce) (tmp_iv no_nonce snonce)
      (sealed_reply env snonce j (client_inner_msg n2 s2 (g_b_at env i g p))) =
    f1_sha1 (client_inner_msg n2 s2 (g_b_at env i g p)) @ client_inner_msg n2 s2 (g_b_at env i g p) @
    rand_at env j (fill16 (20 + length (client_inner_msg n2 s2 (g_b_at env i g p))))"
proof -
  have "length (client_inner_msg n2 s2 (g_b_at env i g p)) \<le> 310"
    using assms by (intro client_inner_length g_b_length) simp_all
  then have "length (client_text env j (client_inner_msg n2 s2 (g_b_at env i g p))) mod 16 = 0"
    using client_text_length(1) by simp
  then show ?thesis using assms(2) by (simp add: sealed_reply_def ige_ok_def client_text_def)
qed



text \<open>
  The temporary key is no secret.  The nonce the protocol wants random is 32 zeros, so the
  keys under which the numbers travel are those anyone computes from the server's
  nonce, which is sent in the clear; with them the last message opens to the client's data.
\<close>

theorem auth_temporary_key_public:
  assumes "mtx_env_ok env" and "me_pub env = Some (n, e)" "0 < n" "n \<le> 256 ^ 256"
    and "mx_in s = server_packets env i1 i2 i3 n0 n1 s1 n2 s2 n3 s3 snonce pq fps dg g p g_a time pad hash @ ins"
    and "\<forall>x \<in> {n0, n1, s1, n2, s2, n3, s3, snonce, hash}. length x = 16"
    and "length pq = 8" "fps \<noteq> []" "length fps \<le> 12" "length dg = 20" "length pad = 8" "length g = 4"
      "length p = 256" "0 < be_nat p" "length g_a = 256" "length time = 4"
  shows "\<exists>s' c d r. srl_auth (Suc k) env s = Some s' \<and>
     last (mx_out s') = clear_packet (mid_at env (mx_ticks s + 5)) (set_client_msg (rand_at env (mx_ticks s) 16) snonce c) \<and>
     me_ige_d env (tmp_key (replicate 32 0) snonce) (tmp_iv (replicate 32 0) snonce) c = f1_sha1 d @ d @ r \<and>
     d = client_inner_msg n2 s2 (g_b_at env (mx_ticks s + 3) g p)"
proof -
  let ?d = "client_inner_msg n2 s2 (g_b_at env (mx_ticks s + 3) g p)"
  have ok: "bn_ok env" "ige_ok env" using assms(1) by (simp_all add: mtx_env_ok_def)
  obtain s' where s': "srl_auth (Suc k) env s = Some s'"
    "mx_out s' = mx_out s @ client_packets env (mx_ticks s) snonce pq (hd fps) n e g p n2 s2"
    using auth_run [OF assms, of k] by blast
  moreover have "me_ige_d env (tmp_key (replicate 32 0) snonce) (tmp_iv (replicate 32 0) snonce)
      (sealed_reply env snonce (mx_ticks s + 4) ?d) = f1_sha1 ?d @ ?d @ rand_at env (mx_ticks s + 4) (fill16 (20 + length ?d))"
    using opened_reply [OF ok, of n2 s2 p snonce "mx_ticks s + 4" "mx_ticks s + 3" g] assms(6,13,14) by (simp add: no_nonce_def)
  ultimately show ?thesis by (intro exI conjI) (assumption | simp add: client_packets_def Let_def)+
qed

theorem auth_temporary_key_public_witness:
  "\<exists>s' c d r. srl_auth (Suc 0) sample_menv (sample_mtx (sample_answers sample_g_a)) = Some s' \<and>
     last (mx_out s') = clear_packet (mid_at sample_menv (mx_ticks (sample_mtx (sample_answers sample_g_a)) + 5))
       (set_client_msg (rand_at sample_menv (mx_ticks (sample_mtx (sample_answers sample_g_a))) 16) (replicate 16 2) c) \<and>
     me_ige_d sample_menv (tmp_key (replicate 32 0) (replicate 16 2)) (tmp_iv (replicate 32 0) (replicate 16 2)) c = f1_sha1 d @ d @ r \<and>
     d = client_inner_msg (replicate 16 1) (replicate 16 2)
           (g_b_at sample_menv (mx_ticks (sample_mtx (sample_answers sample_g_a)) + 3) [3, 0, 0, 0] (5 # replicate 255 0))"
  by (rule auth_temporary_key_public [OF sample_menv_ok(1,5) _ _ sample_run]) (simp_all add: sample_g_a_simps(1))

text \<open>
  The key is a function of public numbers and the second in which the exponent is drawn: two
  clients, or one client twice, that draw in the same second with the same server
  numbers get the same key, whatever else differs.
\<close>

theorem auth_key_from_clock:
  assumes "mtx_env_ok env" and "me_pub env = Some (n, e)" "0 < n" "n \<le> 256 ^ 256"
    and "mx_in s = server_packets env i1 i2 i3 n0 n1 s1 n2 s2 n3 s3 snonce pq fps dg g p g_a time pad hash @ ins"
    and "\<forall>x \<in> {n0, n1, s1, n2, s2, n3, s3, snonce, hash}. length x = 16"
    and "length pq = 8" "fps \<noteq> []" "length fps \<le> 12" "length dg = 20" "length pad = 8" "length g = 4"
      "length p = 256" "0 < be_nat p" "length g_a = 256" "length time = 4"
  shows "\<exists>s'. srl_auth (Suc k) env s = Some s' \<and>
     mx_key s' = mk (me_bn2bin env (be_nat g_a ^
       be_nat (map (\<lambda>j. of_nat (me_rnd env (ucast (drop_bit 32 (me_clock env (mx_ticks s + 3)))) j mod 256)) [0..<256]) mod be_nat p))"
  using auth_run [OF assms, of k] by (auto simp: dh_power_def rand_at_def seconds_def)

theorem auth_key_from_clock_witness:
  "\<exists>s'. srl_auth (Suc 0) sample_menv (sample_mtx (sample_answers sample_g_a)) = Some s' \<and>
     mx_key s' = mk (me_bn2bin sample_menv (be_nat sample_g_a ^ be_nat (map (\<lambda>j. of_nat (me_rnd sample_menv
       (ucast (drop_bit 32 (me_clock sample_menv (mx_ticks (sample_mtx (sample_answers sample_g_a)) + 3)))) j mod 256)) [0..<256])
       mod be_nat (5 # replicate 255 0)))"
  by (rule auth_key_from_clock [OF sample_menv_ok(1,5) _ _ sample_run]) (simp_all add: sample_g_a_simps(1))

lemma sample_exponent: "rand_at sample_menv i 256 = replicate 255 0 @ [1]"
  by (rule nth_equalityI) (auto simp: rand_at_def sample_menv_def nth_append less_Suc_eq_0_disj simp del: upt_conv_Cons)

text \<open>
  Keys can be too short.  \<^verbatim>\<open>pow_mod\<close> leaves out the leading zeros of the power, so when the shared
  number is below \<open>256\<^sup>2\<^sup>5\<^sup>5\<close> the key has fewer than the 256 bytes that the server uses.
\<close>

theorem auth_short_key:
  assumes "mtx_env_ok env" and "me_pub env = Some (n, e)" "0 < n" "n \<le> 256 ^ 256"
    and "mx_in s = server_packets env i1 i2 i3 n0 n1 s1 n2 s2 n3 s3 snonce pq fps dg g p g_a time pad hash @ ins"
    and "\<forall>x \<in> {n0, n1, s1, n2, s2, n3, s3, snonce, hash}. length x = 16"
    and "length pq = 8" "fps \<noteq> []" "length fps \<le> 12" "length dg = 20" "length pad = 8" "length g = 4"
      "length p = 256" "0 < be_nat p" "length g_a = 256" "length time = 4"
    and "dh_power g_a (rand_at env (mx_ticks s + 3) 256) p < 256 ^ 255"
  shows "\<exists>s'. srl_auth (Suc k) env s = Some s' \<and> m_size (mx_key s') < 256"
proof -
  let ?key = "me_bn2bin env (dh_power g_a (rand_at env (mx_ticks s + 3) 256) p)"
  have "length ?key \<le> 255" using assms(1,17) by (intro bn2bin_length) (simp_all add: mtx_env_ok_def)
  then have "(of_nat (length ?key) :: u32) < 256" by (simp add: word_less_nat_alt unat_of_nat)
  with auth_run [OF assms(1-16), of k] show ?thesis by auto
qed

theorem auth_short_key_witness:
  "\<exists>s'. srl_auth (Suc 0) sample_menv (sample_mtx (sample_answers sample_g_a)) = Some s' \<and> m_size (mx_key s') < 256"
proof (rule auth_short_key [OF sample_menv_ok(1,5) _ _ sample_run])
  have "be_nat (replicate 255 0 @ [1]) = 1" "be_nat sample_g_a = 9" by (simp_all add: be_nat_append sample_g_a_def)
  then show "dh_power sample_g_a (rand_at sample_menv (mx_ticks (sample_mtx (sample_answers sample_g_a)) + 3) 256) (5 # replicate 255 0) < 256 ^ 255"
    unfolding sample_exponent dh_power_def by simp
qed (simp_all add: sample_g_a_simps(1))

text \<open>
  The same with RSA: a cipher text below \<open>256\<^sup>2\<^sup>5\<^sup>5\<close> is sent as a multiple of itself, shifted to the
  front of the 256 bytes, which the server cannot decrypt.
\<close>

theorem rsa_short_text_shifted:
  assumes "bn_ok env" and "me_pub env = Some (n, e)" "0 < n" "n \<le> 256 ^ 256" and "length xs = 255"
    and "y = be_nat xs ^ e mod n" "y < 256 ^ 255"
  shows "\<exists>c k. cry_rsa_e env (mk xs) = Some (mk c) \<and> length c = 256 \<and> 0 < k \<and> be_nat c = y * 256 ^ k"
proof -
  have "holds (mk xs) xs" using assms(5) by (simp add: holds_def mk_simps)
  then have "cry_rsa_e env (mk xs) = Some (mk (rsa_box env n e xs))" using assms by (intro rsa_e_holds)
  moreover have "length (me_bn2bin env y) \<le> 255" using bn2bin_length [OF assms(1,7)] .
  then have "0 < 256 - length (me_bn2bin env y)"
    "be_nat (rsa_box env n e xs) = y * 256 ^ (256 - length (me_bn2bin env y))"
    using assms(6) bn2bin_val [OF assms(1), of y] by (simp_all add: rsa_box_def Let_def be_nat_append)
  ultimately show ?thesis using rsa_box_length(2) [OF assms(1,3,4)] by blast
qed

theorem rsa_short_text_shifted_witness:
  "\<exists>c k. cry_rsa_e sample_menv (mk (replicate 255 1)) = Some (mk c) \<and> length c = 256 \<and> 0 < k \<and>
     be_nat c = (be_nat (replicate 255 1) ^ 17 mod 3233) * 256 ^ k"
proof (rule rsa_short_text_shifted [OF sample_menv_ok(2,5)])
  have "be_nat (replicate 255 1) ^ 17 mod 3233 < 3233" by (rule mod_less_divisor) simp
  then show "be_nat (replicate 255 1) ^ 17 mod 3233 < (256 :: nat) ^ 255" by (rule less_trans) simp
qed simp_all

lemma runaway_copy: "800 < unat n \<Longrightarrow> mbuf_add src p n = None"
  by (simp add: mbuf_add_def copy_loop_None mbuf_zero_def)

lemma lost_receive:
  assumes "length xs \<le> 800" and "mx_in s = Got [] # ins \<or> mx_in s = Failed # ins"
  shows "\<exists>nr s'. net_drive s (mk xs) SEND_RECEIVE = Some (nr, s') \<and> trl_detransport nr = None"
proof -
  have "mem_read (m_data (mk xs)) 0 (length xs) = Some xs" using assms(1) by (simp add: mem_read_def mk_simps)
  moreover have "trl_detransport (mbuf_zero\<lparr>m_size := - 1\<rparr>) = None"
    by (simp add: trl_detransport_def mbuf_skip_def runaway_copy unat_word_ariths bind_eq_None_conv)
  moreover have "trl_detransport (mk []) = None"
    using mbuf_skip_overrun [of "[]" 4] by (simp add: trl_detransport_def bind_eq_None_conv)
  moreover have "\<lparr>m_data = m_data mbuf_zero, m_size = 0\<rparr> = mk []" by (simp add: mk_def mbuf_zero_def)
  ultimately show ?thesis
    using assms by (auto simp: net_drive_def net_send_def net_receive_def)
qed

lemma stk_drive_lost:
  assumes "sel_serialize a = Some (mk body)" and "length body \<le> 776" and "a_type a = RFC" and "a_stk_mode a = SEND_RECEIVE"
    and "mx_in s = Got [] # ins \<or> mx_in s = Failed # ins"
  shows "stk_drive env s a = None"
proof -
  let ?s = "s\<lparr>mx_ticks := Suc (mx_ticks s)\<rparr>"
  let ?b = "le_bytes 8 (me_clock env (mx_ticks s) AND (- 4)) @ le_bytes 4 (of_nat (length body) :: u32) @ body"
  let ?w = "len_frame (le_bytes 8 (0 :: u64) @ ?b)"
  obtain nr s' where "net_drive ?s (mk ?w) SEND_RECEIVE = Some (nr, s')" "trl_detransport nr = None"
    using lost_receive [of ?w ?s ins] assms(2,5) by (auto simp: len_frame_def)
  then show ?thesis
    using assms by (simp add: stk_drive_def header_RFC_eq encrypt_RFC_eq transport_mk)
qed

text \<open>
  A connection that is closed or breaks before the first answer makes the exchange run over
  its buffers: the size of what was received is 0 or \<open>2\<^sup>3\<^sup>2 - 1\<close>, and taking off four bytes
  copies about four billion.
\<close>

theorem auth_lost_connection_undefined:
  assumes "mx_in s = Got [] # ins \<or> mx_in s = Failed # ins"
  shows "srl_auth fuel env s = None"
proof -
  let ?nonce = "rand_at env (mx_ticks s) 16" and ?s = "s\<lparr>mx_ticks := Suc (mx_ticks s)\<rparr>"
  let ?a = "\<lparr>a_params = [prm TYPE_ID (le_bytes 4 (0x60469778 :: u32)), prm TYPE_INT128 ?nonce], a_size = 2, a_type = RFC, a_stk_mode = SEND\<rparr>"
  have a: "sil_abstract (zero_ts\<lparr>ts_req_pq := asked ?nonce\<rparr>) = Some ?a"
    by (simp add: sil_abstract_def asked_def req_pq_def abstract_of_eq)
  have b: "sel_serialize ?a = Some (mk (req_pq_msg ?nonce))"
    using serialize_eq [of ?a "[le_bytes 4 (0x60469778 :: u32), ?nonce]"] by (simp add: req_pq_msg_def)
  have "stk_drive env ?s (?a\<lparr>a_stk_mode := SEND_RECEIVE\<rparr>) = None"
    by (rule stk_drive_lost [of _ "req_pq_msg ?nonce" _ ins]) (use assms b serialize_mode [where a = ?a] in \<open>auto simp: req_pq_msg_def\<close>)
  then show ?thesis
    using a by (simp add: srl_auth_def req_pq_init_eq method_req_pq_drive_def drive_def)
qed

theorem auth_lost_connection_undefined_witness:
  "srl_auth 5 sample_menv (sample_mtx [Failed]) = None"
  by (rule auth_lost_connection_undefined [of _ "[]"]) simp

section \<open>Containers\<close>

text \<open>A message in a container: identifier, sequence number, length, object.\<close>

definition boxed :: "u64 \<Rightarrow> u32 \<Rightarrow> u32 \<Rightarrow> byte list \<Rightarrow> byte list" where
  "boxed mid sq i xs = le_bytes 8 mid @ le_bytes 4 sq @ le_bytes 4 (of_nat (4 + length xs) :: u32) @ le_bytes 4 i @ xs"

lemma container_step_eq:
  assumes "length xs + length ys \<le> 780"
  shows "container_step f s (mk (boxed mid sq i xs @ ys)) = f s (answer i xs) \<bind> (\<lambda>s'. Some (mk ys, s'))"
proof -
  let ?o = "le_bytes 4 i @ xs" and ?n = "of_nat (4 + length xs) :: u32"
  have n: "unat ?n = 4 + length xs" using assms by (intro small_unat) simp
  have "mbuf_add (m_data (mk (le_bytes 4 ?n @ ?o @ ys))) 4 ?n = Some (mk ?o)"
    using assms by (subst mbuf_add_eq) (simp_all add: mk_simps)
  then have "hdl_deheader s (mk (boxed mid sq i xs @ ys)) CTER = Some (mk ?o, s)"
    using assms by (simp add: hdl_deheader_def boxed_def mbuf_get_ui32_eq)
  moreover have "sel_deserialize (mk ?o) = Some (answer i xs)"
    using assms by (simp add: deserialize_eq answer_def)
  moreover have "unat (?n + 16) = 20 + length xs" using assms n by (simp add: unat_word_ariths)
  moreover have "mbuf_add (m_data (mk (boxed mid sq i xs @ ys))) (20 + length xs) (of_nat (length ys)) = Some (mk ys)"
    using assms by (subst mbuf_add_eq) (simp_all add: mk_simps boxed_def)
  ultimately show ?thesis
    by (simp add: container_step_def boxed_def Let_def algebra_simps)
qed

lemma vector_loop_container:
  assumes "length ys \<le> 800" and "i + n \<le> 12"
  shows "vector_loop mtx_id_msg_container (mk ys) i n d = Some (if n = 0 then d else Some (mk ys))"
  using assms(2)
proof (induction n arbitrary: i d)
  case (Suc n)
  have "deserialize_scalar \<lparr>p_id = 0, p_value = mk ys, p_type = TYPE_MESSAGE\<rparr> = Some (mk ys)"
    using assms(1) by (simp add: deserialize_scalar_def)
  with Suc show ?case by (simp add: max_param_size_def mtx_id_msg_container_def mtx_id_resPQ_def)
qed simp

text \<open>Whatever number of messages a container announces, exactly two are read.\<close>

lemma concrete_container:
  assumes "0 < n" "n \<le> 12" "length ys \<le> 780"
  shows "sil_concrete (Suc k) s (answer mtx_id_msg_container (le_bytes 4 (of_nat n :: u32) @ ys)) =
    container_step (sil_concrete k) (fresh s) (mk ys) \<bind> (\<lambda>(pv, s). container_step (sil_concrete k) s pv \<bind> (\<lambda>(pv, s). Some s))"
proof -
  have q: "(of_nat n :: u32) \<noteq> 0" "unat (of_nat n :: u32) = n" using assms by (simp_all add: small_zero unat_of_nat)
  have "deser mtx_id_msg_container TYPE_VECTOR_MESSAGE (mk (le_bytes 4 mtx_id_Vector @ le_bytes 4 (of_nat n :: u32) @ ys)) =
      Some (prm TYPE_VECTOR_MESSAGE ys)"
    using assms q vector_loop_container [of ys 0 n None]
    by (simp add: deser_def sel_deserialize_param_def sel_deserialize_vector_def mbuf_get_ui32_eq Let_def prm_def)
  then show ?thesis
    using assms(3) mbuf_add_mk [of "le_bytes 4 (of_nat n :: u32) @ ys"]
    by (simp add: sil_concrete.simps(2) answer_def fresh_def mbuf_get_ui32_eq mtx_id_resPQ_def mtx_id_msg_container_def Let_def)
qed

text \<open>
  The container in which a server answers the first ping, a new session and the pong, is taken
  apart into both structs.
\<close>

theorem ping_container_parsed:
  assumes "length first = 8" "length unique = 8" "length salt = 8" "length m = 8" "length p = 8"
  shows "\<exists>s'. sil_concrete (Suc (Suc k)) s (answer mtx_id_msg_container (le_bytes 4 (2 :: u32) @
            boxed i1 q1 0x9ec20908 (first @ unique @ salt) @ boxed i2 q2 0x347773c5 (m @ p))) = Some s' \<and>
     ns_first_msg_id (ts_NewSession (mx_ts s')) = prm TYPE_LONG first \<and>
     ns_server_salt (ts_NewSession (mx_ts s')) = prm TYPE_LONG salt \<and>
     po_msg_id (ts_Pong (mx_ts s')) = prm TYPE_LONG m \<and> po_ping_id (ts_Pong (mx_ts s')) = prm TYPE_LONG p"
proof -
  let ?m1 = "boxed i1 q1 0x9ec20908 (first @ unique @ salt)" and ?m2 = "boxed i2 q2 0x347773c5 (m @ p)"
  have n: "sil_concrete (Suc k) s (answer 0x9ec20908 (first @ unique @ salt)) =
      Some ((fresh s)\<lparr>mx_ts := (mx_ts (fresh s))\<lparr>ts_NewSession := \<lparr>ns_type = API, ns_id = 0x9ec20908,
        ns_first_msg_id = prm TYPE_LONG first, ns_unique_id = prm TYPE_LONG unique, ns_server_salt = prm TYPE_LONG salt\<rparr>\<rparr>\<rparr>)" for s
    using assms deser_eq(3) [of salt "[]"]
    by (simp add: sil_concrete.simps(2) answer_def fresh_def mbuf_get_ui32_eq mtx_id_resPQ_def mtx_id_msg_container_def
          concrete_NewSession_def deser_eq Let_def)
  have o: "sil_concrete (Suc k) s (answer 0x347773c5 (m @ p)) =
      Some ((fresh s)\<lparr>mx_ts := (mx_ts (fresh s))\<lparr>ts_Pong := \<lparr>po_type = API, po_id = 0x347773c5,
        po_msg_id = prm TYPE_LONG m, po_ping_id = prm TYPE_LONG p\<rparr>\<rparr>\<rparr>)" for s
    using assms deser_eq(3) [of p "[]"]
    by (simp add: sil_concrete.simps(2) answer_def fresh_def mbuf_get_ui32_eq mtx_id_resPQ_def mtx_id_msg_container_def
          concrete_Pong_def deser_eq Let_def)
  have "container_step (sil_concrete (Suc k)) s' (mk ?m2) = sil_concrete (Suc k) s' (answer 0x347773c5 (m @ p)) \<bind> (\<lambda>s'. Some (mk [], s'))" for s'
    using container_step_eq [of "m @ p" "[]"] assms by simp
  moreover have "container_step (sil_concrete (Suc k)) s' (mk (?m1 @ ?m2)) =
      sil_concrete (Suc k) s' (answer 0x9ec20908 (first @ unique @ salt)) \<bind> (\<lambda>s'. Some (mk ?m2, s'))" for s'
    using assms by (intro container_step_eq) (simp add: boxed_def)
  moreover have "length (?m1 @ ?m2) \<le> 780" using assms by (simp add: boxed_def)
  ultimately show ?thesis
    using concrete_container [of 2 "?m1 @ ?m2" "Suc k" s] assms n o by simp
qed

theorem ping_container_parsed_witness:
  "\<exists>s'. sil_concrete (Suc (Suc 0)) (sample_mtx []) (answer mtx_id_msg_container (le_bytes 4 (2 :: u32) @
            boxed 1 1 0x9ec20908 (replicate 8 1 @ replicate 8 2 @ replicate 8 3) @
            boxed 5 2 0x347773c5 (replicate 8 4 @ replicate 8 0))) = Some s' \<and>
     ns_first_msg_id (ts_NewSession (mx_ts s')) = prm TYPE_LONG (replicate 8 1) \<and>
     ns_server_salt (ts_NewSession (mx_ts s')) = prm TYPE_LONG (replicate 8 3) \<and>
     po_msg_id (ts_Pong (mx_ts s')) = prm TYPE_LONG (replicate 8 4) \<and> po_ping_id (ts_Pong (mx_ts s')) = prm TYPE_LONG (replicate 8 0)"
  by (rule ping_container_parsed) simp_all

text \<open>
  A container of one message is read past its end: the loop always makes two passes, and the
  second has nothing to take a header from.
\<close>

theorem container_of_one_undefined:
  assumes "length xs \<le> 700"
  shows "sil_concrete fuel s (answer mtx_id_msg_container (le_bytes 4 (1 :: u32) @ boxed mid sq i xs)) = None"
proof (cases fuel)
  case (Suc k)
  have "hdl_deheader s' (mk []) CTER = None" for s'
    using mbuf_skip_overrun [of "[]" 8] by (simp add: hdl_deheader_def)
  then have "container_step (sil_concrete k) s' (mk []) = None" for s' by (simp add: container_step_def)
  moreover have "length (boxed mid sq i xs) \<le> 780" using assms by (simp add: boxed_def)
  ultimately show ?thesis
    using Suc concrete_container [of 1 "boxed mid sq i xs" k s] container_step_eq [of xs "[]"] assms
    by (simp add: bind_eq_None_conv)
qed (simp add: sil_concrete.simps)

theorem container_of_one_undefined_witness:
  "sil_concrete 9 (sample_mtx []) (answer mtx_id_msg_container (le_bytes 4 (1 :: u32) @
     boxed 5 2 0x347773c5 (replicate 16 0))) = None"
  by (rule container_of_one_undefined) simp

text \<open>
  The request of a login code cannot be built: it copies 32 bytes from a literal of one.
\<close>

theorem sendCode_reads_past_literal: "method_auth_sendCode_init = None"
proof -
  have "mbuf_add (literal []) 0 32 = None"
    by (simp add: mbuf_add_def literal_def copy_loop_None)
  then show ?thesis by (simp add: method_auth_sendCode_init_def bind_eq_None_conv)
qed

end
