(* ===== verification/Spec2Isabelle.thy ===== *)
theory Spec2Isabelle
  imports Tl_Roundtrip People_Props Chat_Props File_Props Updates Images Buf_Type Crc Socket_Mutex Sha256 Mtx_Theorems
begin

text \<open>
  A verification development for libtg, the MTProto client library under \<^verbatim>\<open>src/libtg\<close> of the iOS
  client iTgLegacy.

  \<^bold>\<open>The program.\<close>  A query is a buffer (\<^verbatim>\<open>tl/buf.c\<close>) that the TL codec (\<^verbatim>\<open>tl/serialize.c\<close>,
  \<^verbatim>\<open>tl/deserialize.c\<close>) has written.  \<^verbatim>\<open>tg/prepare_query.c\<close> sends it down three layers: the envelope
  with salt, session, identifiers and acknowledgements (\<^verbatim>\<open>tg/header.c\<close>, \<^verbatim>\<open>tg/ack.c\<close>), the encryption
  of MTProto 2.0 (\<^verbatim>\<open>tg/encrypt.c\<close>) and the transport (\<^verbatim>\<open>tg/transport.c\<close>).  \<^verbatim>\<open>tg/queue.c\<close> keeps the
  queries in a linked list (\<^verbatim>\<open>tg/list.h\<close>), runs one thread for each, receives packets, undoes the
  layers and hands every answer to the query it belongs to; redirections and flood waits
  (\<^verbatim>\<open>tg/errors.c\<close>) start the query again.  \<^verbatim>\<open>tg/send_query.c\<close> is the blocking variant.  On top of the
  queries stand the login (\<^verbatim>\<open>tg/connect.c\<close>, \<^verbatim>\<open>tg/auth.c\<close>, \<^verbatim>\<open>tg/2fa.c\<close>), the transfer of files (\<^verbatim>\<open>tg/files.c\<close>),
  peers (\<^verbatim>\<open>tg/peer.c\<close>), pictures (\<^verbatim>\<open>tg/images.c\<close>), updates (\<^verbatim>\<open>tg/updates.c\<close>), and the conversations
  (\<^verbatim>\<open>tg/messages.c\<close>, \<^verbatim>\<open>tg/dialogs.c\<close>) between users, chats and channels, which are kept in a database.  The
  authorisation key comes from the key exchange under \<^verbatim>\<open>mtx/src\<close>, a small program of its own with
  its own buffers, layers and digests, started when a client has no key.  The functions that write
  queries and read objects are generated: \<^verbatim>\<open>tl_generator\<close> reads the two schema files and writes C code, which
  calls the codec.

  \<^bold>\<open>Theories and sources.\<close>
  \<^item> \<open>Prelude\<close>: machine words, memory accesses with \<^term>\<open>None\<close> for undefined behaviour,
    little-endian encodings.  \<open>Framing\<close>: the interface of a layer (locales \<open>framing\<close>,
    \<open>framing_pair\<close>), interpreted on the layers of both stacks.  \<open>Hash_Stream\<close>: the interface of
    a streaming hash (locale \<open>block_stream\<close>), interpreted on both digests.  \<open>Big_Num\<close>: numbers as
    big-endian bytes.
  \<^item> \<open>Buf\<close>, \<open>Buf_Type\<close>, \<open>Tl_Codec\<close>: \<^verbatim>\<open>tl/buf.c\<close> and its discipline; \<^verbatim>\<open>tl/serialize.c\<close> and \<^verbatim>\<open>tl/deserialize.c\<close>.  A \<open>buf\<close> is the C struct
    with its allocation, an operation that can leave it returns an option.
  \<^item> \<open>Tg_State\<close>, \<open>Header\<close>, \<open>Encrypt\<close>, \<open>Transport\<close>, \<open>Tg_Core\<close>: the client object \<open>tg\<close> (\<^verbatim>\<open>tg/tg.h\<close>,
    \<^verbatim>\<open>tg/tg.c\<close>, \<^verbatim>\<open>tg/ack.c\<close>), then one theory for each layer, named as its file.
  \<^item> \<open>Tl_Object\<close>, \<open>Errors\<close>, \<open>Answer\<close>: the objects the handlers look into; \<^verbatim>\<open>tg/errors.c\<close>,
    \<^verbatim>\<open>tg/strerr.c\<close>, \<^verbatim>\<open>tg/dc.h\<close>; \<^verbatim>\<open>tg/answer.c\<close>.
  \<^item> \<open>List_H\<close>, \<open>Queue\<close>, \<open>Queue_Props\<close>, \<open>Thread_Props\<close>, \<open>Socket_Mutex\<close>: \<^verbatim>\<open>tg/list.h\<close> on a heap of cells
    (locale \<open>item_list\<close>); \<^verbatim>\<open>tg/queue.c\<close> as functions on a system of client, heap of queries,
    list and trace of effects; the lock around receiving as a step relation.
  \<^item> \<open>Send_Query\<close>: \<^verbatim>\<open>tg/send_query.c\<close> and \<^verbatim>\<open>tg/net.c\<close>.  \<open>Sync_Query\<close>: the synchronous calls of \<^verbatim>\<open>tg/queue.c\<close>.
  \<^item> \<open>Password\<close>, \<open>Login\<close>: the password check of \<^verbatim>\<open>tg/2fa.c\<close> with \<^verbatim>\<open>crypto/pbkdf2.c\<close>; \<^verbatim>\<open>tg/auth.c\<close>, the
    queries of \<^verbatim>\<open>tg/2fa.c\<close>, \<^verbatim>\<open>tg/connect.c\<close>.
  \<^item> \<open>Peer\<close>, \<open>Files\<close>, \<open>File_Props\<close>: \<^verbatim>\<open>tg/peer.c\<close>; \<^verbatim>\<open>tg/files.c\<close> as functions on a transfer, the login with what
    the callbacks were given; its properties.  \<open>Updates\<close>: \<^verbatim>\<open>tg/updates.c\<close> as the calls of the
    handler.  \<open>Base64\<close>: \<^verbatim>\<open>tl/base64.h\<close>.  \<open>Images\<close>: \<^verbatim>\<open>tl/str.h\<close> and \<^verbatim>\<open>tg/images.c\<close>.
  \<^item> \<open>Schema\<close>, \<open>Generator\<close>: \<^verbatim>\<open>tl_generator/tl_parser.c\<close>; \<^verbatim>\<open>tl_generator/generator.c\<close>, with a datatype
    for the lines it writes and a function that prints them (\<^verbatim>\<open>tl/free.c\<close> is \<open>free_source\<close> of the schemas).
    \<open>Generated\<close>: what these lines do, executed on the buffers and the codec above.  \<open>Tl_Wire\<close>,
    \<open>Tl_Roundtrip\<close>: the wire format, that query functions write it and readers read it.
  \<^item> \<open>Rows\<close>, \<open>People\<close>: the lists of members that users, chats and channels are declared by, with their expansions as
    functions over such a list; \<^verbatim>\<open>tg/user.c\<close>, \<^verbatim>\<open>tg/chat.c\<close>, \<^verbatim>\<open>tg/channel.c\<close>.  \<open>Sql\<close>: a parser for the statements they write.
    \<open>People_Props\<close>: what is stored and what comes back.
  \<^item> \<open>Messages\<close>, \<open>Message_Queries\<close>, \<open>Dialogs\<close>, \<open>Chat_Props\<close>: the structs of messages and their database, the
    queries of \<^verbatim>\<open>tg/messages.c\<close>; \<^verbatim>\<open>tg/dialogs.c\<close>; what the callbacks see.  \<open>Tl_Local\<close>: that a reader does not
    depend on the memory behind its bytes, so that an object can be read again from the database.
  \<^item> \<open>Sha256\<close>, \<open>Sha1\<close>, \<open>Crc\<close>: \<^verbatim>\<open>mtx/src/sha256.c\<close>, \<^verbatim>\<open>mtx/src/sha1.c\<close> with HMAC, \<^verbatim>\<open>mtx/src/crc.c\<close>.
  \<^item> \<open>Mtx_Buf\<close>, \<open>Mtx_Types\<close>, \<open>Mtx_Layers\<close>, \<open>Mtx_Layer_Props\<close>: \<^verbatim>\<open>mtx/src/buf.c\<close>; the structs of
    \<^verbatim>\<open>mtx/include/tgt.h\<close> and the state of \<^verbatim>\<open>mtx/src/types.c\<close>; the layers \<^verbatim>\<open>sel\<close>, \<^verbatim>\<open>hdl\<close>, \<^verbatim>\<open>enl\<close>, \<^verbatim>\<open>trl\<close>,
    \<^verbatim>\<open>net\<close>, \<^verbatim>\<open>stk\<close> and the wrappers \<^verbatim>\<open>cry\<close>, \<^verbatim>\<open>cmn\<close>, \<^verbatim>\<open>hsh\<close>, \<^verbatim>\<open>rsa\<close>; what they do to byte strings.
  \<^item> \<open>Mtx_Auth\<close>, \<open>Mtx_Auth_Props\<close>, \<open>Mtx_Theorems\<close>: \<^verbatim>\<open>sil\<close>, \<^verbatim>\<open>tgt\<close>, \<^verbatim>\<open>srl\<close>, \<^verbatim>\<open>scl\<close>, \<^verbatim>\<open>app\<close>; the run of the
    exchange step by step; its properties.
  \<^item> This theory: how the key exchange and the client library fit together.

  \<^bold>\<open>What is shown.\<close>  Each operation on buffers has a closed form on bytes.  Strings, words and
  messages survive the codec.  For every schema, the parser finds what was declared, the generator leaves
  nothing out, and an object that a generated function writes is the object that the generated reader
  returns.  A query leaves the client as the frame, sealing and envelope
  of MTProto, and a packet the server built the same way reaches the handler.  No callback
  runs twice and a result goes to its query only; a synchronous call returns the answer that
  the server sent.  A password is proved as a server of the protocol expects it, and
  nothing is stored or announced by a login that fails.  A download ends and is complete, a
  small file is uploaded in the parts the protocol wants, updates are delivered in order.  Users, chats and messages
  come back from the database as they were, messages reach the callback in order, a list of dialogs in one answer is complete.  Both digests are FIPS 180-4, HMAC is
  RFC 2104.  The key exchange sends the messages of the protocol, both sides get the same
  number, and the client library gets a session that its layers accept.  Other theorems show
  where a promise breaks: what the key exchange and the decryption do not check, the
  predictable secrets, keys that are too short, connections that end, containers of one
  message, answers that are announced or lost, lists of dialogs that take more than one answer.

  \<^bold>\<open>Surroundings.\<close>  The clock, \<^verbatim>\<open>rand\<close>, mutexes, sockets, zlib, the AES and big numbers of OpenSSL, the
  factorisation in C++ and the generated tables (in the theories of the handlers) are parameters (the records \<open>env\<close>,
  \<open>lib\<close>, \<open>world\<close>, \<open>net\<close>, \<open>menv\<close>).  Theorems name what they assume of them (\<open>crypto_ok\<close>, \<open>locks_ok\<close>,
  \<open>bn_ok\<close>, \<open>ige_ok\<close> and so on), and their witnesses use concrete functions.

  \<^bold>\<open>Fuel.\<close>  \<open>handle_tl\<close> and \<open>sil_concrete\<close> take fuel for the nesting of packed objects and containers,
  one unit for each level; the loops of \<open>Send_Query\<close> one for each packet and each attempt, those of \<open>Files\<close> one
  for each part and each attempt, that of \<open>Dialogs\<close> one for each page; that of \<open>deserialize_obj\<close> is the nesting of objects, for which the
  number of bytes is enough; the request for a code one for each redirection.  The
  theorems state results for every fuel that is large enough, written \<open>Suc n\<close>.  All other
  loops are structural recursions.

  \<^bold>\<open>Not modelled.\<close>  Logging and hex dumps; freeing of memory; the Windows variants; the key exchange
  of \<^verbatim>\<open>tg/auth_key.c\<close>, which is not built; the calls of sqlite in
  \<^verbatim>\<open>tg/database.c\<close>; the direct calls of \<^verbatim>\<open>tg/run_api.c\<close>, which is not built; the JSON tables of the generator, which it never
  writes; the application and the vendored libraries.
\<close>

section \<open>From the key exchange to the first query\<close>

text \<open>What the client library reads of the key exchange when it returns.\<close>

definition rc_of :: "mtx \<Rightarrow> shared_rc" where
  "rc_of s = \<lparr>rc_key = mbytes (mx_key s), rc_salt = mbytes (mx_salt s), rc_sockfd = mx_sockfd s, rc_seqnh = mx_seqnh s\<rparr>"

lemma app_open_run:
  assumes "mtx_env_ok env" and "me_pub env = Some (n, e)" "0 < n" "n \<le> 256 ^ 256"
    and "mx_in s = server_packets env i1 i2 i3 n0 n1 s1 n2 s2 n3 s3 snonce pq fps dg g p g_a time pad hash @ ins"
    and "\<forall>x \<in> {n0, n1, s1, n2, s2, n3, s3, snonce, hash}. length x = 16"
    and "length pq = 8" "fps \<noteq> []" "length fps \<le> 12" "length dg = 20" "length pad = 8" "length g = 4"
      "length p = 256" "0 < be_nat p" "length g_a = 256" "length time = 4"
  shows "\<exists>s'. app_open (Suc k) env s = Some s' \<and>
     mx_key s' = mk (me_bn2bin env (dh_power g_a (rand_at env (mx_ticks s + 3) 256) p)) \<and>
     mx_salt s' = mk (substr snonce 0 8) \<and> mx_sockfd s' = me_socket env \<and> mx_seqnh s' = 0"
proof -
  let ?s = "net_open env (reset_shared_rc s)"
  have "mx_in ?s = mx_in s" "mx_ticks ?s = mx_ticks s" "mx_sockfd ?s = me_socket env" "mx_seqnh ?s = 0"
    by (simp_all add: net_open_def reset_shared_rc_def)
  moreover from this(1) have "mx_in ?s = server_packets env i1 i2 i3 n0 n1 s1 n2 s2 n3 s3 snonce pq fps dg g p g_a time pad hash @ ins"
    using assms(5) by simp
  note auth_run [OF assms(1-4) this assms(6-16), of k]
  ultimately show ?thesis by (auto simp: app_open_def scl_open_def)
qed


definition sample_client :: via where
  "sample_client = (sample_via [])\<lparr>v_tg := sample_tg\<lparr>tg_key := mkbuf []\<rparr>\<rparr>"

definition full_g_a :: "byte list" where
  "full_g_a = 2 # replicate 255 0"


end
